(* ===== verification/Prelude.thy ===== *)
theory Prelude
  imports Main
begin

text \<open>
  Shared vocabulary of the development: the result type of code that can throw, its
  sequencing and loop combinators, insertion-ordered association lists (the model of a
  JavaScript \<open>Map\<close>, \<open>Set\<close> and plain object), and the named theorem collections the
  component theories add to.
\<close>

named_theorems res_simps \<open>unfolding rules for code that can throw\<close>
named_theorems amap_simps \<open>lookup and key rules of insertion-ordered maps\<close>
named_theorems qmark_simps \<open>placeholder rules of rendered SQL text\<close>

section \<open>Results of code that can throw\<close>

text \<open>
  A JavaScript function that may throw is a function into \<open>js_error + 'a\<close>: \<open>Inl\<close> is
  the thrown error (its class name and message), \<open>Inr\<close> the returned value.
\<close>

datatype js_error = JsError (err_class: string) (err_msg: string)

type_synonym 'a res = "js_error + 'a"

abbreviation throw :: "string \<Rightarrow> 'a res" where
  "throw msg \<equiv> Inl (JsError ''Error'' msg)"

abbreviation throw_type :: "string \<Rightarrow> 'a res" where
  "throw_type msg \<equiv> Inl (JsError ''TypeError'' msg)"

definition bindR :: "'e + 'a \<Rightarrow> ('a \<Rightarrow> 'e + 'b) \<Rightarrow> 'e + 'b" where
  "bindR r f = (case r of Inl e \<Rightarrow> Inl e | Inr x \<Rightarrow> f x)"

lemma bindR_simps [simp]:
  "bindR (Inl e) f = Inl e"
  "bindR (Inr x) f = f x"
  by (simp_all add: bindR_def)

lemma bindR_Inr_iff: "bindR r f = Inr y \<longleftrightarrow> (\<exists>x. r = Inr x \<and> f x = Inr y)"
  by (cases r) auto

lemma bindR_Inl_iff: "bindR r f = Inl e \<longleftrightarrow> r = Inl e \<or> (\<exists>x. r = Inr x \<and> f x = Inl e)"
  by (cases r) auto

lemma bindR_InrE:
  assumes "bindR r f = Inr y"
  obtains x where "r = Inr x" "f x = Inr y"
  using assms by (auto simp: bindR_Inr_iff)

lemma bindR_cong [fundef_cong]:
  "r = r' \<Longrightarrow> (\<And>x. r' = Inr x \<Longrightarrow> f x = g x) \<Longrightarrow> bindR r f = bindR r' g"
  by (cases r') auto

text \<open>Searching mapped and concatenated lists.\<close>

lemma find_map_same: "(\<And>x. P (f x) = P x) \<Longrightarrow> find P (map f xs) = map_option f (find P xs)"
  by (induction xs) auto

lemma find_append: "find P (xs @ ys) = (case find P xs of None \<Rightarrow> find P ys | Some x \<Rightarrow> Some x)"
  by (induction xs) auto

text \<open>\<open>xs.map(f)\<close> where \<open>f\<close> may throw: the first error wins.\<close>

fun mapR :: "('a \<Rightarrow> 'e + 'b) \<Rightarrow> 'a list \<Rightarrow> 'e + 'b list" where
  "mapR f [] = Inr []"
| "mapR f (x # xs) = bindR (f x) (\<lambda>y. bindR (mapR f xs) (\<lambda>ys. Inr (y # ys)))"

text \<open>A \<open>for\<close> loop over \<open>xs\<close> that carries a state and may throw.\<close>

fun foldR :: "('a \<Rightarrow> 's \<Rightarrow> 'e + 's) \<Rightarrow> 'a list \<Rightarrow> 's \<Rightarrow> 'e + 's" where
  "foldR f [] s = Inr s"
| "foldR f (x # xs) s = bindR (f x s) (foldR f xs)"

lemmas res_intro [res_simps] = bindR_Inr_iff bindR_Inl_iff

lemma mapR_length: "mapR f xs = Inr ys \<Longrightarrow> length ys = length xs"
  by (induction xs arbitrary: ys) (auto simp: bindR_Inr_iff)

lemma mapR_Inr_nth:
  "mapR f xs = Inr ys \<longleftrightarrow> length ys = length xs \<and> (\<forall>i < length xs. f (xs ! i) = Inr (ys ! i))"
proof (induction xs arbitrary: ys)
  case Nil
  then show ?case by auto
next
  case (Cons x xs)
  show ?case
  proof (cases ys)
    case Nil
    then show ?thesis by (auto simp: bindR_Inr_iff)
  next
    case (Cons y zs)
    have "mapR f (x # xs) = Inr (y # zs) \<longleftrightarrow> f x = Inr y \<and> mapR f xs = Inr zs"
      by (auto simp: bindR_Inr_iff)
    also have "\<dots> \<longleftrightarrow> f x = Inr y \<and> length zs = length xs \<and> (\<forall>i < length xs. f (xs ! i) = Inr (zs ! i))"
      using Cons.IH by simp
    also have "\<dots> \<longleftrightarrow> length (y # zs) = length (x # xs) \<and>
        (\<forall>i < length (x # xs). f ((x # xs) ! i) = Inr ((y # zs) ! i))"
      by (auto simp: nth_Cons less_Suc_eq_0_disj split: nat.splits)
    finally show ?thesis using Cons by simp
  qed
qed

lemma mapR_all:
  "mapR f xs = Inr ys \<Longrightarrow> (\<And>x y. x \<in> set xs \<Longrightarrow> f x = Inr y \<Longrightarrow> P y) \<Longrightarrow> y \<in> set ys \<Longrightarrow> P y"
  by (induction xs arbitrary: ys) (force simp: bindR_Inr_iff)+

lemma mapR_total: "(\<And>x. x \<in> set xs \<Longrightarrow> f x = Inr (g x)) \<Longrightarrow> mapR f xs = Inr (map g xs)"
  by (induction xs) auto

lemma foldR_append: "foldR f (xs @ ys) s = bindR (foldR f xs s) (foldR f ys)"
  by (induction xs arbitrary: s) (auto simp: bindR_def split: sum.splits)

lemma foldR_invariant:
  assumes "foldR f xs s = Inr t" and "I s"
    and "\<And>x u v. x \<in> set xs \<Longrightarrow> I u \<Longrightarrow> f x u = Inr v \<Longrightarrow> I v"
  shows "I t"
  using assms by (induction xs arbitrary: s) (auto simp: bindR_Inr_iff)

section \<open>Insertion-ordered maps\<close>

text \<open>
  JavaScript's \<open>Map\<close> keeps its keys in the order of their first insertion; \<open>set\<close> on a
  present key keeps the key's place, \<open>delete\<close> forgets it. The model is an association
  list with distinct keys.
\<close>

type_synonym ('k, 'v) amap = "('k \<times> 'v) list"

fun amap_set :: "'k \<Rightarrow> 'v \<Rightarrow> ('k, 'v) amap \<Rightarrow> ('k, 'v) amap" where
  "amap_set k v [] = [(k, v)]"
| "amap_set k v ((k', v') # m) = (if k = k' then (k, v) # m else (k', v') # amap_set k v m)"

definition amap_del :: "'k \<Rightarrow> ('k, 'v) amap \<Rightarrow> ('k, 'v) amap" where
  "amap_del k m = filter (\<lambda>(k', _). k' \<noteq> k) m"

abbreviation amap_get :: "('k, 'v) amap \<Rightarrow> 'k \<Rightarrow> 'v option" where
  "amap_get \<equiv> map_of"

definition amap_has :: "'k \<Rightarrow> ('k, 'v) amap \<Rightarrow> bool" where
  "amap_has k m \<longleftrightarrow> map_of m k \<noteq> None"

abbreviation amap_keys :: "('k, 'v) amap \<Rightarrow> 'k list" where
  "amap_keys m \<equiv> map fst m"

definition amap_ok :: "('k, 'v) amap \<Rightarrow> bool" where
  "amap_ok m \<longleftrightarrow> distinct (amap_keys m)"

text \<open>\<open>new Map(entries)\<close>: entries are set from left to right.\<close>

definition amap_of :: "('k \<times> 'v) list \<Rightarrow> ('k, 'v) amap" where
  "amap_of kvs = fold (\<lambda>(k, v). amap_set k v) kvs []"

text \<open>\<open>new Set(xs)\<close> and \<open>[...new Set(xs)]\<close>: first occurrences, in order.\<close>

fun uniq_acc :: "'a list \<Rightarrow> 'a list \<Rightarrow> 'a list" where
  "uniq_acc seen [] = []"
| "uniq_acc seen (x # xs) = (if x \<in> set seen then uniq_acc seen xs else x # uniq_acc (x # seen) xs)"

definition uniq :: "'a list \<Rightarrow> 'a list" where
  "uniq xs = uniq_acc [] xs"

text \<open>\<open>s.add(x)\<close> on an insertion-ordered set.\<close>

definition oset_add :: "'a \<Rightarrow> 'a list \<Rightarrow> 'a list" where
  "oset_add x xs = (if x \<in> set xs then xs else xs @ [x])"

lemma amap_set_lookup [simp, amap_simps]: "map_of (amap_set k v m) = (map_of m)(k \<mapsto> v)"
  by (induction m) auto

lemma amap_set_keys [amap_simps]:
  "amap_keys (amap_set k v m) = (if k \<in> set (amap_keys m) then amap_keys m else amap_keys m @ [k])"
  by (induction m) force+

lemma amap_set_keys_set [simp]: "fst ` set (amap_set k v m) = insert k (fst ` set m)"
proof -
  have "set (amap_keys (amap_set k v m)) = insert k (set (amap_keys m))"
    unfolding amap_set_keys by auto
  then show ?thesis by simp
qed

lemma amap_set_length: "length (amap_set k v m) = (if k \<in> set (amap_keys m) then length m else Suc (length m))"
  by (induction m) force+

lemma amap_del_lookup [simp, amap_simps]: "map_of (amap_del k m) = (map_of m)(k := None)"
  by (induction m) (auto simp: amap_del_def)

lemma amap_del_keys [amap_simps]: "amap_keys (amap_del k m) = filter (\<lambda>k'. k' \<noteq> k) (amap_keys m)"
  by (induction m) (auto simp: amap_del_def)

lemma amap_del_keys_set [simp]: "fst ` set (amap_del k m) = fst ` set m - {k}"
  by (auto simp: amap_del_def image_iff)

lemma amap_del_length: "length (amap_del k m) \<le> length m"
  by (simp add: amap_del_def)

lemma amap_ok_empty [simp, intro]: "amap_ok []"
  by (simp add: amap_ok_def)

lemma amap_ok_set [simp, intro]: "amap_ok m \<Longrightarrow> amap_ok (amap_set k v m)"
  by (simp add: amap_ok_def amap_set_keys)

lemma amap_ok_del [simp, intro]: "amap_ok m \<Longrightarrow> amap_ok (amap_del k m)"
  by (simp add: amap_ok_def amap_del_keys)

lemma amap_has_iff [amap_simps]: "amap_has k m \<longleftrightarrow> k \<in> set (amap_keys m)"
  by (auto simp: amap_has_def map_of_eq_None_iff)

lemma amap_ok_fold: "amap_ok m \<Longrightarrow> amap_ok (fold (\<lambda>(k, v). amap_set k v) kvs m)"
  by (induction kvs arbitrary: m) auto

lemma amap_ok_of [simp, intro]: "amap_ok (amap_of kvs)"
  unfolding amap_of_def by (rule amap_ok_fold) simp

lemma amap_of_lookup_acc:
  "map_of (fold (\<lambda>(k, v). amap_set k v) kvs m) = map_of m ++ map_of (rev kvs)"
  by (induction kvs arbitrary: m) (auto simp: map_add_def fun_eq_iff split: option.splits)

text \<open>The last entry of a duplicated key is the one found.\<close>

lemma amap_of_lookup: "map_of (amap_of kvs) = map_of (rev kvs)"
  by (simp add: amap_of_def amap_of_lookup_acc)

lemma amap_of_keys_set: "set (amap_keys (amap_of kvs)) = fst ` set kvs"
proof -
  have "dom (map_of (amap_of kvs)) = dom (map_of (rev kvs))"
    by (simp add: amap_of_lookup)
  then show ?thesis by (simp add: dom_map_of_conv_image_fst)
qed

lemma amap_set_distinct_fresh: "k \<notin> set (amap_keys m) \<Longrightarrow> amap_set k v m = m @ [(k, v)]"
  by (induction m) auto

lemma amap_fold_distinct:
  "distinct (map fst kvs) \<Longrightarrow> set (map fst kvs) \<inter> set (amap_keys m) = {} \<Longrightarrow>
     fold (\<lambda>(k, v). amap_set k v) kvs m = m @ kvs"
proof (induction kvs arbitrary: m)
  case Nil
  then show ?case by simp
next
  case (Cons kv kvs)
  obtain k v where kv: "kv = (k, v)" by (cases kv)
  from Cons.prems kv have fresh: "k \<notin> set (amap_keys m)" by auto
  have "fold (\<lambda>(k, v). amap_set k v) kvs (m @ [(k, v)]) = (m @ [(k, v)]) @ kvs"
    by (rule Cons.IH) (use Cons.prems kv in auto)
  with kv fresh show ?case by (simp add: amap_set_distinct_fresh)
qed

lemma amap_of_distinct: "distinct (map fst kvs) \<Longrightarrow> amap_of kvs = kvs"
  by (simp add: amap_of_def amap_fold_distinct)

lemma amap_ok_in_lookup: "amap_ok m \<Longrightarrow> (k, v) \<in> set m \<longleftrightarrow> map_of m k = Some v"
  by (auto simp: amap_ok_def map_of_is_SomeI dest: map_of_SomeD)

lemma uniq_acc_set: "set (uniq_acc seen xs) = set xs - set seen"
  by (induction xs arbitrary: seen) auto

lemma uniq_acc_distinct: "distinct (uniq_acc seen xs)"
  by (induction xs arbitrary: seen) (auto simp: uniq_acc_set)

lemma uniq_set [simp]: "set (uniq xs) = set xs"
  by (simp add: uniq_def uniq_acc_set)

lemma uniq_distinct [simp, intro]: "distinct (uniq xs)"
  by (simp add: uniq_def uniq_acc_distinct)

lemma oset_add_set [simp]: "set (oset_add x xs) = insert x (set xs)"
  by (auto simp: oset_add_def)

lemma oset_add_distinct [simp, intro]: "distinct xs \<Longrightarrow> distinct (oset_add x xs)"
  by (auto simp: oset_add_def)

section \<open>Integer division\<close>

lemma div_bounds: "0 < k \<Longrightarrow> k * (x div k) \<le> x \<and> x < k * (x div k) + k" for x k :: int
  using mult_div_mod_eq [of k x] pos_mod_sign [of k x] pos_mod_bound [of k x] by linarith

lemma div_eqI: "k * q \<le> x \<Longrightarrow> x < k * q + k \<Longrightarrow> x div k = q" for x k q :: int
  by (rule int_div_pos_eq [of x k q "x - k * q"]) auto

lemma div_succ:
  fixes x k :: int
  assumes "0 < k"
  shows "(x + 1) div k = x div k + (if (x + 1) mod k = 0 then 1 else 0)"
proof -
  note B = div_bounds [OF assms, of x]
  show ?thesis
  proof (cases "(x + 1) mod k = 0")
    case True
    then have e: "k * ((x + 1) div k) = x + 1" using mult_div_mod_eq [of k "x + 1"] by simp
    then have "k * (x div k) < k * ((x + 1) div k)" "k * ((x + 1) div k) \<le> k * (x div k + 1)"
      using B by (auto simp: algebra_simps)
    then have "x div k < (x + 1) div k" "(x + 1) div k \<le> x div k + 1"
      using assms by (auto simp: mult_less_cancel_left mult_le_cancel_left)
    then show ?thesis using True by simp
  next
    case False
    then have "x + 1 \<noteq> k * (x div k + 1)" by auto
    then have "(x + 1) div k = x div k"
      using B by (intro div_eqI) (auto simp: algebra_simps)
    then show ?thesis using False by simp
  qed
qed

section \<open>Runs of a deterministic machine\<close>

text \<open>
  A component whose operations are total functions on its state runs a list of operations
  from the left. An invariant of one step is an invariant of a run.
\<close>

locale step_invariant =
  fixes step :: "'op \<Rightarrow> 's \<Rightarrow> 's"
    and inv :: "'s \<Rightarrow> bool"
  assumes step_keeps: "inv s \<Longrightarrow> inv (step x s)"
begin

lemma run_keeps: "inv s \<Longrightarrow> inv (fold step xs s)"
  by (induction xs arbitrary: s) (auto intro: step_keeps)

lemma run_prefix: "inv s \<Longrightarrow> inv (fold step (take n xs) s)"
  by (rule run_keeps)

end

end
