(* ===== verification/JsString.thy ===== *)
theory JsString
  imports Prelude
begin

text \<open>
  JavaScript strings as HOL strings. A \<open>char\<close> is one 8-bit code unit, so the model covers
  ASCII text exactly; longer Unicode text would be its UTF-8 bytes, and \<open>length\<close> then counts
  bytes. The functions are the methods the source calls: \<open>trim\<close>, \<open>toLowerCase\<close>,
  \<open>startsWith\<close>, \<open>includes\<close>, \<open>indexOf\<close>, \<open>slice\<close>, \<open>split\<close>, \<open>join\<close>, the decimal
  rendering of a natural number, and the character classes of the source's regular
  expressions.
\<close>

section \<open>Character classes\<close>

definition char_code :: "char \<Rightarrow> nat" where
  "char_code c = of_char c"

definition is_digit :: "char \<Rightarrow> bool" where
  "is_digit c \<longleftrightarrow> 48 \<le> char_code c \<and> char_code c \<le> 57"

definition is_lower :: "char \<Rightarrow> bool" where
  "is_lower c \<longleftrightarrow> 97 \<le> char_code c \<and> char_code c \<le> 122"

definition is_upper :: "char \<Rightarrow> bool" where
  "is_upper c \<longleftrightarrow> 65 \<le> char_code c \<and> char_code c \<le> 90"

definition is_alpha :: "char \<Rightarrow> bool" where
  "is_alpha c \<longleftrightarrow> is_lower c \<or> is_upper c"

text \<open>\<open>\s\<close>: tab, line feed, vertical tab, form feed, carriage return, space.\<close>

definition is_space :: "char \<Rightarrow> bool" where
  "is_space c \<longleftrightarrow> (9 \<le> char_code c \<and> char_code c \<le> 13) \<or> char_code c = 32"

text \<open>\<open>\w\<close>, \<open>[A-Za-z0-9_]\<close>.\<close>

definition is_word :: "char \<Rightarrow> bool" where
  "is_word c \<longleftrightarrow> is_alpha c \<or> is_digit c \<or> c = CHR ''_''"

text \<open>\<open>[0-9a-fA-F]\<close>.\<close>

definition is_hex :: "char \<Rightarrow> bool" where
  "is_hex c \<longleftrightarrow> is_digit c \<or> (97 \<le> char_code c \<and> char_code c \<le> 102) \<or> (65 \<le> char_code c \<and> char_code c \<le> 70)"

lemmas char_class_defs =
  is_digit_def is_lower_def is_upper_def is_alpha_def is_space_def is_word_def is_hex_def

lemma char_code_inject [simp]: "char_code c = char_code d \<longleftrightarrow> c = d"
  by (simp add: char_code_def)

definition lower_char :: "char \<Rightarrow> char" where
  "lower_char c = (if is_upper c then char_of (char_code c + 32) else c)"

definition to_lower :: "string \<Rightarrow> string" where
  "to_lower s = map lower_char s"

definition upper_char :: "char \<Rightarrow> char" where
  "upper_char c = (if is_lower c then char_of (char_code c - 32) else c)"

definition to_upper :: "string \<Rightarrow> string" where
  "to_upper s = map upper_char s"

section \<open>Methods of strings\<close>

definition trim_start :: "string \<Rightarrow> string" where
  "trim_start s = dropWhile is_space s"

definition trim :: "string \<Rightarrow> string" where
  "trim s = rev (trim_start (rev (trim_start s)))"

fun starts_with :: "string \<Rightarrow> string \<Rightarrow> bool" where
  "starts_with s [] = True"
| "starts_with [] (p # ps) = False"
| "starts_with (c # s) (p # ps) = (c = p \<and> starts_with s ps)"

text \<open>\<open>s.indexOf(p)\<close>, \<open>None\<close> for -1.\<close>

fun index_of :: "string \<Rightarrow> string \<Rightarrow> nat option" where
  "index_of [] p = (if p = [] then Some 0 else None)"
| "index_of (c # s) p = (if starts_with (c # s) p then Some 0 else map_option Suc (index_of s p))"

definition str_includes :: "string \<Rightarrow> string \<Rightarrow> bool" where
  "str_includes s p \<longleftrightarrow> index_of s p \<noteq> None"

text \<open>\<open>s.slice(i)\<close> and \<open>s.slice(i, j)\<close> for non-negative positions.\<close>

definition slice_from :: "nat \<Rightarrow> string \<Rightarrow> string" where
  "slice_from i s = drop i s"

definition slice :: "nat \<Rightarrow> nat \<Rightarrow> string \<Rightarrow> string" where
  "slice i j s = drop i (take j s)"

fun split_acc :: "char \<Rightarrow> string \<Rightarrow> string \<Rightarrow> string list" where
  "split_acc d acc [] = [rev acc]"
| "split_acc d acc (c # s) = (if c = d then rev acc # split_acc d [] s else split_acc d (c # acc) s)"

text \<open>\<open>s.split(d)\<close> for a one-character separator: never empty.\<close>

definition split_on :: "char \<Rightarrow> string \<Rightarrow> string list" where
  "split_on d s = split_acc d [] s"

fun join_with :: "string \<Rightarrow> string list \<Rightarrow> string" where
  "join_with sep [] = []"
| "join_with sep [x] = x"
| "join_with sep (x # y # xs) = x @ sep @ join_with sep (y # xs)"

text \<open>\<open>a < b\<close> on strings: lexicographic by code unit.\<close>

fun str_less :: "string \<Rightarrow> string \<Rightarrow> bool" where
  "str_less s [] = False"
| "str_less [] (c # t) = True"
| "str_less (a # s) (b # t) = (char_code a < char_code b \<or> (a = b \<and> str_less s t))"

section \<open>Decimal digits\<close>

definition digit_char :: "nat \<Rightarrow> char" where
  "digit_char n = char_of (48 + n)"

definition digit_val :: "char \<Rightarrow> int" where
  "digit_val c = int (char_code c) - 48"

text \<open>The decimal digits of a non-negative integer, and their value.\<close>

function show_dec :: "int \<Rightarrow> string" where
  "show_dec n = (if n < 10 then [digit_char (nat n)] else show_dec (n div 10) @ [digit_char (nat (n mod 10))])"
  by pat_completeness auto
termination
  by (relation "measure nat") auto

declare show_dec.simps [simp del]

definition read_dec :: "string \<Rightarrow> int" where
  "read_dec s = foldl (\<lambda>a c. 10 * a + digit_val c) 0 s"

definition show_nat :: "nat \<Rightarrow> string" where
  "show_nat n = show_dec (int n)"

definition read_nat :: "string \<Rightarrow> nat" where
  "read_nat s = nat (read_dec s)"

definition show_int :: "int \<Rightarrow> string" where
  "show_int i = (if i < 0 then CHR ''-'' # show_dec (- i) else show_dec i)"

text \<open>Left padding with zeros, \<open>padStart(w, '0')\<close>.\<close>

definition pad0 :: "nat \<Rightarrow> string \<Rightarrow> string" where
  "pad0 w s = replicate (w - length s) CHR ''0'' @ s"

section \<open>Facts\<close>

lemma char_code_of_nat: "n < 256 \<Longrightarrow> char_code (char_of n) = n"
  by (simp add: char_code_def)

lemma digit_char_code: "n < 10 \<Longrightarrow> char_code (digit_char n) = 48 + n"
  by (simp add: digit_char_def char_code_of_nat)

lemma digit_char_digit [simp]: "n < 10 \<Longrightarrow> is_digit (digit_char n)"
  by (simp add: is_digit_def digit_char_code)

lemma digit_val_char [simp]: "n < 10 \<Longrightarrow> digit_val (digit_char n) = int n"
  by (simp add: digit_val_def digit_char_code)

lemma show_dec_digits: "0 \<le> n \<Longrightarrow> list_all is_digit (show_dec n)"
proof (induction n rule: show_dec.induct)
  case (1 n)
  then show ?case by (simp add: show_dec.simps [of n])
qed

lemma show_dec_nonempty [simp]: "show_dec n \<noteq> []"
  by (subst show_dec.simps) simp

lemma read_dec_snoc: "read_dec (s @ [c]) = 10 * read_dec s + digit_val c"
  by (simp add: read_dec_def)

lemma read_show_dec [simp]: "0 \<le> n \<Longrightarrow> read_dec (show_dec n) = n"
proof (induction n rule: show_dec.induct)
  case (1 n)
  show ?case
  proof (cases "n < 10")
    case True
    with 1 show ?thesis by (simp add: show_dec.simps [of n] read_dec_def)
  next
    case False
    with 1 show ?thesis by (simp add: show_dec.simps [of n] read_dec_snoc)
  qed
qed

lemma show_nat_digits: "list_all is_digit (show_nat n)"
  by (simp add: show_nat_def show_dec_digits)

lemma show_nat_digit: "c \<in> set (show_nat n) \<Longrightarrow> is_digit c"
  using show_nat_digits [of n] by (simp add: list_all_iff)

lemma show_nat_nonempty [simp]: "show_nat n \<noteq> []"
  by (simp add: show_nat_def)

lemma read_show_nat [simp]: "read_nat (show_nat n) = n"
  by (simp add: read_nat_def show_nat_def)

lemma show_nat_inject [simp]: "show_nat m = show_nat n \<longleftrightarrow> m = n"
  by (metis read_show_nat)

lemma starts_with_iff: "starts_with s p \<longleftrightarrow> (\<exists>t. s = p @ t)"
  by (induction s p rule: starts_with.induct) auto

lemma starts_with_append [simp]: "starts_with (p @ t) p"
  by (auto simp: starts_with_iff)

lemma index_of_Some_iff: "index_of s p = Some i \<Longrightarrow> \<exists>u v. s = u @ p @ v \<and> length u = i"
proof (induction s arbitrary: i)
  case Nil
  then show ?case by (auto split: if_splits)
next
  case (Cons c s)
  show ?case
  proof (cases "starts_with (c # s) p")
    case True
    with Cons.prems show ?thesis by (auto simp: starts_with_iff)
  next
    case False
    with Cons.prems obtain j where j: "index_of s p = Some j" "i = Suc j" by auto
    from Cons.IH [OF j(1)] obtain u v where "s = u @ p @ v" "length u = j" by auto
    then have "c # s = (c # u) @ p @ v \<and> length (c # u) = i" using j by simp
    then show ?thesis by blast
  qed
qed

lemma index_of_append: "index_of (u @ p @ v) p \<noteq> None"
proof (induction u)
  case Nil
  have "starts_with (p @ v) p" by simp
  then show ?case by (cases "p @ v") auto
next
  case (Cons c u)
  then show ?case by auto
qed

lemma str_includes_iff: "str_includes s p \<longleftrightarrow> (\<exists>u v. s = u @ p @ v)"
  unfolding str_includes_def using index_of_append index_of_Some_iff by fastforce

lemma split_acc_nonempty [simp]: "split_acc d acc s \<noteq> []"
  by (induction d acc s rule: split_acc.induct) auto

lemma split_on_nonempty [simp]: "split_on d s \<noteq> []"
  by (simp add: split_on_def)

lemma join_split_acc: "join_with [d] (split_acc d acc s) = rev acc @ s"
proof (induction d acc s rule: split_acc.induct)
  case (1 d acc)
  then show ?case by simp
next
  case (2 d acc c s)
  show ?case
  proof (cases "c = d")
    case True
    with 2 have "join_with [d] (split_acc d [] s) = s" by simp
    moreover have "join_with [d] (rev acc # split_acc d [] s)
        = rev acc @ [d] @ join_with [d] (split_acc d [] s)"
      by (cases "split_acc d [] s") auto
    ultimately show ?thesis using True by simp
  next
    case False
    with 2 show ?thesis by simp
  qed
qed

text \<open>Joining the parts with the separator gives the string back.\<close>

lemma join_split_on: "join_with [d] (split_on d s) = s"
  by (simp add: split_on_def join_split_acc)

lemma split_acc_chars:
  "x \<in> set (split_acc d acc s) \<Longrightarrow> c \<in> set x \<Longrightarrow> c \<in> set acc \<or> (c \<in> set s \<and> c \<noteq> d)"
  by (induction d acc s rule: split_acc.induct) (auto split: if_splits)

lemma split_on_chars: "x \<in> set (split_on d s) \<Longrightarrow> c \<in> set x \<Longrightarrow> c \<in> set s \<and> c \<noteq> d"
  using split_acc_chars [of x d "[]" s c] by (simp add: split_on_def)

lemma join_with_chars:
  "c \<in> set (join_with sep xs) \<Longrightarrow> c \<in> set sep \<or> (\<exists>x \<in> set xs. c \<in> set x)"
  by (induction sep xs rule: join_with.induct) auto

lemma str_less_irrefl [simp]: "\<not> str_less s s"
  by (induction s) auto

lemma str_less_trans: "str_less a b \<Longrightarrow> str_less b c \<Longrightarrow> str_less a c"
proof (induction a b arbitrary: c rule: str_less.induct)
  case (3 x s y t)
  then show ?case by (cases c) (auto intro: less_trans)
next
  case (2 x t)
  then show ?case by (cases c) auto
qed simp

lemma str_less_linear: "str_less a b \<or> a = b \<or> str_less b a"
proof (induction a b rule: str_less.induct)
  case (1 s)
  then show ?case by (cases s) auto
next
  case (3 a s b t)
  then show ?case by (metis char_code_inject linorder_neqE_nat str_less.simps(3))
qed simp

lemma trim_chars: "c \<in> set (trim s) \<Longrightarrow> c \<in> set s"
  unfolding trim_def trim_start_def by (metis set_dropWhileD set_rev)

lemma char_codes: "char_code CHR ''?'' = 63" "char_code CHR ''_'' = 95" "char_code CHR ''$'' = 36"
  "char_code CHR ''.'' = 46" "char_code CHR '' '' = 32" "char_code CHR ''-'' = 45"
  by (simp_all add: char_code_def)

lemma not_digit_consts [simp]:
  "\<not> is_digit CHR ''?''" "\<not> is_digit CHR '' ''" "\<not> is_digit CHR '',''" "\<not> is_digit CHR '')''"
  "\<not> is_digit CHR ''(''" "\<not> is_digit CHR ''.''" "\<not> is_digit CHR ''_''" "\<not> is_digit CHR ''-''"
  by (simp_all add: is_digit_def char_code_def)

end
