(* ===== verification/JsNum.thy ===== *)
theory JsNum
  imports JsString Complex_Main
begin

text \<open>
  JavaScript numbers: IEEE-754 binary64 values with round-to-nearest-even. A finite value
  is the rational it denotes (\<open>Fin q\<close>), negative zero is its own constructor; \<open>rnd64\<close> rounds
  an exact rational result to the nearest double, overflow and underflow included. The
  arithmetic operators, \<open>Math.floor\<close>/\<open>ceil\<close>/\<open>round\<close>/\<open>trunc\<close>/\<open>abs\<close>/\<open>min\<close>/\<open>max\<close>,
  \<open>Number(string)\<close>, \<open>parseFloat\<close>, \<open>parseInt\<close> and \<open>String(number)\<close> follow
  ECMA-262. The lemmas show that integers up to \<open>2 ^ 53\<close> are exact.
\<close>

datatype jsnum = NaN | PosInf | NegInf | NegZero | Fin rat

section \<open>Rounding\<close>

definition pow2 :: "int \<Rightarrow> rat" where
  "pow2 k = (if 0 \<le> k then 2 ^ nat k else 1 / 2 ^ nat (- k))"

definition pow10 :: "int \<Rightarrow> rat" where
  "pow10 k = (if 0 \<le> k then 10 ^ nat k else 1 / 10 ^ nat (- k))"

function bitlen :: "int \<Rightarrow> int" where
  "bitlen n = (if n \<le> 0 then 0 else 1 + bitlen (n div 2))"
  by pat_completeness auto
termination
  by (relation "measure nat") auto

declare bitlen.simps [simp del]

text \<open>The exponent of the leading binary digit of a positive rational.\<close>

definition floor_log2 :: "rat \<Rightarrow> int" where
  "floor_log2 q = (let (a, b) = quotient_of q; e = bitlen a - bitlen b
     in if pow2 e \<le> q then e else e - 1)"

definition round_even :: "rat \<Rightarrow> int" where
  "round_even q = (let f = \<lfloor>q\<rfloor>; d = q - of_int f
     in if d < 1 / 2 then f else if 1 / 2 < d then f + 1 else if even f then f else f + 1)"

text \<open>
  The nearest double: 53 significant bits, least exponent -1074, overflow at \<open>2 ^ 1024\<close>.
\<close>

definition rnd64 :: "rat \<Rightarrow> jsnum" where
  "rnd64 q = (if q = 0 then Fin 0 else
     let a = \<bar>q\<bar>; u = max (floor_log2 a - 52) (- 1074); m = round_even (a / pow2 u);
         r = of_int m * pow2 u
     in if 1024 < bitlen m + u then (if q < 0 then NegInf else PosInf)
        else if m = 0 then (if q < 0 then NegZero else Fin 0)
        else Fin (if q < 0 then - r else r))"

definition num_of_int :: "int \<Rightarrow> jsnum" where
  "num_of_int i = rnd64 (of_int i)"

section \<open>Operators\<close>

definition num_sign_neg :: "jsnum \<Rightarrow> bool" where
  "num_sign_neg x = (case x of NegInf \<Rightarrow> True | NegZero \<Rightarrow> True | Fin q \<Rightarrow> q < 0 | _ \<Rightarrow> False)"

definition num_val :: "jsnum \<Rightarrow> rat" where
  "num_val x = (case x of Fin q \<Rightarrow> q | _ \<Rightarrow> 0)"

definition is_finite_num :: "jsnum \<Rightarrow> bool" where
  "is_finite_num x = (case x of NaN \<Rightarrow> False | PosInf \<Rightarrow> False | NegInf \<Rightarrow> False | _ \<Rightarrow> True)"

definition is_zero_num :: "jsnum \<Rightarrow> bool" where
  "is_zero_num x \<longleftrightarrow> is_finite_num x \<and> num_val x = 0"

definition num_neg :: "jsnum \<Rightarrow> jsnum" where
  "num_neg x = (case x of NaN \<Rightarrow> NaN | PosInf \<Rightarrow> NegInf | NegInf \<Rightarrow> PosInf | NegZero \<Rightarrow> Fin 0
     | Fin q \<Rightarrow> if q = 0 then NegZero else Fin (- q))"

definition num_add :: "jsnum \<Rightarrow> jsnum \<Rightarrow> jsnum" where
  "num_add x y =
     (if x = NaN \<or> y = NaN then NaN
      else if x = PosInf then (if y = NegInf then NaN else PosInf)
      else if x = NegInf then (if y = PosInf then NaN else NegInf)
      else if y = PosInf \<or> y = NegInf then y
      else if x = NegZero \<and> y = NegZero then NegZero
      else rnd64 (num_val x + num_val y))"

definition num_sub :: "jsnum \<Rightarrow> jsnum \<Rightarrow> jsnum" where
  "num_sub x y = num_add x (num_neg y)"

definition num_mul :: "jsnum \<Rightarrow> jsnum \<Rightarrow> jsnum" where
  "num_mul x y =
     (let neg = (num_sign_neg x \<noteq> num_sign_neg y)
      in if x = NaN \<or> y = NaN then NaN
         else if \<not> is_finite_num x \<or> \<not> is_finite_num y
         then (if is_zero_num x \<or> is_zero_num y then NaN else if neg then NegInf else PosInf)
         else if num_val x = 0 \<or> num_val y = 0 then (if neg then NegZero else Fin 0)
         else rnd64 (num_val x * num_val y))"

definition num_div :: "jsnum \<Rightarrow> jsnum \<Rightarrow> jsnum" where
  "num_div x y =
     (let neg = (num_sign_neg x \<noteq> num_sign_neg y)
      in if x = NaN \<or> y = NaN then NaN
         else if \<not> is_finite_num x
         then (if \<not> is_finite_num y then NaN else if neg then NegInf else PosInf)
         else if \<not> is_finite_num y then (if neg then NegZero else Fin 0)
         else if num_val y = 0
         then (if num_val x = 0 then NaN else if neg then NegInf else PosInf)
         else if num_val x = 0 then (if neg then NegZero else Fin 0)
         else rnd64 (num_val x / num_val y))"

text \<open>Truncation towards zero, and the remainder \<open>%\<close> with the sign of the dividend.\<close>

definition trunc_rat :: "rat \<Rightarrow> int" where
  "trunc_rat q = (if 0 \<le> q then \<lfloor>q\<rfloor> else \<lceil>q\<rceil>)"

definition num_rem :: "jsnum \<Rightarrow> jsnum \<Rightarrow> jsnum" where
  "num_rem x y =
     (if x = NaN \<or> y = NaN \<or> \<not> is_finite_num x \<or> is_zero_num y then NaN
      else if \<not> is_finite_num y \<or> num_val x = 0 then x
      else let a = num_val x; b = num_val y; r = a - b * of_int (trunc_rat (a / b))
           in if r = 0 then (if a < 0 then NegZero else Fin 0) else Fin r)"

definition num_eq :: "jsnum \<Rightarrow> jsnum \<Rightarrow> bool" where
  "num_eq x y \<longleftrightarrow> x \<noteq> NaN \<and> y \<noteq> NaN \<and>
     (if is_finite_num x \<and> is_finite_num y then num_val x = num_val y else x = y)"

definition num_lt :: "jsnum \<Rightarrow> jsnum \<Rightarrow> bool" where
  "num_lt x y \<longleftrightarrow> x \<noteq> NaN \<and> y \<noteq> NaN \<and>
     (if is_finite_num x \<and> is_finite_num y then num_val x < num_val y
      else if x = y then False else x = NegInf \<or> y = PosInf)"

definition num_le :: "jsnum \<Rightarrow> jsnum \<Rightarrow> bool" where
  "num_le x y \<longleftrightarrow> num_lt x y \<or> num_eq x y"

text \<open>\<open>Number.isInteger\<close>.\<close>

definition num_is_integer :: "jsnum \<Rightarrow> bool" where
  "num_is_integer x \<longleftrightarrow> is_finite_num x \<and> of_int \<lfloor>num_val x\<rfloor> = num_val x"

section \<open>Math\<close>

definition signed_zero :: "bool \<Rightarrow> jsnum" where
  "signed_zero neg = (if neg then NegZero else Fin 0)"

definition fin_of_int :: "bool \<Rightarrow> int \<Rightarrow> jsnum" where
  "fin_of_int neg i = (if i = 0 then signed_zero neg else Fin (of_int i))"

definition num_floor :: "jsnum \<Rightarrow> jsnum" where
  "num_floor x = (case x of Fin q \<Rightarrow> Fin (of_int \<lfloor>q\<rfloor>) | _ \<Rightarrow> x)"

definition num_ceil :: "jsnum \<Rightarrow> jsnum" where
  "num_ceil x = (case x of Fin q \<Rightarrow> fin_of_int (q < 0) \<lceil>q\<rceil> | _ \<Rightarrow> x)"

definition num_trunc :: "jsnum \<Rightarrow> jsnum" where
  "num_trunc x = (case x of Fin q \<Rightarrow> fin_of_int (q < 0) (trunc_rat q) | _ \<Rightarrow> x)"

text \<open>\<open>Math.round\<close>: ties go up.\<close>

definition num_round :: "jsnum \<Rightarrow> jsnum" where
  "num_round x = (case x of Fin q \<Rightarrow> fin_of_int (q < 0) \<lfloor>q + 1 / 2\<rfloor> | _ \<Rightarrow> x)"

definition num_abs :: "jsnum \<Rightarrow> jsnum" where
  "num_abs x = (case x of NaN \<Rightarrow> NaN | PosInf \<Rightarrow> PosInf | NegInf \<Rightarrow> PosInf | NegZero \<Rightarrow> Fin 0
     | Fin q \<Rightarrow> Fin \<bar>q\<bar>)"

definition num_sign :: "jsnum \<Rightarrow> jsnum" where
  "num_sign x = (case x of NaN \<Rightarrow> NaN | PosInf \<Rightarrow> Fin 1 | NegInf \<Rightarrow> Fin (- 1) | NegZero \<Rightarrow> NegZero
     | Fin q \<Rightarrow> if q = 0 then Fin 0 else if q < 0 then Fin (- 1) else Fin 1)"

definition num_max2 :: "jsnum \<Rightarrow> jsnum \<Rightarrow> jsnum" where
  "num_max2 x y = (if x = NaN \<or> y = NaN then NaN
     else if x = NegZero \<and> is_zero_num y then y
     else if num_lt x y then y else x)"

definition num_min2 :: "jsnum \<Rightarrow> jsnum \<Rightarrow> jsnum" where
  "num_min2 x y = (if x = NaN \<or> y = NaN then NaN
     else if y = NegZero \<and> is_zero_num x then y
     else if num_lt y x then y else x)"

definition num_max :: "jsnum list \<Rightarrow> jsnum" where
  "num_max xs = foldl num_max2 NegInf xs"

definition num_min :: "jsnum list \<Rightarrow> jsnum" where
  "num_min xs = foldl num_min2 PosInf xs"

section \<open>Reading numbers\<close>

definition lead_digits :: "string \<Rightarrow> string" where
  "lead_digits s = takeWhile is_digit s"

text \<open>
  The longest prefix that is an unsigned decimal literal: its exact value and the rest.
  An exponent marker counts only when digits follow it.
\<close>

definition read_exponent :: "string \<Rightarrow> int \<times> string" where
  "read_exponent s = (case s of
     c # t \<Rightarrow> if c = CHR ''e'' \<or> c = CHR ''E'' then
       (let sg = (case t of d # _ \<Rightarrow> d = CHR ''-'' | [] \<Rightarrow> False);
            u = (case t of d # v \<Rightarrow> if d = CHR ''-'' \<or> d = CHR ''+'' then v else t | [] \<Rightarrow> t);
            ds = lead_digits u
        in if ds = [] then (0, s)
           else ((if sg then - read_dec ds else read_dec ds), drop (length ds) u))
       else (0, s)
   | [] \<Rightarrow> (0, s))"

definition read_decimal :: "string \<Rightarrow> (rat \<times> string) option" where
  "read_decimal s =
     (let ip = lead_digits s; r = drop (length ip) s;
          dot = (case r of c # _ \<Rightarrow> c = CHR ''.'' | [] \<Rightarrow> False);
          fp = (if dot then lead_digits (tl r) else []);
          r2 = (if dot \<and> (ip \<noteq> [] \<or> fp \<noteq> []) then drop (length fp) (tl r) else r)
      in if ip = [] \<and> fp = [] then None
         else let (e, r3) = read_exponent r2
              in Some (of_int (read_dec (ip @ fp)) * pow10 (e - int (length fp)), r3))"

definition signed_num :: "bool \<Rightarrow> jsnum \<Rightarrow> jsnum" where
  "signed_num neg x = (if neg then num_neg x else x)"

definition split_sign :: "string \<Rightarrow> bool \<times> string" where
  "split_sign s = (case s of
     c # t \<Rightarrow> if c = CHR ''-'' then (True, t) else if c = CHR ''+'' then (False, t) else (False, s)
   | [] \<Rightarrow> (False, s))"

text \<open>Digits in radix 2, 8 or 16, as in \<open>0x1f\<close>.\<close>

definition hex_val :: "char \<Rightarrow> int" where
  "hex_val c = (if is_digit c then int (char_code c) - 48
     else if 97 \<le> char_code c then int (char_code c) - 87 else int (char_code c) - 55)"

definition read_radix :: "int \<Rightarrow> string \<Rightarrow> jsnum" where
  "read_radix b s = (if s \<noteq> [] \<and> list_all (\<lambda>c. is_hex c \<and> hex_val c < b) s
     then num_of_int (foldl (\<lambda>a c. b * a + hex_val c) 0 s) else NaN)"

text \<open>\<open>Number(s)\<close> on a string.\<close>

definition num_of_string :: "string \<Rightarrow> jsnum" where
  "num_of_string str =
     (let s = trim str; p = to_lower (take 2 s); (neg, t) = split_sign s
      in if s = [] then Fin 0
         else if p = ''0x'' then read_radix 16 (drop 2 s)
         else if p = ''0o'' then read_radix 8 (drop 2 s)
         else if p = ''0b'' then read_radix 2 (drop 2 s)
         else if t = ''Infinity'' then signed_num neg PosInf
         else case read_decimal t of
                Some (q, []) \<Rightarrow> signed_num neg (rnd64 q)
              | _ \<Rightarrow> NaN)"

text \<open>\<open>parseFloat(s)\<close>: the longest numeric prefix.\<close>

definition parse_float :: "string \<Rightarrow> jsnum" where
  "parse_float str =
     (let (neg, t) = split_sign (trim_start str)
      in if starts_with t ''Infinity'' then signed_num neg PosInf
         else case read_decimal t of Some (q, _) \<Rightarrow> signed_num neg (rnd64 q) | None \<Rightarrow> NaN)"

text \<open>\<open>parseInt(s, 10)\<close>.\<close>

definition parse_int10 :: "string \<Rightarrow> jsnum" where
  "parse_int10 str =
     (let (neg, t) = split_sign (trim_start str); ds = lead_digits t
      in if ds = [] then NaN else signed_num neg (num_of_int (read_dec ds)))"

section \<open>Writing numbers\<close>

text \<open>The decimal exponent \<open>n\<close> of a positive value: \<open>10 ^ (n - 1) \<le> x < 10 ^ n\<close>.\<close>

fun lead_zeros :: "nat \<Rightarrow> rat \<Rightarrow> nat" where
  "lead_zeros 0 x = 0"
| "lead_zeros (Suc k) x = (if 1 \<le> x * 10 then 0 else Suc (lead_zeros k (x * 10)))"

definition dec_exp :: "rat \<Rightarrow> int" where
  "dec_exp x = (if 1 \<le> x then int (length (show_dec \<lfloor>x\<rfloor>)) else - int (lead_zeros 400 x))"

text \<open>
  The shortest decimal digits that read back as the value, for \<open>k\<close> digits upwards; 17
  digits always suffice for a double.
\<close>

definition digits_at :: "rat \<Rightarrow> int \<Rightarrow> nat \<Rightarrow> int option" where
  "digits_at x n k =
     (let c = x * pow10 (int k - n); s = \<lfloor>c\<rfloor>;
          ok = (\<lambda>i. rnd64 (of_int i * pow10 (n - int k)) = Fin x)
      in if c - of_int s \<le> of_int (s + 1) - c
         then (if ok s then Some s else if ok (s + 1) then Some (s + 1) else None)
         else (if ok (s + 1) then Some (s + 1) else if ok s then Some s else None))"

fun shortest_from :: "nat \<Rightarrow> nat \<Rightarrow> rat \<Rightarrow> int \<Rightarrow> int \<times> nat" where
  "shortest_from 0 k x n = (\<lfloor>x * pow10 (int k - n)\<rfloor>, k)"
| "shortest_from (Suc fuel) k x n =
     (case digits_at x n k of Some s \<Rightarrow> (s, k) | None \<Rightarrow> shortest_from fuel (Suc k) x n)"

definition format_digits :: "string \<Rightarrow> int \<Rightarrow> string" where
  "format_digits ds n =
     (let k = int (length ds)
      in if k \<le> n \<and> n \<le> 21 then ds @ replicate (nat (n - k)) CHR ''0''
         else if 0 < n \<and> n \<le> 21 then take (nat n) ds @ ''.'' @ drop (nat n) ds
         else if - 6 < n \<and> n \<le> 0 then ''0.'' @ replicate (nat (- n)) CHR ''0'' @ ds
         else let e = n - 1; ex = (if e < 0 then ''e-'' else ''e+'') @ show_dec \<bar>e\<bar>
              in if k = 1 then ds @ ex else take 1 ds @ ''.'' @ drop 1 ds @ ex)"

definition show_pos :: "rat \<Rightarrow> string" where
  "show_pos x =
     (let n = dec_exp x; (s, k) = shortest_from 17 1 x n
      in if s = 10 ^ k then format_digits ''1'' (n + 1) else format_digits (show_dec s) n)"

text \<open>\<open>String(x)\<close> on a number.\<close>

definition num_to_string :: "jsnum \<Rightarrow> string" where
  "num_to_string x = (case x of NaN \<Rightarrow> ''NaN'' | PosInf \<Rightarrow> ''Infinity'' | NegInf \<Rightarrow> ''-Infinity''
     | NegZero \<Rightarrow> ''0''
     | Fin q \<Rightarrow> if q = 0 then ''0'' else if q < 0 then CHR ''-'' # show_pos (- q) else show_pos q)"

section \<open>Integers are exact up to \<open>2 ^ 53\<close>\<close>

lemma pow2_powi: "pow2 k = 2 powi k"
  by (cases "0 \<le> k") (simp_all add: pow2_def power_int_def inverse_eq_divide power_one_over)

lemma pow2_add: "pow2 (a + b) = pow2 a * pow2 b"
  by (simp add: pow2_powi power_int_add)

lemma pow2_diff: "pow2 (a - b) = pow2 a / pow2 b"
  by (simp add: pow2_powi power_int_diff)

lemma pow2_pos [simp]: "0 < pow2 k"
  by (simp add: pow2_powi)

lemma pow2_neq_0 [simp]: "pow2 k \<noteq> 0"
  using pow2_pos [of k] by linarith

lemma pow2_nonneg_int: "0 \<le> k \<Longrightarrow> pow2 k = of_int (2 ^ nat k)"
  by (simp add: pow2_def)

lemma pow2_le_iff [simp]: "pow2 a \<le> pow2 b \<longleftrightarrow> a \<le> b"
proof
  assume "a \<le> b"
  then show "pow2 a \<le> pow2 b" by (simp add: pow2_powi power_int_increasing)
next
  assume "pow2 a \<le> pow2 b"
  moreover have "pow2 b < pow2 a" if "b < a"
    using that by (simp add: pow2_powi power_int_strict_increasing)
  ultimately show "a \<le> b" by force
qed

lemma pow2_less_iff [simp]: "pow2 a < pow2 b \<longleftrightarrow> a < b"
  by (simp add: not_le [symmetric])

lemma bitlen_nonneg [simp]: "0 \<le> bitlen n"
proof (induction n rule: bitlen.induct)
  case (1 n)
  then show ?case by (simp add: bitlen.simps [of n])
qed

lemma bitlen_bounds:
  assumes "0 < n"
  shows "pow2 (bitlen n - 1) \<le> of_int n \<and> of_int n < pow2 (bitlen n)"
  using assms
proof (induction n rule: bitlen.induct)
  case (1 n)
  show ?case
  proof (cases "n = 1")
    case True
    then show ?thesis by (simp add: bitlen.simps pow2_def)
  next
    case False
    with 1 have h: "pow2 (bitlen (n div 2) - 1) \<le> of_int (n div 2)"
      "of_int (n div 2) < pow2 (bitlen (n div 2))" by auto
    have eq: "bitlen n = 1 + bitlen (n div 2)" using 1 by (simp add: bitlen.simps [of n])
    have b1: "1 \<le> bitlen (n div 2)"
      using False 1 by (subst bitlen.simps) auto
    let ?B = "bitlen (n div 2)"
    have up: "n div 2 < 2 ^ nat ?B"
      using h(2) by (simp add: pow2_nonneg_int del: of_int_power)
    have lo: "2 ^ nat (?B - 1) \<le> n div 2"
      using h(1) b1 by (simp add: pow2_nonneg_int del: of_int_power)
    have e1: "nat (1 + ?B) = Suc (nat ?B)" "nat ?B = Suc (nat (?B - 1))" using b1 by auto
    have "n < 2 ^ nat (1 + ?B)" using up unfolding e1(1) by simp
    moreover have "2 ^ nat ?B \<le> n" using lo unfolding e1(2) by simp
    ultimately show ?thesis
      by (simp add: eq pow2_nonneg_int del: of_int_power)
  qed
qed

lemma floor_log2_bounds:
  assumes "0 < q"
  shows "pow2 (floor_log2 q) \<le> q \<and> q < pow2 (floor_log2 q + 1)"
proof -
  obtain a b where ab: "quotient_of q = (a, b)" by (cases "quotient_of q")
  have b: "0 < b" using ab by (rule quotient_of_denom_pos)
  have q: "q = of_int a / of_int b" using ab by (rule quotient_of_div)
  have a: "0 < a" using assms b by (simp add: q zero_less_divide_iff)
  let ?e = "bitlen a - bitlen b"
  have A: "pow2 (bitlen a - 1) \<le> of_int a" "of_int a < pow2 (bitlen a)"
    using bitlen_bounds [OF a] by auto
  have B: "pow2 (bitlen b - 1) \<le> of_int b" "of_int b < pow2 (bitlen b)"
    using bitlen_bounds [OF b] by auto
  have pb: "(0::rat) < of_int b" using b by simp
  have "of_int a / of_int b < pow2 (bitlen a) / pow2 (bitlen b - 1)"
  proof (rule frac_less)
    show "(of_int a::rat) < pow2 (bitlen a)" by (rule A)
    show "pow2 (bitlen b - 1) \<le> of_int b" by (rule B)
  qed (use a in simp_all)
  then have up: "q < pow2 (?e + 1)"
    by (simp add: q pow2_diff [symmetric] algebra_simps)
  have "pow2 (bitlen a - 1) / pow2 (bitlen b) \<le> of_int a / of_int b"
    by (rule frac_le) (use A B pb a in \<open>simp_all add: less_imp_le\<close>)
  then have lo: "pow2 (?e - 1) \<le> q"
    by (simp add: q pow2_diff [symmetric] algebra_simps)
  show ?thesis
    using up lo by (auto simp: floor_log2_def ab Let_def)
qed

lemma round_even_int [simp]: "round_even (of_int i) = i"
  by (simp add: round_even_def)

lemma rnd64_rep:
  assumes q: "q \<noteq> 0" and u: "u = max (floor_log2 \<bar>q\<bar> - 52) (- 1074)"
    and m: "\<bar>q\<bar> = of_int m * pow2 u" and small: "\<bar>q\<bar> < pow2 1024"
  shows "rnd64 q = Fin q"
proof -
  have mpos: "0 < m"
    using q m by (metis of_int_0_less_iff pow2_pos zero_less_abs_iff zero_less_mult_pos2)
  have re: "round_even (\<bar>q\<bar> / pow2 u) = m" by (simp add: m)
  have "pow2 (bitlen m - 1 + u) \<le> of_int m * pow2 u"
    using bitlen_bounds [OF mpos] by (simp add: pow2_add)
  also have "\<dots> < pow2 1024" using small m by simp
  finally have nb: "\<not> 1024 < bitlen m + u" by simp
  show ?thesis
    using q mpos nb unfolding rnd64_def Let_def u [symmetric] re
    by (simp add: m [symmetric])
qed

theorem rnd64_int:
  assumes "\<bar>i\<bar> \<le> 2 ^ 53"
  shows "rnd64 (of_int i) = Fin (of_int i)"
proof (cases "i = 0")
  case True
  then show ?thesis by (simp add: rnd64_def)
next
  case False
  let ?q = "of_int i :: rat" let ?e = "floor_log2 \<bar>?q\<bar>" let ?u = "max (?e - 52) (- 1074)"
  have pos: "0 < \<bar>?q\<bar>" using False by simp
  have one: "1 \<le> \<bar>?q\<bar>" using False by (simp add: of_int_abs [symmetric] del: of_int_abs)
  have le: "\<bar>?q\<bar> \<le> pow2 53"
    using assms by (simp add: pow2_nonneg_int of_int_abs [symmetric] del: of_int_abs of_int_power)
  note E = floor_log2_bounds [OF pos]
  have "pow2 ?e \<le> pow2 53" using E le by linarith
  then have e53: "?e \<le> 53" by simp
  have "pow2 0 < pow2 (?e + 1)" using E one by (simp add: pow2_def [of 0])
  then have e0: "0 \<le> ?e" by simp
  then have u: "?u = ?e - 52" by simp
  have small: "\<bar>?q\<bar> < pow2 1024"
  proof -
    have "\<bar>?q\<bar> < pow2 (?e + 1)" using E by simp
    also have "\<dots> \<le> pow2 1024" using e53 by simp
    finally show ?thesis .
  qed
  have "\<exists>m. \<bar>?q\<bar> = of_int m * pow2 ?u"
  proof (cases "?e \<le> 52")
    case True
    have "\<bar>?q\<bar> = of_int (\<bar>i\<bar> * 2 ^ nat (52 - ?e)) * pow2 (?e - 52)"
    proof -
      have "of_int (2 ^ nat (52 - ?e)) * pow2 (?e - 52) = (1::rat)"
        using True by (simp add: pow2_nonneg_int [symmetric] pow2_add [symmetric] pow2_def del: of_int_power)
      then show ?thesis by (simp add: mult.assoc)
    qed
    then show ?thesis by (metis u)
  next
    case F: False
    with e53 have "?e = 53" by simp
    then have "\<bar>?q\<bar> = pow2 53" using E le by simp
    then have "\<bar>?q\<bar> = of_int (2 ^ 52) * pow2 ?u"
      unfolding u \<open>?e = 53\<close> by (simp add: pow2_def)
    then show ?thesis by blast
  qed
  then obtain m where "\<bar>?q\<bar> = of_int m * pow2 ?u" by blast
  then show ?thesis using False small by (intro rnd64_rep) auto
qed

lemma num_of_int_exact: "\<bar>i\<bar> \<le> 2 ^ 53 \<Longrightarrow> num_of_int i = Fin (of_int i)"
  by (simp add: num_of_int_def rnd64_int)

lemma num_add_int:
  "\<bar>i + j\<bar> \<le> 2 ^ 53 \<Longrightarrow> num_add (Fin (of_int i)) (Fin (of_int j)) = Fin (of_int (i + j))"
  using rnd64_int [of "i + j"] by (simp add: num_add_def num_val_def)

lemma num_sub_int:
  "\<bar>i - j\<bar> \<le> 2 ^ 53 \<Longrightarrow> num_sub (Fin (of_int i)) (Fin (of_int j)) = Fin (of_int (i - j))"
  using rnd64_int [of "i - j"] rnd64_int [of i]
  by (auto simp: num_sub_def num_add_def num_neg_def num_val_def)

lemma num_mul_int:
  "\<bar>i * j\<bar> \<le> 2 ^ 53 \<Longrightarrow> i \<noteq> 0 \<Longrightarrow> j \<noteq> 0 \<Longrightarrow>
     num_mul (Fin (of_int i)) (Fin (of_int j)) = Fin (of_int (i * j))"
  using rnd64_int [of "i * j"]
  by (simp add: num_mul_def num_val_def is_finite_num_def)

end
