(* ===== verification/JsValue.thy ===== *)
theory JsValue
  imports JsNum
begin

text \<open>
  JavaScript values as the source handles them (\<open>unknown\<close> in its types): JSON data, numbers,
  strings, plain objects with insertion-ordered own properties, and the few host objects a
  formula can reach. Conversions (\<open>Boolean\<close>, \<open>Number\<close>, \<open>String\<close>, \<open>typeof\<close>), strict
  equality, property reads with their prototype chain, and \<open>JSON.stringify\<close>/\<open>JSON.parse\<close>
  follow ECMA-262. Objects have no identity in the model: \<open>===\<close> on two object values is
  false, which is right wherever the two sides come from different places (a rule and a row).
  Objects whose own \<open>toString\<close> or \<open>valueOf\<close> property is not callable are outside the
  model (converting one throws in JavaScript).
\<close>

datatype jsval =
    Undef
  | Null
  | Bool bool
  | Num jsnum
  | Str string
  | Arr "jsval list"
  | Obj "(string \<times> jsval) list"
  | Func string string  \<comment> \<open>a function value: its name and its source text\<close>
  | Host string         \<comment> \<open>a built-in object, such as \<open>Math\<close>\<close>

type_synonym jsobj = "(string, jsval) amap"

section \<open>Own properties\<close>

text \<open>Integer-like keys come first, in ascending order; the others in insertion order.\<close>

definition is_array_index :: "string \<Rightarrow> bool" where
  "is_array_index k \<longleftrightarrow> k \<noteq> [] \<and> list_all is_digit k \<and> (k = ''0'' \<or> hd k \<noteq> CHR ''0'')
     \<and> read_dec k < 4294967295"

definition own_entries :: "(string \<times> 'v) list \<Rightarrow> (string \<times> 'v) list" where
  "own_entries m = sort_key (\<lambda>kv. read_dec (fst kv)) (filter (\<lambda>kv. is_array_index (fst kv)) m)
     @ filter (\<lambda>kv. \<not> is_array_index (fst kv)) m"

definition own_keys :: "(string \<times> 'v) list \<Rightarrow> string list" where
  "own_keys m = map fst (own_entries m)"

lemma own_entries_set [simp]: "set (own_entries m) = set m"
  by (auto simp: own_entries_def)

lemma own_entries_length [simp]: "length (own_entries m) = length m"
  by (simp add: own_entries_def sum_length_filter_compl)

lemma own_entries_Nil_iff [simp]: "own_entries m = [] \<longleftrightarrow> m = []"
  by (metis length_0_conv own_entries_length)

text \<open>\<open>{ ...a, ...b }\<close> and \<open>Object.assign(a, b)\<close>.\<close>

definition obj_spread :: "jsobj \<Rightarrow> jsobj \<Rightarrow> jsobj" where
  "obj_spread a b = fold (\<lambda>(k, v). amap_set k v) (own_entries b) a"

section \<open>Prototype chain\<close>

definition native_func :: "string \<Rightarrow> jsval" where
  "native_func n = Func n (''function '' @ n @ ''() { [native code] }'')"

definition object_proto_methods :: "string list" where
  "object_proto_methods = [''__defineGetter__'', ''__defineSetter__'', ''hasOwnProperty'',
     ''__lookupGetter__'', ''__lookupSetter__'', ''isPrototypeOf'', ''propertyIsEnumerable'',
     ''toString'', ''valueOf'', ''toLocaleString'']"

definition object_proto_get :: "string \<Rightarrow> jsval" where
  "object_proto_get k =
     (if k = ''constructor'' then native_func ''Object''
      else if k = ''__proto__'' then Host ''Object.prototype''
      else if k \<in> set object_proto_methods then native_func k
      else Undef)"

text \<open>\<open>k in o\<close> and \<open>o[k]\<close> for a plain object \<open>o\<close>.\<close>

definition in_object_proto :: "string \<Rightarrow> bool" where
  "in_object_proto k \<longleftrightarrow> k = ''constructor'' \<or> k = ''__proto__'' \<or> k \<in> set object_proto_methods"

definition obj_in :: "string \<Rightarrow> (string \<times> 'v) list \<Rightarrow> bool" where
  "obj_in k m \<longleftrightarrow> amap_has k m \<or> in_object_proto k"

definition obj_get :: "jsobj \<Rightarrow> string \<Rightarrow> jsval" where
  "obj_get m k = (case map_of m k of Some v \<Rightarrow> v | None \<Rightarrow> object_proto_get k)"

definition array_proto_methods :: "string list" where
  "array_proto_methods = [''at'', ''concat'', ''copyWithin'', ''fill'', ''find'', ''findIndex'',
     ''findLast'', ''findLastIndex'', ''lastIndexOf'', ''pop'', ''push'', ''reverse'', ''shift'',
     ''unshift'', ''slice'', ''sort'', ''splice'', ''includes'', ''indexOf'', ''join'', ''keys'',
     ''entries'', ''values'', ''forEach'', ''filter'', ''flat'', ''flatMap'', ''map'', ''every'',
     ''some'', ''reduce'', ''reduceRight'', ''toReversed'', ''toSorted'', ''toSpliced'', ''with'',
     ''toLocaleString'', ''toString'']"

definition arr_get :: "jsval list \<Rightarrow> string \<Rightarrow> jsval" where
  "arr_get xs k =
     (if k = ''length'' then Num (num_of_int (int (length xs)))
      else if is_array_index k then
        (let i = nat (read_dec k) in if i < length xs then xs ! i else Undef)
      else if k = ''constructor'' then native_func ''Array''
      else if k \<in> set array_proto_methods then native_func k
      else object_proto_get k)"

text \<open>The constants of \<open>Math\<close>, as the doubles they are.\<close>

definition math_const :: "string \<Rightarrow> jsval option" where
  "math_const k =
     (if k = ''PI'' then Some (Num (Fin (884279719003555 / 281474976710656)))
      else if k = ''E'' then Some (Num (Fin (6121026514868073 / 2251799813685248)))
      else if k = ''LN2'' then Some (Num (Fin (6243314768165359 / 9007199254740992)))
      else if k = ''LN10'' then Some (Num (Fin (2592480341699211 / 1125899906842624)))
      else if k = ''LOG2E'' then Some (Num (Fin (3248660424278399 / 2251799813685248)))
      else if k = ''LOG10E'' then Some (Num (Fin (7823553867474190 / 18014398509481984)))
      else if k = ''SQRT2'' then Some (Num (Fin (6369051672525773 / 4503599627370496)))
      else if k = ''SQRT1_2'' then Some (Num (Fin (6369051672525773 / 9007199254740992)))
      else None)"

definition math_members :: "string list" where
  "math_members = [''abs'', ''acos'', ''acosh'', ''asin'', ''asinh'', ''atan'', ''atanh'', ''atan2'',
     ''ceil'', ''cbrt'', ''expm1'', ''clz32'', ''cos'', ''cosh'', ''exp'', ''floor'', ''fround'',
     ''hypot'', ''imul'', ''log'', ''log1p'', ''log2'', ''log10'', ''max'', ''min'', ''pow'',
     ''random'', ''round'', ''sign'', ''sin'', ''sinh'', ''sqrt'', ''tan'', ''tanh'', ''trunc'']"

definition host_get :: "string \<Rightarrow> string \<Rightarrow> jsval" where
  "host_get h k =
     (if h = ''Math'' then
        (case math_const k of Some v \<Rightarrow> v
         | None \<Rightarrow> if k \<in> set math_members then native_func k else object_proto_get k)
      else if k = ''__proto__'' then Null
      else object_proto_get k)"

section \<open>Conversions\<close>

fun typeof :: "jsval \<Rightarrow> string" where
  "typeof Undef = ''undefined''"
| "typeof Null = ''object''"
| "typeof (Bool b) = ''boolean''"
| "typeof (Num x) = ''number''"
| "typeof (Str s) = ''string''"
| "typeof (Func n t) = ''function''"
| "typeof _ = ''object''"

fun truthy :: "jsval \<Rightarrow> bool" where
  "truthy Undef = False"
| "truthy Null = False"
| "truthy (Bool b) = b"
| "truthy (Num x) = (x \<noteq> NaN \<and> \<not> is_zero_num x)"
| "truthy (Str s) = (s \<noteq> [])"
| "truthy _ = True"

definition is_nullish :: "jsval \<Rightarrow> bool" where
  "is_nullish v \<longleftrightarrow> v = Undef \<or> v = Null"

text \<open>\<open>v ?? d\<close>\<close>

definition nullish_or :: "jsval \<Rightarrow> jsval \<Rightarrow> jsval" where
  "nullish_or v d = (if is_nullish v then d else v)"

fun to_str :: "jsval \<Rightarrow> string" where
  "to_str Undef = ''undefined''"
| "to_str Null = ''null''"
| "to_str (Bool b) = (if b then ''true'' else ''false'')"
| "to_str (Num x) = num_to_string x"
| "to_str (Str s) = s"
| "to_str (Arr xs) = join_with '','' (map (\<lambda>x. if x = Undef \<or> x = Null then [] else to_str x) xs)"
| "to_str (Obj m) = ''[object Object]''"
| "to_str (Func n t) = t"
| "to_str (Host h) = (if h = ''Math'' then ''[object Math]'' else ''[object Object]'')"

fun to_num :: "jsval \<Rightarrow> jsnum" where
  "to_num Undef = NaN"
| "to_num Null = Fin 0"
| "to_num (Bool b) = (if b then Fin 1 else Fin 0)"
| "to_num (Num x) = x"
| "to_num v = num_of_string (to_str v)"

text \<open>\<open>a === b\<close>, and \<open>SameValueZero\<close> as \<open>includes\<close> and \<open>Set\<close> use it.\<close>

fun strict_eq :: "jsval \<Rightarrow> jsval \<Rightarrow> bool" where
  "strict_eq Undef Undef = True"
| "strict_eq Null Null = True"
| "strict_eq (Bool a) (Bool b) = (a = b)"
| "strict_eq (Num x) (Num y) = num_eq x y"
| "strict_eq (Str s) (Str t) = (s = t)"
| "strict_eq _ _ = False"

definition same_value_zero :: "jsval \<Rightarrow> jsval \<Rightarrow> bool" where
  "same_value_zero a b \<longleftrightarrow> strict_eq a b \<or> (a = Num NaN \<and> b = Num NaN)"

definition arr_includes :: "jsval list \<Rightarrow> jsval \<Rightarrow> bool" where
  "arr_includes xs v \<longleftrightarrow> (\<exists>x \<in> set xs. same_value_zero x v)"

lemma strict_eq_sym: "strict_eq a b = strict_eq b a"
  by (cases "(a, b)" rule: strict_eq.cases) (auto simp: num_eq_def)

section \<open>JSON.stringify\<close>

definition hex_digit :: "nat \<Rightarrow> char" where
  "hex_digit n = (if n < 10 then char_of (48 + n) else char_of (87 + n))"

definition json_escape_char :: "char \<Rightarrow> string" where
  "json_escape_char c =
     (let n = char_code c; bs = char_of (92::nat)
      in if n = 34 then [bs, c]
         else if n = 92 then [bs, bs]
         else if n = 8 then [bs, CHR ''b'']
         else if n = 9 then [bs, CHR ''t'']
         else if n = 10 then [bs, CHR ''n'']
         else if n = 12 then [bs, CHR ''f'']
         else if n = 13 then [bs, CHR ''r'']
         else if n < 32 then [bs, CHR ''u'', CHR ''0'', CHR ''0'', hex_digit (n div 16), hex_digit (n mod 16)]
         else [c])"

definition json_quote :: "string \<Rightarrow> string" where
  "json_quote s = char_of (34::nat) # concat (map json_escape_char s) @ [char_of (34::nat)]"

fun json_of :: "jsval \<Rightarrow> string option" where
  "json_of Undef = None"
| "json_of Null = Some ''null''"
| "json_of (Bool b) = Some (if b then ''true'' else ''false'')"
| "json_of (Num x) = Some (if is_finite_num x then num_to_string x else ''null'')"
| "json_of (Str s) = Some (json_quote s)"
| "json_of (Arr xs) = Some (''['' @ join_with '',''
     (map (\<lambda>x. case json_of x of None \<Rightarrow> ''null'' | Some s \<Rightarrow> s) xs) @ '']'')"
| "json_of (Obj m) = Some (CHR ''{'' # join_with '',''
     (concat (map (\<lambda>(k, r). case r of None \<Rightarrow> [] | Some s \<Rightarrow> [json_quote k @ '':'' @ s])
        (own_entries (map (\<lambda>(k, v). (k, json_of v)) m)))) @ ''}'')"
| "json_of (Func n t) = None"
| "json_of (Host h) = Some ''{}''"

text \<open>\<open>JSON.stringify(v)\<close> as a value: \<open>undefined\<close> for what has no JSON text.\<close>

definition json_stringify :: "jsval \<Rightarrow> jsval" where
  "json_stringify v = (case json_of v of None \<Rightarrow> Undef | Some s \<Rightarrow> Str s)"

end
