(* ===== verification/JsDate.thy ===== *)
theory JsDate
  imports JsString
begin

text \<open>
  The UTC calendar of JavaScript's \<open>Date\<close>: a time value is a number of milliseconds since
  1970-01-01T00:00Z, an \<open>int\<close> here (the time values the source handles are far inside the
  range of exact integers and of valid dates). \<open>day_year\<close>, \<open>day_month\<close> (0-based) and
  \<open>day_date\<close> read a day number, \<open>make_day\<close> is ECMA-262's \<open>MakeDay\<close>; the main lemmas are
  that they are inverse to each other and that stepping past the end of a month lands on the
  first of the next.
\<close>

abbreviation ms_per_day :: int where "ms_per_day \<equiv> 86400000"

definition is_leap :: "int \<Rightarrow> bool" where
  "is_leap y \<longleftrightarrow> y mod 4 = 0 \<and> (y mod 100 \<noteq> 0 \<or> y mod 400 = 0)"

text \<open>The day number of the first of January.\<close>

definition day_from_year :: "int \<Rightarrow> int" where
  "day_from_year y = 365 * (y - 1970) + (y - 1969) div 4 - (y - 1901) div 100 + (y - 1601) div 400"

definition day_year :: "int \<Rightarrow> int" where
  "day_year D = (let y = 1970 + (D * 400) div 146097
     in if D < day_from_year y then y - 1
        else if day_from_year (y + 1) \<le> D then y + 1 else y)"

text \<open>Days of the year before month \<open>m\<close> (0-based, 12 for the whole year).\<close>

definition month_start :: "bool \<Rightarrow> int \<Rightarrow> int" where
  "month_start l m = (let b = (if l then 1 else 0) in
     if m \<le> 0 then 0 else if m = 1 then 31 else if m = 2 then 59 + b else if m = 3 then 90 + b
     else if m = 4 then 120 + b else if m = 5 then 151 + b else if m = 6 then 181 + b
     else if m = 7 then 212 + b else if m = 8 then 243 + b else if m = 9 then 273 + b
     else if m = 10 then 304 + b else if m = 11 then 334 + b else 365 + b)"

definition month_length :: "int \<Rightarrow> int \<Rightarrow> int" where
  "month_length y m = month_start (is_leap y) (m + 1) - month_start (is_leap y) m"

definition month_of_yday :: "bool \<Rightarrow> int \<Rightarrow> int" where
  "month_of_yday l n =
     (if n < month_start l 1 then 0 else if n < month_start l 2 then 1
      else if n < month_start l 3 then 2 else if n < month_start l 4 then 3
      else if n < month_start l 5 then 4 else if n < month_start l 6 then 5
      else if n < month_start l 7 then 6 else if n < month_start l 8 then 7
      else if n < month_start l 9 then 8 else if n < month_start l 10 then 9
      else if n < month_start l 11 then 10 else 11)"

definition day_month :: "int \<Rightarrow> int" where
  "day_month D = (let y = day_year D in month_of_yday (is_leap y) (D - day_from_year y))"

definition day_date :: "int \<Rightarrow> int" where
  "day_date D = (let y = day_year D; n = D - day_from_year y
     in n - month_start (is_leap y) (month_of_yday (is_leap y) n) + 1)"

text \<open>\<open>getUTCDay\<close>: 0 is Sunday; day 0 was a Thursday.\<close>

definition weekday :: "int \<Rightarrow> int" where
  "weekday D = (D + 4) mod 7"

definition make_day :: "int \<Rightarrow> int \<Rightarrow> int \<Rightarrow> int" where
  "make_day y m d = (let ym = y + m div 12; mn = m mod 12
     in day_from_year ym + month_start (is_leap ym) mn + d - 1)"

text \<open>\<open>Date.UTC\<close>: years 0 to 99 mean 1900 to 1999.\<close>

definition full_year :: "int \<Rightarrow> int" where
  "full_year y = (if 0 \<le> y \<and> y \<le> 99 then 1900 + y else y)"

definition date_utc :: "int \<Rightarrow> int \<Rightarrow> int \<Rightarrow> int \<Rightarrow> int \<Rightarrow> int" where
  "date_utc y m d h mi = make_day (full_year y) m d * ms_per_day + h * 3600000 + mi * 60000"

definition ms_day :: "int \<Rightarrow> int" where "ms_day t = t div ms_per_day"
definition ms_hour :: "int \<Rightarrow> int" where "ms_hour t = (t div 3600000) mod 24"
definition ms_minute :: "int \<Rightarrow> int" where "ms_minute t = (t div 60000) mod 60"
definition ms_second :: "int \<Rightarrow> int" where "ms_second t = (t div 1000) mod 60"
definition ms_milli :: "int \<Rightarrow> int" where "ms_milli t = t mod 1000"

lemmas ms_defs = ms_day_def ms_hour_def ms_minute_def ms_second_def ms_milli_def

section \<open>ISO text\<close>

definition iso_year :: "int \<Rightarrow> string" where
  "iso_year y = (if 0 \<le> y \<and> y \<le> 9999 then pad0 4 (show_dec y)
     else (if y < 0 then ''-'' else ''+'') @ pad0 6 (show_dec \<bar>y\<bar>))"

definition iso_day :: "int \<Rightarrow> string" where
  "iso_day D = iso_year (day_year D) @ ''-'' @ pad0 2 (show_dec (day_month D + 1)) @ ''-''
     @ pad0 2 (show_dec (day_date D))"

text \<open>\<open>new Date(t).toISOString()\<close>\<close>

definition to_iso :: "int \<Rightarrow> string" where
  "to_iso t = iso_day (ms_day t) @ ''T'' @ pad0 2 (show_dec (ms_hour t)) @ '':''
     @ pad0 2 (show_dec (ms_minute t)) @ '':'' @ pad0 2 (show_dec (ms_second t)) @ ''.''
     @ pad0 3 (show_dec (ms_milli t)) @ ''Z''"

section \<open>The calendar is consistent\<close>

lemma day_from_year_step:
  "day_from_year (y + 1) = day_from_year y + (if is_leap y then 366 else 365)"
proof -
  define p q r where "p \<longleftrightarrow> y mod 4 = 0" and "q \<longleftrightarrow> y mod 100 = 0" and "r \<longleftrightarrow> y mod 400 = 0"
  note pqr = p_def q_def r_def
  have sub: "(y - 1968) mod 4 = y mod 4" "(y - 1900) mod 100 = y mod 100" "(y - 1600) mod 400 = y mod 400"
    using mod_diff_right_eq [of y 1968 4] mod_diff_right_eq [of y 1900 100]
      mod_diff_right_eq [of y 1600 400] by simp_all
  have o: "y - 1969 + 1 = y - 1968" "y - 1901 + 1 = y - 1900" "y - 1601 + 1 = y - 1600" by simp_all
  have a: "(y - 1968) div 4 = (y - 1969) div 4 + (if p then 1 else 0)"
    unfolding p_def sub(1) [symmetric] o(1) [symmetric] by (rule div_succ) simp
  have b: "(y - 1900) div 100 = (y - 1901) div 100 + (if q then 1 else 0)"
    unfolding q_def sub(2) [symmetric] o(2) [symmetric] by (rule div_succ) simp
  have c: "(y - 1600) div 400 = (y - 1601) div 400 + (if r then 1 else 0)"
    unfolding r_def sub(3) [symmetric] o(3) [symmetric] by (rule div_succ) simp
  have "(100::int) dvd 400" "(4::int) dvd 100" by simp_all
  then have i1: "r \<longrightarrow> q" and i2: "q \<longrightarrow> p"
    unfolding pqr mod_eq_0_iff_dvd by (blast intro: dvd_trans)+
  have l: "is_leap y \<longleftrightarrow> p \<and> (\<not> q \<or> r)" unfolding is_leap_def pqr by (rule refl)
  have e: "day_from_year (y + 1) = 365 * (y + 1 - 1970) + (y - 1968) div 4 - (y - 1900) div 100 + (y - 1600) div 400"
    by (simp add: day_from_year_def)
  have gen: "365 * (y + 1 - 1970) + (A + a) - (B + b) + (C + c)
      = 365 * (y - 1970) + A - B + C + 365 + a - b + c" for A B C a b c :: int
    by simp
  have "day_from_year (y + 1) = day_from_year y + 365 + (if p then 1 else 0) - (if q then 1 else 0) + (if r then 1 else 0)"
    unfolding e a b c day_from_year_def [of y] by (rule gen)
  with i1 i2 show ?thesis unfolding l by (cases p; cases q; cases r) simp_all
qed

lemma day_from_year_less: "y < z \<Longrightarrow> day_from_year y < day_from_year z"
proof -
  have "day_from_year y < day_from_year (y + 1 + int n)" for n
  proof (induction n)
    case 0
    then show ?case by (simp add: day_from_year_step)
  next
    case (Suc n)
    have "day_from_year (y + 1 + int (Suc n)) = day_from_year ((y + 1 + int n) + 1)"
      by (simp add: algebra_simps)
    then show ?case using Suc by (simp only: day_from_year_step) (simp split: if_splits)
  qed
  moreover assume "y < z"
  then have "z = y + 1 + int (nat (z - y - 1))" by simp
  ultimately show ?thesis by metis
qed

lemma day_year_bounds: "day_from_year (day_year D) \<le> D \<and> D < day_from_year (day_year D + 1)"
proof -
  let ?n = "(D * 400) div 146097"
  define n where "n = ?n"
  have n: "146097 * n \<le> 400 * D" "400 * D < 146097 * n + 146097"
    using div_bounds [of 146097 "D * 400"] unfolding n_def by (simp_all add: algebra_simps)
  define a b c where abc: "a = (n + 1) div 4" "b = (n + 69) div 100" "c = (n + 369) div 400"
  have A: "4 * a \<le> n + 1" "n + 1 < 4 * a + 4" unfolding abc using div_bounds [of 4 "n + 1"] by auto
  have B: "100 * b \<le> n + 69" "n + 69 < 100 * b + 100" unfolding abc using div_bounds [of 100 "n + 69"] by auto
  have C: "400 * c \<le> n + 369" "n + 369 < 400 * c + 400" unfolding abc using div_bounds [of 400 "n + 369"] by auto
  have d0: "day_from_year (1970 + n) = 365 * n + a - b + c"
    by (simp add: day_from_year_def abc algebra_simps)
  have s1: "day_from_year (1970 + n) \<le> D + 1" unfolding d0 using n A B C by linarith
  have s2: "D < day_from_year (1970 + n) + 367" unfolding d0 using n A B C by linarith
  have t1: "day_from_year (1970 + n + 1) = day_from_year (1970 + n) + (if is_leap (1970 + n) then 366 else 365)"
    by (rule day_from_year_step)
  have t2: "day_from_year (1970 + n) = day_from_year (1970 + n - 1) + (if is_leap (1970 + n - 1) then 366 else 365)"
    using day_from_year_step [of "1970 + n - 1"] by simp
  have t3: "day_from_year (1970 + n + 1 + 1) = day_from_year (1970 + n + 1) + (if is_leap (1970 + n + 1) then 366 else 365)"
    by (rule day_from_year_step)
  show ?thesis
    using s1 s2 t1 t2 t3 unfolding day_year_def Let_def n_def [symmetric]
    by (auto split: if_splits)
qed

lemma day_year_unique:
  assumes "day_from_year y \<le> D" "D < day_from_year (y + 1)"
  shows "day_year D = y"
proof (rule ccontr)
  note B = day_year_bounds [of D]
  assume "day_year D \<noteq> y"
  then consider "day_year D < y" | "y < day_year D" by linarith
  then show False
  proof cases
    case 1
    then have "day_from_year (day_year D + 1) \<le> day_from_year y"
      by (metis day_from_year_less add1_zle_eq le_less)
    then show False using B assms by linarith
  next
    case 2
    then have "day_from_year (y + 1) \<le> day_from_year (day_year D)"
      by (metis day_from_year_less add1_zle_eq le_less)
    then show False using B assms by linarith
  qed
qed

lemma month_cases:
  assumes "0 \<le> m" "m \<le> (11::int)"
  shows "m \<in> {0, 1, 2, 3, 4, 5, 6, 7, 8, 9, 10, 11}"
proof -
  have "m \<in> set [0..11]" using assms by simp
  then show ?thesis by (simp add: upto.simps del: set_upto)
qed

lemma month_start_12: "month_start l 12 = (if l then 366 else 365)"
  by (simp add: month_start_def)

lemma month_of_yday_bounds:
  assumes "0 \<le> n" "n < month_start l 12"
  shows "0 \<le> month_of_yday l n \<and> month_of_yday l n \<le> 11 \<and>
     month_start l (month_of_yday l n) \<le> n \<and> n < month_start l (month_of_yday l n + 1)"
  using assms by (auto simp: month_of_yday_def month_start_def Let_def)

lemma month_of_yday_unique:
  assumes "0 \<le> m" "m \<le> 11" "month_start l m \<le> n" "n < month_start l (m + 1)"
  shows "month_of_yday l n = m"
proof -
  have "m = 0 \<or> m = 1 \<or> m = 2 \<or> m = 3 \<or> m = 4 \<or> m = 5 \<or> m = 6 \<or> m = 7 \<or> m = 8 \<or> m = 9
      \<or> m = 10 \<or> m = 11"
    using month_cases [OF assms(1,2)] by simp
  then show ?thesis
    using assms(3,4)
    by (elim disjE; cases l) (simp_all add: month_of_yday_def month_start_def)
qed

lemma yday_bounds:
  "0 \<le> D - day_from_year (day_year D) \<and> D - day_from_year (day_year D) < month_start (is_leap (day_year D)) 12"
  using day_year_bounds [of D] by (simp add: month_start_12 day_from_year_step)

lemma day_month_bounds: "0 \<le> day_month D \<and> day_month D \<le> 11"
  using month_of_yday_bounds [of "D - day_from_year (day_year D)" "is_leap (day_year D)"] yday_bounds [of D]
  by (auto simp: day_month_def Let_def)

lemma day_date_bounds: "1 \<le> day_date D \<and> day_date D \<le> month_length (day_year D) (day_month D)"
  using month_of_yday_bounds [of "D - day_from_year (day_year D)" "is_leap (day_year D)"] yday_bounds [of D]
  by (auto simp: day_date_def day_month_def month_length_def Let_def)

lemma month_length_bounds:
  "0 \<le> m \<Longrightarrow> m \<le> 11 \<Longrightarrow> 28 \<le> month_length y m \<and> month_length y m \<le> 31"
  using month_cases [of m] by (auto simp: month_length_def month_start_def Let_def)

text \<open>Reading a day and writing it again gives the day back.\<close>

lemma make_day_read: "make_day (day_year D) (day_month D) (day_date D) = D"
proof -
  have "day_month D div 12 = 0" "day_month D mod 12 = day_month D"
    using day_month_bounds [of D] by auto
  then show ?thesis by (simp add: make_day_def day_date_def day_month_def Let_def)
qed

lemma make_day_date_shift: "make_day y m (d + k) = make_day y m d + k"
  by (simp add: make_day_def Let_def)

text \<open>Writing a valid date and reading it gives the parts back.\<close>

lemma read_make_day:
  assumes "0 \<le> m" "m \<le> 11" "1 \<le> d" "d \<le> month_length y m"
  shows "day_year (make_day y m d) = y \<and> day_month (make_day y m d) = m \<and> day_date (make_day y m d) = d"
proof -
  let ?D = "make_day y m d" let ?l = "is_leap y"
  have D: "?D = day_from_year y + month_start ?l m + d - 1"
    using assms(1,2) by (simp add: make_day_def Let_def)
  have mono: "0 \<le> month_start ?l m" "month_start ?l (m + 1) \<le> month_start ?l 12"
    using month_cases [OF assms(1,2)] by (auto simp: month_start_def Let_def)
  have "day_from_year y \<le> ?D" unfolding D using assms(3) mono by linarith
  moreover have "?D < day_from_year (y + 1)"
    unfolding D day_from_year_step using assms(4) mono(2)
    by (auto simp: month_length_def month_start_12 split: if_splits)
  ultimately have y: "day_year ?D = y" by (rule day_year_unique)
  have n: "?D - day_from_year y = month_start ?l m + d - 1" unfolding D by simp
  have m: "month_of_yday ?l (month_start ?l m + d - 1) = m"
    by (rule month_of_yday_unique) (use assms in \<open>auto simp: month_length_def\<close>)
  show ?thesis by (simp add: y day_month_def day_date_def n m Let_def)
qed

lemma make_day_next_month:
  assumes "0 \<le> m" "m \<le> 11"
  shows "make_day y (m + 1) 1 = make_day y m 1 + month_length y m"
proof (cases "m = 11")
  case True
  then show ?thesis
    by (auto simp: make_day_def month_length_def month_start_def Let_def day_from_year_step)
next
  case False
  then have "(m + 1) div 12 = 0" "(m + 1) mod 12 = m + 1" "m div 12 = 0" "m mod 12 = m"
    using assms by auto
  then show ?thesis by (simp add: make_day_def month_length_def Let_def)
qed

text \<open>Day 0 of the next month is the last day of this one.\<close>

lemma last_day_of_month:
  assumes "0 \<le> m" "m \<le> 11"
  shows "day_date (make_day y (m + 1) 0) = month_length y m"
proof -
  have "make_day y (m + 1) 0 = make_day y m (month_length y m)"
    using make_day_next_month [OF assms, of y] make_day_date_shift [of y "m + 1" 0 1]
      make_day_date_shift [of y m 1 "month_length y m - 1"] by simp
  moreover have "1 \<le> month_length y m" using month_length_bounds [OF assms, of y] by linarith
  ultimately show ?thesis using read_make_day [of m "month_length y m" y] assms by simp
qed

lemma ms_split:
  "t = ms_day t * ms_per_day + ms_hour t * 3600000 + ms_minute t * 60000 + t mod 60000"
proof -
  have "t div 3600000 = (t div 60000) div 60" "t div 86400000 = (t div 3600000) div 24"
    by (simp_all add: zdiv_zmult2_eq [symmetric])
  moreover have "t = (t div 60000) * 60000 + t mod 60000" by simp
  moreover have "t div 60000 = ((t div 60000) div 60) * 60 + (t div 60000) mod 60" by simp
  moreover have "t div 3600000 = ((t div 3600000) div 24) * 24 + (t div 3600000) mod 24" by simp
  ultimately show ?thesis unfolding ms_defs by linarith
qed

lemma ms_bounds:
  "0 \<le> ms_hour t \<and> ms_hour t < 24" "0 \<le> ms_minute t \<and> ms_minute t < 60"
  by (simp_all add: ms_defs)

lemma ms_parts_of:
  assumes "0 \<le> h" "h < 24" "0 \<le> mi" "mi < 60"
  shows "ms_day (D * ms_per_day + h * 3600000 + mi * 60000) = D"
    "ms_hour (D * ms_per_day + h * 3600000 + mi * 60000) = h"
    "ms_minute (D * ms_per_day + h * 3600000 + mi * 60000) = mi"
proof -
  let ?t = "D * ms_per_day + h * 3600000 + mi * 60000"
  show "ms_day ?t = D" unfolding ms_defs using assms by (intro div_eqI) auto
  have "?t div 3600000 = D * 24 + h" using assms by (intro div_eqI) auto
  then show "ms_hour ?t = h" unfolding ms_defs using assms by simp
  have "?t = (D * 1440 + h * 60 + mi) * 60000" by simp
  then have "?t div 60000 = D * 1440 + h * 60 + mi" by simp
  also have "\<dots> mod 60 = mi"
  proof -
    have "D * 1440 + h * 60 + mi = (D * 24 + h) * 60 + mi" by simp
    then show ?thesis using assms by (simp only: mod_mult_self3) simp
  qed
  finally show "ms_minute ?t = mi" unfolding ms_defs .
qed

end
