(* ===== verification/Utils.thy ===== *)
theory Utils
  imports JsValue JsDate
begin

text \<open>
  \<open>packages/utils\<close>: the SQL identifier sanitizer (\<open>sanitize.ts\<close>), table names
  (\<open>table-name.ts\<close>), the input validators (\<open>validation.ts\<close>, \<open>field-types.ts\<close>,
  \<open>constants.ts\<close>) and the Myanmar-time helpers (\<open>time.ts\<close>). A \<open>ValidationResult<T>\<close>
  is \<open>string + 'T\<close>: \<open>Inl\<close> is \<open>{ valid: false, error }\<close>.
\<close>

section \<open>sanitize.ts\<close>

definition is_ident_start :: "char \<Rightarrow> bool" where
  "is_ident_start c \<longleftrightarrow> is_alpha c \<or> c = CHR ''_''"

text \<open>\<open>/^[a-zA-Z_][a-zA-Z0-9_]*$/\<close>\<close>

definition IDENTIFIER_RE :: "string \<Rightarrow> bool" where
  "IDENTIFIER_RE s = (case s of [] \<Rightarrow> False | c # t \<Rightarrow> is_ident_start c \<and> list_all is_word t)"

definition SanitizeError :: "string \<Rightarrow> string option \<Rightarrow> js_error" where
  "SanitizeError identifier context = JsError ''SanitizeError''
     (case context of
        Some ctx \<Rightarrow> if ctx \<noteq> [] then ''Invalid SQL identifier \"'' @ identifier @ ''\" in '' @ ctx
                    else ''Invalid SQL identifier: \"'' @ identifier @ ''\"''
      | None \<Rightarrow> ''Invalid SQL identifier: \"'' @ identifier @ ''\"'')"

definition sanitizeIdentifier :: "string \<Rightarrow> string \<Rightarrow> string res" where
  "sanitizeIdentifier name context =
     (if name = [] then Inl (SanitizeError name (Some context))
      else if \<not> IDENTIFIER_RE name then Inl (SanitizeError name (Some context))
      else Inr name)"

lemma sanitize_Inr_iff: "sanitizeIdentifier s ctx = Inr t \<longleftrightarrow> t = s \<and> IDENTIFIER_RE s"
  by (auto simp: sanitizeIdentifier_def IDENTIFIER_RE_def)

lemma sanitize_ok [simp]: "IDENTIFIER_RE s \<Longrightarrow> sanitizeIdentifier s ctx = Inr s"
  by (simp add: sanitize_Inr_iff)

lemma ident_word: "IDENTIFIER_RE s \<Longrightarrow> c \<in> set s \<Longrightarrow> is_word c"
  by (auto simp: IDENTIFIER_RE_def is_ident_start_def is_word_def list_all_iff split: list.splits)

lemma word_not_special:
  "is_word c \<Longrightarrow> c \<noteq> CHR ''?'' \<and> c \<noteq> CHR '' '' \<and> c \<noteq> CHR '','' \<and> c \<noteq> CHR '';'' \<and> c \<noteq> CHR ''('' \<and>
     c \<noteq> CHR '')'' \<and> c \<noteq> CHR ''-'' \<and> char_code c \<noteq> 39 \<and> char_code c \<noteq> 34"
  by (auto simp: char_class_defs char_code_def)

lemma ident_no_qmark: "IDENTIFIER_RE s \<Longrightarrow> CHR ''?'' \<notin> set s"
  using ident_word word_not_special by blast

section \<open>table-name.ts\<close>

text \<open>\<open>prefix.replace(/_+$/, '') + '_'\<close>\<close>

definition strip_underscores :: "string \<Rightarrow> string" where
  "strip_underscores s = rev (dropWhile (\<lambda>c. c = CHR ''_'') (rev s))"

definition normalizePrefix :: "string \<Rightarrow> string" where
  "normalizePrefix prefix = strip_underscores prefix @ ''_''"

definition systemTable :: "string \<Rightarrow> string \<Rightarrow> string" where
  "systemTable name prefix = normalizePrefix prefix @ ''_'' @ name"

definition collectionTable :: "string \<Rightarrow> string \<Rightarrow> string" where
  "collectionTable slug prefix = normalizePrefix prefix @ slug"

lemma strip_underscores_last:
  assumes "strip_underscores s \<noteq> []" shows "last (strip_underscores s) \<noteq> CHR ''_''"
proof -
  let ?d = "dropWhile (\<lambda>c. c = CHR ''_'') (rev s)"
  have "?d \<noteq> []" using assms by (simp add: strip_underscores_def)
  then have "hd ?d \<noteq> CHR ''_''" by (rule hd_dropWhile)
  then show ?thesis using \<open>?d \<noteq> []\<close> by (simp add: strip_underscores_def last_rev)
qed

lemma strip_underscores_idem: "strip_underscores (strip_underscores s @ replicate n CHR ''_'') = strip_underscores s"
proof -
  have "dropWhile (\<lambda>c. c = CHR ''_'') (replicate n CHR ''_'' @ dropWhile (\<lambda>c. c = CHR ''_'') (rev s))
      = dropWhile (\<lambda>c. c = CHR ''_'') (rev s)"
    by (induction n) auto
  then show ?thesis by (simp add: strip_underscores_def)
qed

lemma normalizePrefix_idem: "normalizePrefix (normalizePrefix p) = normalizePrefix p"
  using strip_underscores_idem [of p 1] by (simp add: normalizePrefix_def)

section \<open>validation.ts\<close>

definition RESERVED_SQL_WORDS :: "string list" where
  "RESERVED_SQL_WORDS = [''select'', ''from'', ''where'', ''insert'', ''into'', ''values'', ''update'',
     ''set'', ''delete'', ''create'', ''drop'', ''alter'', ''table'', ''index'', ''view'', ''trigger'',
     ''in'', ''on'', ''as'', ''and'', ''or'', ''not'', ''null'', ''is'', ''between'', ''exists'',
     ''escape'', ''collate'', ''case'', ''when'', ''then'', ''else'', ''union'', ''all'', ''distinct'',
     ''group'', ''order'', ''having'', ''limit'', ''using'', ''join'', ''returning'', ''nothing'',
     ''add'', ''primary'', ''foreign'', ''references'', ''check'', ''unique'', ''default'',
     ''constraint'', ''autoincrement'', ''commit'', ''transaction'', ''to'', ''current_date'',
     ''current_time'', ''current_timestamp'', ''rowid'', ''oid'']"

definition isReservedSqlWord :: "string \<Rightarrow> bool" where
  "isReservedSqlWord name \<longleftrightarrow> to_lower (trim name) \<in> set RESERVED_SQL_WORDS"

definition is_slug_char :: "char \<Rightarrow> bool" where
  "is_slug_char c \<longleftrightarrow> is_lower c \<or> is_digit c"

text \<open>\<open>.replace(/[^a-z0-9]+/g, sep)\<close> for a one-character separator.\<close>

fun collapse_runs :: "char \<Rightarrow> bool \<Rightarrow> string \<Rightarrow> string" where
  "collapse_runs sep inrun [] = []"
| "collapse_runs sep inrun (c # s) =
     (if is_slug_char c then c # collapse_runs sep False s
      else if inrun then collapse_runs sep True s
      else sep # collapse_runs sep True s)"

text \<open>\<open>.replace(/^_|_$/g, '')\<close>: at most one separator from each end.\<close>

definition trim_sep :: "char \<Rightarrow> string \<Rightarrow> string" where
  "trim_sep sep s =
     (let t = (case s of c # u \<Rightarrow> if c = sep then u else s | [] \<Rightarrow> [])
      in if t \<noteq> [] \<and> last t = sep then butlast t else t)"

definition slugify :: "char \<Rightarrow> string \<Rightarrow> string" where
  "slugify sep s = trim_sep sep (collapse_runs sep False s)"

text \<open>The validators: \<open>slug\<close> with \<open>/^[a-z][a-z0-9_]*$/\<close>.\<close>

definition SLUG_RE :: "string \<Rightarrow> bool" where
  "SLUG_RE s = (case s of [] \<Rightarrow> False | c # t \<Rightarrow> is_lower c \<and> list_all (\<lambda>c. is_slug_char c \<or> c = CHR ''_'') t)"

definition reserved_error :: "string \<Rightarrow> string \<Rightarrow> string \<Rightarrow> string" where
  "reserved_error shown low field = ''\"'' @ shown @
     ''\" is a reserved SQL keyword and cannot be used as a '' @ field @
     '' (e.g. use \"check_'' @ low @ ''\" or \"'' @ low @ ''_time\" instead)''"

definition validators_slug :: "jsval \<Rightarrow> string \<Rightarrow> string + string" where
  "validators_slug value field =
     (case value of
        Str v \<Rightarrow>
          (if trim v = [] then Inl (field @ '' must be a non-empty string'')
           else let slug = slugify CHR ''_'' (to_lower (trim v))
                in if slug = [] then Inl (field @ '' contains no valid characters'')
                   else if \<not> SLUG_RE slug then Inl (field @ '' must start with a letter'')
                   else if isReservedSqlWord slug then Inl (reserved_error slug slug field)
                   else Inr slug)
      | _ \<Rightarrow> Inl (field @ '' must be a non-empty string''))"

definition validators_reservedWord :: "string \<Rightarrow> string \<Rightarrow> string + string" where
  "validators_reservedWord value field =
     (if isReservedSqlWord value then Inl (reserved_error value (to_lower (trim value)) field)
      else Inr (trim value))"

definition validators_identifier :: "jsval \<Rightarrow> string \<Rightarrow> string + string" where
  "validators_identifier value field =
     (case value of
        Str v \<Rightarrow> (if trim v = [] then Inl (field @ '' must be a non-empty string'')
                  else if \<not> IDENTIFIER_RE v then Inl (field @ '' contains invalid characters'')
                  else Inr (trim v))
      | _ \<Rightarrow> Inl (field @ '' must be a non-empty string''))"

text \<open>\<open>/^[a-zA-Z][a-zA-Z0-9_\- ]*$/\<close>\<close>

definition ROLE_NAME_RE :: "string \<Rightarrow> bool" where
  "ROLE_NAME_RE s = (case s of [] \<Rightarrow> False | c # t \<Rightarrow> is_alpha c \<and>
     list_all (\<lambda>c. is_word c \<or> c = CHR ''-'' \<or> c = CHR '' '') t)"

definition validators_roleName :: "jsval \<Rightarrow> string \<Rightarrow> string + string" where
  "validators_roleName value field =
     (case value of
        Str v \<Rightarrow> (if trim v = [] then Inl (field @ '' must be a non-empty string'')
                  else if \<not> ROLE_NAME_RE (trim v) then Inl (field @ '' contains invalid characters'')
                  else Inr (trim v))
      | _ \<Rightarrow> Inl (field @ '' must be a non-empty string''))"

text \<open>
  \<open>/^[^\s@]+@[^\s@]+\.[^\s@]+$/\<close>: no white space, one \<open>@\<close>, text before it, and a dot inside
  the domain.
\<close>

definition EMAIL_RE :: "string \<Rightarrow> bool" where
  "EMAIL_RE s \<longleftrightarrow> \<not> list_ex is_space s \<and>
     (case split_on CHR ''@'' s of
        [usr, domain] \<Rightarrow> usr \<noteq> [] \<and> list_ex (\<lambda>i. domain ! i = CHR ''.'') [1..<length domain - 1]
      | _ \<Rightarrow> False)"

definition validators_email :: "jsval \<Rightarrow> string \<Rightarrow> string + string" where
  "validators_email value field =
     (case value of
        Str v \<Rightarrow> (if trim v = [] then Inl (field @ '' must be a non-empty string'')
                  else if \<not> EMAIL_RE (trim v) then Inl (field @ '' must be a valid email address'')
                  else Inr (to_lower (trim v)))
      | _ \<Rightarrow> Inl (field @ '' must be a non-empty string''))"

text \<open>
  \<open>/^[0-9a-f]{8}-[0-9a-f]{4}-4[0-9a-f]{3}-[89ab][0-9a-f]{3}-[0-9a-f]{12}$/i\<close>
\<close>

definition UUID_V4_RE :: "string \<Rightarrow> bool" where
  "UUID_V4_RE s \<longleftrightarrow> length s = 36 \<and>
     list_all (\<lambda>i. if i \<in> {8, 13, 18, 23} then s ! i = CHR ''-''
                   else if i = 14 then s ! i = CHR ''4''
                   else if i = 19 then lower_char (s ! i) \<in> set ''89ab''
                   else is_hex (s ! i)) [0..<36]"

definition validators_uuid :: "jsval \<Rightarrow> string \<Rightarrow> string + string" where
  "validators_uuid value field =
     (case value of
        Str v \<Rightarrow> (if trim v = [] then Inl (field @ '' must be a non-empty string'')
                  else if \<not> UUID_V4_RE (trim v) then Inl (field @ '' must be a valid UUID v4'')
                  else Inr (trim v))
      | _ \<Rightarrow> Inl (field @ '' must be a non-empty string''))"

definition validators_positiveInt :: "jsval \<Rightarrow> string \<Rightarrow> string + jsnum" where
  "validators_positiveInt value field =
     (let num = to_num value
      in if \<not> num_is_integer num \<or> num_lt num (Fin 0)
         then Inl (field @ '' must be a non-negative integer'') else Inr num)"

definition MAX_PAGE_SIZE :: jsnum where "MAX_PAGE_SIZE = Fin 500"

definition validators_limit :: "jsval \<Rightarrow> string + jsnum" where
  "validators_limit value =
     (let parsed = parse_int10 (to_str value)
      in if parsed = NaN \<or> num_lt parsed (Fin 1)
         then Inl (''limit must be a positive integer, got \"'' @ to_str value @ ''\"'')
         else Inr (num_min [MAX_PAGE_SIZE, parsed]))"

definition FIELD_TYPE_NAMES :: "string list" where
  "FIELD_TYPE_NAMES = [''text'', ''longtext'', ''slug'', ''password'', ''integer'', ''number'',
     ''bigint'', ''currency'', ''percent'', ''rating'', ''boolean'', ''timestamp'', ''date'',
     ''time'', ''json'', ''csv'', ''location'', ''color'', ''m2o'', ''o2m'', ''m2m'', ''m2a'',
     ''file'', ''image'', ''select'', ''uuid'', ''table'', ''formula'', ''text_editor'', ''code'',
     ''markdown'', ''signature'', ''duration'', ''barcode'', ''datetime'', ''phone'', ''email'',
     ''url'', ''icon'', ''tags'', ''progress'']"

definition validators_fieldType :: "jsval \<Rightarrow> string + string" where
  "validators_fieldType value =
     (case value of
        Str v \<Rightarrow> (if v \<in> set FIELD_TYPE_NAMES then Inr v
                  else Inl (''Invalid field type \"'' @ v @ ''\". Valid: '' @ join_with '', '' FIELD_TYPE_NAMES))
      | _ \<Rightarrow> Inl (''Invalid field type \"'' @ to_str value @ ''\". Valid: '' @ join_with '', '' FIELD_TYPE_NAMES))"

definition assertValid :: "string + 'a \<Rightarrow> 'a res" where
  "assertValid result = (case result of Inl e \<Rightarrow> Inl (JsError ''ValidationError'' e) | Inr v \<Rightarrow> Inr v)"

definition assertValidAll :: "(string \<times> (string + jsval)) list \<Rightarrow> jsobj res" where
  "assertValidAll validations = foldR (\<lambda>(key, validation) result.
     case validation of Inl e \<Rightarrow> Inl (JsError ''ValidationError'' (key @ '': '' @ e))
     | Inr v \<Rightarrow> Inr (amap_set key v result)) validations []"

section \<open>time.ts\<close>

definition MMT_OFFSET_MS :: int where "MMT_OFFSET_MS = 23400000"

definition DAY_MS :: int where "DAY_MS = 86400000"

text \<open>
  A \<open>Date\<close> argument and an epoch-milliseconds argument are the same number here; a string
  argument is first read by the engine's date parser, a parameter of the model.
\<close>

datatype mmt_input = MmtMs int | MmtText string

definition toMmtDate :: "(string \<Rightarrow> int option) \<Rightarrow> mmt_input \<Rightarrow> string res" where
  "toMmtDate date_parse value =
     (case value of
        MmtMs ms \<Rightarrow> Inr (take 10 (to_iso (ms + MMT_OFFSET_MS)))
      | MmtText s \<Rightarrow> (case date_parse s of
            None \<Rightarrow> Inl (JsError ''RangeError'' ''Invalid time value'')
          | Some ms \<Rightarrow> Inr (take 10 (to_iso (ms + MMT_OFFSET_MS)))))"

definition todayMmtDate :: "(string \<Rightarrow> int option) \<Rightarrow> int \<Rightarrow> string res" where
  "todayMmtDate date_parse now = toMmtDate date_parse (MmtMs now)"

definition mmt_window_start :: "int \<Rightarrow> int \<Rightarrow> int" where
  "mmt_window_start days now = (now + MMT_OFFSET_MS) div DAY_MS * DAY_MS - MMT_OFFSET_MS - days * DAY_MS"

definition mmtWindowStartIso :: "int \<Rightarrow> int \<Rightarrow> string" where
  "mmtWindowStartIso days now = to_iso (mmt_window_start days now)"

text \<open>\<open>setUTCHours(0, 0, 0, 0)\<close> keeps the day of the time value.\<close>

definition mmt_day_start :: "int \<Rightarrow> int" where
  "mmt_day_start now = ms_day (now + MMT_OFFSET_MS) * ms_per_day - MMT_OFFSET_MS"

definition mmtDayStartIso :: "int \<Rightarrow> string" where
  "mmtDayStartIso now = to_iso (mmt_day_start now)"

definition addDays :: "(string \<Rightarrow> int option) \<Rightarrow> string \<Rightarrow> int \<Rightarrow> string res" where
  "addDays date_parse date days =
     (case date_parse (date @ ''T00:00:00Z'') of
        None \<Rightarrow> Inl (JsError ''RangeError'' ''Invalid time value'')
      | Some t \<Rightarrow>
          (let D = ms_day t; D' = make_day (day_year D) (day_month D) (day_date D + days)
           in Inr (take 10 (to_iso (D' * ms_per_day + t mod ms_per_day)))))"

definition dayOf :: "jsval \<Rightarrow> string" where
  "dayOf value = (case value of Str s \<Rightarrow> take 10 s | _ \<Rightarrow> [])"

end
