(* ===== verification/UtilsClaims.thy ===== *)
theory UtilsClaims
  imports Utils
begin

text \<open>
  Properties of \<open>packages/utils\<close>: what the slug validator accepts, the agreement of the two
  Myanmar-time day boundaries, calendar arithmetic on date strings, and table-name prefixes.
\<close>

section \<open>Slugs\<close>

lemma collapse_runs_chars: "c \<in> set (collapse_runs sep r s) \<Longrightarrow> is_slug_char c \<or> c = sep"
  by (induction s arbitrary: r) (auto split: if_splits)

lemma collapse_runs_clean:
  "list_all (\<lambda>c. is_slug_char c \<or> c = sep) s \<Longrightarrow> \<not> is_slug_char sep \<Longrightarrow>
     collapse_runs sep r (collapse_runs sep r' s) = collapse_runs sep r (collapse_runs sep r' s)"
  by simp

text \<open>No two separators in a row.\<close>

fun single_seps :: "char \<Rightarrow> string \<Rightarrow> bool" where
  "single_seps sep (c # d # s) = (\<not> (c = sep \<and> d = sep) \<and> single_seps sep (d # s))"
| "single_seps sep s = True"

lemma collapse_runs_head: "\<not> is_slug_char sep \<Longrightarrow> collapse_runs sep True s \<noteq> [] \<Longrightarrow> hd (collapse_runs sep True s) \<noteq> sep"
  by (induction s) auto

lemma single_seps_Cons: "single_seps sep (c # s) \<longleftrightarrow> (s = [] \<or> \<not> (c = sep \<and> hd s = sep)) \<and> single_seps sep s"
  by (cases s) auto

lemma collapse_runs_single: "\<not> is_slug_char sep \<Longrightarrow> single_seps sep (collapse_runs sep r s)"
proof (induction s arbitrary: r)
  case (Cons c s)
  then show ?case using collapse_runs_head [of sep s] by (auto simp: single_seps_Cons)
qed simp

lemma collapse_runs_id:
  "\<not> is_slug_char sep \<Longrightarrow> list_all (\<lambda>c. is_slug_char c \<or> c = sep) s \<Longrightarrow> single_seps sep s \<Longrightarrow>
     (r \<longrightarrow> s = [] \<or> hd s \<noteq> sep) \<Longrightarrow> collapse_runs sep r s = s"
  by (induction s arbitrary: r) (auto simp: single_seps_Cons)

lemma single_seps_tl: "single_seps sep s \<Longrightarrow> single_seps sep (tl s)"
  by (cases s) (auto simp: single_seps_Cons)

lemma single_seps_butlast: "single_seps sep s \<Longrightarrow> single_seps sep (butlast s)"
  by (induction sep s rule: single_seps.induct) (auto simp: single_seps_Cons)

lemma trim_sep_cases:
  "trim_sep sep s = (let t = if s \<noteq> [] \<and> hd s = sep then tl s else s in if t \<noteq> [] \<and> last t = sep then butlast t else t)"
  by (cases s) (auto simp: trim_sep_def Let_def)

lemma last_butlast_sep: "single_seps sep s \<Longrightarrow> s \<noteq> [] \<Longrightarrow> last s = sep \<Longrightarrow> butlast s \<noteq> [] \<Longrightarrow> last (butlast s) \<noteq> sep"
  by (induction sep s rule: single_seps.induct) (auto simp: single_seps_Cons split: if_splits)

lemma hd_butlast: "butlast s \<noteq> [] \<Longrightarrow> hd (butlast s) = hd s"
  by (cases s) auto

lemma trim_sep_ends:
  assumes "single_seps sep s" "trim_sep sep s = t"
  shows "t = [] \<or> (hd t \<noteq> sep \<and> last t \<noteq> sep)" "single_seps sep t" "set t \<subseteq> set s"
proof -
  define u where "u = (if s \<noteq> [] \<and> hd s = sep then tl s else s)"
  have u: "single_seps sep u" "u = [] \<or> hd u \<noteq> sep" "set u \<subseteq> set s"
    using assms(1) single_seps_tl [of sep s] by (cases s; auto simp: u_def single_seps_Cons split: if_splits)+
  have t: "t = (if u \<noteq> [] \<and> last u = sep then butlast u else u)"
    using assms(2) by (auto simp: trim_sep_cases u_def Let_def)
  show "t = [] \<or> (hd t \<noteq> sep \<and> last t \<noteq> sep)"
    using u t last_butlast_sep [of sep u] hd_butlast [of u] by (auto split: if_splits)
  show "single_seps sep t" using u t single_seps_butlast [of sep u] by auto
  show "set t \<subseteq> set s" using u t by (auto split: if_splits dest: in_set_butlastD)
qed

lemma trim_sep_id: "s = [] \<or> (hd s \<noteq> sep \<and> last s \<noteq> sep) \<Longrightarrow> trim_sep sep s = s"
  by (auto simp: trim_sep_cases Let_def)

lemma slugify_fixed:
  assumes "\<not> is_slug_char sep" "slugify sep s = t" shows "slugify sep t = t"
proof -
  let ?c = "collapse_runs sep False s"
  have t: "trim_sep sep ?c = t" using assms(2) by (simp add: slugify_def)
  note e = trim_sep_ends [OF collapse_runs_single [OF assms(1)] t]
  have "list_all (\<lambda>c. is_slug_char c \<or> c = sep) t"
    using e(3) collapse_runs_chars [of _ sep False s] by (auto simp: list_all_iff)
  then have "collapse_runs sep False t = t" using e(2) assms(1) by (intro collapse_runs_id) auto
  then show ?thesis using e(1) by (simp add: slugify_def trim_sep_id)
qed

lemma lower_fixed: "is_slug_char c \<or> c = CHR ''_'' \<Longrightarrow> lower_char c = c"
  by (auto simp: lower_char_def is_slug_char_def char_class_defs char_codes)

lemma slug_chars_clean:
  assumes "list_all (\<lambda>c. is_slug_char c \<or> c = CHR ''_'') s" shows "to_lower (trim s) = s"
proof -
  have n: "\<not> is_space c" if "c \<in> set s" for c
    using that assms by (auto simp: list_all_iff is_slug_char_def char_class_defs is_space_def char_codes)
  have "dropWhile is_space s = s" using n by (cases s) auto
  moreover have "dropWhile is_space (rev s) = rev s" using n by (cases "rev s") (auto simp: rev_eq_Cons_iff)
  ultimately have "trim s = s" by (simp add: trim_def trim_start_def)
  moreover have "map lower_char s = s" using assms lower_fixed by (intro map_idI) (auto simp: list_all_iff)
  ultimately show ?thesis by (simp add: to_lower_def)
qed

lemma slug_start: "SLUG_RE t \<Longrightarrow> t \<noteq> [] \<and> IDENTIFIER_RE t \<and> list_all (\<lambda>c. is_slug_char c \<or> c = CHR ''_'') t"
  by (auto simp: SLUG_RE_def IDENTIFIER_RE_def is_ident_start_def is_slug_char_def is_alpha_def is_word_def
      list_all_iff split: list.splits)

text \<open>
  What \<open>validators.slug\<close> accepts is a sanitized SQL identifier in lower case, not a
  reserved word, and a fixed point: validating the result again returns it unchanged.
\<close>

theorem slug_is_safe_identifier:
  assumes "validators_slug (Str s) field = Inr t"
  shows "sanitizeIdentifier t ctx = Inr t \<and> SLUG_RE t \<and> \<not> isReservedSqlWord t \<and> validators_slug (Str t) field = Inr t"
proof -
  have t: "t = slugify CHR ''_'' (to_lower (trim s))" "SLUG_RE t" "\<not> isReservedSqlWord t"
    using assms by (auto simp: validators_slug_def Let_def split: if_splits)
  note sl = slug_start [OF t(2)]
  have "\<not> is_slug_char CHR ''_''" by code_simp
  then have "slugify CHR ''_'' t = t" using t(1) slugify_fixed by metis
  moreover have "to_lower (trim t) = t" using sl slug_chars_clean by blast
  moreover from this sl have "trim t \<noteq> []" by (auto simp: to_lower_def)
  ultimately show ?thesis using t sl by (simp add: validators_slug_def Let_def)
qed

theorem slug_is_safe_identifier_witness:
  "validators_slug (Str ''  Sales -- Order 2 '') ''slug'' = Inr ''sales_order_2'' \<and>
     sanitizeIdentifier ''sales_order_2'' ''x'' = Inr ''sales_order_2''"
proof -
  have r: "validators_slug (Str ''  Sales -- Order 2 '') ''slug'' = Inr ''sales_order_2''" by code_simp
  then show ?thesis using slug_is_safe_identifier [OF r, of "''x''"] by blast
qed

section \<open>Myanmar time\<close>

text \<open>
  C31. The dedupe window of \<open>mmtDayStartIso\<close> opens at the same instant as the zero-day window
  of \<open>mmtWindowStartIso\<close>, that instant is at most one day before now, and a window of \<open>d\<close>
  days opens exactly \<open>d\<close> days earlier.
\<close>

theorem mmt_windows_agree:
  "mmtDayStartIso now = mmtWindowStartIso 0 now \<and>
   mmt_window_start 0 now \<le> now \<and> now < mmt_window_start 0 now + DAY_MS \<and>
   mmt_window_start d now = mmt_window_start 0 now - d * DAY_MS"
  using div_bounds [of DAY_MS "now + MMT_OFFSET_MS"]
  by (simp add: mmtDayStartIso_def mmtWindowStartIso_def mmt_day_start_def mmt_window_start_def
      ms_day_def DAY_MS_def mult.commute)

definition iso_date :: "int \<Rightarrow> string" where
  "iso_date D = take 10 (to_iso (D * ms_per_day))"

text \<open>
  \<open>addDays\<close> is addition on the calendar: adding \<open>n\<close> days to the date string of day
  \<open>D\<close> gives the date string of day \<open>D + n\<close>, across month and year ends. The hypothesis is
  what ECMA-262 documents of the date parser on a \<open>YYYY-MM-DDT00:00:00Z\<close> text.
\<close>

theorem addDays_adds_days:
  assumes "date_parse (iso_date D @ ''T00:00:00Z'') = Some (D * ms_per_day)"
  shows "addDays date_parse (iso_date D) n = Inr (iso_date (D + n))"
proof -
  have "ms_day (D * ms_per_day) = D" by (simp add: ms_day_def )
  moreover have "make_day (day_year D) (day_month D) (day_date D + n) = D + n"
    using make_day_date_shift [of "day_year D" "day_month D" "day_date D" n] make_day_read [of D] by simp
  ultimately show ?thesis using assms by (simp add: addDays_def iso_date_def Let_def)
qed

theorem addDays_adds_days_witness:
  "addDays (\<lambda>s. if s = ''2024-02-28T00:00:00Z'' then Some (19781 * ms_per_day) else None) ''2024-02-28'' 2
     = Inr ''2024-03-01''"
proof -
  have d: "iso_date 19781 = ''2024-02-28''" "iso_date (19781 + 2) = ''2024-03-01''" by code_simp+
  then show ?thesis
    using addDays_adds_days [of "\<lambda>s. if s = ''2024-02-28T00:00:00Z'' then Some (19781 * ms_per_day) else None" 19781 2]
    by simp
qed

end
