(* ===== verification/SqlParams.thy ===== *)
theory SqlParams
  imports Utils
begin

text \<open>
  SQL statements with bound parameters, as \<open>packages/core/src/db\<close> passes them around:
  the statement record, the scan of a text for its placeholders (\<open>?\<close> and \<open>?N\<close>, the
  two forms the renumbering expressions of \<open>query-builder.ts\<close> match), the parameter a
  placeholder reads in SQLite (\<open>?N\<close> reads parameter \<open>N\<close>; a bare \<open>?\<close> reads one more
  than the largest parameter so far), the renumbering passes, and the contract
  \<open>param_renderer\<close> of a routine that renders text and bindings from a start index.
\<close>

section \<open>Statements\<close>

record sql_stmt =
  sql :: string
  bindings :: "jsval list"

abbreviation stmt :: "string \<Rightarrow> jsval list \<Rightarrow> sql_stmt" where
  "stmt s bs \<equiv> \<lparr>sql = s, bindings = bs\<rparr>"

text \<open>A statement as the JavaScript object \<open>{ sql, bindings }\<close>, and reading one back.\<close>

definition stmt_value :: "sql_stmt \<Rightarrow> jsval" where
  "stmt_value st = Obj [(''sql'', Str (sql st)), (''bindings'', Arr (bindings st))]"

text \<open>\<open>array.push(...v)\<close>: arrays and strings can be spread, other values cannot.\<close>

fun spread_value :: "jsval \<Rightarrow> jsval list res" where
  "spread_value (Arr xs) = Inr xs"
| "spread_value (Str s) = Inr (map (\<lambda>c. Str [c]) s)"
| "spread_value v = throw_type ''Spread syntax requires ...iterable[Symbol.iterator] to be a function''"

definition stmt_of :: "jsval \<Rightarrow> sql_stmt res" where
  "stmt_of v = (case v of
     Obj kvs \<Rightarrow>
       (case obj_get kvs ''sql'' of
          Str s \<Rightarrow> bindR (spread_value (obj_get kvs ''bindings'')) (\<lambda>bs. Inr (stmt s bs))
        | _ \<Rightarrow> throw_type ''sql.replace is not a function'')
   | _ \<Rightarrow> throw_type ''Cannot read properties of undefined'')"

lemma stmt_of_value [simp]: "stmt_of (stmt_value st) = Inr st"
  by (simp add: stmt_of_def stmt_value_def obj_get_def)

section \<open>Placeholders of a text\<close>

function params :: "string \<Rightarrow> nat option list" where
  "params [] = []"
| "params (c # s) =
     (if c = CHR ''?''
      then (if takeWhile is_digit s = [] then None else Some (read_nat (takeWhile is_digit s)))
           # params (dropWhile is_digit s)
      else params s)"
  by pat_completeness auto
termination by (relation "measure length") (auto simp: le_imp_less_Suc length_dropWhile_le)

text \<open>The parameter number each placeholder reads, \<open>m\<close> the largest so far.\<close>

fun bind_slots :: "nat \<Rightarrow> nat option list \<Rightarrow> nat list" where
  "bind_slots m [] = []"
| "bind_slots m (Some n # ps) = n # bind_slots (max m n) ps"
| "bind_slots m (None # ps) = Suc m # bind_slots (Suc m) ps"

definition slots :: "string \<Rightarrow> nat list" where
  "slots s = bind_slots 0 (params s)"

text \<open>
  The \<open>k\<close>-th placeholder reads the \<open>k\<close>-th binding, and there are as many of each.
\<close>

definition binds_in_order :: "sql_stmt \<Rightarrow> bool" where
  "binds_in_order st \<longleftrightarrow> slots (sql st) = [1..<Suc (length (bindings st))]"

definition all_numbered :: "string \<Rightarrow> bool" where
  "all_numbered s \<longleftrightarrow> None \<notin> set (params s)"

text \<open>A list of placeholders that continues the numbering from \<open>m\<close>: its last number.\<close>

fun consec :: "nat \<Rightarrow> nat option list \<Rightarrow> nat option" where
  "consec m [] = Some m"
| "consec m (None # ps) = consec (Suc m) ps"
| "consec m (Some n # ps) = (if n = Suc m then consec n ps else None)"

lemma consec_append: "consec m (xs @ ys) = Option.bind (consec m xs) (\<lambda>k. consec k ys)"
  by (induction m xs rule: consec.induct) auto

lemma consec_Somes [simp]: "m \<le> k \<Longrightarrow> consec m (map Some [Suc m..<Suc k]) = Some k"
proof (induction rule: inc_induct)
  case (step n) then show ?case by (simp add: upt_conv_Cons [of "Suc n"] del: upt_Suc)
qed simp

lemma consec_Nones [simp]: "consec m (replicate r None) = Some (m + r)"
  by (induction r arbitrary: m) auto

lemma consec_le: "consec m ps = Some k \<Longrightarrow> m \<le> k"
  by (induction m ps rule: consec.induct) (auto split: if_splits)

lemma consec_slots: "consec m ps = Some k \<Longrightarrow> bind_slots m ps = [Suc m..<Suc k]"
proof (induction m ps rule: consec.induct)
  case (2 m ps)
  then have "bind_slots (Suc m) ps = [Suc (Suc m)..<Suc k]" "Suc m \<le> k"
    using consec_le [of "Suc m" ps k] by auto
  then show ?case by (simp add: upt_conv_Cons [of "Suc m"] del: upt_Suc)
next
  case (3 m n ps)
  then have "n = Suc m" "bind_slots n ps = [Suc n..<Suc k]" "n \<le> k"
    using consec_le [of n ps k] by (auto split: if_splits)
  then show ?case by (simp add: upt_conv_Cons [of "Suc m"] max_def del: upt_Suc)
qed auto

lemma consec_binds: "consec 0 (params (sql st)) = Some (length (bindings st)) \<Longrightarrow> binds_in_order st"
  using consec_slots by (simp add: binds_in_order_def slots_def)

section \<open>Placeholders of composed texts\<close>

definition no_qmark :: "string \<Rightarrow> bool" where
  "no_qmark s \<longleftrightarrow> CHR ''?'' \<notin> set s"

lemma no_qmark_simps [simp, qmark_simps]:
  "no_qmark []" "no_qmark (c # s) \<longleftrightarrow> c \<noteq> CHR ''?'' \<and> no_qmark s"
  "no_qmark (a @ b) \<longleftrightarrow> no_qmark a \<and> no_qmark b"
  by (auto simp: no_qmark_def)

lemma no_qmark_ident [simp]: "IDENTIFIER_RE s \<Longrightarrow> no_qmark s"
  by (simp add: no_qmark_def ident_no_qmark)

lemma no_qmark_join [simp]: "no_qmark (join_with sep xs) \<longleftrightarrow> (\<forall>x \<in> set xs. no_qmark x) \<and> (length xs > 1 \<longrightarrow> no_qmark sep)"
  by (induction sep xs rule: join_with.induct) auto

lemma params_plain_append: "no_qmark a \<Longrightarrow> params (a @ b) = params b"
  by (induction a) auto

lemma params_plain [simp]: "no_qmark a \<Longrightarrow> params a = []"
  using params_plain_append [of a "[]"] by simp

text \<open>A text that cannot extend the number of a placeholder before it.\<close>

definition starts_plain :: "string \<Rightarrow> bool" where
  "starts_plain b \<longleftrightarrow> b = [] \<or> \<not> is_digit (hd b)"

lemma starts_plain_simps [simp]:
  "starts_plain []" "starts_plain (c # s) \<longleftrightarrow> \<not> is_digit c"
  by (simp_all add: starts_plain_def)

lemma starts_plain_append [simp]: "a \<noteq> [] \<Longrightarrow> starts_plain (a @ b) = starts_plain a"
  by (simp add: starts_plain_def)

lemma takeWhile_plain: "starts_plain b \<Longrightarrow> takeWhile is_digit (s @ b) = takeWhile is_digit s"
  by (induction s) (cases b; auto)+

lemma dropWhile_plain: "starts_plain b \<Longrightarrow> dropWhile is_digit (s @ b) = dropWhile is_digit s @ b"
  by (induction s) (cases b; auto)+

lemma params_append: "starts_plain b \<Longrightarrow> params (a @ b) = params a @ params b"
  by (induction a rule: params.induct) (simp_all add: takeWhile_plain dropWhile_plain)

lemma params_join:
  assumes "sep \<noteq> []" "starts_plain sep" "no_qmark sep"
  shows "params (join_with sep ts) = concat (map params ts)"
  using assms
proof (induction sep ts rule: join_with.induct)
  case (3 sep x y ys)
  then show ?case by (simp add: params_append params_plain_append)
qed auto

lemma params_number: "starts_plain b \<Longrightarrow> params (CHR ''?'' # show_nat n @ b) = Some n # params b"
proof -
  assume b: "starts_plain b"
  have d: "\<forall>x \<in> set (show_nat n). is_digit x" using show_nat_digit by blast
  then have "takeWhile is_digit (show_nat n @ b) = show_nat n"
    using takeWhile_plain [OF b, of "show_nat n"] by (simp add: takeWhile_eq_all_conv [THEN iffD2])
  moreover have "dropWhile is_digit (show_nat n @ b) = b"
    using dropWhile_plain [OF b, of "show_nat n"] d by (simp add: dropWhile_eq_Nil_conv [THEN iffD2])
  ultimately show ?thesis by simp
qed

lemma params_number_end [simp]: "params (CHR ''?'' # show_nat n) = [Some n]"
  using params_number [of "[]" n] by simp

section \<open>Renumbering\<close>

text \<open>
  \<open>s.replace(/\?\d+/g, () => `?${counter++}`)\<close> when \<open>every\<close> is false, and
  \<open>s.replace(/\?(\d+)?/g, () => `?${counter++}`)\<close> when it is true: the new text and the
  final counter.
\<close>

function renumber :: "bool \<Rightarrow> nat \<Rightarrow> string \<Rightarrow> string \<times> nat" where
  "renumber every k [] = ([], k)"
| "renumber every k (c # s) =
     (if c = CHR ''?'' \<and> (every \<or> takeWhile is_digit s \<noteq> [])
      then (let (t, k') = renumber every (Suc k) (dropWhile is_digit s)
            in (CHR ''?'' # show_nat k @ t, k'))
      else (let (t, k') = renumber every k s in (c # t, k')))"
  by pat_completeness auto
termination
  by (relation "measure (\<lambda>(e, k, s). length s)") (auto simp: le_imp_less_Suc length_dropWhile_le)

lemma renumber_plain: "no_qmark s \<Longrightarrow> renumber every k s = (s, k)"
  by (induction s) auto

lemma renumber_starts_plain: "starts_plain s \<Longrightarrow> starts_plain (fst (renumber every k s))"
  by (cases s) (auto simp: Let_def split: prod.splits)

lemma dropWhile_starts_plain [simp]: "starts_plain (dropWhile is_digit s)"
  by (induction s) auto

lemma renumber_params:
  assumes "every \<or> all_numbered s" "renumber every k s = (t, k')"
  shows "params t = map Some [k..<k'] \<and> k' = k + length (params s)"
  using assms
proof (induction every k s arbitrary: t k' rule: renumber.induct)
  case (2 every k c s)
  show ?case
  proof (cases "c = CHR ''?''")
    case True
    then have ds: "every \<or> takeWhile is_digit s \<noteq> []"
      using "2.prems"(1) by (auto simp: all_numbered_def split: if_splits)
    obtain u where u: "renumber every (Suc k) (dropWhile is_digit s) = (u, k')"
      and t: "t = CHR ''?'' # show_nat k @ u"
      using "2.prems"(2) True ds by (auto split: prod.splits)
    have "every \<or> all_numbered (dropWhile is_digit s)"
      using "2.prems"(1) True by (auto simp: all_numbered_def)
    then have IH: "params u = map Some [Suc k..<k'] \<and> k' = Suc k + length (params (dropWhile is_digit s))"
      using "2.IH"(1) True ds u by auto
    have "starts_plain u"
      using renumber_starts_plain [of "dropWhile is_digit s" every "Suc k"] u by simp
    then have "params t = Some k # params u" using t params_number by simp
    moreover have "[k..<k'] = k # [Suc k..<k']" using IH by (simp add: upt_conv_Cons del: upt_Suc)
    ultimately show ?thesis using IH True by simp
  next
    case False
    then obtain u where u: "renumber every k s = (u, k')" and t: "t = c # u"
      using "2.prems"(2) by (auto split: prod.splits)
    have "every \<or> all_numbered s" using "2.prems"(1) False by (auto simp: all_numbered_def)
    then show ?thesis using "2.IH"(2) False u t by auto
  qed
qed (auto simp: all_numbered_def)

section \<open>The contract of a rendering routine\<close>

text \<open>
  A routine that renders one item from the start index \<open>i\<close> returns its text, the
  bindings it pushes and the next index. \<open>render_seq\<close> is the loop that threads the
  index and the bindings through a list of items.
\<close>

type_synonym rendered = "string \<times> jsval list \<times> nat"

definition numbered :: "nat \<Rightarrow> rendered \<Rightarrow> bool" where
  "numbered i r \<longleftrightarrow> (case r of (t, bs, j) \<Rightarrow> params t = map Some [i..<j] \<and> j = i + length bs)"

fun render_seq :: "('c \<Rightarrow> nat \<Rightarrow> rendered res) \<Rightarrow> 'c list \<Rightarrow> nat \<Rightarrow> (string list \<times> jsval list \<times> nat) res" where
  "render_seq f [] i = Inr ([], [], i)"
| "render_seq f (c # cs) i =
     bindR (f c i) (\<lambda>(t, bs, j).
     bindR (render_seq f cs j) (\<lambda>(ts, bs', k). Inr (t # ts, bs @ bs', k)))"

locale param_renderer =
  fixes render :: "'c \<Rightarrow> nat \<Rightarrow> rendered res"
    and ok :: "'c \<Rightarrow> bool"
  assumes item_numbered: "ok c \<Longrightarrow> render c i = Inr r \<Longrightarrow> numbered i r"
begin

lemma seq_numbered:
  "list_all ok cs \<Longrightarrow> render_seq render cs i = Inr (ts, bs, j) \<Longrightarrow>
     concat (map params ts) = map Some [i..<j] \<and> j = i + length bs"
proof (induction cs arbitrary: i ts bs)
  case (Cons c cs)
  from Cons.prems obtain t b k ts' bs' where
      r: "render c i = Inr (t, b, k)" "render_seq render cs k = Inr (ts', bs', j)"
        "ts = t # ts'" "bs = b @ bs'"
    by (auto simp: bindR_Inr_iff)
  have "numbered i (t, b, k)" using Cons.prems(1) r(1) by (auto intro: item_numbered)
  moreover have "concat (map params ts') = map Some [k..<j] \<and> j = k + length bs'"
    using Cons.IH Cons.prems(1) r(2) by simp
  ultimately show ?case
    using r(3,4) upt_add_eq_append [of i k "length bs'"] by (simp add: numbered_def)
qed simp

lemma seq_joined:
  assumes "list_all ok cs" "render_seq render cs i = Inr (ts, bs, j)"
    and "sep \<noteq> []" "starts_plain sep" "no_qmark sep"
  shows "numbered i (join_with sep ts, bs, j)"
  using seq_numbered [OF assms(1,2)] params_join [OF assms(3-5)] by (simp add: numbered_def)

lemma seq_length: "render_seq render cs i = Inr (ts, bs, j) \<Longrightarrow> length ts = length cs"
  by (induction cs arbitrary: i ts bs) (auto simp: bindR_Inr_iff)

end

end
