(* ===== verification/QueryBuilder.thy ===== *)
theory QueryBuilder
  imports SqlParams
begin

text \<open>
  \<open>packages/core/src/db/query-builder.ts\<close>: the class \<open>QueryBuilder\<close> as a record of its
  private fields, its builder methods as functions from a builder to a builder (or the error
  they throw), and the generators \<open>toSelect\<close>, \<open>toInsert\<close>, \<open>toInsertMany\<close>,
  \<open>toUpdate\<close>, \<open>toDelete\<close>, \<open>toCount\<close>, \<open>union\<close>. The lemmas show that every
  generator numbers its placeholders in the order of its bindings.
\<close>

section \<open>State\<close>

record wclause =
  w_column :: string
  w_op :: string
  w_value :: jsval
  w_type :: string
  w_not :: bool

record join_clause =
  j_type :: string
  j_table :: string
  j_on :: string
  j_bindings :: "jsval list"

record having_clause =
  h_column :: string
  h_op :: string
  h_value :: jsval

record cte_def =
  cte_name :: string
  cte_recursive :: bool
  cte_query :: sql_stmt

record qb =
  q_table :: string
  q_columns :: "string list"
  q_wheres :: "wclause list"
  q_orderBy :: "(string \<times> string) list"
  q_groupBy :: "string list"
  q_havings :: "having_clause list"
  q_limit :: "jsnum option"
  q_offset :: "jsnum option"
  q_distinct :: bool
  q_returning :: bool
  q_joins :: "join_clause list"
  q_rawSelects :: "string list"
  q_rawBindings :: "jsval list"
  q_conflictColumns :: "string list option"
  q_conflictAction :: "string option"
  q_ctes :: "cte_def list"
  q_windows :: "(string \<times> string) list"

definition qb_from :: "string \<Rightarrow> qb res" where
  "qb_from table = bindR (sanitizeIdentifier table ''QueryBuilder.table'') (\<lambda>t.
     Inr \<lparr>q_table = t, q_columns = [''*''], q_wheres = [], q_orderBy = [], q_groupBy = [],
          q_havings = [], q_limit = None, q_offset = None, q_distinct = False,
          q_returning = False, q_joins = [], q_rawSelects = [], q_rawBindings = [],
          q_conflictColumns = None, q_conflictAction = None, q_ctes = [], q_windows = []\<rparr>)"

definition qb_raw :: "string \<Rightarrow> jsval list \<Rightarrow> sql_stmt" where
  "qb_raw s bs = stmt s bs"

text \<open>The template tag: one more string than values; statements are inlined.\<close>

fun qb_sql :: "string list \<Rightarrow> jsval list \<Rightarrow> sql_stmt res" where
  "qb_sql [] vs = Inr (stmt [] [])"
| "qb_sql (s # ss) [] = bindR (qb_sql ss []) (\<lambda>st. Inr (stmt (s @ sql st) (bindings st)))"
| "qb_sql (s # ss) (v # vs) =
     (case v of
        Obj kvs \<Rightarrow>
          (if obj_in ''sql'' kvs \<and> obj_in ''bindings'' kvs
           then bindR (spread_value (obj_get kvs ''bindings'')) (\<lambda>bs.
                bindR (qb_sql ss vs) (\<lambda>st.
                  Inr (stmt (s @ to_str (obj_get kvs ''sql'') @ sql st) (bs @ bindings st))))
           else bindR (qb_sql ss vs) (\<lambda>st. Inr (stmt (s @ ''?'' @ sql st) (v # bindings st))))
      | _ \<Rightarrow> bindR (qb_sql ss vs) (\<lambda>st. Inr (stmt (s @ ''?'' @ sql st) (v # bindings st))))"

section \<open>Identifiers and operators\<close>

definition sanitizeColumn :: "string \<Rightarrow> string \<Rightarrow> bool \<Rightarrow> string res" where
  "sanitizeColumn ident ctx allowStar =
     (let parts = split_on CHR ''.'' ident
      in bindR (mapR (\<lambda>(i, part). if allowStar \<and> i = length parts - 1 \<and> part = ''*'' then Inr ''*''
                                 else sanitizeIdentifier part ctx) (enumerate 0 parts))
           (\<lambda>ps. Inr (join_with ''.'' ps)))"

definition sanitizeQualified :: "string \<Rightarrow> string \<Rightarrow> string res" where
  "sanitizeQualified ident ctx =
     bindR (mapR (\<lambda>part. sanitizeIdentifier part ctx) (split_on CHR ''.'' ident))
       (\<lambda>ps. Inr (join_with ''.'' ps))"

definition valid_where_ops :: "string list" where
  "valid_where_ops = [''='', ''!='', ''>'', ''<'', ''>='', ''<='', ''LIKE'', ''NOT LIKE'', ''IN'',
     ''NOT IN'', ''IS NULL'', ''IS NOT NULL'', ''BETWEEN'']"

definition validateOp :: "qb \<Rightarrow> jsval \<Rightarrow> string res" where
  "validateOp q op =
     (case op of Str s \<Rightarrow> if s \<in> set valid_where_ops then Inr s
        else throw (''Invalid WHERE operator: \"'' @ s @ ''\" on table \"'' @ q_table q @ ''\". Valid: ''
               @ join_with '', '' valid_where_ops)
      | _ \<Rightarrow> throw (''Invalid WHERE operator: \"'' @ to_str op @ ''\" on table \"'' @ q_table q @
               ''\". Valid: '' @ join_with '', '' valid_where_ops))"

text \<open>\<open>/^[A-Za-z_][A-Za-z0-9_.]*$/\<close>\<close>

definition COLUMN_RE :: "string \<Rightarrow> bool" where
  "COLUMN_RE s = (case s of [] \<Rightarrow> False | c # t \<Rightarrow> is_ident_start c \<and>
     list_all (\<lambda>c. is_word c \<or> c = CHR ''.'') t)"

section \<open>Selected columns\<close>

definition qb_select :: "string list \<Rightarrow> qb \<Rightarrow> qb res" where
  "qb_select columns q = bindR (mapR (\<lambda>c. sanitizeColumn c ''QueryBuilder.select'' True) columns)
     (\<lambda>cs. Inr (q\<lparr>q_columns := cs\<rparr>))"

definition with_alias :: "string \<Rightarrow> string option \<Rightarrow> string" where
  "with_alias expression alias = (case alias of
     Some a \<Rightarrow> if a \<noteq> [] then expression @ '' as '' @ a else expression | None \<Rightarrow> expression)"

definition selectRaw :: "string \<Rightarrow> string option \<Rightarrow> qb \<Rightarrow> qb" where
  "selectRaw expression alias q = q\<lparr>q_rawSelects := q_rawSelects q @ [with_alias expression alias]\<rparr>"

definition selectExpr :: "string \<Rightarrow> string \<Rightarrow> qb \<Rightarrow> qb" where
  "selectExpr expression alias q = selectRaw expression (Some alias) q"

definition selectRawWith :: "string \<Rightarrow> jsval list \<Rightarrow> string option \<Rightarrow> qb \<Rightarrow> qb" where
  "selectRawWith expression bs alias q =
     q\<lparr>q_rawSelects := q_rawSelects q @ [with_alias expression alias],
       q_rawBindings := q_rawBindings q @ bs\<rparr>"

definition selectFn :: "string \<Rightarrow> jsval list \<Rightarrow> qb \<Rightarrow> qb" where
  "selectFn name args q =
     q\<lparr>q_rawSelects := q_rawSelects q @
         [name @ ''('' @ join_with '', '' (map (\<lambda>a. if a = Str ''*'' then ''*'' else ''?'') args) @ '')''],
       q_rawBindings := q_rawBindings q @ filter (\<lambda>a. a \<noteq> Str ''*'') args\<rparr>"

definition qb_fn :: "string \<Rightarrow> string list \<Rightarrow> string" where
  "qb_fn name args = name @ ''('' @ join_with '', '' args @ '')''"

definition caseWhen :: "string \<Rightarrow> string \<Rightarrow> string option \<Rightarrow> string" where
  "caseWhen whenClause thenValue elseValue =
     (let base = ''CASE WHEN '' @ whenClause @ '' THEN '' @ thenValue
      in case elseValue of Some e \<Rightarrow> base @ '' ELSE '' @ e @ '' END'' | None \<Rightarrow> base @ '' END'')"

section \<open>WHERE clauses\<close>

definition push_where :: "wclause \<Rightarrow> qb \<Rightarrow> qb" where
  "push_where w q = q\<lparr>q_wheres := q_wheres q @ [w]\<rparr>"

definition clause :: "string \<Rightarrow> string \<Rightarrow> jsval \<Rightarrow> string \<Rightarrow> wclause" where
  "clause col op v t = \<lparr>w_column = col, w_op = op, w_value = v, w_type = t, w_not = False\<rparr>"

definition pushRaw :: "string \<Rightarrow> jsval list \<Rightarrow> string \<Rightarrow> qb \<Rightarrow> qb" where
  "pushRaw s bs type q = push_where (clause ''RAW'' ''RAW'' (stmt_value (stmt s bs)) type) q"

definition whereRaw :: "string \<Rightarrow> jsval list \<Rightarrow> qb \<Rightarrow> qb" where
  "whereRaw s bs q = pushRaw s bs ''and'' q"

definition orWhereRaw :: "string \<Rightarrow> jsval list \<Rightarrow> qb \<Rightarrow> qb" where
  "orWhereRaw s bs q = pushRaw s bs ''or'' q"

text \<open>\<open>where\<close> and \<open>orWhere\<close>: two arguments mean equality.\<close>

definition where_typed :: "string \<Rightarrow> string \<Rightarrow> string \<Rightarrow> jsval \<Rightarrow> jsval \<Rightarrow> qb \<Rightarrow> qb res" where
  "where_typed ctx type column opOrValue maybeValue q =
     bindR (sanitizeColumn column ctx False) (\<lambda>col.
       let (op, value) = (if maybeValue \<noteq> Undef then (opOrValue, maybeValue) else (Str ''='', opOrValue))
       in bindR (validateOp q op) (\<lambda>op. Inr (push_where (clause col op value type) q)))"

definition qb_where :: "string \<Rightarrow> jsval \<Rightarrow> jsval \<Rightarrow> qb \<Rightarrow> qb res" where
  "qb_where = where_typed ''QueryBuilder.where'' ''and''"

definition orWhere :: "string \<Rightarrow> jsval \<Rightarrow> jsval \<Rightarrow> qb \<Rightarrow> qb res" where
  "orWhere = where_typed ''QueryBuilder.orWhere'' ''or''"

definition json_each :: "string \<Rightarrow> string \<Rightarrow> string" where
  "json_each col op = col @ '' '' @ op @ '' (SELECT value FROM json_each(?))''"

definition whereIn :: "string \<Rightarrow> jsval list \<Rightarrow> qb \<Rightarrow> qb res" where
  "whereIn column values q =
     bindR (sanitizeColumn column ''QueryBuilder.whereIn'' False) (\<lambda>col.
       if values = [] then Inr (whereRaw ''1 = 0'' [] q)
       else if length values > 50
         then Inr (whereRaw (json_each col ''IN'') [json_stringify (Arr values)] q)
       else Inr (push_where (clause col ''IN'' (Arr values) ''and'') q))"

definition orWhereIn :: "string \<Rightarrow> jsval list \<Rightarrow> qb \<Rightarrow> qb res" where
  "orWhereIn column values q =
     bindR (sanitizeIdentifier column ''QueryBuilder.orWhereIn'') (\<lambda>col.
       if values = [] then Inr q
       else if length values > 50
         then Inr (pushRaw (json_each col ''IN'') [json_stringify (Arr values)] ''or'' q)
       else Inr (push_where (clause col ''IN'' (Arr values) ''or'') q))"

definition whereNotIn :: "string \<Rightarrow> jsval list \<Rightarrow> qb \<Rightarrow> qb res" where
  "whereNotIn column values q =
     bindR (sanitizeIdentifier column ''QueryBuilder.whereNotIn'') (\<lambda>col.
       if values = [] then Inr (whereRaw ''1 = 1'' [] q)
       else if length values > 50
         then Inr (whereRaw (json_each col ''NOT IN'') [json_stringify (Arr values)] q)
       else Inr (push_where (clause col ''NOT IN'' (Arr values) ''and'') q))"

definition orWhereNotIn :: "string \<Rightarrow> jsval list \<Rightarrow> qb \<Rightarrow> qb res" where
  "orWhereNotIn column values q =
     bindR (sanitizeIdentifier column ''QueryBuilder.orWhereNotIn'') (\<lambda>col.
       if values = [] then Inr (pushRaw ''1 = 1'' [] ''or'' q)
       else if length values > 50
         then Inr (pushRaw (json_each col ''NOT IN'') [json_stringify (Arr values)] ''or'' q)
       else Inr (push_where (clause col ''NOT IN'' (Arr values) ''or'') q))"

definition whereNull :: "string \<Rightarrow> qb \<Rightarrow> qb res" where
  "whereNull column q = bindR (sanitizeColumn column ''QueryBuilder.whereNull'' False) (\<lambda>col.
     Inr (push_where (clause col ''IS NULL'' Null ''and'') q))"

definition orWhereNull :: "string \<Rightarrow> qb \<Rightarrow> qb res" where
  "orWhereNull column q = bindR (sanitizeIdentifier column ''QueryBuilder.orWhereNull'') (\<lambda>col.
     Inr (push_where (clause col ''IS NULL'' Null ''or'') q))"

definition whereNotNull :: "string \<Rightarrow> qb \<Rightarrow> qb res" where
  "whereNotNull column q = bindR (sanitizeIdentifier column ''QueryBuilder.whereNotNull'') (\<lambda>col.
     Inr (push_where (clause col ''IS NOT NULL'' Null ''and'') q))"

definition orWhereNotNull :: "string \<Rightarrow> qb \<Rightarrow> qb res" where
  "orWhereNotNull column q = bindR (sanitizeIdentifier column ''QueryBuilder.orWhereNotNull'') (\<lambda>col.
     Inr (push_where (clause col ''IS NOT NULL'' Null ''or'') q))"

definition whereBetween :: "string \<Rightarrow> jsval \<Rightarrow> jsval \<Rightarrow> qb \<Rightarrow> qb res" where
  "whereBetween column low high q =
     bindR (sanitizeIdentifier column ''QueryBuilder.whereBetween'') (\<lambda>col.
       Inr (push_where (clause col ''BETWEEN'' (Arr [low, high]) ''and'') q))"

definition whereNotBetween :: "string \<Rightarrow> jsval \<Rightarrow> jsval \<Rightarrow> qb \<Rightarrow> qb res" where
  "whereNotBetween column low high q =
     bindR (sanitizeIdentifier column ''QueryBuilder.whereNotBetween'') (\<lambda>col.
       Inr (whereRaw (col @ '' NOT BETWEEN ? AND ?'') [low, high] q))"

text \<open>A parenthesized group: each clause's own type defaults to the group's.\<close>

record group_clause =
  gc_column :: string
  gc_op :: string
  gc_value :: jsval
  gc_type :: "string option"

definition group_item :: "string \<Rightarrow> group_clause \<Rightarrow> jsval" where
  "group_item groupType c = Obj [(''column'', Str (gc_column c)), (''op'', Str (gc_op c)),
     (''value'', gc_value c), (''type'', Str (case gc_type c of Some t \<Rightarrow> t | None \<Rightarrow> groupType))]"

definition whereGroup :: "group_clause list \<Rightarrow> string \<Rightarrow> qb \<Rightarrow> qb res" where
  "whereGroup clauses groupType q =
     (if clauses = [] then Inr q
      else bindR (mapR (\<lambda>c. bindR (validateOp q (Str (gc_op c))) (\<lambda>_. Inr (group_item groupType c))) clauses)
        (\<lambda>items. Inr (push_where (clause ''__GROUP__'' ''__GROUP__'' (Arr items) groupType) q)))"

definition orCond :: "group_clause list \<Rightarrow> qb \<Rightarrow> qb res" where
  "orCond clauses q = whereGroup clauses ''or'' q"

definition andCond :: "group_clause list \<Rightarrow> qb \<Rightarrow> qb res" where
  "andCond clauses q = whereGroup clauses ''and'' q"

section \<open>Joins, grouping, ordering\<close>

definition qb_join :: "string \<Rightarrow> string \<Rightarrow> string \<Rightarrow> string \<Rightarrow> string option \<Rightarrow> qb \<Rightarrow> qb res" where
  "qb_join table first second type alias q =
     bindR (sanitizeIdentifier table ''QueryBuilder.join'') (\<lambda>t.
     bindR (case alias of
              Some a \<Rightarrow> if a \<noteq> [] then bindR (sanitizeIdentifier a ''QueryBuilder.join.alias'')
                                          (\<lambda>a. Inr (t @ '' AS '' @ a)) else Inr t
            | None \<Rightarrow> Inr t) (\<lambda>safeTable.
     bindR (sanitizeQualified first ''QueryBuilder.join.on'') (\<lambda>safeFirst.
     bindR (sanitizeQualified second ''QueryBuilder.join.on'') (\<lambda>safeSecond.
       Inr (q\<lparr>q_joins := q_joins q @ [\<lparr>j_type = type, j_table = safeTable,
              j_on = safeFirst @ '' = '' @ safeSecond, j_bindings = []\<rparr>]\<rparr>)))))"

definition leftJoin :: "string \<Rightarrow> string \<Rightarrow> string \<Rightarrow> string option \<Rightarrow> qb \<Rightarrow> qb res" where
  "leftJoin table first second alias q = qb_join table first second ''LEFT'' alias q"

definition joinRaw :: "string \<Rightarrow> jsval list \<Rightarrow> qb \<Rightarrow> qb" where
  "joinRaw joinClause bs q = q\<lparr>q_joins := q_joins q @ [\<lparr>j_type = ''INNER'', j_table = [],
     j_on = joinClause, j_bindings = bs\<rparr>]\<rparr>"

definition qb_distinct :: "qb \<Rightarrow> qb" where
  "qb_distinct q = q\<lparr>q_distinct := True\<rparr>"

definition groupBy :: "string list \<Rightarrow> qb \<Rightarrow> qb res" where
  "groupBy cols q = bindR (mapR (\<lambda>c. sanitizeColumn c ''QueryBuilder.groupBy'' False) cols)
     (\<lambda>cs. Inr (q\<lparr>q_groupBy := cs\<rparr>))"

definition HAVING_OPS :: "string list" where
  "HAVING_OPS = [''='', ''!='', ''>'', ''<'', ''>='', ''<='', ''LIKE'', ''IN'', ''NOT IN'',
     ''IS NULL'', ''IS NOT NULL'', ''BETWEEN'']"

definition having :: "string \<Rightarrow> string \<Rightarrow> jsval \<Rightarrow> qb \<Rightarrow> qb res" where
  "having col op val q =
     (if to_upper op \<notin> set HAVING_OPS
      then throw (''Invalid HAVING operator: \"'' @ op @ ''\". Valid: '' @ join_with '', '' HAVING_OPS)
      else bindR (sanitizeColumn col ''QueryBuilder.having'' False) (\<lambda>c.
        Inr (q\<lparr>q_havings := q_havings q @ [\<lparr>h_column = c, h_op = op, h_value = val\<rparr>]\<rparr>)))"

definition qb_window :: "string \<Rightarrow> string \<Rightarrow> qb \<Rightarrow> qb res" where
  "qb_window name def q = bindR (sanitizeIdentifier name ''QueryBuilder.window'') (\<lambda>n.
     Inr (q\<lparr>q_windows := q_windows q @ [(n, def)]\<rparr>))"

definition order_direction :: "string \<Rightarrow> string res" where
  "order_direction direction =
     (if to_lower direction \<noteq> ''asc'' \<and> to_lower direction \<noteq> ''desc''
      then throw (''Invalid ORDER BY direction: \"'' @ direction @ ''\". Valid: asc, desc'')
      else Inr (to_upper (to_lower direction)))"

definition orderBy :: "string \<Rightarrow> string \<Rightarrow> qb \<Rightarrow> qb res" where
  "orderBy column direction q = bindR (order_direction direction) (\<lambda>dir.
     bindR (sanitizeColumn column ''QueryBuilder.orderBy'' False) (\<lambda>c.
       Inr (q\<lparr>q_orderBy := q_orderBy q @ [(c, dir)]\<rparr>)))"

definition clearOrderBy :: "qb \<Rightarrow> qb" where
  "clearOrderBy q = q\<lparr>q_orderBy := []\<rparr>"

definition orderByRaw :: "string \<Rightarrow> string \<Rightarrow> qb \<Rightarrow> qb res" where
  "orderByRaw expression direction q = bindR (order_direction direction) (\<lambda>dir.
     Inr (q\<lparr>q_orderBy := q_orderBy q @ [(expression, dir)]\<rparr>))"

definition qb_limit :: "jsnum \<Rightarrow> qb \<Rightarrow> qb res" where
  "qb_limit n q = (if \<not> num_is_integer n \<or> num_lt n (Fin 0) then throw ''LIMIT must be a non-negative integer''
     else Inr (q\<lparr>q_limit := Some n\<rparr>))"

definition qb_offset :: "jsnum \<Rightarrow> qb \<Rightarrow> qb res" where
  "qb_offset n q = (if \<not> num_is_integer n \<or> num_lt n (Fin 0) then throw ''OFFSET must be a non-negative integer''
     else Inr (q\<lparr>q_offset := Some n\<rparr>))"

definition returning :: "bool \<Rightarrow> qb \<Rightarrow> qb" where
  "returning enabled q = q\<lparr>q_returning := enabled\<rparr>"

definition withoutReturning :: "qb \<Rightarrow> qb" where
  "withoutReturning q = q\<lparr>q_returning := False\<rparr>"

definition onConflict :: "string list \<Rightarrow> string \<Rightarrow> qb \<Rightarrow> qb res" where
  "onConflict columns action q =
     bindR (mapR (\<lambda>c. sanitizeIdentifier c ''QueryBuilder.onConflict'') columns) (\<lambda>cs.
       Inr (q\<lparr>q_conflictColumns := Some cs, q_conflictAction := Some action\<rparr>))"

section \<open>Rendering\<close>

definition render_cte_def :: "cte_def \<Rightarrow> nat \<Rightarrow> rendered res" where
  "render_cte_def c i =
     (let (s, j) = renumber False i (sql (cte_query c))
      in Inr (cte_name c @ '' AS ('' @ s @ '')'', bindings (cte_query c), j))"

definition renderCTE :: "qb \<Rightarrow> (string list \<times> jsval list \<times> nat) res" where
  "renderCTE q =
     (if q_ctes q = [] then Inr ([], [], 0)
      else bindR (render_seq render_cte_def (q_ctes q) 1) (\<lambda>(defs, bs, counter).
        Inr ([(if list_ex cte_recursive (q_ctes q) then ''WITH RECURSIVE '' else ''WITH '')
                @ join_with '', '' defs], bs, counter)))"

definition render_join :: "join_clause \<Rightarrow> nat \<Rightarrow> rendered res" where
  "render_join j i =
     (if j_table j = []
      then (let (s, k) = renumber True i (j_on j) in Inr (s, j_bindings j, k))
      else Inr (j_type j @ '' JOIN '' @ j_table j @ '' ON '' @ j_on j, [], i))"

definition buildJoins :: "qb \<Rightarrow> nat \<Rightarrow> (string list \<times> jsval list \<times> nat) res" where
  "buildJoins q i = render_seq render_join (q_joins q) i"

definition renderSubqueryClause :: "wclause \<Rightarrow> nat \<Rightarrow> rendered res" where
  "renderSubqueryClause w i =
     (if w_op w = ''IN'' \<or> w_op w = ''NOT IN'' then
        bindR (stmt_of (w_value w)) (\<lambda>sub.
          let (s, j) = renumber False i (sql sub)
          in Inr (w_column w @ '' '' @ w_op w @ '' ('' @ s @ '')'', bindings sub, j))
      else if w_column w = ''__EXISTS__'' then
        bindR (stmt_of (w_value w)) (\<lambda>sub.
          let (s, j) = renumber False i (sql sub)
          in Inr ((if w_not w then ''NOT EXISTS'' else ''EXISTS'') @ '' ('' @ s @ '')'', bindings sub, j))
      else Inr ([], [], i))"

text \<open>\<open>typeof v === 'object' && v !== null && 'sql' in v\<close>\<close>

definition has_sql :: "jsval \<Rightarrow> bool" where
  "has_sql v = (case v of Obj kvs \<Rightarrow> obj_in ''sql'' kvs | _ \<Rightarrow> False)"

definition elem_at :: "jsval \<Rightarrow> nat \<Rightarrow> jsval res" where
  "elem_at v i = (case v of
     Arr xs \<Rightarrow> Inr (if i < length xs then xs ! i else Undef)
   | Str s \<Rightarrow> Inr (if i < length s then Str [s ! i] else Undef)
   | Obj kvs \<Rightarrow> Inr (obj_get kvs (show_nat i))
   | Undef \<Rightarrow> throw_type ''Cannot read properties of undefined''
   | Null \<Rightarrow> throw_type ''Cannot read properties of null''
   | _ \<Rightarrow> Inr Undef)"

definition qm :: "nat \<Rightarrow> string" where
  "qm i = CHR ''?'' # show_nat i"

definition buildSingleClause :: "qb \<Rightarrow> wclause \<Rightarrow> nat \<Rightarrow> rendered res" where
  "buildSingleClause q w i =
     (if w_op w = ''RAW'' then
        bindR (stmt_of (w_value w)) (\<lambda>raw.
          let (s, j) = renumber True i (sql raw) in Inr (s, bindings raw, j))
      else if \<not> COLUMN_RE (w_column w) then
        throw (''Invalid column in WHERE clause: \"'' @ w_column w @ ''\"'')
      else bindR (if w_op w \<noteq> ''__EXISTS__'' then validateOp q (Str (w_op w)) else Inr (w_op w)) (\<lambda>_.
        if w_op w = ''IN'' \<or> w_op w = ''NOT IN'' then
          (if has_sql (w_value w) then renderSubqueryClause w i
           else (case w_value w of
              Arr xs \<Rightarrow> Inr (w_column w @ '' '' @ w_op w @ '' ('' @
                  join_with '', '' (map qm [i..<i + length xs]) @ '')'', xs, i + length xs)
            | _ \<Rightarrow> throw_type ''arr.map is not a function''))
        else if w_op w = ''__EXISTS__'' then renderSubqueryClause w i
        else if w_op w = ''IS NULL'' \<or> w_op w = ''IS NOT NULL'' then
          Inr (w_column w @ '' '' @ w_op w, [], i)
        else if w_op w = ''BETWEEN'' then
          bindR (elem_at (w_value w) 0) (\<lambda>lo. bindR (elem_at (w_value w) 1) (\<lambda>hi.
            Inr (w_column w @ '' BETWEEN '' @ qm i @ '' AND '' @ qm (i + 1), [lo, hi], i + 2)))
        else Inr (w_column w @ '' '' @ w_op w @ '' '' @ qm i, [w_value w], i + 1)))"

text \<open>Reading a group's clauses back from the clause value.\<close>

definition group_clause_of :: "jsval \<Rightarrow> wclause res" where
  "group_clause_of v = (case v of
     Obj kvs \<Rightarrow>
       (case obj_get kvs ''op'' of
          Str op \<Rightarrow> Inr \<lparr>w_column = to_str (obj_get kvs ''column''), w_op = op,
             w_value = obj_get kvs ''value'',
             w_type = (case obj_get kvs ''type'' of Str t \<Rightarrow> t | _ \<Rightarrow> []),
             w_not = truthy (obj_get kvs ''not'')\<rparr>
        | _ \<Rightarrow> throw ''Invalid WHERE operator'')
   | _ \<Rightarrow> throw_type ''Cannot read properties of undefined'')"

definition group_of :: "jsval \<Rightarrow> wclause list res" where
  "group_of v = (case v of Arr xs \<Rightarrow> mapR group_clause_of xs
     | _ \<Rightarrow> throw_type ''group is not iterable'')"

definition join_typed :: "string \<Rightarrow> string \<Rightarrow> wclause list \<Rightarrow> string list \<Rightarrow> string list" where
  "join_typed or_op and_op ws cs = (case zip ws cs of [] \<Rightarrow> []
     | (w, c) # r \<Rightarrow> c # map (\<lambda>(w, c). (if w_type w = ''or'' then or_op else and_op) @ c) r)"

definition renderWhereClause :: "qb \<Rightarrow> wclause \<Rightarrow> nat \<Rightarrow> rendered res" where
  "renderWhereClause q w i =
     (if w_column w = ''__GROUP__'' then
        bindR (group_of (w_value w)) (\<lambda>gs.
        bindR (render_seq (buildSingleClause q) gs i) (\<lambda>(cs, bs, j).
          Inr (''('' @ concat (join_typed '' OR '' '' AND '' gs cs) @ '')'', bs, j)))
      else buildSingleClause q w i)"

definition buildWhere :: "qb \<Rightarrow> nat \<Rightarrow> (string list \<times> jsval list) res" where
  "buildWhere q i =
     (if q_wheres q = [] then Inr ([], [])
      else bindR (render_seq (renderWhereClause q) (q_wheres q) i) (\<lambda>(cs, bs, j).
        Inr ([''WHERE '' @ join_with '' '' (join_typed ''OR '' ''AND '' (q_wheres q) cs)], bs)))"

definition render_having :: "having_clause \<Rightarrow> nat \<Rightarrow> rendered res" where
  "render_having h i = Inr (h_column h @ '' '' @ h_op h @ '' '' @ qm i, [h_value h], i + 1)"

section \<open>Statements\<close>

definition start_index :: "nat \<Rightarrow> nat" where
  "start_index i = (if i = 0 then 1 else i)"

definition limit_part :: "string \<Rightarrow> jsnum option \<Rightarrow> nat \<Rightarrow> string list \<times> jsval list \<times> nat" where
  "limit_part kw n i = (case n of None \<Rightarrow> ([], [], i) | Some x \<Rightarrow> ([kw @ qm i], [Num x], i + 1))"

definition toSelect :: "qb \<Rightarrow> sql_stmt res" where
  "toSelect q =
     bindR (renderCTE q) (\<lambda>(cte, b0, i0).
     let b1 = b0 @ q_rawBindings q;
         i1 = (if q_rawBindings q \<noteq> [] then length b1 + 1 else start_index i0);
         sel = ''SELECT '' @ (if q_distinct q then ''DISTINCT '' else []) @
                 join_with '', '' (q_columns q @ q_rawSelects q)
     in bindR (buildJoins q i1) (\<lambda>(joins, b2, i2).
        bindR (buildWhere q i2) (\<lambda>(wh, b3).
        let b = b1 @ b2 @ b3;
            grp = (if q_groupBy q \<noteq> [] then [''GROUP BY '' @ join_with '', '' (q_groupBy q)] else [])
        in bindR (render_seq render_having (q_havings q) (length b + 1)) (\<lambda>(hs, b4, i4).
           let hav = (if q_havings q \<noteq> [] then [''HAVING '' @ join_with '' AND '' hs] else []);
               win = (if q_windows q \<noteq> [] then [''WINDOW '' @ join_with '', ''
                        (map (\<lambda>(n, d). n @ '' AS ('' @ d @ '')'') (q_windows q))] else []);
               ord = (if q_orderBy q \<noteq> [] then [''ORDER BY '' @ join_with '', ''
                        (map (\<lambda>(c, d). c @ '' '' @ d) (q_orderBy q))] else []);
               (lim, b5, i5) = limit_part ''LIMIT '' (q_limit q) i4;
               (off, b6, i6) = limit_part ''OFFSET '' (q_offset q) i5
           in Inr (stmt (join_with '' '' (cte @ [sel, ''FROM '' @ q_table q] @ joins @ wh @ grp @ hav
                          @ win @ ord @ lim @ off))
                    (b @ b4 @ b5 @ b6))))))"

definition quote_ident :: "string \<Rightarrow> string" where
  "quote_ident col = [char_of (34::nat)] @ col @ [char_of (34::nat)]"

definition conflict_sql :: "qb \<Rightarrow> string list \<Rightarrow> string" where
  "conflict_sql q cols = (case q_conflictColumns q of
     Some (c # cs) \<Rightarrow>
       (if q_conflictAction q = Some ''nothing''
        then '' ON CONFLICT('' @ join_with '', '' (c # cs) @ '') DO NOTHING''
        else if q_conflictAction q = Some ''update''
        then '' ON CONFLICT('' @ join_with '', '' (c # cs) @ '') DO UPDATE SET '' @
               join_with '', '' (map (\<lambda>c. quote_ident c @ '' = excluded.'' @ quote_ident c) cols)
        else [])
   | _ \<Rightarrow> [])"

definition returning_sql :: "qb \<Rightarrow> string" where
  "returning_sql q = (if q_returning q then '' RETURNING *'' else [])"

definition with_prefix :: "string list \<Rightarrow> string \<Rightarrow> string" where
  "with_prefix parts s = (if parts \<noteq> [] then join_with '' '' parts @ '' '' @ s else s)"

definition toInsert :: "jsobj \<Rightarrow> qb \<Rightarrow> sql_stmt res" where
  "toInsert data q =
     (let entries = own_entries data
      in if entries = [] then throw ''Cannot insert: no data provided''
         else bindR (renderCTE q) (\<lambda>(cte, b0, i0).
              bindR (mapR (\<lambda>(col, _). sanitizeIdentifier col ''QueryBuilder.toInsert'') entries) (\<lambda>sanitized.
              let columns = map quote_ident sanitized;
                  i = start_index i0;
                  placeholders = map qm [i..<i + length columns];
                  s = ''INSERT INTO '' @ q_table q @ '' ('' @ join_with '', '' columns @ '') VALUES ('' @
                        join_with '', '' placeholders @ '')'' @ conflict_sql q sanitized @ returning_sql q
              in Inr (stmt (with_prefix cte s) (b0 @ map snd entries)))))"

definition render_row :: "string list \<Rightarrow> jsobj \<Rightarrow> nat \<Rightarrow> rendered res" where
  "render_row columns row i =
     Inr (''('' @ join_with '', '' (map qm [i..<i + length columns]) @ '')'',
          map (obj_get row) columns, i + length columns)"

fun check_rows :: "string list \<Rightarrow> nat \<Rightarrow> jsobj list \<Rightarrow> unit res" where
  "check_rows columns i [] = Inr ()"
| "check_rows columns i (row # rows) =
     (if length (own_keys row) \<noteq> length columns \<or> \<not> list_all (\<lambda>k. obj_in k row) columns
      then throw (''Row '' @ show_nat i @ '' has different keys from row 0'')
      else check_rows columns (Suc i) rows)"

definition toInsertMany :: "jsobj list \<Rightarrow> qb \<Rightarrow> sql_stmt res" where
  "toInsertMany rows q =
     (case rows of [] \<Rightarrow> throw ''Cannot insert: no rows provided''
      | row0 # rest \<Rightarrow>
        (let columns = own_keys row0
         in if columns = [] then throw ''Cannot insert: empty row''
            else bindR (check_rows columns 1 rest) (\<lambda>_.
                 bindR (renderCTE q) (\<lambda>(cte, b0, i0).
                 bindR (mapR (\<lambda>c. bindR (sanitizeIdentifier c ''QueryBuilder.toInsertMany'')
                                (\<lambda>s. Inr (quote_ident s))) columns) (\<lambda>safeColumns.
                 bindR (render_seq (render_row columns) rows (start_index i0)) (\<lambda>(vals, b1, _).
                 let s = ''INSERT INTO '' @ q_table q @ '' ('' @ join_with '', '' safeColumns @ '') VALUES '' @
                           join_with '', '' vals @ conflict_sql q columns @ returning_sql q
                 in Inr (stmt (with_prefix cte s) (b0 @ b1))))))))"

definition render_set :: "string \<times> jsval \<Rightarrow> nat \<Rightarrow> rendered res" where
  "render_set e i = bindR (sanitizeIdentifier (fst e) ''QueryBuilder.toUpdate'') (\<lambda>safe.
     Inr (safe @ '' = '' @ qm i, [snd e], i + 1))"

definition where_suffix :: "string list \<Rightarrow> string" where
  "where_suffix wh = (if wh \<noteq> [] then '' '' @ join_with '' '' wh else [])"

definition toUpdate :: "jsobj \<Rightarrow> qb \<Rightarrow> sql_stmt res" where
  "toUpdate data q =
     (let entries = own_entries data
      in if entries = [] then throw ''Cannot update: no data provided''
         else bindR (renderCTE q) (\<lambda>(cte, b0, i0).
              bindR (render_seq render_set entries (start_index i0)) (\<lambda>(sets, b1, i1).
              bindR (buildWhere q i1) (\<lambda>(wh, b2).
                Inr (stmt (with_prefix cte (''UPDATE '' @ q_table q @ '' SET '' @ join_with '', '' sets @
                             where_suffix wh @ returning_sql q)) (b0 @ b1 @ b2))))))"

definition toDelete :: "qb \<Rightarrow> sql_stmt res" where
  "toDelete q =
     bindR (renderCTE q) (\<lambda>(cte, b0, i0).
     bindR (buildWhere q (start_index i0)) (\<lambda>(wh, b1).
       Inr (stmt (with_prefix cte (''DELETE FROM '' @ q_table q @ where_suffix wh @ returning_sql q))
              (b0 @ b1))))"

definition toCount :: "qb \<Rightarrow> sql_stmt res" where
  "toCount q =
     bindR (renderCTE q) (\<lambda>(cte, b0, i0).
     bindR (buildJoins q (start_index i0)) (\<lambda>(joins, b1, i1).
     bindR (buildWhere q i1) (\<lambda>(wh, b2).
       Inr (stmt (join_with '' '' (cte @ [''SELECT COUNT(*) as count'', ''FROM '' @ q_table q] @ joins @ wh))
              (b0 @ b1 @ b2)))))"

definition qb_explain :: "qb \<Rightarrow> sql_stmt res" where
  "qb_explain q = bindR (toSelect q) (\<lambda>st. Inr (stmt (''EXPLAIN QUERY PLAN '' @ sql st) (bindings st)))"

section \<open>Subqueries, common table expressions, union, clone\<close>

definition qb_with :: "string \<Rightarrow> qb \<Rightarrow> qb \<Rightarrow> qb res" where
  "qb_with name sub q = bindR (sanitizeIdentifier name ''QueryBuilder.with'') (\<lambda>n.
     bindR (toSelect sub) (\<lambda>st.
       Inr (q\<lparr>q_ctes := q_ctes q @ [\<lparr>cte_name = n, cte_recursive = False, cte_query = st\<rparr>]\<rparr>)))"

definition withRecursive :: "string \<Rightarrow> qb \<Rightarrow> qb \<Rightarrow> qb res" where
  "withRecursive name sub q = bindR (sanitizeIdentifier name ''QueryBuilder.withRecursive'') (\<lambda>n.
     bindR (toSelect sub) (\<lambda>st.
       Inr (q\<lparr>q_ctes := q_ctes q @ [\<lparr>cte_name = n, cte_recursive = True, cte_query = st\<rparr>]\<rparr>)))"

definition whereInSubquery :: "string \<Rightarrow> qb \<Rightarrow> qb \<Rightarrow> qb res" where
  "whereInSubquery column sub q = bindR (toSelect sub) (\<lambda>st.
     bindR (sanitizeIdentifier column ''QueryBuilder.whereInSubquery'') (\<lambda>col.
       Inr (push_where (clause col ''IN'' (stmt_value st) ''and'') q)))"

definition whereNotInSubquery :: "string \<Rightarrow> qb \<Rightarrow> qb \<Rightarrow> qb res" where
  "whereNotInSubquery column sub q = bindR (toSelect sub) (\<lambda>st.
     bindR (sanitizeIdentifier column ''QueryBuilder.whereNotInSubquery'') (\<lambda>col.
       Inr (push_where (clause col ''NOT IN'' (stmt_value st) ''and'') q)))"

definition exists_clause :: "string \<Rightarrow> bool \<Rightarrow> qb \<Rightarrow> qb \<Rightarrow> qb res" where
  "exists_clause type neg sub q = bindR (toSelect sub) (\<lambda>st.
     Inr (push_where \<lparr>w_column = ''__EXISTS__'', w_op = ''__EXISTS__'', w_value = stmt_value st,
            w_type = type, w_not = neg\<rparr> q))"

definition whereExists :: "qb \<Rightarrow> qb \<Rightarrow> qb res" where
  "whereExists = exists_clause ''and'' False"

definition whereNotExists :: "qb \<Rightarrow> qb \<Rightarrow> qb res" where
  "whereNotExists = exists_clause ''and'' True"

definition orWhereExists :: "qb \<Rightarrow> qb \<Rightarrow> qb res" where
  "orWhereExists = exists_clause ''or'' False"

definition orWhereNotExists :: "qb \<Rightarrow> qb \<Rightarrow> qb res" where
  "orWhereNotExists = exists_clause ''or'' True"

definition qb_clone :: "qb \<Rightarrow> qb res" where
  "qb_clone this = bindR (qb_from (q_table this)) (\<lambda>qb.
     Inr (qb\<lparr>q_columns := q_columns this, q_wheres := q_wheres this, q_orderBy := q_orderBy this,
        q_groupBy := q_groupBy this, q_havings := q_havings this, q_limit := q_limit this,
        q_offset := q_offset this, q_distinct := q_distinct this, q_returning := q_returning this,
        q_joins := q_joins this, q_rawSelects := q_rawSelects this,
        q_rawBindings := q_rawBindings this, q_conflictColumns := q_conflictColumns this,
        q_conflictAction := q_conflictAction this, q_ctes := q_ctes this,
        q_windows := q_windows this\<rparr>))"

definition render_union_arm :: "sql_stmt \<Rightarrow> nat \<Rightarrow> rendered res" where
  "render_union_arm st i = (let (s, j) = renumber False i (sql st)
     in Inr (s, bindings st, i + length (bindings st)))"

definition qb_union :: "qb list \<Rightarrow> bool \<Rightarrow> sql_stmt res" where
  "qb_union queries all =
     (if length queries < 2 then throw ''UNION requires at least 2 queries''
      else bindR (mapR toSelect queries) (\<lambda>statements.
           bindR (render_seq render_union_arm statements 1) (\<lambda>(sqls, bs, _).
             Inr (stmt (join_with (if all then '' UNION ALL '' else '' UNION '') sqls) bs))))"

definition unionAll :: "qb list \<Rightarrow> sql_stmt res" where
  "unionAll queries = qb_union queries True"

end
