(* ===== verification/QueryBuilderParams.thy ===== *)
theory QueryBuilderParams
  imports QueryBuilder
begin

text \<open>
  The parameter discipline of \<open>query-builder.ts\<close>: what a builder has to satisfy
  (\<open>qb_ok\<close>: sanitized identifiers, raw fragments with as many placeholders as bindings),
  that every builder method keeps it, and that the statement each generator returns reads its
  bindings in order.
\<close>

section \<open>Well-formed builders\<close>

definition balanced :: "sql_stmt \<Rightarrow> bool" where
  "balanced st \<longleftrightarrow> length (params (sql st)) = length (bindings st)"

text \<open>A statement that may be embedded: its placeholders are all of the form \<open>?N\<close>.\<close>

definition embeddable :: "sql_stmt \<Rightarrow> bool" where
  "embeddable st \<longleftrightarrow> all_numbered (sql st) \<and> balanced st"

definition simple_clause_ok :: "wclause \<Rightarrow> bool" where
  "simple_clause_ok w \<longleftrightarrow>
     (w_op w = ''RAW'' \<longrightarrow> (\<forall>st. stmt_of (w_value w) = Inr st \<longrightarrow> balanced st)) \<and>
     (w_op w = ''IN'' \<or> w_op w = ''NOT IN'' \<or> w_op w = ''__EXISTS__'' \<longrightarrow>
       (\<forall>st. stmt_of (w_value w) = Inr st \<longrightarrow> embeddable st))"

definition clause_ok :: "wclause \<Rightarrow> bool" where
  "clause_ok w \<longleftrightarrow>
     (if w_column w = ''__GROUP__'' then (\<forall>gs. group_of (w_value w) = Inr gs \<longrightarrow> list_all simple_clause_ok gs)
      else simple_clause_ok w)"

definition join_ok :: "join_clause \<Rightarrow> bool" where
  "join_ok j \<longleftrightarrow> (if j_table j = [] then balanced (stmt (j_on j) (j_bindings j))
     else no_qmark (j_type j) \<and> no_qmark (j_table j) \<and> no_qmark (j_on j))"

definition cte_ok :: "cte_def \<Rightarrow> bool" where
  "cte_ok c \<longleftrightarrow> no_qmark (cte_name c) \<and> embeddable (cte_query c)"

definition having_ok :: "having_clause \<Rightarrow> bool" where
  "having_ok h \<longleftrightarrow> no_qmark (h_column h) \<and> no_qmark (h_op h)"

definition raw_selects_ok :: "qb \<Rightarrow> bool" where
  "raw_selects_ok q \<longleftrightarrow>
     concat (map params (q_rawSelects q)) = replicate (length (q_rawBindings q)) None"

definition qb_ok :: "qb \<Rightarrow> bool" where
  "qb_ok q \<longleftrightarrow> IDENTIFIER_RE (q_table q) \<and> list_all no_qmark (q_columns q) \<and>
     list_all clause_ok (q_wheres q) \<and> list_all (\<lambda>p. no_qmark (fst p) \<and> no_qmark (snd p)) (q_orderBy q) \<and>
     list_all no_qmark (q_groupBy q) \<and> list_all having_ok (q_havings q) \<and>
     list_all join_ok (q_joins q) \<and> raw_selects_ok q \<and> list_all cte_ok (q_ctes q) \<and>
     list_all (\<lambda>p. no_qmark (fst p) \<and> no_qmark (snd p)) (q_windows q) \<and>
     (\<forall>cs. q_conflictColumns q = Some cs \<longrightarrow> list_all no_qmark cs)"

section \<open>Every fragment numbers its placeholders from its start index\<close>

lemma numbered_qm [simp]: "params (qm i) = [Some i]" "starts_plain b \<Longrightarrow> params (qm i @ b) = Some i # params b"
  unfolding qm_def append_Cons by (rule params_number_end, rule params_number)

lemma params_qms: "concat (map (\<lambda>i. params (qm i)) is) = map Some is"
  by (induction "is") auto

lemma params_qm_list: "params (join_with '', '' (map qm is)) = map Some is"
  by (simp add: params_join params_qms comp_def)

lemma embedded_numbered:
  assumes "embeddable st" "renumber False i (sql st) = (s, j)"
  shows "numbered i (s, bindings st, j)"
  using renumber_params [of False "sql st" i s j] assms
  by (simp add: embeddable_def balanced_def numbered_def)

lemma balanced_numbered:
  assumes "balanced st" "renumber True i (sql st) = (s, j)"
  shows "numbered i (s, bindings st, j)"
  using renumber_params [of True "sql st" i s j] assms by (simp add: balanced_def numbered_def)

text \<open>Wrapping a rendered text in plain text keeps its placeholders.\<close>

lemma numbered_wrap:
  "numbered i (t, bs, j) \<Longrightarrow> no_qmark a \<Longrightarrow> no_qmark b \<Longrightarrow> starts_plain b \<Longrightarrow> numbered i (a @ t @ b, bs, j)"
  by (simp add: numbered_def params_plain_append params_append)

lemma COLUMN_RE_no_qmark [simp]: "COLUMN_RE s \<Longrightarrow> no_qmark s"
proof -
  assume "COLUMN_RE s"
  then have "c \<in> set s \<Longrightarrow> is_word c \<or> c = CHR ''.''" for c
    by (auto simp: COLUMN_RE_def is_ident_start_def list_all_iff is_word_def split: list.splits)
  then show ?thesis using word_not_special by (auto simp: no_qmark_def)
qed

lemma valid_op_no_qmark: "validateOp q op = Inr s \<Longrightarrow> no_qmark s \<and> op = Str s"
  by (auto simp: validateOp_def valid_where_ops_def split: jsval.splits if_splits)

lemma subquery_numbered:
  assumes ok: "simple_clause_ok w" and op: "w_op w = ''IN'' \<or> w_op w = ''NOT IN'' \<or> w_op w = ''__EXISTS__''"
    and col: "no_qmark (w_column w)" and r: "renderSubqueryClause w i = Inr r"
  shows "numbered i r"
proof (cases "(w_op w = ''IN'' \<or> w_op w = ''NOT IN'') \<or> w_column w = ''__EXISTS__''")
  case True
  then obtain sub where sub: "stmt_of (w_value w) = Inr sub"
    using r by (auto simp: renderSubqueryClause_def bindR_Inr_iff split: if_splits)
  obtain s j where sj: "renumber False i (sql sub) = (s, j)" by fastforce
  have "embeddable sub" using ok op sub by (auto simp: simple_clause_ok_def)
  then have n: "numbered i (s, bindings sub, j)" using sj by (rule embedded_numbered)
  have opq: "no_qmark (w_op w)" using op by auto
  obtain a where "r = (a @ s @ '')'', bindings sub, j)" "no_qmark a"
    using True r sub sj col opq
    by (cases "w_op w = ''IN'' \<or> w_op w = ''NOT IN''")
      (auto simp: renderSubqueryClause_def Let_def intro: that [of "w_column w @ '' '' @ w_op w @ '' (''"]
        that [of "(if w_not w then ''NOT EXISTS'' else ''EXISTS'') @ '' (''"])
  then show ?thesis using numbered_wrap [OF n, of a "'')''"] by simp
next
  case False
  then show ?thesis using r by (auto simp: renderSubqueryClause_def numbered_def)
qed

lemma single_clause_numbered:
  assumes ok: "simple_clause_ok w" and r: "buildSingleClause q w i = Inr r"
  shows "numbered i r"
proof (cases "w_op w = ''RAW''")
  case True
  then obtain st where st: "stmt_of (w_value w) = Inr st"
    using r by (auto simp: buildSingleClause_def bindR_Inr_iff)
  obtain s j where sj: "renumber True i (sql st) = (s, j)" by fastforce
  have "balanced st" using ok True st by (simp add: simple_clause_ok_def)
  then have "numbered i (s, bindings st, j)" using sj by (rule balanced_numbered)
  then show ?thesis using r True st sj by (auto simp: buildSingleClause_def)
next
  case False
  then have col: "no_qmark (w_column w)" and op: "w_op w \<noteq> ''__EXISTS__'' \<longrightarrow> no_qmark (w_op w)"
    using r valid_op_no_qmark [of q "Str (w_op w)"]
    by (auto simp: buildSingleClause_def bindR_Inr_iff split: if_splits)
  show ?thesis
  proof (cases "w_op w = ''__EXISTS__'' \<or> ((w_op w = ''IN'' \<or> w_op w = ''NOT IN'') \<and> has_sql (w_value w))")
    case True
    then have "renderSubqueryClause w i = Inr r"
      using r by (auto simp: buildSingleClause_def bindR_Inr_iff split: if_splits)
    with ok True col show ?thesis by (auto intro: subquery_numbered)
  next
    case F: False
    with False r col op show ?thesis
      by (auto simp: buildSingleClause_def bindR_Inr_iff numbered_def params_plain_append
          params_append params_qm_list split: if_splits jsval.splits)
  qed
qed

text \<open>The loops over clauses, joins, common table expressions and HAVING items.\<close>

interpretation single: param_renderer "buildSingleClause q" simple_clause_ok for q
  by unfold_locales (rule single_clause_numbered)

interpretation cte: param_renderer render_cte_def cte_ok
proof
  fix c i r assume c: "cte_ok c" and r: "render_cte_def c i = Inr r"
  obtain s j where sj: "renumber False i (sql (cte_query c)) = (s, j)" by fastforce
  have "numbered i (s, bindings (cte_query c), j)"
    using c sj by (auto simp: cte_ok_def intro: embedded_numbered)
  then show "numbered i r"
    using numbered_wrap [of i s "bindings (cte_query c)" j "cte_name c @ '' AS (''" "'')''"] c r sj
    by (simp add: render_cte_def_def cte_ok_def)
qed

interpretation join: param_renderer render_join join_ok
proof
  fix c i r assume c: "join_ok c" and r: "render_join c i = Inr r"
  obtain s j where sj: "renumber True i (j_on c) = (s, j)" by fastforce
  show "numbered i r"
  proof (cases "j_table c = []")
    case True
    then have "numbered i (s, j_bindings c, j)" using c sj balanced_numbered [of "stmt (j_on c) (j_bindings c)"] by (simp add: join_ok_def)
    then show ?thesis using True r sj by (auto simp: render_join_def)
  next
    case False
    then show ?thesis using c r by (auto simp: render_join_def join_ok_def numbered_def params_plain_append)
  qed
qed

interpretation hav: param_renderer render_having having_ok
  by unfold_locales (auto simp: render_having_def having_ok_def numbered_def params_plain_append)

interpretation arm: param_renderer render_union_arm embeddable
proof
  fix c i r assume c: "embeddable c" and r: "render_union_arm c i = Inr r"
  obtain s j where sj: "renumber False i (sql c) = (s, j)" by fastforce
  have "numbered i (s, bindings c, j)" using c sj by (rule embedded_numbered)
  then show "numbered i r" using r sj by (auto simp: render_union_arm_def numbered_def)
qed

interpretation setc: param_renderer render_set "\<lambda>_. True"
  by unfold_locales (auto simp: render_set_def bindR_Inr_iff sanitize_Inr_iff numbered_def params_plain_append)

interpretation row: param_renderer "render_row columns" "\<lambda>_. True" for columns
  by unfold_locales (auto simp: render_row_def numbered_def params_append params_qm_list)

lemma list_all_True [simp]: "list_all (\<lambda>_. True) xs"
  by (simp add: list_all_iff)

text \<open>AND/OR joining adds no placeholder.\<close>

lemma starts_plain_appendI [simp]: "starts_plain a \<Longrightarrow> starts_plain b \<Longrightarrow> starts_plain (a @ b)"
  by (cases a) auto

lemma starts_plain_concat: "list_all starts_plain xs \<Longrightarrow> starts_plain (concat xs)"
  by (induction xs) (auto intro: starts_plain_appendI)

lemma params_concat: "list_all starts_plain xs \<Longrightarrow> params (concat xs) = concat (map params xs)"
  by (induction xs) (auto simp: params_append starts_plain_concat)

lemma params_join_typed:
  assumes "length ws = length cs" "no_qmark or_op" "no_qmark and_op"
  shows "concat (map params (join_typed or_op and_op ws cs)) = concat (map params cs)"
proof (cases "zip ws cs")
  case Nil then show ?thesis using assms(1) by (cases ws; cases cs) (auto simp: join_typed_def)
next
  case (Cons wc r)
  then obtain w c where wc: "wc = (w, c)" by fastforce
  from Cons wc assms(1) obtain ws' cs' where ws: "ws = w # ws'" "cs = c # cs'" "r = zip ws' cs'" "length ws' = length cs'"
    by (cases ws; cases cs) auto
  have "concat (map params (map (\<lambda>(w, c). (if w_type w = ''or'' then or_op else and_op) @ c) (zip ws' cs')))
      = concat (map params cs')"
    using ws(4) assms(2,3) by (induction ws' cs' rule: list_induct2) (auto simp: params_plain_append)
  then show ?thesis using ws by (simp add: join_typed_def)
qed

lemma join_typed_plain:
  assumes "or_op \<noteq> []" "starts_plain or_op" "and_op \<noteq> []" "starts_plain and_op"
  shows "list_all starts_plain (tl (join_typed or_op and_op ws cs))"
  using assms by (auto simp: join_typed_def list_all_iff split: list.splits)

lemma params_head_concat:
  "list_all starts_plain (tl xs) \<Longrightarrow> params (concat xs @ '')'') = concat (map params xs)"
proof (cases xs)
  case (Cons x ys)
  assume "list_all starts_plain (tl xs)"
  then have ys: "list_all starts_plain (ys @ ['')''])" using Cons by simp
  have "starts_plain (concat ys @ '')'')" using starts_plain_concat [OF ys] by simp
  then have "params (concat xs @ '')'') = params x @ params (concat (ys @ ['')'']))"
    using Cons by (simp add: params_append)
  also have "params (concat (ys @ ['')''])) = concat (map params ys)"
    using params_concat [OF ys] by simp
  finally show ?thesis using Cons by simp
qed simp

lemma where_clause_numbered:
  assumes ok: "clause_ok w" and r: "renderWhereClause q w i = Inr r"
  shows "numbered i r"
proof (cases "w_column w = ''__GROUP__''")
  case True
  then obtain gs cs bs j where g: "group_of (w_value w) = Inr gs"
      "render_seq (buildSingleClause q) gs i = Inr (cs, bs, j)"
      "r = (''('' @ concat (join_typed '' OR '' '' AND '' gs cs) @ '')'', bs, j)"
    using r by (auto simp: renderWhereClause_def bindR_Inr_iff)
  have "list_all simple_clause_ok gs" using ok True g(1) by (simp add: clause_ok_def)
  then have n: "concat (map params cs) = map Some [i..<j] \<and> j = i + length bs"
    using g(2) by (rule single.seq_numbered)
  moreover have "length gs = length cs" using single.seq_length [OF g(2)] by simp
  ultimately show ?thesis using g(3)
    by (simp add: numbered_def params_head_concat join_typed_plain params_join_typed)
next
  case False
  then show ?thesis using ok r by (auto simp: clause_ok_def renderWhereClause_def intro: single_clause_numbered)
qed

interpretation wher: param_renderer "renderWhereClause q" clause_ok for q
  by unfold_locales (rule where_clause_numbered)

lemma buildWhere_numbered:
  assumes "list_all clause_ok (q_wheres q)" "buildWhere q i = Inr (wh, bs)"
  shows "concat (map params wh) = map Some [i..<i + length bs]"
proof (cases "q_wheres q = []")
  case True then show ?thesis using assms by (auto simp: buildWhere_def)
next
  case False
  then obtain cs j where r: "render_seq (renderWhereClause q) (q_wheres q) i = Inr (cs, bs, j)"
      "wh = [''WHERE '' @ join_with '' '' (join_typed ''OR '' ''AND '' (q_wheres q) cs)]"
    using assms(2) by (auto simp: buildWhere_def bindR_Inr_iff)
  have "concat (map params cs) = map Some [i..<j] \<and> j = i + length bs"
    using assms(1) r(1) by (rule wher.seq_numbered)
  then show ?thesis using r(2) wher.seq_length [OF r(1)]
    by (simp add: params_join params_join_typed)
qed

lemma buildJoins_numbered:
  "list_all join_ok (q_joins q) \<Longrightarrow> buildJoins q i = Inr (ts, bs, j) \<Longrightarrow>
     concat (map params ts) = map Some [i..<j] \<and> j = i + length bs"
  unfolding buildJoins_def by (rule join.seq_numbered)

lemma renderCTE_numbered:
  assumes "list_all cte_ok (q_ctes q)" "renderCTE q = Inr (cte, bs, j)"
  shows "concat (map params cte) = map Some [1..<start_index j] \<and> start_index j = 1 + length bs"
proof (cases "q_ctes q = []")
  case True then show ?thesis using assms by (auto simp: renderCTE_def start_index_def)
next
  case False
  then obtain defs where r: "render_seq render_cte_def (q_ctes q) 1 = Inr (defs, bs, j)"
      "cte = [(if list_ex cte_recursive (q_ctes q) then ''WITH RECURSIVE '' else ''WITH '') @ join_with '', '' defs]"
    using assms(2) by (auto simp: renderCTE_def bindR_Inr_iff)
  then show ?thesis using cte.seq_numbered [OF assms(1) r(1)]
    by (auto simp: params_join start_index_def)
qed

section \<open>The generators\<close>

lemma consec_Somes': "i = Suc m \<Longrightarrow> i \<le> j \<Longrightarrow> consec m (map Some [i..<j]) = Some (j - 1)"
  using consec_Somes [of m "j - 1"] by (cases j) auto

lemma with_prefix_params:
  "concat (map params cte) = ps \<Longrightarrow> params (with_prefix cte s) = ps @ params s"
  by (auto simp: with_prefix_def params_append params_join)

lemma where_suffix_params: "params (where_suffix wh) = concat (map params wh)"
  by (simp add: where_suffix_def params_join)

lemma starts_plain_where [simp]: "starts_plain (where_suffix wh)"
  by (simp add: where_suffix_def)

lemma returning_plain [simp]: "no_qmark (returning_sql q)" "starts_plain (returning_sql q)"
  by (simp_all add: returning_sql_def)

lemma quote_char [simp]: "CHR ''?'' \<noteq> char_of (34::nat)" "char_of (34::nat) \<noteq> CHR ''?''"
  by code_simp+

lemma quote_ident_plain [simp]: "no_qmark c \<Longrightarrow> no_qmark (quote_ident c)"
  by (simp add: quote_ident_def)

lemma conflict_plain [simp]:
  "(\<And>cs. q_conflictColumns q = Some cs \<Longrightarrow> list_all no_qmark cs) \<Longrightarrow> list_all no_qmark cols \<Longrightarrow>
     no_qmark (conflict_sql q cols)"
  "starts_plain (conflict_sql q cols)"
  by (auto simp: conflict_sql_def list_all_iff split: option.splits list.splits)

lemma limit_part_numbered:
  "no_qmark kw \<Longrightarrow> limit_part kw n i = (ps, bs, j) \<Longrightarrow>
     concat (map params ps) = map Some [i..<j] \<and> j = i + length bs"
  by (auto simp: limit_part_def params_plain_append split: option.splits)

text \<open>Consecutive blocks of placeholders.\<close>

lemma upt_blocks: "map Some [i..<i + a] @ map Some [i + a..<i + a + b] = map Some [i..<i + a + b]"
  by (metis map_append upt_add_eq_append le_add1 add.assoc)

definition block :: "nat \<Rightarrow> 'a list \<Rightarrow> nat option list" where
  "block i bs = map Some [i..<i + length bs]"

lemma block_Nil [simp]: "block i [] = []"
  by (simp add: block_def)

lemma block_length [simp]: "length (block i bs) = length bs" "None \<notin> set (block i bs)"
  by (auto simp: block_def)

lemma consec_block [simp]: "consec m (block (Suc m) bs) = Some (m + length bs)"
  using consec_Somes [of m "m + length bs"] by (simp add: block_def)

lemma consec_block_append [simp]:
  "consec m (block (Suc m) bs @ ps) = consec (m + length bs) ps"
  by (simp add: consec_append)

lemma consec_Nones_append [simp]: "consec m (replicate r None @ ps) = consec (m + r) ps"
  by (simp add: consec_append)

lemma toSelect_parts:
  assumes ok: "qb_ok q" and r: "toSelect q = Inr st"
  obtains b0 b2 b3 b4 b5 b6 where
    "bindings st = b0 @ q_rawBindings q @ b2 @ b3 @ b4 @ b5 @ b6"
    "params (sql st) = (let n0 = length b0; n1 = n0 + length (q_rawBindings q); n2 = n1 + length b2;
        n3 = n2 + length b3; n4 = n3 + length b4; n5 = n4 + length b5
      in block 1 b0 @ replicate (length (q_rawBindings q)) None @ block (Suc n1) b2 @ block (Suc n2) b3
         @ block (Suc n3) b4 @ block (Suc n4) b5 @ block (Suc n5) b6)"
proof -
  obtain cte b0 i0 where cte: "renderCTE q = Inr (cte, b0, i0)"
    using r by (auto simp: toSelect_def bindR_Inr_iff)
  define i1 where "i1 = (if q_rawBindings q \<noteq> [] then length (b0 @ q_rawBindings q) + 1 else start_index i0)"
  obtain joins b2 i2 where joins: "buildJoins q i1 = Inr (joins, b2, i2)"
    using r cte by (auto simp: toSelect_def bindR_Inr_iff Let_def i1_def)
  obtain wh b3 where wh: "buildWhere q i2 = Inr (wh, b3)"
    using r cte joins by (auto simp: toSelect_def bindR_Inr_iff Let_def i1_def)
  let ?b = "(b0 @ q_rawBindings q) @ b2 @ b3"
  obtain hs b4 i4 where hs: "render_seq render_having (q_havings q) (length ?b + 1) = Inr (hs, b4, i4)"
  proof -
    note r [unfolded toSelect_def Let_def cte bindR_simps prod.case, folded i1_def,
        unfolded joins bindR_simps prod.case wh]
    then obtain x where "render_seq render_having (q_havings q) (length ?b + 1) = Inr x"
      by (rule bindR_InrE)
    then show ?thesis using that by (cases x) auto
  qed
  obtain lim b5 i5 where lim: "limit_part ''LIMIT '' (q_limit q) i4 = (lim, b5, i5)"
    by (cases "limit_part ''LIMIT '' (q_limit q) i4") auto
  obtain off b6 i6 where off: "limit_part ''OFFSET '' (q_offset q) i5 = (off, b6, i6)"
    by (cases "limit_part ''OFFSET '' (q_offset q) i5") auto
  define sel where "sel = ''SELECT '' @ (if q_distinct q then ''DISTINCT '' else []) @
                 join_with '', '' (q_columns q @ q_rawSelects q)"
  define grp where "grp = (if q_groupBy q \<noteq> [] then [''GROUP BY '' @ join_with '', '' (q_groupBy q)] else [])"
  define hav where "hav = (if q_havings q \<noteq> [] then [''HAVING '' @ join_with '' AND '' hs] else [])"
  define win where "win = (if q_windows q \<noteq> [] then [''WINDOW '' @ join_with '', ''
                        (map (\<lambda>(n, d). n @ '' AS ('' @ d @ '')'') (q_windows q))] else [])"
  define ord where "ord = (if q_orderBy q \<noteq> [] then [''ORDER BY '' @ join_with '', ''
                        (map (\<lambda>(c, d). c @ '' '' @ d) (q_orderBy q))] else [])"
  have st: "st = stmt (join_with '' '' (cte @ [sel, ''FROM '' @ q_table q] @ joins @ wh @ grp @ hav
                          @ win @ ord @ lim @ off)) (?b @ b4 @ b5 @ b6)"
    using r [unfolded toSelect_def Let_def cte bindR_simps prod.case, folded i1_def,
        unfolded joins bindR_simps prod.case wh hs lim off, THEN sum.inject(2) [THEN iffD1], symmetric]
    unfolding sel_def grp_def hav_def win_def ord_def .
  note ok' = ok [unfolded qb_ok_def]
  have p0: "concat (map params cte) = block 1 b0" "start_index i0 = 1 + length b0"
    using renderCTE_numbered [OF _ cte] ok' by (auto simp: block_def)
  have i1: "i1 = Suc (length (b0 @ q_rawBindings q))" using p0(2) by (simp add: i1_def)
  have p2: "concat (map params joins) = block i1 b2" "i2 = i1 + length b2"
    using buildJoins_numbered [OF _ joins] ok' by (auto simp: block_def)
  have p3: "concat (map params wh) = block i2 b3"
    using buildWhere_numbered [OF _ wh] ok' by (auto simp: block_def)
  have p4: "concat (map params hs) = block (Suc (length ?b)) b4" "i4 = Suc (length ?b) + length b4"
    using hav.seq_numbered [OF _ hs] ok' by (auto simp: block_def)
  have p5: "concat (map params lim) = block i4 b5" "i5 = i4 + length b5"
    using limit_part_numbered [OF _ lim] by (auto simp: block_def)
  have p6: "concat (map params off) = block i5 b6"
    using limit_part_numbered [OF _ off] by (auto simp: block_def)
  have cols: "concat (map params (q_columns q)) = []" using ok' by (auto simp: list_all_iff)
  have psel: "params sel = replicate (length (q_rawBindings q)) None"
    using ok' cols by (simp add: sel_def params_plain_append params_join raw_selects_ok_def del: join_with.simps)
  have pgrp: "concat (map params grp) = []"
    using ok' by (auto simp: grp_def list_all_iff)
  have phav: "concat (map params hav) = concat (map params hs)"
    using hs by (auto simp: hav_def params_join)
  have "no_qmark n \<and> no_qmark d" if "(n, d) \<in> set (q_windows q)" for n d
    using ok' that by (fastforce simp: list_all_iff)
  then have pwin: "concat (map params win) = []" by (auto simp: win_def list_all_iff intro!: params_plain)
  have "no_qmark c \<and> no_qmark d" if "(c, d) \<in> set (q_orderBy q)" for c d
    using ok' that by (fastforce simp: list_all_iff)
  then have pord: "concat (map params ord) = []" by (auto simp: ord_def list_all_iff intro!: params_plain)
  have tab: "params (''FROM '' @ q_table q) = []" using ok' by simp
  have "params (sql st) = block 1 b0 @ replicate (length (q_rawBindings q)) None @ block i1 b2 @ block i2 b3
      @ block (Suc (length ?b)) b4 @ block i4 b5 @ block i5 b6"
    using p0(1) p2(1) p3 p4(1) p5(1) p6 psel pgrp phav pwin pord tab
    by (simp add: st params_join del: concat_eq_Nil_conv)
  then show ?thesis using that [of b0 b2 b3 b4 b5 b6] i1 p2(2) p4(2) p5(2) st
    by (simp add: Let_def add.assoc)
qed

lemma toSelect_binds:
  assumes "qb_ok q" "toSelect q = Inr st"
  shows "binds_in_order st"
proof -
  from assms obtain b0 b2 b3 b4 b5 b6 where
    b: "bindings st = b0 @ q_rawBindings q @ b2 @ b3 @ b4 @ b5 @ b6" and
    p: "params (sql st) = (let n0 = length b0; n1 = n0 + length (q_rawBindings q); n2 = n1 + length b2;
        n3 = n2 + length b3; n4 = n3 + length b4; n5 = n4 + length b5
      in block 1 b0 @ replicate (length (q_rawBindings q)) None @ block (Suc n1) b2 @ block (Suc n2) b3
         @ block (Suc n3) b4 @ block (Suc n4) b5 @ block (Suc n5) b6)"
    by (rule toSelect_parts)
  show ?thesis
    using consec_block_append [of 0 b0] by (intro consec_binds) (simp add: p b Let_def add.assoc)
qed

text \<open>Without raw selections the statement can be embedded in another one.\<close>

lemma toSelect_embeddable:
  assumes "qb_ok q" "q_rawBindings q = []" "toSelect q = Inr st"
  shows "embeddable st"
proof -
  from assms(1,3) obtain b0 b2 b3 b4 b5 b6 where
    b: "bindings st = b0 @ q_rawBindings q @ b2 @ b3 @ b4 @ b5 @ b6" and
    p: "params (sql st) = (let n0 = length b0; n1 = n0 + length (q_rawBindings q); n2 = n1 + length b2;
        n3 = n2 + length b3; n4 = n3 + length b4; n5 = n4 + length b5
      in block 1 b0 @ replicate (length (q_rawBindings q)) None @ block (Suc n1) b2 @ block (Suc n2) b3
         @ block (Suc n3) b4 @ block (Suc n4) b5 @ block (Suc n5) b6)"
    by (rule toSelect_parts)
  show ?thesis
    by (simp add: embeddable_def all_numbered_def balanced_def p b assms(2) Let_def)
qed

lemma toInsert_binds:
  assumes ok: "qb_ok q" and r: "toInsert data q = Inr st"
  shows "binds_in_order st \<and> embeddable st"
proof -
  obtain cte b0 i0 where cte: "renderCTE q = Inr (cte, b0, i0)"
    using r by (auto simp: toInsert_def bindR_Inr_iff Let_def split: if_splits)
  obtain cols where cols: "mapR (\<lambda>(col, _). sanitizeIdentifier col ''QueryBuilder.toInsert'') (own_entries data) = Inr cols"
    using r cte by (auto simp: toInsert_def bindR_Inr_iff Let_def split: if_splits)
  have len: "length cols = length (own_entries data)" using mapR_length [OF cols] .
  have "\<forall>c \<in> set cols. IDENTIFIER_RE c"
    using mapR_all [OF cols, of IDENTIFIER_RE] by (auto simp: sanitize_Inr_iff list_all_iff)
  then have plain: "list_all no_qmark cols" "\<forall>c \<in> set (map quote_ident cols). no_qmark c"
    by (auto simp: list_all_iff)
  note ok' = ok [unfolded qb_ok_def]
  have p0: "concat (map params cte) = block 1 b0" "start_index i0 = Suc (length b0)"
    using renderCTE_numbered [OF _ cte] ok' by (auto simp: block_def)
  have "params (sql st) = block 1 b0 @ block (Suc (length b0)) (map snd (own_entries data))
      \<and> bindings st = b0 @ map snd (own_entries data)"
  proof -
    let ?i = "start_index i0"
    let ?s = "''INSERT INTO '' @ q_table q @ '' ('' @ join_with '', '' (map quote_ident cols) @ '') VALUES ('' @
        join_with '', '' (map qm [?i..<?i + length cols]) @ '')'' @ conflict_sql q cols @ returning_sql q"
    have st: "st = stmt (with_prefix cte ?s) (b0 @ map snd (own_entries data))"
      using r cte cols by (simp add: toInsert_def Let_def split: if_splits)
    have "no_qmark (conflict_sql q cols)" using ok' plain(1) by (intro conflict_plain) auto
    moreover have "no_qmark (join_with '', '' (map quote_ident cols))" using plain(2) by simp
    ultimately have "params ?s = map Some [?i..<?i + length cols]"
      using ok' by (simp add: params_plain_append params_append params_qm_list del: upt_Suc)
    then show ?thesis using st p0 len by (simp add: with_prefix_params block_def del: upt_Suc)
  qed
  then show ?thesis using consec_block_append [of 0 b0]
    by (auto simp: embeddable_def all_numbered_def balanced_def intro!: consec_binds)
qed

lemma toInsertMany_binds:
  assumes ok: "qb_ok q" and r: "toInsertMany rows q = Inr st"
  shows "binds_in_order st \<and> embeddable st"
proof -
  obtain row0 rest where rows: "rows = row0 # rest" using r by (cases rows) (auto simp: toInsertMany_def)
  define columns where "columns = own_keys row0"
  obtain cte b0 i0 where cte: "renderCTE q = Inr (cte, b0, i0)"
    using r rows by (auto simp: toInsertMany_def bindR_Inr_iff Let_def split: if_splits)
  obtain cols where cols: "mapR (\<lambda>c. bindR (sanitizeIdentifier c ''QueryBuilder.toInsertMany'')
      (\<lambda>s. Inr (quote_ident s))) columns = Inr cols"
    using r rows cte by (auto simp: toInsertMany_def bindR_Inr_iff Let_def columns_def split: if_splits)
  obtain vals b1 j where vals: "render_seq (render_row columns) rows (start_index i0) = Inr (vals, b1, j)"
    using r rows cte cols by (auto simp: toInsertMany_def bindR_Inr_iff Let_def columns_def split: if_splits)
  have "\<forall>c \<in> set columns. IDENTIFIER_RE c"
    using cols by (induction columns arbitrary: cols) (auto simp: bindR_Inr_iff sanitize_Inr_iff)
  then have colsq: "list_all no_qmark columns" by (auto simp: list_all_iff)
  have "\<forall>c \<in> set cols. no_qmark c"
    using mapR_all [OF cols, of no_qmark] by (auto simp: bindR_Inr_iff sanitize_Inr_iff list_all_iff)
  note plain = colsq this
  note ok' = ok [unfolded qb_ok_def]
  have p0: "concat (map params cte) = block 1 b0" "start_index i0 = Suc (length b0)"
    using renderCTE_numbered [OF _ cte] ok' by (auto simp: block_def)
  have p1: "params (join_with '', '' vals) = block (Suc (length b0)) b1"
    using row.seq_numbered [OF _ vals] p0(2) by (simp add: params_join block_def)
  have "params (sql st) = block 1 b0 @ block (Suc (length b0)) b1 \<and> bindings st = b0 @ b1"
    using r rows cte cols vals ok' plain p0 p1
    by (auto simp: toInsertMany_def Let_def bindR_Inr_iff with_prefix_params params_plain_append
        params_append columns_def [symmetric] split: if_splits)
  then show ?thesis using consec_block_append [of 0 b0]
    by (auto simp: embeddable_def all_numbered_def balanced_def intro!: consec_binds)
qed

lemma toUpdate_binds:
  assumes ok: "qb_ok q" and r: "toUpdate data q = Inr st"
  shows "binds_in_order st \<and> embeddable st"
proof -
  obtain cte b0 i0 where cte: "renderCTE q = Inr (cte, b0, i0)"
    using r by (auto simp: toUpdate_def bindR_Inr_iff Let_def split: if_splits)
  obtain sets b1 i1 where sets: "render_seq render_set (own_entries data) (start_index i0) = Inr (sets, b1, i1)"
    using r cte by (auto simp: toUpdate_def bindR_Inr_iff Let_def split: if_splits)
  obtain wh b2 where wh: "buildWhere q i1 = Inr (wh, b2)"
    using r cte sets by (auto simp: toUpdate_def bindR_Inr_iff Let_def split: if_splits)
  note ok' = ok [unfolded qb_ok_def]
  have p0: "concat (map params cte) = block 1 b0" "start_index i0 = Suc (length b0)"
    using renderCTE_numbered [OF _ cte] ok' by (auto simp: block_def)
  have p1: "concat (map params sets) = block (Suc (length b0)) b1" "i1 = Suc (length b0) + length b1"
    using setc.seq_numbered [OF _ sets] p0(2) by (auto simp: block_def)
  have p2: "concat (map params wh) = block (Suc (length b0 + length b1)) b2"
    using buildWhere_numbered [OF _ wh] ok' p1(2) by (auto simp: block_def)
  have "params (sql st) = block 1 b0 @ block (Suc (length b0)) b1 @ block (Suc (length b0 + length b1)) b2
      \<and> bindings st = b0 @ b1 @ b2"
    using r cte sets wh ok' p0 p1 p2
    by (auto simp: toUpdate_def Let_def with_prefix_params params_plain_append params_append
        where_suffix_params params_join split: if_splits)
  then show ?thesis using consec_block_append [of 0 b0]
    by (auto simp: embeddable_def all_numbered_def balanced_def intro!: consec_binds)
qed

lemma toDelete_binds:
  assumes ok: "qb_ok q" and r: "toDelete q = Inr st"
  shows "binds_in_order st \<and> embeddable st"
proof -
  obtain cte b0 i0 where cte: "renderCTE q = Inr (cte, b0, i0)"
    using r by (auto simp: toDelete_def bindR_Inr_iff)
  obtain wh b1 where wh: "buildWhere q (start_index i0) = Inr (wh, b1)"
    using r cte by (auto simp: toDelete_def bindR_Inr_iff)
  note ok' = ok [unfolded qb_ok_def]
  have p0: "concat (map params cte) = block 1 b0" "start_index i0 = Suc (length b0)"
    using renderCTE_numbered [OF _ cte] ok' by (auto simp: block_def)
  have p1: "concat (map params wh) = block (Suc (length b0)) b1"
    using buildWhere_numbered [OF _ wh] ok' p0(2) by (auto simp: block_def)
  have "params (sql st) = block 1 b0 @ block (Suc (length b0)) b1 \<and> bindings st = b0 @ b1"
    using r cte wh ok' p0 p1
    by (auto simp: toDelete_def Let_def with_prefix_params params_plain_append params_append where_suffix_params)
  then show ?thesis using consec_block_append [of 0 b0]
    by (auto simp: embeddable_def all_numbered_def balanced_def intro!: consec_binds)
qed

lemma toCount_binds:
  assumes ok: "qb_ok q" and r: "toCount q = Inr st"
  shows "binds_in_order st \<and> embeddable st"
proof -
  obtain cte b0 i0 where cte: "renderCTE q = Inr (cte, b0, i0)"
    using r by (auto simp: toCount_def bindR_Inr_iff)
  obtain joins b1 i1 where joins: "buildJoins q (start_index i0) = Inr (joins, b1, i1)"
    using r cte by (auto simp: toCount_def bindR_Inr_iff)
  obtain wh b2 where wh: "buildWhere q i1 = Inr (wh, b2)"
    using r cte joins by (auto simp: toCount_def bindR_Inr_iff)
  note ok' = ok [unfolded qb_ok_def]
  have p0: "concat (map params cte) = block 1 b0" "start_index i0 = Suc (length b0)"
    using renderCTE_numbered [OF _ cte] ok' by (auto simp: block_def)
  have p1: "concat (map params joins) = block (Suc (length b0)) b1" "i1 = Suc (length b0) + length b1"
    using buildJoins_numbered [OF _ joins] ok' p0(2) by (auto simp: block_def)
  have p2: "concat (map params wh) = block (Suc (length b0 + length b1)) b2"
    using buildWhere_numbered [OF _ wh] ok' p1(2) by (auto simp: block_def)
  have "params (sql st) = block 1 b0 @ block (Suc (length b0)) b1 @ block (Suc (length b0 + length b1)) b2
      \<and> bindings st = b0 @ b1 @ b2"
    using r cte joins wh ok' p0 p1 p2 by (auto simp: toCount_def params_join)
  then show ?thesis using consec_block_append [of 0 b0]
    by (auto simp: embeddable_def all_numbered_def balanced_def intro!: consec_binds)
qed

lemma mapR_toSelect_embeddable:
  "mapR toSelect qs = Inr sts \<Longrightarrow> list_all (\<lambda>q. qb_ok q \<and> q_rawBindings q = []) qs \<Longrightarrow> list_all embeddable sts"
  by (induction qs arbitrary: sts) (auto simp: bindR_Inr_iff intro: toSelect_embeddable)

lemma union_binds:
  assumes ok: "list_all (\<lambda>q. qb_ok q \<and> q_rawBindings q = []) qs" and r: "qb_union qs all = Inr st"
  shows "binds_in_order st \<and> embeddable st"
proof -
  obtain sts where sts: "mapR toSelect qs = Inr sts" using r
    by (auto simp: qb_union_def bindR_Inr_iff split: if_splits)
  obtain ts bs j where ts: "render_seq render_union_arm sts 1 = Inr (ts, bs, j)"
    using r sts by (auto simp: qb_union_def bindR_Inr_iff split: if_splits)
  have st: "st = stmt (join_with (if all then '' UNION ALL '' else '' UNION '') ts) bs"
    using r sts ts by (auto simp: qb_union_def split: if_splits)
  have "params (sql st) = block 1 bs \<and> bindings st = bs"
    using arm.seq_numbered [OF mapR_toSelect_embeddable [OF sts ok] ts] st
    by (simp add: params_join block_def)
  then show ?thesis using consec_block [of 0 bs]
    by (auto simp: embeddable_def all_numbered_def balanced_def intro!: consec_binds)
qed

section \<open>Builders the API can build\<close>

lemma mapR_sanitize_same:
  "mapR (\<lambda>(i, part). if star i part then Inr part else sanitizeIdentifier part ctx) xs = Inr ys \<Longrightarrow>
     ys = map snd xs \<and> (\<forall>(i, part) \<in> set xs. star i part \<or> IDENTIFIER_RE part)"
  by (induction xs arbitrary: ys) (auto simp: bindR_Inr_iff sanitize_Inr_iff split: if_splits)

lemma sanitizeColumn_Inr:
  assumes "sanitizeColumn c ctx star = Inr s" shows "s = c \<and> no_qmark s"
proof -
  let ?parts = "split_on CHR ''.'' c"
  let ?star = "\<lambda>i part. star \<and> i = length ?parts - 1 \<and> part = ''*''"
  have eq: "(\<lambda>(i, part). if star \<and> i = length ?parts - 1 \<and> part = ''*'' then Inr ''*'' else sanitizeIdentifier part ctx)
      = (\<lambda>(i, part). if ?star i part then Inr part else sanitizeIdentifier part ctx)"
    by (auto simp: fun_eq_iff)
  obtain ys where ys: "mapR (\<lambda>(i, part). if ?star i part then Inr part else sanitizeIdentifier part ctx)
      (enumerate 0 ?parts) = Inr ys" "s = join_with ''.'' ys"
    using assms unfolding sanitizeColumn_def Let_def eq by (elim bindR_InrE) simp
  have "ys = ?parts" and all: "\<forall>(i, part) \<in> set (enumerate 0 ?parts). ?star i part \<or> IDENTIFIER_RE part"
    using mapR_sanitize_same [OF ys(1)] by auto
  have "no_qmark p" if "p \<in> set ?parts" for p
  proof -
    obtain i where "i < length ?parts" "?parts ! i = p" using \<open>p \<in> set ?parts\<close> in_set_conv_nth [of p ?parts] by blast
    then have "(i, p) \<in> set (enumerate 0 ?parts)" by (auto simp: in_set_enumerate_eq)
    then show ?thesis using all by fastforce
  qed
  then have "no_qmark (join_with ''.'' ?parts)" by simp
  with ys(2) \<open>ys = ?parts\<close> show ?thesis using join_split_on [of "CHR ''.''" c] by simp
qed

lemma mapR_sanitizeColumn:
  "mapR (\<lambda>c. sanitizeColumn c ctx star) cs = Inr ys \<Longrightarrow> ys = cs \<and> list_all no_qmark ys"
  by (induction cs arbitrary: ys) (auto simp: bindR_Inr_iff dest: sanitizeColumn_Inr)

lemma mapR_sanitizeIdentifier:
  "mapR (\<lambda>c. sanitizeIdentifier c ctx) cs = Inr ys \<Longrightarrow> ys = cs \<and> list_all IDENTIFIER_RE ys"
  by (induction cs arbitrary: ys) (auto simp: bindR_Inr_iff sanitize_Inr_iff)

lemma sanitizeQualified_Inr: "sanitizeQualified c ctx = Inr s \<Longrightarrow> s = c \<and> no_qmark s"
proof -
  assume "sanitizeQualified c ctx = Inr s"
  then have "s = join_with ''.'' (split_on CHR ''.'' c)" "list_all IDENTIFIER_RE (split_on CHR ''.'' c)"
    by (auto simp: sanitizeQualified_def bindR_Inr_iff dest!: mapR_sanitizeIdentifier)
  moreover from this(2) have "no_qmark (join_with ''.'' (split_on CHR ''.'' c))"
    by (auto simp: list_all_iff)
  ultimately show ?thesis by (simp add: join_split_on)
qed

text \<open>
  The builders the methods can reach, with the conditions the methods put on their raw
  arguments: a raw fragment brings as many placeholders as bindings, a raw SELECT expression
  uses bare \<open>?\<close>, a value bound through \<open>IN\<close> is not itself a statement, and an embedded
  builder selects no bound expression.
\<close>

inductive built :: "qb \<Rightarrow> bool" where
  built_from: "qb_from t = Inr q \<Longrightarrow> built q"
| built_select: "built q \<Longrightarrow> qb_select cs q = Inr q' \<Longrightarrow> built q'"
| built_selectRaw: "built q \<Longrightarrow> no_qmark (with_alias e a) \<Longrightarrow> built (selectRaw e a q)"
| built_selectRawWith: "built q \<Longrightarrow> params (with_alias e a) = replicate (length bs) None \<Longrightarrow>
    built (selectRawWith e bs a q)"
| built_selectFn: "built q \<Longrightarrow> no_qmark f \<Longrightarrow> built (selectFn f args q)"
| built_where: "built q \<Longrightarrow> c \<noteq> ''__GROUP__'' \<Longrightarrow> \<not> has_sql v \<Longrightarrow> \<not> has_sql v' \<Longrightarrow>
    where_typed ctx t c v v' q = Inr q' \<Longrightarrow> built q'"
| built_whereRaw: "built q \<Longrightarrow> balanced (stmt s bs) \<Longrightarrow> built (pushRaw s bs t q)"
| built_whereIn: "built q \<Longrightarrow> c \<noteq> ''__GROUP__'' \<Longrightarrow> whereIn c vs q = Inr q' \<Longrightarrow> built q'"
| built_orWhereIn: "built q \<Longrightarrow> c \<noteq> ''__GROUP__'' \<Longrightarrow> orWhereIn c vs q = Inr q' \<Longrightarrow> built q'"
| built_whereNotIn: "built q \<Longrightarrow> c \<noteq> ''__GROUP__'' \<Longrightarrow> whereNotIn c vs q = Inr q' \<Longrightarrow> built q'"
| built_orWhereNotIn: "built q \<Longrightarrow> c \<noteq> ''__GROUP__'' \<Longrightarrow> orWhereNotIn c vs q = Inr q' \<Longrightarrow> built q'"
| built_whereNull: "built q \<Longrightarrow> c \<noteq> ''__GROUP__'' \<Longrightarrow> whereNull c q = Inr q' \<Longrightarrow> built q'"
| built_orWhereNull: "built q \<Longrightarrow> c \<noteq> ''__GROUP__'' \<Longrightarrow> orWhereNull c q = Inr q' \<Longrightarrow> built q'"
| built_whereNotNull: "built q \<Longrightarrow> c \<noteq> ''__GROUP__'' \<Longrightarrow> whereNotNull c q = Inr q' \<Longrightarrow> built q'"
| built_orWhereNotNull: "built q \<Longrightarrow> c \<noteq> ''__GROUP__'' \<Longrightarrow> orWhereNotNull c q = Inr q' \<Longrightarrow> built q'"
| built_whereBetween: "built q \<Longrightarrow> c \<noteq> ''__GROUP__'' \<Longrightarrow> whereBetween c lo hi q = Inr q' \<Longrightarrow> built q'"
| built_whereNotBetween: "built q \<Longrightarrow> whereNotBetween c lo hi q = Inr q' \<Longrightarrow> built q'"
| built_whereGroup: "built q \<Longrightarrow> list_all (\<lambda>c. \<not> has_sql (gc_value c)) gcs \<Longrightarrow>
    whereGroup gcs t q = Inr q' \<Longrightarrow> built q'"
| built_join: "built q \<Longrightarrow> no_qmark ty \<Longrightarrow> qb_join t a b ty al q = Inr q' \<Longrightarrow> built q'"
| built_joinRaw: "built q \<Longrightarrow> balanced (stmt s bs) \<Longrightarrow> built (joinRaw s bs q)"
| built_distinct: "built q \<Longrightarrow> built (qb_distinct q)"
| built_groupBy: "built q \<Longrightarrow> groupBy cs q = Inr q' \<Longrightarrow> built q'"
| built_having: "built q \<Longrightarrow> having c op v q = Inr q' \<Longrightarrow> built q'"
| built_window: "built q \<Longrightarrow> no_qmark d \<Longrightarrow> qb_window n d q = Inr q' \<Longrightarrow> built q'"
| built_orderBy: "built q \<Longrightarrow> orderBy c dir q = Inr q' \<Longrightarrow> built q'"
| built_clearOrderBy: "built q \<Longrightarrow> built (clearOrderBy q)"
| built_orderByRaw: "built q \<Longrightarrow> no_qmark e \<Longrightarrow> orderByRaw e dir q = Inr q' \<Longrightarrow> built q'"
| built_limit: "built q \<Longrightarrow> qb_limit n q = Inr q' \<Longrightarrow> built q'"
| built_offset: "built q \<Longrightarrow> qb_offset n q = Inr q' \<Longrightarrow> built q'"
| built_returning: "built q \<Longrightarrow> built (returning b q)"
| built_onConflict: "built q \<Longrightarrow> onConflict cs act q = Inr q' \<Longrightarrow> built q'"
| built_with: "built q \<Longrightarrow> built sub \<Longrightarrow> q_rawBindings sub = [] \<Longrightarrow> qb_with n sub q = Inr q' \<Longrightarrow> built q'"
| built_withRecursive: "built q \<Longrightarrow> built sub \<Longrightarrow> q_rawBindings sub = [] \<Longrightarrow>
    withRecursive n sub q = Inr q' \<Longrightarrow> built q'"
| built_whereInSubquery: "built q \<Longrightarrow> built sub \<Longrightarrow> q_rawBindings sub = [] \<Longrightarrow> c \<noteq> ''__GROUP__'' \<Longrightarrow>
    whereInSubquery c sub q = Inr q' \<Longrightarrow> built q'"
| built_whereNotInSubquery: "built q \<Longrightarrow> built sub \<Longrightarrow> q_rawBindings sub = [] \<Longrightarrow> c \<noteq> ''__GROUP__'' \<Longrightarrow>
    whereNotInSubquery c sub q = Inr q' \<Longrightarrow> built q'"
| built_exists: "built q \<Longrightarrow> built sub \<Longrightarrow> q_rawBindings sub = [] \<Longrightarrow>
    exists_clause t neg sub q = Inr q' \<Longrightarrow> built q'"
| built_clone: "built q \<Longrightarrow> qb_clone q = Inr q' \<Longrightarrow> built q'"

lemma stmt_of_no_sql: "\<not> has_sql v \<Longrightarrow> stmt_of v \<noteq> Inr st"
proof (cases v)
  case (Obj kvs)
  moreover assume "\<not> has_sql v"
  ultimately have "''sql'' \<notin> fst ` set kvs" by (simp add: has_sql_def obj_in_def amap_has_iff)
  then have "map_of kvs ''sql'' = None" by (simp add: map_of_eq_None_iff)
  then show ?thesis using Obj
    by (simp add: stmt_of_def obj_get_def object_proto_get_def object_proto_methods_def)
qed (simp_all add: stmt_of_def)

lemma clause_okI:
  "col \<noteq> ''__GROUP__'' \<Longrightarrow> op \<noteq> ''RAW'' \<Longrightarrow> \<not> has_sql v \<Longrightarrow>
     clause_ok \<lparr>w_column = col, w_op = op, w_value = v, w_type = t, w_not = n\<rparr>"
  by (auto simp: clause_ok_def simple_clause_ok_def dest: stmt_of_no_sql)

lemma has_sql_simps [simp]: "\<not> has_sql (Arr xs)" "\<not> has_sql Null" "\<not> has_sql (Str s)" "\<not> has_sql (Num n)"
  by (simp_all add: has_sql_def)

lemma raw_clause_ok: "balanced (stmt s bs) \<Longrightarrow> clause_ok (clause ''RAW'' ''RAW'' (stmt_value (stmt s bs)) t)"
  by (auto simp: clause_ok_def simple_clause_ok_def clause_def)

lemma subquery_clause_ok:
  "embeddable st \<Longrightarrow> col \<noteq> ''__GROUP__'' \<Longrightarrow> op \<noteq> ''RAW'' \<Longrightarrow>
     clause_ok \<lparr>w_column = col, w_op = op, w_value = stmt_value st, w_type = t, w_not = n\<rparr>"
  by (auto simp: clause_ok_def simple_clause_ok_def)

lemma push_where_ok: "qb_ok q \<Longrightarrow> clause_ok w \<Longrightarrow> qb_ok (push_where w q)"
  by (simp add: qb_ok_def push_where_def raw_selects_ok_def)

lemma json_each_balanced: "IDENTIFIER_RE col \<or> no_qmark col \<Longrightarrow> no_qmark op \<Longrightarrow> balanced (stmt (json_each col op) [v])"
  by (auto simp: balanced_def json_each_def params_plain_append)

lemma group_clause_item:
  "group_clause_of (group_item t c) = Inr \<lparr>w_column = gc_column c, w_op = gc_op c, w_value = gc_value c,
     w_type = (case gc_type c of Some u \<Rightarrow> u | None \<Rightarrow> t), w_not = False\<rparr>"
  by (simp add: group_clause_of_def group_item_def obj_get_def object_proto_get_def object_proto_methods_def)

lemma group_items_ok:
  assumes "mapR (\<lambda>c. bindR (validateOp q (Str (gc_op c))) (\<lambda>_. Inr (group_item t c))) gcs = Inr items"
    and "list_all (\<lambda>c. \<not> has_sql (gc_value c)) gcs"
  shows "\<exists>gs. group_of (Arr items) = Inr gs \<and> list_all simple_clause_ok gs"
proof -
  have "\<exists>gs. mapR group_clause_of items = Inr gs \<and> list_all simple_clause_ok gs"
    using assms
  proof (induction gcs arbitrary: items)
    case (Cons c gcs)
    then obtain s its where c: "validateOp q (Str (gc_op c)) = Inr s" "items = group_item t c # its"
        "mapR (\<lambda>c. bindR (validateOp q (Str (gc_op c))) (\<lambda>_. Inr (group_item t c))) gcs = Inr its"
      by (auto simp: bindR_Inr_iff)
    then obtain gs where gs: "mapR group_clause_of its = Inr gs" "list_all simple_clause_ok gs"
      using Cons.IH [of its] Cons.prems(2) by auto
    have "gc_op c \<in> set valid_where_ops" using c(1) by (auto simp: validateOp_def split: if_splits)
    then have "gc_op c \<noteq> ''RAW''" by (auto simp: valid_where_ops_def)
    then show ?case using c(2) gs Cons.prems(2) stmt_of_no_sql [of "gc_value c"]
      by (simp add: group_clause_item list_all_iff simple_clause_ok_def [of "\<lparr>w_column = _, w_op = _, w_value = _, w_type = _, w_not = _\<rparr>"])
  qed simp
  then show ?thesis by (simp add: group_of_def)
qed

lemma upper_qmark: "no_qmark (to_upper s) \<Longrightarrow> no_qmark s"
proof -
  have "upper_char CHR ''?'' = CHR ''?''" by code_simp
  then show "no_qmark (to_upper s) \<Longrightarrow> no_qmark s"
    by (auto simp: no_qmark_def to_upper_def image_iff)
qed

lemma selectFn_params:
  "params (join_with '', '' (map (\<lambda>a. if a = Str ''*'' then ''*'' else ''?'') args)) =
     replicate (length (filter (\<lambda>a. a \<noteq> Str ''*'') args)) None"
  by (simp add: params_join comp_def) (induction args; simp)

lemma rawSelect_ok:
  "qb_ok q \<Longrightarrow> params e = replicate (length bs) None \<Longrightarrow>
     qb_ok (q\<lparr>q_rawSelects := q_rawSelects q @ [e], q_rawBindings := q_rawBindings q @ bs\<rparr>)"
  by (simp add: qb_ok_def raw_selects_ok_def replicate_add)

lemma cte_added_ok:
  "qb_ok q \<Longrightarrow> no_qmark n \<Longrightarrow> embeddable st \<Longrightarrow>
     qb_ok (q\<lparr>q_ctes := q_ctes q @ [\<lparr>cte_name = n, cte_recursive = r, cte_query = st\<rparr>]\<rparr>)"
  by (simp add: qb_ok_def raw_selects_ok_def cte_ok_def)

lemma join_added_ok: "qb_ok q \<Longrightarrow> join_ok j \<Longrightarrow> qb_ok (q\<lparr>q_joins := q_joins q @ [j]\<rparr>)"
  by (simp add: qb_ok_def raw_selects_ok_def)

lemma order_added_ok:
  "qb_ok q \<Longrightarrow> no_qmark c \<Longrightarrow> order_direction dir = Inr d \<Longrightarrow> qb_ok (q\<lparr>q_orderBy := q_orderBy q @ [(c, d)]\<rparr>)"
proof -
  have "to_upper ''asc'' = ''ASC''" "to_upper ''desc'' = ''DESC''" by code_simp+
  then show "qb_ok q \<Longrightarrow> no_qmark c \<Longrightarrow> order_direction dir = Inr d \<Longrightarrow>
      qb_ok (q\<lparr>q_orderBy := q_orderBy q @ [(c, d)]\<rparr>)"
    by (auto simp: qb_ok_def raw_selects_ok_def order_direction_def split: if_splits)
qed

lemma having_op_plain: "to_upper op \<in> set HAVING_OPS \<Longrightarrow> no_qmark op"
  by (rule upper_qmark) (auto simp: HAVING_OPS_def)

lemma qb_from_ok: "qb_from t = Inr q \<Longrightarrow> qb_ok q"
  by (auto simp: qb_from_def bindR_Inr_iff sanitize_Inr_iff qb_ok_def raw_selects_ok_def)

lemma clone_eq: "IDENTIFIER_RE (q_table q) \<Longrightarrow> qb_clone q = Inr q"
  by (simp add: qb_clone_def qb_from_def)

lemmas where_ok_intros = push_where_ok clause_okI raw_clause_ok json_each_balanced subquery_clause_ok

lemma where_typed_ok:
  "qb_ok q \<Longrightarrow> c \<noteq> ''__GROUP__'' \<Longrightarrow> \<not> has_sql v \<Longrightarrow> \<not> has_sql v' \<Longrightarrow>
     where_typed ctx t c v v' q = Inr q' \<Longrightarrow> qb_ok q'"
  by (auto simp: where_typed_def bindR_Inr_iff Let_def clause_def validateOp_def valid_where_ops_def
      dest!: sanitizeColumn_Inr intro!: where_ok_intros split: if_splits jsval.splits)

lemma whereIn_ok: "qb_ok q \<Longrightarrow> c \<noteq> ''__GROUP__'' \<Longrightarrow> whereIn c vs q = Inr q' \<Longrightarrow> qb_ok q'"
  by (auto simp: whereIn_def bindR_Inr_iff whereRaw_def pushRaw_def balanced_def dest!: sanitizeColumn_Inr
      intro!: push_where_ok raw_clause_ok split: if_splits)
    (auto simp: clause_def json_each_def params_plain_append intro!: clause_okI)

lemma orWhereIn_ok: "qb_ok q \<Longrightarrow> c \<noteq> ''__GROUP__'' \<Longrightarrow> orWhereIn c vs q = Inr q' \<Longrightarrow> qb_ok q'"
  by (auto simp: orWhereIn_def bindR_Inr_iff pushRaw_def sanitize_Inr_iff
      intro!: push_where_ok raw_clause_ok json_each_balanced split: if_splits)
    (auto simp: clause_def intro!: clause_okI)

lemma whereNotIn_ok: "qb_ok q \<Longrightarrow> c \<noteq> ''__GROUP__'' \<Longrightarrow> whereNotIn c vs q = Inr q' \<Longrightarrow> qb_ok q'"
  by (auto simp: whereNotIn_def bindR_Inr_iff whereRaw_def pushRaw_def balanced_def sanitize_Inr_iff
      intro!: push_where_ok raw_clause_ok split: if_splits)
    (auto simp: clause_def json_each_def params_plain_append intro!: clause_okI)

lemma orWhereNotIn_ok: "qb_ok q \<Longrightarrow> c \<noteq> ''__GROUP__'' \<Longrightarrow> orWhereNotIn c vs q = Inr q' \<Longrightarrow> qb_ok q'"
  by (auto simp: orWhereNotIn_def bindR_Inr_iff pushRaw_def balanced_def sanitize_Inr_iff
      intro!: push_where_ok raw_clause_ok split: if_splits)
    (auto simp: clause_def json_each_def params_plain_append intro!: clause_okI)

lemma where_null_ok:
  assumes "qb_ok q" "c \<noteq> ''__GROUP__''"
  shows "whereNull c q = Inr q' \<Longrightarrow> qb_ok q'" "orWhereNull c q = Inr q' \<Longrightarrow> qb_ok q'"
    "whereNotNull c q = Inr q' \<Longrightarrow> qb_ok q'" "orWhereNotNull c q = Inr q' \<Longrightarrow> qb_ok q'"
    "whereBetween c lo hi q = Inr q' \<Longrightarrow> qb_ok q'"
  using assms
  by (auto simp: whereNull_def orWhereNull_def whereNotNull_def orWhereNotNull_def whereBetween_def
      bindR_Inr_iff sanitize_Inr_iff clause_def dest!: sanitizeColumn_Inr intro!: push_where_ok clause_okI)

lemma whereNotBetween_ok: "qb_ok q \<Longrightarrow> whereNotBetween c lo hi q = Inr q' \<Longrightarrow> qb_ok q'"
  by (auto simp: whereNotBetween_def bindR_Inr_iff sanitize_Inr_iff whereRaw_def pushRaw_def balanced_def
      params_plain_append intro!: push_where_ok raw_clause_ok)

lemma whereGroup_ok:
  assumes "qb_ok q" "list_all (\<lambda>c. \<not> has_sql (gc_value c)) gcs" "whereGroup gcs t q = Inr q'"
  shows "qb_ok q'"
proof (cases "gcs = []")
  case False
  then obtain items where items:
      "mapR (\<lambda>c. bindR (validateOp q (Str (gc_op c))) (\<lambda>_. Inr (group_item t c))) gcs = Inr items"
      "q' = push_where (clause ''__GROUP__'' ''__GROUP__'' (Arr items) t) q"
    using assms(3) by (auto simp: whereGroup_def bindR_Inr_iff)
  have "clause_ok (clause ''__GROUP__'' ''__GROUP__'' (Arr items) t)"
    using group_items_ok [OF items(1) assms(2)] by (auto simp: clause_ok_def clause_def)
  then show ?thesis using assms(1) items(2) by (simp add: push_where_ok)
qed (use assms in \<open>simp add: whereGroup_def\<close>)

lemma join_method_ok: "qb_ok q \<Longrightarrow> no_qmark ty \<Longrightarrow> qb_join t a b ty al q = Inr q' \<Longrightarrow> qb_ok q'"
  by (auto simp: qb_join_def bindR_Inr_iff sanitize_Inr_iff join_ok_def IDENTIFIER_RE_def
      dest!: sanitizeQualified_Inr intro!: join_added_ok split: option.splits if_splits)

lemma subquery_ok:
  "qb_ok q \<Longrightarrow> qb_ok sub \<Longrightarrow> q_rawBindings sub = [] \<Longrightarrow> c \<noteq> ''__GROUP__'' \<Longrightarrow>
     whereInSubquery c sub q = Inr q' \<Longrightarrow> qb_ok q'"
  "qb_ok q \<Longrightarrow> qb_ok sub \<Longrightarrow> q_rawBindings sub = [] \<Longrightarrow> c \<noteq> ''__GROUP__'' \<Longrightarrow>
     whereNotInSubquery c sub q = Inr q' \<Longrightarrow> qb_ok q'"
  "qb_ok q \<Longrightarrow> qb_ok sub \<Longrightarrow> q_rawBindings sub = [] \<Longrightarrow> exists_clause t neg sub q = Inr q' \<Longrightarrow> qb_ok q'"
  by (auto simp: whereInSubquery_def whereNotInSubquery_def exists_clause_def bindR_Inr_iff
      sanitize_Inr_iff clause_def intro!: push_where_ok subquery_clause_ok intro: toSelect_embeddable)

lemma built_ok: "built q \<Longrightarrow> qb_ok q"
proof (induction rule: built.induct)
  case (built_from t q) then show ?case by (rule qb_from_ok)
next
  case (built_select q cs q')
  then show ?case
    by (auto simp: qb_select_def bindR_Inr_iff qb_ok_def raw_selects_ok_def dest!: mapR_sanitizeColumn)
next
  case (built_selectRaw q e a)
  then show ?case using rawSelect_ok [of q "with_alias e a" "[]"] by (simp add: selectRaw_def)
next
  case (built_selectRawWith q e a bs)
  then show ?case unfolding selectRawWith_def by (intro rawSelect_ok)
next
  case (built_selectFn q f args)
  have "params (f @ ''('' @ join_with '', '' (map (\<lambda>a. if a = Str ''*'' then ''*'' else ''?'') args) @ '')'')
      = replicate (length (filter (\<lambda>a. a \<noteq> Str ''*'') args)) None"
    using built_selectFn(2) by (simp add: params_plain_append params_append selectFn_params)
  then show ?case using built_selectFn.IH unfolding selectFn_def by (intro rawSelect_ok)
next
  case (built_where q c v v' ctx t q') show ?case by (rule where_typed_ok [of q]; fact)
next
  case (built_whereRaw q s bs t)
  then show ?case unfolding pushRaw_def by (intro push_where_ok raw_clause_ok)
next
  case (built_join q ty t a b al q') show ?case by (rule join_method_ok [of q]; fact)
next
  case (built_joinRaw q s bs)
  then show ?case unfolding joinRaw_def by (intro join_added_ok) (simp_all add: join_ok_def)
next
  case (built_having q c op v q')
  then show ?case
    by (auto simp: having_def bindR_Inr_iff qb_ok_def raw_selects_ok_def having_ok_def having_op_plain
        dest!: sanitizeColumn_Inr split: if_splits)
next
  case (built_groupBy q cs q')
  then show ?case
    by (auto simp: groupBy_def bindR_Inr_iff qb_ok_def raw_selects_ok_def dest!: mapR_sanitizeColumn)
next
  case (built_window q d n q')
  then show ?case by (auto simp: qb_window_def bindR_Inr_iff sanitize_Inr_iff qb_ok_def raw_selects_ok_def)
next
  case (built_orderBy q c dir q')
  then show ?case by (auto simp: orderBy_def bindR_Inr_iff dest!: sanitizeColumn_Inr intro: order_added_ok)
next
  case (built_orderByRaw q e dir q')
  then show ?case by (auto simp: orderByRaw_def bindR_Inr_iff intro: order_added_ok)
next
  case (built_onConflict q cs act q')
  then show ?case
    by (auto simp: onConflict_def bindR_Inr_iff qb_ok_def raw_selects_ok_def list_all_iff
        dest!: mapR_sanitizeIdentifier)
next
  case (built_with q sub n q')
  then show ?case by (auto simp: qb_with_def bindR_Inr_iff sanitize_Inr_iff intro: cte_added_ok toSelect_embeddable)
next
  case (built_withRecursive q sub n q')
  then show ?case by (auto simp: withRecursive_def bindR_Inr_iff sanitize_Inr_iff intro: cte_added_ok toSelect_embeddable)
next
  case (built_clone q q')
  then show ?case by (simp add: clone_eq qb_ok_def)
next
  case (built_whereIn q c vs q') show ?case by (rule whereIn_ok [of q]; fact)
next
  case (built_orWhereIn q c vs q') show ?case by (rule orWhereIn_ok [of q]; fact)
next
  case (built_whereNotIn q c vs q') show ?case by (rule whereNotIn_ok [of q]; fact)
next
  case (built_orWhereNotIn q c vs q') show ?case by (rule orWhereNotIn_ok [of q]; fact)
next
  case (built_whereNull q c q') show ?case by (rule where_null_ok(1) [of q]; fact)
next
  case (built_orWhereNull q c q') show ?case by (rule where_null_ok(2) [of q]; fact)
next
  case (built_whereNotNull q c q') show ?case by (rule where_null_ok(3) [of q]; fact)
next
  case (built_orWhereNotNull q c q') show ?case by (rule where_null_ok(4) [of q]; fact)
next
  case (built_whereBetween q c lo hi q') show ?case by (rule where_null_ok(5) [of q]; fact)
next
  case (built_whereNotBetween q c lo hi q') show ?case by (rule whereNotBetween_ok [of q]; fact)
next
  case (built_whereGroup q gcs t q') show ?case by (rule whereGroup_ok [of q]; fact)
next
  case (built_whereInSubquery q sub c q') show ?case by (rule subquery_ok(1) [of q sub]; fact)
next
  case (built_whereNotInSubquery q sub c q') show ?case by (rule subquery_ok(2) [of q sub]; fact)
next
  case (built_exists q sub t neg q') show ?case by (rule subquery_ok(3) [of q sub]; fact)
next
  case (built_distinct q) then show ?case by (simp add: qb_distinct_def qb_ok_def raw_selects_ok_def)
next
  case (built_clearOrderBy q) then show ?case by (simp add: clearOrderBy_def qb_ok_def raw_selects_ok_def)
next
  case (built_returning q b) then show ?case by (simp add: returning_def qb_ok_def raw_selects_ok_def)
next
  case (built_limit q n q') then show ?case
    by (auto simp: qb_limit_def qb_ok_def raw_selects_ok_def split: if_splits)
next
  case (built_offset q n q') then show ?case
    by (auto simp: qb_offset_def qb_ok_def raw_selects_ok_def split: if_splits)
qed

end
