(* ===== verification/QueryBuilderClaims.thy ===== *)
theory QueryBuilderClaims
  imports QueryBuilderParams
begin

text \<open>
  The properties of the query builder: the parameter discipline of every statement it
  generates, the bound on the parameters of an \<open>IN\<close> list, the reuse of a cloned builder,
  and two defects the model exposes (bound SELECT expressions inside an embedded builder, and
  the operators of \<open>having\<close> that take no parameter).
\<close>

section \<open>A builder to instantiate the properties with\<close>

definition ex_sub :: qb where
  "ex_sub = projr (qb_where ''status'' (Str ''x'') Undef (projr (qb_from ''posts'')))"

definition ex_qb :: qb where
  "ex_qb = projr (whereInSubquery ''id'' ex_sub (selectFn ''lower'' [Str ''a'']
     (projr (qb_with ''c'' ex_sub (projr (qb_from ''t''))))))"

lemma ex_sub_built: "built ex_sub"
proof -
  have "built (projr (qb_from ''posts''))" by (rule built_from [where t = "''posts''"]) code_simp
  then show ?thesis unfolding ex_sub_def
    by (rule built_where [where c = "''status''" and v = "Str ''x''" and v' = Undef
          and ctx = "''QueryBuilder.where''" and t = "''and''"]) code_simp+
qed

lemma ex_sub_raw: "q_rawBindings ex_sub = []"
  by code_simp

lemma ex_qb_built: "built ex_qb"
proof -
  have "built (projr (qb_from ''t''))" by (rule built_from [where t = "''t''"]) code_simp
  then have "built (projr (qb_with ''c'' ex_sub (projr (qb_from ''t''))))"
    by (rule built_with [OF _ ex_sub_built ex_sub_raw, where n = "''c''"]) code_simp
  then have "built (selectFn ''lower'' [Str ''a''] (projr (qb_with ''c'' ex_sub (projr (qb_from ''t'')))))"
    by (rule built_selectFn) simp
  then show ?thesis unfolding ex_qb_def
    by (rule built_whereInSubquery [OF _ ex_sub_built ex_sub_raw, where c = "''id''"]) code_simp+
qed

definition ex_stmt :: sql_stmt where
  "ex_stmt = projr (toSelect ex_qb)"

section \<open>Properties\<close>



text \<open>
  The statements of the other generators (INSERT of one row or many, UPDATE, DELETE, COUNT)
  read their bindings in order as well, and all their placeholders carry a number.
\<close>

theorem write_statements_read_bindings_in_order:
  assumes "built q"
    and "r \<in> {toInsert data q, toInsertMany rows q, toUpdate data q, toDelete q, toCount q}"
    and "r = Inr st"
  shows "binds_in_order st \<and> embeddable st"
proof -
  note ok = built_ok [OF assms(1)]
  from assms(2,3) have "toInsert data q = Inr st \<or> toInsertMany rows q = Inr st \<or> toUpdate data q = Inr st \<or>
      toDelete q = Inr st \<or> toCount q = Inr st" by auto
  then show ?thesis
    using toInsert_binds [OF ok] toInsertMany_binds [OF ok] toUpdate_binds [OF ok] toDelete_binds [OF ok]
      toCount_binds [OF ok] by blast
qed

theorem write_statements_read_bindings_in_order_witness:
  "\<exists>st. toUpdate [(''a'', Num (Fin 1)), (''b'', Null)] ex_sub = Inr st \<and>
     sql st = ''UPDATE posts SET a = ?1, b = ?2 WHERE status = ?3'' \<and> binds_in_order st \<and> embeddable st"
proof -
  let ?st = "stmt ''UPDATE posts SET a = ?1, b = ?2 WHERE status = ?3'' [Num (Fin 1), Null, Str ''x'']"
  have r: "toUpdate [(''a'', Num (Fin 1)), (''b'', Null)] ex_sub = Inr ?st" by code_simp
  then have "binds_in_order ?st \<and> embeddable ?st"
    using write_statements_read_bindings_in_order [OF ex_sub_built,
        of "Inr ?st" "[(''a'', Num (Fin 1)), (''b'', Null)]" "[]" ?st] by simp
  then show ?thesis using r by auto
qed

text \<open>
  A UNION of builders that select no bound expression reads the bindings of all its arms in
  order.
\<close>

theorem union_reads_bindings_in_order:
  assumes "list_all (\<lambda>q. built q \<and> q_rawBindings q = []) qs" and "qb_union qs all = Inr st"
  shows "binds_in_order st \<and> embeddable st"
proof -
  have "list_all (\<lambda>q. qb_ok q \<and> q_rawBindings q = []) qs"
    using assms(1) built_ok by (auto simp: list_all_iff)
  then show ?thesis using assms(2) by (rule union_binds)
qed

theorem union_reads_bindings_in_order_witness:
  "\<exists>st. qb_union [ex_sub, ex_sub] True = Inr st \<and> slots (sql st) = [1, 2] \<and> binds_in_order st"
proof -
  have r: "qb_union [ex_sub, ex_sub] True = Inr (projr (qb_union [ex_sub, ex_sub] True))" by code_simp
  have "slots (sql (projr (qb_union [ex_sub, ex_sub] True))) = [1, 2]" by code_simp
  moreover have "binds_in_order (projr (qb_union [ex_sub, ex_sub] True))"
    using union_reads_bindings_in_order [OF _ r] ex_sub_built ex_sub_raw by simp
  ultimately show ?thesis using r by blast
qed

text \<open>
  A bound SELECT expression (\<open>selectFn\<close>, \<open>selectRawWith\<close>) inside a builder that is
  embedded as a common table expression breaks that discipline: only the numbered placeholders
  are renumbered, so the filter of the embedded query reads the argument of the expression and
  the last binding is never read.
\<close>

theorem embedded_bound_expression_shifts_parameters:
  "\<exists>sub q st. qb_where ''a'' (Str ''v'') Undef (selectFn ''lower'' [Str ''x''] (projr (qb_from ''t''))) = Inr sub \<and>
     built sub \<and> qb_with ''c'' sub (projr (qb_from ''c'')) = Inr q \<and> toSelect q = Inr st \<and>
     sql st = ''WITH c AS (SELECT *, lower(?) FROM t WHERE a = ?1) SELECT * FROM c'' \<and>
     bindings st = [Str ''x'', Str ''v''] \<and> slots (sql st) = [1, 1] \<and> \<not> binds_in_order st"
proof -
  let ?f = "selectFn ''lower'' [Str ''x''] (projr (qb_from ''t''))"
  let ?sub = "projr (qb_where ''a'' (Str ''v'') Undef ?f)"
  let ?q = "projr (qb_with ''c'' ?sub (projr (qb_from ''c'')))"
  let ?st = "stmt ''WITH c AS (SELECT *, lower(?) FROM t WHERE a = ?1) SELECT * FROM c'' [Str ''x'', Str ''v'']"
  have 1: "qb_where ''a'' (Str ''v'') Undef ?f = Inr ?sub" by code_simp
  have "built (projr (qb_from ''t''))" by (rule built_from [where t = "''t''"]) code_simp
  then have "built ?f" by (rule built_selectFn) simp
  then have 2: "built ?sub"
    by (rule built_where [where c = "''a''" and v = "Str ''v''" and v' = Undef
          and ctx = "''QueryBuilder.where''" and t = "''and''"]) code_simp+
  have 3: "qb_with ''c'' ?sub (projr (qb_from ''c'')) = Inr ?q" by code_simp
  have 4: "toSelect ?q = Inr ?st" by code_simp
  have 5: "slots (sql ?st) = [1, 1]" by code_simp
  then have 6: "\<not> binds_in_order ?st" by (simp add: binds_in_order_def)
  show ?thesis using 1 2 3 4 5 6 by (intro exI [of _ ?sub] exI [of _ ?q] exI [of _ ?st]) simp
qed

text \<open>
  An \<open>IN\<close> or \<open>NOT IN\<close> filter binds at most 50 parameters whatever the length of its
  list (D1 allows 100 per query): longer lists are bound as one JSON array.
\<close>

theorem in_list_parameter_bound:
  assumes "r \<in> {whereIn c vs q, orWhereIn c vs q, whereNotIn c vs q, orWhereNotIn c vs q}"
    and "r = Inr q'" and "q_wheres q' = q_wheres q @ [w]" and "c \<noteq> ''__GROUP__''"
    and "renderWhereClause q' w i = Inr (t, bs, j)"
  shows "length bs \<le> 50"
proof -
  have raw: "renderWhereClause q' (clause ''RAW'' ''RAW'' (stmt_value (stmt s b)) ty) i = Inr (t, bs, j) \<Longrightarrow> bs = b" for s b ty
    by (auto simp: renderWhereClause_def buildSingleClause_def clause_def split: prod.splits)
  have lst: "renderWhereClause q' (clause c op (Arr vs) ty) i = Inr (t, bs, j) \<Longrightarrow> op \<in> {''IN'', ''NOT IN''} \<Longrightarrow> bs = vs" for op ty
    using assms(4) by (auto simp: renderWhereClause_def buildSingleClause_def clause_def bindR_Inr_iff split: if_splits)
  from assms(1,2) consider "whereIn c vs q = Inr q'" | "orWhereIn c vs q = Inr q'"
    | "whereNotIn c vs q = Inr q'" | "orWhereNotIn c vs q = Inr q'" by fastforce
  then have "(\<exists>s b ty. w = clause ''RAW'' ''RAW'' (stmt_value (stmt s b)) ty \<and> length b \<le> 1) \<or>
      (\<exists>op ty. w = clause c op (Arr vs) ty \<and> op \<in> {''IN'', ''NOT IN''} \<and> length vs \<le> 50)"
    using assms(3)
  proof cases
    case 1 then show ?thesis using assms(3)
      by (auto simp: whereIn_def whereRaw_def pushRaw_def push_where_def bindR_Inr_iff
          dest!: sanitizeColumn_Inr split: if_splits) fastforce+
  next
    case 2 then show ?thesis using assms(3)
      by (auto simp: orWhereIn_def pushRaw_def push_where_def bindR_Inr_iff sanitize_Inr_iff
          split: if_splits) fastforce+
  next
    case 3 then show ?thesis using assms(3)
      by (auto simp: whereNotIn_def whereRaw_def pushRaw_def push_where_def bindR_Inr_iff sanitize_Inr_iff
          split: if_splits) fastforce+
  next
    case 4 then show ?thesis using assms(3)
      by (auto simp: orWhereNotIn_def pushRaw_def push_where_def bindR_Inr_iff sanitize_Inr_iff
          split: if_splits) fastforce+
  qed
  then show ?thesis using assms(5) raw lst by fastforce
qed

theorem in_list_parameter_bound_witness:
  "\<exists>q' t. whereIn ''id'' (replicate 60 Null) ex_sub = Inr q' \<and>
     renderWhereClause q' (last (q_wheres q')) 1 = Inr (t, [json_stringify (Arr (replicate 60 Null))], 2) \<and>
     length [json_stringify (Arr (replicate 60 Null))] \<le> 50"
proof -
  let ?r = "whereIn ''id'' (replicate 60 Null) ex_sub" let ?q = "projr ?r"
  let ?w = "last (q_wheres ?q)"
  let ?bs = "[json_stringify (Arr (replicate 60 Null))]"
  have 1: "?r = Inr ?q" by code_simp
  have 2: "q_wheres ?q = q_wheres ex_sub @ [?w]" by code_simp
  have 3: "renderWhereClause ?q ?w 1 = Inr (''id IN (SELECT value FROM json_each(?1))'', ?bs, 2)" by code_simp
  have "length ?bs \<le> 50"
    by (rule in_list_parameter_bound [of ?r "''id''" "replicate 60 Null" ex_sub ?q ?w 1 _ _ 2, OF _ 1 2 _ 3]) simp_all
  then show ?thesis using 1 3 by blast
qed

text \<open>
  \<open>clone\<close> copies every part of a builder's state: the clone generates the same
  statements, and methods called on it do not touch the original.
\<close>

theorem clone_is_same_builder:
  assumes "built q" shows "qb_clone q = Inr q"
  using built_ok [OF assms] by (simp add: clone_eq qb_ok_def)

theorem clone_is_same_builder_witness: "built ex_qb \<and> qb_clone ex_qb = Inr ex_qb"
  using clone_is_same_builder [OF ex_qb_built] ex_qb_built by blast

text \<open>
  \<open>having\<close> accepts the operators \<open>IS NULL\<close> and \<open>IS NOT NULL\<close> and renders a
  parameter after them, which is not SQL.
\<close>

lemma having_is_null_renders_parameter:
  "\<exists>q st. having ''total'' ''IS NULL'' Null (projr (qb_from ''t'')) = Inr q \<and> toSelect q = Inr st \<and>
     sql st = ''SELECT * FROM t HAVING total IS NULL ?1''"
  by (rule exI [of _ "projr (having ''total'' ''IS NULL'' Null (projr (qb_from ''t'')))"],
      rule exI [of _ "stmt ''SELECT * FROM t HAVING total IS NULL ?1'' [Null]"]) code_simp

end
