(* ===== verification/SchemaBuilder.thy ===== *)
theory SchemaBuilder
  imports SqlParams
begin

text \<open>
  \<open>packages/core/src/db/schema-builder.ts\<close>: \<open>TableBuilder\<close> (a list of column
  definitions and the methods that append to it or change its last element) and
  \<open>SchemaBuilder\<close> (CREATE TABLE and index statements). The properties: a default value is a
  well-formed SQL literal that denotes the value, and uniqueness takes exactly one of its two
  forms, by the presence of \<open>deleted_at\<close>.
\<close>

section \<open>TableBuilder\<close>

record column_def =
  c_name :: string
  c_type :: string
  c_nullable :: bool
  c_primaryKey :: bool
  c_autoIncrement :: bool
  c_unique :: bool
  c_indexed :: bool
  c_default :: "string option"

type_synonym table_builder = "column_def list"

definition push_column :: "string \<Rightarrow> string \<Rightarrow> string \<Rightarrow> bool \<Rightarrow> bool \<Rightarrow> table_builder \<Rightarrow> table_builder res" where
  "push_column name type ctx pk auto b = bindR (sanitizeIdentifier name ctx) (\<lambda>n.
     Inr (b @ [\<lparr>c_name = n, c_type = type, c_nullable = False, c_primaryKey = pk,
       c_autoIncrement = auto, c_unique = False, c_indexed = False, c_default = None\<rparr>]))"

definition tb_increments :: "string \<Rightarrow> table_builder \<Rightarrow> table_builder res" where
  "tb_increments name = push_column name ''INTEGER'' ''TableBuilder.increments'' True True"

definition tb_uuid :: "string \<Rightarrow> table_builder \<Rightarrow> table_builder res" where
  "tb_uuid name = push_column name ''TEXT'' ''TableBuilder.uuid'' True False"

definition addColumn :: "string \<Rightarrow> string \<Rightarrow> string \<Rightarrow> table_builder \<Rightarrow> table_builder res" where
  "addColumn name type context = push_column name type (''TableBuilder.'' @ context) False False"

definition tb_text :: "string \<Rightarrow> table_builder \<Rightarrow> table_builder res" where
  "tb_text name = addColumn name ''TEXT'' ''text''"
definition tb_integer :: "string \<Rightarrow> table_builder \<Rightarrow> table_builder res" where
  "tb_integer name = addColumn name ''INTEGER'' ''integer''"
definition tb_real :: "string \<Rightarrow> table_builder \<Rightarrow> table_builder res" where
  "tb_real name = addColumn name ''REAL'' ''real''"
definition tb_boolean :: "string \<Rightarrow> table_builder \<Rightarrow> table_builder res" where
  "tb_boolean name = addColumn name ''INTEGER'' ''boolean''"
definition tb_timestamp :: "string \<Rightarrow> table_builder \<Rightarrow> table_builder res" where
  "tb_timestamp name = addColumn name ''TEXT'' ''timestamp''"
definition tb_json :: "string \<Rightarrow> table_builder \<Rightarrow> table_builder res" where
  "tb_json name = addColumn name ''TEXT'' ''json''"
definition tb_decimal :: "string \<Rightarrow> table_builder \<Rightarrow> table_builder res" where
  "tb_decimal name = tb_real name"
definition tb_date :: "string \<Rightarrow> table_builder \<Rightarrow> table_builder res" where
  "tb_date name = addColumn name ''TEXT'' ''date''"
definition tb_time :: "string \<Rightarrow> table_builder \<Rightarrow> table_builder res" where
  "tb_time name = addColumn name ''TEXT'' ''time''"

text \<open>The methods that change the most recently added column, if there is one.\<close>

definition update_last :: "(column_def \<Rightarrow> column_def) \<Rightarrow> table_builder \<Rightarrow> table_builder" where
  "update_last f b = (if b = [] then [] else butlast b @ [f (last b)])"

definition tb_nullable :: "table_builder \<Rightarrow> table_builder" where
  "tb_nullable = update_last (\<lambda>c. c\<lparr>c_nullable := True\<rparr>)"
definition tb_unique :: "table_builder \<Rightarrow> table_builder" where
  "tb_unique = update_last (\<lambda>c. c\<lparr>c_unique := True\<rparr>)"
definition tb_index :: "table_builder \<Rightarrow> table_builder" where
  "tb_index = update_last (\<lambda>c. c\<lparr>c_indexed := True\<rparr>)"

text \<open>The SQL quote character, and \<open>'${value.replace(/'/g, "''")}'\<close>.\<close>

definition sq :: char where "sq = char_of (39::nat)"

definition escape_quotes :: "string \<Rightarrow> string" where
  "escape_quotes s = concat (map (\<lambda>c. if c = sq then [sq, sq] else [c]) s)"

definition default_literal :: "jsnum + string \<Rightarrow> string" where
  "default_literal value = (case value of
     Inl n \<Rightarrow> num_to_string n
   | Inr s \<Rightarrow> [sq] @ escape_quotes s @ [sq])"

definition tb_default :: "jsnum + string \<Rightarrow> table_builder \<Rightarrow> table_builder" where
  "tb_default value = update_last (\<lambda>c. c\<lparr>c_default := Some (default_literal value)\<rparr>)"

definition tb_defaultRaw :: "string \<Rightarrow> table_builder \<Rightarrow> table_builder" where
  "tb_defaultRaw value = update_last (\<lambda>c. c\<lparr>c_default := Some value\<rparr>)"

section \<open>SchemaBuilder\<close>

definition dq :: string where "dq = [char_of (34::nat)]"

definition soft_deletable :: "column_def list \<Rightarrow> bool" where
  "soft_deletable columns = list_ex (\<lambda>c. c_name c = ''deleted_at'') columns"

definition column_parts :: "bool \<Rightarrow> column_def \<Rightarrow> string list" where
  "column_parts softDeletable col =
     [dq @ c_name col @ dq, c_type col]
     @ (if \<not> c_nullable col then [''NOT NULL''] else [])
     @ (if c_primaryKey col \<and> c_autoIncrement col then [''PRIMARY KEY AUTOINCREMENT'']
        else if c_primaryKey col then [''PRIMARY KEY''] else [])
     @ (if c_unique col \<and> \<not> softDeletable then [''UNIQUE''] else [])
     @ (case c_default col of Some d \<Rightarrow> [''DEFAULT '' @ d] | None \<Rightarrow> [])"

definition column_sql :: "bool \<Rightarrow> column_def \<Rightarrow> string res" where
  "column_sql softDeletable col = bindR (sanitizeIdentifier (c_name col) ''SchemaBuilder.createTable'')
     (\<lambda>_. Inr (join_with '' '' (column_parts softDeletable col)))"

definition index_sql :: "string \<Rightarrow> column_def \<Rightarrow> sql_stmt" where
  "index_sql table col = stmt (''CREATE INDEX IF NOT EXISTS idx_'' @ table @ ''_'' @ c_name col @
     '' ON '' @ table @ '' ('' @ c_name col @ '')'') []"

definition unique_index_sql :: "string \<Rightarrow> column_def \<Rightarrow> sql_stmt" where
  "unique_index_sql table col = stmt (''CREATE UNIQUE INDEX IF NOT EXISTS '' @ dq @ ''uidx_'' @ table @ ''_'' @
     c_name col @ dq @ '' ON '' @ dq @ table @ dq @ '' ('' @ dq @ c_name col @ dq @ '') WHERE '' @
     dq @ ''deleted_at'' @ dq @ '' IS NULL'') []"

definition column_indexes :: "string \<Rightarrow> bool \<Rightarrow> column_def \<Rightarrow> sql_stmt list" where
  "column_indexes table softDeletable col =
     (if c_indexed col then [index_sql table col] else [])
     @ (if c_unique col \<and> softDeletable then [unique_index_sql table col] else [])"

definition composite_index :: "string \<Rightarrow> string list \<Rightarrow> sql_stmt list res" where
  "composite_index table columns =
     (if length columns < 2 then Inr []
      else bindR (mapR (\<lambda>c. sanitizeIdentifier c ''SchemaBuilder.composite.col'') columns) (\<lambda>cs.
        Inr [stmt (''CREATE INDEX IF NOT EXISTS idx_'' @ table @ ''_'' @ join_with ''_'' cs @ '' ON '' @ table @
                   '' ('' @ join_with '', '' cs @ '')'') []]))"

definition createTable ::
  "string \<Rightarrow> (table_builder \<Rightarrow> table_builder res) \<Rightarrow> string list list \<Rightarrow> sql_stmt list res" where
  "createTable tableName callback composites =
     bindR (sanitizeIdentifier tableName ''SchemaBuilder.createTable'') (\<lambda>table.
     bindR (callback []) (\<lambda>columns.
       if columns = [] then throw (''Cannot create table \"'' @ tableName @ ''\": no columns defined'')
       else let soft = soft_deletable columns in
         bindR (mapR (column_sql soft) columns) (\<lambda>defs.
         bindR (mapR (composite_index table) composites) (\<lambda>comps.
           Inr (stmt (''CREATE TABLE IF NOT EXISTS '' @ table @ '' ('' @ join_with '', '' defs @ '')'') []
                # concat (map (column_indexes table soft) columns) @ concat comps)))))"

definition junction_columns :: "table_builder \<Rightarrow> table_builder res" where
  "junction_columns b = bindR (tb_uuid ''id'' b) (\<lambda>b. bindR (tb_text ''source_id'' b) (\<lambda>b.
     bindR (tb_text ''target_id'' b) (\<lambda>b. bindR (tb_timestamp ''created_at'' b) (\<lambda>b.
       Inr (tb_defaultRaw ''CURRENT_TIMESTAMP'' b)))))"

definition createJunctionTable :: "string \<Rightarrow> string \<Rightarrow> (string \<times> sql_stmt list) res" where
  "createJunctionTable sourceTable targetTable =
     bindR (sanitizeIdentifier sourceTable ''SchemaBuilder.junction.source'') (\<lambda>source.
     bindR (sanitizeIdentifier targetTable ''SchemaBuilder.junction.target'') (\<lambda>target.
     let jt = ''_jt_'' @ source @ ''_'' @ target in
     bindR (createTable jt junction_columns []) (\<lambda>create.
       Inr (jt, create @
         [stmt (''CREATE INDEX IF NOT EXISTS idx_'' @ jt @ ''_source ON '' @ jt @ '' (source_id)'') [],
          stmt (''CREATE INDEX IF NOT EXISTS idx_'' @ jt @ ''_target ON '' @ jt @ '' (target_id)'') [],
          stmt (''CREATE UNIQUE INDEX IF NOT EXISTS idx_'' @ jt @ ''_pair ON '' @ jt @ '' (source_id, target_id)'') []]))))"

section \<open>Literals\<close>

text \<open>SQLite's reading of a string literal: after the opening quote, two quotes are one.\<close>

fun read_literal_body :: "string \<Rightarrow> (string \<times> string) option" where
  "read_literal_body [] = None"
| "read_literal_body [c] = (if c = sq then Some ([], []) else None)"
| "read_literal_body (c # d # s) =
     (if c = sq then (if d = sq then map_option (\<lambda>(v, r). (sq # v, r)) (read_literal_body s) else Some ([], d # s))
      else map_option (\<lambda>(v, r). (c # v, r)) (read_literal_body (d # s)))"

definition read_literal :: "string \<Rightarrow> (string \<times> string) option" where
  "read_literal s = (case s of c # t \<Rightarrow> if c = sq then read_literal_body t else None | [] \<Rightarrow> None)"

lemma read_escaped:
  "rest = [] \<or> hd rest \<noteq> sq \<Longrightarrow> read_literal_body (escape_quotes s @ sq # rest) = Some (s, rest)"
proof (induction s)
  case Nil then show ?case by (cases rest) (auto simp: escape_quotes_def)
next
  case (Cons c s)
  have esc: "escape_quotes (x # s) = (if x = sq then [sq, sq] else [x]) @ escape_quotes s" for x
    by (simp add: escape_quotes_def)
  obtain d t where dt: "escape_quotes s @ sq # rest = d # t" by (cases "escape_quotes s") auto
  show ?case
  proof (cases "c = sq")
    case True then show ?thesis using Cons by (simp add: esc)
  next
    case False then show ?thesis using Cons dt by (simp add: esc)
  qed
qed

text \<open>
  A text default is emitted as one well-formed SQL string literal that denotes exactly that
  text, whatever quotes it holds, so nothing of it is read as SQL.
\<close>

theorem default_literal_round_trip:
  assumes "rest = [] \<or> hd rest \<noteq> sq"
  shows "read_literal (default_literal (Inr v) @ rest) = Some (v, rest)"
  using read_escaped [OF assms] by (simp add: read_literal_def default_literal_def)

theorem default_literal_round_trip_witness:
  "read_literal (default_literal (Inr [CHR ''O'', sq, CHR ''x'']) @ '' NOT NULL'') = Some ([CHR ''O'', sq, CHR ''x''], '' NOT NULL'')"
proof -
  have "hd '' NOT NULL'' \<noteq> sq" by code_simp
  then show ?thesis by (intro default_literal_round_trip) simp
qed

text \<open>
  In every CREATE TABLE batch each unique column is enforced in exactly one way: with a
  \<open>deleted_at\<close> column by the partial index on live rows and by no inline constraint, without
  one by the inline constraint and by no partial index.
\<close>

theorem uniqueness_has_one_form:
  assumes "createTable name callback composites = Inr (create # indexes)" and "callback [] = Inr columns"
    and "c \<in> set columns" and "c_unique c" and "c_type c \<noteq> ''UNIQUE''"
  shows "(unique_index_sql name c \<in> set indexes \<longleftrightarrow> soft_deletable columns) \<and>
    (''UNIQUE'' \<in> set (column_parts (soft_deletable columns) c) \<longleftrightarrow> \<not> soft_deletable columns)"
proof -
  have name: "IDENTIFIER_RE name" using assms(1) by (auto simp: createTable_def bindR_Inr_iff sanitize_Inr_iff)
  obtain comps where comps: "mapR (composite_index name) composites = Inr comps"
    and ix: "indexes = concat (map (column_indexes name (soft_deletable columns)) columns) @ concat comps"
    using assms(1,2) name by (auto simp: createTable_def bindR_Inr_iff Let_def split: if_splits)
  have quoted: "''UNIQUE'' \<noteq> dq @ n" "dq @ n \<noteq> ''UNIQUE''" for n by (simp_all add: dq_def) code_simp+
  have ne: "unique_index_sql name c \<noteq> index_sql name d" for d
    by (simp add: index_sql_def unique_index_sql_def)
  have "unique_index_sql name c \<notin> set xs" if "xs \<in> set comps" for xs
    by (rule mapR_all [OF comps _ that])
      (auto simp: composite_index_def bindR_Inr_iff unique_index_sql_def split: if_splits)
  moreover have "unique_index_sql name c \<notin> set (column_indexes name False d)" for d
    using ne by (auto simp: column_indexes_def)
  moreover have "''UNIQUE'' \<notin> set (column_parts True c)"
    using quoted assms(5) by (auto simp: column_parts_def split: option.splits)
  moreover have "unique_index_sql name c \<in> set (column_indexes name True c)"
    "''UNIQUE'' \<in> set (column_parts False c)"
    using assms(4) by (simp_all add: column_indexes_def column_parts_def)
  ultimately show ?thesis using assms(3) ix by (cases "soft_deletable columns") auto
qed

theorem uniqueness_has_one_form_witness:
  "\<exists>create indexes columns c. createTable ''t'' (\<lambda>b. bindR (tb_text ''sku'' b) (\<lambda>b. tb_timestamp ''deleted_at'' (tb_unique b))) []
       = Inr (create # indexes) \<and> c \<in> set columns \<and> c_unique c \<and> unique_index_sql ''t'' c \<in> set indexes"
proof -
  let ?cb = "\<lambda>b. bindR (tb_text ''sku'' b) (\<lambda>b. tb_timestamp ''deleted_at'' (tb_unique b))"
  let ?cols = "projr (?cb [])"
  let ?r = "projr (createTable ''t'' ?cb [])"
  have 1: "createTable ''t'' ?cb [] = Inr (hd ?r # tl ?r)" by code_simp
  have 2: "?cb [] = Inr ?cols" by code_simp
  have 3: "hd ?cols \<in> set ?cols" "c_unique (hd ?cols)" "c_type (hd ?cols) \<noteq> ''UNIQUE''" "soft_deletable ?cols"
    by code_simp+
  have "unique_index_sql ''t'' (hd ?cols) \<in> set (tl ?r)"
    using uniqueness_has_one_form [OF 1 2 3(1-3)] 3(4) by simp
  then show ?thesis using 1 3 by blast
qed

end
