(* ===== verification/CacheLayer.thy ===== *)
theory CacheLayer
  imports JsValue "HOL-Library.Word"
begin

text \<open>
  \<open>packages/core/src/cache\<close>: the tag-indexed cache of \<open>cache-layer.ts\<close> (a store and a
  reverse index from tags to keys, both insertion-ordered maps) and the response cache of
  \<open>response-cache.ts\<close> on top of it. \<open>Date.now()\<close> is an argument of every operation that
  reads the clock. The lemmas show that the reverse index always agrees with the store, that
  the store never exceeds its limit, and what each invalidation removes and keeps.
\<close>

section \<open>State\<close>

record centry =
  e_data :: jsval
  e_ts :: int
  e_ttl :: int
  e_tags :: "string list option"

record cache_layer =
  c_store :: "(string, centry) amap"
  c_tags :: "(string, string list) amap"

definition cache_empty :: cache_layer where
  "cache_empty = \<lparr>c_store = [], c_tags = []\<rparr>"

definition MAX_SIZE :: nat where "MAX_SIZE = 10000"
definition DEFAULT_TTL :: int where "DEFAULT_TTL = 60000"

definition expired :: "int \<Rightarrow> centry \<Rightarrow> bool" where
  "expired now e \<longleftrightarrow> now - e_ts e > e_ttl e"

definition entry_tags :: "centry \<Rightarrow> string list" where
  "entry_tags e = (case e_tags e of Some ts \<Rightarrow> ts | None \<Rightarrow> [])"

section \<open>Core operations\<close>

text \<open>Unregistering a key from one tag: an empty set of keys is dropped.\<close>

definition untag :: "string \<Rightarrow> string \<Rightarrow> (string, string list) amap \<Rightarrow> (string, string list) amap" where
  "untag key tag tags = (case amap_get tags tag of
     None \<Rightarrow> tags
   | Some keys \<Rightarrow> let keys' = removeAll key keys
                  in if keys' = [] then amap_del tag tags else amap_set tag keys' tags)"

definition cache_delete :: "string \<Rightarrow> cache_layer \<Rightarrow> bool \<times> cache_layer" where
  "cache_delete key c = (case amap_get (c_store c) key of
     None \<Rightarrow> (False, c)
   | Some e \<Rightarrow> (True, \<lparr>c_store = amap_del key (c_store c),
                      c_tags = fold (untag key) (entry_tags e) (c_tags c)\<rparr>))"

abbreviation delete_key :: "string \<Rightarrow> cache_layer \<Rightarrow> cache_layer" where
  "delete_key key c \<equiv> snd (cache_delete key c)"

definition cache_get :: "int \<Rightarrow> string \<Rightarrow> cache_layer \<Rightarrow> jsval option \<times> cache_layer" where
  "cache_get now key c = (case amap_get (c_store c) key of
     None \<Rightarrow> (None, c)
   | Some e \<Rightarrow> if expired now e then (None, delete_key key c) else (Some (e_data e), c))"

definition cache_has :: "int \<Rightarrow> string \<Rightarrow> cache_layer \<Rightarrow> bool \<times> cache_layer" where
  "cache_has now key c = (case amap_get (c_store c) key of
     None \<Rightarrow> (False, c)
   | Some e \<Rightarrow> if expired now e then (False, delete_key key c) else (True, c))"

definition evict_expired :: "int \<Rightarrow> cache_layer \<Rightarrow> cache_layer" where
  "evict_expired now c = fold (\<lambda>(k, e) c. if expired now e then delete_key k c else c) (c_store c) c"

definition enforceSize :: "int \<Rightarrow> cache_layer \<Rightarrow> cache_layer" where
  "enforceSize now c =
     (if length (c_store c) < MAX_SIZE then c
      else let c' = evict_expired now c
           in if length (c_store c') < MAX_SIZE then c'
              else (case c_store c' of [] \<Rightarrow> c' | (k, _) # _ \<Rightarrow> delete_key k c'))"

text \<open>Registering a key under one tag.\<close>

definition add_tag :: "string \<Rightarrow> string \<Rightarrow> (string, string list) amap \<Rightarrow> (string, string list) amap" where
  "add_tag key tag tags = (case amap_get tags tag of
     None \<Rightarrow> amap_set tag [key] tags
   | Some keys \<Rightarrow> amap_set tag (oset_add key keys) tags)"

definition cache_set ::
  "int \<Rightarrow> string \<Rightarrow> jsval \<Rightarrow> int option \<Rightarrow> string list option \<Rightarrow> cache_layer \<Rightarrow> cache_layer" where
  "cache_set now key data ttl tags c =
     (let c1 = (if amap_has key (c_store c) then delete_key key c else c);
          c2 = enforceSize now c1;
          unique = (case tags of Some ts \<Rightarrow> if length ts > 0 then Some (uniq ts) else None | None \<Rightarrow> None);
          e = \<lparr>e_data = data, e_ts = now,
               e_ttl = (case ttl of Some t \<Rightarrow> t | None \<Rightarrow> DEFAULT_TTL), e_tags = unique\<rparr>
      in \<lparr>c_store = amap_set key e (c_store c2),
          c_tags = fold (add_tag key) (entry_tags e) (c_tags c2)\<rparr>)"

definition cache_clear :: "cache_layer \<Rightarrow> cache_layer" where
  "cache_clear c = \<lparr>c_store = [], c_tags = []\<rparr>"

section \<open>Invalidation\<close>

text \<open>
  The regular expression \<open>invalidatePattern\<close> builds: every character stands for itself
  except \<open>*\<close>, which becomes \<open>.*\<close> (any characters but line ends).
\<close>

definition line_end :: "char \<Rightarrow> bool" where
  "line_end c \<longleftrightarrow> char_code c = 10 \<or> char_code c = 13"

fun glob :: "string \<Rightarrow> string \<Rightarrow> bool" where
  "glob [] s = (s = [])"
| "glob (p # ps) [] = (p = CHR ''*'' \<and> glob ps [])"
| "glob (p # ps) (c # s) =
     (if p = CHR ''*'' then glob ps (c # s) \<or> (\<not> line_end c \<and> glob (p # ps) s)
      else p = c \<and> glob ps s)"

definition invalidatePattern :: "string \<Rightarrow> cache_layer \<Rightarrow> cache_layer" where
  "invalidatePattern pattern c =
     fold (\<lambda>k c. if glob pattern k then delete_key k c else c) (amap_keys (c_store c)) c"

definition invalidateTag :: "string \<Rightarrow> cache_layer \<Rightarrow> cache_layer" where
  "invalidateTag tag c = (case amap_get (c_tags c) tag of
     None \<Rightarrow> c\<lparr>c_tags := amap_del tag (c_tags c)\<rparr>
   | Some keys \<Rightarrow>
       (if keys = [] then c\<lparr>c_tags := amap_del tag (c_tags c)\<rparr>
        else let c' = fold delete_key keys c in c'\<lparr>c_tags := amap_del tag (c_tags c')\<rparr>))"

definition readDependencyTag :: "string \<Rightarrow> string" where
  "readDependencyTag collection = ''readdep:'' @ collection"

definition invalidateCollection :: "string \<Rightarrow> cache_layer \<Rightarrow> cache_layer" where
  "invalidateCollection slug c =
     invalidateTag (readDependencyTag slug)
     (invalidatePattern (''readc:'' @ slug @ '':*'')
     (invalidatePattern (''report:'' @ slug @ '':*'')
     (invalidatePattern (''perm:*:'' @ slug @ '':*'')
     (delete_key ''schemas:summaries''
     (delete_key ''schemas:all''
     (delete_key (''schema:'' @ slug @ '':raw'')
     (delete_key (''schema:'' @ slug) c)))))))"

definition invalidatePermission :: "string \<Rightarrow> string option \<Rightarrow> cache_layer \<Rightarrow> cache_layer" where
  "invalidatePermission roleId collectionSlug c =
     invalidatePattern (case collectionSlug of
       Some s \<Rightarrow> if s \<noteq> [] then ''perm:'' @ roleId @ '':'' @ s @ '':*'' else ''perm:'' @ roleId @ '':*''
     | None \<Rightarrow> ''perm:'' @ roleId @ '':*'') c"

definition getStats :: "int \<Rightarrow> cache_layer \<Rightarrow> nat \<times> (string \<times> int \<times> int) list" where
  "getStats now c = (length (c_store c), map (\<lambda>(k, e). (k, now - e_ts e, e_ttl e)) (c_store c))"

section \<open>Response cache\<close>

text \<open>FNV-1a over the character codes, in 32-bit arithmetic, written in base 36.\<close>

definition fnv_step :: "32 word \<Rightarrow> char \<Rightarrow> 32 word" where
  "fnv_step h c = xor h (word_of_nat (char_code c)) * 16777619"

definition fnv_hash :: "string \<Rightarrow> 32 word" where
  "fnv_hash s = foldl fnv_step 2166136261 s"

definition base36_char :: "int \<Rightarrow> char" where
  "base36_char n = (if n < 10 then char_of (48 + nat n) else char_of (87 + nat n))"

function show36 :: "int \<Rightarrow> string" where
  "show36 n = (if n < 36 then [base36_char n] else show36 (n div 36) @ [base36_char (n mod 36)])"
  by auto
termination by (relation "measure nat") (auto simp: div_less_dividend)

declare show36.simps [simp del]

definition fnv1a :: "string \<Rightarrow> string" where
  "fnv1a s = show36 (uint (fnv_hash s))"

definition readCacheKey :: "string \<Rightarrow> string \<Rightarrow> string \<Rightarrow> string" where
  "readCacheKey collection authFp canonUrl = ''readc:'' @ collection @ '':'' @ authFp @ '':'' @ fnv1a canonUrl"

definition readCached :: "int \<Rightarrow> string \<Rightarrow> cache_layer \<Rightarrow> jsval option \<times> cache_layer" where
  "readCached = cache_get"

definition storeCached :: "int \<Rightarrow> string \<Rightarrow> jsval \<Rightarrow> int \<Rightarrow> string list \<Rightarrow> cache_layer \<Rightarrow> cache_layer" where
  "storeCached now key data ttlMs dependsOn c =
     cache_set now key data (Some ttlMs)
       (if length dependsOn > 0 then Some (map readDependencyTag dependsOn) else None) c"

text \<open>The drop itself, and the notification the registered observer gets.\<close>

definition invalidateCollectionReads ::
  "string \<Rightarrow> string option \<Rightarrow> cache_layer \<Rightarrow> cache_layer \<times> (string \<times> string option)" where
  "invalidateCollectionReads collection ident c =
     (invalidateTag (readDependencyTag collection) (invalidatePattern (''readc:'' @ collection @ '':*'') c),
      (collection, ident))"

section \<open>The reverse index agrees with the store\<close>

definition tag_keys :: "cache_layer \<Rightarrow> string \<Rightarrow> string set" where
  "tag_keys c t = (case amap_get (c_tags c) t of Some ks \<Rightarrow> set ks | None \<Rightarrow> {})"

definition carries :: "cache_layer \<Rightarrow> string \<Rightarrow> string \<Rightarrow> bool" where
  "carries c k t \<longleftrightarrow> (\<exists>e. amap_get (c_store c) k = Some e \<and> t \<in> set (entry_tags e))"

definition cache_ok :: "cache_layer \<Rightarrow> bool" where
  "cache_ok c \<longleftrightarrow> amap_ok (c_store c) \<and> length (c_store c) \<le> MAX_SIZE \<and>
     (\<forall>t k. k \<in> tag_keys c t \<longleftrightarrow> carries c k t) \<and> (\<forall>t. amap_get (c_tags c) t \<noteq> Some [])"

lemma untag_lookup:
  "map_of (untag k t m) u = (if u = t then (case map_of m t of None \<Rightarrow> None
     | Some ks \<Rightarrow> if removeAll k ks = [] then None else Some (removeAll k ks)) else map_of m u)"
  by (auto simp: untag_def Let_def split: option.splits)

lemma removeAll_Nil_iff: "removeAll k xs = [] \<longleftrightarrow> set xs \<subseteq> {k}"
  by (induction xs) auto

lemma fold_untag_lookup:
  "map_of (fold (untag k) ts m) u = (if u \<in> set ts then (case map_of m u of None \<Rightarrow> None
     | Some ks \<Rightarrow> if removeAll k ks = [] then None else Some (removeAll k ks)) else map_of m u)"
  by (induction ts arbitrary: m) (auto simp: untag_lookup removeAll_filter_not_eq split: option.splits)

lemma delete_store [simp]: "map_of (c_store (delete_key k c)) = (map_of (c_store c))(k := None)"
  by (auto simp: cache_delete_def split: option.splits)

lemma delete_store_length: "length (c_store (delete_key k c)) \<le> length (c_store c)"
  using amap_del_length [of k "c_store c"] by (auto simp: cache_delete_def split: option.splits)

lemma delete_ok: 
  assumes "cache_ok c" shows "cache_ok (delete_key k c)"
proof (cases "amap_get (c_store c) k")
  case None then show ?thesis using assms by (simp add: cache_delete_def)
next
  case (Some e)
  let ?c = "delete_key k c"
  have tags: "c_tags ?c = fold (untag k) (entry_tags e) (c_tags c)" using Some by (simp add: cache_delete_def)
  note ok = assms [unfolded cache_ok_def]
  have idx: "j \<in> tag_keys ?c t \<longleftrightarrow> carries ?c j t" for t j
  proof -
    have "j \<in> tag_keys c t \<longleftrightarrow> carries c j t" using ok by blast
    moreover have "k \<in> tag_keys c t \<Longrightarrow> t \<in> set (entry_tags e)" using ok Some by (auto simp: carries_def)
    ultimately show ?thesis
      by (auto simp: tag_keys_def tags fold_untag_lookup carries_def removeAll_Nil_iff split: option.splits if_splits)
  qed
  have "amap_get (c_tags ?c) t \<noteq> Some []" for t
    using ok by (auto simp: tags fold_untag_lookup split: option.splits if_splits)
  moreover have "amap_ok (c_store ?c)" using ok Some by (auto simp: cache_delete_def)
  ultimately show ?thesis using idx ok delete_store_length [of k c] by (auto simp: cache_ok_def)
qed

lemma evict_fold_ok:
  "cache_ok c \<Longrightarrow> cache_ok (fold (\<lambda>(k, e) c. if expired now e then delete_key k c else c) kes c)"
  by (induction kes arbitrary: c) (auto simp: delete_ok)

lemma evict_fold_length:
  "length (c_store (fold (\<lambda>(k, e) c. if expired now e then delete_key k c else c) kes c)) \<le> length (c_store c)"
proof (induction kes arbitrary: c)
  case (Cons ke kes)
  obtain k e where "ke = (k, e)" by fastforce
  then show ?case using Cons [of c] Cons [of "delete_key k c"] delete_store_length [of k c] by auto
qed simp

lemma delete_first_length:
  "c_store c = (k, e) # r \<Longrightarrow> amap_ok (c_store c) \<Longrightarrow> length (c_store (delete_key k c)) < length (c_store c)"
  by (simp add: cache_delete_def amap_del_def) (simp add: le_imp_less_Suc)

lemma enforceSize_ok: "cache_ok c \<Longrightarrow> cache_ok (enforceSize now c) \<and> length (c_store (enforceSize now c)) < MAX_SIZE"
proof -
  assume c: "cache_ok c"
  let ?e = "evict_expired now c"
  have e: "cache_ok ?e" using c by (simp add: evict_expired_def evict_fold_ok)
  show ?thesis
  proof (cases "length (c_store c) < MAX_SIZE \<or> length (c_store ?e) < MAX_SIZE")
    case True then show ?thesis using c e by (auto simp: enforceSize_def Let_def)
  next
    case False
    then obtain k v r where s: "c_store ?e = (k, v) # r"
      using MAX_SIZE_def by (cases "c_store ?e") auto
    then have "length (c_store (delete_key k ?e)) < length (c_store ?e)"
      using e by (intro delete_first_length) (auto simp: cache_ok_def)
    moreover have "length (c_store ?e) \<le> MAX_SIZE" using e by (simp add: cache_ok_def)
    ultimately show ?thesis using False s delete_ok [OF e] by (simp add: enforceSize_def Let_def)
  qed
qed

lemma add_tag_lookup:
  "map_of (add_tag k t m) u = (if u = t then Some (case map_of m t of None \<Rightarrow> [k] | Some ks \<Rightarrow> oset_add k ks) else map_of m u)"
  by (auto simp: add_tag_def split: option.splits)

lemma oset_add_again: "oset_add k (oset_add k ks) = oset_add k ks"
  by (simp add: oset_add_def)

lemma fold_add_tag_lookup:
  "map_of (fold (add_tag k) ts m) u =
     (if u \<in> set ts then Some (case map_of m u of None \<Rightarrow> [k] | Some ks \<Rightarrow> oset_add k ks) else map_of m u)"
  by (induction ts arbitrary: m) (auto simp: add_tag_lookup oset_add_def split: option.splits)

lemma evict_fold_lookup:
  "map_of (c_store (fold (\<lambda>(k, e) c. if expired now e then delete_key k c else c) kes c)) k =
     (if \<exists>e. (k, e) \<in> set kes \<and> expired now e then None else map_of (c_store c) k)"
  by (induction kes arbitrary: c) (auto split: if_splits)

lemma enforceSize_absent: "map_of (c_store c) k = None \<Longrightarrow> map_of (c_store (enforceSize now c)) k = None"
proof -
  assume k: "map_of (c_store c) k = None"
  then have "map_of (c_store (evict_expired now c)) k = None"
    by (simp add: evict_expired_def evict_fold_lookup)
  then show ?thesis using k by (auto simp: enforceSize_def Let_def split: list.splits)
qed

lemma set_ok: assumes "cache_ok c" shows "cache_ok (cache_set now k v ttl tags c)"
proof -
  define c1 where "c1 = (if amap_has k (c_store c) then delete_key k c else c)"
  define c2 where "c2 = enforceSize now c1"
  define e where "e = \<lparr>e_data = v, e_ts = now, e_ttl = (case ttl of Some t \<Rightarrow> t | None \<Rightarrow> DEFAULT_TTL),
     e_tags = (case tags of Some ts \<Rightarrow> if length ts > 0 then Some (uniq ts) else None | None \<Rightarrow> None)\<rparr>"
  let ?c = "\<lparr>c_store = amap_set k e (c_store c2), c_tags = fold (add_tag k) (entry_tags e) (c_tags c2)\<rparr>"
  have eq: "cache_set now k v ttl tags c = ?c"
    by (simp add: cache_set_def Let_def c1_def c2_def e_def)
  have c1: "cache_ok c1" using assms by (simp add: c1_def delete_ok)
  have fresh1: "map_of (c_store c1) k = None"
    by (cases "amap_has k (c_store c)") (simp_all add: c1_def amap_has_iff map_of_eq_None_iff [THEN iffD2])
  have c2: "cache_ok c2" "length (c_store c2) < MAX_SIZE" "map_of (c_store c2) k = None"
    using enforceSize_ok [OF c1] enforceSize_absent [OF fresh1] by (auto simp: c2_def)
  note ok2 = c2(1) [unfolded cache_ok_def]
  have nk: "k \<notin> tag_keys c2 t" for t using ok2 c2(3) by (auto simp: carries_def)
  have idx: "j \<in> tag_keys ?c t \<longleftrightarrow> carries ?c j t" for t j
  proof -
    have "j \<in> tag_keys c2 t \<longleftrightarrow> carries c2 j t" using ok2 by blast
    then show ?thesis using nk [of t]
      by (auto simp: tag_keys_def fold_add_tag_lookup carries_def split: option.splits if_splits)
  qed
  have "amap_get (c_tags ?c) t \<noteq> Some []" for t
    using ok2 by (auto simp: fold_add_tag_lookup oset_add_def split: option.splits)
  moreover have "length (c_store ?c) \<le> MAX_SIZE"
    using c2(2,3) by (simp add: amap_set_length)
  ultimately show ?thesis using idx ok2 by (auto simp: eq cache_ok_def)
qed

section \<open>What invalidation removes and keeps\<close>

lemma fold_delete_lookup:
  "map_of (c_store (fold delete_key ks c)) k = (if k \<in> set ks then None else map_of (c_store c) k)"
  by (induction ks arbitrary: c) auto

lemma fold_delete_ok: "cache_ok c \<Longrightarrow> cache_ok (fold delete_key ks c)"
  by (induction ks arbitrary: c) (auto intro: delete_ok)

lemma pattern_fold: 
  "map_of (c_store (fold (\<lambda>k c. if P k then delete_key k c else c) ks c)) k =
     (if k \<in> set ks \<and> P k then None else map_of (c_store c) k)"
  by (induction ks arbitrary: c) auto

lemma pattern_fold_ok: "cache_ok c \<Longrightarrow> cache_ok (fold (\<lambda>k c. if P k then delete_key k c else c) ks c)"
  by (induction ks arbitrary: c) (auto intro: delete_ok)

lemma invalidatePattern_lookup:
  "map_of (c_store (invalidatePattern p c)) k = (if glob p k then None else map_of (c_store c) k)"
  by (auto simp: invalidatePattern_def pattern_fold map_of_eq_None_iff)

lemma invalidatePattern_ok: "cache_ok c \<Longrightarrow> cache_ok (invalidatePattern p c)"
  by (simp add: invalidatePattern_def pattern_fold_ok)

lemma invalidateTag_lookup:
  assumes "cache_ok c"
  shows "map_of (c_store (invalidateTag t c)) k = (if carries c k t then None else map_of (c_store c) k)"
proof -
  have "k \<in> tag_keys c t \<longleftrightarrow> carries c k t" using assms by (simp add: cache_ok_def)
  then show ?thesis
    by (auto simp: invalidateTag_def Let_def fold_delete_lookup tag_keys_def split: option.splits)
qed

lemma carries_tags: "map_of (c_store c') = map_of (c_store c) \<Longrightarrow> carries c' k t = carries c k t"
  by (simp add: carries_def)

lemma drop_dead_tag_ok:
  assumes "cache_ok c" "\<And>k. \<not> carries c k t" shows "cache_ok (c\<lparr>c_tags := amap_del t (c_tags c)\<rparr>)"
proof -
  have "j \<in> tag_keys (c\<lparr>c_tags := amap_del t (c_tags c)\<rparr>) u \<longleftrightarrow> carries c j u" for u j
  proof -
    have "j \<in> tag_keys c u \<longleftrightarrow> carries c j u" using assms(1) by (simp add: cache_ok_def)
    then show ?thesis using assms(2) [of j] by (cases "u = t") (auto simp: tag_keys_def)
  qed
  then show ?thesis using assms(1) by (auto simp: cache_ok_def carries_def)
qed

lemma invalidateTag_ok: assumes "cache_ok c" shows "cache_ok (invalidateTag t c)"
proof (cases "amap_get (c_tags c) t")
  case None
  then have "tag_keys c t = {}" by (simp add: tag_keys_def)
  then have "\<not> carries c k t" for k using assms by (auto simp: cache_ok_def)
  then show ?thesis using None assms by (simp add: invalidateTag_def drop_dead_tag_ok)
next
  case (Some ks)
  let ?c = "fold delete_key ks c"
  have ok: "cache_ok ?c" using assms by (rule fold_delete_ok)
  have "tag_keys c t = set ks" using Some by (simp add: tag_keys_def)
  then have "carries c k t \<longleftrightarrow> k \<in> set ks" for k using assms by (auto simp: cache_ok_def)
  then have "\<not> carries ?c k t" for k by (auto simp: carries_def fold_delete_lookup)
  then have "cache_ok (?c\<lparr>c_tags := amap_del t (c_tags ?c)\<rparr>)" by (rule drop_dead_tag_ok [OF ok])
  moreover have "ks \<noteq> []" using Some assms by (auto simp: cache_ok_def)
  ultimately show ?thesis using Some by (simp add: invalidateTag_def Let_def)
qed

section \<open>Runs\<close>

datatype cache_op =
    OpGet string
  | OpHas string
  | OpSet string jsval "int option" "string list option"
  | OpDelete string
  | OpClear
  | OpPattern string
  | OpTag string
  | OpCollection string
  | OpPermission string "string option"

text \<open>One call at the clock reading \<open>now\<close>.\<close>

fun cache_step :: "int \<times> cache_op \<Rightarrow> cache_layer \<Rightarrow> cache_layer" where
  "cache_step (now, OpGet k) c = snd (cache_get now k c)"
| "cache_step (now, OpHas k) c = snd (cache_has now k c)"
| "cache_step (now, OpSet k v ttl ts) c = cache_set now k v ttl ts c"
| "cache_step (now, OpDelete k) c = delete_key k c"
| "cache_step (now, OpClear) c = cache_clear c"
| "cache_step (now, OpPattern p) c = invalidatePattern p c"
| "cache_step (now, OpTag t) c = invalidateTag t c"
| "cache_step (now, OpCollection s) c = invalidateCollection s c"
| "cache_step (now, OpPermission r s) c = invalidatePermission r s c"

lemma empty_ok [simp]: "cache_ok cache_empty"
  by (simp add: cache_ok_def cache_empty_def tag_keys_def carries_def)

lemma clear_ok [simp]: "cache_ok (cache_clear c)"
  by (simp add: cache_ok_def cache_clear_def tag_keys_def carries_def)

lemma step_ok: "cache_ok c \<Longrightarrow> cache_ok (cache_step x c)"
  by (cases "(x, c)" rule: cache_step.cases)
    (simp_all add: cache_get_def cache_has_def invalidateCollection_def invalidatePermission_def
      delete_ok set_ok invalidatePattern_ok invalidateTag_ok split: option.splits)

interpretation cache_run: step_invariant cache_step cache_ok
  by unfold_locales (rule step_ok)

section \<open>Keys of the response cache\<close>

lemma glob_star_suffix: "list_all (\<lambda>c. \<not> line_end c) s \<Longrightarrow> glob ''*'' s"
  by (induction s) auto

lemma glob_literal: "CHR ''*'' \<notin> set a \<Longrightarrow> glob (a @ p) (a @ s) = glob p s"
  by (induction a) auto

lemma show36_chars: "0 \<le> n \<Longrightarrow> list_all (\<lambda>c. \<not> line_end c) (show36 n)"
proof (induction n rule: show36.induct)
  case (1 n)
  have b: "\<not> line_end (base36_char k)" if "0 \<le> k" "k < 36" for k
    using that by (auto simp: line_end_def base36_char_def char_code_def)
  show ?case using 1 b [of n] b [of "n mod 36"] by (subst show36.simps) auto
qed

lemma read_key_matches:
  assumes "CHR ''*'' \<notin> set c" "list_all (\<lambda>x. \<not> line_end x) fp"
  shows "glob (''readc:'' @ c @ '':*'') (readCacheKey c fp url)"
proof -
  have colon: "\<not> line_end CHR '':''" by code_simp
  have "list_all (\<lambda>x. \<not> line_end x) (fp @ '':'' @ fnv1a url)"
    using assms(2) show36_chars colon by (simp add: fnv1a_def)
  then have "glob ''*'' (fp @ '':'' @ fnv1a url)" by (rule glob_star_suffix)
  then show ?thesis
    using glob_literal [of "''readc:'' @ c @ '':''" "''*''" "fp @ '':'' @ fnv1a url"] assms(1)
    by (simp add: readCacheKey_def)
qed

section \<open>Properties\<close>

text \<open>
  C22. Along every run of the cache, in any order of calls and at any clock readings, the reverse
  tag index agrees with the store (a key is registered under a tag exactly when its entry
  carries the tag, and no empty set of keys is left), and the store never holds more than
  \<open>MAX_SIZE\<close> entries.
\<close>

theorem cache_index_consistent:
  "cache_ok (fold cache_step calls cache_empty)"
  by (rule cache_run.run_keeps) simp

text \<open>
  \<open>invalidateTag\<close> removes exactly the entries that carry the tag and leaves every other
  entry as it was; \<open>invalidatePattern\<close> does the same for the keys its pattern matches.
\<close>

theorem invalidation_is_exact:
  assumes "cache_ok c"
  shows "map_of (c_store (invalidateTag t c)) k = (if carries c k t then None else map_of (c_store c) k) \<and>
    map_of (c_store (invalidatePattern p c)) k = (if glob p k then None else map_of (c_store c) k)"
  using invalidateTag_lookup [OF assms] invalidatePattern_lookup by blast

theorem invalidation_is_exact_witness:
  "\<exists>c. cache_ok c \<and> map_of (c_store (invalidateTag ''t'' c)) ''k'' = None \<and>
     map_of (c_store (invalidateTag ''t'' c)) ''other'' \<noteq> None"
proof -
  let ?c = "cache_set 5 ''other'' Null None None (cache_set 5 ''k'' Null None (Some [''t'']) cache_empty)"
  have ok: "cache_ok ?c" by (intro set_ok) simp
  have e: "map_of (c_store ?c) ''k'' = Some \<lparr>e_data = Null, e_ts = 5, e_ttl = DEFAULT_TTL, e_tags = Some [''t'']\<rparr>"
    "map_of (c_store ?c) ''other'' = Some \<lparr>e_data = Null, e_ts = 5, e_ttl = DEFAULT_TTL, e_tags = None\<rparr>" by code_simp+
  have "carries ?c ''k'' ''t''" "\<not> carries ?c ''other'' ''t''" "map_of (c_store ?c) ''other'' \<noteq> None"
    unfolding carries_def e by (simp_all add: entry_tags_def)
  then show ?thesis using ok invalidation_is_exact [OF ok, of "''t''"] by auto
qed



text \<open>
  A stored value is returned until its time to live has passed and not afterwards, whatever
  the cache held before (a full cache evicts another entry, never the new one).
\<close>

theorem cache_get_after_set:
  "fst (cache_get now' k (cache_set now k v (Some ttl) tags c)) = (if now' - now \<le> ttl then Some v else None)"
  by (auto simp: cache_get_def cache_set_def Let_def expired_def)

text \<open>
  The key of a cached read keeps only a 32-bit hash of the query, and nothing compares the
  query itself, so two different searches can share an entry: the second one is answered with
  the rows of the first.
\<close>

theorem colliding_queries_share_an_entry:
  "readCacheKey ''items'' ''u1'' ''?q=nwgotcy'' = readCacheKey ''items'' ''u1'' ''?q=hjdhepf'' \<and>
   fst (readCached 1 (readCacheKey ''items'' ''u1'' ''?q=hjdhepf'')
     (storeCached 0 (readCacheKey ''items'' ''u1'' ''?q=nwgotcy'') (Str ''first'') 60000 [] cache_empty)) = Some (Str ''first'')"
proof -
  have "fnv1a ''?q=nwgotcy'' = fnv1a ''?q=hjdhepf''" by code_simp
  then have k: "readCacheKey ''items'' ''u1'' ''?q=nwgotcy'' = readCacheKey ''items'' ''u1'' ''?q=hjdhepf''"
    by (simp add: readCacheKey_def)
  show ?thesis unfolding k by (simp add: readCached_def storeCached_def cache_get_def cache_set_def Let_def expired_def)
qed

end
