(* ===== verification/Locks.thy ===== *)
theory Locks
  imports JsValue
begin

text \<open>
  \<open>packages/locks/src\<close>: the lock table of a \<open>LockDO\<close> (\<open>do.ts\<close>) with its four requests,
  and the client side of \<open>service.ts\<close> and \<open>handle.ts\<close> (polling with backoff until a
  deadline, \<open>withLock\<close>). A Durable Object serves one request at a time, so a request is one
  atomic step at one clock reading. The step relation \<open>lock_sys_step\<close> interleaves requests of
  any clients with the passing of time; its invariant gives mutual exclusion of leases.
\<close>

section \<open>The lock table\<close>

record lock_row =
  l_owner :: string
  l_expires :: int

type_synonym lock_table = "(string, lock_row) amap"

datatype lock_response =
    Acquired string int bool bool       \<comment> \<open>owner, expiresAt, reentrant, stolen\<close>
  | NotAcquired string int              \<comment> \<open>holder, its expiry\<close>
  | Released bool
  | Renewed bool int
  | Status bool "string option" "int option"
  | UnknownPath string

definition lock_acquire :: "string \<Rightarrow> string \<Rightarrow> int \<Rightarrow> int \<Rightarrow> lock_table \<Rightarrow> (lock_response \<times> lock_table) res" where
  "lock_acquire name owner ttlMs now t =
     (if name = [] then throw ''lock name is required''
      else if owner = [] then throw ''lock owner is required''
      else let expiresAt = now + ttlMs
           in Inr (case amap_get t name of
                None \<Rightarrow> (Acquired owner expiresAt False False,
                         amap_set name \<lparr>l_owner = owner, l_expires = expiresAt\<rparr> t)
              | Some row \<Rightarrow>
                  if l_owner row = owner
                  then (Acquired owner expiresAt True False, amap_set name (row\<lparr>l_expires := expiresAt\<rparr>) t)
                  else if l_expires row \<le> now
                  then (Acquired owner expiresAt False True,
                        amap_set name \<lparr>l_owner = owner, l_expires = expiresAt\<rparr> t)
                  else (NotAcquired (l_owner row) (l_expires row), t)))"

definition lock_release :: "string \<Rightarrow> string \<Rightarrow> lock_table \<Rightarrow> lock_response \<times> lock_table" where
  "lock_release name owner t = (case amap_get t name of
     None \<Rightarrow> (Released False, t)
   | Some row \<Rightarrow> if l_owner row \<noteq> owner then (Released False, t) else (Released True, amap_del name t))"

definition lock_renew :: "string \<Rightarrow> string \<Rightarrow> int \<Rightarrow> int \<Rightarrow> lock_table \<Rightarrow> lock_response \<times> lock_table" where
  "lock_renew name owner ttlMs now t = (case amap_get t name of
     None \<Rightarrow> (Renewed False 0, t)
   | Some row \<Rightarrow> if l_owner row \<noteq> owner then (Renewed False 0, t)
                else (Renewed True (now + ttlMs), amap_set name (row\<lparr>l_expires := now + ttlMs\<rparr>) t))"

definition lock_status :: "string \<Rightarrow> int \<Rightarrow> lock_table \<Rightarrow> lock_response" where
  "lock_status name now t = (case amap_get t name of
     None \<Rightarrow> Status False None None
   | Some row \<Rightarrow> if l_expires row \<le> now then Status False None None
                else Status True (Some (l_owner row)) (Some (l_expires row)))"

text \<open>The request body and the dispatch of \<open>fetch\<close> (\<open>String(v ?? '')\<close>, at least 1 ms).\<close>

record lock_body =
  b_name :: jsval
  b_owner :: jsval
  b_ttlMs :: "int option"

definition text_or_empty :: "jsval \<Rightarrow> string" where
  "text_or_empty v = to_str (nullish_or v (Str []))"

definition body_ttl :: "lock_body \<Rightarrow> int" where
  "body_ttl b = max 1 (case b_ttlMs b of Some t \<Rightarrow> t | None \<Rightarrow> 60000)"

definition lock_fetch :: "string \<Rightarrow> lock_body \<Rightarrow> int \<Rightarrow> lock_table \<Rightarrow> (lock_response \<times> lock_table) res" where
  "lock_fetch path b now t =
     (if path = ''/acquire'' then lock_acquire (text_or_empty (b_name b)) (text_or_empty (b_owner b)) (body_ttl b) now t
      else if path = ''/release'' then Inr (lock_release (text_or_empty (b_name b)) (text_or_empty (b_owner b)) t)
      else if path = ''/renew'' then Inr (lock_renew (text_or_empty (b_name b)) (text_or_empty (b_owner b)) (body_ttl b) now t)
      else if path = ''/status'' then Inr (lock_status (text_or_empty (b_name b)) now t, t)
      else Inr (UnknownPath path, t))"

section \<open>The client\<close>

record lock_handle =
  h_name :: string
  h_owner :: string
  h_ttlMs :: int
  h_expiresAt :: int

text \<open>
  \<open>acquire\<close> polls the object. Each poll is the answer it got (whether acquired, and the expiry
  if the answer carries one) and the clock reading after it; a list of polls that ends while
  the loop still waits leaves the next sleep.
\<close>

datatype acquire_result = GotLock lock_handle | TimedOut | StillWaiting int

fun acquire_loop :: "string \<Rightarrow> string \<Rightarrow> int \<Rightarrow> int \<Rightarrow> int \<Rightarrow> ((bool \<times> int option) \<times> int) list \<Rightarrow> acquire_result" where
  "acquire_loop name owner ttlMs deadline backoff [] = StillWaiting backoff"
| "acquire_loop name owner ttlMs deadline backoff (((acquired, expiresAt), now) # polls) =
     (if acquired
      then GotLock \<lparr>h_name = name, h_owner = owner, h_ttlMs = ttlMs,
             h_expiresAt = (case expiresAt of Some e \<Rightarrow> e | None \<Rightarrow> now + ttlMs)\<rparr>
      else if now \<ge> deadline then TimedOut
      else acquire_loop name owner ttlMs deadline (min (backoff * 2) 1000) polls)"

record lock_options =
  o_ttlMs :: "int option"
  o_waitMs :: "int option"
  o_timeoutMs :: "int option"

definition opt_or :: "int option \<Rightarrow> int \<Rightarrow> int" where
  "opt_or x d = (case x of Some v \<Rightarrow> v | None \<Rightarrow> d)"

definition service_acquire ::
  "string \<Rightarrow> string \<Rightarrow> lock_options \<Rightarrow> int \<Rightarrow> ((bool \<times> int option) \<times> int) list \<Rightarrow> acquire_result" where
  "service_acquire name owner opts now polls =
     acquire_loop name owner (opt_or (o_ttlMs opts) 60000) (now + opt_or (o_timeoutMs opts) 30000)
       (opt_or (o_waitMs opts) 100) polls"

definition tryAcquire :: "string \<Rightarrow> string \<Rightarrow> int \<Rightarrow> int \<Rightarrow> ((bool \<times> int option) \<times> int) list \<Rightarrow> acquire_result" where
  "tryAcquire name owner ttlMs now polls =
     service_acquire name owner \<lparr>o_ttlMs = Some ttlMs, o_waitMs = None, o_timeoutMs = Some 0\<rparr> now polls"

definition LockTimeoutError :: "string \<Rightarrow> js_error" where
  "LockTimeoutError name = JsError ''LockTimeoutError'' (''could not acquire lock \"'' @ name @ ''\" within the timeout'')"

text \<open>What \<open>withLock\<close> returns, and the releases it issues: always one when it got the lock.\<close>

definition withLock :: "string \<Rightarrow> lock_handle option \<Rightarrow> 'a res \<Rightarrow> 'a res \<times> (string \<times> string) list" where
  "withLock name handle outcome = (case handle of
     None \<Rightarrow> (Inl (LockTimeoutError name), [])
   | Some h \<Rightarrow> (outcome, [(h_name h, h_owner h)]))"

definition tryWithLock :: "lock_handle option \<Rightarrow> 'a res \<Rightarrow> 'a option res \<times> (string \<times> string) list" where
  "tryWithLock handle outcome = (case handle of
     None \<Rightarrow> (Inr None, [])
   | Some h \<Rightarrow> (map_sum id Some outcome, [(h_name h, h_owner h)]))"

definition renew_interval :: "int \<Rightarrow> int" where
  "renew_interval ttlMs = max 1000 (ttlMs div 2)"

section \<open>Clients and time\<close>

text \<open>
  The whole system: the clock, the table, and the lease each client believes it holds on each
  name (the expiry of the last answer that granted or renewed it, until it asks for release).
\<close>

record lock_sys =
  s_now :: int
  s_table :: lock_table
  s_lease :: "string \<Rightarrow> string \<Rightarrow> int option"

definition set_lease :: "string \<Rightarrow> string \<Rightarrow> int option \<Rightarrow> lock_sys \<Rightarrow> lock_sys" where
  "set_lease name owner l s = s\<lparr>s_lease := (s_lease s)(name := (s_lease s name)(owner := l))\<rparr>"

inductive lock_sys_step :: "lock_sys \<Rightarrow> lock_sys \<Rightarrow> bool" where
  tick: "0 \<le> d \<Longrightarrow> lock_sys_step s (s\<lparr>s_now := s_now s + d\<rparr>)"
| granted: "lock_acquire n w ttl (s_now s) (s_table s) = Inr (Acquired w e re st, t) \<Longrightarrow>
    lock_sys_step s (set_lease n w (Some e) (s\<lparr>s_table := t\<rparr>))"
| refused: "lock_acquire n w ttl (s_now s) (s_table s) = Inr (NotAcquired h e, t) \<Longrightarrow>
    lock_sys_step s (s\<lparr>s_table := t\<rparr>)"
| renewed: "lock_renew n w ttl (s_now s) (s_table s) = (Renewed True e, t) \<Longrightarrow>
    lock_sys_step s (set_lease n w (Some e) (s\<lparr>s_table := t\<rparr>))"
| not_renewed: "lock_renew n w ttl (s_now s) (s_table s) = (Renewed False e, t) \<Longrightarrow>
    lock_sys_step s (s\<lparr>s_table := t\<rparr>)"
| released: "lock_release n w (s_table s) = (r, t) \<Longrightarrow>
    lock_sys_step s (set_lease n w None (s\<lparr>s_table := t\<rparr>))"

inductive_cases lock_sys_stepE: "lock_sys_step s s'"

inductive lock_reachable :: "lock_sys \<Rightarrow> bool" where
  start: "lock_reachable \<lparr>s_now = now, s_table = [], s_lease = \<lambda>n w. None\<rparr>"
| step: "lock_reachable s \<Longrightarrow> lock_sys_step s s' \<Longrightarrow> lock_reachable s'"

text \<open>A lease that is still running is the one recorded in the table.\<close>

definition leases_recorded :: "lock_sys \<Rightarrow> bool" where
  "leases_recorded s \<longleftrightarrow> (\<forall>n w e. s_lease s n w = Some e \<and> s_now s < e \<longrightarrow>
     (\<exists>row. amap_get (s_table s) n = Some row \<and> l_owner row = w \<and> l_expires row = e))"

lemma leases_recordedD:
  "leases_recorded s \<Longrightarrow> s_lease s n w = Some e \<Longrightarrow> s_now s < e \<Longrightarrow>
     \<exists>row. amap_get (s_table s) n = Some row \<and> l_owner row = w \<and> l_expires row = e"
  by (simp add: leases_recorded_def)

lemma row_update: "row\<lparr>l_expires := e\<rparr> = \<lparr>l_owner = l_owner row, l_expires = e\<rparr>"
  by (cases row) simp

lemma recorded_grant:
  assumes rec: "leases_recorded s"
    and free: "\<And>row. amap_get (s_table s) n = Some row \<Longrightarrow> l_owner row = w \<or> l_expires row \<le> s_now s"
  shows "leases_recorded (set_lease n w (Some e) (s\<lparr>s_table := amap_set n \<lparr>l_owner = w, l_expires = e\<rparr> (s_table s)\<rparr>))"
    (is "leases_recorded ?s")
  unfolding leases_recorded_def
proof (intro allI impI)
  fix n' w' e' assume a: "s_lease ?s n' w' = Some e' \<and> s_now ?s < e'"
  show "\<exists>row. amap_get (s_table ?s) n' = Some row \<and> l_owner row = w' \<and> l_expires row = e'"
  proof (cases "n' = n \<and> w' = w")
    case True then show ?thesis using a by (simp add: set_lease_def)
  next
    case False
    then have l: "s_lease s n' w' = Some e'" "s_now s < e'"
      using a by (auto simp: set_lease_def split: if_splits)
    then obtain row where row: "amap_get (s_table s) n' = Some row" "l_owner row = w'" "l_expires row = e'"
      using leases_recordedD [OF rec] by blast
    then have "n' \<noteq> n" using False free [of row] l(2) by auto
    then show ?thesis using row by (simp add: set_lease_def)
  qed
qed

lemma recorded_release:
  assumes rec: "leases_recorded s"
    and t: "t = s_table s \<or> (t = amap_del n (s_table s) \<and> (\<exists>row. amap_get (s_table s) n = Some row \<and> l_owner row = w))"
  shows "leases_recorded (set_lease n w None (s\<lparr>s_table := t\<rparr>))" (is "leases_recorded ?s")
  unfolding leases_recorded_def
proof (intro allI impI)
  fix n' w' e' assume a: "s_lease ?s n' w' = Some e' \<and> s_now ?s < e'"
  then have ne: "\<not> (n' = n \<and> w' = w)" by (auto simp: set_lease_def)
  then have l: "s_lease s n' w' = Some e'" "s_now s < e'" using a by (auto simp: set_lease_def split: if_splits)
  then obtain row where row: "amap_get (s_table s) n' = Some row" "l_owner row = w'" "l_expires row = e'"
    using leases_recordedD [OF rec] by blast
  show "\<exists>row. amap_get (s_table ?s) n' = Some row \<and> l_owner row = w' \<and> l_expires row = e'"
    using t
  proof
    assume "t = s_table s" then show ?thesis using row by (simp add: set_lease_def)
  next
    assume d: "t = amap_del n (s_table s) \<and> (\<exists>row. amap_get (s_table s) n = Some row \<and> l_owner row = w)"
    then have "n' \<noteq> n" using row ne by auto
    then show ?thesis using row d by (simp add: set_lease_def)
  qed
qed

lemma step_leases_recorded: "lock_sys_step s s' \<Longrightarrow> leases_recorded s \<Longrightarrow> leases_recorded s'"
proof (induction rule: lock_sys_step.induct)
  case (tick d s)
  then show ?case by (fastforce simp: leases_recorded_def)
next
  case (granted n w ttl s e re st t)
  then have "t = amap_set n \<lparr>l_owner = w, l_expires = e\<rparr> (s_table s)"
    and "\<And>row. amap_get (s_table s) n = Some row \<Longrightarrow> l_owner row = w \<or> l_expires row \<le> s_now s"
    by (auto simp: lock_acquire_def Let_def row_update split: if_splits option.splits)
  then show ?case using recorded_grant [OF granted.prems] by simp
next
  case (refused n w ttl s h e t)
  then have "t = s_table s" by (auto simp: lock_acquire_def Let_def split: if_splits option.splits)
  then show ?case using refused.prems by (simp add: leases_recorded_def)
next
  case (renewed n w ttl s e t)
  then have "t = amap_set n \<lparr>l_owner = w, l_expires = e\<rparr> (s_table s)"
    and "\<And>row. amap_get (s_table s) n = Some row \<Longrightarrow> l_owner row = w \<or> l_expires row \<le> s_now s"
    by (auto simp: lock_renew_def row_update split: if_splits option.splits)
  then show ?case using recorded_grant [OF renewed.prems] by simp
next
  case (not_renewed n w ttl s e t)
  then have "t = s_table s" by (auto simp: lock_renew_def split: if_splits option.splits)
  then show ?case using not_renewed.prems by (simp add: leases_recorded_def)
next
  case (released n w s r t)
  then have "t = s_table s \<or> (t = amap_del n (s_table s) \<and> (\<exists>row. amap_get (s_table s) n = Some row \<and> l_owner row = w))"
    by (auto simp: lock_release_def split: if_splits option.splits)
  then show ?case by (rule recorded_release [OF released.prems])
qed

lemma reachable_leases_recorded: "lock_reachable s \<Longrightarrow> leases_recorded s"
proof (induction rule: lock_reachable.induct)
  case (start now) then show ?case by (simp add: leases_recorded_def)
next
  case (step s s') then show ?case by (blast intro: step_leases_recorded)
qed

section \<open>The polling loop\<close>

lemma acquire_timed_out:
  "acquire_loop n w ttl deadline backoff polls = TimedOut \<Longrightarrow> \<exists>e now. ((False, e), now) \<in> set polls \<and> deadline \<le> now"
  by (induction n w ttl deadline backoff polls rule: acquire_loop.induct) (fastforce split: if_splits)+

lemma acquire_decides:
  "(r, now) \<in> set polls \<Longrightarrow> deadline \<le> now \<Longrightarrow> acquire_loop n w ttl deadline backoff polls \<noteq> StillWaiting b"
  by (induction n w ttl deadline backoff polls rule: acquire_loop.induct) auto

lemma acquire_backoff:
  "acquire_loop n w ttl deadline backoff polls = StillWaiting b \<Longrightarrow> 0 < backoff \<Longrightarrow> backoff \<le> 1000 \<Longrightarrow> 0 < b \<and> b \<le> 1000"
  by (induction n w ttl deadline backoff polls rule: acquire_loop.induct) (auto split: if_splits)

section \<open>Properties\<close>

text \<open>
  C3. Mutual exclusion: in every reachable state of the system, however the requests of the
  clients and the clock interleave, at most one client holds a lease on a name that has not yet
  expired.
\<close>

theorem lock_mutual_exclusion:
  assumes "lock_reachable s"
    and "s_lease s n w = Some e" and "s_now s < e"
    and "s_lease s n w' = Some e'" and "s_now s < e'"
  shows "w' = w \<and> e' = e"
proof -
  note rec = reachable_leases_recorded [OF assms(1)]
  from leases_recordedD [OF rec assms(2,3)] leases_recordedD [OF rec assms(4,5)] show ?thesis by auto
qed

definition ex_locked :: lock_sys where
  "ex_locked = set_lease ''sku-1'' ''a'' (Some 60) (\<lparr>s_now = 0,
     s_table = [(''sku-1'', \<lparr>l_owner = ''a'', l_expires = 60\<rparr>)], s_lease = \<lambda>n w. None\<rparr>)"

lemma ex_locked_reachable: "lock_reachable ex_locked"
proof -
  let ?s = "\<lparr>s_now = 0, s_table = [], s_lease = \<lambda>n w. None\<rparr> :: lock_sys"
  have "lock_acquire ''sku-1'' ''a'' 60 (s_now ?s) (s_table ?s) =
      Inr (Acquired ''a'' 60 False False, [(''sku-1'', \<lparr>l_owner = ''a'', l_expires = 60\<rparr>)])"
    by (simp add: lock_acquire_def Let_def)
  from lock_sys_step.granted [OF this] show ?thesis
    unfolding ex_locked_def by (auto intro: lock_reachable.intros)
qed

theorem lock_mutual_exclusion_witness:
  "lock_reachable ex_locked \<and> s_lease ex_locked ''sku-1'' ''a'' = Some 60 \<and>
   {w. s_lease ex_locked ''sku-1'' w = Some 60} = {''a''}"
proof -
  have l: "s_lease ex_locked ''sku-1'' ''a'' = Some 60" "s_now ex_locked < 60"
    by (simp_all add: ex_locked_def set_lease_def)
  then show ?thesis using lock_mutual_exclusion [OF ex_locked_reachable l, of _ 60] ex_locked_reachable by blast
qed

text \<open>
  \<open>acquire\<close> gives up only when a poll at or after the deadline was refused, decides at the
  latest with the first poll at or after the deadline, and otherwise waits at most a second
  (for a positive first wait of at most a second).
\<close>

theorem acquire_respects_deadline:
  assumes "0 < backoff" and "backoff \<le> 1000"
  shows "(acquire_loop n w ttl deadline backoff polls = TimedOut \<longrightarrow>
       (\<exists>e now. ((False, e), now) \<in> set polls \<and> deadline \<le> now)) \<and>
     ((\<exists>r now. (r, now) \<in> set polls \<and> deadline \<le> now) \<longrightarrow>
       (\<forall>b. acquire_loop n w ttl deadline backoff polls \<noteq> StillWaiting b)) \<and>
     (\<forall>b. acquire_loop n w ttl deadline backoff polls = StillWaiting b \<longrightarrow> 0 < b \<and> b \<le> 1000)"
proof (intro conjI)
  show "acquire_loop n w ttl deadline backoff polls = TimedOut \<longrightarrow>
      (\<exists>e now. ((False, e), now) \<in> set polls \<and> deadline \<le> now)"
    using acquire_timed_out by blast
  show "(\<exists>r now. (r, now) \<in> set polls \<and> deadline \<le> now) \<longrightarrow>
      (\<forall>b. acquire_loop n w ttl deadline backoff polls \<noteq> StillWaiting b)"
    by (metis acquire_decides)
  show "\<forall>b. acquire_loop n w ttl deadline backoff polls = StillWaiting b \<longrightarrow> 0 < b \<and> b \<le> 1000"
    using acquire_backoff [OF _ assms] by blast
qed

theorem acquire_respects_deadline_witness:
  "acquire_loop ''n'' ''w'' 10 5 100 [((False, None), 1), ((False, None), 7)] = TimedOut \<and>
   (\<exists>e now. ((False, e), now) \<in> set [((False, None), 1), ((False, None::int option), 7::int)] \<and> 5 \<le> now)"
  using acquire_respects_deadline [of 100 "''n''" "''w''" 10 5 "[((False, None), 1), ((False, None), 7)]"] by simp


end
