(* ===== verification/Tokenizer.thy ===== *)
theory Tokenizer
  imports JsValue
begin

text \<open>
  \<open>packages/core/src/entity/expression/tokenizer.ts\<close>: the scanner of the formula language. The
  position of a token is the index the scanner reached when it emitted the token, as in the
  code. The lemmas bound the number of tokens by the length of the text and show that the
  result ends with exactly one \<open>eof\<close> token.
\<close>

datatype token_type = TNum | TStr | TIdent | TOp | TParen | TEof

record token =
  t_type :: token_type
  t_value :: string
  t_pos :: nat

abbreviation tok :: "token_type \<Rightarrow> string \<Rightarrow> nat \<Rightarrow> token" where
  "tok ty v p \<equiv> \<lparr>t_type = ty, t_value = v, t_pos = p\<rparr>"

definition backslash :: char where "backslash = char_of (92::nat)"
definition single_quote :: char where "single_quote = char_of (39::nat)"
definition double_quote :: char where "double_quote = char_of (34::nat)"

definition is_num_char :: "char \<Rightarrow> bool" where
  "is_num_char c \<longleftrightarrow> is_digit c \<or> c = CHR ''.''"

definition is_id_start :: "char \<Rightarrow> bool" where
  "is_id_start c \<longleftrightarrow> is_alpha c \<or> c = CHR ''_'' \<or> c = CHR ''$''"

definition is_id_char :: "char \<Rightarrow> bool" where
  "is_id_char c \<longleftrightarrow> is_id_start c \<or> is_digit c"

text \<open>The body of a string literal from index \<open>i\<close>: its value, the rest, the index after it.\<close>

function scan_string :: "char \<Rightarrow> nat \<Rightarrow> string \<Rightarrow> string \<times> string \<times> nat" where
  "scan_string q i [] = ([], [], i + 1)"
| "scan_string q i (c # s) =
     (if c = q then ([], s, i + 1)
      else if c = backslash \<and> s \<noteq> []
      then (let (u, r, j) = scan_string q (i + 2) (tl s) in (hd s # u, r, j))
      else (let (u, r, j) = scan_string q (i + 1) s in (c # u, r, j)))"
  by pat_completeness auto
termination by (relation "measure (\<lambda>(q, i, s). length s)") auto

definition scan_rest :: "char \<Rightarrow> nat \<Rightarrow> string \<Rightarrow> string" where
  "scan_rest q i s = fst (snd (scan_string q i s))"

lemma scan_string_length: "scan_string q i s = (u, r, j) \<Longrightarrow> length r \<le> length s"
proof (induction q i s arbitrary: u r j rule: scan_string.induct)
  case (2 q i c s)
  consider "c = q" | "c \<noteq> q" "c = backslash" "s \<noteq> []" | "c \<noteq> q" "\<not> (c = backslash \<and> s \<noteq> [])" by blast
  then show ?case
  proof cases
    case 1 then show ?thesis using 2 by simp
  next
    case c: 2
    obtain v r' j' where e: "scan_string q (i + 2) (tl s) = (v, r', j')" by (cases "scan_string q (i + 2) (tl s)") auto
    then have "length r' \<le> length (tl s)" using "2.IH"(1) c by blast
    then show ?thesis using "2.prems" c e by (auto simp: numeral_2_eq_2)
  next
    case c: 3
    obtain v r' j' where e: "scan_string q (i + 1) s = (v, r', j')" by (cases "scan_string q (i + 1) s") auto
    then have "length r' \<le> length s" using "2.IH"(2) c by blast
    then show ?thesis using "2.prems" c e by auto
  qed
qed simp

definition single_ops :: string where
  "single_ops = ''+-*/%<>=!(),.[]''"

definition two_ops :: "string list" where
  "two_ops = [''=='', ''!='', ''<='', ''>='', ''&&'', ''||'']"

definition op_type :: "char \<Rightarrow> token_type" where
  "op_type c = (if c \<in> set ''()[]'' then TParen else TOp)"

text \<open>The main loop, at index \<open>i\<close> with the rest of the text.\<close>

function tokenize_from :: "nat \<Rightarrow> string \<Rightarrow> token list" where
  "tokenize_from i [] = [tok TEof [] i]"
| "tokenize_from i (c # s) =
     (if is_space c then tokenize_from (i + 1) s
      else if is_num_char c \<and> (c \<noteq> CHR ''.'' \<or> (s \<noteq> [] \<and> is_digit (hd s)))
      then (let num = c # takeWhile is_num_char s; j = i + length num
            in tok TNum num j # tokenize_from j (dropWhile is_num_char s))
      else if c = single_quote \<or> c = double_quote
      then tok TStr (fst (scan_string c (i + 1) s)) (snd (snd (scan_string c (i + 1) s)))
             # tokenize_from (snd (snd (scan_string c (i + 1) s))) (scan_rest c (i + 1) s)
      else if is_id_start c
      then (let name = c # takeWhile is_id_char s; j = i + length name
            in tok TIdent name j # tokenize_from j (dropWhile is_id_char s))
      else if take 3 (c # s) = ''==='' \<or> take 3 (c # s) = ''!==''
      then tok TOp (take 2 (c # s)) i # tokenize_from (i + 3) (drop 2 s)
      else if take 2 (c # s) \<in> set two_ops
      then tok TOp (take 2 (c # s)) i # tokenize_from (i + 2) (drop 1 s)
      else if c \<in> set single_ops
      then tok (op_type c) [c] i # tokenize_from (i + 1) s
      else tokenize_from (i + 1) s)"
  by pat_completeness auto
termination
proof (relation "measure (\<lambda>(i, s). length s)", goal_cases)
  case (4 i c s)
  then show ?case using scan_string_length [of c "i + 1" s]
    by (cases "scan_string c (i + 1) s") (auto simp: scan_rest_def less_Suc_eq_le)
qed (auto simp: le_imp_less_Suc length_dropWhile_le)

definition tokenize :: "string \<Rightarrow> token list" where
  "tokenize input = tokenize_from 0 input"

lemma scan_rest_length: "length (scan_rest q i s) \<le> length s"
  using scan_string_length [of q i s] by (cases "scan_string q i s") (simp add: scan_rest_def)

declare tokenize_from.simps [simp del]

text \<open>One round of the loop: at most one token, which is not \<open>eof\<close>, and less text.\<close>

definition advances :: "string \<Rightarrow> token list \<Rightarrow> bool" where
  "advances s r \<longleftrightarrow> (\<exists>ts j s'. r = ts @ tokenize_from j s' \<and> length ts \<le> 1 \<and> length s' \<le> length s \<and>
     (\<forall>t \<in> set ts. t_type t \<noteq> TEof))"

lemma tokenize_from_step: "advances s (tokenize_from i (c # s))"
proof -
  have one: "advances s (t # tokenize_from k r)" if "t_type t \<noteq> TEof" "length r \<le> length s" for t k r
    unfolding advances_def using that by (intro exI [of _ "[t]"] exI [of _ k] exI [of _ r]) simp
  have none: "advances s (tokenize_from k s)" for k
    unfolding advances_def by (intro exI [of _ "[]"] exI [of _ k] exI [of _ s]) simp
  have ite: "(b \<Longrightarrow> advances s x) \<Longrightarrow> (\<not> b \<Longrightarrow> advances s y) \<Longrightarrow> advances s (if b then x else y)" for b x y
    by simp
  show ?thesis
    unfolding tokenize_from.simps(2) Let_def
    by (intro ite; (rule none | rule one); simp add: op_type_def scan_rest_length length_dropWhile_le)
qed

lemma tokenize_from_length: "length (tokenize_from i s) \<le> Suc (length s)"
proof (induction "length s" arbitrary: i s rule: less_induct)
  case less
  show ?case
  proof (cases s)
    case Nil then show ?thesis by (simp add: tokenize_from.simps)
  next
    case (Cons c u)
    obtain ts j s' where st: "tokenize_from i (c # u) = ts @ tokenize_from j s'" "length ts \<le> 1" "length s' \<le> length u"
      using tokenize_from_step [of u i c] by (auto simp: advances_def)
    have "length (tokenize_from j s') \<le> Suc (length s')" using less [of s' j] st(3) Cons by simp
    then show ?thesis using st Cons by simp
  qed
qed

lemma tokenize_from_eof:
  "\<exists>ts p. tokenize_from i s = ts @ [tok TEof [] p] \<and> (\<forall>t \<in> set ts. t_type t \<noteq> TEof)"
proof (induction "length s" arbitrary: i s rule: less_induct)
  case less
  show ?case
  proof (cases s)
    case Nil then show ?thesis by (simp add: tokenize_from.simps)
  next
    case (Cons c u)
    obtain ts j s' where st: "tokenize_from i (c # u) = ts @ tokenize_from j s'" "length s' \<le> length u"
        "\<forall>t \<in> set ts. t_type t \<noteq> TEof"
      using tokenize_from_step [of u i c] by (auto simp: advances_def)
    obtain us p where "tokenize_from j s' = us @ [tok TEof [] p]" "\<forall>t \<in> set us. t_type t \<noteq> TEof"
      using less [of s' j] st(2) Cons by auto
    then show ?thesis using st Cons by (intro exI [of _ "ts @ us"] exI [of _ p]) auto
  qed
qed

lemma tokenize_nonempty: "tokenize s \<noteq> []"
  using tokenize_from_eof [of 0 s] by (auto simp: tokenize_def)

end
