(* ===== verification/Evaluator.thy ===== *)
theory Evaluator
  imports Tokenizer JsDate
begin

text \<open>
  \<open>packages/core/src/entity/expression\<close>: the function registry (\<open>registry.ts\<close>), the
  recursive descent parser that evaluates while it parses (\<open>parser.ts\<close>), and the public
  functions (\<open>index.ts\<close>, \<open>callable.ts\<close>). The parser state is the list of tokens from the
  current position on; the nesting depth is an argument. Each parsing method is a definition
  with the recursive calls as an argument \<open>rec\<close>; \<open>parse_fuel\<close> ties the knot with fuel, and
  the theory \<open>EvaluatorTotal\<close> shows that \<open>fuel_for\<close> is always enough.
\<close>

section \<open>registry.ts\<close>

type_synonym eval_function = "jsval list \<Rightarrow> jsval res"
type_synonym registry = "(string, eval_function) amap"

text \<open>\<open>/^[A-Za-z_$][A-Za-z0-9_$]*$/\<close>\<close>

definition NAME_RE :: "string \<Rightarrow> bool" where
  "NAME_RE s = (case s of [] \<Rightarrow> False | c # t \<Rightarrow> is_id_start c \<and> list_all is_id_char t)"

definition registerFunction :: "string \<Rightarrow> eval_function \<Rightarrow> registry \<Rightarrow> registry res" where
  "registerFunction name fn reg =
     (if \<not> NAME_RE name then throw (''Invalid function name \"'' @ name @ ''\"'') else Inr (amap_set name fn reg))"

definition getFunction :: "registry \<Rightarrow> string \<Rightarrow> eval_function option" where
  "getFunction reg name = amap_get reg name"

fun insert_str :: "string \<Rightarrow> string list \<Rightarrow> string list" where
  "insert_str x [] = [x]"
| "insert_str x (y # ys) = (if str_less y x then y # insert_str x ys else x # y # ys)"

definition listRegisteredFunctions :: "registry \<Rightarrow> string list" where
  "listRegisteredFunctions reg = foldr insert_str (amap_keys reg) []"

definition arg0 :: "jsval list \<Rightarrow> jsval" where
  "arg0 args = (case args of a # _ \<Rightarrow> a | [] \<Rightarrow> Undef)"

text \<open>The evaluator's coercion: not a number means 0.\<close>

definition toNumber :: "jsval \<Rightarrow> jsnum" where
  "toNumber v = (case v of
     Num x \<Rightarrow> x
   | Bool b \<Rightarrow> if b then Fin 1 else Fin 0
   | _ \<Rightarrow> if to_num v = NaN then Fin 0 else to_num v)"

definition rowsOf :: "jsval \<Rightarrow> jsval list option" where
  "rowsOf v = (case v of
     Arr xs \<Rightarrow> Some xs
   | Obj kvs \<Rightarrow> (case obj_get kvs ''__rows'' of Arr xs \<Rightarrow> Some xs | _ \<Rightarrow> None)
   | _ \<Rightarrow> None)"

definition numeric_of :: "jsval \<Rightarrow> jsnum list" where
  "numeric_of v = (if v = Null \<or> v = Undef \<or> v = Str [] then [] else if to_num v = NaN then [] else [to_num v])"

definition numericValues :: "jsval list \<Rightarrow> jsnum list" where
  "numericValues args = concat (map (\<lambda>a. case rowsOf a of
     Some rows \<Rightarrow> concat (map numeric_of rows) | None \<Rightarrow> numeric_of a) args)"

definition num_sum :: "jsnum list \<Rightarrow> jsnum" where
  "num_sum xs = foldl num_add (Fin 0) xs"

definition fn_SUM :: eval_function where
  "fn_SUM args = Inr (Num (if numericValues args = [] then Fin 0 else num_sum (numericValues args)))"

definition fn_COUNT :: eval_function where
  "fn_COUNT args = Inr (Num (foldl (\<lambda>total a. num_add total (case rowsOf a of
     Some rows \<Rightarrow> num_of_int (int (length rows))
   | None \<Rightarrow> if a = Null \<or> a = Undef then Fin 0 else Fin 1)) (Fin 0) args))"

definition fn_MIN :: eval_function where
  "fn_MIN args = Inr (if numericValues args = [] then Null else Num (num_min (numericValues args)))"

definition fn_MAX :: eval_function where
  "fn_MAX args = Inr (if numericValues args = [] then Null else Num (num_max (numericValues args)))"

definition fn_AVG :: eval_function where
  "fn_AVG args = Inr (if numericValues args = [] then Null
     else Num (num_div (num_sum (numericValues args)) (num_of_int (int (length (numericValues args))))))"

text \<open>The built-in registry at clock reading \<open>now\<close>, with the next random UUID.\<close>

definition builtin_registry :: "int \<Rightarrow> string \<Rightarrow> registry" where
  "builtin_registry now uuid =
     [(''NOW'', \<lambda>args. Inr (Str (to_iso now))),
      (''TODAY'', \<lambda>args. Inr (Str (hd (split_on CHR ''T'' (to_iso now))))),
      (''UUID'', \<lambda>args. Inr (Str uuid)),
      (''TIMESTAMP'', \<lambda>args. Inr (Num (num_of_int now))),
      (''parseInt'', \<lambda>args. Inr (Num (parse_int10 (to_str (nullish_or (arg0 args) (Str [])))))),
      (''parseFloat'', \<lambda>args. Inr (Num (parse_float (to_str (nullish_or (arg0 args) (Str [])))))),
      (''String'', \<lambda>args. Inr (Str (to_str (nullish_or (arg0 args) (Str []))))),
      (''Number'', \<lambda>args. Inr (Num (toNumber (arg0 args)))),
      (''Boolean'', \<lambda>args. Inr (Bool (truthy (arg0 args)))),
      (''SUM'', fn_SUM), (''COUNT'', fn_COUNT), (''MIN'', fn_MIN), (''MAX'', fn_MAX), (''AVG'', fn_AVG)]"

section \<open>parser.ts: helpers\<close>

text \<open>
  What a formula can call: the registry, and the \<open>Math\<close> functions, whose last digits the
  language leaves to the engine (a parameter).
\<close>

record eval_env =
  ev_registry :: registry
  ev_math :: "string \<Rightarrow> jsnum list \<Rightarrow> jsnum"

definition MATH_FUNCTIONS :: "string list" where
  "MATH_FUNCTIONS = [''abs'', ''ceil'', ''floor'', ''round'', ''max'', ''min'', ''pow'', ''sqrt'', ''sign'',
     ''trunc'', ''exp'', ''log'', ''log10'', ''log2'', ''sin'', ''cos'', ''tan'', ''asin'', ''acos'',
     ''atan'', ''atan2'', ''hypot'', ''cbrt'', ''expm1'', ''log1p'', ''sinh'', ''cosh'', ''tanh'',
     ''asinh'', ''acosh'', ''atanh'']"

definition callFunction :: "eval_env \<Rightarrow> string \<Rightarrow> jsval list \<Rightarrow> jsval res" where
  "callFunction env name args =
     (case getFunction (ev_registry env) name of
        Some fn \<Rightarrow> fn args
      | None \<Rightarrow>
          (if starts_with name ''Math.'' \<and> slice_from 5 name \<in> set MATH_FUNCTIONS
           then Inr (Num (ev_math env (slice_from 5 name) (map toNumber args)))
           else throw (''Unknown function \"'' @ name @ ''\"'')))"

definition isCallableFunction :: "registry \<Rightarrow> string \<Rightarrow> bool" where
  "isCallableFunction reg name \<longleftrightarrow> getFunction reg name \<noteq> None \<or>
     (starts_with name ''Math.'' \<and> slice_from 5 name \<in> set MATH_FUNCTIONS)"

definition resolveIdentifier :: "jsobj \<Rightarrow> string \<Rightarrow> jsval" where
  "resolveIdentifier scope name = (case amap_get scope name of Some v \<Rightarrow> v | None \<Rightarrow> Undef)"

definition resolveMember :: "jsobj \<Rightarrow> string \<Rightarrow> string \<Rightarrow> jsval" where
  "resolveMember scope base member = (case resolveIdentifier scope base of
     Obj kvs \<Rightarrow> obj_get kvs member
   | Arr xs \<Rightarrow> arr_get xs member
   | Host h \<Rightarrow> host_get h member
   | _ \<Rightarrow> Undef)"

text \<open>\<open>/^\d{4}-\d{2}-\d{2}/\<close>\<close>

definition ISO_DATE_RE :: "string \<Rightarrow> bool" where
  "ISO_DATE_RE s \<longleftrightarrow> length s \<ge> 10 \<and>
     list_all (\<lambda>i. if i = 4 \<or> i = 7 then s ! i = CHR ''-'' else is_digit (s ! i)) [0..<10]"

definition str_compare :: "string \<Rightarrow> string \<Rightarrow> int" where
  "str_compare a b = (if str_less a b then - 1 else if str_less b a then 1 else 0)"

definition num_compare :: "jsnum \<Rightarrow> jsnum \<Rightarrow> int" where
  "num_compare a b = (if num_lt a b then - 1 else if num_lt b a then 1 else 0)"

definition js_compare :: "jsval \<Rightarrow> jsval \<Rightarrow> int" where
  "js_compare left right =
     (let ls = to_str (nullish_or left (Str [])); rs = to_str (nullish_or right (Str []))
      in if ISO_DATE_RE ls \<and> ISO_DATE_RE rs then str_compare ls rs
         else if to_num left \<noteq> NaN \<and> to_num right \<noteq> NaN then num_compare (to_num left) (to_num right)
         else str_compare ls rs)"

definition loose_eq :: "jsval \<Rightarrow> jsval \<Rightarrow> bool" where
  "loose_eq a b =
     (if strict_eq a b then True
      else if is_nullish a then is_nullish b
      else if is_nullish b then False
      else if to_num a \<noteq> NaN \<and> to_num b \<noteq> NaN \<and> num_eq (to_num a) (to_num b) then True
      else to_str a = to_str b)"

definition cmp_ops :: "string list" where
  "cmp_ops = [''=='', ''!='', ''<'', ''<='', ''>'', ''>='']"

definition apply_cmp :: "string \<Rightarrow> jsval \<Rightarrow> jsval \<Rightarrow> bool" where
  "apply_cmp op l r =
     (if op = ''=='' then loose_eq l r
      else if op = ''!='' then \<not> loose_eq l r
      else if op = ''<'' then js_compare l r < 0
      else if op = ''<='' then js_compare l r \<le> 0
      else if op = ''>'' then js_compare l r > 0
      else js_compare l r \<ge> 0)"

definition apply_add :: "string \<Rightarrow> jsval \<Rightarrow> jsval \<Rightarrow> jsval" where
  "apply_add op l r = Num (if op = ''+'' then num_add (toNumber l) (toNumber r) else num_sub (toNumber l) (toNumber r))"

definition apply_mul :: "string \<Rightarrow> jsval \<Rightarrow> jsval \<Rightarrow> jsval" where
  "apply_mul op l r = Num (if op = ''*'' then num_mul (toNumber l) (toNumber r)
     else if op = ''/'' then num_div (toNumber l) (toNumber r) else num_rem (toNumber l) (toNumber r))"

section \<open>parser.ts: the parser\<close>

text \<open>\<open>None\<close> means that the fuel ran out; an error of the code is \<open>Some (Inl _)\<close>.\<close>

type_synonym 'a out = "'a res option"

definition bindO :: "'a out \<Rightarrow> ('a \<Rightarrow> 'b out) \<Rightarrow> 'b out" where
  "bindO m f = (case m of None \<Rightarrow> None | Some (Inl e) \<Rightarrow> Some (Inl e) | Some (Inr x) \<Rightarrow> f x)"

abbreviation retO :: "'a \<Rightarrow> 'a out" where "retO x \<equiv> Some (Inr x)"
abbreviation failO :: "string \<Rightarrow> 'a out" where "failO m \<equiv> Some (throw m)"
abbreviation undefO :: "'a out" where "undefO \<equiv> Some (throw_type ''Cannot read properties of undefined'')"

lemma bindO_simps [simp]:
  "bindO None f = None" "bindO (Some (Inl e)) f = Some (Inl e)" "bindO (Some (Inr x)) f = f x"
  by (simp_all add: bindO_def)

datatype parse_nt =
    NOr | NOrLoop jsval
  | NAnd | NAndLoop jsval
  | NCmp
  | NAdd | NAddLoop jsval
  | NMul | NMulLoop jsval
  | NUnary
  | NPrimary
  | NArray | NArrayLoop "jsval list"
  | NArgs | NArgsLoop "jsval list"

type_synonym parsed = "(jsval \<times> token list) out"
type_synonym parse_rec = "parse_nt \<Rightarrow> nat \<Rightarrow> token list \<Rightarrow> parsed"

definition MAX_DEPTH :: nat where "MAX_DEPTH = 100"

definition enterNested :: "nat \<Rightarrow> (nat \<Rightarrow> 'a out) \<Rightarrow> 'a out" where
  "enterNested d k = (if Suc d > MAX_DEPTH
     then failO ''Expression too deeply nested (max 100 levels)'' else k (Suc d))"

definition peek :: "token list \<Rightarrow> (string \<Rightarrow> 'a out) \<Rightarrow> 'a out" where
  "peek ts k = (case ts of [] \<Rightarrow> undefO | t # _ \<Rightarrow> k (t_value t))"

definition expectOp :: "string \<Rightarrow> token list \<Rightarrow> token list out" where
  "expectOp op ts = (case ts of [] \<Rightarrow> undefO
     | t # r \<Rightarrow> if t_value t \<noteq> op
                then failO (''Expected \"'' @ op @ ''\" at position '' @ show_nat (t_pos t) @ '', got \"'' @ t_value t @ ''\"'')
                else retO r)"

definition parseLogicalOr :: "parse_rec \<Rightarrow> nat \<Rightarrow> token list \<Rightarrow> parsed" where
  "parseLogicalOr rec d ts = bindO (rec NAnd d ts) (\<lambda>(left, ts). rec (NOrLoop left) d ts)"

definition parseLogicalOr_loop :: "parse_rec \<Rightarrow> jsval \<Rightarrow> nat \<Rightarrow> token list \<Rightarrow> parsed" where
  "parseLogicalOr_loop rec left d ts = peek ts (\<lambda>v.
     if v = ''||'' then bindO (rec NAnd d (tl ts)) (\<lambda>(right, ts).
       rec (NOrLoop (Bool (truthy left \<or> truthy right))) d ts)
     else retO (left, ts))"

definition parseLogicalAnd :: "parse_rec \<Rightarrow> nat \<Rightarrow> token list \<Rightarrow> parsed" where
  "parseLogicalAnd rec d ts = bindO (rec NCmp d ts) (\<lambda>(left, ts). rec (NAndLoop left) d ts)"

definition parseLogicalAnd_loop :: "parse_rec \<Rightarrow> jsval \<Rightarrow> nat \<Rightarrow> token list \<Rightarrow> parsed" where
  "parseLogicalAnd_loop rec left d ts = peek ts (\<lambda>v.
     if v = ''&&'' then bindO (rec NCmp d (tl ts)) (\<lambda>(right, ts).
       rec (NAndLoop (Bool (truthy left \<and> truthy right))) d ts)
     else retO (left, ts))"

definition parseComparison :: "parse_rec \<Rightarrow> nat \<Rightarrow> token list \<Rightarrow> parsed" where
  "parseComparison rec d ts = bindO (rec NAdd d ts) (\<lambda>(left, ts). peek ts (\<lambda>op.
     if op \<in> set cmp_ops then bindO (rec NAdd d (tl ts)) (\<lambda>(right, ts).
       retO (Bool (apply_cmp op left right), ts))
     else retO (left, ts)))"

definition parseAdditive :: "parse_rec \<Rightarrow> nat \<Rightarrow> token list \<Rightarrow> parsed" where
  "parseAdditive rec d ts = bindO (rec NMul d ts) (\<lambda>(left, ts). rec (NAddLoop left) d ts)"

definition parseAdditive_loop :: "parse_rec \<Rightarrow> jsval \<Rightarrow> nat \<Rightarrow> token list \<Rightarrow> parsed" where
  "parseAdditive_loop rec left d ts = peek ts (\<lambda>op.
     if op = ''+'' \<or> op = ''-'' then bindO (rec NMul d (tl ts)) (\<lambda>(right, ts).
       rec (NAddLoop (apply_add op left right)) d ts)
     else retO (left, ts))"

definition parseMultiplicative :: "parse_rec \<Rightarrow> nat \<Rightarrow> token list \<Rightarrow> parsed" where
  "parseMultiplicative rec d ts = bindO (rec NUnary d ts) (\<lambda>(left, ts). rec (NMulLoop left) d ts)"

definition parseMultiplicative_loop :: "parse_rec \<Rightarrow> jsval \<Rightarrow> nat \<Rightarrow> token list \<Rightarrow> parsed" where
  "parseMultiplicative_loop rec left d ts = peek ts (\<lambda>op.
     if op = ''*'' \<or> op = ''/'' \<or> op = ''%'' then bindO (rec NUnary d (tl ts)) (\<lambda>(right, ts).
       rec (NMulLoop (apply_mul op left right)) d ts)
     else retO (left, ts))"

definition parseUnary :: "parse_rec \<Rightarrow> nat \<Rightarrow> token list \<Rightarrow> parsed" where
  "parseUnary rec d ts = enterNested d (\<lambda>d. peek ts (\<lambda>v.
     if v = ''-'' then bindO (rec NUnary d (tl ts)) (\<lambda>(x, ts). retO (Num (num_neg (toNumber x)), ts))
     else if v = ''!'' then bindO (rec NUnary d (tl ts)) (\<lambda>(x, ts). retO (Bool (\<not> truthy x), ts))
     else rec NPrimary d ts))"

text \<open>The call \<open>callFunction(name, parseArgs())\<close>, after the opening parenthesis.\<close>

definition parseCall :: "eval_env \<Rightarrow> parse_rec \<Rightarrow> string \<Rightarrow> nat \<Rightarrow> token list \<Rightarrow> parsed" where
  "parseCall env rec name d ts = bindO (rec NArgs d ts) (\<lambda>(args, ts).
     bindO (Some (callFunction env name (case args of Arr xs \<Rightarrow> xs | _ \<Rightarrow> []))) (\<lambda>v. retO (v, ts)))"

definition parseIdent :: "eval_env \<Rightarrow> jsobj \<Rightarrow> parse_rec \<Rightarrow> string \<Rightarrow> nat \<Rightarrow> token list \<Rightarrow> parsed" where
  "parseIdent env scope rec name d ts = (case ts of [] \<Rightarrow> undefO | t # r \<Rightarrow>
     if t_value t = ''.'' \<and> t_type t = TOp then
       (case r of [] \<Rightarrow> undefO | member # r2 \<Rightarrow>
         if t_type member \<noteq> TIdent then failO ''Expected member name''
         else peek r2 (\<lambda>v.
           if v = ''('' then parseCall env rec (name @ ''.'' @ t_value member) d (tl r2)
           else retO (resolveMember scope name (t_value member), r2)))
     else if t_value t = ''('' then parseCall env rec name d r
     else if name = ''true'' then retO (Bool True, ts)
     else if name = ''false'' then retO (Bool False, ts)
     else if name = ''null'' then retO (Null, ts)
     else retO (resolveIdentifier scope name, ts))"

definition parsePrimary :: "eval_env \<Rightarrow> jsobj \<Rightarrow> parse_rec \<Rightarrow> nat \<Rightarrow> token list \<Rightarrow> parsed" where
  "parsePrimary env scope rec d ts = (case ts of [] \<Rightarrow> undefO | t # r \<Rightarrow>
     (case t_type t of
        TNum \<Rightarrow> retO (Num (parse_float (t_value t)), r)
      | TStr \<Rightarrow> retO (Str (t_value t), r)
      | TParen \<Rightarrow> enterNested d (\<lambda>d.
          if t_value t = ''['' then rec NArray d r
          else if t_value t \<noteq> ''('' then failO (''Unexpected \"'' @ t_value t @ ''\"'')
          else bindO (rec NOr d r) (\<lambda>(v, ts). bindO (expectOp '')'' ts) (\<lambda>ts. retO (v, ts))))
      | TIdent \<Rightarrow> parseIdent env scope rec (t_value t) d r
      | _ \<Rightarrow> failO (''Unexpected token \"'' @ t_value t @ ''\" at position '' @ show_nat (t_pos t))))"

definition parseArray :: "parse_rec \<Rightarrow> nat \<Rightarrow> token list \<Rightarrow> parsed" where
  "parseArray rec d ts = peek ts (\<lambda>v. if v = '']'' then retO (Arr [], tl ts) else rec (NArrayLoop []) d ts)"

definition parseArray_loop :: "parse_rec \<Rightarrow> jsval list \<Rightarrow> nat \<Rightarrow> token list \<Rightarrow> parsed" where
  "parseArray_loop rec arr d ts = bindO (rec NOr d ts) (\<lambda>(v, ts). case ts of [] \<Rightarrow> undefO | sep # r \<Rightarrow>
     if t_value sep = '']'' then retO (Arr (arr @ [v]), r)
     else if t_value sep \<noteq> '',''
     then (case r of [] \<Rightarrow> undefO
           | t # _ \<Rightarrow> failO (''Expected \",\" or \"]\" in array at position '' @ show_nat (t_pos t)))
     else peek r (\<lambda>x. if x = '']'' then retO (Arr (arr @ [v]), tl r) else rec (NArrayLoop (arr @ [v])) d r))"

definition parseArgs :: "parse_rec \<Rightarrow> nat \<Rightarrow> token list \<Rightarrow> parsed" where
  "parseArgs rec d ts = enterNested d (\<lambda>d. peek ts (\<lambda>v.
     if v \<noteq> '')'' then bindO (rec NOr d ts) (\<lambda>(a, ts). rec (NArgsLoop [a]) d ts)
     else bindO (expectOp '')'' ts) (\<lambda>ts. retO (Arr [], ts))))"

definition parseArgs_loop :: "parse_rec \<Rightarrow> jsval list \<Rightarrow> nat \<Rightarrow> token list \<Rightarrow> parsed" where
  "parseArgs_loop rec args d ts = peek ts (\<lambda>v.
     if v = '','' then bindO (rec NOr d (tl ts)) (\<lambda>(a, ts). rec (NArgsLoop (args @ [a])) d ts)
     else bindO (expectOp '')'' ts) (\<lambda>ts. retO (Arr args, ts)))"

definition parse_step :: "eval_env \<Rightarrow> jsobj \<Rightarrow> parse_rec \<Rightarrow> parse_rec" where
  "parse_step env scope rec nt = (case nt of
     NOr \<Rightarrow> parseLogicalOr rec | NOrLoop l \<Rightarrow> parseLogicalOr_loop rec l
   | NAnd \<Rightarrow> parseLogicalAnd rec | NAndLoop l \<Rightarrow> parseLogicalAnd_loop rec l
   | NCmp \<Rightarrow> parseComparison rec
   | NAdd \<Rightarrow> parseAdditive rec | NAddLoop l \<Rightarrow> parseAdditive_loop rec l
   | NMul \<Rightarrow> parseMultiplicative rec | NMulLoop l \<Rightarrow> parseMultiplicative_loop rec l
   | NUnary \<Rightarrow> parseUnary rec
   | NPrimary \<Rightarrow> parsePrimary env scope rec
   | NArray \<Rightarrow> parseArray rec | NArrayLoop arr \<Rightarrow> parseArray_loop rec arr
   | NArgs \<Rightarrow> parseArgs rec | NArgsLoop args \<Rightarrow> parseArgs_loop rec args)"

primrec parse_fuel :: "eval_env \<Rightarrow> jsobj \<Rightarrow> nat \<Rightarrow> parse_rec" where
  "parse_fuel env scope 0 = (\<lambda>nt d ts. None)"
| "parse_fuel env scope (Suc n) = parse_step env scope (parse_fuel env scope n)"

definition fuel_for :: "token list \<Rightarrow> nat" where
  "fuel_for ts = 12 * length ts + 12"

definition parser_parse :: "eval_env \<Rightarrow> jsobj \<Rightarrow> token list \<Rightarrow> jsval out" where
  "parser_parse env scope ts =
     bindO (parse_fuel env scope (fuel_for ts) NOr 0 ts) (\<lambda>(value, ts). case ts of [] \<Rightarrow> undefO
       | t # _ \<Rightarrow> if t_type t \<noteq> TEof
                  then failO (''Unexpected token \"'' @ t_value t @ ''\" at position '' @ show_nat (t_pos t))
                  else retO value)"

section \<open>Complexity guard and public functions\<close>

definition MAX_EXPRESSION_LENGTH :: nat where "MAX_EXPRESSION_LENGTH = 2048"
definition MAX_EXPRESSION_TOKENS :: nat where "MAX_EXPRESSION_TOKENS = 256"

definition validateExpressionComplexity :: "jsval \<Rightarrow> string option" where
  "validateExpressionComplexity expression = (case expression of
     Str s \<Rightarrow>
       (if s = [] then Some ''expression must be a non-empty string''
        else if length s > MAX_EXPRESSION_LENGTH
        then Some (''expression too long ('' @ show_nat (length s) @ '' chars, max 2048)'')
        else if length (tokenize s) > MAX_EXPRESSION_TOKENS
        then Some (''expression has too many tokens ('' @ show_nat (length (tokenize s)) @ '', max 256)'')
        else None)
   | _ \<Rightarrow> Some ''expression must be a non-empty string'')"

definition assertComplexity :: "jsval \<Rightarrow> string res" where
  "assertComplexity expression = (case expression of
     Str s \<Rightarrow>
       (if length s > MAX_EXPRESSION_LENGTH
        then throw (''Expression too long ('' @ show_nat (length s) @ '' chars, max 2048)'')
        else if length (tokenize s) > MAX_EXPRESSION_TOKENS
        then throw (''Expression has too many tokens ('' @ show_nat (length (tokenize s)) @ '', max 256)'')
        else Inr s)
   | _ \<Rightarrow> throw ''expression must be a string'')"

definition evaluateWith :: "eval_env \<Rightarrow> jsval \<Rightarrow> jsobj \<Rightarrow> jsval out" where
  "evaluateWith env expression scope =
     bindO (Some (assertComplexity expression)) (\<lambda>s. parser_parse env scope (tokenize s))"

definition evaluateExpression :: "eval_env \<Rightarrow> jsval \<Rightarrow> jsobj \<Rightarrow> jsval out" where
  "evaluateExpression = evaluateWith"

definition evaluateBoolean :: "eval_env \<Rightarrow> jsval \<Rightarrow> jsobj \<Rightarrow> bool out" where
  "evaluateBoolean env expression scope = bindO (evaluateWith env expression scope) (\<lambda>v. retO (truthy v))"

definition evaluateNumber :: "eval_env \<Rightarrow> jsval \<Rightarrow> jsobj \<Rightarrow> jsnum out" where
  "evaluateNumber env expression scope = bindO (evaluateWith env expression scope) (\<lambda>v. retO (case v of
     Num x \<Rightarrow> x | _ \<Rightarrow> if to_num v = NaN then Fin 0 else to_num v))"

end
