(* ===== verification/EvaluatorTotal.thy ===== *)
theory EvaluatorTotal
  imports Evaluator
begin

text \<open>
  The formula evaluator always returns: every parsing method consumes tokens, so
  \<open>fuel_for\<close> is enough fuel, more fuel never changes a result, and the fuel-free parser
  \<open>parse_nt_of\<close> satisfies the recursive equations of the code.
\<close>

section \<open>Every method consumes its tokens\<close>

definition consumes :: "parse_nt \<Rightarrow> nat" where
  "consumes nt = (case nt of NOrLoop l \<Rightarrow> 0 | NAndLoop l \<Rightarrow> 0 | NAddLoop l \<Rightarrow> 0 | NMulLoop l \<Rightarrow> 0 | _ \<Rightarrow> 1)"

definition shrinks :: "parse_rec \<Rightarrow> bool" where
  "shrinks rec \<longleftrightarrow> (\<forall>nt d ts v r. rec nt d ts = Some (Inr (v, r)) \<longrightarrow> length r + consumes nt \<le> length ts)"

lemma shrinksD: "shrinks rec \<Longrightarrow> rec nt d ts = Some (Inr (v, r)) \<Longrightarrow> length r + consumes nt \<le> length ts"
  by (simp add: shrinks_def)

lemma bindO_eq_Inr [simp]: "bindO m f = Some (Inr y) \<longleftrightarrow> (\<exists>x. m = Some (Inr x) \<and> f x = Some (Inr y))"
  by (auto simp: bindO_def split: option.splits sum.splits)

lemma bindO_None [simp]: "bindO m f = None \<longleftrightarrow> m = None \<or> (\<exists>x. m = Some (Inr x) \<and> f x = None)"
  by (auto simp: bindO_def split: option.splits sum.splits)

lemma peek_Inr [simp]: "peek ts k = Some (Inr y) \<longleftrightarrow> (\<exists>t r. ts = t # r \<and> k (t_value t) = Some (Inr y))"
  by (cases ts) (auto simp: peek_def)

lemma peek_None [simp]: "peek ts k = None \<longleftrightarrow> (\<exists>t r. ts = t # r \<and> k (t_value t) = None)"
  by (cases ts) (auto simp: peek_def)

lemma expectOp_Inr [simp]: "expectOp op ts = Some (Inr r) \<longleftrightarrow> (\<exists>t. ts = t # r \<and> t_value t = op)"
  by (cases ts) (auto simp: expectOp_def)

lemma expectOp_None [simp]: "expectOp op ts \<noteq> None"
  by (auto simp: expectOp_def split: list.splits)

lemma enterNested_Inr [simp]: "enterNested d k = Some (Inr y) \<longleftrightarrow> Suc d \<le> MAX_DEPTH \<and> k (Suc d) = Some (Inr y)"
  by (auto simp: enterNested_def)

lemma enterNested_None [simp]: "enterNested d k = None \<longleftrightarrow> Suc d \<le> MAX_DEPTH \<and> k (Suc d) = None"
  by (auto simp: enterNested_def)

lemma out_defined [simp]:
  "(\<exists>y. bindO m f = Some y) \<longleftrightarrow> (\<exists>y. m = Some y) \<and> (\<forall>x. m = Some (Inr x) \<longrightarrow> (\<exists>y. f x = Some y))"
  "(\<exists>y. peek ts k = Some y) \<longleftrightarrow> (\<forall>t r. ts = t # r \<longrightarrow> (\<exists>y. k (t_value t) = Some y))"
  "(\<exists>y. enterNested d k' = Some y) \<longleftrightarrow> (Suc d \<le> MAX_DEPTH \<longrightarrow> (\<exists>y. k' (Suc d) = Some y))"
  "\<exists>y. expectOp op ts = Some y"
proof -
  show "(\<exists>y. bindO m f = Some y) \<longleftrightarrow> (\<exists>y. m = Some y) \<and> (\<forall>x. m = Some (Inr x) \<longrightarrow> (\<exists>y. f x = Some y))"
    unfolding not_None_eq [symmetric] by simp
  show "(\<exists>y. peek ts k = Some y) \<longleftrightarrow> (\<forall>t r. ts = t # r \<longrightarrow> (\<exists>y. k (t_value t) = Some y))"
    by (cases ts) (auto simp: peek_def)
  show "(\<exists>y. enterNested d k' = Some y) \<longleftrightarrow> (Suc d \<le> MAX_DEPTH \<longrightarrow> (\<exists>y. k' (Suc d) = Some y))"
    unfolding not_None_eq [symmetric] by simp
  show "\<exists>y. expectOp op ts = Some y"
    unfolding not_None_eq [symmetric] by simp
qed

lemma shrinks_call: "shrinks rec \<Longrightarrow> parseCall env rec name d ts = Some (Inr (v, r)) \<Longrightarrow> length r < length ts"
  by (auto simp: parseCall_def consumes_def dest!: shrinksD)

lemma shrinks_ident:
  assumes s: "shrinks rec" and r: "parseIdent env sc rec name d ts = Some (Inr (v, r))"
  shows "length r \<le> length ts"
  using r by (auto simp: parseIdent_def split: list.splits if_splits dest!: shrinks_call [OF s])

lemma shrinks_step: assumes s: "shrinks rec" shows "shrinks (parse_step env sc rec)"
  unfolding shrinks_def
proof (intro allI impI)
  fix nt d ts v r assume r: "parse_step env sc rec nt d ts = Some (Inr (v, r))"
  note D = shrinksD [OF s]
  show "length r + consumes nt \<le> length ts"
  proof (cases nt)
    case NOr then show ?thesis using r by (auto simp: parse_step_def parseLogicalOr_def consumes_def dest!: D)
  next
    case (NOrLoop l) then show ?thesis using r
      by (auto simp: parse_step_def parseLogicalOr_loop_def consumes_def split: if_splits dest!: D)
  next
    case NAnd then show ?thesis using r by (auto simp: parse_step_def parseLogicalAnd_def consumes_def dest!: D)
  next
    case (NAndLoop l) then show ?thesis using r
      by (auto simp: parse_step_def parseLogicalAnd_loop_def consumes_def split: if_splits dest!: D)
  next
    case NCmp then show ?thesis using r
      by (auto simp: parse_step_def parseComparison_def consumes_def split: if_splits dest!: D)
  next
    case NAdd then show ?thesis using r by (auto simp: parse_step_def parseAdditive_def consumes_def dest!: D)
  next
    case (NAddLoop l) then show ?thesis using r
      by (auto simp: parse_step_def parseAdditive_loop_def consumes_def split: if_splits dest!: D)
  next
    case NMul then show ?thesis using r by (auto simp: parse_step_def parseMultiplicative_def consumes_def dest!: D)
  next
    case (NMulLoop l) then show ?thesis using r
      by (auto simp: parse_step_def parseMultiplicative_loop_def consumes_def split: if_splits dest!: D)
  next
    case NUnary then show ?thesis using r
      by (auto simp: parse_step_def parseUnary_def consumes_def split: if_splits dest!: D)
  next
    case NPrimary then show ?thesis using r
      by (auto simp: parse_step_def parsePrimary_def consumes_def split: list.splits token_type.splits if_splits
          dest!: D shrinks_ident [OF s])
  next
    case NArray then show ?thesis using r
      by (auto simp: parse_step_def parseArray_def consumes_def split: if_splits dest!: D)
  next
    case (NArrayLoop l)
    then obtain a b where ab: "rec NOr d ts = Some (Inr (a, b))" and
      rest: "(case b of [] \<Rightarrow> undefO | sep # r \<Rightarrow>
         if t_value sep = '']'' then retO (Arr (l @ [a]), r)
         else if t_value sep \<noteq> '',''
         then (case r of [] \<Rightarrow> undefO
               | t # _ \<Rightarrow> failO (''Expected \",\" or \"]\" in array at position '' @ show_nat (t_pos t)))
         else peek r (\<lambda>x. if x = '']'' then retO (Arr (l @ [a]), tl r) else rec (NArrayLoop (l @ [a])) d r))
       = Some (Inr (v, r))"
      using r by (auto simp: parse_step_def parseArray_loop_def)
    have "length b < length ts" using D [OF ab] by (simp add: consumes_def)
    then show ?thesis using rest NArrayLoop
      by (cases b) (auto simp: consumes_def split: if_splits list.splits dest!: D)
  next
    case NArgs then show ?thesis using r
      by (auto simp: parse_step_def parseArgs_def consumes_def split: if_splits dest!: D)
  next
    case (NArgsLoop l) then show ?thesis using r
      by (auto simp: parse_step_def parseArgs_loop_def consumes_def split: if_splits dest!: D)
  qed
qed

lemma parse_fuel_shrinks: "shrinks (parse_fuel env sc n)"
  by (induction n) (simp add: shrinks_def, simp add: shrinks_step)

section \<open>Enough fuel\<close>

definition rank :: "parse_nt \<Rightarrow> nat" where
  "rank nt = (case nt of NOr \<Rightarrow> 8 | NAnd \<Rightarrow> 7 | NCmp \<Rightarrow> 6 | NAdd \<Rightarrow> 5 | NMul \<Rightarrow> 4 | NUnary \<Rightarrow> 3 | NPrimary \<Rightarrow> 2
     | NArrayLoop l \<Rightarrow> 9 | NArray \<Rightarrow> 10 | NArgs \<Rightarrow> 10 | _ \<Rightarrow> 1)"

definition need :: "parse_nt \<Rightarrow> token list \<Rightarrow> nat" where
  "need nt ts = 12 * length ts + rank nt"

lemma need_shrunk: "length ts' < length ts \<Longrightarrow> need nt' ts' < need nt ts"
  by (auto simp: need_def rank_def split: parse_nt.splits)

lemma need_same: "rank nt' < rank nt \<Longrightarrow> need nt' ts < need nt ts"
  by (simp add: need_def)

definition defined_below :: "nat \<Rightarrow> parse_rec \<Rightarrow> bool" where
  "defined_below n rec \<longleftrightarrow> (\<forall>nt d ts. need nt ts < n \<longrightarrow> rec nt d ts \<noteq> None)"

lemma defined_same: "defined_below (need nt ts) rec \<Longrightarrow> rank nt' < rank nt \<Longrightarrow> rec nt' d ts \<noteq> None"
  by (simp add: defined_below_def need_same)

lemma defined_shrunk: "defined_below (need nt ts) rec \<Longrightarrow> length ts' < length ts \<Longrightarrow> rec nt' d ts' \<noteq> None"
  by (simp add: defined_below_def need_shrunk)

lemma step_defined:
  assumes s: "shrinks rec" and d: "defined_below (need nt ts) rec"
  shows "parse_step env sc rec nt k ts \<noteq> None"
proof -
  note D = shrinksD [OF s]
    and same = defined_same [OF d] defined_same [OF d, unfolded not_None_eq]
    and less = defined_shrunk [OF d] defined_shrunk [OF d, unfolded not_None_eq]
  have S: "length r < length ts" if "rec nt' k' ts = Some (Inr (v, r))" "consumes nt' = 1" for nt' k' v r
    using D [OF that(1)] that(2) by simp
  have T: "length r < length ts" if "rec nt' k' us = Some (Inr (v, r))" "length us < length ts" for nt' k' v r us
    using D [OF that(1)] that(2) by simp
  show ?thesis
  proof (cases nt)
    case NOr then show ?thesis
      by (auto simp: parse_step_def parseLogicalOr_def same rank_def consumes_def less dest!: S)
  next
    case (NOrLoop l) then show ?thesis
      by (auto simp: parse_step_def parseLogicalOr_loop_def less dest!: T)
  next
    case NAnd then show ?thesis
      by (auto simp: parse_step_def parseLogicalAnd_def same rank_def consumes_def less dest!: S)
  next
    case (NAndLoop l) then show ?thesis
      by (auto simp: parse_step_def parseLogicalAnd_loop_def less dest!: T)
  next
    case NCmp then show ?thesis
      by (auto simp: parse_step_def parseComparison_def same rank_def consumes_def less dest!: S)
  next
    case NAdd then show ?thesis
      by (auto simp: parse_step_def parseAdditive_def same rank_def consumes_def less dest!: S)
  next
    case (NAddLoop l) then show ?thesis
      by (auto simp: parse_step_def parseAdditive_loop_def less dest!: T)
  next
    case NMul then show ?thesis
      by (auto simp: parse_step_def parseMultiplicative_def same rank_def consumes_def less dest!: S)
  next
    case (NMulLoop l) then show ?thesis
      by (auto simp: parse_step_def parseMultiplicative_loop_def less dest!: T)
  next
    case NUnary then show ?thesis
      by (auto simp: parse_step_def parseUnary_def same rank_def less)
  next
    case NPrimary
    have call: "length us < length ts \<Longrightarrow> parseCall env rec n k us \<noteq> None" for n us
      by (auto simp: parseCall_def less)
    have ident: "length us < length ts \<Longrightarrow> parseIdent env sc rec n k us \<noteq> None" for n us
    proof (cases us)
      case (Cons t r)
      assume us: "length us < length ts"
      then have r: "length r < length ts" using Cons by simp
      have dot: "(case r of [] \<Rightarrow> undefO | member # r2 \<Rightarrow>
         if t_type member \<noteq> TIdent then failO ''Expected member name''
         else peek r2 (\<lambda>v.
           if v = ''('' then parseCall env rec (n @ ''.'' @ t_value member) k (tl r2)
           else retO (resolveMember sc n (t_value member), r2))) \<noteq> None"
      proof (cases r)
        case (Cons member r2)
        then have "length (tl r2) < length ts" using r by auto
        then show ?thesis using Cons call by simp
      qed simp
      show ?thesis using Cons dot call [OF r] by (simp add: parseIdent_def)
    qed (simp add: parseIdent_def)
    show ?thesis
    proof (cases ts)
      case (Cons t r)
      then have r: "length r < length ts" by simp
      show ?thesis
        using NPrimary Cons less [OF r] ident [OF r]
        by (cases "t_type t") (auto simp: parse_step_def parsePrimary_def)
    qed (use NPrimary in \<open>simp add: parse_step_def parsePrimary_def\<close>)
  next
    case NArray then show ?thesis
      by (auto simp: parse_step_def parseArray_def same rank_def)
  next
    case (NArrayLoop l) then show ?thesis
      by (auto simp: parse_step_def parseArray_loop_def same rank_def consumes_def less split: list.splits dest!: S)
  next
    case NArgs
    have "rec NOr j ts \<noteq> None" for j using same NArgs by (simp add: rank_def)
    moreover have "rec (NArgsLoop [a]) j b \<noteq> None" if "rec NOr j ts = Some (Inr (a, b))" for a b j
      using S [OF that] less by (simp add: consumes_def)
    ultimately have "enterNested k (\<lambda>d. peek ts (\<lambda>v.
       if v \<noteq> '')'' then bindO (rec NOr d ts) (\<lambda>(a, ts). rec (NArgsLoop [a]) d ts)
       else bindO (expectOp '')'' ts) (\<lambda>ts. retO (Arr [], ts)))) \<noteq> None"
      by auto
    then show ?thesis using NArgs by (simp add: parse_step_def parseArgs_def)
  next
    case (NArgsLoop l) then show ?thesis
      by (auto simp: parse_step_def parseArgs_loop_def less dest!: T)
  qed
qed

lemma parse_fuel_defined: "defined_below n (parse_fuel env sc n)"
proof (induction n)
  case (Suc n)
  have "parse_step env sc (parse_fuel env sc n) nt k ts \<noteq> None" if "need nt ts < Suc n" for nt k ts
  proof (rule step_defined [OF parse_fuel_shrinks])
    show "defined_below (need nt ts) (parse_fuel env sc n)"
      using Suc that by (auto simp: defined_below_def)
  qed
  then show ?case by (simp add: defined_below_def)
qed (simp add: defined_below_def)

section \<open>More fuel changes nothing\<close>

definition extends :: "parse_rec \<Rightarrow> parse_rec \<Rightarrow> bool" where
  "extends rec rec' \<longleftrightarrow> (\<forall>nt d ts. rec nt d ts \<noteq> None \<longrightarrow> rec' nt d ts = rec nt d ts)"

definition le_out :: "'a out \<Rightarrow> 'a out \<Rightarrow> bool" where
  "le_out m m' \<longleftrightarrow> (m \<noteq> None \<longrightarrow> m' = m)"

lemma le_bind: "le_out m m' \<Longrightarrow> (\<And>x. le_out (f x) (f' x)) \<Longrightarrow> le_out (bindO m f) (bindO m' f')"
  by (auto simp: le_out_def bindO_def split: option.splits sum.splits)

lemma le_peek: "(\<And>v. le_out (k v) (k' v)) \<Longrightarrow> le_out (peek ts k) (peek ts k')"
  by (cases ts) (auto simp: le_out_def peek_def)

lemma le_nested: "(\<And>e. le_out (k e) (k' e)) \<Longrightarrow> le_out (enterNested d k) (enterNested d k')"
  by (auto simp: le_out_def enterNested_def)

lemma le_if: "le_out x x' \<Longrightarrow> le_out y y' \<Longrightarrow> le_out (if b then x else y) (if b then x' else y')"
  by simp

lemma le_pair: "(\<And>a b. le_out (f a b) (f' a b)) \<Longrightarrow> le_out (case_prod f p) (case_prod f' p)"
  by (cases p) simp

lemma le_list: "(\<And>a b. le_out (f a b) (f' a b)) \<Longrightarrow> le_out (case_list z f l) (case_list z f' l)"
  by (cases l) (simp_all add: le_out_def)

lemma le_type:
  "le_out b b' \<Longrightarrow> le_out c c' \<Longrightarrow> le_out (case_token_type x y c z b w t) (case_token_type x y c' z b' w t)"
  by (cases t) (simp_all add: le_out_def)

lemma le_refl: "le_out x x"
  by (simp add: le_out_def)

lemmas le_intros = le_refl le_bind le_peek le_nested le_if le_pair le_list le_type

lemma step_extends: assumes e: "extends rec rec'" shows "extends (parse_step env sc rec) (parse_step env sc rec')"
proof -
  have E: "le_out (rec nt d ts) (rec' nt d ts)" for nt d ts
    using e by (simp add: extends_def le_out_def)
  have call: "le_out (parseCall env rec n d ts) (parseCall env rec' n d ts)" for n d ts
    unfolding parseCall_def by (intro le_intros E)
  have ident: "le_out (parseIdent env sc rec n d ts) (parseIdent env sc rec' n d ts)" for n d ts
    unfolding parseIdent_def by (intro le_intros call)
  have "le_out (parse_step env sc rec nt d ts) (parse_step env sc rec' nt d ts)" for nt d ts
    by (cases nt; simp only: parse_step_def parse_nt.case parseLogicalOr_def parseLogicalOr_loop_def
        parseLogicalAnd_def parseLogicalAnd_loop_def parseComparison_def parseAdditive_def
        parseAdditive_loop_def parseMultiplicative_def parseMultiplicative_loop_def parseUnary_def
        parsePrimary_def parseArray_def parseArray_loop_def parseArgs_def parseArgs_loop_def)
      (intro le_intros E ident)+
  then show ?thesis by (simp add: extends_def le_out_def)
qed

lemma fuel_extends: "n \<le> m \<Longrightarrow> extends (parse_fuel env sc n) (parse_fuel env sc m)"
proof (induction n arbitrary: m)
  case 0 then show ?case by (simp add: extends_def)
next
  case (Suc n)
  then obtain k where "m = Suc k" "n \<le> k" by (cases m) auto
  then show ?case using Suc.IH [of k] by (simp add: step_extends)
qed

section \<open>The parser without fuel\<close>

definition parse_nt_of :: "eval_env \<Rightarrow> jsobj \<Rightarrow> parse_rec" where
  "parse_nt_of env sc nt d ts = parse_fuel env sc (Suc (need nt ts)) nt d ts"

lemma parse_fuel_enough: "need nt ts < n \<Longrightarrow> parse_fuel env sc n nt d ts = parse_nt_of env sc nt d ts"
proof -
  assume n: "need nt ts < n"
  have "parse_fuel env sc (Suc (need nt ts)) nt d ts \<noteq> None"
    using parse_fuel_defined [of "Suc (need nt ts)" env sc] by (simp add: defined_below_def)
  moreover have "extends (parse_fuel env sc (Suc (need nt ts))) (parse_fuel env sc n)"
    using n by (intro fuel_extends) simp
  ultimately show ?thesis by (simp add: extends_def parse_nt_of_def)
qed

lemma parse_nt_of_defined: "parse_nt_of env sc nt d ts \<noteq> None"
  using parse_fuel_defined [of "Suc (need nt ts)" env sc] by (simp add: defined_below_def parse_nt_of_def)

lemma fuel_extends_nt_of: "extends (parse_fuel env sc n) (parse_nt_of env sc)"
  unfolding extends_def
proof (intro allI impI)
  fix nt d ts assume n: "parse_fuel env sc n nt d ts \<noteq> None"
  let ?m = "max n (Suc (need nt ts))"
  have "parse_fuel env sc ?m nt d ts = parse_fuel env sc n nt d ts"
    using fuel_extends [of n ?m env sc] n by (simp add: extends_def)
  then show "parse_nt_of env sc nt d ts = parse_fuel env sc n nt d ts"
    using parse_fuel_enough [of nt ts ?m env sc d] by simp
qed

lemma parse_nt_of_unfold: "parse_nt_of env sc nt d ts = parse_step env sc (parse_nt_of env sc) nt d ts"
proof -
  have "extends (parse_step env sc (parse_fuel env sc (need nt ts))) (parse_step env sc (parse_nt_of env sc))"
    by (rule step_extends [OF fuel_extends_nt_of])
  moreover have "parse_nt_of env sc nt d ts = parse_step env sc (parse_fuel env sc (need nt ts)) nt d ts"
    by (simp add: parse_nt_of_def)
  ultimately show ?thesis using parse_nt_of_defined [of env sc nt d ts] by (simp add: extends_def)
qed

lemma nt_of_shrinks: "shrinks (parse_nt_of env sc)"
  unfolding shrinks_def parse_nt_of_def using parse_fuel_shrinks shrinksD by blast

lemma fuel_for_enough: "parse_fuel env sc (fuel_for ts) NOr d ts = parse_nt_of env sc NOr d ts"
  by (rule parse_fuel_enough) (simp add: need_def rank_def fuel_for_def)

text \<open>
  C26. The evaluator always returns, with a value or with an error of the code: for every
  expression, every scope, every registry and every implementation of the \<open>Math\<close> functions,
  the fuel the model gives the parser is enough.
\<close>

theorem evaluator_always_returns:
  "\<exists>r. evaluateWith env expression scope = Some r"
proof -
  have "parser_parse env scope ts \<noteq> None" for ts
    using parse_nt_of_defined
    by (auto simp: parser_parse_def fuel_for_enough split: list.splits if_splits)
  then show ?thesis by (auto simp: evaluateWith_def bindO_def split: sum.splits)
qed

end
