(* ===== verification/EvaluatorSpec.thy ===== *)
theory EvaluatorSpec
  imports EvaluatorTotal
begin

text \<open>
  A reference semantics of the formula language, and the proof that the parser computes it: an
  abstract syntax with its evaluation \<open>ev\<close> and a printer \<open>pr\<close> that writes parentheses only
  where precedence or left associativity needs them. \<open>parse_printed\<close>: parsing the printed
  tokens gives the reference value, for every expression within the nesting limit whose string
  literals are none of the four texts the parser mistakes for an operator or a bracket.
\<close>

section \<open>Syntax and reference evaluation\<close>

datatype expr =
    ENum string
  | EStr string
  | EBool bool
  | ENull
  | EVar string
  | EMember string string
  | ECall string "expr list"
  | EMemberCall string string "expr list"
  | EArray "expr list"
  | ENeg expr
  | ENot expr
  | EMul string expr expr
  | EAdd string expr expr
  | ECmp string expr expr
  | EAnd expr expr
  | EOr expr expr

fun ev :: "eval_env \<Rightarrow> jsobj \<Rightarrow> expr \<Rightarrow> jsval res"
and evs :: "eval_env \<Rightarrow> jsobj \<Rightarrow> expr list \<Rightarrow> jsval list res" where
  "ev env sc (ENum s) = Inr (Num (parse_float s))"
| "ev env sc (EStr s) = Inr (Str s)"
| "ev env sc (EBool b) = Inr (Bool b)"
| "ev env sc ENull = Inr Null"
| "ev env sc (EVar x) = Inr (resolveIdentifier sc x)"
| "ev env sc (EMember x m) = Inr (resolveMember sc x m)"
| "ev env sc (ECall f es) = bindR (evs env sc es) (callFunction env f)"
| "ev env sc (EMemberCall x m es) = bindR (evs env sc es) (callFunction env (x @ ''.'' @ m))"
| "ev env sc (EArray es) = bindR (evs env sc es) (\<lambda>vs. Inr (Arr vs))"
| "ev env sc (ENeg a) = bindR (ev env sc a) (\<lambda>v. Inr (Num (num_neg (toNumber v))))"
| "ev env sc (ENot a) = bindR (ev env sc a) (\<lambda>v. Inr (Bool (\<not> truthy v)))"
| "ev env sc (EMul op a b) = bindR (ev env sc a) (\<lambda>v. bindR (ev env sc b) (\<lambda>w. Inr (apply_mul op v w)))"
| "ev env sc (EAdd op a b) = bindR (ev env sc a) (\<lambda>v. bindR (ev env sc b) (\<lambda>w. Inr (apply_add op v w)))"
| "ev env sc (ECmp op a b) = bindR (ev env sc a) (\<lambda>v. bindR (ev env sc b) (\<lambda>w. Inr (Bool (apply_cmp op v w))))"
| "ev env sc (EAnd a b) = bindR (ev env sc a) (\<lambda>v. bindR (ev env sc b) (\<lambda>w. Inr (Bool (truthy v \<and> truthy w))))"
| "ev env sc (EOr a b) = bindR (ev env sc a) (\<lambda>v. bindR (ev env sc b) (\<lambda>w. Inr (Bool (truthy v \<or> truthy w))))"
| "evs env sc [] = Inr []"
| "evs env sc (e # es) = bindR (ev env sc e) (\<lambda>v. bindR (evs env sc es) (\<lambda>vs. Inr (v # vs)))"

section \<open>Printing\<close>

fun prec :: "expr \<Rightarrow> nat" where
  "prec (EOr a b) = 0"
| "prec (EAnd a b) = 1"
| "prec (ECmp op a b) = 2"
| "prec (EAdd op a b) = 3"
| "prec (EMul op a b) = 4"
| "prec (ENeg a) = 5"
| "prec (ENot a) = 5"
| "prec e = 6"

abbreviation ident_tok :: "string \<Rightarrow> token" where "ident_tok x \<equiv> tok TIdent x 0"
abbreviation op_tok :: "string \<Rightarrow> token" where "op_tok x \<equiv> tok TOp x 0"
abbreviation paren_tok :: "string \<Rightarrow> token" where "paren_tok x \<equiv> tok TParen x 0"

definition paren_if :: "bool \<Rightarrow> token list \<Rightarrow> token list" where
  "paren_if b ts = (if b then paren_tok ''('' # ts @ [paren_tok '')''] else ts)"

fun pr :: "nat \<Rightarrow> expr \<Rightarrow> token list"
and pr_more :: "expr list \<Rightarrow> token list" where
  "pr p (ENum s) = [tok TNum s 0]"
| "pr p (EStr s) = [tok TStr s 0]"
| "pr p (EBool b) = [ident_tok (if b then ''true'' else ''false'')]"
| "pr p ENull = [ident_tok ''null'']"
| "pr p (EVar x) = [ident_tok x]"
| "pr p (EMember x m) = [ident_tok x, op_tok ''.'', ident_tok m]"
| "pr p (ECall f es) = [ident_tok f, paren_tok ''(''] @
     (case es of [] \<Rightarrow> [] | e # es' \<Rightarrow> pr 0 e @ pr_more es') @ [paren_tok '')'']"
| "pr p (EMemberCall x m es) = [ident_tok x, op_tok ''.'', ident_tok m, paren_tok ''(''] @
     (case es of [] \<Rightarrow> [] | e # es' \<Rightarrow> pr 0 e @ pr_more es') @ [paren_tok '')'']"
| "pr p (EArray es) = [paren_tok ''[''] @
     (case es of [] \<Rightarrow> [] | e # es' \<Rightarrow> pr 0 e @ pr_more es') @ [paren_tok '']'']"
| "pr p (ENeg a) = paren_if (5 < p) (op_tok ''-'' # pr 5 a)"
| "pr p (ENot a) = paren_if (5 < p) (op_tok ''!'' # pr 5 a)"
| "pr p (EMul op a b) = paren_if (4 < p) (pr 4 a @ [op_tok op] @ pr 5 b)"
| "pr p (EAdd op a b) = paren_if (3 < p) (pr 3 a @ [op_tok op] @ pr 4 b)"
| "pr p (ECmp op a b) = paren_if (2 < p) (pr 3 a @ [op_tok op] @ pr 3 b)"
| "pr p (EAnd a b) = paren_if (1 < p) (pr 1 a @ [op_tok ''&&''] @ pr 2 b)"
| "pr p (EOr a b) = paren_if (0 < p) (pr 0 a @ [op_tok ''||''] @ pr 1 b)"
| "pr_more [] = []"
| "pr_more (e # es) = op_tok '','' # pr 0 e @ pr_more es"

definition pr_args :: "expr list \<Rightarrow> token list" where
  "pr_args es = (case es of [] \<Rightarrow> [] | e # es' \<Rightarrow> pr 0 e @ pr_more es')"

section \<open>Well-formed expressions and their nesting\<close>

text \<open>The texts of string literals that the parser mistakes for an operator or a bracket.\<close>

definition confusing :: "string list" where
  "confusing = [''-'', ''!'', '')'', '']'']"

fun wf :: "expr \<Rightarrow> bool"
and wfs :: "expr list \<Rightarrow> bool" where
  "wf (ENum s) = (list_all is_num_char s \<and> s \<noteq> [])"
| "wf (EStr s) = (s \<notin> set confusing)"
| "wf (EBool b) = True"
| "wf ENull = True"
| "wf (EVar x) = (NAME_RE x \<and> x \<notin> {''true'', ''false'', ''null''})"
| "wf (EMember x m) = NAME_RE x"
| "wf (ECall f es) = (NAME_RE f \<and> wfs es)"
| "wf (EMemberCall x m es) = (NAME_RE x \<and> wfs es)"
| "wf (EArray es) = wfs es"
| "wf (ENeg a) = wf a"
| "wf (ENot a) = wf a"
| "wf (EMul op a b) = (op \<in> {''*'', ''/'', ''%''} \<and> wf a \<and> wf b)"
| "wf (EAdd op a b) = (op \<in> {''+'', ''-''} \<and> wf a \<and> wf b)"
| "wf (ECmp op a b) = (op \<in> set cmp_ops \<and> wf a \<and> wf b)"
| "wf (EAnd a b) = (wf a \<and> wf b)"
| "wf (EOr a b) = (wf a \<and> wf b)"
| "wfs [] = True"
| "wfs (e # es) = (wf e \<and> wfs es)"

text \<open>
  How deep the parser nests on the expression printed at level \<open>p\<close>: one for each operand, one
  more for its parentheses, brackets or argument list.
\<close>

definition nest_if :: "bool \<Rightarrow> nat \<Rightarrow> nat" where
  "nest_if b n = (if b then n + 2 else n)"

fun nesting :: "nat \<Rightarrow> expr \<Rightarrow> nat"
and nestings :: "expr list \<Rightarrow> nat" where
  "nesting p (ECall f es) = 2 + nestings es"
| "nesting p (EMemberCall x m es) = 2 + nestings es"
| "nesting p (EArray es) = 2 + nestings es"
| "nesting p (ENeg a) = nest_if (5 < p) (1 + nesting 5 a)"
| "nesting p (ENot a) = nest_if (5 < p) (1 + nesting 5 a)"
| "nesting p (EMul op a b) = nest_if (4 < p) (max (nesting 4 a) (nesting 5 b))"
| "nesting p (EAdd op a b) = nest_if (3 < p) (max (nesting 3 a) (nesting 4 b))"
| "nesting p (ECmp op a b) = nest_if (2 < p) (max (nesting 3 a) (nesting 3 b))"
| "nesting p (EAnd a b) = nest_if (1 < p) (max (nesting 1 a) (nesting 2 b))"
| "nesting p (EOr a b) = nest_if (0 < p) (max (nesting 0 a) (nesting 1 b))"
| "nesting p e = 1"
| "nestings [] = 0"
| "nestings (e # es) = max (nesting 0 e) (nestings es)"

section \<open>The parser equations at work\<close>

definition level_nt :: "nat \<Rightarrow> parse_nt" where
  "level_nt p = [NOr, NAnd, NCmp, NAdd, NMul, NUnary] ! p"

text \<open>The operators that bind tighter than level \<open>p\<close>, or end a comparison.\<close>

definition level_ops :: "nat \<Rightarrow> string list" where
  "level_ops p = [[''||''], [''&&''], cmp_ops, [''+'', ''-''], [''*'', ''/'', ''%''], []] ! p"

definition tighter :: "nat \<Rightarrow> string list" where
  "tighter p = (if p = 0 then [''&&''] else []) @ (if p \<le> 2 then cmp_ops @ [''+'', ''-''] else [])
     @ (if p \<le> 3 then [''*'', ''/'', ''%''] else [])"

definition follow :: "nat \<Rightarrow> token list \<Rightarrow> bool" where
  "follow p ts \<longleftrightarrow> (case ts of [] \<Rightarrow> False | t # _ \<Rightarrow> t_value t \<notin> {''('', ''.''} \<and> t_value t \<notin> set (tighter p))"

text \<open>What the parser does after an operand of level \<open>p\<close> with value \<open>v\<close>.\<close>

definition cont :: "eval_env \<Rightarrow> jsobj \<Rightarrow> nat \<Rightarrow> jsval \<Rightarrow> nat \<Rightarrow> token list \<Rightarrow> parsed" where
  "cont env sc p v d ts =
     (if p = 0 then parse_nt_of env sc (NOrLoop v) d ts
      else if p = 1 then parse_nt_of env sc (NAndLoop v) d ts
      else if p = 3 then parse_nt_of env sc (NAddLoop v) d ts
      else if p = 4 then parse_nt_of env sc (NMulLoop v) d ts
      else retO (v, ts))"

definition parses :: "eval_env \<Rightarrow> jsobj \<Rightarrow> nat \<Rightarrow> nat \<Rightarrow> token list \<Rightarrow> jsval res \<Rightarrow> token list \<Rightarrow> bool" where
  "parses env sc p d ts r rest \<longleftrightarrow>
     parse_nt_of env sc (level_nt p) d ts = bindO (Some r) (\<lambda>v. cont env sc p v d rest)"

lemmas P_defs = parse_step_def parseLogicalOr_def parseLogicalOr_loop_def parseLogicalAnd_def
  parseLogicalAnd_loop_def parseComparison_def parseAdditive_def parseAdditive_loop_def
  parseMultiplicative_def parseMultiplicative_loop_def parseUnary_def parsePrimary_def parseArray_def
  parseArray_loop_def parseArgs_def parseArgs_loop_def

lemma P_unfold:
  "parse_nt_of env sc NOr d ts = parseLogicalOr (parse_nt_of env sc) d ts"
  "parse_nt_of env sc (NOrLoop l) d ts = parseLogicalOr_loop (parse_nt_of env sc) l d ts"
  "parse_nt_of env sc NAnd d ts = parseLogicalAnd (parse_nt_of env sc) d ts"
  "parse_nt_of env sc (NAndLoop l) d ts = parseLogicalAnd_loop (parse_nt_of env sc) l d ts"
  "parse_nt_of env sc NCmp d ts = parseComparison (parse_nt_of env sc) d ts"
  "parse_nt_of env sc NAdd d ts = parseAdditive (parse_nt_of env sc) d ts"
  "parse_nt_of env sc (NAddLoop l) d ts = parseAdditive_loop (parse_nt_of env sc) l d ts"
  "parse_nt_of env sc NMul d ts = parseMultiplicative (parse_nt_of env sc) d ts"
  "parse_nt_of env sc (NMulLoop l) d ts = parseMultiplicative_loop (parse_nt_of env sc) l d ts"
  "parse_nt_of env sc NUnary d ts = parseUnary (parse_nt_of env sc) d ts"
  "parse_nt_of env sc NPrimary d ts = parsePrimary env sc (parse_nt_of env sc) d ts"
  "parse_nt_of env sc NArray d ts = parseArray (parse_nt_of env sc) d ts"
  "parse_nt_of env sc (NArrayLoop vs) d ts = parseArray_loop (parse_nt_of env sc) vs d ts"
  "parse_nt_of env sc NArgs d ts = parseArgs (parse_nt_of env sc) d ts"
  "parse_nt_of env sc (NArgsLoop vs) d ts = parseArgs_loop (parse_nt_of env sc) vs d ts"
  by (subst parse_nt_of_unfold, simp add: parse_step_def)+

lemma bindO_assoc: "bindO (bindO m f) g = bindO m (\<lambda>x. bindO (f x) g)"
  by (auto simp: bindO_def split: option.splits sum.splits)

lemma bindO_cong_Inr: "(\<And>x. r = Inr x \<Longrightarrow> f x = g x) \<Longrightarrow> bindO (Some r) f = bindO (Some r) g"
  by (cases r) auto

lemma bindR_out: "Some (bindR r f) = bindO (Some r) (\<lambda>x. Some (f x))"
  by (cases r) auto

text \<open>A looser level goes through the next tighter one.\<close>

lemma level_descend:
  assumes "p < 5" "follow p rest" "parses env sc (Suc p) d ts r rest"
  shows "parses env sc p d ts r rest"
proof -
  obtain t us where rest: "rest = t # us" "t_value t \<notin> set (tighter p)"
    using assms(2) by (cases rest) (auto simp: follow_def)
  consider "p = 0" | "p = 1" | "p = 2" | "p = 3" | "p = 4" using assms(1) by linarith
  then show ?thesis
  proof cases
    case 1
    have "cont env sc 1 v d rest = retO (v, rest)" for v
      using rest 1 by (simp add: cont_def P_unfold(4) parseLogicalAnd_loop_def peek_def tighter_def)
    then show ?thesis using assms(3) 1
      by (simp add: parses_def level_nt_def P_unfold(1) parseLogicalOr_def bindO_assoc) (simp add: cont_def)
  next
    case 2
    then show ?thesis using assms(3)
      by (simp add: parses_def level_nt_def P_unfold(3) parseLogicalAnd_def bindO_assoc cont_def numeral_2_eq_2)
  next
    case 3
    have "cont env sc 3 v d rest = retO (v, rest)" for v
      using rest 3 by (simp add: cont_def P_unfold(7) parseAdditive_loop_def peek_def tighter_def)
    then show ?thesis using assms(3) 3 rest
      by (simp add: parses_def level_nt_def P_unfold(5) parseComparison_def bindO_assoc peek_def tighter_def
          numeral_3_eq_3 numeral_2_eq_2) (simp add: cont_def numeral_2_eq_2)
  next
    case 4
    have "cont env sc 4 v d rest = retO (v, rest)" for v
      using rest 4 by (simp add: cont_def P_unfold(9) parseMultiplicative_loop_def peek_def tighter_def)
    then show ?thesis using assms(3) 4
      by (simp add: parses_def level_nt_def P_unfold(6) parseAdditive_def bindO_assoc) (simp add: cont_def)
  next
    case 5
    then show ?thesis using assms(3)
      by (simp add: parses_def level_nt_def P_unfold(8) parseMultiplicative_def bindO_assoc) (simp add: cont_def)
  qed
qed

lemma follow_tighter: "follow p rest \<Longrightarrow> p \<le> q \<Longrightarrow> follow q rest"
  by (cases rest) (auto simp: follow_def tighter_def)

lemma level_descend_to:
  assumes "p \<le> q" "q \<le> 5" "follow p rest" "parses env sc q d ts r rest"
  shows "parses env sc p d ts r rest"
  using assms
proof (induction rule: inc_induct)
  case (step n)
  then have "parses env sc (Suc n) d ts r rest" using follow_tighter [of n rest "Suc n"] by simp
  then show ?case using step level_descend [of n rest env sc d ts r] by simp
qed

lemma unary_primary:
  assumes "t_value t \<notin> {''-'', ''!''}" "Suc d \<le> MAX_DEPTH"
    and "parse_nt_of env sc NPrimary (Suc d) (t # us) = bindO (Some r) (\<lambda>v. retO (v, rest))"
  shows "parses env sc 5 d (t # us) r rest"
  using assms by (simp add: parses_def level_nt_def P_unfold(10) parseUnary_def enterNested_def peek_def cont_def)

definition prints :: "eval_env \<Rightarrow> jsobj \<Rightarrow> nat \<Rightarrow> nat \<Rightarrow> token list \<Rightarrow> jsval res \<Rightarrow> bool" where
  "prints env sc q n ts r \<longleftrightarrow>
     (\<forall>d rest. d + n \<le> MAX_DEPTH \<longrightarrow> follow q rest \<longrightarrow> parses env sc q d (ts @ rest) r rest)"

lemma stop_at:
  assumes "t_value t \<in> {'','', '')'', '']''}"
  shows "follow p (t # us)" "cont env sc p v d (t # us) = retO (v, t # us)"
proof -
  show "follow p (t # us)" using assms by (auto simp: follow_def tighter_def cmp_ops_def)
  show "cont env sc p v d (t # us) = retO (v, t # us)"
    using assms by (auto simp: cont_def P_unfold parseLogicalOr_loop_def parseLogicalAnd_loop_def
        parseAdditive_loop_def parseMultiplicative_loop_def peek_def)
qed

lemma paren_parses:
  assumes "prints env sc 0 n ts r" "d + (n + 2) \<le> MAX_DEPTH"
  shows "parses env sc 5 d (paren_tok ''('' # ts @ paren_tok '')'' # rest) r rest"
proof (rule unary_primary)
  have "parses env sc 0 (Suc (Suc d)) (ts @ paren_tok '')'' # rest) r (paren_tok '')'' # rest)"
    using assms stop_at(1) [of "paren_tok '')''"] by (simp add: prints_def)
  then have "parse_nt_of env sc NOr (Suc (Suc d)) (ts @ paren_tok '')'' # rest) =
      bindO (Some r) (\<lambda>v. retO (v, paren_tok '')'' # rest))"
    using stop_at(2) [of "paren_tok '')''" env sc 0] by (simp add: parses_def level_nt_def)
  then show "parse_nt_of env sc NPrimary (Suc d) (paren_tok ''('' # ts @ paren_tok '')'' # rest) =
      bindO (Some r) (\<lambda>v. retO (v, rest))"
    using assms(2) by (simp add: P_unfold(11) parsePrimary_def enterNested_def bindO_assoc expectOp_def)
qed (use assms(2) in simp_all)

lemma wrap:
  assumes "prints env sc q n ts r" "q \<le> 5" "p \<le> 5"
  shows "prints env sc p (nest_if (q < p) n) (paren_if (q < p) ts) r"
  unfolding prints_def
proof (intro allI impI)
  fix d rest assume d: "d + nest_if (q < p) n \<le> MAX_DEPTH" and f: "follow p rest"
  show "parses env sc p d (paren_if (q < p) ts @ rest) r rest"
  proof (cases "q < p")
    case True
    have "prints env sc 0 n ts r" unfolding prints_def
    proof (intro allI impI)
      fix d rest assume a: "d + n \<le> MAX_DEPTH" "follow 0 rest"
      then have "parses env sc q d (ts @ rest) r rest"
        using assms(1) follow_tighter [of 0 rest q] by (simp add: prints_def)
      then show "parses env sc 0 d (ts @ rest) r rest"
        using level_descend_to [of 0 q rest env sc d "ts @ rest" r] a assms(2) by simp
    qed
    then have "parses env sc 5 d (paren_tok ''('' # ts @ paren_tok '')'' # rest) r rest"
      using d True by (intro paren_parses [of env sc n]) (simp_all add: nest_if_def)
    then show ?thesis using True f assms(3) by (simp add: paren_if_def level_descend_to)
  next
    case False
    then have "parses env sc q d (ts @ rest) r rest"
      using assms(1) d f follow_tighter [of p rest q] by (simp add: prints_def nest_if_def)
    then show ?thesis using False f assms(2) level_descend_to [of p q rest env sc d "ts @ rest" r]
      by (simp add: paren_if_def)
  qed
qed

section \<open>Heads of printed expressions\<close>

lemma NAME_head: "NAME_RE x \<Longrightarrow> x \<notin> set confusing"
  by (auto simp: NAME_RE_def confusing_def is_id_start_def char_class_defs char_codes)
    (auto simp: char_code_def)

lemma num_head: "list_all is_num_char x \<Longrightarrow> x \<noteq> [] \<Longrightarrow> x \<notin> set confusing"
  by (auto simp: confusing_def is_num_char_def char_class_defs) (auto simp: char_code_def)

lemma lit_head: "''true'' \<notin> set confusing" "''false'' \<notin> set confusing" "''null'' \<notin> set confusing"
  by (simp_all add: confusing_def)

lemma pr_head: "wf e \<Longrightarrow> \<exists>t us. pr p e = t # us \<and> t_value t \<notin> {'')'', '']''}"
proof (induction e arbitrary: p)
  case (ENum s) then show ?case using num_head [of s] by (auto simp: confusing_def)
next
  case (EBool b) then show ?case using lit_head by (auto simp: confusing_def)
next
  case (EVar x) then show ?case using NAME_head [of x] by (auto simp: confusing_def)
next
  case (EMember x m) then show ?case using NAME_head [of x] by (auto simp: confusing_def)
next
  case (ECall x es) then show ?case using NAME_head [of x] by (auto simp: confusing_def)
next
  case (EMemberCall x m es) then show ?case using NAME_head [of x] by (auto simp: confusing_def)
next
  case (EMul op a b)
  then obtain t us where "pr 4 a = t # us" "t_value t \<notin> {'')'', '']''}" using EMul.IH(1) [of 4] EMul.prems by (simp, blast)
  then show ?case by (auto simp: paren_if_def)
next
  case (EAdd op a b)
  then obtain t us where "pr 3 a = t # us" "t_value t \<notin> {'')'', '']''}" using EAdd.IH(1) [of 3] EAdd.prems by (simp, blast)
  then show ?case by (auto simp: paren_if_def)
next
  case (ECmp op a b)
  then obtain t us where "pr 3 a = t # us" "t_value t \<notin> {'')'', '']''}" using ECmp.IH(1) [of 3] ECmp.prems by (simp, blast)
  then show ?case by (auto simp: paren_if_def)
next
  case (EAnd a b)
  then obtain t us where "pr 1 a = t # us" "t_value t \<notin> {'')'', '']''}" using EAnd.IH(1) [of 1] EAnd.prems by (simp, blast)
  then show ?case by (auto simp: paren_if_def)
next
  case (EOr a b)
  then obtain t us where "pr 0 a = t # us" "t_value t \<notin> {'')'', '']''}" using EOr.IH(1) [of 0] EOr.prems by (simp, blast)
  then show ?case by (auto simp: paren_if_def)
qed (auto simp: paren_if_def confusing_def)

section \<open>Lists of arguments and elements\<close>

lemma or_item:
  assumes "prints env sc 0 n ts r" "d + n \<le> MAX_DEPTH" "t_value t \<in> {'','', '')'', '']''}"
  shows "parse_nt_of env sc NOr d (ts @ t # us) = bindO (Some r) (\<lambda>v. retO (v, t # us))"
proof -
  have "parses env sc 0 d (ts @ t # us) r (t # us)"
    using assms stop_at(1) [of t 0 us] by (simp add: prints_def)
  then show ?thesis using stop_at(2) [OF assms(3)] by (simp add: parses_def level_nt_def)
qed

lemma more_head:
  "\<exists>t us. pr_more es @ paren_tok c # rest = t # us \<and> t_value t \<in> {'','', c}"
  by (cases es) auto

lemma args_more:
  assumes "\<forall>e \<in> set es. prints env sc 0 (nesting 0 e) (pr 0 e) (ev env sc e)" "d + nestings es \<le> MAX_DEPTH"
  shows "parse_nt_of env sc (NArgsLoop acc) d (pr_more es @ paren_tok '')'' # rest) =
    bindO (Some (evs env sc es)) (\<lambda>vs. retO (Arr (acc @ vs), rest))"
  using assms
proof (induction es arbitrary: acc)
  case Nil
  then show ?case by (simp add: P_unfold(15) parseArgs_loop_def peek_def expectOp_def)
next
  case (Cons e es)
  let ?tail = "pr_more es @ paren_tok '')'' # rest"
  obtain t us where t: "?tail = t # us" "t_value t \<in> {'','', '')'', '']''}"
    using more_head [of es "'')''" rest] by auto
  have item: "parse_nt_of env sc NOr d (pr 0 e @ ?tail) = bindO (Some (ev env sc e)) (\<lambda>v. retO (v, ?tail))"
    unfolding t(1) by (rule or_item [where n = "nesting 0 e", OF _ _ t(2)]) (use Cons.prems in auto)
  have IH: "parse_nt_of env sc (NArgsLoop (acc @ [v])) d ?tail =
      bindO (Some (evs env sc es)) (\<lambda>vs. retO (Arr ((acc @ [v]) @ vs), rest))" for v
    using Cons by simp
  have "parse_nt_of env sc (NArgsLoop acc) d (op_tok '','' # pr 0 e @ ?tail) =
      bindO (parse_nt_of env sc NOr d (pr 0 e @ ?tail)) (\<lambda>(a, ts). parse_nt_of env sc (NArgsLoop (acc @ [a])) d ts)"
    unfolding P_unfold(15) [of env sc acc d "op_tok '','' # pr 0 e @ ?tail"] by (simp add: parseArgs_loop_def peek_def)
  then show ?case unfolding item
    by (cases "ev env sc e"; cases "evs env sc es") (simp_all add: IH)
qed

lemma args_parse:
  assumes "\<forall>e \<in> set es. prints env sc 0 (nesting 0 e) (pr 0 e) (ev env sc e)" "wfs es"
    "Suc d + nestings es \<le> MAX_DEPTH"
  shows "parse_nt_of env sc NArgs d (pr_args es @ paren_tok '')'' # rest) =
    bindO (Some (evs env sc es)) (\<lambda>vs. retO (Arr vs, rest))"
proof (cases es)
  case Nil
  then show ?thesis using assms(3)
    by (simp add: pr_args_def P_unfold(14) parseArgs_def enterNested_def peek_def expectOp_def)
next
  case (Cons e es')
  let ?tail = "pr_more es' @ paren_tok '')'' # rest"
  obtain t us where t: "?tail = t # us" "t_value t \<in> {'','', '')'', '']''}"
    using more_head [of es' "'')''" rest] by auto
  obtain h hs where h: "pr 0 e = h # hs" "t_value h \<notin> {'')'', '']''}"
    using pr_head [of e 0] assms(2) Cons by auto
  have item: "parse_nt_of env sc NOr (Suc d) (pr 0 e @ ?tail) = bindO (Some (ev env sc e)) (\<lambda>v. retO (v, ?tail))"
    unfolding t(1) by (rule or_item [where n = "nesting 0 e", OF _ _ t(2)]) (use assms Cons in auto)
  have loop: "parse_nt_of env sc (NArgsLoop [v]) (Suc d) ?tail =
      bindO (Some (evs env sc es')) (\<lambda>vs. retO (Arr ([v] @ vs), rest))" for v
    using assms Cons by (intro args_more) auto
  have "parse_nt_of env sc NArgs d (pr 0 e @ ?tail) =
      bindO (parse_nt_of env sc NOr (Suc d) (pr 0 e @ ?tail)) (\<lambda>(a, ts). parse_nt_of env sc (NArgsLoop [a]) (Suc d) ts)"
    using assms(3) h by (simp add: P_unfold(14) parseArgs_def enterNested_def peek_def)
  then show ?thesis using Cons item loop
    by (cases "ev env sc e"; cases "evs env sc es'") (simp_all add: pr_args_def)
qed

lemma array_more:
  assumes "\<forall>e \<in> set (e # es). prints env sc 0 (nesting 0 e) (pr 0 e) (ev env sc e)" "wfs (e # es)"
    "d + nestings (e # es) \<le> MAX_DEPTH"
  shows "parse_nt_of env sc (NArrayLoop acc) d (pr 0 e @ pr_more es @ paren_tok '']'' # rest) =
    bindO (Some (evs env sc (e # es))) (\<lambda>vs. retO (Arr (acc @ vs), rest))"
  using assms
proof (induction es arbitrary: acc e)
  case Nil
  have "parse_nt_of env sc NOr d (pr 0 e @ paren_tok '']'' # rest) =
      bindO (Some (ev env sc e)) (\<lambda>v. retO (v, paren_tok '']'' # rest))"
    by (rule or_item [where n = "nesting 0 e"]) (use Nil in auto)
  then show ?case by (simp add: P_unfold(13) parseArray_loop_def) (cases "ev env sc e"; simp)
next
  case (Cons e' es)
  let ?tail = "pr 0 e' @ pr_more es @ paren_tok '']'' # rest"
  obtain h hs where h: "pr 0 e' = h # hs" "t_value h \<notin> {'')'', '']''}"
    using pr_head [of e' 0] Cons.prems(2) by auto
  have item: "parse_nt_of env sc NOr d (pr 0 e @ op_tok '','' # ?tail) =
      bindO (Some (ev env sc e)) (\<lambda>v. retO (v, op_tok '','' # ?tail))"
    by (rule or_item [where n = "nesting 0 e"]) (use Cons.prems in auto)
  have IH: "parse_nt_of env sc (NArrayLoop (acc @ [v])) d ?tail =
      bindO (Some (evs env sc (e' # es))) (\<lambda>vs. retO (Arr ((acc @ [v]) @ vs), rest))" for v
    using Cons by simp
  have pk: "peek ?tail k = k (t_value h)" for k :: "string \<Rightarrow> parsed" using h by (simp add: peek_def)
  have "parse_nt_of env sc (NArrayLoop acc) d (pr 0 e @ op_tok '','' # ?tail) =
      bindO (Some (ev env sc e)) (\<lambda>v. parse_nt_of env sc (NArrayLoop (acc @ [v])) d ?tail)"
    using h(2) by (subst P_unfold(13)) (simp add: parseArray_loop_def item bindO_assoc pk)
  then show ?case unfolding IH
    by (cases "ev env sc e"; cases "evs env sc (e' # es)") (simp_all del: evs.simps add: evs.simps(2) [of _ _ e])
qed

lemma array_parse:
  assumes "\<forall>e \<in> set es. prints env sc 0 (nesting 0 e) (pr 0 e) (ev env sc e)" "wfs es" "d + nestings es \<le> MAX_DEPTH"
  shows "parse_nt_of env sc NArray d (pr_args es @ paren_tok '']'' # rest) =
    bindO (Some (evs env sc es)) (\<lambda>vs. retO (Arr vs, rest))"
proof (cases es)
  case Nil
  then show ?thesis by (simp add: pr_args_def P_unfold(12) parseArray_def peek_def)
next
  case (Cons e es')
  obtain h hs where h: "pr 0 e = h # hs" "t_value h \<notin> {'')'', '']''}"
    using pr_head [of e 0] assms(2) Cons by auto
  have "parse_nt_of env sc NArray d (pr 0 e @ pr_more es' @ paren_tok '']'' # rest) =
      parse_nt_of env sc (NArrayLoop []) d (pr 0 e @ pr_more es' @ paren_tok '']'' # rest)"
    using h by (simp add: P_unfold(12) parseArray_def peek_def)
  then show ?thesis using array_more [of e es' env sc d "[]" rest] assms Cons by (simp add: pr_args_def)
qed

section \<open>The parser computes the reference value\<close>

lemma primary_prints:
  assumes "t_value t \<notin> {''-'', ''!''}" "1 \<le> n" "p \<le> 5"
    and prim: "\<And>d rest. d + n \<le> MAX_DEPTH \<Longrightarrow> follow 5 rest \<Longrightarrow>
      parse_nt_of env sc NPrimary (Suc d) (t # us @ rest) = bindO (Some r) (\<lambda>v. retO (v, rest))"
  shows "prints env sc p n (t # us) r"
  unfolding prints_def
proof (intro allI impI)
  fix d rest assume d: "d + n \<le> MAX_DEPTH" and f: "follow p rest"
  have "parses env sc 5 d (t # us @ rest) r rest"
    using assms d follow_tighter [OF f, of 5] by (intro unary_primary) auto
  then show "parses env sc p d ((t # us) @ rest) r rest"
    using level_descend_to [of p 5 rest env sc d "t # us @ rest" r] f assms(3) by simp
qed

lemma follow5: "follow 5 rest \<Longrightarrow> \<exists>t us. rest = t # us \<and> t_value t \<noteq> ''('' \<and> t_value t \<noteq> ''.''"
  by (cases rest) (auto simp: follow_def)

lemma cont_stop: "follow p rest \<Longrightarrow> p < q \<Longrightarrow> cont env sc q v d rest = retO (v, rest)"
  by (cases rest) (auto simp: follow_def tighter_def cont_def P_unfold parseLogicalAnd_loop_def
      parseAdditive_loop_def parseMultiplicative_loop_def peek_def)

lemma parsesD:
  assumes "prints env sc q n ts r" "d + n \<le> MAX_DEPTH" "follow q rest"
  shows "parse_nt_of env sc (level_nt q) d (ts @ rest) = bindO (Some r) (\<lambda>v. cont env sc q v d rest)"
  using assms by (simp add: prints_def parses_def)

text \<open>An operator of a loop: the left operand at its level \<open>p\<close>, the right operand one tighter.\<close>

lemma loop_prints:
  assumes a: "prints env sc p n ts ra" and b: "prints env sc (Suc p) m us rb"
    and op: "\<And>us. follow p (op_tok op # us)"
    and step: "\<And>v d us. cont env sc p v d (op_tok op # us) =
      bindO (parse_nt_of env sc (level_nt (Suc p)) d us) (\<lambda>(w, ts). cont env sc p (f v w) d ts)"
  shows "prints env sc p (max n m) (ts @ [op_tok op] @ us) (bindR ra (\<lambda>v. bindR rb (\<lambda>w. Inr (f v w))))"
  unfolding prints_def
proof (intro allI impI)
  fix d rest assume d: "d + max n m \<le> MAX_DEPTH" and f: "follow p rest"
  have A: "parse_nt_of env sc (level_nt p) d (ts @ op_tok op # us @ rest) =
      bindO (Some ra) (\<lambda>v. cont env sc p v d (op_tok op # us @ rest))"
    using d by (intro parsesD [OF a _ op]) simp
  have B: "parse_nt_of env sc (level_nt (Suc p)) d (us @ rest) = bindO (Some rb) (\<lambda>w. retO (w, rest))"
    using d parsesD [OF b, of d rest] follow_tighter [OF f, of "Suc p"] cont_stop [OF f, of "Suc p" env sc] by simp
  have S: "cont env sc p v d (op_tok op # us @ rest) =
      bindO (bindO (Some rb) (\<lambda>w. retO (w, rest))) (\<lambda>(w, ts). cont env sc p (f v w) d ts)" for v
    unfolding step B ..
  show "parses env sc p d ((ts @ [op_tok op] @ us) @ rest) (bindR ra (\<lambda>v. bindR rb (\<lambda>w. Inr (f v w)))) rest"
    unfolding parses_def append_assoc append_Cons append_Nil A S by (cases ra; cases rb; simp)
qed

lemma cont_op:
  "cont env sc 0 v d (op_tok ''||'' # us) =
     bindO (parse_nt_of env sc (level_nt 1) d us) (\<lambda>(w, ts). cont env sc 0 (Bool (truthy v \<or> truthy w)) d ts)"
  "cont env sc 1 v d (op_tok ''&&'' # us) =
     bindO (parse_nt_of env sc (level_nt 2) d us) (\<lambda>(w, ts). cont env sc 1 (Bool (truthy v \<and> truthy w)) d ts)"
  "op \<in> {''+'', ''-''} \<Longrightarrow> cont env sc 3 v d (op_tok op # us) =
     bindO (parse_nt_of env sc (level_nt 4) d us) (\<lambda>(w, ts). cont env sc 3 (apply_add op v w) d ts)"
  "op \<in> {''*'', ''/'', ''%''} \<Longrightarrow> cont env sc 4 v d (op_tok op # us) =
     bindO (parse_nt_of env sc (level_nt 5) d us) (\<lambda>(w, ts). cont env sc 4 (apply_mul op v w) d ts)"
  by (simp add: cont_def level_nt_def, subst P_unfold, force simp: parseLogicalOr_loop_def parseLogicalAnd_loop_def
      parseAdditive_loop_def parseMultiplicative_loop_def peek_def)+

lemma cmp_prints:
  assumes a: "prints env sc 3 n ts ra" and b: "prints env sc 3 m us rb" and op: "op \<in> set cmp_ops"
  shows "prints env sc 2 (max n m) (ts @ [op_tok op] @ us) (bindR ra (\<lambda>v. bindR rb (\<lambda>w. Inr (Bool (apply_cmp op v w)))))"
  unfolding prints_def
proof (intro allI impI)
  fix d rest assume d: "d + max n m \<le> MAX_DEPTH" and f: "follow 2 rest"
  have op': "op \<noteq> ''+''" "op \<noteq> ''-''" "follow 3 (op_tok op # us @ rest)"
    using op by (auto simp: cmp_ops_def follow_def tighter_def)
  have "cont env sc 3 v d (op_tok op # us @ rest) = retO (v, op_tok op # us @ rest)" for v
    using op' by (simp add: cont_def P_unfold(7) parseAdditive_loop_def peek_def)
  then have A: "parse_nt_of env sc NAdd d (ts @ op_tok op # us @ rest) =
      bindO (Some ra) (\<lambda>v. retO (v, op_tok op # us @ rest))"
    using d parsesD [OF a _ op'(3), of d] by (simp add: level_nt_def)
  have B: "parse_nt_of env sc NAdd d (us @ rest) = bindO (Some rb) (\<lambda>w. retO (w, rest))"
    using d parsesD [OF b, of d rest] follow_tighter [OF f, of 3] cont_stop [OF f, of 3 env sc] by (simp add: level_nt_def)
  have "parse_nt_of env sc NCmp d (ts @ op_tok op # us @ rest) =
      bindO (bindO (Some ra) (\<lambda>v. retO (v, op_tok op # us @ rest))) (\<lambda>(left, ts). peek ts (\<lambda>op.
        if op \<in> set cmp_ops then bindO (parse_nt_of env sc NAdd d (tl ts)) (\<lambda>(right, ts).
          retO (Bool (apply_cmp op left right), ts)) else retO (left, ts)))"
    unfolding P_unfold(5) parseComparison_def A ..
  then have "parse_nt_of env sc NCmp d (ts @ op_tok op # us @ rest) =
      bindO (Some ra) (\<lambda>v. bindO (Some rb) (\<lambda>w. retO (Bool (apply_cmp op v w), rest)))"
    using op by (cases ra; cases rb) (simp_all add: peek_def B)
  then show "parses env sc 2 d ((ts @ [op_tok op] @ us) @ rest)
      (bindR ra (\<lambda>v. bindR rb (\<lambda>w. Inr (Bool (apply_cmp op v w))))) rest"
    by (cases ra; cases rb) (simp_all add: parses_def level_nt_def cont_def)
qed

lemma unary_prints:
  assumes a: "prints env sc 5 n ts r" and op: "op = ''-'' \<and> f = (\<lambda>v. Num (num_neg (toNumber v))) \<or> op = ''!'' \<and> f = (\<lambda>v. Bool (\<not> truthy v))"
  shows "prints env sc 5 (1 + n) (op_tok op # ts) (bindR r (\<lambda>v. Inr (f v)))"
  unfolding prints_def
proof (intro allI impI)
  fix d rest assume d: "d + (1 + n) \<le> MAX_DEPTH" and f: "follow 5 rest"
  have A: "parse_nt_of env sc NUnary (Suc d) (ts @ rest) = bindO (Some r) (\<lambda>v. retO (v, rest))"
    using d parsesD [OF a _ f, of "Suc d"] by (simp add: level_nt_def cont_def)
  have "parse_nt_of env sc NUnary d (op_tok op # ts @ rest) =
      bindO (parse_nt_of env sc NUnary (Suc d) (ts @ rest)) (\<lambda>(x, ts). retO (f x, ts))"
    using op d by (auto simp: P_unfold(10) [of _ _ d] parseUnary_def enterNested_def peek_def)
  then show "parses env sc 5 d ((op_tok op # ts) @ rest) (bindR r (\<lambda>v. Inr (f v))) rest"
    unfolding A by (cases r) (simp_all add: parses_def level_nt_def cont_def)
qed

lemma pr_args_simps:
  "pr p (ECall f es) = ident_tok f # paren_tok ''('' # pr_args es @ [paren_tok '')'']"
  "pr p (EMemberCall x m es) = ident_tok x # op_tok ''.'' # ident_tok m # paren_tok ''('' # pr_args es @ [paren_tok '')'']"
  "pr p (EArray es) = paren_tok ''['' # pr_args es @ [paren_tok '']'']"
  by (simp_all add: pr_args_def)

lemma nt_plain: "NAME_RE x \<Longrightarrow> x \<notin> {''-'', ''!''}"
  using NAME_head [of x] by (auto simp: confusing_def)

abbreviation good :: "eval_env \<Rightarrow> jsobj \<Rightarrow> expr \<Rightarrow> bool" where
  "good env sc e \<equiv> (wf e \<longrightarrow> (\<forall>p \<le> 5. prints env sc p (nesting p e) (pr p e) (ev env sc e)))"

lemma wfs_all: "wfs es \<longleftrightarrow> (\<forall>e \<in> set es. wf e)"
  by (induction es) auto

lemma good_args: "\<forall>e \<in> set es. good env sc e \<Longrightarrow> wfs es \<Longrightarrow>
    \<forall>e \<in> set es. prints env sc 0 (nesting 0 e) (pr 0 e) (ev env sc e)"
  by (auto simp: wfs_all)

lemma good_plain:
  assumes "t_value t \<notin> {''-'', ''!''}" "p \<le> 5"
    and "\<And>d us. follow 5 us \<Longrightarrow> parse_nt_of env sc NPrimary d (t # ts @ us) = retO (v, us)"
  shows "prints env sc p 1 (t # ts) (Inr v)"
  using assms by (intro primary_prints) auto

lemma good_call:
  assumes w: "wfs es" and g: "\<forall>e \<in> set es. good env sc e" and n: "Suc (Suc d) + nestings es \<le> MAX_DEPTH"
  shows "parseCall env (parse_nt_of env sc) f (Suc d) (pr_args es @ paren_tok '')'' # rest) =
    bindO (Some (bindR (evs env sc es) (callFunction env f))) (\<lambda>v. retO (v, rest))"
  using args_parse [OF good_args [OF g w] w, of "Suc d" rest] n
  by (cases "evs env sc es") (simp_all add: parseCall_def)

lemma all_good: "good env sc e"
proof (induction e)
  case (ENum s)
  have "prints env sc p 1 (tok TNum s 0 # []) (Inr (Num (parse_float s)))" if "p \<le> 5" "wf (ENum s)" for p
    using that num_head [of s] by (intro good_plain) (auto simp: P_unfold(11) parsePrimary_def confusing_def)
  then show ?case by simp
next
  case (EStr s)
  have "prints env sc p 1 (tok TStr s 0 # []) (Inr (Str s))" if "p \<le> 5" "wf (EStr s)" for p
    using that by (intro good_plain) (auto simp: P_unfold(11) parsePrimary_def confusing_def)
  then show ?case by simp
next
  case (EBool b)
  have "prints env sc p 1 (ident_tok (if b then ''true'' else ''false'') # []) (Inr (Bool b))" if "p \<le> 5" for p
    using that by (intro good_plain) (auto simp: P_unfold(11) parsePrimary_def parseIdent_def dest!: follow5)
  then show ?case by simp
next
  case ENull
  have "prints env sc p 1 (ident_tok ''null'' # []) (Inr Null)" if "p \<le> 5" for p
    using that by (intro good_plain) (auto simp: P_unfold(11) parsePrimary_def parseIdent_def dest!: follow5)
  then show ?case by simp
next
  case (EVar x)
  have "prints env sc p 1 (ident_tok x # []) (Inr (resolveIdentifier sc x))" if "p \<le> 5" "wf (EVar x)" for p
    using that nt_plain [of x]
    by (intro good_plain) (auto simp: P_unfold(11) parsePrimary_def parseIdent_def peek_def dest!: follow5)
  then show ?case by simp
next
  case (EMember x m)
  have "prints env sc p 1 (ident_tok x # [op_tok ''.'', ident_tok m]) (Inr (resolveMember sc x m))" if "p \<le> 5" "wf (EMember x m)" for p
    using that nt_plain [of x]
    by (intro good_plain) (auto simp: P_unfold(11) parsePrimary_def parseIdent_def peek_def dest!: follow5)
  then show ?case by simp
next
  case (ECall f es)
  have "prints env sc p (2 + nestings es) (pr p (ECall f es)) (ev env sc (ECall f es))"
    if w: "wf (ECall f es)" and p: "p \<le> 5" for p
    unfolding pr_args_simps
  proof (rule primary_prints [OF _ _ p])
    show "t_value (ident_tok f) \<notin> {''-'', ''!''}" using nt_plain [of f] w by simp
    show "1 \<le> 2 + nestings es" by simp
    fix d rest assume "d + (2 + nestings es) \<le> MAX_DEPTH"
    then have "parseCall env (parse_nt_of env sc) f (Suc d) (pr_args es @ paren_tok '')'' # rest) =
        bindO (Some (bindR (evs env sc es) (callFunction env f))) (\<lambda>v. retO (v, rest))"
      using ECall w by (intro good_call) auto
    then show "parse_nt_of env sc NPrimary (Suc d) (ident_tok f # (paren_tok ''('' # pr_args es @ [paren_tok '')'']) @ rest) =
        bindO (Some (ev env sc (ECall f es))) (\<lambda>v. retO (v, rest))"
      by (simp add: P_unfold(11) parsePrimary_def parseIdent_def)
  qed
  then show ?case by simp
next
  case (EMemberCall x m es)
  have "prints env sc p (2 + nestings es) (pr p (EMemberCall x m es)) (ev env sc (EMemberCall x m es))"
    if w: "wf (EMemberCall x m es)" and p: "p \<le> 5" for p
    unfolding pr_args_simps
  proof (rule primary_prints [OF _ _ p])
    show "t_value (ident_tok x) \<notin> {''-'', ''!''}" using nt_plain [of x] w by simp
    show "1 \<le> 2 + nestings es" by simp
    fix d rest assume "d + (2 + nestings es) \<le> MAX_DEPTH"
    then have "parseCall env (parse_nt_of env sc) (x @ ''.'' @ m) (Suc d) (pr_args es @ paren_tok '')'' # rest) =
        bindO (Some (bindR (evs env sc es) (callFunction env (x @ ''.'' @ m)))) (\<lambda>v. retO (v, rest))"
      using EMemberCall w by (intro good_call) auto
    then show "parse_nt_of env sc NPrimary (Suc d)
        (ident_tok x # (op_tok ''.'' # ident_tok m # paren_tok ''('' # pr_args es @ [paren_tok '')'']) @ rest) =
        bindO (Some (ev env sc (EMemberCall x m es))) (\<lambda>v. retO (v, rest))"
      by (simp add: P_unfold(11) parsePrimary_def parseIdent_def peek_def)
  qed
  then show ?case by simp
next
  case (EArray es)
  have "prints env sc p (2 + nestings es) (pr p (EArray es)) (ev env sc (EArray es))"
    if w: "wfs es" and p: "p \<le> 5" for p
    unfolding pr_args_simps
  proof (rule primary_prints [OF _ _ p])
    fix d rest assume d: "d + (2 + nestings es) \<le> MAX_DEPTH"
    then have "parse_nt_of env sc NArray (Suc (Suc d)) (pr_args es @ paren_tok '']'' # rest) =
        bindO (Some (evs env sc es)) (\<lambda>vs. retO (Arr vs, rest))"
      using EArray w by (intro array_parse good_args) auto
    then show "parse_nt_of env sc NPrimary (Suc d) (paren_tok ''['' # (pr_args es @ [paren_tok '']'']) @ rest) =
        bindO (Some (ev env sc (EArray es))) (\<lambda>v. retO (v, rest))"
      using d by (cases "evs env sc es") (simp_all add: P_unfold(11) parsePrimary_def enterNested_def)
  qed auto
  then show ?case by simp
next
  case (ENeg a)
  then show ?case using wrap [OF unary_prints [of env sc _ "pr 5 a" "ev env sc a" "''-''"]] by simp
next
  case (ENot a)
  then show ?case using wrap [OF unary_prints [of env sc _ "pr 5 a" "ev env sc a" "''!''"]] by simp
next
  case (EMul op a b)
  show ?case
  proof (intro impI allI)
    fix p :: nat assume "wf (EMul op a b)" and p: "p \<le> 5"
    then have w: "op \<in> {''*'', ''/'', ''%''}" "wf a" "wf b" by auto
    then have "prints env sc 4 (max (nesting 4 a) (nesting 5 b)) (pr 4 a @ [op_tok op] @ pr 5 b) (ev env sc (EMul op a b))"
      unfolding ev.simps using EMul
      by (intro loop_prints) (auto simp: follow_def tighter_def cont_op)
    from wrap [OF this _ p] show "prints env sc p (nesting p (EMul op a b)) (pr p (EMul op a b)) (ev env sc (EMul op a b))"
      by simp
  qed
next
  case (EAdd op a b)
  show ?case
  proof (intro impI allI)
    fix p :: nat assume "wf (EAdd op a b)" and p: "p \<le> 5"
    then have w: "op \<in> {''+'', ''-''}" "wf a" "wf b" by auto
    then have "prints env sc 3 (max (nesting 3 a) (nesting 4 b)) (pr 3 a @ [op_tok op] @ pr 4 b) (ev env sc (EAdd op a b))"
      unfolding ev.simps using EAdd
      by (intro loop_prints) (auto simp: follow_def tighter_def cont_op)
    from wrap [OF this _ p] show "prints env sc p (nesting p (EAdd op a b)) (pr p (EAdd op a b)) (ev env sc (EAdd op a b))"
      by simp
  qed
next
  case (ECmp op a b)
  show ?case
  proof (intro impI allI)
    fix p :: nat assume "wf (ECmp op a b)" and p: "p \<le> 5"
    then have w: "op \<in> set cmp_ops" "wf a" "wf b" by auto
    then have "prints env sc 2 (max (nesting 3 a) (nesting 3 b)) (pr 3 a @ [op_tok op] @ pr 3 b) (ev env sc (ECmp op a b))"
      unfolding ev.simps using ECmp by (intro cmp_prints) auto
    from wrap [OF this _ p] show "prints env sc p (nesting p (ECmp op a b)) (pr p (ECmp op a b)) (ev env sc (ECmp op a b))"
      by simp
  qed
next
  case (EAnd a b)
  show ?case
  proof (intro impI allI)
    fix p :: nat assume "wf (EAnd a b)" and p: "p \<le> 5"
    then have w: "wf a" "wf b" by auto
    then have "prints env sc 1 (max (nesting 1 a) (nesting 2 b)) (pr 1 a @ [op_tok ''&&''] @ pr 2 b) (ev env sc (EAnd a b))"
      unfolding ev.simps using EAnd
      by (intro loop_prints) (auto simp: follow_def tighter_def cmp_ops_def cont_op [simplified] numeral_2_eq_2)
    from wrap [OF this _ p] show "prints env sc p (nesting p (EAnd a b)) (pr p (EAnd a b)) (ev env sc (EAnd a b))"
      by simp
  qed
next
  case (EOr a b)
  show ?case
  proof (intro impI allI)
    fix p :: nat assume "wf (EOr a b)" and p: "p \<le> 5"
    then have w: "wf a" "wf b" by auto
    then have "prints env sc 0 (max (nesting 0 a) (nesting 1 b)) (pr 0 a @ [op_tok ''||''] @ pr 1 b) (ev env sc (EOr a b))"
      unfolding ev.simps using EOr
      by (intro loop_prints) (auto simp: follow_def tighter_def cmp_ops_def cont_op [simplified])
    from wrap [OF this _ p] show "prints env sc p (nesting p (EOr a b)) (pr p (EOr a b)) (ev env sc (EOr a b))"
      by simp
  qed
qed


definition sample_expr :: expr where
  "sample_expr = EAdd ''-'' (EMul ''*'' (EVar ''qty'') (EAdd ''+'' (ENum ''2'') (ENum ''3''))) (ENum ''1'')"


section \<open>Where the code departs from its comments\<close>

lemma bindO_weak: "m = m' \<Longrightarrow> bindO m f = bindO m' f" by simp

lemma peek_Cons: "peek (t # ts) k = k (t_value t)" by (simp add: peek_def)

text \<open>
  A string literal whose text is an operator is not a string to the parser: the tests of
  \<open>parseUnary\<close> look at the value of a token and not at its type, so comparing a field with the
  string \<open>'-'\<close> is an error in every scope.
\<close>

theorem string_literal_taken_as_operator:
  "\<exists>msg. evaluateWith env (Str (''x == '' @ [single_quote, CHR ''-'', single_quote])) scope = Some (Inl msg)"
proof -
  have t: "tokenize (''x == '' @ [single_quote, CHR ''-'', single_quote]) =
      [tok TIdent ''x'' 1, tok TOp ''=='' 2, tok TStr ''-'' 8, tok TEof [] 8]"
    by code_simp
  have len: "assertComplexity (Str (''x == '' @ [single_quote, CHR ''-'', single_quote])) =
      Inr (''x == '' @ [single_quote, CHR ''-'', single_quote])"
    by code_simp
  show ?thesis
    unfolding evaluateWith_def len bindO_simps t parser_parse_def fuel_for_enough
    by (simp add: P_unfold P_defs enterNested_def MAX_DEPTH_def parseIdent_def cmp_ops_def
        peek_Cons cong: bindO_weak)
qed

text \<open>
  Reading a member goes through the prototype chain, although reading an identifier is
  restricted to own properties so that the members of \<open>Object.prototype\<close> stay out of reach:
  the formula \<open>doc.constructor\<close> gives the \<open>Object\<close> function on every record that has no field
  of that name.
\<close>

theorem member_read_reaches_prototype:
  assumes "amap_get scope ''doc'' = Some (Obj fs)" "amap_get fs ''constructor'' = None"
  shows "evaluateExpression env (Str ''doc.constructor'') scope = Some (Inr (native_func ''Object''))"
proof -
  have t: "tokenize ''doc.constructor'' =
      [tok TIdent ''doc'' 3, tok TOp ''.'' 3, tok TIdent ''constructor'' 15, tok TEof [] 15]"
    by code_simp
  have len: "assertComplexity (Str ''doc.constructor'') = Inr ''doc.constructor''" by code_simp
  show ?thesis
    unfolding evaluateExpression_def evaluateWith_def len bindO_simps t parser_parse_def fuel_for_enough
    using assms
    by (simp add: P_unfold P_defs enterNested_def MAX_DEPTH_def parseIdent_def cmp_ops_def resolveMember_def
        resolveIdentifier_def obj_get_def object_proto_get_def peek_Cons cong: bindO_weak)
qed

lemma member_read_reaches_prototype_witness:
  "evaluateExpression \<lparr>ev_registry = [], ev_math = \<lambda>f xs. NaN\<rparr> (Str ''doc.constructor'') [(''doc'', Obj [])] =
     Some (Inr (native_func ''Object''))"
  by (rule member_read_reaches_prototype [where fs = "[]"]) simp_all

end
