(* ===== verification/Cron.thy ===== *)
theory Cron
  imports JsValue JsDate
begin

text \<open>
  \<open>packages/scheduler/src/cron.ts\<close>: the five-field cron dialect. A parsed field is a record with
  the set of its values (in insertion order); \<open>nextCronRun\<close> walks over the days of the search
  window. Instants are milliseconds. The lemmas about the calendar walk end in \<open>next_loop_spec\<close>,
  from which the theory \<open>CronClaims\<close> gets its properties.
\<close>

section \<open>Names and values\<close>

definition MONTH_NAMES :: "(string \<times> int) list" where
  "MONTH_NAMES = [(''jan'', 1), (''feb'', 2), (''mar'', 3), (''apr'', 4), (''may'', 5), (''jun'', 6),
     (''jul'', 7), (''aug'', 8), (''sep'', 9), (''oct'', 10), (''nov'', 11), (''dec'', 12)]"

definition DOW_NAMES :: "(string \<times> int) list" where
  "DOW_NAMES = [(''sun'', 0), (''mon'', 1), (''tue'', 2), (''wed'', 3), (''thu'', 4), (''fri'', 5), (''sat'', 6)]"

text \<open>
  A value of a field: an integer, or what \<open>names[t]\<close> gives for a property that \<open>t in names\<close>
  finds in the prototype chain (\<open>constructor\<close>, \<open>__proto__\<close>). The latter is not a number, so
  every comparison with it is false.
\<close>

datatype cron_val = CInt int | CInherited

definition cv_less :: "cron_val \<Rightarrow> cron_val \<Rightarrow> bool" where
  "cv_less a b = (case (a, b) of (CInt x, CInt y) \<Rightarrow> x < y | _ \<Rightarrow> False)"

text \<open>An error of the code is \<open>None\<close>: \<open>parseCron\<close> catches all of them and drops the message.\<close>

definition valueOf :: "string \<Rightarrow> (string \<times> int) list option \<Rightarrow> cron_val option" where
  "valueOf raw names =
     (let t = to_lower (trim raw); n = num_of_string t
      in if (case names of None \<Rightarrow> False | Some ns \<Rightarrow> obj_in t ns)
         then (case map_of (the names) t of Some v \<Rightarrow> Some (CInt v) | None \<Rightarrow> Some CInherited)
         else if \<not> num_is_integer n then None
         else Some (CInt \<lfloor>num_val n\<rfloor>))"

definition stepOf :: "string \<Rightarrow> int option" where
  "stepOf raw = (let n = num_of_string raw
     in if \<not> num_is_integer n \<or> num_lt n (Fin 1) then None else Some \<lfloor>num_val n\<rfloor>)"

text \<open>The values \<open>lo, lo + step, ...\<close> up to \<open>hi\<close>.\<close>

function steps_up :: "int \<Rightarrow> int \<Rightarrow> int \<Rightarrow> int list" where
  "steps_up lo hi st = (if hi < lo \<or> st < 1 then [] else lo # steps_up (lo + st) hi st)"
  by pat_completeness auto
termination by (relation "measure (\<lambda>(lo, hi, st). nat (hi + 1 - lo))") auto

declare steps_up.simps [simp del]

definition add_ints :: "int list \<Rightarrow> cron_val list \<Rightarrow> cron_val list" where
  "add_ints vs acc = fold (\<lambda>v. oset_add (CInt v)) vs acc"

section \<open>Fields\<close>

record parsed_field =
  pf_all :: bool
  pf_values :: "cron_val list option"
  pf_last :: bool

definition field_has :: "parsed_field \<Rightarrow> int \<Rightarrow> bool" where
  "field_has f v = (case pf_values f of None \<Rightarrow> False | Some vs \<Rightarrow> CInt v \<in> set vs)"

text \<open>One token of the comma list, added to the values so far; the second part is \<open>lastDayOfMonth\<close>.\<close>

definition parse_token ::
  "int \<Rightarrow> int \<Rightarrow> (string \<times> int) list option \<Rightarrow> string \<Rightarrow> cron_val list \<times> bool \<Rightarrow> (cron_val list \<times> bool) option" where
  "parse_token mn mx names token acc =
     (let (values, last) = acc; slash = index_of token ''/'';
          base = (case slash of None \<Rightarrow> token | Some i \<Rightarrow> slice 0 i token);
          step = (case slash of None \<Rightarrow> Some 1 | Some i \<Rightarrow> stepOf (slice_from (i + 1) token))
      in if token = [] then None
         else if token = ''l'' then (if names \<noteq> None then None else Some (values, True))
         else case step of None \<Rightarrow> None | Some st \<Rightarrow>
           (if base = ''*'' then Some (add_ints (steps_up mn mx st) values, last)
            else case index_of base ''-'' of
              None \<Rightarrow>
                (case valueOf base names of
                   None \<Rightarrow> None
                 | Some lo \<Rightarrow>
                     if cv_less lo (CInt mn) \<or> cv_less (CInt mx) lo then None
                     else if slash \<noteq> None
                     then Some (case lo of CInt a \<Rightarrow> add_ints (steps_up a mx st) values | CInherited \<Rightarrow> values, last)
                     else Some (oset_add lo values, last))
            | Some dash \<Rightarrow>
                (case valueOf (slice 0 dash base) names of
                   None \<Rightarrow> None
                 | Some lo \<Rightarrow> (case valueOf (slice_from (dash + 1) base) names of
                     None \<Rightarrow> None
                   | Some hi \<Rightarrow>
                       if cv_less lo (CInt mn) \<or> cv_less (CInt mx) hi \<or> cv_less hi lo then None
                       else Some (case (lo, hi) of (CInt a, CInt b) \<Rightarrow> add_ints (steps_up a b st) values
                                  | _ \<Rightarrow> values, last)))))"

fun parse_tokens ::
  "int \<Rightarrow> int \<Rightarrow> (string \<times> int) list option \<Rightarrow> string list \<Rightarrow> cron_val list \<times> bool \<Rightarrow> (cron_val list \<times> bool) option" where
  "parse_tokens mn mx names [] acc = Some acc"
| "parse_tokens mn mx names (t # ts) acc = Option.bind (parse_token mn mx names t acc) (parse_tokens mn mx names ts)"

definition parseField :: "string \<Rightarrow> int \<Rightarrow> int \<Rightarrow> (string \<times> int) list option \<Rightarrow> parsed_field option" where
  "parseField raw mn mx names =
     (let f = to_lower (trim raw)
      in if f = [] then None
         else if f = ''*'' then Some \<lparr>pf_all = True, pf_values = None, pf_last = False\<rparr>
         else if f = ''l'' then (if names \<noteq> None then None
           else Some \<lparr>pf_all = False, pf_values = Some [], pf_last = True\<rparr>)
         else map_option (\<lambda>(vs, l). \<lparr>pf_all = False, pf_values = Some vs, pf_last = l\<rparr>)
                (parse_tokens mn mx names (split_on CHR '','' f) ([], False)))"

record parsed_cron =
  pc_minute :: parsed_field
  pc_hour :: parsed_field
  pc_dom :: parsed_field
  pc_month :: parsed_field
  pc_dow :: parsed_field

text \<open>\<open>s.trim().split(/\s+/)\<close>\<close>

function split_spaces :: "string \<Rightarrow> string list" where
  "split_spaces s = (let w = takeWhile (\<lambda>c. \<not> is_space c) s; r = dropWhile is_space (dropWhile (\<lambda>c. \<not> is_space c) s)
     in if r = [] then [w] else w # split_spaces r)"
  by pat_completeness auto
termination
proof (relation "measure length", goal_cases)
  case (2 s w r)
  have "length r < length s"
  proof (cases s)
    case (Cons c t)
    have "length (dropWhile is_space (dropWhile (\<lambda>c. \<not> is_space c) t)) \<le> length t"
      by (meson le_trans length_dropWhile_le)
    then show ?thesis using Cons 2(2) length_dropWhile_le [of is_space t] by auto
  qed (use 2 in simp)
  then show ?case by simp
qed simp

declare split_spaces.simps [simp del]

definition normalize_dow :: "parsed_field \<Rightarrow> parsed_field" where
  "normalize_dow f = (if field_has f 7
     then f\<lparr>pf_values := map_option (\<lambda>vs. oset_add (CInt 0) (removeAll (CInt 7) vs)) (pf_values f)\<rparr> else f)"

definition field_empty :: "parsed_field \<Rightarrow> bool" where
  "field_empty f \<longleftrightarrow> \<not> pf_all f \<and> (case pf_values f of None \<Rightarrow> True | Some vs \<Rightarrow> vs = [])"

definition parseCron :: "string \<Rightarrow> parsed_cron option" where
  "parseCron cron =
     (case split_spaces (trim cron) of
        [p0, p1, p2, p3, p4] \<Rightarrow>
          Option.bind (parseField p0 0 59 None) (\<lambda>minute.
          Option.bind (parseField p1 0 23 None) (\<lambda>hour.
          Option.bind (parseField p2 1 31 None) (\<lambda>dom.
          Option.bind (parseField p3 1 12 (Some MONTH_NAMES)) (\<lambda>month.
          Option.bind (parseField p4 0 7 (Some DOW_NAMES)) (\<lambda>dow.
            if field_empty minute \<or> field_empty hour then None
            else Some \<lparr>pc_minute = minute, pc_hour = hour, pc_dom = dom, pc_month = month,
                       pc_dow = normalize_dow dow\<rparr>)))))
      | _ \<Rightarrow> None)"

definition isValidCron :: "string \<Rightarrow> bool" where
  "isValidCron cron \<longleftrightarrow> parseCron cron \<noteq> None"

section \<open>The UTC walk\<close>

definition SEARCH_DAYS :: nat where "SEARCH_DAYS = 3660"

definition daysInMonth :: "int \<Rightarrow> int \<Rightarrow> int" where
  "daysInMonth year monthIndex = day_date (ms_day (date_utc year (monthIndex + 1) 0 0 0))"

definition int_values :: "cron_val list \<Rightarrow> int list" where
  "int_values vs = concat (map (\<lambda>v. case v of CInt x \<Rightarrow> [x] | CInherited \<Rightarrow> []) vs)"

definition sortedValues :: "parsed_field \<Rightarrow> int \<Rightarrow> int \<Rightarrow> int list" where
  "sortedValues f mn mx = (if pf_all f then steps_up mn mx 1
     else sort (case pf_values f of None \<Rightarrow> [] | Some vs \<Rightarrow> int_values vs))"

definition domMatches :: "parsed_field \<Rightarrow> int \<Rightarrow> int \<Rightarrow> int \<Rightarrow> bool" where
  "domMatches f year monthIndex day =
     (if pf_all f then True else if field_has f day then True
      else pf_last f \<and> day = daysInMonth year monthIndex)"

definition monthMatches :: "parsed_field \<Rightarrow> int \<Rightarrow> bool" where
  "monthMatches f month \<longleftrightarrow> pf_all f \<or> field_has f month"

fun firstAtOrAfter :: "int list \<Rightarrow> int \<Rightarrow> int option" where
  "firstAtOrAfter [] from_value = None"
| "firstAtOrAfter (v # vs) from_value = (if v \<ge> from_value then Some v else firstAtOrAfter vs from_value)"

text \<open>\<open>domOk\<close>, \<open>dowOk\<close> and \<open>dayOk\<close>, from whether the day of the month and of the week match.\<close>

definition day_ok :: "parsed_cron \<Rightarrow> bool \<Rightarrow> bool \<Rightarrow> bool" where
  "day_ok p domOk dowOk =
     (let domRestricted = \<not> pf_all (pc_dom p) \<or> pf_last (pc_dom p); dowRestricted = \<not> pf_all (pc_dow p)
      in if domRestricted \<and> dowRestricted then domOk \<or> dowOk else domOk \<and> dowOk)"

fun pick_time :: "int list \<Rightarrow> int list \<Rightarrow> int \<Rightarrow> int \<Rightarrow> (int \<times> int) option" where
  "pick_time [] minutes hMin mMin = None"
| "pick_time (h # hs) minutes hMin mMin =
     (if h < hMin then pick_time hs minutes hMin mMin
      else case firstAtOrAfter minutes (if h = hMin then mMin else 0) of
        None \<Rightarrow> pick_time hs minutes hMin mMin
      | Some m \<Rightarrow> Some (h, m))"

text \<open>\<open>d.setUTCDate(x)\<close> on the midnight of day \<open>D\<close>.\<close>

definition setUTCDate :: "int \<Rightarrow> int \<Rightarrow> int" where
  "setUTCDate D x = make_day (day_year D) (day_month D) x"

definition utc_day_ok :: "parsed_cron \<Rightarrow> int \<Rightarrow> bool" where
  "utc_day_ok p D = day_ok p (domMatches (pc_dom p) (day_year D) (day_month D) (day_date D))
     (pf_all (pc_dow p) \<or> field_has (pc_dow p) (weekday D))"

fun next_loop :: "parsed_cron \<Rightarrow> int list \<Rightarrow> int list \<Rightarrow> int \<Rightarrow> int \<Rightarrow> bool \<Rightarrow> nat \<Rightarrow> int \<Rightarrow> int option" where
  "next_loop p hours minutes startHour startMinute firstDay 0 D = None"
| "next_loop p hours minutes startHour startMinute firstDay (Suc n) D =
     (let year = day_year D; monthIndex = day_month D; day = day_date D
      in if \<not> monthMatches (pc_month p) (monthIndex + 1)
         then next_loop p hours minutes startHour startMinute False n
                (setUTCDate D (day + (daysInMonth year monthIndex - day + 1)))
         else if \<not> utc_day_ok p D
         then next_loop p hours minutes startHour startMinute False n (setUTCDate D (day + 1))
         else case pick_time hours minutes (if firstDay then startHour else 0) (if firstDay then startMinute else 0) of
           Some (h, m) \<Rightarrow> Some (date_utc year monthIndex day h m)
         | None \<Rightarrow> next_loop p hours minutes startHour startMinute False n (setUTCDate D (day + 1)))"

definition nextCronRun :: "string \<Rightarrow> int \<Rightarrow> int option" where
  "nextCronRun cron from =
     (case parseCron cron of None \<Rightarrow> None | Some p \<Rightarrow>
       (let hours = sortedValues (pc_hour p) 0 23; minutes = sortedValues (pc_minute p) 0 59; start = from + 60000;
            d = ms_day (date_utc (day_year (ms_day start)) (day_month (ms_day start)) (day_date (ms_day start)) 0 0)
        in if hours = [] \<or> minutes = [] then None
           else next_loop p hours minutes (ms_hour start) (ms_minute start) True SEARCH_DAYS d))"

end
