(* ===== verification/CronClaims.thy ===== *)
theory CronClaims
  imports Cron
begin

text \<open>
  Properties of the cron dialect: parsed fields stay in the range of their field, and
  \<open>nextCronRun\<close> gives the least matching minute after its argument.
\<close>

section \<open>Ranges of parsed fields\<close>

definition vals_in :: "int \<Rightarrow> int \<Rightarrow> cron_val list \<Rightarrow> bool" where
  "vals_in mn mx vs \<longleftrightarrow> (\<forall>v. CInt v \<in> set vs \<longrightarrow> mn \<le> v \<and> v \<le> mx)"

definition field_in :: "int \<Rightarrow> int \<Rightarrow> parsed_field \<Rightarrow> bool" where
  "field_in mn mx f \<longleftrightarrow> (pf_all f \<longleftrightarrow> pf_values f = None) \<and> (\<forall>vs. pf_values f = Some vs \<longrightarrow> vals_in mn mx vs)"

lemma steps_up_set: "v \<in> set (steps_up lo hi st) \<Longrightarrow> lo \<le> v \<and> v \<le> hi"
proof (induction lo hi st rule: steps_up.induct)
  case (1 lo hi st)
  then show ?case by (subst (asm) (2) steps_up.simps) (fastforce split: if_splits)
qed

lemma steps_up_1: "set (steps_up lo hi 1) = {lo..hi}"
proof (induction lo hi "1 :: int" rule: steps_up.induct)
  case (1 lo hi)
  then show ?case by (subst steps_up.simps) auto
qed

lemma steps_up_sorted: "sorted (steps_up lo hi st)"
proof (induction lo hi st rule: steps_up.induct)
  case (1 lo hi st)
  have "lo \<le> v" if "v \<in> set (steps_up (lo + st) hi st)" "1 \<le> st" for v
    using steps_up_set [OF that(1)] that(2) by simp
  then show ?case using 1 by (subst steps_up.simps) auto
qed

lemma add_ints_set: "set (add_ints vs acc) = set acc \<union> CInt ` set vs"
  unfolding add_ints_def by (induction vs arbitrary: acc) auto

lemma vals_in_add_ints: "vals_in mn mx acc \<Longrightarrow> mn \<le> lo \<Longrightarrow> hi \<le> mx \<Longrightarrow> vals_in mn mx (add_ints (steps_up lo hi st) acc)"
  by (fastforce simp: vals_in_def add_ints_set dest: steps_up_set)

lemma vals_in_oset: "vals_in mn mx acc \<Longrightarrow> (\<And>v. x = CInt v \<Longrightarrow> mn \<le> v \<and> v \<le> mx) \<Longrightarrow> vals_in mn mx (oset_add x acc)"
  by (auto simp: vals_in_def)

lemma parse_token_in:
  assumes "parse_token mn mx names t (acc, l) = Some (vs, l')" "vals_in mn mx acc"
  shows "vals_in mn mx vs"
  using assms
  by (auto simp: parse_token_def Let_def cv_less_def intro!: vals_in_add_ints vals_in_oset
      split: if_splits option.splits cron_val.splits)

lemma parse_tokens_in:
  "parse_tokens mn mx names ts acc = Some (vs, l') \<Longrightarrow> vals_in mn mx (fst acc) \<Longrightarrow> vals_in mn mx vs"
proof (induction ts arbitrary: acc)
  case (Cons t ts)
  then obtain acc' where t: "parse_token mn mx names t acc = Some acc'"
    and ts: "parse_tokens mn mx names ts acc' = Some (vs, l')" by (auto simp: bind_eq_Some_conv)
  have "vals_in mn mx (fst acc')"
    using parse_token_in [of mn mx names t "fst acc" "snd acc" "fst acc'" "snd acc'"] t Cons.prems(2) by simp
  then show ?case using Cons.IH [OF ts] by simp
qed simp

lemma parseField_in: "parseField raw mn mx names = Some f \<Longrightarrow> field_in mn mx f"
proof -
  assume "parseField raw mn mx names = Some f"
  then show ?thesis
    by (auto simp: parseField_def Let_def field_in_def vals_in_def [of _ _ "[]"] split: if_splits
        dest!: parse_tokens_in)
qed

lemma normalize_dow_in:
  assumes "field_in 0 7 f"
  shows "field_in 0 6 (normalize_dow f)"
proof (cases "pf_values f")
  case None
  then show ?thesis using assms by (simp add: field_in_def normalize_dow_def field_has_def)
next
  case (Some vs)
  have r: "0 \<le> v \<and> v \<le> 6" if "CInt v \<in> set vs" "v \<noteq> 7" for v
    using assms Some that by (force simp: field_in_def vals_in_def)
  show ?thesis
  proof (cases "CInt 7 \<in> set vs")
    case True
    then show ?thesis using Some assms r by (auto simp: field_in_def normalize_dow_def field_has_def vals_in_def)
  next
    case False
    then have "v \<noteq> 7" if "CInt v \<in> set vs" for v using that by auto
    then show ?thesis using False Some assms r by (auto simp: field_in_def normalize_dow_def field_has_def vals_in_def)
  qed
qed


section \<open>The calendar walk\<close>

lemma day_year_1970: "0 \<le> D \<Longrightarrow> 1970 \<le> day_year D"
proof (rule ccontr)
  assume D: "0 \<le> D" "\<not> 1970 \<le> day_year D"
  have "day_from_year (day_year D + 1) \<le> day_from_year 1970"
    using day_from_year_less [of "day_year D + 1" 1970] D(2) by (cases "day_year D + 1 = 1970") auto
  then show False using D(1) day_year_bounds [of D] by (simp add: day_from_year_def)
qed

lemma date_utc_day:
  assumes "1970 \<le> y"
  shows "date_utc y m d h mi = make_day y m d * ms_per_day + h * 3600000 + mi * 60000"
  using assms by (simp add: date_utc_def full_year_def)

lemma date_utc_of_day:
  assumes "0 \<le> D"
  shows "date_utc (day_year D) (day_month D) (day_date D) h mi = D * ms_per_day + h * 3600000 + mi * 60000"
  using date_utc_day [OF day_year_1970 [OF assms]] by (simp add: make_day_read)

lemma daysInMonth_length:
  assumes "0 \<le> D"
  shows "daysInMonth (day_year D) (day_month D) = month_length (day_year D) (day_month D)"
  using day_month_bounds [of D]
  by (simp add: daysInMonth_def date_utc_day [OF day_year_1970 [OF assms]] ms_day_def last_day_of_month)

lemma setUTCDate_shift: "setUTCDate D (day_date D + k) = D + k"
  by (simp add: setUTCDate_def make_day_date_shift make_day_read)

lemma same_month:
  assumes "D \<le> E" "E \<le> D + (month_length (day_year D) (day_month D) - day_date D)"
  shows "day_year E = day_year D \<and> day_month E = day_month D \<and> day_date E = day_date D + (E - D)"
proof -
  have E: "E = make_day (day_year D) (day_month D) (day_date D + (E - D))"
    by (simp add: make_day_date_shift make_day_read)
  have "day_year (make_day (day_year D) (day_month D) (day_date D + (E - D))) = day_year D \<and>
      day_month (make_day (day_year D) (day_month D) (day_date D + (E - D))) = day_month D \<and>
      day_date (make_day (day_year D) (day_month D) (day_date D + (E - D))) = day_date D + (E - D)"
    using day_month_bounds [of D] day_date_bounds [of D] assms by (intro read_make_day) auto
  then show ?thesis using E by simp
qed

section \<open>Times of a day\<close>

lemma firstAtOrAfter_Some:
  "sorted vs \<Longrightarrow> firstAtOrAfter vs a = Some v \<Longrightarrow> v \<in> set vs \<and> a \<le> v \<and> (\<forall>w \<in> set vs. a \<le> w \<longrightarrow> v \<le> w)"
  by (induction vs) (auto split: if_splits)

lemma firstAtOrAfter_None: "firstAtOrAfter vs a = None \<longleftrightarrow> (\<forall>w \<in> set vs. w < a)"
  by (induction vs) auto

text \<open>The minute of the day.\<close>

abbreviation mod_of :: "int \<Rightarrow> int \<Rightarrow> int" where "mod_of h m \<equiv> 60 * h + m"

lemma pick_time_spec:
  assumes "sorted hours" "sorted minutes" "\<forall>m \<in> set minutes. 0 \<le> m \<and> m < 60" "0 \<le> mMin" "mMin < 60"
  shows "case pick_time hours minutes hMin mMin of
      None \<Rightarrow> \<forall>h \<in> set hours. \<forall>m \<in> set minutes. mod_of h m < mod_of hMin mMin
    | Some (h, m) \<Rightarrow> h \<in> set hours \<and> m \<in> set minutes \<and> mod_of hMin mMin \<le> mod_of h m \<and>
        (\<forall>h' \<in> set hours. \<forall>m' \<in> set minutes. mod_of hMin mMin \<le> mod_of h' m' \<longrightarrow> mod_of h m \<le> mod_of h' m')"
  using assms(1)
proof (induction hours)
  case (Cons h hs)
  note IH = Cons.IH
  have hs: "sorted hs" "\<forall>h' \<in> set hs. h \<le> h'" using Cons.prems by auto
  let ?a = "if h = hMin then mMin else 0"
  have bef: "\<forall>m \<in> set minutes. mod_of h m < mod_of hMin mMin"
    if "h < hMin \<or> firstAtOrAfter minutes ?a = None"
    using that
  proof
    assume "h < hMin"
    then show ?thesis using assms(3,4) by auto
  next
    assume "firstAtOrAfter minutes ?a = None"
    then have "\<forall>m \<in> set minutes. m < ?a" by (simp add: firstAtOrAfter_None)
    then show ?thesis using assms(3) by (cases "h = hMin") fastforce+
  qed
  show ?case
  proof (cases "h < hMin \<or> firstAtOrAfter minutes ?a = None")
    case True
    then have "pick_time (h # hs) minutes hMin mMin = pick_time hs minutes hMin mMin" by auto
    then show ?thesis using IH [OF hs(1)] bef [OF True] by (auto split: option.splits)
  next
    case False
    then obtain m where m: "firstAtOrAfter minutes ?a = Some m" by auto
    have p: "pick_time (h # hs) minutes hMin mMin = Some (h, m)" using False m by simp
    note F = firstAtOrAfter_Some [OF assms(2) m]
    have mn: "0 \<le> m \<and> m < 60" using F assms(3) by blast
    have low: "mod_of hMin mMin \<le> mod_of h m" using F False mn assms(5) by (auto split: if_splits)
    have "mod_of h m \<le> mod_of h' m'" if "h' \<in> set (h # hs)" "m' \<in> set minutes" "mod_of hMin mMin \<le> mod_of h' m'" for h' m'
    proof (cases "h' = h")
      case True
      then have "?a \<le> m'" using that assms(3) False by auto
      then show ?thesis using True F that(2) by auto
    next
      case False
      then have "h < h'" using that(1) hs(2) by auto
      then show ?thesis using mn that(2) assms(3) by fastforce
    qed
    then have le: "\<forall>h' \<in> set (h # hs). \<forall>m' \<in> set minutes. mod_of hMin mMin \<le> mod_of h' m' \<longrightarrow> mod_of h m \<le> mod_of h' m'"
      by blast
    show ?thesis unfolding p option.case prod.case using F low le by (intro conjI) (simp, blast, blast, blast)
  qed
qed simp

section \<open>The next run\<close>

text \<open>The instants a schedule names: whole minutes, with the usual rule for the two day fields.\<close>

definition dom_ok :: "parsed_field \<Rightarrow> int \<Rightarrow> bool" where
  "dom_ok f D \<longleftrightarrow> pf_all f \<or> field_has f (day_date D) \<or> (pf_last f \<and> day_date (D + 1) = 1)"

definition dow_ok :: "parsed_field \<Rightarrow> int \<Rightarrow> bool" where
  "dow_ok f D \<longleftrightarrow> pf_all f \<or> field_has f (weekday D)"

definition day_named :: "parsed_cron \<Rightarrow> int \<Rightarrow> bool" where
  "day_named p D \<longleftrightarrow> monthMatches (pc_month p) (day_month D + 1) \<and>
     (if (pf_all (pc_dom p) \<and> \<not> pf_last (pc_dom p)) \<or> pf_all (pc_dow p)
      then dom_ok (pc_dom p) D \<and> dow_ok (pc_dow p) D else dom_ok (pc_dom p) D \<or> dow_ok (pc_dow p) D)"

definition cron_matches :: "parsed_cron \<Rightarrow> int \<Rightarrow> bool" where
  "cron_matches p t \<longleftrightarrow> t mod 60000 = 0 \<and> day_named p (ms_day t) \<and>
     (pf_all (pc_hour p) \<or> field_has (pc_hour p) (ms_hour t)) \<and>
     (pf_all (pc_minute p) \<or> field_has (pc_minute p) (ms_minute t))"

lemma last_day_iff: "day_date (D + 1) = 1 \<longleftrightarrow> day_date D = month_length (day_year D) (day_month D)"
proof (cases "day_date D < month_length (day_year D) (day_month D)")
  case True
  then show ?thesis using same_month [of D "D + 1"] day_date_bounds [of D] by simp
next
  case False
  then have d: "day_date D = month_length (day_year D) (day_month D)" using day_date_bounds [of D] by simp
  have "D + 1 = make_day (day_year D) (day_month D) (day_date D + 1)" by (simp add: make_day_date_shift make_day_read)
  also have "\<dots> = make_day (day_year D) (day_month D) (1 + month_length (day_year D) (day_month D))"
    using d by (simp add: add.commute)
  also have "\<dots> = make_day (day_year D) (day_month D + 1) 1"
    using day_month_bounds [of D] by (simp add: make_day_next_month make_day_date_shift)
  finally have n: "D + 1 = make_day (day_year D) (day_month D + 1) 1" .
  have "day_date (make_day (day_year D) (day_month D + 1) 1) = 1"
  proof (cases "day_month D = 11")
    case True
    then have "make_day (day_year D) (day_month D + 1) 1 = make_day (day_year D + 1) 0 1"
      by (simp add: make_day_def Let_def)
    then show ?thesis using read_make_day [of 0 1 "day_year D + 1"] month_length_bounds [of 0 "day_year D + 1"] by simp
  next
    case False
    then show ?thesis using day_month_bounds [of D] month_length_bounds [of "day_month D + 1" "day_year D"]
      by (intro read_make_day [THEN conjunct2, THEN conjunct2]) auto
  qed
  then show ?thesis using n d by simp
qed

lemma utc_day_named:
  assumes "0 \<le> D"
  shows "monthMatches (pc_month p) (day_month D + 1) \<and> utc_day_ok p D \<longleftrightarrow> day_named p D"
  using daysInMonth_length [OF assms]
  by (auto simp: utc_day_ok_def day_ok_def day_named_def dom_ok_def dow_ok_def domMatches_def last_day_iff Let_def)

lemma ms_recompose:
  assumes "t mod 60000 = 0"
  shows "t = ms_day t * ms_per_day + mod_of (ms_hour t) (ms_minute t) * 60000"
  using ms_split [of t] assms by (simp add: algebra_simps)

text \<open>The hours and minutes of a schedule, as the walk takes them.\<close>

definition times_ok :: "parsed_cron \<Rightarrow> int list \<Rightarrow> int list \<Rightarrow> bool" where
  "times_ok p hours minutes \<longleftrightarrow> sorted hours \<and> sorted minutes \<and>
     set hours = {h. 0 \<le> h \<and> h < 24 \<and> (pf_all (pc_hour p) \<or> field_has (pc_hour p) h)} \<and>
     set minutes = {m. 0 \<le> m \<and> m < 60 \<and> (pf_all (pc_minute p) \<or> field_has (pc_minute p) m)}"

lemma matches_time:
  assumes "times_ok p hours minutes"
  shows "cron_matches p t \<longleftrightarrow> t mod 60000 = 0 \<and> day_named p (ms_day t) \<and> ms_hour t \<in> set hours \<and> ms_minute t \<in> set minutes"
  using assms ms_bounds [of t] by (auto simp: times_ok_def cron_matches_def)

lemma time_ofI:
  assumes "times_ok p hours minutes" "h \<in> set hours" "m \<in> set minutes"
  shows "ms_day (D * ms_per_day + mod_of h m * 60000) = D" "ms_hour (D * ms_per_day + mod_of h m * 60000) = h"
    "ms_minute (D * ms_per_day + mod_of h m * 60000) = m" "(D * ms_per_day + mod_of h m * 60000) mod 60000 = 0"
proof -
  have b: "0 \<le> h" "h < 24" "0 \<le> m" "m < 60" using assms by (auto simp: times_ok_def)
  have e: "D * ms_per_day + mod_of h m * 60000 = D * ms_per_day + h * 3600000 + m * 60000" by simp
  show "ms_day (D * ms_per_day + mod_of h m * 60000) = D" "ms_hour (D * ms_per_day + mod_of h m * 60000) = h"
    "ms_minute (D * ms_per_day + mod_of h m * 60000) = m"
    unfolding e using ms_parts_of [OF b] by simp_all
  show "(D * ms_per_day + mod_of h m * 60000) mod 60000 = 0"
    by (simp add: mod_eq_0_iff_dvd)
qed

definition least_from :: "parsed_cron \<Rightarrow> int \<Rightarrow> int \<Rightarrow> int option \<Rightarrow> bool" where
  "least_from p lo hi r \<longleftrightarrow> (case r of
     Some t \<Rightarrow> lo \<le> t \<and> cron_matches p t \<and> (\<forall>u. lo \<le> u \<and> cron_matches p u \<longrightarrow> t \<le> u)
   | None \<Rightarrow> \<forall>u. lo \<le> u \<and> u < hi \<longrightarrow> \<not> cron_matches p u)"

lemma least_from_skip:
  assumes "least_from p lo' hi' r" "lo \<le> lo'" "hi \<le> hi'" "\<And>u. lo \<le> u \<Longrightarrow> u < lo' \<Longrightarrow> \<not> cron_matches p u"
  shows "least_from p lo hi r"
  using assms by (cases r) (force simp: least_from_def not_less [symmetric])+

lemma ms_day_bounds: "ms_day u * ms_per_day \<le> u \<and> u < (ms_day u + 1) * ms_per_day"
  using div_bounds [of ms_per_day u] by (simp add: ms_day_def algebra_simps)

lemma mult_window: "D * k \<le> u \<Longrightarrow> u < (m + 1) * k \<Longrightarrow> 0 < k \<Longrightarrow> D \<le> m" for D :: int
  using le_less_trans [of "D * k" u "(m + 1) * k"] by simp

lemma day_window: "D * ms_per_day \<le> u \<Longrightarrow> u < E * ms_per_day \<Longrightarrow> D \<le> ms_day u \<and> ms_day u < E"
  using ms_day_bounds [of u] mult_window [of D ms_per_day u "ms_day u"] mult_window [of "ms_day u" ms_per_day u "E - 1"]
  by simp

lemma time_order: "D + b * 60000 \<le> u \<Longrightarrow> u = D + a * 60000 \<Longrightarrow> b \<le> a" for D :: int
  by simp

lemma time_order': "a \<le> b \<Longrightarrow> u = D + b * 60000 \<Longrightarrow> D + a * 60000 \<le> u" for D :: int
  by simp

lemma next_loop_spec:
  assumes t: "times_ok p hours minutes" and s: "0 \<le> sh" "sh < 24" "0 \<le> sm" "sm < 60"
  shows "0 \<le> D \<Longrightarrow> least_from p (D * ms_per_day + (if first then mod_of sh sm * 60000 else 0))
    ((D + int n) * ms_per_day) (next_loop p hours minutes sh sm first n D)"
proof (induction n arbitrary: D first)
  case 0
  have "(0 :: int) \<le> (if first then mod_of sh sm * 60000 else 0)" using s by simp
  then have "\<not> u < D * ms_per_day" if "D * ms_per_day + (if first then mod_of sh sm * 60000 else 0) \<le> u" for u
    using that by linarith
  then show ?case by (auto simp: least_from_def)
next
  case (Suc n)
  let ?lo = "D * ms_per_day + (if first then mod_of sh sm * 60000 else 0)"
  let ?hMin = "if first then sh else 0" and ?mMin = "if first then sm else 0"
  have lo: "?lo = D * ms_per_day + mod_of ?hMin ?mMin * 60000" by simp
  have lo0: "D * ms_per_day \<le> ?lo" using s by simp
  have skip: "least_from p ?lo ((D + int (Suc n)) * ms_per_day) (next_loop p hours minutes sh sm False n (D + k))"
    if k: "1 \<le> k" and no: "\<And>u. ?lo \<le> u \<Longrightarrow> D \<le> ms_day u \<Longrightarrow> ms_day u < D + k \<Longrightarrow> \<not> cron_matches p u" for k
  proof (rule least_from_skip)
    show "least_from p ((D + k) * ms_per_day) ((D + k + int n) * ms_per_day) (next_loop p hours minutes sh sm False n (D + k))"
      using Suc.IH [of "D + k" False] Suc.prems k by simp
    have "mod_of sh sm * 60000 < ms_per_day" using s by simp
    then show "?lo \<le> (D + k) * ms_per_day" using k by (auto simp: algebra_simps)
    show "(D + int (Suc n)) * ms_per_day \<le> (D + k + int n) * ms_per_day" using k by simp
    fix u assume u: "?lo \<le> u" "u < (D + k) * ms_per_day"
    show "\<not> cron_matches p u"
      using no [OF u(1)] day_window [of D u "D + k"] u lo0 by linarith
  qed
  consider (month) "\<not> monthMatches (pc_month p) (day_month D + 1)"
    | (day) "monthMatches (pc_month p) (day_month D + 1)" "\<not> utc_day_ok p D"
    | (none) "day_named p D" "pick_time hours minutes ?hMin ?mMin = None"
    | (some) h m where "day_named p D" "pick_time hours minutes ?hMin ?mMin = Some (h, m)"
    using utc_day_named [OF Suc.prems, of p] by (cases "pick_time hours minutes ?hMin ?mMin") auto
  then show ?case
  proof cases
    case month
    let ?k = "month_length (day_year D) (day_month D) - day_date D + 1"
    have "next_loop p hours minutes sh sm first (Suc n) D = next_loop p hours minutes sh sm False n (D + ?k)"
      using month setUTCDate_shift [of D ?k] daysInMonth_length [OF Suc.prems] by (simp add: Let_def)
    moreover have "\<not> cron_matches p u" if "D \<le> ms_day u" "ms_day u < D + ?k" for u
      using same_month [OF that(1)] that(2) month by (simp add: cron_matches_def day_named_def)
    ultimately show ?thesis using skip [of ?k] day_date_bounds [of D] by simp
  next
    case day
    then have "next_loop p hours minutes sh sm first (Suc n) D = next_loop p hours minutes sh sm False n (D + 1)"
      using setUTCDate_shift [of D 1] by (simp add: Let_def)
    moreover have "\<not> cron_matches p u" if "ms_day u = D" for u
      using that day utc_day_named [OF Suc.prems, of p] by (simp add: cron_matches_def)
    ultimately show ?thesis using skip [of 1] by simp
  next
    case none
    then have "next_loop p hours minutes sh sm first (Suc n) D = next_loop p hours minutes sh sm False n (D + 1)"
      using setUTCDate_shift [of D 1] utc_day_named [OF Suc.prems, of p] by (simp add: Let_def)
    moreover have "\<not> cron_matches p u" if "?lo \<le> u" "ms_day u = D" for u
    proof
      assume m: "cron_matches p u"
      then have u: "u = D * ms_per_day + mod_of (ms_hour u) (ms_minute u) * 60000"
        "ms_hour u \<in> set hours" "ms_minute u \<in> set minutes"
        using ms_recompose [of u] that(2) matches_time [OF t] by auto
      have "mod_of (ms_hour u) (ms_minute u) < mod_of ?hMin ?mMin"
        using pick_time_spec [of hours minutes ?mMin ?hMin] none(2) u(2,3) t s by (simp add: times_ok_def)
      then show False using time_order [OF that(1) [unfolded lo] u(1)] by linarith
    qed
    ultimately show ?thesis using skip [of 1] by simp
  next
    case some
    let ?t = "D * ms_per_day + mod_of h m * 60000"
    have nx: "next_loop p hours minutes sh sm first (Suc n) D = Some ?t"
      using some utc_day_named [OF Suc.prems, of p] by (simp add: Let_def date_utc_of_day [OF Suc.prems])
    have pk: "h \<in> set hours" "m \<in> set minutes" "mod_of ?hMin ?mMin \<le> mod_of h m"
      "\<forall>h' \<in> set hours. \<forall>m' \<in> set minutes. mod_of ?hMin ?mMin \<le> mod_of h' m' \<longrightarrow> mod_of h m \<le> mod_of h' m'"
      using pick_time_spec [of hours minutes ?mMin ?hMin] some(2) t s by (simp_all add: times_ok_def)
    have mt: "cron_matches p ?t"
      using matches_time [OF t] time_ofI [OF t pk(1,2)] some(1) pk by simp
    have "?t \<le> u" if u: "?lo \<le> u" "cron_matches p u" for u
    proof (cases "ms_day u = D")
      case True
      have r: "u = D * ms_per_day + mod_of (ms_hour u) (ms_minute u) * 60000"
        using ms_recompose [of u] u(2) True by (simp add: cron_matches_def)
      have "ms_hour u \<in> set hours" "ms_minute u \<in> set minutes" using u(2) matches_time [OF t] by auto
      moreover have "mod_of ?hMin ?mMin \<le> mod_of (ms_hour u) (ms_minute u)" by (rule time_order [OF u(1) [unfolded lo] r])
      ultimately have "mod_of h m \<le> mod_of (ms_hour u) (ms_minute u)" using pk(4) by blast
      then show ?thesis by (rule time_order' [OF _ r])
    next
      case False
      have b: "h < 24" "m < 60" using pk(1,2) t by (auto simp: times_ok_def)
      have "D * ms_per_day \<le> u" using u(1) lo0 by linarith
      then have "(D + 1) * ms_per_day \<le> u" using False ms_day_bounds [of u] mult_window [of D ms_per_day u "ms_day u"] mult_right_mono [of "D + 1" "ms_day u" ms_per_day] by linarith
      then show ?thesis using b by simp
    qed
    moreover have "?lo \<le> ?t" using pk(3) unfolding lo by simp
    ultimately show ?thesis using nx mt by (simp add: least_from_def)
  qed
qed

lemma minute_order: "t < 60000 * k \<longleftrightarrow> (t + 60000) div 60000 \<le> k" for k :: int
  using div_bounds [of 60000 "t + 60000"] mult_window [of "(t + 60000) div 60000" 60000 "t + 60000" k]
  by (auto simp: algebra_simps)

lemma parsed_times:
  assumes "parseCron cron = Some p"
  shows "times_ok p (sortedValues (pc_hour p) 0 23) (sortedValues (pc_minute p) 0 59)"
proof -
  have ints: "set (int_values vs) = {v. CInt v \<in> set vs}" for vs
    by (force simp: int_values_def split: cron_val.splits)
  have sv: "set (sortedValues f 0 mx) = {v. 0 \<le> v \<and> v \<le> mx \<and> (pf_all f \<or> field_has f v)}" if "field_in 0 mx f" for f mx
    using that by (cases "pf_values f") (auto simp: sortedValues_def steps_up_1 ints field_in_def vals_in_def field_has_def)
  have so: "sorted (sortedValues f 0 mx)" for f mx
    by (simp add: sortedValues_def steps_up_sorted)
  have r: "field_in 0 59 (pc_minute p)" "field_in 0 23 (pc_hour p)"
    using assms by (auto simp: parseCron_def bind_eq_Some_conv split: list.splits if_splits intro: parseField_in)
  show ?thesis using so sv [OF r(1)] sv [OF r(2)] by (auto simp: times_ok_def)
qed


lemma nextCronRun_least:
  assumes "parseCron cron = Some p" "0 \<le> from"
  shows "case nextCronRun cron from of
      Some t \<Rightarrow> from < t \<and> cron_matches p t \<and> (\<forall>u. from < u \<and> cron_matches p u \<longrightarrow> t \<le> u)
    | None \<Rightarrow> \<forall>u. from < u \<and> u < (ms_day (from + 60000) + 3660) * ms_per_day \<longrightarrow> \<not> cron_matches p u"
proof -
  let ?hours = "sortedValues (pc_hour p) 0 23" and ?minutes = "sortedValues (pc_minute p) 0 59"
  let ?s = "from + 60000"
  let ?D = "ms_day ?s"
  let ?lo = "?D * ms_per_day + (if True then mod_of (ms_hour ?s) (ms_minute ?s) * 60000 else 0)"
  have D: "0 \<le> ?D" using assms(2) by (simp add: ms_day_def)
  have "ms_day (date_utc (day_year ?D) (day_month ?D) (day_date ?D) 0 0) = ?D"
    using date_utc_of_day [OF D, of 0 0] by (simp add: ms_day_def)
  then have run: "nextCronRun cron from = (if ?hours = [] \<or> ?minutes = [] then None
      else next_loop p ?hours ?minutes (ms_hour ?s) (ms_minute ?s) True SEARCH_DAYS ?D)"
    using assms(1) by (simp add: nextCronRun_def Let_def)
  have "least_from p ?lo ((?D + int SEARCH_DAYS) * ms_per_day) (nextCronRun cron from)"
  proof (cases "?hours = [] \<or> ?minutes = []")
    case True
    then show ?thesis using run matches_time [OF parsed_times [OF assms(1)]] by (auto simp: least_from_def)
  next
    case False
    then show ?thesis using run next_loop_spec [OF parsed_times [OF assms(1)], of "ms_hour ?s" "ms_minute ?s" ?D True SEARCH_DAYS]
        ms_bounds [of ?s] D by simp
  qed
  moreover have "from < u \<longleftrightarrow> ?lo \<le> u" if "cron_matches p u" for u
  proof -
    have lo: "?lo = 60000 * (?s div 60000)"
      using ms_split [of ?s] by (simp add: minus_mod_eq_mult_div [symmetric] algebra_simps)
    have "60000 dvd u" using that by (simp add: cron_matches_def mod_eq_0_iff_dvd)
    then obtain k where "u = 60000 * k" by (rule dvdE)
    then show ?thesis unfolding lo using minute_order [of "from" k] mult_le_cancel_left_pos [of 60000 "?s div 60000" k]
      by (simp only: zero_less_numeral)
  qed
  ultimately show ?thesis
    by (auto simp: least_from_def SEARCH_DAYS_def split: option.splits)
qed

text \<open>
  C8. \<open>nextCronRun\<close> gives the least matching minute strictly after its argument; when it gives
  \<open>null\<close>, no minute of the 3660 days from that of the next minute matches.
\<close>

theorem next_cron_run_is_least:
  assumes "parseCron cron = Some p" "0 \<le> from"
  shows "case nextCronRun cron from of
      Some t \<Rightarrow> from < t \<and> cron_matches p t \<and> (\<forall>u. from < u \<and> cron_matches p u \<longrightarrow> t \<le> u)
    | None \<Rightarrow> \<forall>u. from < u \<and> u < (ms_day (from + 60000) + 3660) * ms_per_day \<longrightarrow> \<not> cron_matches p u"
  by (rule nextCronRun_least [OF assms])

definition ex_cron :: parsed_cron where
  "ex_cron = the (parseCron ''30 9 29 FEB *'')"

lemma next_cron_run_is_least_witness:
  "parseCron ''30 9 29 FEB *'' = Some ex_cron \<and>
   cron_matches ex_cron (the (nextCronRun ''30 9 29 FEB *'' 1709100000000)) \<and>
   nextCronRun ''30 9 29 FEB *'' 1709100000000 = Some 1709199000000"
proof -
  have p: "parseCron ''30 9 29 FEB *'' = Some ex_cron" by code_simp
  have r: "nextCronRun ''30 9 29 FEB *'' 1709100000000 = Some 1709199000000" by code_simp
  show ?thesis using p r next_cron_run_is_least [OF p, of 1709100000000] by simp
qed

end
