(* ===== verification/CronTz.thy ===== *)
theory CronTz
  imports CronClaims
begin

text \<open>
  The time-zone part of \<open>packages/scheduler/src/cron.ts\<close>. What \<open>Intl.DateTimeFormat\<close> says about
  a zone is a parameter of the model (\<open>zone\<close>): whether the name is valid, the wall clock of an
  instant, and the text of the offset in force. \<open>zone_of\<close> builds that answer from an offset in
  minutes at every instant, as the Intl documentation defines it. The theory shows that a zone
  with a fixed offset behaves as the UTC walk does, and where the zoned walk misses an
  occurrence.
\<close>

section \<open>Model\<close>

record tz_wall =
  w_year :: int
  w_month :: int
  w_day :: int
  w_hour :: int
  w_minute :: int
  w_weekday :: int

record zone =
  zn_valid :: bool
  zn_offset_name :: "int \<Rightarrow> string"
  zn_wall :: "int \<Rightarrow> tz_wall"

definition isValidTimeZone :: "zone \<Rightarrow> bool" where
  "isValidTimeZone z = zn_valid z"

definition tzWall :: "zone \<Rightarrow> int \<Rightarrow> tz_wall" where
  "tzWall z ms = zn_wall z ms"

text \<open>\<open>/(?:GMT)?([+-])(\d{2}):?(\d{2})?/\<close>: the sign, the hours and the minutes of the first match.\<close>

definition offset_at :: "string \<Rightarrow> (bool \<times> int \<times> int) option" where
  "offset_at s = (case s of
     sg # a # b # r \<Rightarrow>
       if (sg = CHR ''+'' \<or> sg = CHR ''-'') \<and> is_digit a \<and> is_digit b
       then (let t = (case r of c # u \<Rightarrow> if c = CHR '':'' then u else r | [] \<Rightarrow> r);
                 mi = (case t of x # y # _ \<Rightarrow> if is_digit x \<and> is_digit y then read_dec [x, y] else 0 | _ \<Rightarrow> 0)
             in Some (sg = CHR ''-'', read_dec [a, b], mi))
       else None
   | _ \<Rightarrow> None)"

fun offset_exec :: "string \<Rightarrow> (bool \<times> int \<times> int) option" where
  "offset_exec [] = None"
| "offset_exec (c # s) = (case offset_at (c # s) of Some m \<Rightarrow> Some m | None \<Rightarrow> offset_exec s)"

definition tzOffsetMs :: "zone \<Rightarrow> int \<Rightarrow> int" where
  "tzOffsetMs z ms = (case offset_exec (zn_offset_name z ms) of
     None \<Rightarrow> 0
   | Some (neg, h, mi) \<Rightarrow> (if neg then - 1 else 1) * (h * 3600000 + mi * 60000))"

definition tzMidnightUtc :: "zone \<Rightarrow> int \<Rightarrow> int \<Rightarrow> int \<Rightarrow> int" where
  "tzMidnightUtc z year month day =
     (let nominal = date_utc year (month - 1) day 0 0; guess = nominal - tzOffsetMs z nominal
      in nominal - tzOffsetMs z guess)"

text \<open>\<open>Math.round(x / 86400000)\<close>\<close>

definition round_days :: "int \<Rightarrow> int" where
  "round_days x = (2 * x + 86400000) div 172800000"

definition tzDaysInMonth :: "zone \<Rightarrow> int \<Rightarrow> int \<Rightarrow> int" where
  "tzDaysInMonth z year month =
     (let a = tzMidnightUtc z year month 1;
          (ny, nm) = (if month = 12 then (year + 1, 1) else (year, month + 1));
          b = tzMidnightUtc z ny nm 1
      in round_days (b - a))"

definition tzWeekday :: "zone \<Rightarrow> int \<Rightarrow> int \<Rightarrow> int \<Rightarrow> int" where
  "tzWeekday z year month day = w_weekday (tzWall z (tzMidnightUtc z year month day))"

definition tzWallToUtc :: "zone \<Rightarrow> int \<Rightarrow> int \<Rightarrow> int \<Rightarrow> int \<Rightarrow> int \<Rightarrow> int option" where
  "tzWallToUtc z year month day hour minute =
     (let nominal = date_utc year (month - 1) day hour minute; utc = nominal - tzOffsetMs z nominal; w = tzWall z utc
      in if w_year w \<noteq> year \<or> w_month w \<noteq> month \<or> w_day w \<noteq> day \<or> w_hour w \<noteq> hour \<or> w_minute w \<noteq> minute
         then None else Some utc)"

definition domOkTz :: "parsed_field \<Rightarrow> zone \<Rightarrow> int \<Rightarrow> int \<Rightarrow> int \<Rightarrow> bool" where
  "domOkTz f z year month day =
     (if pf_all f then True else if field_has f day then True
      else pf_last f \<and> day = tzDaysInMonth z year month)"

text \<open>The two inner loops over the hours and minutes of a day.\<close>

fun tz_times :: "zone \<Rightarrow> int \<Rightarrow> tz_wall \<Rightarrow> bool \<Rightarrow> int \<Rightarrow> int \<Rightarrow> int \<Rightarrow> (int \<times> int) list \<Rightarrow> int option" where
  "tz_times z startMs sw firstDay year month day [] = None"
| "tz_times z startMs sw firstDay year month day ((h, m) # rest) =
     (if firstDay \<and> (h < w_hour sw \<or> (h = w_hour sw \<and> m < w_minute sw))
      then tz_times z startMs sw firstDay year month day rest
      else case tzWallToUtc z year month day h m of
        None \<Rightarrow> tz_times z startMs sw firstDay year month day rest
      | Some utc \<Rightarrow> if utc < startMs then tz_times z startMs sw firstDay year month day rest else Some utc)"

definition next_month :: "int \<Rightarrow> int \<Rightarrow> int \<times> int" where
  "next_month year month = (if month + 1 > 12 then (year + 1, 1) else (year, month + 1))"

definition next_tz_day :: "zone \<Rightarrow> int \<Rightarrow> int \<Rightarrow> int \<Rightarrow> int \<times> int \<times> int" where
  "next_tz_day z year month day =
     (if day + 1 > tzDaysInMonth z year month
      then (let (y, m) = next_month year month in (y, m, 1)) else (year, month, day + 1))"

definition tz_day_ok :: "parsed_cron \<Rightarrow> zone \<Rightarrow> int \<Rightarrow> int \<Rightarrow> int \<Rightarrow> bool" where
  "tz_day_ok p z year month day = day_ok p (domOkTz (pc_dom p) z year month day)
     (pf_all (pc_dow p) \<or> field_has (pc_dow p) (tzWeekday z year month day))"

fun tz_loop ::
  "parsed_cron \<Rightarrow> zone \<Rightarrow> (int \<times> int) list \<Rightarrow> int \<Rightarrow> tz_wall \<Rightarrow> bool \<Rightarrow> nat \<Rightarrow> int \<Rightarrow> int \<Rightarrow> int \<Rightarrow> int option" where
  "tz_loop p z hms startMs sw firstDay 0 year month day = None"
| "tz_loop p z hms startMs sw firstDay (Suc n) year month day =
     (if \<not> monthMatches (pc_month p) month
      then (let (y, m) = next_month year month in tz_loop p z hms startMs sw False n y m 1)
      else case (if tz_day_ok p z year month day then tz_times z startMs sw firstDay year month day hms else None) of
        Some utc \<Rightarrow> Some utc
      | None \<Rightarrow> (let (y, m, d) = next_tz_day z year month day in tz_loop p z hms startMs sw False n y m d))"

definition nextCronRunInTz :: "string \<Rightarrow> zone \<Rightarrow> int \<Rightarrow> int option" where
  "nextCronRunInTz cron z from =
     (case parseCron cron of None \<Rightarrow> None | Some p \<Rightarrow>
       if \<not> isValidTimeZone z then None
       else (let hours = sortedValues (pc_hour p) 0 23; minutes = sortedValues (pc_minute p) 0 59;
                 startMs = from + 60000; sw = tzWall z startMs
             in if hours = [] \<or> minutes = [] then None
                else tz_loop p z (concat (map (\<lambda>h. map (\<lambda>m. (h, m)) minutes) hours)) startMs sw True SEARCH_DAYS
                       (w_year sw) (w_month sw) (w_day sw)))"

section \<open>Zones given by their offsets\<close>

text \<open>The \<open>longOffset\<close> text of an offset in minutes, and the wall clock under it.\<close>

definition offset_name :: "int \<Rightarrow> string" where
  "offset_name x = (if x = 0 then ''GMT'' else ''GMT'' @ (if x < 0 then ''-'' else ''+'')
     @ pad0 2 (show_dec (\<bar>x\<bar> div 60)) @ '':'' @ pad0 2 (show_dec (\<bar>x\<bar> mod 60)))"

definition wall_of :: "int \<Rightarrow> tz_wall" where
  "wall_of t = \<lparr>w_year = day_year (ms_day t), w_month = day_month (ms_day t) + 1, w_day = day_date (ms_day t),
     w_hour = ms_hour t, w_minute = ms_minute t, w_weekday = weekday (ms_day t)\<rparr>"

definition zone_of :: "(int \<Rightarrow> int) \<Rightarrow> zone" where
  "zone_of off = \<lparr>zn_valid = True, zn_offset_name = (\<lambda>ms. offset_name (off ms)),
     zn_wall = (\<lambda>ms. wall_of (ms + off ms * 60000))\<rparr>"

section \<open>A zone with a fixed offset\<close>

lemma zero_char: "CHR ''0'' = digit_char 0"
  by code_simp

lemma two_digits:
  assumes "0 \<le> k" "k < 100"
  shows "pad0 2 (show_dec k) = [digit_char (nat (k div 10)), digit_char (nat (k mod 10))]"
proof (cases "k < 10")
  case True
  then show ?thesis using assms
    by (subst show_dec.simps) (simp add: pad0_def zero_char numeral_2_eq_2)
next
  case False
  then have "k div 10 < 10" using assms by simp
  then have "show_dec k = [digit_char (nat (k div 10)), digit_char (nat (k mod 10))]"
    using False by (subst show_dec.simps) (subst show_dec.simps, simp)
  then show ?thesis by (simp add: pad0_def)
qed

lemma read_two_digits:
  assumes "0 \<le> k" "k < 100"
  shows "read_dec [digit_char (nat (k div 10)), digit_char (nat (k mod 10))] = k"
proof -
  have "0 \<le> k div 10" using assms by (simp add: pos_imp_zdiv_nonneg_iff)
  then show ?thesis using assms by (simp add: read_dec_def)
qed

lemma offset_exec_GMT: "offset_exec (CHR ''G'' # CHR ''M'' # CHR ''T'' # s) = offset_exec s"
proof -
  have "offset_at (CHR ''G'' # s) = None" "offset_at (CHR ''M'' # s) = None" "offset_at (CHR ''T'' # s) = None" for s
    by (simp_all add: offset_at_def split: list.splits)
  then show ?thesis by simp
qed

lemma offset_at_text:
  assumes "is_digit a \<and> is_digit b" "is_digit x \<and> is_digit y"
  shows "offset_exec (CHR ''+'' # a # b # CHR '':'' # x # y # []) = Some (False, read_dec [a, b], read_dec [x, y])"
    "offset_exec (CHR ''-'' # a # b # CHR '':'' # x # y # []) = Some (True, read_dec [a, b], read_dec [x, y])"
  using assms by (simp_all add: offset_at_def)

lemma tzOffsetMs_zone:
  assumes "\<bar>off ms\<bar> < 6000"
  shows "tzOffsetMs (zone_of off) ms = off ms * 60000"
proof (cases "off ms = 0")
  case True
  have "offset_exec ''GMT'' = None" by (simp add: offset_at_def)
  then show ?thesis using True by (simp add: tzOffsetMs_def zone_of_def offset_name_def)
next
  case False
  let ?h = "\<bar>off ms\<bar> div 60" and ?m = "\<bar>off ms\<bar> mod 60"
  have b: "0 \<le> ?h" "?h < 100" "0 \<le> ?m" "?m < 100" using assms by auto
  have dig: "0 \<le> k \<Longrightarrow> k < 100 \<Longrightarrow> is_digit (digit_char (nat (k div 10))) \<and> is_digit (digit_char (nat (k mod 10)))" for k :: int
    by (auto intro!: digit_char_digit)
  have "offset_exec (offset_name (off ms)) = Some (off ms < 0, ?h, ?m)"
    unfolding offset_name_def two_digits [OF b(1,2)] two_digits [OF b(3,4)]
    using False offset_at_text [OF dig [OF b(1,2)] dig [OF b(3,4)]]
    by (cases "off ms < 0") (simp_all only: if_True if_False offset_exec_GMT append_Cons append_Nil append_assoc
        read_two_digits [OF b(1,2)] read_two_digits [OF b(3,4)])
  moreover have "?h * 3600000 + ?m * 60000 = \<bar>off ms\<bar> * 60000"
  proof -
    have "?h * 3600000 + ?m * 60000 = (?h * 60 + ?m) * 60000" by (simp only: distrib_right mult.assoc mult_numeral_left)
    then show ?thesis by (rule trans) (simp only: div_mult_mod_eq)
  qed
  ultimately show ?thesis by (cases "off ms < 0") (simp_all add: tzOffsetMs_def zone_of_def)
qed

abbreviation fixed_zone :: "int \<Rightarrow> zone" where
  "fixed_zone c \<equiv> zone_of (\<lambda>ms. c)"

lemma next_month_of:
  assumes "k = month_length (day_year D) (day_month D) - day_date D + 1"
  shows "(day_year (D + k), day_month (D + k) + 1) = next_month (day_year D) (day_month D + 1) \<and> day_date (D + k) = 1"
proof -
  have D: "D + k = make_day (day_year D) (day_month D + 1) 1"
  proof -
    have "D + k = make_day (day_year D) (day_month D) (day_date D + k)"
      by (simp add: make_day_date_shift make_day_read)
    also have "\<dots> = make_day (day_year D) (day_month D) (1 + month_length (day_year D) (day_month D))"
      using assms by (simp add: add.commute)
    finally show ?thesis using day_month_bounds [of D] by (simp add: make_day_next_month make_day_date_shift)
  qed
  show ?thesis
  proof (cases "day_month D = 11")
    case True
    then have "D + k = make_day (day_year D + 1) 0 1" using D by (simp add: make_day_def Let_def)
    then show ?thesis using True read_make_day [of 0 1 "day_year D + 1"] month_length_bounds [of 0 "day_year D + 1"]
      by (simp add: next_month_def)
  next
    case False
    then show ?thesis using D day_month_bounds [of D] month_length_bounds [of "day_month D + 1" "day_year D"]
        read_make_day [of "day_month D + 1" 1 "day_year D"] by (simp add: next_month_def)
  qed
qed

section \<open>The zoned walk under a fixed offset\<close>

lemma fixed_offset: "\<bar>c\<bar> < 6000 \<Longrightarrow> tzOffsetMs (fixed_zone c) ms = c * 60000"
  by (rule tzOffsetMs_zone)

lemma fixed_wall: "tzWall (fixed_zone c) ms = wall_of (ms + c * 60000)"
  by (simp add: tzWall_def zone_of_def)

lemma fixed_midnight:
  assumes "\<bar>c\<bar> < 6000" "1970 \<le> y"
  shows "tzMidnightUtc (fixed_zone c) y m d = make_day y (m - 1) d * ms_per_day - c * 60000"
  using assms(2) by (simp add: tzMidnightUtc_def fixed_offset [OF assms(1)] date_utc_day Let_def)

lemma fixed_days:
  assumes "\<bar>c\<bar> < 6000" "0 \<le> D"
  shows "tzDaysInMonth (fixed_zone c) (day_year D) (day_month D + 1) = month_length (day_year D) (day_month D)"
proof -
  let ?y = "day_year D" and ?m = "day_month D"
  have y: "1970 \<le> ?y" by (rule day_year_1970 [OF assms(2)])
  have next_first: "(if ?m + 1 = 12 then make_day (?y + 1) 0 1 else make_day ?y (?m + 1) 1) = make_day ?y (?m + 1) 1"
    by (auto simp: make_day_def Let_def)
  have "tzDaysInMonth (fixed_zone c) ?y (?m + 1) =
      round_days ((make_day ?y (?m + 1) 1 - make_day ?y ?m 1) * ms_per_day)"
    using y next_first
    by (cases "?m = 11") (simp_all add: tzDaysInMonth_def Let_def fixed_midnight [OF assms(1)] left_diff_distrib add.commute)
  also have "\<dots> = month_length ?y ?m"
    using day_month_bounds [of D] by (simp add: make_day_next_month round_days_def)
  finally show ?thesis .
qed

lemma fixed_weekday:
  assumes "\<bar>c\<bar> < 6000" "0 \<le> D"
  shows "tzWeekday (fixed_zone c) (day_year D) (day_month D + 1) (day_date D) = weekday D"
proof -
  have "tzMidnightUtc (fixed_zone c) (day_year D) (day_month D + 1) (day_date D) + c * 60000 = D * ms_per_day"
    using fixed_midnight [OF assms(1) day_year_1970 [OF assms(2)]] by (simp add: make_day_read)
  then show ?thesis by (simp add: tzWeekday_def fixed_wall wall_of_def ms_day_def)
qed

lemma fixed_day_ok:
  assumes "\<bar>c\<bar> < 6000" "0 \<le> D"
  shows "tz_day_ok p (fixed_zone c) (day_year D) (day_month D + 1) (day_date D) = utc_day_ok p D"
  by (simp add: tz_day_ok_def utc_day_ok_def domOkTz_def domMatches_def fixed_days [OF assms]
      fixed_weekday [OF assms] daysInMonth_length [OF assms(2)])

lemma fixed_wall_utc:
  assumes "\<bar>c\<bar> < 6000" "0 \<le> D" "0 \<le> h" "h < 24" "0 \<le> mi" "mi < 60"
  shows "tzWallToUtc (fixed_zone c) (day_year D) (day_month D + 1) (day_date D) h mi =
    Some (D * ms_per_day + mod_of h mi * 60000 - c * 60000)"
  using date_utc_of_day [OF assms(2), of h mi] ms_parts_of [OF assms(3-6), of D]
  by (simp add: tzWallToUtc_def fixed_offset [OF assms(1)] fixed_wall wall_of_def Let_def algebra_simps)

lemma fixed_next_day:
  assumes "\<bar>c\<bar> < 6000" "0 \<le> D"
  shows "next_tz_day (fixed_zone c) (day_year D) (day_month D + 1) (day_date D) =
    (day_year (D + 1), day_month (D + 1) + 1, day_date (D + 1))"
proof (cases "day_date D < month_length (day_year D) (day_month D)")
  case True
  then show ?thesis using same_month [of D "D + 1"] fixed_days [OF assms] by (simp add: next_tz_day_def)
next
  case False
  then have "day_date D = month_length (day_year D) (day_month D)" using day_date_bounds [of D] by simp
  then show ?thesis using next_month_of [of 1 D] fixed_days [OF assms]
    by (auto simp: next_tz_day_def Let_def split: prod.splits)
qed

text \<open>The two inner loops find the time that \<open>pick_time\<close> picks.\<close>

definition time_pairs :: "int list \<Rightarrow> int list \<Rightarrow> (int \<times> int) list" where
  "time_pairs hours minutes = concat (map (\<lambda>h. map (\<lambda>m. (h, m)) minutes) hours)"

definition late :: "bool \<Rightarrow> int \<Rightarrow> int \<Rightarrow> int \<times> int \<Rightarrow> bool" where
  "late b sh sm = (\<lambda>(h, m). \<not> (b \<and> (h < sh \<or> (h = sh \<and> m < sm))))"

lemma find_minute:
  "find (late b sh sm) (map (\<lambda>m. (h, m)) ms) =
   (if b \<and> h < sh then None
    else map_option (\<lambda>m. (h, m)) (if b \<and> h = sh then firstAtOrAfter ms sm else find (\<lambda>m. True) ms))"
  by (induction ms) (auto simp: late_def)

lemma first_any: "\<forall>m \<in> set ms. 0 \<le> m \<Longrightarrow> find (\<lambda>m. True) ms = firstAtOrAfter ms 0"
  by (cases ms) auto

lemma find_pick:
  assumes "\<forall>h \<in> set hours. 0 \<le> h" "\<forall>m \<in> set minutes. 0 \<le> m"
  shows "find (late b sh sm) (time_pairs hours minutes) =
    pick_time hours minutes (if b then sh else 0) (if b then sm else 0)"
  using assms(1)
proof (induction hours)
  case (Cons h hs)
  have IH: "find (late b sh sm) (time_pairs hs minutes) = pick_time hs minutes (if b then sh else 0) (if b then sm else 0)"
    using Cons by simp
  have step: "find (late b sh sm) (time_pairs (h # hs) minutes) =
      (case find (late b sh sm) (map (\<lambda>m. (h, m)) minutes) of
         None \<Rightarrow> pick_time hs minutes (if b then sh else 0) (if b then sm else 0) | Some x \<Rightarrow> Some x)"
  proof -
    have "time_pairs (h # hs) minutes = map (\<lambda>m. (h, m)) minutes @ time_pairs hs minutes" by (simp add: time_pairs_def)
    then show ?thesis by (simp only: find_append IH)
  qed
  have h: "0 \<le> h" using Cons.prems by simp
  consider "b" "h < sh" | "b" "h = sh" | "b" "sh < h" | "\<not> b" by linarith
  then show ?case
    unfolding step find_minute first_any [OF assms(2)] using h by cases (auto split: option.splits)
qed (simp add: time_pairs_def)

lemma tz_times_find:
  assumes z: "\<bar>c\<bar> < 6000" "0 \<le> D"
    and hm: "\<forall>(h, m) \<in> set hms. 0 \<le> h \<and> h < 24 \<and> 0 \<le> m \<and> m < 60"
    and late: "\<And>h m. (h, m) \<in> set hms \<Longrightarrow> late b (w_hour sw) (w_minute sw) (h, m) \<Longrightarrow>
      startMs \<le> D * ms_per_day + mod_of h m * 60000 - c * 60000"
  shows "tz_times (fixed_zone c) startMs sw b (day_year D) (day_month D + 1) (day_date D) hms =
    map_option (\<lambda>(h, m). D * ms_per_day + mod_of h m * 60000 - c * 60000) (find (late b (w_hour sw) (w_minute sw)) hms)"
  using hm late
proof (induction hms)
  case (Cons hm hms)
  obtain h m where [simp]: "hm = (h, m)" by (cases hm)
  have b: "0 \<le> h" "h < 24" "0 \<le> m" "m < 60" using Cons.prems(1) by auto
  have IH: "tz_times (fixed_zone c) startMs sw b (day_year D) (day_month D + 1) (day_date D) hms =
      map_option (\<lambda>(h, m). D * ms_per_day + mod_of h m * 60000 - c * 60000)
        (find (late b (w_hour sw) (w_minute sw)) hms)"
    by (rule Cons.IH) (use Cons.prems in auto)
  show ?case
  proof (cases "late b (w_hour sw) (w_minute sw) (h, m)")
    case False
    then have "b \<and> (h < w_hour sw \<or> (h = w_hour sw \<and> m < w_minute sw))" by (simp add: late_def)
    then show ?thesis using IH False by simp
  next
    case True
    then have "startMs \<le> D * ms_per_day + mod_of h m * 60000 - c * 60000" using Cons.prems(2) [of h m] by simp
    moreover have "\<not> (b \<and> (h < w_hour sw \<or> (h = w_hour sw \<and> m < w_minute sw)))" using True by (simp add: late_def)
    ultimately show ?thesis using True fixed_wall_utc [OF z b] by auto
  qed
qed simp

lemma fixed_loop:
  assumes c: "\<bar>c\<bar> < 6000" and t: "times_ok p hours minutes"
    and sw: "w_hour sw = sh" "w_minute sw = sm" "0 \<le> sh" "sh < 24" "0 \<le> sm" "sm < 60"
    and start: "startMs = D0 * ms_per_day + mod_of sh sm * 60000 - c * 60000"
  shows "0 \<le> D \<Longrightarrow> (b \<longrightarrow> D = D0) \<Longrightarrow> (\<not> b \<longrightarrow> D0 < D) \<Longrightarrow>
    tz_loop p (fixed_zone c) (time_pairs hours minutes) startMs sw b n (day_year D) (day_month D + 1) (day_date D) =
    map_option (\<lambda>t. t - c * 60000) (next_loop p hours minutes sh sm b n D)"
proof (induction n arbitrary: D b)
  case (Suc n)
  let ?y = "day_year D" and ?m = "day_month D" and ?d = "day_date D"
  let ?next = "\<lambda>E. tz_loop p (fixed_zone c) (time_pairs hours minutes) startMs sw False n (day_year E) (day_month E + 1) (day_date E)"
  have D0: "D0 \<le> D" using Suc.prems by (cases b) auto
  have IH: "?next (D + k) = map_option (\<lambda>t. t - c * 60000) (next_loop p hours minutes sh sm False n (D + k))"
    if "1 \<le> k" for k using Suc.IH [of "D + k" False] Suc.prems(1) D0 that by simp
  have tm: "\<forall>h \<in> set hours. 0 \<le> h \<and> h < 24" "\<forall>mi \<in> set minutes. 0 \<le> mi \<and> mi < 60"
    using t by (auto simp: times_ok_def)
  have pairs: "\<forall>(h, mi) \<in> set (time_pairs hours minutes). 0 \<le> h \<and> h < 24 \<and> 0 \<le> mi \<and> mi < 60"
    using tm by (auto simp: time_pairs_def)
  have times: "tz_times (fixed_zone c) startMs sw b ?y (?m + 1) ?d (time_pairs hours minutes) =
      map_option (\<lambda>(h, mi). D * ms_per_day + mod_of h mi * 60000 - c * 60000)
        (pick_time hours minutes (if b then sh else 0) (if b then sm else 0))"
  proof (subst tz_times_find [OF c Suc.prems(1) pairs])
    fix h mi assume hm: "(h, mi) \<in> set (time_pairs hours minutes)" "late b (w_hour sw) (w_minute sw) (h, mi)"
    have r: "0 \<le> h" "0 \<le> mi" "mi < 60" using pairs hm(1) by auto
    show "startMs \<le> D * ms_per_day + mod_of h mi * 60000 - c * 60000"
    proof (cases b)
      case True
      then have "mod_of sh sm \<le> mod_of h mi" using hm(2) sw r by (auto simp: late_def)
      then show ?thesis using True Suc.prems(2) start by simp
    next
      case False
      then have "(D0 + 1) * ms_per_day \<le> D * ms_per_day" using Suc.prems(3) by simp
      moreover have "mod_of sh sm * 60000 \<le> ms_per_day" using sw by simp
      ultimately show ?thesis using start r by (simp add: algebra_simps)
    qed
  next
    show "map_option (\<lambda>(h, mi). D * ms_per_day + mod_of h mi * 60000 - c * 60000)
        (find (late b (w_hour sw) (w_minute sw)) (time_pairs hours minutes)) =
      map_option (\<lambda>(h, mi). D * ms_per_day + mod_of h mi * 60000 - c * 60000)
        (pick_time hours minutes (if b then sh else 0) (if b then sm else 0))"
      using find_pick [of hours minutes b sh sm] tm sw by simp
  qed
  have day: "next_tz_day (fixed_zone c) ?y (?m + 1) ?d = (day_year (D + 1), day_month (D + 1) + 1, day_date (D + 1))"
    by (rule fixed_next_day [OF c Suc.prems(1)])
  consider (month) "\<not> monthMatches (pc_month p) (?m + 1)"
    | (day) "monthMatches (pc_month p) (?m + 1)" "\<not> utc_day_ok p D"
    | (none) "monthMatches (pc_month p) (?m + 1)" "utc_day_ok p D"
        "pick_time hours minutes (if b then sh else 0) (if b then sm else 0) = None"
    | (some) h mi where "monthMatches (pc_month p) (?m + 1)" "utc_day_ok p D"
        "pick_time hours minutes (if b then sh else 0) (if b then sm else 0) = Some (h, mi)"
    by (cases "pick_time hours minutes (if b then sh else 0) (if b then sm else 0)") auto
  then show ?case
  proof cases
    case month
    let ?k = "month_length ?y ?m - ?d + 1"
    have nm: "next_month ?y (?m + 1) = (day_year (D + ?k), day_month (D + ?k) + 1)" "day_date (D + ?k) = 1"
      using next_month_of [OF refl, of D] by simp_all
    have "1 \<le> ?k" using day_date_bounds [of D] by simp
    then show ?thesis using month nm IH [of ?k] setUTCDate_shift [of D ?k] daysInMonth_length [OF Suc.prems(1)]
      by (simp add: Let_def)
  next
    case day
    then show ?thesis using fixed_day_ok [OF c Suc.prems(1), of p] \<open>next_tz_day _ _ _ _ = _\<close> IH [of 1] setUTCDate_shift [of D 1]
      by (simp add: Let_def)
  next
    case none
    then show ?thesis using fixed_day_ok [OF c Suc.prems(1), of p] day times IH [of 1] setUTCDate_shift [of D 1]
      by (simp add: Let_def)
  next
    case some
    then show ?thesis using fixed_day_ok [OF c Suc.prems(1), of p] times date_utc_of_day [OF Suc.prems(1), of h mi]
      by (simp add: Let_def)
  qed
qed simp

text \<open>
  In a zone with a fixed offset of less than a hundred hours the zoned walk is the UTC walk
  on the shifted clock, for an argument at a whole minute.
\<close>

theorem fixed_zone_run_is_shifted:
  assumes "\<bar>c\<bar> < 6000" "0 \<le> t + c * 60000" "t mod 60000 = 0"
  shows "nextCronRunInTz cron (fixed_zone c) t = map_option (\<lambda>u. u - c * 60000) (nextCronRun cron (t + c * 60000))"
proof (cases "parseCron cron")
  case (Some p)
  let ?hours = "sortedValues (pc_hour p) 0 23" and ?minutes = "sortedValues (pc_minute p) 0 59"
  let ?s = "t + c * 60000 + 60000"
  let ?D = "ms_day ?s"
  have D: "0 \<le> ?D" using assms(2) by (simp add: ms_day_def)
  have sw: "tzWall (fixed_zone c) (t + 60000) = wall_of ?s" by (simp add: fixed_wall algebra_simps)
  have "?s mod 60000 = 0" using assms(3) by (simp add: mod_eq_0_iff_dvd)
  then have start: "t + 60000 = ?D * ms_per_day + mod_of (ms_hour ?s) (ms_minute ?s) * 60000 - c * 60000"
    using ms_recompose [of ?s] by simp
  have d: "ms_day (date_utc (day_year ?D) (day_month ?D) (day_date ?D) 0 0) = ?D"
    using date_utc_of_day [OF D, of 0 0] by (simp add: ms_day_def)
  have "tz_loop p (fixed_zone c) (time_pairs ?hours ?minutes) (t + 60000) (wall_of ?s) True SEARCH_DAYS
      (day_year ?D) (day_month ?D + 1) (day_date ?D) =
      map_option (\<lambda>u. u - c * 60000) (next_loop p ?hours ?minutes (ms_hour ?s) (ms_minute ?s) True SEARCH_DAYS ?D)"
    using ms_bounds [of ?s] start D
    by (intro fixed_loop [OF assms(1) parsed_times [OF Some]]) (simp_all add: wall_of_def)
  then show ?thesis using Some d
    by (simp add: nextCronRunInTz_def nextCronRun_def Let_def isValidTimeZone_def sw time_pairs_def [symmetric])
      (simp add: zone_of_def wall_of_def)
qed (simp add: nextCronRunInTz_def nextCronRun_def)

lemma fixed_zone_run_is_shifted_witness:
  "nextCronRunInTz ''30 9 * * *'' (fixed_zone 390) 1709085600000 = Some 1709089200000"
proof -
  have "nextCronRun ''30 9 * * *'' (1709085600000 + 390 * 60000) = Some 1709112600000" by code_simp
  then show ?thesis using fixed_zone_run_is_shifted [of 390 1709085600000 "''30 9 * * *''"] by simp
qed

definition daily_at :: "int \<Rightarrow> parsed_cron" where
  "daily_at h = \<lparr>pc_minute = \<lparr>pf_all = False, pf_values = Some [CInt 0], pf_last = False\<rparr>,
     pc_hour = \<lparr>pf_all = False, pf_values = Some [CInt h], pf_last = False\<rparr>,
     pc_dom = \<lparr>pf_all = True, pf_values = None, pf_last = False\<rparr>,
     pc_month = \<lparr>pf_all = True, pf_values = None, pf_last = False\<rparr>,
     pc_dow = \<lparr>pf_all = True, pf_values = None, pf_last = False\<rparr>\<rparr>"

lemma daily_parsed: "parseCron ''0 9 * * *'' = Some (daily_at 9)" "parseCron ''0 5 * * *'' = Some (daily_at 5)"
  by code_simp+

text \<open>The days of the examples.\<close>

lemma ex_years: "day_year 19781 = 2024" "day_year 19782 = 2024" "day_year 19792 = 2024" "day_year 19793 = 2024"
  by (simp_all add: day_year_def day_from_year_def)

lemma ex_months: "day_month 19781 = 1" "day_month 19782 = 1" "day_month 19792 = 2" "day_month 19793 = 2"
  by (simp_all add: day_month_def ex_years day_from_year_def is_leap_def month_of_yday_def month_start_def)

lemma ex_dates: "day_date 19781 = 28" "day_date 19782 = 29" "day_date 19792 = 10" "day_date 19793 = 11"
  by (simp_all add: day_date_def ex_years day_from_year_def is_leap_def month_of_yday_def month_start_def)

lemma ex_days: "make_day 2024 1 28 = 19781" "make_day 2024 1 29 = 19782" "make_day 2024 2 10 = 19792" "make_day 2024 2 11 = 19793"
  "make_day 2024 1 1 = 19754" "make_day 2024 2 1 = 19783" "make_day 2024 3 1 = 19814"
  by (simp_all add: make_day_def day_from_year_def is_leap_def month_start_def)

lemma ex_walls: "ms_day t \<in> {19781, 19782, 19792, 19793} \<Longrightarrow> wall_of t = \<lparr>w_year = 2024, w_month = day_month (ms_day t) + 1,
    w_day = day_date (ms_day t), w_hour = ms_hour t, w_minute = ms_minute t, w_weekday = weekday (ms_day t)\<rparr>"
  by (auto simp: wall_of_def ex_years)

lemma zone_wall: "tzWall (zone_of off) ms = wall_of (ms + off ms * 60000)"
  by (simp add: tzWall_def zone_of_def)

lemmas ex_eval = zone_wall ex_walls ex_months ex_dates ex_days tzWallToUtc_def date_utc_def full_year_def tzOffsetMs_zone
  weekday_def ms_defs tzDaysInMonth_def tzMidnightUtc_def round_days_def

text \<open>A daily schedule that finds nothing on the first day and something on the second.\<close>

lemma daily_second_day:
  assumes "zn_valid z" "sw = tzWall z (t + 60000)" "sw = \<lparr>w_year = y, w_month = m, w_day = d, w_hour = sh, w_minute = sm, w_weekday = wd\<rparr>"
    and "tz_times z (t + 60000) sw True y m d [(h, 0)] = None"
    and "next_tz_day z y m d = (y', m', d')"
    and "tz_times z (t + 60000) sw False y' m' d' [(h, 0)] = Some u"
    and "parseCron cron = Some (daily_at h)"
  shows "nextCronRunInTz cron z t = Some u"
proof -
  have days: "SEARCH_DAYS = Suc (Suc 3658)" by (simp add: SEARCH_DAYS_def)
  have vals: "sortedValues (pc_hour (daily_at h)) 0 23 = [h]" "sortedValues (pc_minute (daily_at h)) 0 59 = [0]"
    by (simp_all add: daily_at_def sortedValues_def int_values_def)
  have ok: "monthMatches (pc_month (daily_at h)) k" "tz_day_ok (daily_at h) z a b c" for a b c k
    by (simp_all add: daily_at_def monthMatches_def tz_day_ok_def day_ok_def domOkTz_def)
  have loop: "tz_loop (daily_at h) z [(h, 0)] (t + 60000) sw True (Suc (Suc n)) y m d = Some u" for n
    using assms(4-6) by (simp add: ok Let_def del: tz_times.simps)
  have w: "w_year sw = y" "w_month sw = m" "w_day sw = d" using assms(3) by simp_all
  show ?thesis
    by (simp add: nextCronRunInTz_def assms(7) isValidTimeZone_def assms(1) vals Let_def assms(2) [symmetric] w
        loop [of 3658, folded days])
qed

definition spring_zone :: zone where
  "spring_zone = zone_of (\<lambda>ms. if ms < 1710054000000 then - 300 else - 240)"

text \<open>
  The zoned walk loses the occurrence in the minute after its argument when the argument is
  not at a whole minute: asked half a minute before an occurrence in UTC, the UTC walk gives
  that occurrence and the zoned walk gives the one of the next day.
\<close>

theorem zoned_run_skips_next_minute:
  "nextCronRun ''0 9 * * *'' 1709110770000 = Some 1709110800000 \<and>
   nextCronRunInTz ''0 9 * * *'' (fixed_zone 0) 1709110770000 = Some 1709197200000"
proof
  show "nextCronRun ''0 9 * * *'' 1709110770000 = Some 1709110800000" by code_simp
  show "nextCronRunInTz ''0 9 * * *'' (fixed_zone 0) 1709110770000 = Some 1709197200000"
  proof (rule daily_second_day [OF _ refl _ _ _ _ daily_parsed(1)])
    show "tzWall (fixed_zone 0) (1709110770000 + 60000) =
        \<lparr>w_year = 2024, w_month = 2, w_day = 28, w_hour = 9, w_minute = 0, w_weekday = 3\<rparr>" by (simp add: ex_eval spring_zone_def)
    show "tz_times (fixed_zone 0) (1709110770000 + 60000) (tzWall (fixed_zone 0) (1709110770000 + 60000)) True 2024 2 28 [(9, 0)] = None"
      by (simp add: ex_eval spring_zone_def)
    show "next_tz_day (fixed_zone 0) 2024 2 28 = (2024, 2, 29)"
      by (simp add: next_tz_day_def ex_eval)
    show "tz_times (fixed_zone 0) (1709110770000 + 60000) (tzWall (fixed_zone 0) (1709110770000 + 60000)) False 2024 2 29 [(9, 0)] =
        Some 1709197200000" by (simp add: ex_eval spring_zone_def)
  qed (simp add: zone_of_def)
qed

text \<open>
  \<open>tzWallToUtc\<close> refuses wall times that exist: it reads the offset at the wall time taken as
  UTC. In a zone that moves its clock from five to four hours behind UTC at 07:00 UTC (New York
  on 10 March 2024), the wall time 05:00 of that day is the instant 09:00 UTC, and the conversion
  gives \<open>null\<close>; a daily schedule at 05:00 skips the day.
\<close>

theorem existing_wall_time_rejected:
  "tzWall spring_zone 1710061200000 = \<lparr>w_year = 2024, w_month = 3, w_day = 10, w_hour = 5, w_minute = 0, w_weekday = 0\<rparr> \<and>
   tzWallToUtc spring_zone 2024 3 10 5 0 = None \<and>
   nextCronRunInTz ''0 5 * * *'' spring_zone 1710048000000 = Some 1710147600000"
proof (intro conjI)
  show "tzWall spring_zone 1710061200000 =
      \<lparr>w_year = 2024, w_month = 3, w_day = 10, w_hour = 5, w_minute = 0, w_weekday = 0\<rparr>" by (simp add: ex_eval spring_zone_def)
  show no: "tzWallToUtc spring_zone 2024 3 10 5 0 = None" by (simp add: ex_eval spring_zone_def)
  show "nextCronRunInTz ''0 5 * * *'' spring_zone 1710048000000 = Some 1710147600000"
  proof (rule daily_second_day [OF _ refl _ _ _ _ daily_parsed(2)])
    show "tzWall spring_zone (1710048000000 + 60000) =
        \<lparr>w_year = 2024, w_month = 3, w_day = 10, w_hour = 0, w_minute = 21, w_weekday = 0\<rparr>" by (simp add: ex_eval spring_zone_def)
    show "tz_times spring_zone (1710048000000 + 60000) (tzWall spring_zone (1710048000000 + 60000)) True 2024 3 10 [(5, 0)] = None"
      using no by simp
    show "next_tz_day spring_zone 2024 3 10 = (2024, 3, 11)"
      by (simp add: next_tz_day_def ex_eval spring_zone_def)
    show "tz_times spring_zone (1710048000000 + 60000) (tzWall spring_zone (1710048000000 + 60000)) False 2024 3 11 [(5, 0)] =
        Some 1710147600000" by (simp add: ex_eval spring_zone_def)
  qed (simp add: spring_zone_def zone_of_def)
qed

end
