(* ===== verification/Scheduler.thy ===== *)
theory Scheduler
  imports CronTz
begin

text \<open>
  \<open>packages/scheduler/src\<close>: the task table of \<open>SchedulerService\<close> (\<open>service.ts\<close>), the alarm of
  each task's Durable Object (\<open>do.ts\<close>) and the handler registry (\<open>registry.ts\<close>). Instants are
  milliseconds: the ISO texts of the rows are written by \<open>toISOString\<close> and compared in that
  order. A request reads the clock once. Running a handler is an asynchronous call, so
  \<open>runTask\<close> is split where it waits: \<open>run_begin\<close> reads the row, \<open>run_finish\<close> writes the result
  to whatever the table holds by then.
\<close>

section \<open>Rows, inputs and environment\<close>

datatype task_status = TPending | TDone | TFailed | TCancelled

record task =
  tk_type :: string
  tk_name :: "string option"
  tk_payload :: string
  tk_status :: task_status
  tk_run_at :: int
  tk_repeat_ms :: "int option"
  tk_cron :: "string option"
  tk_timezone :: string
  tk_max_attempts :: int
  tk_attempts :: int
  tk_run_count :: int
  tk_last_error :: "string option"
  tk_last_result :: "string option"
  tk_last_run_at :: "int option"
  tk_completed_at :: "int option"
  tk_created_at :: int
  tk_updated_at :: int

datatype run_at_input = AtMs jsnum | AtIso string

record schedule_input =
  in_id :: "string option"
  in_type :: string
  in_name :: "string option"
  in_payload :: "jsval option"
  in_run_at :: "run_at_input option"
  in_delay_ms :: "int option"
  in_repeat_ms :: "int option"
  in_cron :: "string option"
  in_timezone :: "string option"
  in_max_attempts :: "jsnum option"

type_synonym task_handler = "jsval \<Rightarrow> task \<Rightarrow> int \<Rightarrow> jsval res"

text \<open>
  The surroundings of a request: the clock, the next random UUID, the zones that \<open>Intl\<close> knows,
  \<open>Date.parse\<close> and \<open>JSON.parse\<close>, the registered handlers, and whether a call to the Durable
  Object of a task succeeds.
\<close>

record sched_env =
  se_now :: int
  se_uuid :: string
  se_zone :: "string \<Rightarrow> zone"
  se_date_parse :: "string \<Rightarrow> jsnum"
  se_json_parse :: "string \<Rightarrow> jsval res"
  se_handlers :: "(string, task_handler) amap"
  se_do_ok :: "string \<Rightarrow> bool"

text \<open>The table and the alarms.\<close>

record sched_sys =
  sy_tasks :: "(string, task) amap"
  sy_alarm :: "string \<Rightarrow> int option"

section \<open>registry.ts\<close>

definition register_handler :: "string \<Rightarrow> task_handler \<Rightarrow> (string, task_handler) amap \<Rightarrow> (string, task_handler) amap res" where
  "register_handler type h reg = (if trim type = [] then throw ''handler type is required'' else Inr (amap_set (trim type) h reg))"

definition getHandler :: "sched_env \<Rightarrow> string \<Rightarrow> task_handler option" where
  "getHandler env type = amap_get (se_handlers env) type"

definition hasHandler :: "sched_env \<Rightarrow> string \<Rightarrow> bool" where
  "hasHandler env type = amap_has type (se_handlers env)"

section \<open>Backoff and next run\<close>

definition SCHEDULER_DEFAULT_MAX_ATTEMPTS :: int where "SCHEDULER_DEFAULT_MAX_ATTEMPTS = 5"
definition SCHEDULER_BACKOFF_BASE_MS :: int where "SCHEDULER_BACKOFF_BASE_MS = 30000"
definition SCHEDULER_BACKOFF_CAP_MS :: int where "SCHEDULER_BACKOFF_CAP_MS = 3600000"

definition schedulerBackoffMs :: "int \<Rightarrow> int" where
  "schedulerBackoffMs attempts =
     (if attempts \<le> 1 then SCHEDULER_BACKOFF_BASE_MS
      else min SCHEDULER_BACKOFF_CAP_MS (SCHEDULER_BACKOFF_BASE_MS * 2 ^ nat (attempts - 1)))"

definition next_in_zone :: "sched_env \<Rightarrow> string \<Rightarrow> string \<Rightarrow> int \<Rightarrow> int option" where
  "next_in_zone env cron timezone t =
     (if timezone = ''UTC'' then nextCronRun cron t else nextCronRunInTz cron (se_zone env timezone) t)"

definition computeNextRun :: "sched_env \<Rightarrow> task \<Rightarrow> int \<Rightarrow> int option" where
  "computeNextRun env t nowMs =
     (case tk_cron t of
        Some c \<Rightarrow>
          if c = [] then (case tk_repeat_ms t of Some r \<Rightarrow> if r > 0 then Some (nowMs + r) else None | None \<Rightarrow> None)
          else if tk_timezone t \<noteq> [] then next_in_zone env c (tk_timezone t) nowMs
          else nextCronRun c nowMs
      | None \<Rightarrow> (case tk_repeat_ms t of Some r \<Rightarrow> if r > 0 then Some (nowMs + r) else None | None \<Rightarrow> None))"

section \<open>schedule\<close>

definition toMs :: "sched_env \<Rightarrow> run_at_input \<Rightarrow> int res" where
  "toMs env v = (let ms = (case v of AtMs x \<Rightarrow> x | AtIso s \<Rightarrow> se_date_parse env s)
     in if \<not> is_finite_num ms then throw ''invalid runAt - expected an ISO string or epoch ms''
        else Inr (trunc_rat (num_val ms)))"

definition opt_default :: "'a option \<Rightarrow> 'a \<Rightarrow> 'a" where
  "opt_default x d = (case x of None \<Rightarrow> d | Some v \<Rightarrow> v)"

text \<open>\<open>x?.trim() || d\<close>\<close>

definition trimmed_or :: "string option \<Rightarrow> string \<Rightarrow> string" where
  "trimmed_or x d = (let t = (case x of None \<Rightarrow> [] | Some s \<Rightarrow> trim s) in if t = [] then d else t)"

definition check_schedule :: "sched_env \<Rightarrow> schedule_input \<Rightarrow> unit res" where
  "check_schedule env i =
     (if trim (in_type i) = [] then throw ''type is required - the registered handler name''
      else if (case in_max_attempts i of None \<Rightarrow> False | Some n \<Rightarrow> num_lt n (Fin 1) \<or> \<not> num_is_integer n)
      then throw ''maxAttempts must be a positive integer''
      else if (case in_payload i of None \<Rightarrow> False | Some v \<Rightarrow> v = Null \<or> typeof v \<noteq> ''object'')
      then throw ''payload must be an object''
      else if (case in_cron i of None \<Rightarrow> False | Some c \<Rightarrow> \<not> isValidCron c)
      then throw (''invalid cron expression \"'' @ opt_default (in_cron i) [] @ ''\"'')
      else if (case in_timezone i of None \<Rightarrow> False | Some z \<Rightarrow> \<not> isValidTimeZone (se_zone env z))
      then throw (''invalid timezone \"'' @ opt_default (in_timezone i) [] @ ''\" - expected an IANA name like \"Asia/Yangon\"'')
      else if \<not> hasHandler env (trim (in_type i))
      then throw (''no handler registered for type \"'' @ trim (in_type i) @ ''\" - registerHandler() it first'')
      else Inr ())"

definition first_run :: "sched_env \<Rightarrow> schedule_input \<Rightarrow> string \<Rightarrow> int res" where
  "first_run env i timezone =
     (let later = se_now env + opt_default (in_delay_ms i) 0
      in case in_run_at i of
           Some v \<Rightarrow> toMs env v
         | None \<Rightarrow> (case in_cron i of
             Some c \<Rightarrow> if c = [] then Inr later
               else Inr (case next_in_zone env c timezone later of Some t \<Rightarrow> t | None \<Rightarrow> later)
           | None \<Rightarrow> Inr later))"

text \<open>The row of the upsert: a new one, or the old one with its columns of the \<open>DO UPDATE\<close> part.\<close>

definition scheduled_row :: "sched_env \<Rightarrow> schedule_input \<Rightarrow> string \<Rightarrow> int \<Rightarrow> task option \<Rightarrow> task" where
  "scheduled_row env i timezone runAt old =
     (let fresh = \<lparr>tk_type = trim (in_type i), tk_name = map_option trim (in_name i),
            tk_payload = opt_default (json_of (opt_default (in_payload i) (Obj []))) [], tk_status = TPending,
            tk_run_at = runAt, tk_repeat_ms = in_repeat_ms i, tk_cron = map_option trim (in_cron i),
            tk_timezone = timezone,
            tk_max_attempts = (case in_max_attempts i of None \<Rightarrow> SCHEDULER_DEFAULT_MAX_ATTEMPTS | Some n \<Rightarrow> \<lfloor>num_val n\<rfloor>),
            tk_attempts = 0, tk_run_count = 0, tk_last_error = None, tk_last_result = None, tk_last_run_at = None,
            tk_completed_at = None, tk_created_at = se_now env, tk_updated_at = se_now env\<rparr>
      in case old of None \<Rightarrow> fresh
         | Some t \<Rightarrow> fresh\<lparr>tk_run_count := tk_run_count t, tk_last_result := tk_last_result t,
                          tk_last_run_at := tk_last_run_at t, tk_created_at := tk_created_at t\<rparr>)"

definition arm :: "sched_env \<Rightarrow> string \<Rightarrow> int \<Rightarrow> sched_sys \<Rightarrow> sched_sys" where
  "arm env i t s = (if se_do_ok env i then s\<lparr>sy_alarm := (sy_alarm s)(i := Some t)\<rparr> else s)"

definition disarm :: "sched_env \<Rightarrow> string \<Rightarrow> sched_sys \<Rightarrow> sched_sys" where
  "disarm env i s = (if se_do_ok env i then s\<lparr>sy_alarm := (sy_alarm s)(i := None)\<rparr> else s)"

text \<open>\<open>new Date(ms).toISOString()\<close> throws outside the range of dates.\<close>

definition valid_time :: "int \<Rightarrow> int res" where
  "valid_time t = (if \<bar>t\<bar> > 8640000000000000 then Inl (JsError ''RangeError'' ''Invalid time value'') else Inr t)"

definition schedule :: "sched_env \<Rightarrow> schedule_input \<Rightarrow> sched_sys \<Rightarrow> (task \<times> sched_sys) res" where
  "schedule env i s =
     bindR (check_schedule env i) (\<lambda>_.
       (let key = trimmed_or (in_id i) (se_uuid env); timezone = trimmed_or (in_timezone i) ''UTC''
        in bindR (bindR (first_run env i timezone) valid_time) (\<lambda>runAt.
             (let row = scheduled_row env i timezone runAt (amap_get (sy_tasks s) key)
              in Inr (row, arm env key runAt (s\<lparr>sy_tasks := amap_set key row (sy_tasks s)\<rparr>))))))"

section \<open>Reads\<close>

definition sched_get :: "string \<Rightarrow> sched_sys \<Rightarrow> task option" where
  "sched_get i s = amap_get (sy_tasks s) i"

definition sched_list :: "task_status option \<Rightarrow> string option \<Rightarrow> int option \<Rightarrow> sched_sys \<Rightarrow> (string \<times> task) list" where
  "sched_list status type limit s =
     (let n = min (max 1 (opt_default limit 50)) 200; ty = (case type of None \<Rightarrow> [] | Some x \<Rightarrow> trim x)
      in take (nat n) (sort_key (\<lambda>r. tk_run_at (snd r)) (filter (\<lambda>r.
           (case status of None \<Rightarrow> True | Some st \<Rightarrow> tk_status (snd r) = st) \<and>
           (ty = [] \<or> tk_type (snd r) = ty)) (sy_tasks s))))"

definition sched_stats :: "sched_sys \<Rightarrow> task_status \<Rightarrow> nat" where
  "sched_stats s st = length (filter (\<lambda>r. tk_status (snd r) = st) (sy_tasks s))"

section \<open>Mutations\<close>

text \<open>\<open>UPDATE ... WHERE id = ?\<close>\<close>

definition update_row :: "string \<Rightarrow> (task \<Rightarrow> task) \<Rightarrow> sched_sys \<Rightarrow> sched_sys" where
  "update_row i f s = (case amap_get (sy_tasks s) i of None \<Rightarrow> s
     | Some t \<Rightarrow> s\<lparr>sy_tasks := amap_set i (f t) (sy_tasks s)\<rparr>)"

definition cancel :: "sched_env \<Rightarrow> string \<Rightarrow> sched_sys \<Rightarrow> bool \<times> sched_sys" where
  "cancel env i s = (case amap_get (sy_tasks s) i of
     None \<Rightarrow> (False, s)
   | Some _ \<Rightarrow> (True, disarm env i (update_row i (\<lambda>t. t\<lparr>tk_status := TCancelled, tk_updated_at := se_now env\<rparr>) s)))"

definition retry :: "sched_env \<Rightarrow> string \<Rightarrow> sched_sys \<Rightarrow> bool \<times> sched_sys" where
  "retry env i s = (case amap_get (sy_tasks s) i of
     None \<Rightarrow> (False, s)
   | Some t \<Rightarrow> if tk_status t \<noteq> TFailed then (False, s)
       else (True, arm env i (se_now env) (update_row i (\<lambda>t. t\<lparr>tk_status := TPending, tk_attempts := 0,
              tk_last_error := None, tk_run_at := se_now env, tk_updated_at := se_now env\<rparr>) s)))"

definition is_due :: "int \<Rightarrow> task \<Rightarrow> bool" where
  "is_due now t \<longleftrightarrow> tk_status t \<in> {TPending, TFailed} \<and> tk_attempts t < tk_max_attempts t \<and> tk_run_at t \<le> now"

definition due_rows :: "int \<Rightarrow> nat \<Rightarrow> sched_sys \<Rightarrow> (string \<times> task) list" where
  "due_rows now limit s = take limit (sort_key (\<lambda>r. tk_run_at (snd r)) (filter (\<lambda>r. is_due now (snd r)) (sy_tasks s)))"

text \<open>\<open>bound\<close> says whether the binding of the Durable Objects exists.\<close>

definition reconcile :: "sched_env \<Rightarrow> bool \<Rightarrow> nat \<Rightarrow> sched_sys \<Rightarrow> nat \<times> sched_sys" where
  "reconcile env bound limit s =
     (if \<not> bound then (0, s)
      else (let due = due_rows (se_now env) limit s
            in (length (filter (\<lambda>r. se_do_ok env (fst r)) due), fold (\<lambda>r. arm env (fst r) (tk_run_at (snd r))) due s)))"

definition prune :: "sched_env \<Rightarrow> int \<Rightarrow> sched_sys \<Rightarrow> nat \<times> sched_sys" where
  "prune env days s =
     (let old = (\<lambda>r. tk_status (snd r) \<in> {TDone, TCancelled} \<and> tk_updated_at (snd r) < se_now env - days * 86400000)
      in (length (filter old (sy_tasks s)), s\<lparr>sy_tasks := filter (\<lambda>r. \<not> old r) (sy_tasks s)\<rparr>))"

section \<open>runTask\<close>

datatype run_via = ViaAlarm | ViaManual

datatype skip_reason = SkNotFound | SkNotDue | SkCancelled | SkDone

record run_outcome =
  ro_status :: task_status
  ro_attempts :: int
  ro_run_count :: int
  ro_next_run_at :: "int option"
  ro_result :: "jsval option"
  ro_error :: "string option"
  ro_skipped :: "skip_reason option"

definition skipped_run :: "task_status \<Rightarrow> int \<Rightarrow> int \<Rightarrow> int option \<Rightarrow> skip_reason \<Rightarrow> run_outcome" where
  "skipped_run st att rc nxt why = \<lparr>ro_status = st, ro_attempts = att, ro_run_count = rc, ro_next_run_at = nxt,
     ro_result = None, ro_error = None, ro_skipped = Some why\<rparr>"

text \<open>
  Up to the call of the handler: the guards, or the row the handler gets. The Durable Object \<open>d\<close>
  that runs the task passes operations on its own alarm, which cannot fail.
\<close>

definition run_begin :: "sched_env \<Rightarrow> string \<Rightarrow> string \<Rightarrow> run_via \<Rightarrow> sched_sys \<Rightarrow> (run_outcome \<times> sched_sys) + task" where
  "run_begin env d i via s = (case amap_get (sy_tasks s) i of
     None \<Rightarrow> Inl (skipped_run TCancelled 0 0 None SkNotFound, s)
   | Some t \<Rightarrow>
       if tk_status t = TDone \<or> tk_status t = TCancelled
       then Inl (skipped_run (tk_status t) (tk_attempts t) (tk_run_count t) None
                   (if tk_status t = TDone then SkDone else SkCancelled), s\<lparr>sy_alarm := (sy_alarm s)(d := None)\<rparr>)
       else if via = ViaAlarm \<and> tk_run_at t > se_now env
       then Inl (skipped_run (tk_status t) (tk_attempts t) (tk_run_count t) (Some (tk_run_at t)) SkNotDue,
                 s\<lparr>sy_alarm := (sy_alarm s)(d := Some (tk_run_at t))\<rparr>)
       else Inr t)"

definition call_handler :: "sched_env \<Rightarrow> task \<Rightarrow> jsval res" where
  "call_handler env t = (case getHandler env (tk_type t) of
     None \<Rightarrow> throw (''no handler registered for type \"'' @ tk_type t @ ''\"'')
   | Some h \<Rightarrow> bindR (se_json_parse env (tk_payload t)) (\<lambda>p. h p t (tk_attempts t + 1)))"

text \<open>After the handler: \<open>t\<close> is the row that \<open>run_begin\<close> read, \<open>s\<close> the state it finds now.\<close>

definition run_finish :: "sched_env \<Rightarrow> string \<Rightarrow> string \<Rightarrow> task \<Rightarrow> jsval res \<Rightarrow> sched_sys \<Rightarrow> run_outcome \<times> sched_sys" where
  "run_finish env d i t res s =
     (let now = se_now env; attempts = tk_attempts t + 1;
          set_alarm = (\<lambda>a u. u\<lparr>sy_alarm := (sy_alarm u)(d := a)\<rparr>)
      in case res of
        Inr result \<Rightarrow>
          (let json = json_of result
           in case computeNextRun env t now of
             Some nextMs \<Rightarrow>
               (\<lparr>ro_status = TPending, ro_attempts = 0, ro_run_count = tk_run_count t + 1, ro_next_run_at = Some nextMs,
                 ro_result = Some result, ro_error = None, ro_skipped = None\<rparr>,
                set_alarm (Some nextMs) (update_row i (\<lambda>r. r\<lparr>tk_status := TPending, tk_run_at := nextMs, tk_attempts := 0,
                  tk_last_error := None, tk_last_result := json, tk_last_run_at := Some now,
                  tk_run_count := tk_run_count r + 1, tk_updated_at := now\<rparr>) s))
           | None \<Rightarrow>
               (\<lparr>ro_status = TDone, ro_attempts = attempts, ro_run_count = tk_run_count t + 1, ro_next_run_at = None,
                 ro_result = Some result, ro_error = None, ro_skipped = None\<rparr>,
                set_alarm None (update_row i (\<lambda>r. r\<lparr>tk_status := TDone, tk_last_result := json, tk_last_run_at := Some now,
                  tk_completed_at := Some now, tk_run_count := tk_run_count r + 1, tk_updated_at := now\<rparr>) s)))
      | Inl e \<Rightarrow>
          (if attempts \<ge> tk_max_attempts t
           then (\<lparr>ro_status = TFailed, ro_attempts = attempts, ro_run_count = tk_run_count t, ro_next_run_at = None,
                   ro_result = None, ro_error = Some (err_msg e), ro_skipped = None\<rparr>,
                 set_alarm None (update_row i (\<lambda>r. r\<lparr>tk_status := TFailed, tk_attempts := attempts,
                   tk_last_error := Some (err_msg e), tk_last_run_at := Some now, tk_updated_at := now\<rparr>) s))
           else (let nextMs = now + schedulerBackoffMs attempts
                 in (\<lparr>ro_status = TFailed, ro_attempts = attempts, ro_run_count = tk_run_count t,
                       ro_next_run_at = Some nextMs, ro_result = None, ro_error = Some (err_msg e), ro_skipped = None\<rparr>,
                     set_alarm (Some nextMs) (update_row i (\<lambda>r. r\<lparr>tk_status := TFailed, tk_attempts := attempts,
                       tk_last_error := Some (err_msg e), tk_run_at := nextMs, tk_last_run_at := Some now,
                       tk_updated_at := now\<rparr>) s)))))"

definition runTask :: "sched_env \<Rightarrow> string \<Rightarrow> string \<Rightarrow> run_via \<Rightarrow> sched_sys \<Rightarrow> run_outcome \<times> sched_sys" where
  "runTask env d i via s = (case run_begin env d i via s of
     Inl r \<Rightarrow> r | Inr t \<Rightarrow> run_finish env d i t (call_handler env t) s)"

section \<open>do.ts\<close>

text \<open>The requests to the Durable Object of task \<open>i\<close>, and its alarm.\<close>

datatype do_request = DoArm "string option" jsval | DoCancel | DoRun "string option" | DoPing | DoOther string

datatype do_response = DoOk | DoAlarm "int option" | DoOutcome run_outcome | DoBad nat string

definition do_fetch :: "sched_env \<Rightarrow> string \<Rightarrow> do_request \<Rightarrow> sched_sys \<Rightarrow> do_response \<times> sched_sys" where
  "do_fetch env i req s = (case req of
     DoArm _ runAt \<Rightarrow> (case runAt of
         Num x \<Rightarrow> if is_finite_num x
                   then (DoAlarm (Some (trunc_rat (num_val x))), s\<lparr>sy_alarm := (sy_alarm s)(i := Some (trunc_rat (num_val x)))\<rparr>)
                   else (DoBad 400 ''runAt (epoch ms) is required'', s)
       | _ \<Rightarrow> (DoBad 400 ''runAt (epoch ms) is required'', s))
   | DoCancel \<Rightarrow> (DoOk, s\<lparr>sy_alarm := (sy_alarm s)(i := None)\<rparr>)
   | DoRun given \<Rightarrow> (let (r, u) = runTask env i (trimmed_or given i) ViaManual s in (DoOutcome r, u))
   | DoPing \<Rightarrow> (DoAlarm (sy_alarm s i), s)
   | DoOther path \<Rightarrow> (DoBad 404 (''unknown path '' @ path), s))"

text \<open>The runtime clears the alarm when it fires it.\<close>

definition do_alarm :: "sched_env \<Rightarrow> string \<Rightarrow> sched_sys \<Rightarrow> sched_sys" where
  "do_alarm env i s = snd (runTask env i i ViaAlarm (s\<lparr>sy_alarm := (sy_alarm s)(i := None)\<rparr>))"

section \<open>The system\<close>

text \<open>
  One request after another, with the handler calls in flight: \<open>run_begin\<close> and \<open>run_finish\<close> of a
  run are separate steps, and any other request may come between.
\<close>

record sched_world =
  wd_sys :: sched_sys
  wd_running :: "(string \<times> task) list"

inductive sched_step :: "sched_world \<Rightarrow> sched_world \<Rightarrow> bool" where
  st_schedule: "schedule env i (wd_sys w) = Inr (row, s) \<Longrightarrow> sched_step w (w\<lparr>wd_sys := s\<rparr>)"
| st_cancel: "cancel env i (wd_sys w) = (b, s) \<Longrightarrow> sched_step w (w\<lparr>wd_sys := s\<rparr>)"
| st_retry: "retry env i (wd_sys w) = (b, s) \<Longrightarrow> sched_step w (w\<lparr>wd_sys := s\<rparr>)"
| st_reconcile: "reconcile env bound limit (wd_sys w) = (n, s) \<Longrightarrow> sched_step w (w\<lparr>wd_sys := s\<rparr>)"
| st_prune: "prune env days (wd_sys w) = (n, s) \<Longrightarrow> sched_step w (w\<lparr>wd_sys := s\<rparr>)"
| st_fire: "sy_alarm (wd_sys w) i = Some a \<Longrightarrow> a \<le> se_now (env :: sched_env) \<Longrightarrow>
    sched_step w (w\<lparr>wd_sys := (wd_sys w)\<lparr>sy_alarm := (sy_alarm (wd_sys w))(i := None)\<rparr>\<rparr>)"
| st_skip: "run_begin env i i via (wd_sys w) = Inl (r, s) \<Longrightarrow> sched_step w (w\<lparr>wd_sys := s\<rparr>)"
| st_begin: "run_begin env i i via (wd_sys w) = Inr t \<Longrightarrow> sched_step w (w\<lparr>wd_running := (i, t) # wd_running w\<rparr>)"
| st_finish: "(i, t) \<in> set (wd_running w) \<Longrightarrow> run_finish env i i t res (wd_sys w) = (r, s) \<Longrightarrow>
    sched_step w \<lparr>wd_sys = s, wd_running = remove1 (i, t) (wd_running w)\<rparr>"

inductive sched_reachable :: "sched_world \<Rightarrow> bool" where
  start: "sched_reachable \<lparr>wd_sys = \<lparr>sy_tasks = [], sy_alarm = (\<lambda>i. None)\<rparr>, wd_running = []\<rparr>"
| step: "sched_reachable w \<Longrightarrow> sched_step w w' \<Longrightarrow> sched_reachable w'"

end
