(* ===== verification/SchedulerClaims.thy ===== *)
theory SchedulerClaims
  imports Scheduler
begin

text \<open>
  Properties of the scheduler: the invariant of its rows in every reachable state, what a
  successful run of a cron task leaves behind, what the watchdog recovers, and the race between
  \<open>cancel\<close> and a run in flight.
\<close>

section \<open>The rows\<close>

definition task_ok :: "task \<Rightarrow> bool" where
  "task_ok t \<longleftrightarrow> 1 \<le> tk_max_attempts t \<and> 0 \<le> tk_attempts t \<and> 0 \<le> tk_run_count t \<and>
     (tk_status t = TPending \<longrightarrow> tk_attempts t = 0 \<and> tk_last_error t = None) \<and>
     (tk_status t = TFailed \<longrightarrow> 1 \<le> tk_attempts t \<and> tk_last_error t \<noteq> None) \<and>
     (tk_status t = TDone \<longrightarrow> 1 \<le> tk_run_count t \<and> tk_completed_at t \<noteq> None)"

definition rows_ok :: "sched_sys \<Rightarrow> bool" where
  "rows_ok s \<longleftrightarrow> amap_ok (sy_tasks s) \<and> (\<forall>i t. amap_get (sy_tasks s) i = Some t \<longrightarrow> task_ok t)"

lemma rows_ok_alarm [simp]: "rows_ok (s\<lparr>sy_alarm := a\<rparr>) = rows_ok s"
  by (simp add: rows_ok_def)

lemma rows_ok_arm [simp]: "rows_ok (arm env i t s) = rows_ok s" "rows_ok (disarm env i s) = rows_ok s"
  by (simp_all add: arm_def disarm_def)

lemma rows_ok_set: "rows_ok s \<Longrightarrow> task_ok t \<Longrightarrow> rows_ok (s\<lparr>sy_tasks := amap_set i t (sy_tasks s)\<rparr>)"
  by (simp add: rows_ok_def)

lemma rows_ok_update: "rows_ok s \<Longrightarrow> (\<And>t. task_ok t \<Longrightarrow> task_ok (f t)) \<Longrightarrow> rows_ok (update_row i f s)"
  by (auto simp: update_row_def rows_ok_def split: option.splits)

lemma rows_ok_get: "rows_ok s \<Longrightarrow> amap_get (sy_tasks s) i = Some t \<Longrightarrow> task_ok t"
  by (simp add: rows_ok_def)

lemma schedule_ok:
  assumes "schedule env i s = Inr (row, s')" "rows_ok s"
  shows "rows_ok s'"
proof -
  let ?key = "trimmed_or (in_id i) (se_uuid env)"
  from assms(1) obtain runAt where c: "check_schedule env i = Inr ()"
    and s': "s' = arm env ?key runAt (s\<lparr>sy_tasks := amap_set ?key row (sy_tasks s)\<rparr>)"
    and row: "row = scheduled_row env i (trimmed_or (in_timezone i) ''UTC'') runAt (amap_get (sy_tasks s) ?key)"
    by (auto simp: schedule_def Let_def bindR_Inr_iff)
  have "1 \<le> \<lfloor>num_val n\<rfloor>" if "in_max_attempts i = Some n" for n
    using c that by (cases n) (auto simp: check_schedule_def num_lt_def num_is_integer_def is_finite_num_def num_val_def split: if_splits)
  moreover have "0 \<le> tk_run_count t" if "amap_get (sy_tasks s) ?key = Some t" for t
    using rows_ok_get [OF assms(2) that] by (simp add: task_ok_def)
  ultimately have "task_ok row"
    unfolding row by (auto simp: scheduled_row_def task_ok_def SCHEDULER_DEFAULT_MAX_ATTEMPTS_def Let_def split: option.splits)
  then show ?thesis unfolding s' using assms(2) by (simp add: rows_ok_set)
qed

lemma cancel_ok: "cancel env i s = (b, s') \<Longrightarrow> rows_ok s \<Longrightarrow> rows_ok s'"
  by (auto simp: cancel_def task_ok_def intro!: rows_ok_update split: option.splits)

lemma retry_ok: "retry env i s = (b, s') \<Longrightarrow> rows_ok s \<Longrightarrow> rows_ok s'"
  by (auto simp: retry_def task_ok_def intro!: rows_ok_update split: option.splits if_splits)

lemma fold_arm_ok: "rows_ok (fold (\<lambda>r. arm env (fst r) (tk_run_at (snd r))) due s) = rows_ok s"
  by (induction due arbitrary: s) auto

lemma reconcile_ok: "reconcile env bound limit s = (n, s') \<Longrightarrow> rows_ok s \<Longrightarrow> rows_ok s'"
  by (auto simp: reconcile_def Let_def fold_arm_ok split: if_splits)

lemma map_of_filter_Some: "amap_ok m \<Longrightarrow> map_of (filter P m) k = Some v \<Longrightarrow> map_of m k = Some v"
  using amap_ok_in_lookup [of m k v] map_of_SomeD [of "filter P m" k v] by simp

lemma amap_ok_filter: "amap_ok m \<Longrightarrow> amap_ok (filter P m)"
  unfolding amap_ok_def by (induction m) auto

lemma rows_ok_filter: "rows_ok s \<Longrightarrow> rows_ok (s\<lparr>sy_tasks := filter P (sy_tasks s)\<rparr>)"
  by (auto simp: rows_ok_def amap_ok_filter dest: map_of_filter_Some)

lemma prune_ok: "prune env days s = (n, s') \<Longrightarrow> rows_ok s \<Longrightarrow> rows_ok s'"
  using rows_ok_filter [of s] by (auto simp: prune_def Let_def)

lemma begin_skip_ok: "run_begin env d i via s = Inl (r, s') \<Longrightarrow> rows_ok s \<Longrightarrow> rows_ok s'"
  by (auto simp: run_begin_def split: option.splits if_splits)

lemma begin_run_row: "run_begin env d i via s = Inr t \<Longrightarrow> amap_get (sy_tasks s) i = Some t"
  by (auto simp: run_begin_def split: option.splits if_splits)

lemma finish_ok:
  assumes "run_finish env d i t res s = (r, s')" "rows_ok s" "task_ok t"
  shows "rows_ok s'"
  using assms
  by (cases res) (auto simp: run_finish_def Let_def task_ok_def intro!: rows_ok_update split: option.splits if_splits)

definition world_ok :: "sched_world \<Rightarrow> bool" where
  "world_ok w \<longleftrightarrow> rows_ok (wd_sys w) \<and> (\<forall>(i, t) \<in> set (wd_running w). task_ok t)"

lemma step_world_ok: "sched_step w w' \<Longrightarrow> world_ok w \<Longrightarrow> world_ok w'"
proof (induction rule: sched_step.induct)
  case (st_finish i t w env res r s)
  then have "rows_ok s" by (intro finish_ok [of env i i t res "wd_sys w" r s]) (auto simp: world_ok_def)
  moreover have "\<forall>(j, u) \<in> set (remove1 (i, t) (wd_running w)). task_ok u"
    using st_finish.prems set_remove1_subset [of "(i, t)" "wd_running w"] by (auto simp: world_ok_def)
  ultimately show ?case by (simp add: world_ok_def)
qed (auto simp: world_ok_def intro: schedule_ok cancel_ok retry_ok reconcile_ok prune_ok begin_skip_ok
    dest: begin_run_row rows_ok_get)

text \<open>
  C23. In every reachable state, whatever the order of the requests, alarms and handler calls, the
  rows are well formed: the attempt budget is positive, a pending task has used no attempt and
  carries no error, a failed one has used at least one and carries its error, and a done task
  has run at least once and carries its completion time.
\<close>

theorem scheduler_rows_well_formed:
  assumes "sched_reachable w"
  shows "rows_ok (wd_sys w)"
proof -
  have "world_ok w" using assms
    by (induction rule: sched_reachable.induct)
      (simp add: world_ok_def rows_ok_def, erule (1) step_world_ok)
  then show ?thesis by (simp add: world_ok_def)
qed

definition ex_env :: sched_env where
  "ex_env = \<lparr>se_now = 1709110800000, se_uuid = ''u1'', se_zone = (\<lambda>z. fixed_zone 0), se_date_parse = (\<lambda>s. NaN),
     se_json_parse = (\<lambda>s. Inr (Obj [])), se_handlers = [(''mail'', \<lambda>p t n. Inr Null)], se_do_ok = (\<lambda>i. True)\<rparr>"

definition ex_task :: task where
  "ex_task = \<lparr>tk_type = ''mail'', tk_name = None, tk_payload = ''{}'', tk_status = TPending, tk_run_at = 1709110800000,
     tk_repeat_ms = None, tk_cron = Some ''30 9 29 FEB *'', tk_timezone = ''UTC'', tk_max_attempts = 5, tk_attempts = 0,
     tk_run_count = 0, tk_last_error = None, tk_last_result = None, tk_last_run_at = None, tk_completed_at = None,
     tk_created_at = 1709110800000, tk_updated_at = 1709110800000\<rparr>"

definition ex_input :: schedule_input where
  "ex_input = \<lparr>in_id = Some ''t1'', in_type = ''mail'', in_name = None, in_payload = None, in_run_at = Some (AtMs (Fin 1709110800000)),
     in_delay_ms = None, in_repeat_ms = None, in_cron = Some ''30 9 29 FEB *'', in_timezone = None, in_max_attempts = None\<rparr>"

definition ex_sys :: sched_sys where
  "ex_sys = \<lparr>sy_tasks = [(''t1'', ex_task)], sy_alarm = (\<lambda>i. None)(''t1'' := Some 1709110800000)\<rparr>"

lemma ex_scheduled: "schedule ex_env ex_input \<lparr>sy_tasks = [], sy_alarm = (\<lambda>i. None)\<rparr> = Inr (ex_task, ex_sys)"
proof -
  have t: "trim ''mail'' = ''mail''" "trim ''t1'' = ''t1''" "trim ''30 9 29 FEB *'' = ''30 9 29 FEB *''" by code_simp+
  have v: "isValidCron ''30 9 29 FEB *''" by code_simp
  have j: "json_of (Obj []) = Some ''{}''" by code_simp
  have r: "trunc_rat 1709110800000 = 1709110800000" by (simp add: trunc_rat_def)
  show ?thesis
    by (simp add: schedule_def check_schedule_def first_run_def scheduled_row_def ex_env_def ex_input_def ex_task_def
        ex_sys_def t v j r hasHandler_def amap_has_def trimmed_or_def opt_default_def toMs_def valid_time_def arm_def
        is_finite_num_def num_val_def SCHEDULER_DEFAULT_MAX_ATTEMPTS_def Let_def own_entries_def)
qed

lemma ex_reachable: "sched_reachable \<lparr>wd_sys = ex_sys, wd_running = []\<rparr>"
  using sched_reachable.step [OF sched_reachable.start st_schedule [where env = ex_env and i = ex_input]] ex_scheduled
  by auto

lemma scheduler_rows_well_formed_witness:
  "rows_ok ex_sys \<and> amap_get (sy_tasks ex_sys) ''t1'' = Some ex_task"
  using scheduler_rows_well_formed [OF ex_reachable] by (simp add: ex_sys_def)

section \<open>Recurring tasks\<close>

lemma update_row_get: "amap_get (sy_tasks s) i = Some t \<Longrightarrow> amap_get (sy_tasks (update_row i f s)) i = Some (f t)"
  by (simp add: update_row_def)

text \<open>
  A successful run of a cron task in UTC leaves the task pending at the least instant after the
  run that its expression names, with the alarm of its object at that instant, a full attempt
  budget and one run more; only when the expression names no minute of the next ten years the
  task is done.
\<close>

theorem cron_task_runs_at_next_match:
  assumes "tk_cron t = Some c" "parseCron c = Some p" "tk_timezone t = ''UTC''" "0 \<le> se_now env"
    and "amap_get (sy_tasks s) i = Some r" "run_finish env i i t (Inr v) s = (out, s')"
  shows "\<exists>r'. amap_get (sy_tasks s') i = Some r' \<and> tk_run_count r' = tk_run_count r + 1 \<and>
    (if tk_status r' = TPending
     then sy_alarm s' i = Some (tk_run_at r') \<and> tk_attempts r' = 0 \<and> se_now env < tk_run_at r' \<and>
       cron_matches p (tk_run_at r') \<and> (\<forall>u. se_now env < u \<and> cron_matches p u \<longrightarrow> tk_run_at r' \<le> u)
     else tk_status r' = TDone \<and> sy_alarm s' i = None \<and>
       (\<forall>u. se_now env < u \<and> u < (ms_day (se_now env + 60000) + 3660) * ms_per_day \<longrightarrow> \<not> cron_matches p u))"
proof -
  have ne: "c \<noteq> []"
  proof
    assume "c = []"
    then have "parseCron c = None" by (simp add: parseCron_def trim_def trim_start_def split_spaces.simps)
    then show False using assms(2) by simp
  qed
  have nx: "computeNextRun env t (se_now env) = nextCronRun c (se_now env)"
    using assms(1,3) ne by (simp add: computeNextRun_def next_in_zone_def)
  show ?thesis
  proof (cases "nextCronRun c (se_now env)")
    case None
    then show ?thesis
      using assms(5,6) nx nextCronRun_least [OF assms(2,4)]
      by (auto simp: run_finish_def Let_def update_row_def)
  next
    case (Some u)
    then show ?thesis
      using assms(5,6) nx nextCronRun_least [OF assms(2,4)]
      by (auto simp: run_finish_def Let_def update_row_def)
  qed
qed

lemma cron_task_runs_at_next_match_witness:
  "\<exists>r'. amap_get (sy_tasks (snd (run_finish ex_env ''t1'' ''t1'' ex_task (Inr Null) ex_sys))) ''t1'' = Some r' \<and>
     tk_run_count r' = 1"
proof -
  have p: "parseCron ''30 9 29 FEB *'' = Some ex_cron" by code_simp
  have e: "tk_cron ex_task = Some ''30 9 29 FEB *''" "tk_timezone ex_task = ''UTC''" "0 \<le> se_now ex_env"
    "amap_get (sy_tasks ex_sys) ''t1'' = Some ex_task" "tk_run_count ex_task = 0"
    by (simp_all add: ex_task_def ex_env_def ex_sys_def)
  from cron_task_runs_at_next_match [OF e(1) p e(2,3,4), of Null "fst (run_finish ex_env ''t1'' ''t1'' ex_task (Inr Null) ex_sys)"
      "snd (run_finish ex_env ''t1'' ''t1'' ex_task (Inr Null) ex_sys)"] e(5)
  show ?thesis by auto
qed

section \<open>The watchdog\<close>

lemma fold_arm_alarm:
  assumes "\<And>i. se_do_ok env i" "distinct (map fst due)"
  shows "sy_alarm (fold (\<lambda>r. arm env (fst r) (tk_run_at (snd r))) due s) i =
    (case map_of due i of Some t \<Rightarrow> Some (tk_run_at t) | None \<Rightarrow> sy_alarm s i)"
  using assms(2)
proof (induction due arbitrary: s)
  case (Cons r due)
  then have "map_of due (fst r) = None" by (simp add: map_of_eq_None_iff)
  then show ?case using Cons assms(1) by (cases r) (auto simp: arm_def split: option.splits)
qed simp

lemma fold_arm_tasks: "sy_tasks (fold (\<lambda>r. arm env (fst r) (tk_run_at (snd r))) due s) = sy_tasks s"
  by (induction due arbitrary: s) (simp_all add: arm_def)

lemma option_filter:
  assumes "\<And>t. x = Some t \<longleftrightarrow> y = Some t \<and> P t"
  shows "x = (case y of Some t \<Rightarrow> if P t then Some t else None | None \<Rightarrow> None)"
proof (cases x)
  case (Some t)
  then have "y = Some t \<and> P t" by (rule assms [THEN iffD1])
  then show ?thesis using Some by simp
next
  case None
  have "\<not> P t" if "y = Some t" for t
  proof
    assume "P t"
    then have "x = Some t" using that by (intro assms [THEN iffD2]) simp
    then show False using None by simp
  qed
  then show ?thesis using None by (cases y) simp_all
qed

text \<open>
  C36. The watchdog recovers every lost alarm: after \<open>reconcile\<close> with working objects and room for
  all due rows, each due task has its alarm at its run time, and when that alarm fires the handler
  is called on the row; no other alarm changes, so that finished, cancelled and exhausted tasks
  are never armed.
\<close>

theorem watchdog_recovers_due_tasks:
  assumes "rows_ok s" "\<And>i. se_do_ok env i" "length (filter (\<lambda>r. is_due (se_now env) (snd r)) (sy_tasks s)) \<le> limit"
    and "reconcile env True limit s = (n, s')"
  shows "sy_tasks s' = sy_tasks s \<and> (\<forall>i. sy_alarm s' i = (case amap_get (sy_tasks s) i of
       Some t \<Rightarrow> if is_due (se_now env) t then Some (tk_run_at t) else sy_alarm s i | None \<Rightarrow> sy_alarm s i)) \<and>
     (\<forall>i t. amap_get (sy_tasks s) i = Some t \<and> is_due (se_now env) t \<longrightarrow>
       run_begin env i i ViaAlarm (s'\<lparr>sy_alarm := (sy_alarm s')(i := None)\<rparr>) = Inr t)"
proof -
  let ?due = "due_rows (se_now env) limit s"
  have ok: "amap_ok (sy_tasks s)" using assms(1) by (simp add: rows_ok_def)
  have all: "set ?due = {r \<in> set (sy_tasks s). is_due (se_now env) (snd r)}"
    using assms(3) by (simp add: due_rows_def)
  have "distinct (map fst (filter (\<lambda>r. is_due (se_now env) (snd r)) (sy_tasks s)))"
    using amap_ok_filter [OF ok] by (simp add: amap_ok_def)
  then have "distinct (map fst (sort_key (\<lambda>r. tk_run_at (snd r)) (filter (\<lambda>r. is_due (se_now env) (snd r)) (sy_tasks s))))"
    by (simp add: distinct_map)
  then have d: "distinct (map fst ?due)" by (simp add: due_rows_def take_map [symmetric])
  have look: "map_of ?due i = (case amap_get (sy_tasks s) i of Some t \<Rightarrow> if is_due (se_now env) t then Some t else None | None \<Rightarrow> None)" for i
  proof -
    have a: "map_of ?due i = Some t \<longleftrightarrow> amap_get (sy_tasks s) i = Some t \<and> is_due (se_now env) t" for t
      using amap_ok_in_lookup [of ?due i t] amap_ok_in_lookup [OF ok, of i t] d all by (auto simp: amap_ok_def)
    show ?thesis by (rule option_filter) (rule a)
  qed
  have s': "s' = fold (\<lambda>r. arm env (fst r) (tk_run_at (snd r))) ?due s"
    using assms(4) by (simp add: reconcile_def Let_def)
  have t: "sy_tasks s' = sy_tasks s" unfolding s' by (rule fold_arm_tasks)
  moreover have "sy_alarm s' i = (case amap_get (sy_tasks s) i of
       Some t \<Rightarrow> if is_due (se_now env) t then Some (tk_run_at t) else sy_alarm s i | None \<Rightarrow> sy_alarm s i)" for i
    unfolding s' fold_arm_alarm [OF assms(2) d] look by (auto split: option.splits)
  moreover have "run_begin env i i ViaAlarm (s'\<lparr>sy_alarm := (sy_alarm s')(i := None)\<rparr>) = Inr u"
    if "amap_get (sy_tasks s) i = Some u" "is_due (se_now env) u" for i u
    using that t by (auto simp: run_begin_def is_due_def)
  ultimately show ?thesis by blast
qed

definition ex_lost :: sched_sys where
  "ex_lost = \<lparr>sy_tasks = [(''t1'', ex_task)], sy_alarm = (\<lambda>i. None)\<rparr>"

lemma watchdog_recovers_due_tasks_witness:
  "sy_alarm (snd (reconcile ex_env True 200 ex_lost)) ''t1'' = Some 1709110800000"
proof -
  have d: "is_due (se_now ex_env) ex_task" by (simp add: is_due_def ex_task_def ex_env_def)
  have ok: "rows_ok ex_lost" by (auto simp: rows_ok_def ex_lost_def amap_ok_def task_ok_def ex_task_def)
  have "sy_alarm (snd (reconcile ex_env True 200 ex_lost)) ''t1'' = Some (tk_run_at ex_task)"
    using watchdog_recovers_due_tasks [OF ok, of ex_env 200 "fst (reconcile ex_env True 200 ex_lost)" "snd (reconcile ex_env True 200 ex_lost)"] d
    by (simp add: ex_lost_def) (simp add: ex_env_def)
  then show ?thesis by (simp add: ex_task_def)
qed

section \<open>Cancelling a run in flight\<close>

text \<open>
  A cancelled task comes back: when \<open>cancel\<close> arrives while the handler of a recurring task
  runs, the run overwrites the cancelled status with pending and arms the alarm again.
\<close>

theorem cancelled_task_comes_back:
  assumes "run_begin env i i via s = Inr t" "cancel env2 i s = (True, s1)"
    and "computeNextRun env3 t (se_now env3) = Some nxt" "run_finish env3 i i t (Inr v) s1 = (out, s2)"
  shows "(\<exists>r. amap_get (sy_tasks s1) i = Some r \<and> tk_status r = TCancelled) \<and>
    (\<exists>r. amap_get (sy_tasks s2) i = Some r \<and> tk_status r = TPending \<and> tk_run_at r = nxt) \<and> sy_alarm s2 i = Some nxt"
proof -
  have g: "amap_get (sy_tasks s) i = Some t" by (rule begin_run_row [OF assms(1)])
  have s1: "s1 = disarm env2 i (update_row i (\<lambda>t. t\<lparr>tk_status := TCancelled, tk_updated_at := se_now env2\<rparr>) s)"
    using assms(2) g by (simp add: cancel_def)
  have g1: "amap_get (sy_tasks s1) i = Some (t\<lparr>tk_status := TCancelled, tk_updated_at := se_now env2\<rparr>)"
    unfolding s1 disarm_def using update_row_get [OF g] by simp
  then show ?thesis using assms(3,4) by (auto simp: run_finish_def Let_def update_row_def)
qed

lemma cancelled_task_comes_back_witness:
  "sy_alarm (snd (run_finish ex_env ''t1'' ''t1'' ex_task (Inr Null) (snd (cancel ex_env ''t1'' ex_sys)))) ''t1'' = Some 1709199000000"
proof -
  have b: "run_begin ex_env ''t1'' ''t1'' ViaAlarm ex_sys = Inr ex_task"
    by (simp add: run_begin_def ex_sys_def ex_task_def ex_env_def)
  have c: "cancel ex_env ''t1'' ex_sys = (True, snd (cancel ex_env ''t1'' ex_sys))" by (simp add: cancel_def ex_sys_def)
  have "nextCronRun ''30 9 29 FEB *'' 1709110800000 = Some 1709199000000" by code_simp
  then have n: "computeNextRun ex_env ex_task (se_now ex_env) = Some 1709199000000"
    by (simp add: computeNextRun_def ex_task_def ex_env_def next_in_zone_def)
  from cancelled_task_comes_back [OF b c n, of Null] show ?thesis
    by (metis prod.collapse)
qed

end
