(* ===== verification/PluginHooks.thy ===== *)
theory PluginHooks
  imports Evaluator
begin

text \<open>
  \<open>apps/api/src/core/plugin-hooks.ts\<close>, the hook registry that the entity pipeline and the
  workflow engine dispatch to, and \<open>lib/change-scope.ts\<close>, where a dispatch reports the
  collections its hooks rewrite. A handler is a function of the depth its own dispatches would
  see and of the document; it may change the document in place, so its run gives the document it
  leaves, its result or error, and the time it took.
\<close>

section \<open>change-scope.ts\<close>

text \<open>The scope of a request: \<open>None\<close> outside \<open>runWithChangeScope\<close>.\<close>

type_synonym change_set = "(string, string list) amap"

definition recordChange :: "string \<Rightarrow> string option \<Rightarrow> change_set option \<Rightarrow> change_set option" where
  "recordChange collection i scope = (case scope of
     None \<Rightarrow> None
   | Some cs \<Rightarrow> if collection = [] then Some cs
       else (let ids = (case amap_get cs collection of None \<Rightarrow> [] | Some xs \<Rightarrow> xs)
             in Some (amap_set collection (case i of None \<Rightarrow> ids | Some x \<Rightarrow> if x = [] then ids else oset_add x ids) cs)))"

definition sort_strings :: "string list \<Rightarrow> string list" where
  "sort_strings xs = foldr insert_str xs []"

record change_envelope =
  ce_collections :: "string list"
  ce_rows :: "(string \<times> string list) list"

definition snapshotChanges :: "change_set option \<Rightarrow> change_envelope option" where
  "snapshotChanges scope = (case scope of
     None \<Rightarrow> None
   | Some cs \<Rightarrow> if cs = [] then None
       else Some \<lparr>ce_collections = sort_strings (amap_keys cs),
                  ce_rows = map (\<lambda>(slug, ids). (slug, sort_strings ids)) (filter (\<lambda>(slug, ids). ids \<noteq> []) cs)\<rparr>)"

section \<open>Registrations\<close>

record hook_run =
  hr_doc :: jsobj
  hr_result :: "jsval res"
  hr_ms :: int

record hook =
  hk_collection :: string
  hk_event :: string
  hk_handler :: "nat \<Rightarrow> jsobj \<Rightarrow> hook_run"
  hk_plugin :: string
  hk_priority :: int
  hk_timeout_ms :: int
  hk_description :: "string option"
  hk_writes_to :: "string list option"

definition DEFAULT_PRIORITY :: int where "DEFAULT_PRIORITY = 50"
definition DEFAULT_TIMEOUT_MS :: int where "DEFAULT_TIMEOUT_MS = 5000"
definition MAX_HOOK_DEPTH :: nat where "MAX_HOOK_DEPTH = 3"
definition MAX_HOOKS_PER_EVENT :: nat where "MAX_HOOKS_PER_EVENT = 20"

record hook_options =
  ho_collection :: string
  ho_event :: string
  ho_handler :: "nat \<Rightarrow> jsobj \<Rightarrow> hook_run"
  ho_priority :: "int option"
  ho_timeout_ms :: "int option"
  ho_description :: "string option"
  ho_writes_to :: "string list option"

datatype on_call =
    OnLegacy string string "nat \<Rightarrow> jsobj \<Rightarrow> hook_run"
  | OnOptions hook_options

definition register_hook :: "hook \<Rightarrow> hook list \<Rightarrow> hook list" where
  "register_hook h hooks = hooks @ [h]"

definition api_on :: "string \<Rightarrow> on_call \<Rightarrow> hook list \<Rightarrow> hook list" where
  "api_on pluginId c = (case c of
     OnLegacy coll ev h \<Rightarrow> register_hook \<lparr>hk_collection = coll, hk_event = ev, hk_handler = h, hk_plugin = pluginId,
       hk_priority = DEFAULT_PRIORITY, hk_timeout_ms = DEFAULT_TIMEOUT_MS, hk_description = None, hk_writes_to = None\<rparr>
   | OnOptions p \<Rightarrow> register_hook \<lparr>hk_collection = ho_collection p, hk_event = ho_event p, hk_handler = ho_handler p,
       hk_plugin = pluginId,
       hk_priority = (case ho_priority p of None \<Rightarrow> DEFAULT_PRIORITY | Some n \<Rightarrow> n),
       hk_timeout_ms = (case ho_timeout_ms p of None \<Rightarrow> DEFAULT_TIMEOUT_MS | Some n \<Rightarrow> n),
       hk_description = ho_description p, hk_writes_to = ho_writes_to p\<rparr>)"

record hook_meta =
  hm_plugin :: string
  hm_collection :: string
  hm_event :: string
  hm_description :: string
  hm_writes_to :: "string list"
  hm_priority :: int
  hm_timeout_ms :: int

definition listMeta :: "hook list \<Rightarrow> hook_meta list" where
  "listMeta = map (\<lambda>h. \<lparr>hm_plugin = hk_plugin h, hm_collection = hk_collection h, hm_event = hk_event h,
     hm_description = (case hk_description h of None \<Rightarrow> [] | Some d \<Rightarrow> d),
     hm_writes_to = (case hk_writes_to h of None \<Rightarrow> [] | Some w \<Rightarrow> w),
     hm_priority = hk_priority h, hm_timeout_ms = hk_timeout_ms h\<rparr>)"

definition matching_hooks :: "hook list \<Rightarrow> string \<Rightarrow> string \<Rightarrow> hook list" where
  "matching_hooks hooks coll ev = filter (\<lambda>h. hk_collection h = coll \<and> hk_event h = ev) hooks"

definition getSorted :: "hook list \<Rightarrow> string \<Rightarrow> string \<Rightarrow> hook list" where
  "getSorted hooks coll ev = take MAX_HOOKS_PER_EVENT (sort_key hk_priority (matching_hooks hooks coll ev))"

definition markWrites :: "hook list \<Rightarrow> change_set option \<Rightarrow> change_set option" where
  "markWrites = fold (\<lambda>h. case hk_writes_to h of None \<Rightarrow> id | Some ws \<Rightarrow> fold (\<lambda>c. recordChange c None) ws)"

section \<open>Running hooks\<close>

text \<open>\<open>executeWithTimeout\<close>: a limit of 0 or less is no limit.\<close>

definition executeWithTimeout :: "hook_run \<Rightarrow> int \<Rightarrow> jsval res" where
  "executeWithTimeout r limit =
     (if limit \<le> 0 \<or> hr_ms r < limit then hr_result r
      else throw (''Hook timed out after '' @ show_int limit @ ''ms''))"

datatype hook_result = HookAbort jsobj | HookDoc jsobj | HookNothing

text \<open>Plain objects are the only objects a handler returns that are not arrays.\<close>

definition classify_result :: "jsval res \<Rightarrow> hook_result" where
  "classify_result r = (case r of
     Inr (Obj m) \<Rightarrow> if strict_eq (obj_get m ''abort'') (Bool True) then HookAbort m else HookDoc m
   | _ \<Rightarrow> HookNothing)"

definition runHook :: "nat \<Rightarrow> hook \<Rightarrow> jsobj \<Rightarrow> hook_result \<times> jsobj" where
  "runHook depth h doc = (let r = hk_handler h depth doc
     in (classify_result (executeWithTimeout r (hk_timeout_ms h)), hr_doc r))"

definition withDepthGuard :: "nat \<Rightarrow> string \<Rightarrow> (nat \<Rightarrow> 'a) \<Rightarrow> 'a res" where
  "withDepthGuard depth label f =
     (if depth \<ge> MAX_HOOK_DEPTH
      then throw (''Hook recursion cap reached ('' @ show_nat MAX_HOOK_DEPTH @ '') - a hook is re-entering the pipeline too deeply: '' @ label)
      else Inr (f (depth + 1)))"

fun thread_hooks :: "nat \<Rightarrow> hook list \<Rightarrow> jsobj \<Rightarrow> jsobj \<times> jsobj option" where
  "thread_hooks depth [] doc = (doc, None)"
| "thread_hooks depth (h # hs) doc = (case runHook depth h doc of
     (HookAbort a, d) \<Rightarrow> (d, Some a)
   | (HookDoc d, _) \<Rightarrow> thread_hooks depth hs d
   | (HookNothing, d) \<Rightarrow> thread_hooks depth hs d)"

definition dispatchTransform :: "hook list \<Rightarrow> nat \<Rightarrow> string \<Rightarrow> string \<Rightarrow> jsobj \<Rightarrow> change_set option
    \<Rightarrow> ((jsobj \<times> jsobj option) \<times> change_set option) res" where
  "dispatchTransform hooks depth coll ev doc scope =
     withDepthGuard depth (coll @ ''.'' @ ev) (\<lambda>d.
       (let hs = getSorted hooks coll ev in (thread_hooks d hs doc, markWrites hs scope)))"

definition hook_dispatch :: "hook list \<Rightarrow> nat \<Rightarrow> string \<Rightarrow> string \<Rightarrow> jsobj \<Rightarrow> change_set option
    \<Rightarrow> (jsobj option \<times> change_set option) res" where
  "hook_dispatch hooks depth coll ev doc scope =
     bindR (dispatchTransform hooks depth coll ev doc scope) (\<lambda>((d, abort), scope'). Inr (abort, scope'))"

text \<open>
  \<open>runFireAndForget\<close>: errors are logged, so what it leaves is the change envelope. Every hook is
  started on the document the caller passed (what the hooks change in place is seen by nobody).
\<close>

definition runFireAndForget :: "hook list \<Rightarrow> nat \<Rightarrow> string \<Rightarrow> string \<Rightarrow> jsobj \<Rightarrow> change_set option
    \<Rightarrow> hook_result list \<times> change_set option" where
  "runFireAndForget hooks depth coll ev doc scope =
     (case withDepthGuard depth (coll @ ''.'' @ ev) (\<lambda>d.
        (let hs = getSorted hooks coll ev in (map (\<lambda>h. fst (runHook d h doc)) hs, markWrites hs scope))) of
      Inl e \<Rightarrow> ([], scope) | Inr r \<Rightarrow> r)"

end
