(* ===== verification/Marketplace.thy ===== *)
theory Marketplace
  imports PluginHooks
begin

text \<open>
  \<open>apps/api/src/plugins/marketplace\<close>: the table of installed plugins (\<open>registry.ts\<close>), the native
  handlers (\<open>native-handlers.ts\<close>) and the chain that threads a document through the plugins of an
  event (\<open>chain.ts\<close>). The \<open>JSON.parse\<close> of stored texts and the workers behind service bindings
  are parameters. Rows are kept in insertion order, which is the order of \<open>created_at\<close>.
\<close>

section \<open>Reading values of unknown shape\<close>

text \<open>\<open>v.k\<close> for a value of unknown type; reading a property of \<open>null\<close> or \<open>undefined\<close> throws.\<close>

definition prop_get :: "jsval \<Rightarrow> string \<Rightarrow> jsval res" where
  "prop_get v k = (case v of
     Undef \<Rightarrow> throw_type (''Cannot read properties of undefined (reading '' @ k @ '')'')
   | Null \<Rightarrow> throw_type (''Cannot read properties of null (reading '' @ k @ '')'')
   | Obj m \<Rightarrow> Inr (obj_get m k)
   | Arr xs \<Rightarrow> Inr (arr_get xs k)
   | Host h \<Rightarrow> Inr (host_get h k)
   | _ \<Rightarrow> Inr (object_proto_get k))"

section \<open>registry.ts\<close>

record plugin_row =
  mp_id :: string
  mp_name :: string
  mp_version :: string
  mp_description :: string
  mp_manifest_json :: string
  mp_hooks_json :: string
  mp_mode :: string
  mp_enabled :: bool
  mp_tenant_scope :: string
  mp_created_at :: int
  mp_updated_at :: int
  mp_manifest :: jsval
  mp_hooks :: jsval

record plugin_input =
  pi_id :: "string option"
  pi_name :: string
  pi_version :: string
  pi_description :: "string option"
  pi_manifest :: jsval
  pi_enabled :: "bool option"
  pi_tenant_scope :: "string option"

text \<open>\<open>hooks.includes(...)\<close> on what the row's text parsed to: an array or a string.\<close>

definition hookMatches :: "jsval \<Rightarrow> string \<Rightarrow> string \<Rightarrow> bool res" where
  "hookMatches hooks coll ev = (case hooks of
     Arr xs \<Rightarrow> Inr (arr_includes xs (Str ''*'') \<or> arr_includes xs (Str (coll @ ''.'' @ ev)))
   | Str s \<Rightarrow> Inr (str_includes s ''*'' \<or> str_includes s (coll @ ''.'' @ ev))
   | _ \<Rightarrow> throw_type ''hooks.includes is not a function'')"

text \<open>SQLite's \<open>LIKE\<close>: \<open>%\<close> is any text, \<open>_\<close> any character, ASCII letters match in either case.\<close>

fun sql_like :: "string \<Rightarrow> string \<Rightarrow> bool" where
  "sql_like [] s = (s = [])"
| "sql_like (p # ps) [] = (p = CHR ''%'' \<and> sql_like ps [])"
| "sql_like (p # ps) (c # cs) =
     (if p = CHR ''%'' then sql_like ps (c # cs) \<or> sql_like (p # ps) cs
      else (p = CHR ''_'' \<or> lower_char p = lower_char c) \<and> sql_like ps cs)"

definition decorate_plugin :: "(string \<Rightarrow> jsval res) \<Rightarrow> plugin_row \<Rightarrow> plugin_row" where
  "decorate_plugin parse r = (case parse (mp_manifest_json r) of
     Inl e \<Rightarrow> r\<lparr>mp_manifest := Obj [(''hooks'', Arr []), (''execution_mode'', Str ''native'')], mp_hooks := Arr []\<rparr>
   | Inr m \<Rightarrow> (case parse (mp_hooks_json r) of
       Inl e \<Rightarrow> r\<lparr>mp_manifest := m, mp_hooks := Arr []\<rparr>
     | Inr h \<Rightarrow> r\<lparr>mp_manifest := m, mp_hooks := h\<rparr>))"

definition filter_hooks :: "string \<Rightarrow> string \<Rightarrow> plugin_row list \<Rightarrow> plugin_row list res" where
  "filter_hooks coll ev rows =
     bindR (mapR (\<lambda>p. bindR (hookMatches (mp_hooks p) coll ev) (\<lambda>b. Inr (b, p))) rows)
       (\<lambda>ps. Inr (map snd (filter fst ps)))"

definition plugin_list :: "(string \<Rightarrow> jsval res) \<Rightarrow> string option \<Rightarrow> plugin_row list \<Rightarrow> plugin_row list res" where
  "plugin_list parse ev table =
     (let parsed = map (decorate_plugin parse) (rev table)
      in case ev of None \<Rightarrow> Inr parsed
         | Some e \<Rightarrow> if e = [] then Inr parsed
             else (case split_on CHR ''.'' e of
                 c # v # _ \<Rightarrow> if c = [] \<or> v = [] then Inr []
                               else filter_hooks c v (filter mp_enabled parsed)
               | _ \<Rightarrow> Inr []))"

definition plugin_get :: "(string \<Rightarrow> jsval res) \<Rightarrow> string \<Rightarrow> plugin_row list \<Rightarrow> plugin_row option" where
  "plugin_get parse i table = map_option (decorate_plugin parse) (find (\<lambda>r. mp_id r = i) table)"

definition getActivePluginsForEvent :: "(string \<Rightarrow> jsval res) \<Rightarrow> string \<Rightarrow> string \<Rightarrow> plugin_row list \<Rightarrow> plugin_row list res" where
  "getActivePluginsForEvent parse coll ev table =
     filter_hooks coll ev (map (decorate_plugin parse)
       (filter (\<lambda>r. mp_enabled r \<and> (sql_like ''%\"*\"%'' (mp_hooks_json r)
          \<or> sql_like (''%'' @ coll @ ''.'' @ ev @ ''%'') (mp_hooks_json r))) table))"

definition validation_error :: "string \<Rightarrow> 'a res" where
  "validation_error msg = Inl (JsError ''ValidationError'' msg)"

definition validate_plugin :: "plugin_input \<Rightarrow> unit res" where
  "validate_plugin i =
     (if trim (pi_name i) = [] then validation_error ''name is required''
      else if trim (pi_version i) = [] then validation_error ''version is required''
      else if \<not> truthy (pi_manifest i) \<or>
              (case prop_get (pi_manifest i) ''hooks'' of Inr (Arr _) \<Rightarrow> False | _ \<Rightarrow> True)
      then validation_error ''manifest.hooks must be an array (e.g. [\"invoices.before_insert\"])''
      else bindR (prop_get (pi_manifest i) ''execution_mode'') (\<lambda>m.
        if m \<noteq> Str ''native'' \<and> m \<noteq> Str ''binding''
        then validation_error ''manifest.execution_mode must be native | binding (sandbox mode was removed - no worker platform dependency)''
        else Inr ()))"

text \<open>The upsert of \<open>install\<close>; \<open>created_at\<close> and the place of an existing row are kept.\<close>

definition upsert_plugin :: "plugin_row \<Rightarrow> plugin_row list \<Rightarrow> plugin_row list" where
  "upsert_plugin r table = (if mp_id r \<in> mp_id ` set table
     then map (\<lambda>q. if mp_id q = mp_id r then r\<lparr>mp_created_at := mp_created_at q\<rparr> else q) table
     else table @ [r])"

definition install_plugin :: "(string \<Rightarrow> jsval res) \<Rightarrow> int \<Rightarrow> string \<Rightarrow> plugin_input \<Rightarrow> plugin_row list
    \<Rightarrow> (plugin_row \<times> plugin_row list) res" where
  "install_plugin parse now uuid i table =
     bindR (validate_plugin i) (\<lambda>_. bindR (prop_get (pi_manifest i) ''hooks'') (\<lambda>hooks.
     bindR (prop_get (pi_manifest i) ''execution_mode'') (\<lambda>mode.
       (let key = (case pi_id i of None \<Rightarrow> uuid | Some x \<Rightarrow> x);
            row = \<lparr>mp_id = key, mp_name = pi_name i, mp_version = pi_version i,
              mp_description = (case pi_description i of None \<Rightarrow> [] | Some d \<Rightarrow> d),
              mp_manifest_json = to_str (json_stringify (pi_manifest i)),
              mp_hooks_json = to_str (json_stringify (nullish_or hooks (Arr []))),
              mp_mode = to_str (nullish_or mode (Str ''native'')),
              mp_enabled = (pi_enabled i \<noteq> Some False),
              mp_tenant_scope = (case pi_tenant_scope i of None \<Rightarrow> [] | Some t \<Rightarrow> t),
              mp_created_at = now, mp_updated_at = now, mp_manifest = Undef, mp_hooks = Undef\<rparr>;
            table' = upsert_plugin row table
        in case plugin_get parse key table' of
             None \<Rightarrow> throw ''Failed to install marketplace plugin''
           | Some r \<Rightarrow> Inr (r, table')))))"

record plugin_patch =
  pp_name :: "string option"
  pp_version :: "string option"
  pp_description :: "string option"
  pp_manifest :: "jsval option"
  pp_enabled :: "bool option"
  pp_tenant_scope :: "string option"

definition merged_plugin :: "string \<Rightarrow> plugin_patch \<Rightarrow> plugin_row \<Rightarrow> plugin_input" where
  "merged_plugin i p r = \<lparr>pi_id = Some i,
     pi_name = (case pp_name p of None \<Rightarrow> mp_name r | Some x \<Rightarrow> x),
     pi_version = (case pp_version p of None \<Rightarrow> mp_version r | Some x \<Rightarrow> x),
     pi_description = Some (case pp_description p of None \<Rightarrow> mp_description r | Some x \<Rightarrow> x),
     pi_manifest = (case pp_manifest p of None \<Rightarrow> mp_manifest r | Some x \<Rightarrow> x),
     pi_enabled = Some (case pp_enabled p of None \<Rightarrow> mp_enabled r | Some x \<Rightarrow> x),
     pi_tenant_scope = Some (case pp_tenant_scope p of None \<Rightarrow> mp_tenant_scope r | Some x \<Rightarrow> x)\<rparr>"

text \<open>\<open>install\<close> validates the merged row again, whatever changed.\<close>

definition update_plugin :: "(string \<Rightarrow> jsval res) \<Rightarrow> int \<Rightarrow> string \<Rightarrow> string \<Rightarrow> plugin_patch \<Rightarrow> plugin_row list
    \<Rightarrow> (plugin_row \<times> plugin_row list) res" where
  "update_plugin parse now uuid i p table = (case plugin_get parse i table of
     None \<Rightarrow> validation_error ''Marketplace plugin not found''
   | Some r \<Rightarrow> install_plugin parse now uuid (merged_plugin i p r) table)"

definition plugin_setEnabled :: "int \<Rightarrow> string \<Rightarrow> bool \<Rightarrow> plugin_row list \<Rightarrow> plugin_row list" where
  "plugin_setEnabled now i b = map (\<lambda>r. if mp_id r = i then r\<lparr>mp_enabled := b, mp_updated_at := now\<rparr> else r)"

definition remove_plugin :: "string \<Rightarrow> plugin_row list \<Rightarrow> plugin_row list" where
  "remove_plugin i = filter (\<lambda>r. mp_id r \<noteq> i)"

section \<open>native-handlers.ts\<close>

record native_ctx =
  nc_collection :: string
  nc_event :: string
  nc_plugin_id :: string
  nc_plugin_version :: string

type_synonym native_handler = "jsval \<Rightarrow> native_ctx \<Rightarrow> jsval res"
type_synonym native_registry = "(string, native_handler) amap"

definition registerNativePlugin :: "string \<Rightarrow> native_handler \<Rightarrow> native_registry \<Rightarrow> native_registry" where
  "registerNativePlugin i h reg = amap_set i h reg"

definition getNativeHandler :: "string \<Rightarrow> native_registry \<Rightarrow> native_handler option" where
  "getNativeHandler i reg = amap_get reg i"

definition listNativePlugins :: "native_registry \<Rightarrow> string list" where
  "listNativePlugins reg = amap_keys reg"

section \<open>chain.ts\<close>

record fetch_response =
  fr_status :: int
  fr_json :: "jsval res"

definition fr_ok :: "fetch_response \<Rightarrow> bool" where
  "fr_ok r \<longleftrightarrow> 200 \<le> fr_status r \<and> fr_status r \<le> 299"

record chain_input =
  ci_collection :: string
  ci_event :: string
  ci_doc :: jsval

text \<open>
  \<open>ch_binding\<close> gives the worker behind an env binding, if there is one: a function of the request
  body and the timeout.
\<close>

record chain_env =
  ch_native :: native_registry
  ch_binding :: "string \<Rightarrow> (jsval \<Rightarrow> jsnum \<Rightarrow> fetch_response res) option"
  ch_parse :: "string \<Rightarrow> jsval res"

definition CACHE_TTL_MS :: int where "CACHE_TTL_MS = 30000"

record chain_state =
  cs_table :: "plugin_row list"
  cs_cache :: "(string, int \<times> plugin_row list) amap"

definition invalidateChainCache :: "chain_state \<Rightarrow> chain_state" where
  "invalidateChainCache s = s\<lparr>cs_cache := []\<rparr>"

definition resolvePlugins :: "chain_env \<Rightarrow> int \<Rightarrow> string \<Rightarrow> string \<Rightarrow> chain_state \<Rightarrow> (plugin_row list \<times> chain_state) res" where
  "resolvePlugins env now coll ev s =
     (let key = coll @ ''.'' @ ev;
          fresh = bindR (getActivePluginsForEvent (ch_parse env) coll ev (cs_table s)) (\<lambda>rows.
                    Inr (rows, s\<lparr>cs_cache := amap_set key (now, rows) (cs_cache s)\<rparr>))
      in case amap_get (cs_cache s) key of
           Some (t, rows) \<Rightarrow> if now - t < CACHE_TTL_MS then Inr (rows, s) else fresh
         | None \<Rightarrow> fresh)"

definition binding_of :: "plugin_row \<Rightarrow> string res" where
  "binding_of p = bindR (prop_get (mp_manifest p) ''binding_name'') (\<lambda>b.
     Inr (if truthy b then to_str b
          else map (\<lambda>c. if c = CHR ''-'' then CHR ''_'' else c) (to_upper (mp_id p))))"

definition binding_timeout :: "plugin_row \<Rightarrow> jsnum res" where
  "binding_timeout p = bindR (prop_get (mp_manifest p) ''fetch_timeout_ms'') (\<lambda>t.
     (let n = to_num (nullish_or t (Num (Fin 5000)))
      in Inr (if is_finite_num n \<and> num_lt (Fin 0) n then n else Fin 5000)))"

definition chain_body :: "chain_input \<Rightarrow> jsval" where
  "chain_body i = Obj [(''collection'', Str (ci_collection i)), (''event'', Str (ci_event i)), (''doc'', ci_doc i)]"

definition runPlugin :: "chain_env \<Rightarrow> plugin_row \<Rightarrow> chain_input \<Rightarrow> jsval res" where
  "runPlugin env p i =
     (if mp_mode p = ''native'' then
        (case getNativeHandler (mp_id p) (ch_native env) of
           None \<Rightarrow> Inr (ci_doc i)
         | Some h \<Rightarrow> bindR (h (ci_doc i) \<lparr>nc_collection = ci_collection i, nc_event = ci_event i,
                                 nc_plugin_id = mp_id p, nc_plugin_version = mp_version p\<rparr>)
             (\<lambda>next. Inr (nullish_or next (ci_doc i))))
      else if mp_mode p = ''binding'' then
        bindR (binding_of p) (\<lambda>b. case ch_binding env b of
           None \<Rightarrow> Inr (ci_doc i)
         | Some fetch \<Rightarrow> bindR (binding_timeout p) (\<lambda>t. bindR (fetch (chain_body i) t) (\<lambda>res.
             if \<not> fr_ok res then throw (''binding worker responded '' @ show_int (fr_status res))
             else bindR (prop_get (case fr_json res of Inl e \<Rightarrow> Obj [] | Inr j \<Rightarrow> j) ''doc'') (\<lambda>d.
                    Inr (nullish_or d (ci_doc i))))))
      else Inr (ci_doc i))"

text \<open>What the loop of \<open>runForEvent\<close> does with one plugin: the next document, or the error that ends it.\<close>

definition run_guarded :: "chain_env \<Rightarrow> string \<Rightarrow> string \<Rightarrow> plugin_row \<Rightarrow> jsval \<Rightarrow> jsval res" where
  "run_guarded env coll ev p doc =
     (case runPlugin env p \<lparr>ci_collection = coll, ci_event = ev, ci_doc = doc\<rparr> of
        Inr d \<Rightarrow> Inr d
      | Inl e \<Rightarrow> if err_class e = ''ValidationError'' then Inl e
          else bindR (prop_get (mp_manifest p) ''on_error'') (\<lambda>policy.
            if nullish_or policy (Str ''skip'') = Str ''abort''
            then validation_error (''Plugin \"'' @ mp_name p @ ''\" failed on '' @ coll @ ''.'' @ ev @ '': '' @ err_msg e)
            else Inr doc))"

definition runForEvent :: "chain_env \<Rightarrow> int \<Rightarrow> string \<Rightarrow> string \<Rightarrow> jsval \<Rightarrow> chain_state \<Rightarrow> (jsval \<times> chain_state) res" where
  "runForEvent env now coll ev doc s =
     bindR (resolvePlugins env now coll ev s) (\<lambda>(plugins, s').
       bindR (foldR (run_guarded env coll ev) plugins doc) (\<lambda>d. Inr (d, s')))"

definition runPluginById :: "chain_env \<Rightarrow> plugin_row list \<Rightarrow> string \<Rightarrow> chain_input \<Rightarrow> jsval res" where
  "runPluginById env table i input = (case plugin_get (ch_parse env) i table of
     None \<Rightarrow> throw (''Marketplace plugin \"'' @ i @ ''\" not found'')
   | Some p \<Rightarrow> if \<not> mp_enabled p then Inr (ci_doc input) else runPlugin env p input)"

end
