(* ===== verification/Outbox.thy ===== *)
theory Outbox
  imports Marketplace
begin

text \<open>
  \<open>apps/api/src/plugins/outbox/service.ts\<close>: the durable queue of side effects and its dead
  letters. Rows are kept in insertion order; instants are milliseconds, ordered as their ISO
  texts are. A request reads the clock once. \<open>flushDue\<close> awaits every execution, so besides the
  whole request there are its two parts: \<open>due_entries\<close> selects, \<open>flush_row\<close> executes one selected
  row and writes its outcome to the table it finds then.
\<close>

section \<open>Tables\<close>

datatype outbox_status = OPending | ODone | OFailed

record outbox_entry =
  ob_id :: string
  ob_type :: string
  ob_dedupe_key :: "string option"
  ob_payload :: string
  ob_status :: outbox_status
  ob_attempts :: int
  ob_next_attempt :: int
  ob_error :: "string option"
  ob_created_at :: int
  ob_updated_at :: int

record dead_letter =
  dl_id :: string
  dl_type :: string
  dl_dedupe_key :: "string option"
  dl_payload :: string
  dl_attempts :: int
  dl_error :: "string option"
  dl_failed_at :: int

record outbox_db =
  od_rows :: "outbox_entry list"
  od_dlq :: "dead_letter list"

record outbox_env =
  ox_now :: int
  ox_uuid :: string
  ox_chain :: chain_env
  ox_plugins :: "plugin_row list"
  ox_hooks :: "hook list"
  ox_fetch :: "string \<Rightarrow> string \<Rightarrow> jsval \<Rightarrow> jsval \<Rightarrow> fetch_response res"

definition OUTBOX_MAX_ATTEMPTS :: int where "OUTBOX_MAX_ATTEMPTS = 5"
definition OUTBOX_BACKOFF_BASE_MS :: int where "OUTBOX_BACKOFF_BASE_MS = 60000"
definition OUTBOX_DLQ_RETENTION_DAYS :: int where "OUTBOX_DLQ_RETENTION_DAYS = 30"

definition outboxBackoffMs :: "int \<Rightarrow> int" where
  "outboxBackoffMs attempts = min (60 * 60000) (OUTBOX_BACKOFF_BASE_MS * 2 ^ nat (max 0 (attempts - 1)))"

section \<open>Enqueue\<close>

definition clashes :: "string \<Rightarrow> string option \<Rightarrow> outbox_db \<Rightarrow> bool" where
  "clashes i key db \<longleftrightarrow> i \<in> ob_id ` set (od_rows db) \<or> (key \<noteq> None \<and> key \<in> ob_dedupe_key ` set (od_rows db))"

definition fresh_entry :: "int \<Rightarrow> string \<Rightarrow> string \<Rightarrow> string option \<Rightarrow> string \<Rightarrow> int \<Rightarrow> outbox_entry" where
  "fresh_entry now i type key payload nextAt = \<lparr>ob_id = i, ob_type = type, ob_dedupe_key = key, ob_payload = payload,
     ob_status = OPending, ob_attempts = 0, ob_next_attempt = nextAt, ob_error = None, ob_created_at = now, ob_updated_at = now\<rparr>"

record enqueue_result =
  en_id :: string
  en_duplicated :: bool

definition enqueue :: "outbox_env \<Rightarrow> string \<Rightarrow> jsobj \<Rightarrow> string option \<Rightarrow> int option \<Rightarrow> outbox_db \<Rightarrow> enqueue_result \<times> outbox_db" where
  "enqueue env type payload key delayMs db =
     (let i = ox_uuid env; now = ox_now env;
          row = fresh_entry now i type key (to_str (json_stringify (Obj payload)))
                  (now + (case delayMs of None \<Rightarrow> 0 | Some d \<Rightarrow> d))
      in if clashes i key db
         then (\<lparr>en_id = (case find (\<lambda>r. ob_dedupe_key r = Some (case key of None \<Rightarrow> [] | Some k \<Rightarrow> k)) (od_rows db) of
                   None \<Rightarrow> i | Some r \<Rightarrow> ob_id r), en_duplicated = True\<rparr>, db)
         else (\<lparr>en_id = i, en_duplicated = False\<rparr>, db\<lparr>od_rows := od_rows db @ [row]\<rparr>))"

section \<open>Execution\<close>

text \<open>The \<open>input\<close> of a plugin row is an object; other inputs are outside the model.\<close>

definition chain_input_of :: "jsval \<Rightarrow> chain_input res" where
  "chain_input_of v = bindR (prop_get v ''collection'') (\<lambda>c. bindR (prop_get v ''event'') (\<lambda>e.
     bindR (prop_get v ''doc'') (\<lambda>d. Inr \<lparr>ci_collection = to_str c, ci_event = to_str e, ci_doc = d\<rparr>)))"

definition execute :: "outbox_env \<Rightarrow> outbox_entry \<Rightarrow> unit res" where
  "execute env row = bindR (ch_parse (ox_chain env) (ob_payload row)) (\<lambda>payload.
     if ob_type row = ''plugin'' then
       bindR (prop_get payload ''plugin_id'') (\<lambda>p. bindR (prop_get payload ''input'') (\<lambda>inp.
       bindR (chain_input_of inp) (\<lambda>i.
       bindR (runPluginById (ox_chain env) (ox_plugins env) (to_str p) i) (\<lambda>_. Inr ()))))
     else if ob_type row = ''hook'' then
       bindR (prop_get payload ''collection'') (\<lambda>c. bindR (prop_get payload ''event'') (\<lambda>e.
       bindR (prop_get payload ''doc'') (\<lambda>d.
         (let doc = (case nullish_or d (Obj []) of Obj m \<Rightarrow> m | _ \<Rightarrow> []);
              ran = runFireAndForget (ox_hooks env) 0 (to_str c) (to_str e) doc None
          in Inr ()))))
     else if ob_type row = ''webhook'' then
       bindR (prop_get payload ''url'') (\<lambda>u. bindR (prop_get payload ''method'') (\<lambda>m.
       bindR (prop_get payload ''headers'') (\<lambda>h. bindR (prop_get payload ''body'') (\<lambda>b.
       bindR (ox_fetch env (to_str u) (to_str (nullish_or m (Str ''POST''))) (nullish_or h (Obj [])) (json_stringify b)) (\<lambda>res.
         if fr_ok res then Inr () else throw (''webhook responded '' @ show_int (fr_status res)))))))
     else throw (''unknown outbox type \"'' @ ob_type row @ ''\"''))"

section \<open>Row lifecycle\<close>

text \<open>\<open>UPDATE _outbox SET ... WHERE id = ?\<close>\<close>

definition update_entry :: "string \<Rightarrow> (outbox_entry \<Rightarrow> outbox_entry) \<Rightarrow> outbox_db \<Rightarrow> outbox_db" where
  "update_entry i f db = db\<lparr>od_rows := map (\<lambda>r. if ob_id r = i then f r else r) (od_rows db)\<rparr>"

definition markDone :: "outbox_env \<Rightarrow> string \<Rightarrow> outbox_db \<Rightarrow> outbox_db" where
  "markDone env i = update_entry i (\<lambda>r. r\<lparr>ob_status := ODone, ob_updated_at := ox_now env\<rparr>)"

definition markFailed :: "outbox_env \<Rightarrow> string \<Rightarrow> int \<Rightarrow> string \<Rightarrow> outbox_db \<Rightarrow> outbox_db" where
  "markFailed env i attempts error = update_entry i (\<lambda>r. r\<lparr>ob_status := OFailed, ob_attempts := attempts,
     ob_error := Some error, ob_next_attempt := ox_now env + outboxBackoffMs attempts, ob_updated_at := ox_now env\<rparr>)"

text \<open>The insert fails when the dead letters hold the id already, before the row is deleted.\<close>

definition deadLetter :: "outbox_env \<Rightarrow> outbox_entry \<Rightarrow> string \<Rightarrow> outbox_db \<Rightarrow> outbox_db res" where
  "deadLetter env row error db =
     (if ob_id row \<in> dl_id ` set (od_dlq db) then throw ''UNIQUE constraint failed: _outbox_dlq.id''
      else Inr \<lparr>od_rows = filter (\<lambda>r. ob_id r \<noteq> ob_id row) (od_rows db),
                od_dlq = od_dlq db @ [\<lparr>dl_id = ob_id row, dl_type = ob_type row, dl_dedupe_key = ob_dedupe_key row,
                  dl_payload = ob_payload row, dl_attempts = ob_attempts row + 1, dl_error = Some error,
                  dl_failed_at = ox_now env\<rparr>]\<rparr>)"

section \<open>Flush\<close>

definition due_entries :: "int \<Rightarrow> nat \<Rightarrow> outbox_db \<Rightarrow> outbox_entry list" where
  "due_entries now limit db = take limit (sort_key ob_created_at
     (filter (\<lambda>r. ob_status r = OPending \<and> ob_next_attempt r \<le> now) (od_rows db)))"

record flush_summary =
  fs_processed :: nat
  fs_succeeded :: nat
  fs_failed :: nat
  fs_dead_lettered :: nat

text \<open>One pass of the loop: the result of the execution is \<open>res\<close>.\<close>

definition flush_outcome :: "outbox_env \<Rightarrow> outbox_entry \<Rightarrow> unit res \<Rightarrow> flush_summary \<times> outbox_db \<Rightarrow> (flush_summary \<times> outbox_db) res" where
  "flush_outcome env row res = (\<lambda>(sm, db). case res of
     Inr _ \<Rightarrow> Inr (sm\<lparr>fs_succeeded := fs_succeeded sm + 1\<rparr>, markDone env (ob_id row) db)
   | Inl e \<Rightarrow> (let attempts = ob_attempts row + 1
       in if attempts \<ge> OUTBOX_MAX_ATTEMPTS
          then bindR (deadLetter env row (err_msg e) db) (\<lambda>db'.
                 Inr (sm\<lparr>fs_failed := fs_failed sm + 1, fs_dead_lettered := fs_dead_lettered sm + 1\<rparr>, db'))
          else Inr (sm\<lparr>fs_failed := fs_failed sm + 1\<rparr>, markFailed env (ob_id row) attempts (err_msg e) db)))"

definition flush_row :: "outbox_env \<Rightarrow> outbox_entry \<Rightarrow> flush_summary \<times> outbox_db \<Rightarrow> (flush_summary \<times> outbox_db) res" where
  "flush_row env row = flush_outcome env row (execute env row)"

definition flushDue :: "outbox_env \<Rightarrow> nat \<Rightarrow> outbox_db \<Rightarrow> (flush_summary \<times> outbox_db) res" where
  "flushDue env limit db = (let due = due_entries (ox_now env) limit db
     in foldR (flush_row env) due (\<lparr>fs_processed = length due, fs_succeeded = 0, fs_failed = 0, fs_dead_lettered = 0\<rparr>, db))"

section \<open>Management\<close>

definition outbox_list :: "string option \<Rightarrow> nat \<Rightarrow> outbox_db \<Rightarrow> outbox_entry list" where
  "outbox_list status limit db =
     (let st = (if status = Some ''pending'' then Some OPending else if status = Some ''done'' then Some ODone
                else if status = Some ''failed'' then Some OFailed else None)
      in take limit (rev (sort_key ob_created_at (filter (\<lambda>r. case st of None \<Rightarrow> True | Some x \<Rightarrow> ob_status r = x) (od_rows db)))))"

definition listDlq :: "nat \<Rightarrow> outbox_db \<Rightarrow> dead_letter list" where
  "listDlq limit db = take limit (rev (sort_key dl_failed_at (od_dlq db)))"

text \<open>A clash of the insert with a row of the outbox is an error of the database.\<close>

definition retryDlq :: "outbox_env \<Rightarrow> string \<Rightarrow> outbox_db \<Rightarrow> (bool \<times> outbox_db) res" where
  "retryDlq env i db = (case find (\<lambda>d. dl_id d = i) (od_dlq db) of
     None \<Rightarrow> Inr (False, db)
   | Some d \<Rightarrow> if clashes i (dl_dedupe_key d) db then throw ''UNIQUE constraint failed: _outbox''
       else Inr (True, \<lparr>od_rows = od_rows db @ [fresh_entry (ox_now env) i (dl_type d) (dl_dedupe_key d) (dl_payload d) (ox_now env)],
                        od_dlq = filter (\<lambda>x. dl_id x \<noteq> i) (od_dlq db)\<rparr>))"

definition day_cutoff :: "outbox_env \<Rightarrow> int \<Rightarrow> int" where
  "day_cutoff env days = ox_now env - days * 24 * 60 * 60000"

definition pruneDlq :: "outbox_env \<Rightarrow> int \<Rightarrow> outbox_db \<Rightarrow> nat \<times> outbox_db" where
  "pruneDlq env days db = (let old = (\<lambda>d. dl_failed_at d < day_cutoff env days)
     in (length (filter old (od_dlq db)), db\<lparr>od_dlq := filter (\<lambda>d. \<not> old d) (od_dlq db)\<rparr>))"

definition pruneDone :: "outbox_env \<Rightarrow> int \<Rightarrow> outbox_db \<Rightarrow> nat \<times> outbox_db" where
  "pruneDone env days db = (let old = (\<lambda>r. ob_status r = ODone \<and> ob_updated_at r < day_cutoff env days)
     in (length (filter old (od_rows db)),
         snd (pruneDlq env OUTBOX_DLQ_RETENTION_DAYS (db\<lparr>od_rows := filter (\<lambda>r. \<not> old r) (od_rows db)\<rparr>))))"

section \<open>The system\<close>

text \<open>
  The requests that touch the tables, in any order, with the rows that running flushes have
  selected and not yet finished; \<open>ow_fired\<close> lists the ids executed so far.
\<close>

record outbox_world =
  ow_db :: outbox_db
  ow_selected :: "outbox_entry list"
  ow_fired :: "string list"

inductive outbox_step :: "outbox_world \<Rightarrow> outbox_world \<Rightarrow> bool" where
  os_enqueue: "enqueue env type payload key delay (ow_db w) = (r, db) \<Longrightarrow> outbox_step w (w\<lparr>ow_db := db\<rparr>)"
| os_select: "outbox_step w (w\<lparr>ow_selected := ow_selected w @ due_entries now limit (ow_db w)\<rparr>)"
| os_finish: "row \<in> set (ow_selected w) \<Longrightarrow> flush_outcome env row res (sm, ow_db w) = Inr (sm', db) \<Longrightarrow>
    outbox_step w \<lparr>ow_db = db, ow_selected = remove1 row (ow_selected w), ow_fired = ob_id row # ow_fired w\<rparr>"
| os_retry: "retryDlq env i (ow_db w) = Inr (b, db) \<Longrightarrow> outbox_step w (w\<lparr>ow_db := db\<rparr>)"
| os_prune: "pruneDone env days (ow_db w) = (n, db) \<Longrightarrow> outbox_step w (w\<lparr>ow_db := db\<rparr>)"

inductive outbox_reachable :: "outbox_world \<Rightarrow> bool" where
  ob_start: "outbox_reachable \<lparr>ow_db = \<lparr>od_rows = [], od_dlq = []\<rparr>, ow_selected = [], ow_fired = []\<rparr>"
| ob_step: "outbox_reachable w \<Longrightarrow> outbox_step w w' \<Longrightarrow> outbox_reachable w'"

end
