(* ===== verification/OutboxClaims.thy ===== *)
theory OutboxClaims
  imports Outbox
begin

text \<open>
  Properties of the outbox: what holds of the tables however requests and flushes interleave, and
  what becomes of a side effect whose first attempt failed.
\<close>

section \<open>The tables\<close>

definition entry_ok :: "outbox_entry \<Rightarrow> bool" where
  "entry_ok r \<longleftrightarrow> ob_attempts r \<in> {0, 1} \<and>
     (ob_status r = OPending \<longrightarrow> ob_attempts r = 0 \<and> ob_error r = None) \<and>
     (ob_status r = OFailed \<longrightarrow> ob_attempts r = 1 \<and> ob_error r \<noteq> None)"

definition keys_of :: "outbox_entry list \<Rightarrow> string list" where
  "keys_of rows = concat (map (\<lambda>r. case ob_dedupe_key r of None \<Rightarrow> [] | Some k \<Rightarrow> [k]) rows)"

definition queue_ok :: "outbox_db \<Rightarrow> bool" where
  "queue_ok db \<longleftrightarrow> distinct (map ob_id (od_rows db)) \<and> distinct (keys_of (od_rows db)) \<and>
     list_all entry_ok (od_rows db) \<and> od_dlq db = []"

definition queue_world_ok :: "outbox_world \<Rightarrow> bool" where
  "queue_world_ok w \<longleftrightarrow> queue_ok (ow_db w) \<and> list_all (\<lambda>r. ob_attempts r = 0) (ow_selected w)"

lemma keys_of_simps [simp]:
  "keys_of [] = []"
  "keys_of (r # rs) = (case ob_dedupe_key r of None \<Rightarrow> [] | Some k \<Rightarrow> [k]) @ keys_of rs"
  "keys_of (rs @ qs) = keys_of rs @ keys_of qs"
  by (simp_all add: keys_of_def)

lemma keys_of_set: "k \<in> set (keys_of rs) \<longleftrightarrow> Some k \<in> ob_dedupe_key ` set rs"
  by (induction rs) (auto split: option.splits)

lemma keys_of_map:
  "(\<And>r. ob_dedupe_key (f r) = ob_dedupe_key r) \<Longrightarrow> keys_of (map f rs) = keys_of rs"
  by (induction rs) auto

lemma keys_of_filter: "distinct (keys_of rs) \<Longrightarrow> distinct (keys_of (filter P rs))"
  by (induction rs) (auto simp: keys_of_set split: option.splits)

lemma enqueue_ok: "enqueue env type payload key delay db = (r, db') \<Longrightarrow> queue_ok db \<Longrightarrow> queue_ok db'"
  by (auto simp: enqueue_def Let_def clashes_def queue_ok_def fresh_entry_def entry_ok_def keys_of_set
      split: if_splits option.splits)

lemma update_entry_ok:
  assumes "queue_ok db" "\<And>r. ob_id (f r) = ob_id r" "\<And>r. ob_dedupe_key (f r) = ob_dedupe_key r"
    "\<And>r. entry_ok r \<Longrightarrow> entry_ok (f r)"
  shows "queue_ok (update_entry i f db)"
proof -
  have "map (ob_id \<circ> (\<lambda>r. if ob_id r = i then f r else r)) (od_rows db) = map ob_id (od_rows db)"
    by (rule map_cong) (simp_all add: assms(2))
  with assms show ?thesis
    by (simp add: queue_ok_def update_entry_def keys_of_map list_all_iff del: map_eq_conv) blast
qed

lemma markDone_ok: "queue_ok db \<Longrightarrow> queue_ok (markDone env i db)"
  unfolding markDone_def by (rule update_entry_ok) (auto simp: entry_ok_def)

lemma markFailed_ok: "queue_ok db \<Longrightarrow> queue_ok (markFailed env i 1 e db)"
  unfolding markFailed_def by (rule update_entry_ok) (auto simp: entry_ok_def)

lemma outcome_ok:
  "flush_outcome env row res (sm, db) = Inr (sm', db') \<Longrightarrow> ob_attempts row = 0 \<Longrightarrow> queue_ok db \<Longrightarrow> queue_ok db'"
  by (auto simp: flush_outcome_def OUTBOX_MAX_ATTEMPTS_def markDone_ok markFailed_ok split: sum.splits)

lemma retry_dead_ok: "retryDlq env i db = Inr (b, db') \<Longrightarrow> queue_ok db \<Longrightarrow> queue_ok db'"
  by (auto simp: retryDlq_def queue_ok_def)

lemma prune_done_ok: "pruneDone env days db = (n, db') \<Longrightarrow> queue_ok db \<Longrightarrow> queue_ok db'"
  by (auto simp: pruneDone_def pruneDlq_def Let_def queue_ok_def keys_of_filter distinct_map_filter list_all_iff)

lemma due_fresh: "queue_ok db \<Longrightarrow> r \<in> set (due_entries now limit db) \<Longrightarrow> ob_attempts r = 0"
  by (auto simp: due_entries_def queue_ok_def entry_ok_def list_all_iff dest!: in_set_takeD)

lemma due_pending: "r \<in> set (due_entries now limit db) \<Longrightarrow> r \<in> set (od_rows db) \<and> ob_status r = OPending"
  by (auto simp: due_entries_def dest!: in_set_takeD)

lemma queue_step_ok: "outbox_step w w' \<Longrightarrow> queue_world_ok w \<Longrightarrow> queue_world_ok w'"
proof (induction rule: outbox_step.induct)
  case (os_select w now limit)
  then show ?case by (auto simp: queue_world_ok_def list_all_iff dest: due_fresh)
next
  case (os_finish row w env res sm sm' db)
  then show ?case by (auto simp: queue_world_ok_def list_all_iff dest: outcome_ok notin_set_remove1)
qed (auto simp: queue_world_ok_def dest: enqueue_ok retry_dead_ok prune_done_ok)

lemma reachable_queue_ok: "outbox_reachable w \<Longrightarrow> queue_world_ok w"
  by (induction rule: outbox_reachable.induct) (simp_all add: queue_step_ok, simp add: queue_world_ok_def queue_ok_def)

text \<open>
  C13. In every reachable state of the outbox, whatever requests and flushes have interleaved, no
  two rows have the same id or the same dedupe key, a pending row has had no attempt and no error,
  a failed row has had exactly one attempt and keeps its error, and the dead-letter table is empty.
\<close>

theorem outbox_queue_invariant:
  "outbox_reachable w \<Longrightarrow> queue_ok (ow_db w)"
  using reachable_queue_ok by (simp add: queue_world_ok_def)

definition ex_ox_env :: "int \<Rightarrow> string \<Rightarrow> outbox_env" where
  "ex_ox_env now uuid = \<lparr>ox_now = now, ox_uuid = uuid,
     ox_chain = \<lparr>ch_native = [], ch_binding = (\<lambda>b. None), ch_parse = (\<lambda>t. Inr (Obj []))\<rparr>,
     ox_plugins = [], ox_hooks = [], ox_fetch = (\<lambda>u m h b. throw ''offline'')\<rparr>"

definition ex_pending :: outbox_entry where
  "ex_pending = fresh_entry 1000 ''a'' ''custom'' (Some ''k'') ''{}'' 1000"

definition ex_failed :: outbox_entry where
  "ex_failed = ex_pending\<lparr>ob_status := OFailed, ob_attempts := 1, ob_error := Some ''unknown outbox type \"custom\"'',
     ob_next_attempt := 62000, ob_updated_at := 2000\<rparr>"

definition ex_world :: outbox_world where
  "ex_world = \<lparr>ow_db = \<lparr>od_rows = [ex_failed], od_dlq = []\<rparr>, ow_selected = [], ow_fired = [''a'']\<rparr>"

lemma ex_enqueued:
  "enqueue (ex_ox_env 1000 ''a'') ''custom'' [] (Some ''k'') None \<lparr>od_rows = [], od_dlq = []\<rparr>
     = (\<lparr>en_id = ''a'', en_duplicated = False\<rparr>, \<lparr>od_rows = [ex_pending], od_dlq = []\<rparr>)"
  by (simp add: enqueue_def Let_def clashes_def ex_ox_env_def ex_pending_def json_stringify_def own_entries_def)

lemma ex_due: "due_entries 2000 50 \<lparr>od_rows = [ex_pending], od_dlq = []\<rparr> = [ex_pending]"
  by (simp add: due_entries_def ex_pending_def fresh_entry_def)

lemma ex_executed: "execute (ex_ox_env 2000 ''b'') ex_pending = throw ''unknown outbox type \"custom\"''"
  by (simp add: execute_def ex_ox_env_def ex_pending_def fresh_entry_def)

lemma ex_flushed:
  "flush_outcome (ex_ox_env 2000 ''b'') ex_pending (execute (ex_ox_env 2000 ''b'') ex_pending) (sm, \<lparr>od_rows = [ex_pending], od_dlq = []\<rparr>)
     = Inr (sm\<lparr>fs_failed := fs_failed sm + 1\<rparr>, \<lparr>od_rows = [ex_failed], od_dlq = []\<rparr>)"
  unfolding ex_executed
  by (simp add: flush_outcome_def Let_def OUTBOX_MAX_ATTEMPTS_def markFailed_def update_entry_def
      ex_failed_def ex_pending_def fresh_entry_def outboxBackoffMs_def OUTBOX_BACKOFF_BASE_MS_def ex_ox_env_def)

lemma ex_queue_reachable: "outbox_reachable ex_world"
proof -
  note s1 = ob_step [OF ob_start os_enqueue, simplified, OF ex_enqueued]
  note s2 = ob_step [OF s1 os_select [where now = 2000 and limit = 50], simplified ex_due outbox_world.simps append_Nil]
  have "outbox_step \<lparr>ow_db = \<lparr>od_rows = [ex_pending], od_dlq = []\<rparr>, ow_selected = [ex_pending], ow_fired = []\<rparr> ex_world"
    using os_finish [of ex_pending "\<lparr>ow_db = \<lparr>od_rows = [ex_pending], od_dlq = []\<rparr>, ow_selected = [ex_pending], ow_fired = []\<rparr>",
        simplified, OF ex_flushed]
    by (simp add: ex_world_def ex_pending_def fresh_entry_def)
  with s2 show ?thesis using ob_step by (simp add: ex_due)
qed

lemma outbox_queue_invariant_witness: "queue_ok (ow_db ex_world)"
  by (rule outbox_queue_invariant [OF ex_queue_reachable])

section \<open>A failed row\<close>

lemma kept_by_update: "r \<in> set (od_rows db) \<Longrightarrow> ob_id r \<noteq> i \<Longrightarrow> r \<in> set (od_rows (update_entry i f db))"
  by (force simp: update_entry_def)

lemma kept_by_outcome:
  "flush_outcome env row res (sm, db) = Inr (sm', db') \<Longrightarrow> ob_id row \<noteq> ob_id r \<Longrightarrow> r \<in> set (od_rows db)
     \<Longrightarrow> r \<in> set (od_rows db')"
  by (auto simp: flush_outcome_def deadLetter_def markDone_def markFailed_def Let_def kept_by_update
      split: sum.splits if_splits)

definition stuck :: "outbox_entry \<Rightarrow> outbox_world \<Rightarrow> bool" where
  "stuck r w \<longleftrightarrow> queue_world_ok w \<and> ob_status r = OFailed \<and> r \<in> set (od_rows (ow_db w)) \<and> ob_id r \<notin> ob_id ` set (ow_selected w)"

lemma same_id: "distinct (map ob_id rs) \<Longrightarrow> r \<in> set rs \<Longrightarrow> q \<in> set rs \<Longrightarrow> ob_id r = ob_id q \<Longrightarrow> r = q"
  by (auto simp: distinct_map inj_on_def)

lemma stuck_not_due:
  assumes "stuck r w" shows "ob_id r \<notin> ob_id ` set (due_entries now limit (ow_db w))"
proof
  assume "ob_id r \<in> ob_id ` set (due_entries now limit (ow_db w))"
  then obtain q where q: "q \<in> set (od_rows (ow_db w))" "ob_status q = OPending" "ob_id r = ob_id q"
    using due_pending by (metis imageE)
  with same_id [of "od_rows (ow_db w)" r q] assms show False by (simp add: stuck_def queue_world_ok_def queue_ok_def)
qed

lemma stuck_step: "outbox_step w w' \<Longrightarrow> stuck r w \<Longrightarrow> stuck r w' \<and> count_list (ow_fired w') (ob_id r) = count_list (ow_fired w) (ob_id r)"
proof (induction rule: outbox_step.induct)
  case (os_select w now limit)
  have "queue_world_ok (w\<lparr>ow_selected := ow_selected w @ due_entries now limit (ow_db w)\<rparr>)"
    using queue_step_ok [OF outbox_step.os_select] os_select by (simp add: stuck_def)
  with os_select stuck_not_due [OF os_select] show ?case by (auto simp: stuck_def)
next
  case (os_finish row w env res sm sm' db)
  have "queue_world_ok \<lparr>ow_db = db, ow_selected = remove1 row (ow_selected w), ow_fired = ob_id row # ow_fired w\<rparr>"
    using queue_step_ok [OF outbox_step.os_finish [OF os_finish(1,2)]] os_finish(3) by (simp add: stuck_def)
  moreover have "ob_id row \<noteq> ob_id r" using os_finish(1,3) unfolding stuck_def by (metis imageI)
  moreover have "ob_id r \<notin> ob_id ` set (remove1 row (ow_selected w))"
    using os_finish(3) set_remove1_subset [of row "ow_selected w"] by (auto simp: stuck_def)
  ultimately show ?case using os_finish(3) kept_by_outcome [OF os_finish(2), of r] by (simp add: stuck_def)
next
  case (os_enqueue env type payload key delay w q db)
  have "queue_world_ok (w\<lparr>ow_db := db\<rparr>)"
    using queue_step_ok [OF outbox_step.os_enqueue [OF os_enqueue(1)]] os_enqueue(2) by (simp add: stuck_def)
  with os_enqueue show ?case by (auto simp: stuck_def enqueue_def Let_def split: if_splits)
next
  case (os_retry env i w b db)
  have "queue_world_ok (w\<lparr>ow_db := db\<rparr>)"
    using queue_step_ok [OF outbox_step.os_retry [OF os_retry(1)]] os_retry(2) by (simp add: stuck_def)
  with os_retry show ?case by (auto simp: stuck_def retryDlq_def split: option.splits if_splits)
next
  case (os_prune env days w n db)
  have "queue_world_ok (w\<lparr>ow_db := db\<rparr>)"
    using queue_step_ok [OF outbox_step.os_prune [OF os_prune(1)]] os_prune(2) by (simp add: stuck_def)
  with os_prune show ?case by (auto simp: stuck_def pruneDone_def pruneDlq_def Let_def)
qed

lemma stuck_steps: "outbox_step\<^sup>*\<^sup>* w w' \<Longrightarrow> stuck r w \<Longrightarrow> stuck r w' \<and> count_list (ow_fired w') (ob_id r) = count_list (ow_fired w) (ob_id r)"
  by (induction rule: rtranclp_induct) (auto dest: stuck_step)



text \<open>
  Selecting does not claim: two flushes that overlap both select a due row, and both execute it.
\<close>

lemma overlapping_flushes_execute_twice:
  assumes "r \<in> set (due_entries now limit (ow_db w))" "ow_selected w = []"
  shows "\<exists>w'. outbox_step\<^sup>*\<^sup>* w w' \<and> count_list (ow_fired w') (ob_id r) = count_list (ow_fired w) (ob_id r) + 2"
proof -
  let ?due = "due_entries now limit (ow_db w)"
  define w2 where "w2 = w\<lparr>ow_selected := ?due @ ?due\<rparr>"
  have "outbox_step\<^sup>*\<^sup>* w w2"
    using outbox_step.os_select [of w now limit] outbox_step.os_select [of "w\<lparr>ow_selected := ?due\<rparr>" now limit] assms(2)
    by (simp add: w2_def)
  moreover define w3 where "w3 = \<lparr>ow_db = markDone (ex_ox_env now []) (ob_id r) (ow_db w),
     ow_selected = remove1 r (?due @ ?due), ow_fired = ob_id r # ow_fired w\<rparr>"
  have "outbox_step w2 w3"
    using os_finish [of r w2 "ex_ox_env now []" "Inr ()"] assms(1) by (simp add: flush_outcome_def w2_def w3_def)
  moreover define w4 where "w4 = \<lparr>ow_db = markDone (ex_ox_env now []) (ob_id r) (ow_db w3),
     ow_selected = remove1 r (ow_selected w3), ow_fired = ob_id r # ow_fired w3\<rparr>"
  have "outbox_step w3 w4"
    using os_finish [of r w3 "ex_ox_env now []" "Inr ()"] assms(1) by (simp add: flush_outcome_def w3_def w4_def remove1_append)
  ultimately have "outbox_step\<^sup>*\<^sup>* w w4" by simp
  then show ?thesis by (intro exI [of _ w4]) (simp add: w4_def w3_def)
qed

end
