(* ===== verification/Workflow.thy ===== *)
theory Workflow
  imports Outbox EvaluatorTotal
begin

text \<open>
  \<open>apps/api/src/plugins/workflow\<close>: the declarative state machines (\<open>types.ts\<close>), their tables
  (\<open>service.ts\<close>) and the engine (\<open>engine.ts\<close>) with the evaluator of guards, the hooks and the
  outbox it calls. The entity pipeline (\<open>CollectionService\<close>) is a parameter: reading a document,
  checking that the caller's row filter admits it, updating it. \<open>transition\<close> awaits between
  reading the state and committing the new one, so it is split there: \<open>transition_begin\<close> runs up
  to the commit, \<open>transition_commit\<close> commits and does the rest.
\<close>

section \<open>types.ts\<close>

record wf_transition =
  wt_id :: string
  wt_from :: string
  wt_to :: string
  wt_guard :: "string option"
  wt_roles :: "string list option"
  wt_triggers :: "string list option"

text \<open>A missing text or list of the JSON is the empty one: the code treats the two alike.\<close>

record wf_definition =
  wf_name :: string
  wf_collection :: string
  wf_initial :: string
  wf_states :: "string list"
  wf_transitions :: "wf_transition list"
  wf_doc_status_map :: "jsobj option"
  wf_state_field :: "string option"
  wf_enabled :: "bool option"

record workflow_row =
  wr_id :: string
  wr_name :: string
  wr_collection :: string
  wr_definition_json :: string
  wr_enabled :: bool
  wr_version :: int
  wr_created_at :: int
  wr_updated_at :: int

record state_row =
  sr_collection :: string
  sr_document :: string
  sr_state :: string
  sr_updated_at :: int

record history_row =
  hi_workflow :: string
  hi_collection :: string
  hi_document :: string
  hi_from :: string
  hi_to :: string
  hi_by_user :: "string option"
  hi_by_email :: "string option"
  hi_comment :: "string option"
  hi_created_at :: int

record wf_db =
  wd_workflows :: "workflow_row list"
  wd_states :: "state_row list"
  wd_history :: "history_row list"

text \<open>The session of a caller (\<open>AuthContext\<close>).\<close>

record auth_context =
  au_user_id :: string
  au_role_id :: string
  au_role_name :: string
  au_email :: string
  au_is_admin :: bool
  au_employee_id :: "string option"
  au_tg_id :: "string option"

section \<open>service.ts\<close>

text \<open>
  \<open>to_json\<close> and \<open>of_json\<close> are \<open>JSON.stringify\<close> and \<open>JSON.parse\<close> on definitions. A text that does
  not parse reads as an empty machine.
\<close>

record workflow =
  wk_id :: string
  wk_version :: int
  wk_enabled :: bool
  wk_definition :: wf_definition

definition empty_machine :: "workflow_row \<Rightarrow> wf_definition" where
  "empty_machine r = \<lparr>wf_name = wr_name r, wf_collection = wr_collection r, wf_initial = [], wf_states = [],
     wf_transitions = [], wf_doc_status_map = None, wf_state_field = None, wf_enabled = None\<rparr>"

definition decorate :: "(string \<Rightarrow> wf_definition option) \<Rightarrow> workflow_row \<Rightarrow> workflow" where
  "decorate of_json r = \<lparr>wk_id = wr_id r, wk_version = wr_version r, wk_enabled = wr_enabled r,
     wk_definition = (case of_json (wr_definition_json r) of None \<Rightarrow> empty_machine r | Some d \<Rightarrow> d)\<rparr>"

definition workflow_list :: "(string \<Rightarrow> wf_definition option) \<Rightarrow> string option \<Rightarrow> wf_db \<Rightarrow> workflow list" where
  "workflow_list of_json slug db = map (decorate of_json) (rev (sort_key wr_created_at
     (filter (\<lambda>r. case slug of None \<Rightarrow> True | Some c \<Rightarrow> c = [] \<or> wr_collection r = c) (wd_workflows db))))"

definition workflow_get :: "(string \<Rightarrow> wf_definition option) \<Rightarrow> string \<Rightarrow> wf_db \<Rightarrow> workflow option" where
  "workflow_get of_json i db = map_option (decorate of_json) (find (\<lambda>r. wr_id r = i) (wd_workflows db))"

definition getByCollection :: "(string \<Rightarrow> wf_definition option) \<Rightarrow> string \<Rightarrow> wf_db \<Rightarrow> workflow option" where
  "getByCollection of_json c db = map_option (decorate of_json) (find (\<lambda>r. wr_collection r = c) (wd_workflows db))"

text \<open>The upsert conflicts on the collection; an id that another collection's row has is an error.\<close>

definition upsert :: "(wf_definition \<Rightarrow> string) \<Rightarrow> int \<Rightarrow> string \<Rightarrow> wf_definition \<Rightarrow> string option \<Rightarrow> wf_db
    \<Rightarrow> ((string \<times> int) \<times> wf_db) res" where
  "upsert to_json now uuid d i db =
     (let key = (case i of None \<Rightarrow> uuid | Some x \<Rightarrow> x); on = (wf_enabled d \<noteq> Some False)
      in case find (\<lambda>r. wr_collection r = wf_collection d) (wd_workflows db) of
           Some old \<Rightarrow>
             (let r = old\<lparr>wr_name := wf_name d, wr_definition_json := to_json d, wr_enabled := on,
                          wr_version := wr_version old + 1, wr_updated_at := now\<rparr>
              in Inr ((wr_id r, wr_version r),
                      db\<lparr>wd_workflows := map (\<lambda>q. if wr_collection q = wf_collection d then r else q) (wd_workflows db)\<rparr>))
         | None \<Rightarrow> if key \<in> wr_id ` set (wd_workflows db) then throw ''UNIQUE constraint failed: _workflows.id''
             else Inr ((key, 1), db\<lparr>wd_workflows := wd_workflows db @ [\<lparr>wr_id = key, wr_name = wf_name d,
                    wr_collection = wf_collection d, wr_definition_json = to_json d, wr_enabled = on, wr_version = 1,
                    wr_created_at = now, wr_updated_at = now\<rparr>]\<rparr>))"

definition updateEnabled :: "int \<Rightarrow> string \<Rightarrow> bool \<Rightarrow> wf_db \<Rightarrow> wf_db" where
  "updateEnabled now i b db = db\<lparr>wd_workflows := map (\<lambda>r. if wr_id r = i
     then r\<lparr>wr_enabled := b, wr_updated_at := now\<rparr> else r) (wd_workflows db)\<rparr>"

definition workflow_remove :: "string \<Rightarrow> wf_db \<Rightarrow> wf_db" where
  "workflow_remove i db =
     (let kept = (case find (\<lambda>r. wr_id r = i) (wd_workflows db) of
            None \<Rightarrow> wd_states db
          | Some r \<Rightarrow> filter (\<lambda>s. sr_collection s \<noteq> wr_collection r) (wd_states db))
      in \<lparr>wd_workflows = filter (\<lambda>r. wr_id r \<noteq> i) (wd_workflows db), wd_states = kept,
          wd_history = filter (\<lambda>h. hi_workflow h \<noteq> i) (wd_history db)\<rparr>)"

definition is_state_of :: "string \<Rightarrow> string \<Rightarrow> state_row \<Rightarrow> bool" where
  "is_state_of c d s \<longleftrightarrow> sr_collection s = c \<and> sr_document s = d"

definition getState :: "string \<Rightarrow> string \<Rightarrow> wf_db \<Rightarrow> string option" where
  "getState c d db = map_option sr_state (find (is_state_of c d) (wd_states db))"

definition transitionState :: "int \<Rightarrow> string \<Rightarrow> string \<Rightarrow> string \<Rightarrow> string \<Rightarrow> wf_db \<Rightarrow> bool \<times> wf_db" where
  "transitionState now c d expectedFrom to db =
     (case getState c d db of
        None \<Rightarrow> (True, db\<lparr>wd_states := wd_states db @ [\<lparr>sr_collection = c, sr_document = d, sr_state = to, sr_updated_at = now\<rparr>]\<rparr>)
      | Some st \<Rightarrow> if st = expectedFrom
          then (True, db\<lparr>wd_states := map (\<lambda>s. if is_state_of c d s then s\<lparr>sr_state := to, sr_updated_at := now\<rparr> else s) (wd_states db)\<rparr>)
          else (False, db))"

definition logHistory :: "history_row \<Rightarrow> wf_db \<Rightarrow> wf_db" where
  "logHistory h db = db\<lparr>wd_history := wd_history db @ [h]\<rparr>"

definition getHistory :: "string \<Rightarrow> string \<Rightarrow> wf_db \<Rightarrow> history_row list" where
  "getHistory c d db = sort_key hi_created_at (filter (\<lambda>h. hi_collection h = c \<and> hi_document h = d) (wd_history db))"

section \<open>Validation of a definition\<close>

text \<open>The evaluator always returns (\<open>evaluator_always_returns\<close>), so the last case does not arise.\<close>

definition run_guard :: "eval_env \<Rightarrow> string \<Rightarrow> jsobj \<Rightarrow> bool res" where
  "run_guard ev g scope = (case evaluateBoolean ev (Str g) scope of Some r \<Rightarrow> r | None \<Rightarrow> throw [])"

definition given :: "string option \<Rightarrow> bool" where
  "given x \<longleftrightarrow> x \<noteq> None \<and> x \<noteq> Some []"

definition opt_str :: "string option \<Rightarrow> string" where
  "opt_str x = (case x of None \<Rightarrow> [] | Some s \<Rightarrow> s)"

definition transition_errors :: "eval_env \<Rightarrow> string list \<Rightarrow> string list \<Rightarrow> wf_transition \<Rightarrow> string list" where
  "transition_errors ev states seen t =
     (let name = ''transition \"'' @ wt_id t @ ''\" '' in
      (if wt_id t = [] then [''every transition needs an id'']
       else if wt_id t \<in> set seen then [''duplicate transition id \"'' @ wt_id t @ ''\"''] else [])
      @ (if wt_from t = [] \<or> wt_to t = [] then [name @ ''needs from and to''] else [])
      @ (if wt_from t \<noteq> [] \<and> wt_from t \<notin> set states then [name @ ''from state \"'' @ wt_from t @ ''\" is not in states''] else [])
      @ (if wt_to t \<noteq> [] \<and> wt_to t \<notin> set states then [name @ ''to state \"'' @ wt_to t @ ''\" is not in states''] else [])
      @ (if given (wt_guard t) then
           (case validateExpressionComplexity (Str (opt_str (wt_guard t))) of None \<Rightarrow> [] | Some e \<Rightarrow> [name @ ''guard '' @ e])
           @ (case run_guard ev (opt_str (wt_guard t)) [(''doc'', Obj []), (''user'', Obj [])] of
                Inr _ \<Rightarrow> [] | Inl e \<Rightarrow> [name @ ''guard is not a valid expression: '' @ err_msg e])
         else [])
      @ (case wt_triggers t of None \<Rightarrow> []
         | Some ps \<Rightarrow> map (\<lambda>p. name @ ''trigger_plugins must be plugin ids'') (filter (\<lambda>p. p = []) ps)))"

fun transitions_errors :: "eval_env \<Rightarrow> string list \<Rightarrow> string list \<Rightarrow> wf_transition list \<Rightarrow> string list" where
  "transitions_errors ev states seen [] = []"
| "transitions_errors ev states seen (t # ts) = transition_errors ev states seen t
     @ transitions_errors ev states (if wt_id t = [] then seen else oset_add (wt_id t) seen) ts"

definition validateDefinition :: "eval_env \<Rightarrow> wf_definition \<Rightarrow> string list" where
  "validateDefinition ev d =
     (if trim (wf_name d) = [] then [''name is required''] else [])
     @ (if trim (wf_collection d) = [] then [''collection is required''] else [])
     @ (if wf_initial d = [] then [''initial state is required''] else [])
     @ (if wf_states d = [] then [''states must be a non-empty array''] else [])
     @ (if wf_transitions d = [] then [''transitions must be a non-empty array''] else [])
     @ (if wf_initial d \<noteq> [] \<and> wf_initial d \<notin> set (wf_states d) then [''initial state \"'' @ wf_initial d @ ''\" is not in states''] else [])
     @ transitions_errors ev (wf_states d) [] (wf_transitions d)"

section \<open>The engine\<close>

definition findTransition :: "wf_definition \<Rightarrow> string \<Rightarrow> string \<Rightarrow> wf_transition option" where
  "findTransition d a b = find (\<lambda>t. wt_from t = a \<and> wt_to t = b) (wf_transitions d)"

definition allowedTargets :: "wf_definition \<Rightarrow> string \<Rightarrow> string list" where
  "allowedTargets d a = map wt_to (filter (\<lambda>t. wt_from t = a) (wf_transitions d))"

text \<open>
  What a transition calls besides the workflow tables: the evaluator's environment, the entity
  pipeline, the hooks, and the environment of the outbox (its clock is the clock).
\<close>

record wf_env =
  we_eval :: eval_env
  we_get_item :: "string \<Rightarrow> string \<Rightarrow> jsobj res"
  we_row_access :: "auth_context option \<Rightarrow> string \<Rightarrow> string \<Rightarrow> unit res"
  we_update_item :: "string \<Rightarrow> string \<Rightarrow> jsobj \<Rightarrow> unit res"
  we_hooks :: "hook list"
  we_outbox :: outbox_env
  we_uuids :: "string list"

definition forbidden_error :: "string \<Rightarrow> 'a res" where
  "forbidden_error msg = Inl (JsError ''ForbiddenError'' msg)"

definition conflict_error :: "string \<Rightarrow> 'a res" where
  "conflict_error msg = Inl (JsError ''ConflictError'' msg)"

definition opt_val :: "('a \<Rightarrow> jsval) \<Rightarrow> 'a option \<Rightarrow> jsval" where
  "opt_val f x = (case x of None \<Rightarrow> Null | Some a \<Rightarrow> f a)"

definition userScope :: "auth_context option \<Rightarrow> jsobj" where
  "userScope a = [(''user_id'', opt_val (\<lambda>x. Str (au_user_id x)) a), (''email'', opt_val (\<lambda>x. Str (au_email x)) a),
     (''role_name'', opt_val (\<lambda>x. Str (au_role_name x)) a),
     (''is_admin'', Bool (case a of None \<Rightarrow> False | Some x \<Rightarrow> au_is_admin x))]"

definition guard_scope :: "jsobj \<Rightarrow> auth_context option \<Rightarrow> string \<Rightarrow> string \<Rightarrow> jsobj" where
  "guard_scope doc a from_state to_state = [(''doc'', Obj doc), (''user'', Obj (userScope a)),
     (''from'', Str from_state), (''to'', Str to_state)]"

definition arrow :: "string \<Rightarrow> string \<Rightarrow> string" where
  "arrow a b = ''\"'' @ a @ ''\" -> \"'' @ b @ ''\"''"

definition check_guard :: "wf_env \<Rightarrow> auth_context option \<Rightarrow> wf_transition \<Rightarrow> jsobj \<Rightarrow> string \<Rightarrow> string \<Rightarrow> unit res" where
  "check_guard env a t doc cur to_state =
     (if \<not> given (wt_guard t) then Inr ()
      else case run_guard (we_eval env) (opt_str (wt_guard t)) (guard_scope doc a cur to_state) of
        Inl e \<Rightarrow> validation_error (''Guard on '' @ arrow cur to_state @ '' failed to evaluate: '' @ err_msg e)
      | Inr b \<Rightarrow> if b then Inr () else validation_error (''Guard on '' @ arrow cur to_state @ '' not satisfied''))"

definition check_roles :: "auth_context option \<Rightarrow> wf_transition \<Rightarrow> string \<Rightarrow> string \<Rightarrow> unit res" where
  "check_roles a t cur to_state = (case wt_roles t of
     None \<Rightarrow> Inr ()
   | Some roles \<Rightarrow>
       if roles = [] \<or> (case a of None \<Rightarrow> False | Some x \<Rightarrow> au_is_admin x \<or> au_role_name x \<in> set roles) then Inr ()
       else forbidden_error (''Transition '' @ arrow cur to_state @ '' requires role: '' @ join_with '' / '' roles @
              '' (your role: '' @ (case a of None \<Rightarrow> ''none'' | Some x \<Rightarrow> au_role_name x) @ '')''))"

definition transition_doc :: "jsobj \<Rightarrow> string \<Rightarrow> string \<Rightarrow> string \<Rightarrow> string \<Rightarrow> jsobj" where
  "transition_doc doc cur to_state key v =
     amap_set ''_transition'' (Obj [(''from'', Str cur), (''to'', Str to_state), (key, Str v)]) doc"

text \<open>What a transition knows when it commits.\<close>

record pending_transition =
  pt_workflow :: workflow
  pt_collection :: string
  pt_document :: string
  pt_from :: string
  pt_to :: string
  pt_transition :: wf_transition
  pt_doc :: jsobj
  pt_auth :: "auth_context option"
  pt_comment :: "string option"

definition current_state :: "workflow \<Rightarrow> string \<Rightarrow> string \<Rightarrow> wf_db \<Rightarrow> string" where
  "current_state w c d db = (case getState c d db of None \<Rightarrow> wf_initial (wk_definition w) | Some s \<Rightarrow> s)"

definition transition_begin :: "wf_env \<Rightarrow> workflow \<Rightarrow> string \<Rightarrow> string \<Rightarrow> string \<Rightarrow> auth_context option \<Rightarrow> string option
    \<Rightarrow> wf_db \<Rightarrow> pending_transition res" where
  "transition_begin env w c d to_state a comment db =
     (let def = wk_definition w; cur = current_state w c d db in
      if \<not> wk_enabled w \<or> wf_enabled def = Some False
      then validation_error (''Workflow \"'' @ wf_name def @ ''\" is disabled'')
      else if to_state \<notin> set (wf_states def)
      then validation_error (''\"'' @ to_state @ ''\" is not a state of workflow \"'' @ wf_name def @
             ''\" (states: '' @ join_with '', '' (wf_states def) @ '')'')
      else if cur = to_state then validation_error (''Document is already in state \"'' @ to_state @ ''\"'')
      else case findTransition def cur to_state of
        None \<Rightarrow> validation_error (''Cannot transition '' @ arrow cur to_state @ '' (allowed: '' @
                  (let ts = join_with '', '' (allowedTargets def cur) in if ts = [] then ''none'' else ts) @ '')'')
      | Some t \<Rightarrow>
          bindR (we_get_item env c d) (\<lambda>doc.
          bindR (we_row_access env a c d) (\<lambda>_.
          bindR (check_guard env a t doc cur to_state) (\<lambda>_.
          bindR (check_roles a t cur to_state) (\<lambda>_.
          bindR (hook_dispatch (we_hooks env) 0 c ''workflow_transition''
                   (transition_doc doc cur to_state ''workflow'' (wf_name def)) None) (\<lambda>(abort, scope).
            case abort of
              Some ab \<Rightarrow> validation_error (to_str (obj_get ab ''error''))
            | None \<Rightarrow> Inr \<lparr>pt_workflow = w, pt_collection = c, pt_document = d, pt_from = cur, pt_to = to_state,
                           pt_transition = t, pt_doc = doc, pt_auth = a, pt_comment = comment\<rparr>))))))"

section \<open>Commit and side effects\<close>

text \<open>The dedupe key of a trigger plugin, and its outbox payload.\<close>

definition trigger_key :: "string \<Rightarrow> string \<Rightarrow> string \<Rightarrow> string \<Rightarrow> string \<Rightarrow> string" where
  "trigger_key wid d from_state to_state p =
     ''wf:'' @ wid @ '':'' @ d @ '':'' @ from_state @ '':'' @ to_state @ '':'' @ p"

definition trigger_payload :: "pending_transition \<Rightarrow> string \<Rightarrow> jsobj" where
  "trigger_payload p plugin = [(''plugin_id'', Str plugin), (''input'', Obj [(''collection'', Str (pt_collection p)),
     (''event'', Str ''workflow_transition''),
     (''doc'', Obj (transition_doc (pt_doc p) (pt_from p) (pt_to p) ''workflow_id'' (wk_id (pt_workflow p))))])]"

text \<open>\<open>we_uuids\<close> are the ids \<open>crypto.randomUUID\<close> draws, one per plugin.\<close>

fun enqueueTriggerPlugins :: "outbox_env \<Rightarrow> string list \<Rightarrow> pending_transition \<Rightarrow> string list \<Rightarrow> outbox_db \<Rightarrow> string list \<times> outbox_db" where
  "enqueueTriggerPlugins ox uuids p [] db = ([], db)"
| "enqueueTriggerPlugins ox uuids p (plugin # ps) db =
     (let (r, db') = enqueue (ox\<lparr>ox_uuid := (case uuids of [] \<Rightarrow> ox_uuid ox | u # _ \<Rightarrow> u)\<rparr>) ''plugin'' (trigger_payload p plugin)
            (Some (trigger_key (wk_id (pt_workflow p)) (pt_document p) (pt_from p) (pt_to p) plugin)) None db;
          (ids, db'') = enqueueTriggerPlugins ox (tl uuids) p ps db'
      in (en_id r # ids, db''))"

record transition_result =
  tr_from :: string
  tr_to :: string
  tr_doc :: jsobj
  tr_synced :: jsval
  tr_warnings :: "string list"
  tr_side_effects :: "string list"

definition sync_doc_status :: "wf_env \<Rightarrow> pending_transition \<Rightarrow> jsval \<times> string list" where
  "sync_doc_status env p =
     (let mapped = (case wf_doc_status_map (wk_definition (pt_workflow p)) of None \<Rightarrow> Undef | Some m \<Rightarrow> obj_get m (pt_to p))
      in if \<not> truthy mapped then (Null, [])
         else (case we_update_item env (pt_collection p) (pt_document p) [(''doc_status'', mapped)] of
             Inr _ \<Rightarrow> (mapped, [])
           | Inl e \<Rightarrow> (Null, [''doc_status sync to \"'' @ to_str mapped @ ''\" failed: '' @ err_msg e])))"

definition sync_state_field :: "wf_env \<Rightarrow> pending_transition \<Rightarrow> string list" where
  "sync_state_field env p = (let f = wf_state_field (wk_definition (pt_workflow p)) in
     if \<not> given f then []
     else (case we_update_item env (pt_collection p) (pt_document p) [(opt_str f, Str (pt_to p))] of
        Inr _ \<Rightarrow> [] | Inl e \<Rightarrow> [''state_field \"'' @ opt_str f @ ''\" sync failed: '' @ err_msg e]))"

definition history_of :: "int \<Rightarrow> pending_transition \<Rightarrow> history_row" where
  "history_of now p = \<lparr>hi_workflow = wk_id (pt_workflow p), hi_collection = pt_collection p, hi_document = pt_document p,
     hi_from = pt_from p, hi_to = pt_to p, hi_by_user = map_option au_user_id (pt_auth p),
     hi_by_email = map_option au_email (pt_auth p), hi_comment = pt_comment p, hi_created_at = now\<rparr>"

text \<open>The statements after the optimistic commit: \<open>after_commit\<close> runs when it has succeeded.\<close>

definition after_commit :: "wf_env \<Rightarrow> pending_transition \<Rightarrow> wf_db \<Rightarrow> outbox_db \<Rightarrow> transition_result \<times> wf_db \<times> outbox_db" where
  "after_commit env p db ox =
     (let db' = logHistory (history_of (ox_now (we_outbox env)) p) db;
          (synced, warn) = sync_doc_status env p;
          warn' = warn @ sync_state_field env p;
          ran = runFireAndForget (we_hooks env) 0 (pt_collection p) ''workflow_transition_after''
                  (transition_doc (pt_doc p) (pt_from p) (pt_to p) ''workflow'' (wf_name (wk_definition (pt_workflow p)))) None;
          (ids, ox') = (case wt_triggers (pt_transition p) of None \<Rightarrow> ([], ox)
                        | Some ps \<Rightarrow> enqueueTriggerPlugins (we_outbox env) (we_uuids env) p ps ox)
      in (\<lparr>tr_from = pt_from p, tr_to = pt_to p, tr_doc = pt_doc p, tr_synced = synced, tr_warnings = warn',
           tr_side_effects = ids\<rparr>, db', ox'))"

definition transition_commit :: "wf_env \<Rightarrow> pending_transition \<Rightarrow> wf_db \<Rightarrow> outbox_db \<Rightarrow> (transition_result \<times> wf_db \<times> outbox_db) res" where
  "transition_commit env p db ox =
     (case transitionState (ox_now (we_outbox env)) (pt_collection p) (pt_document p) (pt_from p) (pt_to p) db of
        (True, db') \<Rightarrow> Inr (after_commit env p db' ox)
      | (False, _) \<Rightarrow> conflict_error (''Document already left state \"'' @ pt_from p @ ''\" (concurrent transition) - reload and retry''))"

definition transition :: "wf_env \<Rightarrow> workflow \<Rightarrow> string \<Rightarrow> string \<Rightarrow> string \<Rightarrow> auth_context option \<Rightarrow> string option
    \<Rightarrow> wf_db \<Rightarrow> outbox_db \<Rightarrow> (transition_result \<times> wf_db \<times> outbox_db) res" where
  "transition env w c d to_state a comment db ox =
     bindR (transition_begin env w c d to_state a comment db) (\<lambda>p. transition_commit env p db ox)"

section \<open>Requests in flight\<close>

text \<open>
  The documents of one workflow: transitions begin and commit in any order; the log entry of a
  commit is a statement of its own, so others may come between the two.
\<close>

record wf_world =
  ww_db :: wf_db
  ww_pending :: "pending_transition list"
  ww_committed :: "pending_transition list"

inductive wf_step :: "workflow \<Rightarrow> wf_world \<Rightarrow> wf_world \<Rightarrow> bool" for w :: workflow where
  ws_begin: "transition_begin env w (wf_collection (wk_definition w)) d to_state a comment (ww_db x) = Inr p \<Longrightarrow>
    wf_step w x (x\<lparr>ww_pending := p # ww_pending x\<rparr>)"
| ws_commit: "p \<in> set (ww_pending x) \<Longrightarrow>
    transitionState now (pt_collection p) (pt_document p) (pt_from p) (pt_to p) (ww_db x) = (True, db) \<Longrightarrow>
    wf_step w x \<lparr>ww_db = db, ww_pending = remove1 p (ww_pending x), ww_committed = p # ww_committed x\<rparr>"
| ws_conflict: "p \<in> set (ww_pending x) \<Longrightarrow>
    transitionState now (pt_collection p) (pt_document p) (pt_from p) (pt_to p) (ww_db x) = (False, db) \<Longrightarrow>
    wf_step w x (x\<lparr>ww_pending := remove1 p (ww_pending x)\<rparr>)"
| ws_log: "p \<in> set (ww_committed x) \<Longrightarrow>
    wf_step w x (x\<lparr>ww_db := logHistory (history_of now p) (ww_db x), ww_committed := remove1 p (ww_committed x)\<rparr>)"

inductive wf_reachable :: "workflow \<Rightarrow> wf_world \<Rightarrow> bool" for w :: workflow where
  ww_start: "wf_reachable w \<lparr>ww_db = \<lparr>wd_workflows = rows, wd_states = [], wd_history = []\<rparr>, ww_pending = [], ww_committed = []\<rparr>"
| ww_step: "wf_reachable w x \<Longrightarrow> wf_step w x y \<Longrightarrow> wf_reachable w y"

end
