(* ===== verification/WorkflowClaims.thy ===== *)
theory WorkflowClaims
  imports Workflow OutboxClaims "HOL-Library.Multiset"
begin

text \<open>
  Properties of the workflow engine: what a successful transition has checked and done, the audit
  trail however transitions interleave, the optimistic lock, and what the dedupe keys of the
  trigger plugins do to a machine with cycles.
\<close>

section \<open>The state table\<close>

lemma getState_after:
  assumes "transitionState now c d a b db = (True, db')"
  shows "getState c' d' db' = (if c' = c \<and> d' = d then Some b else getState c' d' db)"
proof (cases "getState c d db")
  case None
  then show ?thesis using assms by (auto simp: transitionState_def getState_def find_append is_state_of_def split: option.splits)
next
  case (Some st)
  then have db': "db' = db\<lparr>wd_states := map (\<lambda>s. if is_state_of c d s then s\<lparr>sr_state := b, sr_updated_at := now\<rparr> else s) (wd_states db)\<rparr>"
    using assms by (auto simp: transitionState_def split: if_splits)
  let ?g = "\<lambda>s. if is_state_of c d s then s\<lparr>sr_state := b, sr_updated_at := now\<rparr> else s"
  have "is_state_of c' d' (?g s) = is_state_of c' d' s" for s
    by (simp add: is_state_of_def)
  then have found: "find (is_state_of c' d') (wd_states db') = map_option ?g (find (is_state_of c' d') (wd_states db))"
    by (simp add: db' find_map_same)
  have sel: "is_state_of c' d' s" if "find (is_state_of c' d') (wd_states db) = Some s" for s
    using that by (simp add: find_Some_iff) metis
  show ?thesis
  proof (cases "find (is_state_of c' d') (wd_states db)")
    case None
    with Some show ?thesis by (auto simp: found getState_def)
  next
    case (Some s)
    with sel [OF Some] show ?thesis by (auto simp: found getState_def is_state_of_def)
  qed
qed

lemma getState_log [simp]: "getState c d (logHistory h db) = getState c d db"
  "current_state w c d (logHistory h db) = current_state w c d db"
  by (simp_all add: getState_def current_state_def logHistory_def)

lemma transition_history [simp]:
  "transitionState now c d a b db = (r, db') \<Longrightarrow> wd_history db' = wd_history db"
  by (auto simp: transitionState_def split: option.splits if_splits)

lemma commit_iff: "fst (transitionState now c d a b db) \<longleftrightarrow> getState c d db = None \<or> getState c d db = Some a"
  by (auto simp: transitionState_def split: option.splits)

section \<open>One transition\<close>

lemma begin_pending:
  assumes "transition_begin env w c d to_state a comment db = Inr p"
  shows "pt_workflow p = w" "pt_collection p = c" "pt_document p = d" "pt_to p = to_state" "pt_auth p = a"
    "pt_comment p = comment" "pt_from p = current_state w c d db" "pt_from p \<noteq> pt_to p"
    "findTransition (wk_definition w) (pt_from p) (pt_to p) = Some (pt_transition p)"
    "wk_enabled w" "to_state \<in> set (wf_states (wk_definition w))"
  using assms by (auto simp: transition_begin_def Let_def bindR_Inr_iff validation_error_def
      split: if_splits option.splits)

lemma begin_checked:
  assumes "transition_begin env w c d to_state a comment db = Inr p"
  shows "we_row_access env a c d = Inr ()"
    "check_guard env a (pt_transition p) (pt_doc p) (pt_from p) to_state = Inr ()"
    "check_roles a (pt_transition p) (pt_from p) to_state = Inr ()"
    "we_get_item env c d = Inr (pt_doc p)"
  using assms by (auto simp: transition_begin_def Let_def bindR_Inr_iff validation_error_def
      split: if_splits option.splits)

definition role_admitted :: "auth_context option \<Rightarrow> string list \<Rightarrow> bool" where
  "role_admitted a roles \<longleftrightarrow> roles = [] \<or> (\<exists>x. a = Some x \<and> (au_is_admin x \<or> au_role_name x \<in> set roles))"

lemma roles_ok: "check_roles a t x y = Inr () \<longleftrightarrow> role_admitted a (case wt_roles t of None \<Rightarrow> [] | Some rs \<Rightarrow> rs)"
  by (auto simp: check_roles_def role_admitted_def forbidden_error_def split: option.splits)

lemma guard_ok: "check_guard env a t doc x y = Inr () \<longleftrightarrow>
    \<not> given (wt_guard t) \<or> run_guard (we_eval env) (opt_str (wt_guard t)) (guard_scope doc a x y) = Inr True"
  by (auto simp: check_guard_def validation_error_def split: sum.splits)

lemma committed:
  assumes "transition_commit env p db ox = Inr (r, db', ox')"
  shows "getState (pt_collection p) (pt_document p) db' = Some (pt_to p)"
    "wd_history db' = wd_history db @ [history_of (ox_now (we_outbox env)) p]"
    "tr_from r = pt_from p" "tr_to r = pt_to p"
proof -
  let ?now = "ox_now (we_outbox env)"
  obtain db1 where c: "transitionState ?now (pt_collection p) (pt_document p) (pt_from p) (pt_to p) db = (True, db1)"
    and r: "after_commit env p db1 ox = (r, db', ox')"
    using assms by (auto simp: transition_commit_def conflict_error_def split: prod.splits bool.splits)
  from r have db': "db' = logHistory (history_of ?now p) db1" and "tr_from r = pt_from p" "tr_to r = pt_to p"
    by (auto simp: after_commit_def Let_def split: prod.splits)
  with getState_after [OF c] c
  show "getState (pt_collection p) (pt_document p) db' = Some (pt_to p)"
    "wd_history db' = wd_history db @ [history_of ?now p]" "tr_from r = pt_from p" "tr_to r = pt_to p"
    by (auto simp: logHistory_def getState_def)
qed

text \<open>
  C15. A transition succeeds only when the workflow is enabled, the transition from the document's
  current state is declared, the caller's row filter admits the document, the guard evaluates to
  true on the full row and the caller is an administrator or has a listed role (when roles are
  listed); then the document is in the target state and exactly one history row, from the old
  state to the new one and with the caller, has been appended.
\<close>

theorem transition_is_authorized_and_recorded:
  assumes "transition env w c d to_state a comment db ox = Inr (r, db', ox')"
  shows "wk_enabled w \<and> to_state \<in> set (wf_states (wk_definition w)) \<and> we_row_access env a c d = Inr () \<and>
    (\<exists>t doc. findTransition (wk_definition w) (current_state w c d db) to_state = Some t \<and> we_get_item env c d = Inr doc \<and>
       (given (wt_guard t) \<longrightarrow> run_guard (we_eval env) (opt_str (wt_guard t))
          (guard_scope doc a (current_state w c d db) to_state) = Inr True) \<and>
       role_admitted a (case wt_roles t of None \<Rightarrow> [] | Some rs \<Rightarrow> rs)) \<and>
    getState c d db' = Some to_state \<and>
    wd_history db' = wd_history db @ [\<lparr>hi_workflow = wk_id w, hi_collection = c, hi_document = d,
      hi_from = current_state w c d db, hi_to = to_state, hi_by_user = map_option au_user_id a,
      hi_by_email = map_option au_email a, hi_comment = comment, hi_created_at = ox_now (we_outbox env)\<rparr>]"
proof -
  obtain p where p: "transition_begin env w c d to_state a comment db = Inr p"
    and c: "transition_commit env p db ox = Inr (r, db', ox')"
    using assms by (auto simp: transition_def bindR_Inr_iff)
  note b = begin_pending [OF p] begin_checked [OF p]
  from b committed [OF c] show ?thesis
    by (simp add: history_of_def roles_ok guard_ok)
qed

section \<open>The audit trail\<close>

fun trail :: "string \<Rightarrow> (string \<times> string) list \<Rightarrow> string \<Rightarrow> bool" where
  "trail a [] b = (a = b)"
| "trail a (e # es) b = (fst e = a \<and> trail (snd e) es b)"

lemma trail_snoc: "trail a es b \<Longrightarrow> trail a (es @ [(b, c)]) c"
  by (induction es arbitrary: a) auto

definition doc_edges :: "string \<Rightarrow> string \<Rightarrow> wf_world \<Rightarrow> (string \<times> string) multiset" where
  "doc_edges c d x =
     image_mset (\<lambda>h. (hi_from h, hi_to h)) (filter_mset (\<lambda>h. hi_collection h = c \<and> hi_document h = d) (mset (wd_history (ww_db x))))
   + image_mset (\<lambda>p. (pt_from p, pt_to p)) (filter_mset (\<lambda>p. pt_collection p = c \<and> pt_document p = d) (mset (ww_committed x)))"

definition trail_ok :: "workflow \<Rightarrow> string \<Rightarrow> wf_world \<Rightarrow> bool" where
  "trail_ok w d x \<longleftrightarrow> (\<exists>es. mset es = doc_edges (wf_collection (wk_definition w)) d x \<and>
     trail (wf_initial (wk_definition w)) es (current_state w (wf_collection (wk_definition w)) d (ww_db x)) \<and>
     list_all (\<lambda>(a, b). findTransition (wk_definition w) a b \<noteq> None) es)"

definition pending_ok :: "workflow \<Rightarrow> wf_world \<Rightarrow> pending_transition \<Rightarrow> bool" where
  "pending_ok w x p \<longleftrightarrow> pt_collection p = wf_collection (wk_definition w) \<and>
     findTransition (wk_definition w) (pt_from p) (pt_to p) \<noteq> None \<and> pt_to p \<in> set (wf_states (wk_definition w)) \<and>
     (getState (pt_collection p) (pt_document p) (ww_db x) = None \<longrightarrow> pt_from p = wf_initial (wk_definition w))"

definition wf_inv :: "workflow \<Rightarrow> wf_world \<Rightarrow> bool" where
  "wf_inv w x \<longleftrightarrow> list_all (pending_ok w x) (ww_pending x) \<and> (\<forall>d. trail_ok w d x) \<and>
     (\<forall>d s. getState (wf_collection (wk_definition w)) d (ww_db x) = Some s \<longrightarrow> s \<in> set (wf_states (wk_definition w)))"

lemma inv_begin:
  assumes "transition_begin env w (wf_collection (wk_definition w)) d to_state a comment (ww_db x) = Inr p" "wf_inv w x"
  shows "wf_inv w (x\<lparr>ww_pending := p # ww_pending x\<rparr>)"
  using assms(2) begin_pending [OF assms(1)]
  by (auto simp: wf_inv_def pending_ok_def trail_ok_def doc_edges_def current_state_def list_all_iff)

lemma edges_commit:
  assumes "wd_history db = wd_history (ww_db x)"
  shows "doc_edges c d \<lparr>ww_db = db, ww_pending = ps, ww_committed = p # ww_committed x\<rparr> =
    doc_edges c d x + (if pt_collection p = c \<and> pt_document p = d then {#(pt_from p, pt_to p)#} else {#})"
  using assms by (simp add: doc_edges_def)

lemma inv_commit:
  assumes "p \<in> set (ww_pending x)"
    "transitionState now (pt_collection p) (pt_document p) (pt_from p) (pt_to p) (ww_db x) = (True, db)" "wf_inv w x"
  shows "wf_inv w \<lparr>ww_db = db, ww_pending = remove1 p (ww_pending x), ww_committed = p # ww_committed x\<rparr>"
proof -
  let ?c = "wf_collection (wk_definition w)"
  let ?y = "\<lparr>ww_db = db, ww_pending = remove1 p (ww_pending x), ww_committed = p # ww_committed x\<rparr>"
  from assms(1,3) have p: "pending_ok w x p" by (simp add: wf_inv_def list_all_iff)
  then have c: "pt_collection p = ?c" by (simp add: pending_ok_def)
  note st = getState_after [OF assms(2)]
  from commit_iff [of now "pt_collection p" "pt_document p" "pt_from p" "pt_to p" "ww_db x"] assms(2)
  have cur: "current_state w ?c (pt_document p) (ww_db x) = pt_from p"
    using p by (auto simp: current_state_def pending_ok_def)
  have "trail_ok w d ?y" for d
  proof -
    from assms(3) have "trail_ok w d x" by (simp add: wf_inv_def)
    then obtain es where es: "mset es = doc_edges ?c d x"
      "trail (wf_initial (wk_definition w)) es (current_state w ?c d (ww_db x))"
      "list_all (\<lambda>(a, b). findTransition (wk_definition w) a b \<noteq> None) es"
      unfolding trail_ok_def by blast
    show ?thesis
    proof (cases "pt_document p = d")
      case True
      with es cur st c p show ?thesis unfolding trail_ok_def
        by (intro exI [of _ "es @ [(pt_from p, pt_to p)]"])
           (auto simp: edges_commit transition_history [OF assms(2)] current_state_def pending_ok_def intro: trail_snoc)
    next
      case False
      with es st c show ?thesis unfolding trail_ok_def
        by (intro exI [of _ es]) (auto simp: edges_commit transition_history [OF assms(2)] current_state_def)
    qed
  qed
  moreover have "pending_ok w ?y q" if "q \<in> set (ww_pending x)" for q
    using assms(3) that by (auto simp: wf_inv_def list_all_iff pending_ok_def st split: if_splits)
  then have "list_all (pending_ok w ?y) (ww_pending ?y)"
    using set_remove1_subset [of p "ww_pending x"] by (auto simp: list_all_iff)
  moreover have "s \<in> set (wf_states (wk_definition w))" if "getState ?c d (ww_db ?y) = Some s" for d s
    using that assms(3) p by (auto simp: wf_inv_def st pending_ok_def split: if_splits)
  ultimately show ?thesis by (simp add: wf_inv_def)
qed

lemma edges_log:
  assumes "p \<in> set (ww_committed x)"
  shows "doc_edges c d (x\<lparr>ww_db := logHistory (history_of now p) (ww_db x), ww_committed := remove1 p (ww_committed x)\<rparr>) = doc_edges c d x"
proof -
  obtain ps where "mset (ww_committed x) = add_mset p ps"
    using assms by (metis in_multiset_in_set multi_member_split)
  then show ?thesis by (simp add: doc_edges_def logHistory_def history_of_def)
qed

lemma inv_log:
  assumes "p \<in> set (ww_committed x)" "wf_inv w x"
  shows "wf_inv w (x\<lparr>ww_db := logHistory (history_of now p) (ww_db x), ww_committed := remove1 p (ww_committed x)\<rparr>)"
  using assms(2) by (simp add: wf_inv_def trail_ok_def edges_log [OF assms(1)] pending_ok_def list_all_iff)

lemma inv_step: "wf_step w x y \<Longrightarrow> wf_inv w x \<Longrightarrow> wf_inv w y"
proof (induction rule: wf_step.induct)
  case (ws_conflict p x now db)
  then show ?case by (auto simp: wf_inv_def pending_ok_def trail_ok_def doc_edges_def list_all_iff dest: notin_set_remove1)
qed (auto intro: inv_begin inv_commit inv_log)

lemma reachable_inv: "wf_reachable w x \<Longrightarrow> wf_inv w x"
proof (induction rule: wf_reachable.induct)
  case (ww_start rows)
  show ?case by (auto simp: wf_inv_def trail_ok_def doc_edges_def current_state_def getState_def)
qed (rule inv_step)

lemma valid_initial: "validateDefinition ev d = [] \<Longrightarrow> wf_initial d \<in> set (wf_states d)"
  by (simp add: validateDefinition_def split: if_splits)

text \<open>
  C4. For a definition that validation accepts, whatever transitions run concurrently, the state
  of every document is one of the declared states, and its history (together with the commits
  whose log entry is still to be written) can be ordered as a path of declared transitions from
  the initial state to its current state: no commit is lost, doubled or undeclared.
\<close>

theorem history_is_a_trail:
  assumes "validateDefinition ev (wk_definition w) = []" "wf_reachable w x"
  shows "current_state w (wf_collection (wk_definition w)) d (ww_db x) \<in> set (wf_states (wk_definition w)) \<and>
    (\<exists>es. mset es = doc_edges (wf_collection (wk_definition w)) d x \<and>
     trail (wf_initial (wk_definition w)) es (current_state w (wf_collection (wk_definition w)) d (ww_db x)) \<and>
     list_all (\<lambda>(a, b). findTransition (wk_definition w) a b \<noteq> None) es)"
  using reachable_inv [OF assms(2)] valid_initial [OF assms(1)]
  by (auto simp: wf_inv_def trail_ok_def current_state_def split: option.splits)

section \<open>Concurrent and repeated transitions\<close>

text \<open>
  C37. The optimistic lock: once one of several transitions that began in the same state of a
  document has committed, every other one fails with a conflict and changes nothing, the first
  transition of a document included (where no state row exists yet when they begin).
\<close>

theorem one_concurrent_transition_wins:
  assumes "transition_commit env p db ox = Inr (r, db', ox')"
    "pt_collection q = pt_collection p" "pt_document q = pt_document p" "pt_from q \<noteq> pt_to p"
  shows "\<exists>m. transition_commit env' q db' ox'' = Inl (JsError ''ConflictError'' m)"
  using committed(1) [OF assms(1)] assms(2-4)
  by (auto simp: transition_commit_def transitionState_def conflict_error_def)

lemma enqueue_keys:
  assumes "enqueue env type payload (Some k) None db = (r, db')" "ox_uuid env \<notin> ob_id ` set (od_rows db)"
  shows "k \<in> set (keys_of (od_rows db'))" "set (keys_of (od_rows db)) \<subseteq> set (keys_of (od_rows db'))"
    "ob_id ` set (od_rows db') \<subseteq> insert (ox_uuid env) (ob_id ` set (od_rows db))"
  using assms by (auto simp: enqueue_def Let_def clashes_def fresh_entry_def keys_of_set split: if_splits)

lemma enqueue_again:
  "k \<in> set (keys_of (od_rows db)) \<Longrightarrow> snd (enqueue env type payload (Some k) None db) = db"
  by (simp add: enqueue_def Let_def clashes_def keys_of_set)

abbreviation trigger_keys :: "pending_transition \<Rightarrow> string list \<Rightarrow> string list" where
  "trigger_keys p \<equiv> map (trigger_key (wk_id (pt_workflow p)) (pt_document p) (pt_from p) (pt_to p))"

lemma triggers_keys:
  assumes "enqueueTriggerPlugins ox us p ps db = (ids, db')" "length ps \<le> length us" "distinct us"
    "set us \<inter> ob_id ` set (od_rows db) = {}"
  shows "set (trigger_keys p ps) \<union> set (keys_of (od_rows db)) \<subseteq> set (keys_of (od_rows db'))"
  using assms
proof (induction ps arbitrary: us db ids)
  case (Cons plugin ps)
  then obtain u us' where us: "us = u # us'" by (cases us) auto
  obtain r db1 where e: "enqueue (ox\<lparr>ox_uuid := u\<rparr>) ''plugin'' (trigger_payload p plugin)
      (Some (trigger_key (wk_id (pt_workflow p)) (pt_document p) (pt_from p) (pt_to p) plugin)) None db = (r, db1)" by fastforce
  with Cons.prems(1) us obtain ids' where rest: "enqueueTriggerPlugins ox us' p ps db1 = (ids', db')"
    by (auto split: prod.splits)
  have fresh: "ox_uuid (ox\<lparr>ox_uuid := u\<rparr>) \<notin> ob_id ` set (od_rows db)" using Cons.prems(4) us by auto
  note k = enqueue_keys [OF e fresh]
  have "set us' \<inter> ob_id ` set (od_rows db1) = {}" using k(3) Cons.prems(3,4) us by auto
  with Cons.IH [OF rest] Cons.prems(2,3) us k show ?case by auto
qed simp

lemma triggers_again:
  "set (trigger_keys p ps) \<subseteq> set (keys_of (od_rows db)) \<Longrightarrow> snd (enqueueTriggerPlugins ox us p ps db) = db"
proof (induction ps arbitrary: us)
  case (Cons plugin ps)
  let ?e = "enqueue (ox\<lparr>ox_uuid := (case us of [] \<Rightarrow> ox_uuid ox | u # _ \<Rightarrow> u)\<rparr>) ''plugin'' (trigger_payload p plugin)
    (Some (trigger_key (wk_id (pt_workflow p)) (pt_document p) (pt_from p) (pt_to p) plugin)) None db"
  have "snd ?e = db" by (rule enqueue_again) (use Cons.prems in simp)
  with Cons show ?case by (simp split: prod.splits) (metis snd_conv)
qed simp

lemma commit_outbox:
  assumes "transition_commit env p db ox = Inr (r, db', ox')"
  shows "ox' = (case wt_triggers (pt_transition p) of None \<Rightarrow> ox
     | Some ps \<Rightarrow> snd (enqueueTriggerPlugins (we_outbox env) (we_uuids env) p ps ox))"
  using assms by (auto simp: transition_commit_def after_commit_def conflict_error_def Let_def
      split: prod.splits bool.splits option.splits)

text \<open>
  The trigger plugins of a transition are enqueued only the first time a document takes it: when
  the document comes back to the source state and takes the same transition again, the commit
  succeeds and is logged but enqueues nothing, as long as the outbox keeps the rows of the first
  time. The dedupe key is made of workflow, document, states and plugin only, so it does not tell
  the second passage of a cyclic workflow from a retry of the first.
\<close>

theorem second_passage_enqueues_nothing:
  assumes "transition_commit env p db ox = Inr (r, db1, ox1)" "transition_commit env' q db2 ox2 = Inr (r', db3, ox3)"
    "wk_id (pt_workflow q) = wk_id (pt_workflow p)" "pt_document q = pt_document p" "pt_from q = pt_from p" "pt_to q = pt_to p"
    "wt_triggers (pt_transition q) = wt_triggers (pt_transition p)" "wt_triggers (pt_transition p) = Some ps"
    "length ps \<le> length (we_uuids env)" "distinct (we_uuids env)" "set (we_uuids env) \<inter> ob_id ` set (od_rows ox) = {}"
    "set (keys_of (od_rows ox1)) \<subseteq> set (keys_of (od_rows ox2))"
  shows "ox3 = ox2"
proof -
  have "set (trigger_keys p ps) \<subseteq> set (keys_of (od_rows ox1))"
    using triggers_keys [OF _ assms(9-11), of "we_outbox env" p] commit_outbox [OF assms(1)] assms(8)
    by (cases "enqueueTriggerPlugins (we_outbox env) (we_uuids env) p ps ox") auto
  then have "set (trigger_keys q ps) \<subseteq> set (keys_of (od_rows ox2))" using assms(3-6,12) by auto
  from triggers_again [OF this] commit_outbox [OF assms(2)] assms(7,8) show ?thesis by simp
qed

section \<open>Examples\<close>

definition ex_def :: wf_definition where
  "ex_def = \<lparr>wf_name = ''Approval'', wf_collection = ''inv'', wf_initial = ''A'', wf_states = [''A'', ''B''],
     wf_transitions = [\<lparr>wt_id = ''go'', wt_from = ''A'', wt_to = ''B'', wt_guard = Some ''doc.ok'', wt_roles = Some [''clerk''], wt_triggers = Some [''mail'']\<rparr>,
       \<lparr>wt_id = ''back'', wt_from = ''B'', wt_to = ''A'', wt_guard = None, wt_roles = None, wt_triggers = None\<rparr>],
     wf_doc_status_map = None, wf_state_field = None, wf_enabled = None\<rparr>"

definition ex_wf :: workflow where
  "ex_wf = \<lparr>wk_id = ''w'', wk_version = 1, wk_enabled = True, wk_definition = ex_def\<rparr>"

definition ex_clerk :: auth_context where
  "ex_clerk = \<lparr>au_user_id = ''u1'', au_role_id = ''r1'', au_role_name = ''clerk'', au_email = ''c@x.io'', au_is_admin = False,
     au_employee_id = None, au_tg_id = None\<rparr>"

definition ex_wenv :: "string \<Rightarrow> wf_env" where
  "ex_wenv u = \<lparr>we_eval = \<lparr>ev_registry = [], ev_math = (\<lambda>n xs. NaN)\<rparr>,
     we_get_item = (\<lambda>c d. Inr [(''id'', Str d), (''ok'', Bool True)]), we_row_access = (\<lambda>a c d. Inr ()),
     we_update_item = (\<lambda>c d m. Inr ()), we_hooks = [], we_outbox = ex_ox_env 1000 u, we_uuids = [u]\<rparr>"

definition ex_empty :: wf_db where
  "ex_empty = \<lparr>wd_workflows = [], wd_states = [], wd_history = []\<rparr>"

lemma ex_guard: "run_guard \<lparr>ev_registry = [], ev_math = (\<lambda>n xs. NaN)\<rparr> ''doc.ok'' (guard_scope [(''id'', Str ''d1''), (''ok'', Bool True)] (Some ex_clerk) ''A'' ''B'') = Inr True"
  by code_simp

lemma ex_valid: "validateDefinition \<lparr>ev_registry = [], ev_math = (\<lambda>n xs. NaN)\<rparr> ex_def = []"
  by code_simp

definition ex_p :: pending_transition where
  "ex_p = \<lparr>pt_workflow = ex_wf, pt_collection = ''inv'', pt_document = ''d1'', pt_from = ''A'', pt_to = ''B'',
     pt_transition = wf_transitions ex_def ! 0, pt_doc = [(''id'', Str ''d1''), (''ok'', Bool True)],
     pt_auth = Some ex_clerk, pt_comment = None\<rparr>"

lemma ex_clerk_simps [simp]: "au_role_name ex_clerk = ''clerk''" "au_is_admin ex_clerk = False"
  by (simp_all add: ex_clerk_def)

lemmas ex_simps = ex_wenv_def ex_wf_def ex_def_def ex_empty_def ex_p_def

lemma ex_wf_simps [simp]: "wk_definition ex_wf = ex_def" "wk_enabled ex_wf" "wf_collection ex_def = ''inv''"
    "wf_initial ex_def = ''A''" "wf_enabled ex_def = None" "wf_states ex_def = [''A'', ''B'']"
  by (simp_all add: ex_wf_def ex_def_def)

lemma ex_wenv_simps [simp]: "we_eval (ex_wenv u) = \<lparr>ev_registry = [], ev_math = (\<lambda>n xs. NaN)\<rparr>" "we_hooks (ex_wenv u) = []"
    "we_get_item (ex_wenv u) c d = Inr [(''id'', Str d), (''ok'', Bool True)]" "we_row_access (ex_wenv u) a c d = Inr ()"
  by (simp_all add: ex_wenv_def)

lemma ex_begun:
  assumes "getState ''inv'' ''d1'' db \<in> {None, Some ''A''}"
  shows "transition_begin (ex_wenv u) ex_wf ''inv'' ''d1'' ''B'' (Some ex_clerk) None db = Inr ex_p"
proof -
  let ?t = "wf_transitions ex_def ! 0" and ?doc = "[(''id'', Str ''d1''), (''ok'', Bool True)]"
  have "current_state ex_wf ''inv'' ''d1'' db = ''A''" using assms by (auto simp: current_state_def)
  moreover have "findTransition ex_def ''A'' ''B'' = Some ?t" by (simp add: findTransition_def ex_def_def)
  moreover have "check_guard (ex_wenv u) (Some ex_clerk) ?t ?doc ''A'' ''B'' = Inr ()"
    using ex_guard by (simp add: guard_ok ex_def_def opt_str_def)
  moreover have "check_roles (Some ex_clerk) ?t ''A'' ''B'' = Inr ()"
    by (simp add: roles_ok role_admitted_def ex_def_def)
  moreover have "hook_dispatch [] 0 c e m None = Inr (None, None)" for c e m
    by (simp add: hook_dispatch_def dispatchTransform_def withDepthGuard_def MAX_HOOK_DEPTH_def getSorted_def
        matching_hooks_def markWrites_def)
  ultimately show ?thesis by (simp add: transition_begin_def Let_def ex_p_def)
qed

definition ex_after :: "string \<Rightarrow> state_row list \<Rightarrow> wf_db" where
  "ex_after st rows = \<lparr>wd_workflows = [], wd_states = rows @ [\<lparr>sr_collection = ''inv'', sr_document = ''d1'', sr_state = st, sr_updated_at = 1000\<rparr>],
     wd_history = [history_of 1000 ex_p]\<rparr>"

lemma ex_committed: "\<exists>r ox1. transition_commit (ex_wenv u) ex_p ex_empty ox = Inr (r, ex_after ''B'' [], ox1)"
  by (auto simp: transition_commit_def transitionState_def getState_def ex_simps after_commit_def Let_def logHistory_def
      ex_after_def history_of_def ex_ox_env_def split: prod.splits)

lemma ex_committed_again: "\<exists>r db ox1. transition_commit (ex_wenv u) ex_p (ex_after ''A'' []) ox = Inr (r, db, ox1)"
  by (auto simp: transition_commit_def transitionState_def getState_def ex_simps after_commit_def Let_def
      ex_after_def is_state_of_def split: prod.splits)

lemma transition_is_authorized_and_recorded_witness:
  "\<exists>r db' ox'. transition (ex_wenv ''a'') ex_wf ''inv'' ''d1'' ''B'' (Some ex_clerk) None ex_empty \<lparr>od_rows = [], od_dlq = []\<rparr> = Inr (r, db', ox')
     \<and> getState ''inv'' ''d1'' db' = Some ''B'' \<and> length (wd_history db') = 1"
proof -
  obtain r ox1 where "transition (ex_wenv ''a'') ex_wf ''inv'' ''d1'' ''B'' (Some ex_clerk) None ex_empty \<lparr>od_rows = [], od_dlq = []\<rparr>
      = Inr (r, ex_after ''B'' [], ox1)"
    using ex_committed [of "''a''" "\<lparr>od_rows = [], od_dlq = []\<rparr>"]
    by (auto simp: transition_def ex_begun getState_def ex_empty_def)
  with transition_is_authorized_and_recorded [OF this] show ?thesis
    by (intro exI conjI) (assumption, simp_all add: ex_empty_def)
qed

lemma ex_wf_reachable: "wf_reachable ex_wf \<lparr>ww_db = ex_after ''B'' [], ww_pending = [], ww_committed = []\<rparr>"
proof -
  note start = ww_start [of ex_wf "[]", folded ex_empty_def]
  have b: "wf_step ex_wf \<lparr>ww_db = ex_empty, ww_pending = [], ww_committed = []\<rparr> \<lparr>ww_db = ex_empty, ww_pending = [ex_p], ww_committed = []\<rparr>"
    using ws_begin [of "ex_wenv ''a''" ex_wf "''d1''" "''B''" "Some ex_clerk" None "\<lparr>ww_db = ex_empty, ww_pending = [], ww_committed = []\<rparr>" ex_p]
    by (simp add: ex_begun getState_def ex_empty_def)
  let ?db = "(ex_after ''B'' [])\<lparr>wd_history := []\<rparr>"
  have c: "wf_step ex_wf \<lparr>ww_db = ex_empty, ww_pending = [ex_p], ww_committed = []\<rparr> \<lparr>ww_db = ?db, ww_pending = [], ww_committed = [ex_p]\<rparr>"
    using ws_commit [of ex_p "\<lparr>ww_db = ex_empty, ww_pending = [ex_p], ww_committed = []\<rparr>" 1000 ?db ex_wf]
    by (simp add: transitionState_def getState_def ex_empty_def ex_after_def ex_p_def)
  have l: "wf_step ex_wf \<lparr>ww_db = ?db, ww_pending = [], ww_committed = [ex_p]\<rparr> \<lparr>ww_db = ex_after ''B'' [], ww_pending = [], ww_committed = []\<rparr>"
    using ws_log [of ex_p "\<lparr>ww_db = ?db, ww_pending = [], ww_committed = [ex_p]\<rparr>" ex_wf 1000]
    by (simp add: logHistory_def ex_after_def)
  from ww_step [OF ww_step [OF ww_step [OF start b] c] l] show ?thesis .
qed

lemma history_is_a_trail_witness:
  "current_state ex_wf ''inv'' ''d1'' (ex_after ''B'' []) \<in> set [''A'', ''B'']"
  using history_is_a_trail [OF _ ex_wf_reachable, of _ "''d1''"] ex_valid by (auto simp: ex_wf_def ex_def_def)

lemma one_concurrent_transition_wins_witness:
  "\<exists>db' m. transition_commit (ex_wenv ''b'') ex_p db' \<lparr>od_rows = [], od_dlq = []\<rparr> = Inl (JsError ''ConflictError'' m)"
proof -
  obtain r ox1 where "transition_commit (ex_wenv ''a'') ex_p ex_empty \<lparr>od_rows = [], od_dlq = []\<rparr> = Inr (r, ex_after ''B'' [], ox1)"
    using ex_committed by blast
  from one_concurrent_transition_wins [OF this refl refl, of "ex_wenv ''b''" "\<lparr>od_rows = [], od_dlq = []\<rparr>"]
  show ?thesis by (auto simp: ex_p_def)
qed

lemma second_passage_enqueues_nothing_witness:
  "\<exists>r db ox. transition_commit (ex_wenv ''b'') ex_p (ex_after ''A'' []) ox = Inr (r, db, ox)"
proof -
  obtain r ox1 where 1: "transition_commit (ex_wenv ''a'') ex_p ex_empty \<lparr>od_rows = [], od_dlq = []\<rparr> = Inr (r, ex_after ''B'' [], ox1)"
    using ex_committed by blast
  obtain r' db ox3 where 2: "transition_commit (ex_wenv ''b'') ex_p (ex_after ''A'' []) ox1 = Inr (r', db, ox3)"
    using ex_committed_again by blast
  have "ox3 = ox1"
    by (rule second_passage_enqueues_nothing [OF 1 2, of "[''mail'']"]) (simp_all add: ex_simps)
  with 2 show ?thesis by blast
qed

end
