(* ===== verification/Authz.thy ===== *)
theory Authz
  imports Workflow QueryBuilder CacheLayer
begin

text \<open>
  Authorization: the file-based policies (\<open>packages/config/src/rbac-policies.ts\<close>), the version stamp
  of cached decisions (\<open>apps/api/src/lib/services/authz-version.ts\<close>), the permission evaluator
  (\<open>permission-evaluator.ts\<close>) with the shared cache, the writing of a permission
  (\<open>setPermission\<close> of \<open>auth.service.ts\<close>), and the row and field filters
  (\<open>data-filter.service.ts\<close>) with the query builder. The rows of \<open>_role_permissions\<close> are the objects
  the database returns; \<open>JSON.parse\<close> is a parameter. A request runs to its end before the next one.
\<close>

section \<open>rbac-policies.ts\<close>

record system_policy =
  sp_action :: string
  sp_roles :: "string list"
  sp_condition :: "(auth_context \<Rightarrow> bool) option"

record resource_guard =
  rg_resource :: string
  rg_operations :: "(string, system_policy) amap"

definition policy :: "string \<Rightarrow> string list \<Rightarrow> system_policy" where
  "policy action roles = \<lparr>sp_action = action, sp_roles = roles, sp_condition = None\<rparr>"

definition SYSTEM_GUARDS :: "resource_guard list" where
  "SYSTEM_GUARDS = [
     \<lparr>rg_resource = ''entity-schema'', rg_operations =
        [(''create'', policy ''system:manage-collections'' [''Administrator'', ''System'']),
         (''delete'', policy ''system:manage-collections'' [''Administrator'', ''System''])]\<rparr>,
     \<lparr>rg_resource = ''users'', rg_operations =
        [(''list'', policy ''system:manage-users'' [''Administrator'']), (''create'', policy ''system:manage-users'' [''Administrator'']),
         (''update'', policy ''system:manage-users'' [''Administrator'']), (''delete'', policy ''system:manage-users'' [''Administrator''])]\<rparr>,
     \<lparr>rg_resource = ''roles'', rg_operations =
        [(''list'', policy ''system:manage-roles'' [''Administrator'']), (''create'', policy ''system:manage-roles'' [''Administrator'']),
         (''delete'', policy ''system:manage-roles'' [''Administrator''])]\<rparr>,
     \<lparr>rg_resource = ''permissions'', rg_operations =
        [(''get'', policy ''system:manage-roles'' [''Administrator'']), (''set'', policy ''system:manage-roles'' [''Administrator''])]\<rparr>,
     \<lparr>rg_resource = ''webhooks'', rg_operations =
        [(''create'', policy ''system:manage-webhooks'' [''Administrator'']), (''delete'', policy ''system:manage-webhooks'' [''Administrator''])]\<rparr>,
     \<lparr>rg_resource = ''scheduler'', rg_operations =
        [(''create'', policy ''system:manage-scheduler'' [''Administrator'']), (''delete'', policy ''system:manage-scheduler'' [''Administrator'']),
         (''trigger'', policy ''system:manage-scheduler'' [''Administrator''])]\<rparr>,
     \<lparr>rg_resource = ''reports'', rg_operations =
        [(''dashboard'', policy ''system:read-reports'' [''Administrator'']), (''generate'', policy ''system:generate-reports'' [''Administrator''])]\<rparr>,
     \<lparr>rg_resource = ''system-settings'', rg_operations =
        [(''read'', policy ''system:read-settings'' [''Administrator'']), (''update'', policy ''system:write-settings'' [''Administrator''])]\<rparr>]"

definition IMMUTABLE_ROLES :: "string list" where "IMMUTABLE_ROLES = [''Administrator'', ''System'']"
definition ADMIN_ROLE_NAMES :: "string list" where "ADMIN_ROLE_NAMES = [''Administrator'', ''System'']"

section \<open>authz-version.ts\<close>

text \<open>The tables a decision reads: the permission rows, and the \<open>updated_at\<close> of users and roles.\<close>

record authz_db =
  az_permissions :: "jsobj list"
  az_stamps :: "string list"

definition VERSION_CACHE_KEY :: string where "VERSION_CACHE_KEY = ''authz:version''"
definition VERSION_TTL_MS :: int where "VERSION_TTL_MS = 1000"

definition max_str :: "string list \<Rightarrow> string option" where
  "max_str xs = fold (\<lambda>x m. case m of None \<Rightarrow> Some x | Some y \<Rightarrow> if str_less y x then Some x else Some y) xs None"

definition db_version :: "authz_db \<Rightarrow> string" where
  "db_version db = (case max_str (az_stamps db @ map (\<lambda>r. to_str (obj_get r ''updated_at'')) (az_permissions db)) of
     None \<Rightarrow> ''0'' | Some v \<Rightarrow> v)"

definition authzVersion :: "int \<Rightarrow> authz_db \<Rightarrow> cache_layer \<Rightarrow> string \<times> cache_layer" where
  "authzVersion now db c = (case cache_get now VERSION_CACHE_KEY c of
     (Some v, c') \<Rightarrow> (to_str v, c')
   | (None, c') \<Rightarrow> (let v = db_version db in (v, cache_set now VERSION_CACHE_KEY (Str v) (Some VERSION_TTL_MS) None c')))"

definition invalidateAuthzVersion :: "cache_layer \<Rightarrow> cache_layer" where
  "invalidateAuthzVersion c = delete_key VERSION_CACHE_KEY c"

definition withAuthzVersion :: "string \<Rightarrow> string \<Rightarrow> string" where
  "withAuthzVersion key version = key @ '':v'' @ version"

section \<open>permission-evaluator.ts\<close>

datatype eval_result = Allowed | Denied | Delegate

definition BUSINESS_CACHE_TTL_MS :: int where "BUSINESS_CACHE_TTL_MS = 15000"

definition system_guards :: "(string, system_policy) amap" where
  "system_guards = fold (\<lambda>g. fold (\<lambda>(ev, p). amap_set (rg_resource g @ '':'' @ ev) p) (rg_operations g)) SYSTEM_GUARDS []"

definition checkSystem :: "auth_context \<Rightarrow> string \<Rightarrow> string \<Rightarrow> eval_result" where
  "checkSystem a resource operation =
     (if au_is_admin a then Allowed
      else case amap_get system_guards (resource @ '':'' @ operation) of
        None \<Rightarrow> Delegate
      | Some p \<Rightarrow> if au_role_name a \<in> set (sp_roles p)
          then (case sp_condition p of None \<Rightarrow> Allowed | Some f \<Rightarrow> if f a then Allowed else Denied)
          else Denied)"

text \<open>A value from the cache, or computed and stored under the key.\<close>

definition cached_or :: "int \<Rightarrow> string \<Rightarrow> (cache_layer \<Rightarrow> jsval \<times> cache_layer) \<Rightarrow> cache_layer \<Rightarrow> jsval \<times> cache_layer" where
  "cached_or now key compute c = (case cache_get now key c of
     (Some v, c') \<Rightarrow> (v, c')
   | (None, c') \<Rightarrow> (let (v, c'') = compute c' in (v, cache_set now key v (Some BUSINESS_CACHE_TTL_MS) None c'')))"

definition perm_key :: "string \<Rightarrow> string \<Rightarrow> string \<Rightarrow> string" where
  "perm_key role slug what = ''perm:'' @ role @ '':'' @ slug @ '':'' @ what"

definition permission_row :: "authz_db \<Rightarrow> string \<Rightarrow> string \<Rightarrow> jsval" where
  "permission_row db role slug =
     (case find (\<lambda>r. obj_get r ''role_id'' = Str role \<and> obj_get r ''collection_slug'' = Str slug) (az_permissions db) of
        None \<Rightarrow> Null | Some r \<Rightarrow> Obj r)"

definition getPermissionRow :: "int \<Rightarrow> authz_db \<Rightarrow> string \<Rightarrow> string \<Rightarrow> cache_layer \<Rightarrow> jsval \<times> cache_layer" where
  "getPermissionRow now db role slug c =
     (if role = [] then (Null, c)
      else (let (version, c1) = authzVersion now db c
            in cached_or now (withAuthzVersion (perm_key role slug ''row'') version) (\<lambda>c. (permission_row db role slug, c)) c1))"

text \<open>A column of the row, \<open>undefined\<close> where there is no row.\<close>

definition row_column :: "jsval \<Rightarrow> string \<Rightarrow> jsval" where
  "row_column r k = (case r of Obj m \<Rightarrow> obj_get m k | _ \<Rightarrow> Undef)"

definition checkBusiness :: "int \<Rightarrow> authz_db \<Rightarrow> auth_context \<Rightarrow> string \<Rightarrow> string \<Rightarrow> cache_layer \<Rightarrow> bool \<times> cache_layer" where
  "checkBusiness now db a slug action c =
     (if au_is_admin a then (True, c)
      else (let (version, c1) = authzVersion now db c;
                (v, c2) = cached_or now (withAuthzVersion (perm_key (au_role_id a) slug action) version)
                  (\<lambda>c. let (row, c') = getPermissionRow now db (au_role_id a) slug c
                       in (Bool (truthy (row_column row (''can_'' @ action))), c')) c1
            in (v = Bool True, c2)))"

definition parse_restrictions :: "(string \<Rightarrow> jsval res) \<Rightarrow> jsval \<Rightarrow> jsval" where
  "parse_restrictions parse row = (let t = row_column row ''field_restrictions'' in
     if \<not> truthy t then Null
     else (case parse (to_str t) of Inr (Arr xs) \<Rightarrow> Arr xs | _ \<Rightarrow> Null))"

definition getFieldRestrictions :: "(string \<Rightarrow> jsval res) \<Rightarrow> int \<Rightarrow> authz_db \<Rightarrow> string \<Rightarrow> string \<Rightarrow> cache_layer \<Rightarrow> jsval \<times> cache_layer" where
  "getFieldRestrictions parse now db role slug c =
     (if role = [] then (Null, c)
      else (let (version, c1) = authzVersion now db c
            in cached_or now (withAuthzVersion (perm_key role slug ''fields'') version)
                 (\<lambda>c. let (row, c') = getPermissionRow now db role slug c in (parse_restrictions parse row, c')) c1))"

text \<open>A filter is kept when it is an object (or an array) whose \<open>type\<close> is not \<open>all\<close>.\<close>

definition parse_row_filter :: "(string \<Rightarrow> jsval res) \<Rightarrow> jsval \<Rightarrow> jsval" where
  "parse_row_filter parse row = (let t = row_column row ''row_filters'' in
     if \<not> truthy t then Null
     else (case parse (to_str t) of
             Inr (Obj m) \<Rightarrow> if obj_get m ''type'' = Str ''all'' then Null else Obj m
           | Inr (Arr xs) \<Rightarrow> Arr xs
           | _ \<Rightarrow> Null))"

definition getRowFilter :: "(string \<Rightarrow> jsval res) \<Rightarrow> int \<Rightarrow> authz_db \<Rightarrow> string \<Rightarrow> string \<Rightarrow> cache_layer \<Rightarrow> jsval \<times> cache_layer" where
  "getRowFilter parse now db role slug c =
     (if role = [] then (Null, c)
      else (let (version, c1) = authzVersion now db c
            in cached_or now (withAuthzVersion (perm_key role slug ''rowfilter'') version)
                 (\<lambda>c. let (row, c') = getPermissionRow now db role slug c in (parse_row_filter parse row, c')) c1))"

definition dropPolicyDerivedPayloads :: "cache_layer \<Rightarrow> cache_layer" where
  "dropPolicyDerivedPayloads c = invalidatePattern ''report:*'' (invalidatePattern ''readc:*'' c)"

definition invalidateBusinessCache :: "string \<Rightarrow> cache_layer \<Rightarrow> cache_layer" where
  "invalidateBusinessCache role c = dropPolicyDerivedPayloads (invalidatePattern (''perm:'' @ role @ '':*'') c)"

definition invalidateAllBusinessCache :: "cache_layer \<Rightarrow> cache_layer" where
  "invalidateAllBusinessCache c = dropPolicyDerivedPayloads (invalidatePattern ''perm:*'' c)"

definition isImmutableRole :: "string \<Rightarrow> bool" where
  "isImmutableRole r \<longleftrightarrow> r \<in> set IMMUTABLE_ROLES"

definition isAdminRole :: "string \<Rightarrow> bool" where
  "isAdminRole r \<longleftrightarrow> r \<in> set ADMIN_ROLE_NAMES"

section \<open>setPermission\<close>

record permission_input =
  pmi_role :: string
  pmi_slug :: string
  pmi_existing_id :: "string option"
  pmi_can :: "(string, bool) amap"
  pmi_field_restrictions :: "string option"
  pmi_row_filters :: "string option"
  pmi_source :: "string option"
  pmi_source_module :: "string option"

definition opt_text :: "string option \<Rightarrow> jsval" where
  "opt_text x = (case x of None \<Rightarrow> Null | Some s \<Rightarrow> Str s)"

text \<open>The row that is inserted; SQLite stores booleans as 0 and 1. \<open>can_read\<close> defaults to true.\<close>

definition permission_flag :: "permission_input \<Rightarrow> string \<Rightarrow> bool" where
  "permission_flag i action = (case amap_get (pmi_can i) action of Some b \<Rightarrow> b | None \<Rightarrow> action = ''read'')"

definition new_permission :: "permission_input \<Rightarrow> string \<Rightarrow> string \<Rightarrow> jsobj" where
  "new_permission i pid stamp =
     (let flag = (\<lambda>action. (''can_'' @ action, Num (if permission_flag i action then Fin 1 else Fin 0)))
      in [(''id'', Str pid), (''role_id'', Str (pmi_role i)), (''collection_slug'', Str (pmi_slug i)),
          flag ''read'', flag ''write'', flag ''create'', flag ''delete'', flag ''approve'', flag ''submit'',
          (''field_restrictions'', opt_text (pmi_field_restrictions i)), (''row_filters'', opt_text (pmi_row_filters i)),
          (''source'', Str (case pmi_source i of None \<Rightarrow> ''admin'' | Some s \<Rightarrow> s)),
          (''source_module'', opt_text (pmi_source_module i)), (''created_at'', Str stamp), (''updated_at'', Str stamp)])"

definition has_id :: "string \<Rightarrow> jsobj \<Rightarrow> bool" where
  "has_id pid r \<longleftrightarrow> obj_get r ''id'' = Str pid"

definition is_grant :: "string \<Rightarrow> string \<Rightarrow> jsobj \<Rightarrow> bool" where
  "is_grant role slug r \<longleftrightarrow> obj_get r ''role_id'' = Str role \<and> obj_get r ''collection_slug'' = Str slug"

definition existing_permission :: "permission_input \<Rightarrow> jsobj list \<Rightarrow> jsobj option" where
  "existing_permission i rows = (case pmi_existing_id i of
     Some x \<Rightarrow> if x = [] then find (is_grant (pmi_role i) (pmi_slug i)) rows else find (has_id x) rows
   | None \<Rightarrow> find (is_grant (pmi_role i) (pmi_slug i)) rows)"

definition without_existing :: "jsobj option \<Rightarrow> jsobj list \<Rightarrow> jsobj list" where
  "without_existing existing rows = (case existing of
     None \<Rightarrow> rows | Some r \<Rightarrow> filter (\<lambda>q. obj_get q ''id'' \<noteq> obj_get r ''id'') rows)"

definition permission_id :: "jsobj option \<Rightarrow> string \<Rightarrow> string" where
  "permission_id existing uuid = (case existing of None \<Rightarrow> uuid | Some r \<Rightarrow> to_str (obj_get r ''id''))"

text \<open>
  The old row is deleted and the new one inserted. When the unique index on role and collection
  refuses the insert (a row of another id holds the pair), the retry deletes that row too.
\<close>

definition setPermission :: "permission_input \<Rightarrow> string \<Rightarrow> string \<Rightarrow> authz_db \<Rightarrow> cache_layer \<Rightarrow> authz_db \<times> cache_layer" where
  "setPermission i uuid stamp db c =
     (let existing = existing_permission i (az_permissions db);
          rest = without_existing existing (az_permissions db);
          clash = find (is_grant (pmi_role i) (pmi_slug i)) rest;
          rows = (case clash of
             None \<Rightarrow> rest @ [new_permission i (permission_id existing uuid) stamp]
           | Some _ \<Rightarrow> without_existing clash rest @ [new_permission i (permission_id clash uuid) stamp])
      in (db\<lparr>az_permissions := rows\<rparr>, invalidateAuthzVersion (invalidateBusinessCache (pmi_role i) c)))"

section \<open>data-filter.service.ts\<close>

definition auth_record :: "auth_context \<Rightarrow> jsobj" where
  "auth_record a = [(''user_id'', Str (au_user_id a)), (''role_id'', Str (au_role_id a)),
     (''role_name'', Str (au_role_name a)), (''email'', Str (au_email a)), (''is_admin'', Bool (au_is_admin a)),
     (''employee_id'', opt_text (au_employee_id a)), (''tg_id'', opt_text (au_tg_id a))]"

definition resolveVariable :: "jsval \<Rightarrow> auth_context \<Rightarrow> jsval" where
  "resolveVariable value a = (case value of
     Str s \<Rightarrow> if s = ''$CURRENT_USER'' then Str (au_user_id a)
              else if starts_with s ''$CURRENT_USER.''
              then nullish_or (obj_get (auth_record a) (slice_from 14 s)) value
              else value
   | _ \<Rightarrow> value)"

definition operatorMap :: "(string, string) amap" where
  "operatorMap = [(''eq'', ''=''), (''neq'', ''!=''), (''gt'', ''>''), (''gte'', ''>=''), (''lt'', ''<''), (''lte'', ''<=''),
     (''in'', ''IN''), (''nin'', ''NOT IN''), (''null'', ''IS NULL''), (''nnull'', ''IS NOT NULL''), (''like'', ''LIKE'')]"

text \<open>Conditions are objects with a text \<open>field\<close> and a text \<open>op\<close>, as their type says.\<close>

record filter_condition =
  fc_field :: string
  fc_op :: string
  fc_value :: jsval

definition condition_of :: "jsval \<Rightarrow> filter_condition" where
  "condition_of v = \<lparr>fc_field = to_str (row_column v ''field''), fc_op = to_str (row_column v ''op''), fc_value = row_column v ''value''\<rparr>"

definition applySingleCondition :: "string \<Rightarrow> string \<Rightarrow> jsval \<Rightarrow> qb \<Rightarrow> qb res" where
  "applySingleCondition field ev value q =
     (if ev = ''null'' \<or> ev = ''IS NULL'' then whereNull field q
      else if ev = ''nnull'' \<or> ev = ''IS NOT NULL'' then whereNotNull field q
      else case value of
        Arr xs \<Rightarrow> if ev = ''in'' then whereIn field xs q else qb_where field value Undef q
      | _ \<Rightarrow> qb_where field value Undef q)"

definition filter_combiner :: "jsobj \<Rightarrow> string" where
  "filter_combiner m = (if obj_get m ''combiner'' = Str ''or'' \<or> obj_get m ''combiner'' = Str ''any'' then ''or'' else ''and'')"

definition group_condition :: "auth_context \<Rightarrow> string \<Rightarrow> filter_condition \<Rightarrow> group_clause" where
  "group_condition a comb c = \<lparr>gc_column = fc_field c,
     gc_op = (case amap_get operatorMap (fc_op c) of None \<Rightarrow> fc_op c | Some x \<Rightarrow> x),
     gc_value = resolveVariable (fc_value c) a, gc_type = Some comb\<rparr>"

definition apply_filter :: "auth_context \<Rightarrow> jsval \<Rightarrow> qb \<Rightarrow> qb res" where
  "apply_filter a f q = (case f of
     Obj m \<Rightarrow> (case obj_get m ''conditions'' of
         Arr cs \<Rightarrow> (case map condition_of cs of
             [] \<Rightarrow> Inr q
           | [c] \<Rightarrow> applySingleCondition (fc_field c) (fc_op c) (resolveVariable (fc_value c) a) q
           | cs' \<Rightarrow> whereGroup (map (group_condition a (filter_combiner m)) cs') (filter_combiner m) q)
       | _ \<Rightarrow> Inr q)
   | _ \<Rightarrow> Inr q)"

definition applyRowFilter :: "(string \<Rightarrow> jsval res) \<Rightarrow> int \<Rightarrow> authz_db \<Rightarrow> auth_context option \<Rightarrow> string \<Rightarrow> qb \<Rightarrow> cache_layer
    \<Rightarrow> qb res \<times> cache_layer" where
  "applyRowFilter parse now db a slug q c = (case a of
     None \<Rightarrow> (Inr q, c)
   | Some x \<Rightarrow> if au_is_admin x then (Inr q, c)
       else (let (f, c') = getRowFilter parse now db (au_role_id x) slug c in (apply_filter x f q, c')))"

definition keep_fields :: "jsval list \<Rightarrow> jsobj \<Rightarrow> jsobj" where
  "keep_fields allowed item = filter (\<lambda>(k, v). arr_includes (allowed @ [Str ''id'', Str ''created_at'', Str ''updated_at'']) (Str k))
     (own_entries item)"

definition applyFieldFilter :: "(string \<Rightarrow> jsval res) \<Rightarrow> int \<Rightarrow> authz_db \<Rightarrow> auth_context option \<Rightarrow> string \<Rightarrow> jsobj list \<Rightarrow> cache_layer
    \<Rightarrow> jsobj list \<times> cache_layer" where
  "applyFieldFilter parse now db a slug items c = (case a of
     None \<Rightarrow> (items, c)
   | Some x \<Rightarrow> if au_is_admin x then (items, c)
       else (let (r, c') = getFieldRestrictions parse now db (au_role_id x) slug c
             in (case r of Arr allowed \<Rightarrow> map (keep_fields allowed) items | _ \<Rightarrow> items, c')))"

definition applyFieldFilterToItem :: "(string \<Rightarrow> jsval res) \<Rightarrow> int \<Rightarrow> authz_db \<Rightarrow> auth_context option \<Rightarrow> string \<Rightarrow> jsobj \<Rightarrow> cache_layer
    \<Rightarrow> jsobj \<times> cache_layer" where
  "applyFieldFilterToItem parse now db a slug item c =
     (let (items, c') = applyFieldFilter parse now db a slug [item] c in (case items of [] \<Rightarrow> item | x # _ \<Rightarrow> x, c'))"

end
