(* ===== verification/AuthzClaims.thy ===== *)
theory AuthzClaims
  imports Authz
begin

text \<open>
  Properties of authorization: a permission that was just set decides the next check whatever the
  cache held, the row filter of a single condition, and the field whitelist.
\<close>

section \<open>Cached decisions\<close>

lemma cache_set_lookup:
  assumes "map_of (c_store c) k = None" "k \<noteq> j"
  shows "map_of (c_store (cache_set now j v ttl tags c)) k = None"
  using assms by (auto simp: cache_set_def Let_def intro: enforceSize_absent)

lemma cache_get_absent: "map_of (c_store c) k = None \<Longrightarrow> cache_get now k c = (None, c)"
  by (simp add: cache_get_def)

lemma cache_set_get: "0 \<le> t \<Longrightarrow> cache_get now k (cache_set now k v (Some t) tags c) = (Some v, cache_set now k v (Some t) tags c)"
  by (simp add: cache_get_def cache_set_def Let_def expired_def)

lemma cached_or_absent: "map_of (c_store c) k = None \<Longrightarrow> fst (cached_or now k f c) = fst (f c)"
  by (simp add: cached_or_def cache_get_absent split: prod.splits)

lemma version_fresh:
  assumes "map_of (c_store c) VERSION_CACHE_KEY = None"
  shows "authzVersion now db c = (db_version db, cache_set now VERSION_CACHE_KEY (Str (db_version db)) (Some VERSION_TTL_MS) None c)"
  using assms by (simp add: authzVersion_def cache_get_absent Let_def)

lemma version_cached:
  "authzVersion now db (cache_set now VERSION_CACHE_KEY (Str v) (Some VERSION_TTL_MS) None c)
     = (v, cache_set now VERSION_CACHE_KEY (Str v) (Some VERSION_TTL_MS) None c)"
  using cache_set_get [of VERSION_TTL_MS now VERSION_CACHE_KEY "Str v" None c] by (simp add: authzVersion_def VERSION_TTL_MS_def)

lemma perm_not_version: "withAuthzVersion (perm_key r s w) v \<noteq> VERSION_CACHE_KEY"
  by (simp add: withAuthzVersion_def perm_key_def VERSION_CACHE_KEY_def)

text \<open>With nothing cached for the role, a check reads the row.\<close>

lemma check_reads_row:
  assumes "map_of (c_store c) VERSION_CACHE_KEY = None" "\<not> au_is_admin a" "au_role_id a \<noteq> []"
    "\<And>w. w \<in> {action, ''row''} \<Longrightarrow> map_of (c_store c) (withAuthzVersion (perm_key (au_role_id a) slug w) (db_version db)) = None"
  shows "fst (checkBusiness now db a slug action c) = truthy (row_column (permission_row db (au_role_id a) slug) (''can_'' @ action))"
proof -
  define c1 where "c1 = cache_set now VERSION_CACHE_KEY (Str (db_version db)) (Some VERSION_TTL_MS) None c"
  have v: "authzVersion now db c = (db_version db, c1)" using version_fresh [OF assms(1)] by (simp add: c1_def)
  have v1: "authzVersion now db c1 = (db_version db, c1)" by (simp add: c1_def version_cached)
  have absent: "map_of (c_store c1) (withAuthzVersion (perm_key (au_role_id a) slug w) (db_version db)) = None"
    if "w \<in> {action, ''row''}" for w
    unfolding c1_def by (rule cache_set_lookup [OF assms(4) [OF that] perm_not_version])
  have row: "fst (getPermissionRow now db (au_role_id a) slug c1) = permission_row db (au_role_id a) slug"
    using assms(3) v1 absent [of "''row''"] by (simp add: getPermissionRow_def cached_or_absent)
  let ?r = "cached_or now (withAuthzVersion (perm_key (au_role_id a) slug action) (db_version db))
      (\<lambda>c. let (row, c') = getPermissionRow now db (au_role_id a) slug c in (Bool (truthy (row_column row (''can_'' @ action))), c')) c1"
  have "fst ?r = Bool (truthy (row_column (permission_row db (au_role_id a) slug) (''can_'' @ action)))"
    using absent [of action] row by (cases "getPermissionRow now db (au_role_id a) slug c1") (simp add: cached_or_absent)
  then show ?thesis using assms(2) v by (cases ?r) (simp add: checkBusiness_def)
qed

section \<open>Setting a permission\<close>

lemma perm_pattern:
  assumes "CHR ''*'' \<notin> set role" "list_all (\<lambda>x. \<not> line_end x) (slug @ action @ version)"
  shows "glob (''perm:'' @ role @ '':*'') (withAuthzVersion (perm_key role slug action) version)"
proof -
  have "\<not> line_end CHR '':''" "\<not> line_end CHR ''v''" by code_simp+
  with assms(2) have "glob ''*'' (slug @ '':'' @ action @ '':v'' @ version)"
    by (intro glob_star_suffix) simp
  with glob_literal [of "''perm:'' @ role @ '':''" "''*''" "slug @ '':'' @ action @ '':v'' @ version"] assms(1)
  show ?thesis by (simp add: withAuthzVersion_def perm_key_def)
qed

lemma invalidated:
  "map_of (c_store (invalidateAuthzVersion (invalidateBusinessCache role c))) k =
     (if k = VERSION_CACHE_KEY \<or> glob (''perm:'' @ role @ '':*'') k \<or> glob ''readc:*'' k \<or> glob ''report:*'' k then None
      else map_of (c_store c) k)"
  by (auto simp: invalidateAuthzVersion_def invalidateBusinessCache_def dropPolicyDerivedPayloads_def invalidatePattern_lookup)

lemma new_is_grant: "is_grant (pmi_role i) (pmi_slug i) (new_permission i x stamp)"
  by (simp add: is_grant_def new_permission_def obj_get_def Let_def)

lemma new_flag:
  assumes "action \<in> {''read'', ''write'', ''create'', ''delete'', ''approve'', ''submit''}"
  shows "truthy (obj_get (new_permission i x stamp) (''can_'' @ action)) = permission_flag i action"
  using assms by (elim insertE emptyE) (simp_all add: new_permission_def obj_get_def Let_def is_zero_num_def is_finite_num_def num_val_def)

definition one_grant :: "string \<Rightarrow> string \<Rightarrow> authz_db \<Rightarrow> bool" where
  "one_grant role slug db \<longleftrightarrow> length (filter (is_grant role slug) (az_permissions db)) \<le> 1"

lemma find_filter_none: "find P xs = None \<longleftrightarrow> filter P xs = []"
  by (induction xs) auto

lemma filter_swap: "filter P (filter Q xs) = filter Q (filter P xs)"
  by (induction xs) auto

lemma one_removed:
  assumes "length (filter P xs) \<le> 1" "find P xs = Some r" "Q r = False"
  shows "find P (filter Q xs) = None"
proof -
  have r: "r \<in> set (filter P xs)" using assms(2) by (auto simp: find_Some_iff)
  with assms(1) have "filter P xs = [r]" by (cases "filter P xs") auto
  then have "filter P (filter Q xs) = []" using assms(3) by (subst filter_swap) simp
  then show ?thesis by (simp add: find_filter_none)
qed

lemma set_row:
  assumes "setPermission i uuid stamp db c = (db', c')" "one_grant (pmi_role i) (pmi_slug i) db"
  shows "\<exists>x. find (is_grant (pmi_role i) (pmi_slug i)) (az_permissions db') = Some (new_permission i x stamp)"
proof -
  let ?P = "is_grant (pmi_role i) (pmi_slug i)"
  let ?rows = "az_permissions db"
  have key: "find ?P (rs @ [new_permission i x stamp]) = Some (new_permission i x stamp)" if "find ?P rs = None" for rs x
    using that new_is_grant [of i x stamp] by (simp add: find_append)
  define del where "del = without_existing (existing_permission i ?rows) ?rows"
  have "filter ?P del = without_existing (existing_permission i ?rows) (filter ?P ?rows)"
    by (auto simp: del_def without_existing_def filter_swap [of ?P] simp del: filter_filter split: option.splits)
  then have "length (filter ?P del) \<le> length (filter ?P ?rows)"
    by (auto simp: without_existing_def simp del: filter_filter split: option.splits)
  with assms(2) have one: "length (filter ?P del) \<le> 1" unfolding one_grant_def by linarith
  have db': "az_permissions db' = (case find ?P del of
      None \<Rightarrow> del @ [new_permission i (permission_id (existing_permission i ?rows) uuid) stamp]
    | Some _ \<Rightarrow> without_existing (find ?P del) del @ [new_permission i (permission_id (find ?P del) uuid) stamp])"
    using assms(1) unfolding del_def by (auto simp: setPermission_def Let_def)
  show ?thesis
  proof (cases "find ?P del")
    case None
    with key db' show ?thesis by auto
  next
    case (Some fresh)
    have "find ?P (without_existing (Some fresh) del) = None"
      by (simp add: without_existing_def one_removed [OF one Some])
    with Some key db' show ?thesis by auto
  qed
qed

text \<open>
  C12. A permission that has just been set decides the next check of its role, collection and action
  in this isolate, whatever decisions, rows and version stamps the cache held: a grant is usable at
  once and a revoked right is gone at once. (The unique index keeps one row per role and
  collection; ids without a star and stamps without line ends are what the code writes.)
\<close>

theorem set_permission_decides_next_check:
  assumes "setPermission i uuid stamp db c = (db', c')" "one_grant (pmi_role i) (pmi_slug i) db"
    "\<not> au_is_admin a" "au_role_id a = pmi_role i" "pmi_role i \<noteq> []" "CHR ''*'' \<notin> set (pmi_role i)"
    "list_all (\<lambda>x. \<not> line_end x) (pmi_slug i @ db_version db')"
    "action \<in> {''read'', ''write'', ''create'', ''delete'', ''approve'', ''submit''}"
  shows "fst (checkBusiness now db' a (pmi_slug i) action c') = permission_flag i action"
proof -
  have c': "c' = invalidateAuthzVersion (invalidateBusinessCache (pmi_role i) c)"
    using assms(1) by (simp add: setPermission_def Let_def)
  have plain: "list_all (\<lambda>x. \<not> line_end x) w" if "w \<in> {action, ''row''}" for w
    using that assms(8) by (elim insertE emptyE) (simp_all add: line_end_def char_code_def)
  have "map_of (c_store c') (withAuthzVersion (perm_key (pmi_role i) (pmi_slug i) w) (db_version db')) = None"
    if "w \<in> {action, ''row''}" for w
    using perm_pattern [OF assms(6), of "pmi_slug i" w "db_version db'"] plain [OF that] assms(7)
    by (simp add: c' invalidated)
  then have "fst (checkBusiness now db' a (pmi_slug i) action c')
      = truthy (row_column (permission_row db' (pmi_role i) (pmi_slug i)) (''can_'' @ action))"
    using check_reads_row [of c' a action "pmi_slug i" db' now] assms(3-5) by (simp add: c' invalidated)
  moreover obtain x where "find (is_grant (pmi_role i) (pmi_slug i)) (az_permissions db') = Some (new_permission i x stamp)"
    using set_row [OF assms(1,2)] by blast
  then have "permission_row db' (pmi_role i) (pmi_slug i) = Obj (new_permission i x stamp)"
    by (simp add: permission_row_def is_grant_def [abs_def])
  ultimately show ?thesis using new_flag [OF assms(8)] by (simp add: row_column_def)
qed

definition ex_grant :: permission_input where
  "ex_grant = \<lparr>pmi_role = ''r1'', pmi_slug = ''orders'', pmi_existing_id = None, pmi_can = [(''write'', True)],
     pmi_field_restrictions = None, pmi_row_filters = None, pmi_source = None, pmi_source_module = None\<rparr>"

definition ex_user :: auth_context where
  "ex_user = \<lparr>au_user_id = ''u1'', au_role_id = ''r1'', au_role_name = ''clerk'', au_email = ''c@x.io'', au_is_admin = False,
     au_employee_id = None, au_tg_id = None\<rparr>"

lemma set_permission_decides_next_check_witness:
  "fst (checkBusiness 5 (fst (setPermission ex_grant ''p'' ''2026'' \<lparr>az_permissions = [], az_stamps = []\<rparr> cache_empty)) ex_user ''orders'' ''write''
     (snd (setPermission ex_grant ''p'' ''2026'' \<lparr>az_permissions = [], az_stamps = []\<rparr> cache_empty)))"
proof -
  let ?s = "setPermission ex_grant ''p'' ''2026'' \<lparr>az_permissions = [], az_stamps = []\<rparr> cache_empty"
  have plain: "list_all (\<lambda>x. \<not> line_end x) (''orders'' @ db_version (fst ?s))" by code_simp
  have "fst (checkBusiness 5 (fst ?s) ex_user (pmi_slug ex_grant) ''write'' (snd ?s)) = permission_flag ex_grant ''write''"
    by (rule set_permission_decides_next_check [OF surjective_pairing])
       (use plain in \<open>simp_all add: one_grant_def ex_grant_def ex_user_def\<close>)
  then show ?thesis by (simp add: ex_grant_def permission_flag_def)
qed

section \<open>Row filters\<close>

lemma equality_pushed:
  assumes "qb_where field v Undef q = Inr q'"
  shows "\<exists>col. q_wheres q' = q_wheres q @ [clause col ''='' v ''and'']"
  using assms by (auto simp: qb_where_def where_typed_def bindR_Inr_iff validateOp_def push_where_def split: if_splits)

text \<open>
  A row filter of one condition always compares with equality: whatever operator it names (not
  equal, less, greater, like, not in), the clause added to the query is \<open>field = value\<close>. A filter
  that is to hide the rows of one value therefore shows exactly those rows. Only the null tests and
  \<open>in\<close> with a list are distinguished; with two or more conditions the operators are honoured.
\<close>

theorem single_condition_compares_with_equals:
  assumes "obj_get m ''conditions'' = Arr [cond]"
    "fc_op (condition_of cond) \<in> {''neq'', ''gt'', ''gte'', ''lt'', ''lte'', ''nin'', ''like''}"
    "apply_filter a (Obj m) q = Inr q'"
  shows "\<exists>col. q_wheres q' = q_wheres q @ [clause col ''='' (resolveVariable (fc_value (condition_of cond)) a) ''and'']"
proof -
  let ?c = "condition_of cond"
  have "applySingleCondition (fc_field ?c) (fc_op ?c) v q = qb_where (fc_field ?c) v Undef q" for v
    using assms(2) by (elim insertE emptyE) (simp_all add: applySingleCondition_def split: jsval.split)
  with assms(1,3) have "qb_where (fc_field ?c) (resolveVariable (fc_value ?c) a) Undef q = Inr q'"
    by (simp add: apply_filter_def)
  then show ?thesis by (rule equality_pushed)
qed

text \<open>Two or more conditions become one group that keeps every operator.\<close>

lemma several_conditions_keep_operators:
  assumes "obj_get m ''conditions'' = Arr (c1 # c2 # cs)" "apply_filter a (Obj m) q = Inr q'"
  shows "q_wheres q' = q_wheres q @ [clause ''__GROUP__'' ''__GROUP__''
     (Arr (map (\<lambda>c. group_item (filter_combiner m) (group_condition a (filter_combiner m) (condition_of c))) (c1 # c2 # cs))) (filter_combiner m)]"
proof -
  have items: "ys = map f xs" if "mapR (\<lambda>c. bindR (g c) (\<lambda>_. Inr (f c))) xs = Inr ys" for f and g :: "_ \<Rightarrow> string res" and xs ys
    using that by (induction xs arbitrary: ys) (auto simp: bindR_Inr_iff)
  from assms show ?thesis
    by (auto simp: apply_filter_def whereGroup_def bindR_Inr_iff push_where_def comp_def dest!: items)
qed

text \<open>A filter without a list of conditions, such as the documented \<open>{ owner: $CURRENT_USER }\<close>, filters nothing.\<close>

lemma filter_without_conditions_admits_all:
  "(\<And>cs. obj_get m ''conditions'' \<noteq> Arr cs) \<Longrightarrow> apply_filter a (Obj m) q = Inr q"
  by (simp add: apply_filter_def split: jsval.split)

definition ex_condition :: jsval where
  "ex_condition = Obj [(''field'', Str ''status''), (''op'', Str ''neq''), (''value'', Str ''draft'')]"

lemma single_condition_compares_with_equals_witness:
  "\<exists>q' col. apply_filter ex_user (Obj [(''conditions'', Arr [ex_condition])]) (projr (qb_from ''orders'')) = Inr q' \<and>
     q_wheres q' = [clause col ''='' (Str ''draft'') ''and'']"
proof -
  let ?q = "projr (qb_from ''orders'')" and ?m = "[(''conditions'', Arr [ex_condition])]"
  have col: "sanitizeColumn ''status'' ''QueryBuilder.where'' False = Inr ''status''" by code_simp
  have op: "validateOp ?q (Str ''='') = Inr ''=''" by code_simp
  have w: "q_wheres ?q = []" by code_simp
  have c: "condition_of ex_condition = \<lparr>fc_field = ''status'', fc_op = ''neq'', fc_value = Str ''draft''\<rparr>"
    by (simp add: condition_of_def ex_condition_def row_column_def obj_get_def)
  have "apply_filter ex_user (Obj ?m) ?q = Inr (push_where (clause ''status'' ''='' (Str ''draft'') ''and'') ?q)"
    by (simp add: apply_filter_def obj_get_def c resolveVariable_def applySingleCondition_def qb_where_def where_typed_def col op)
  with single_condition_compares_with_equals [OF _ _ this, of ex_condition] w show ?thesis
    by (simp add: obj_get_def c resolveVariable_def)
qed

section \<open>Field filters\<close>

text \<open>
  When the role has a field whitelist, the items a non-administrator gets hold exactly the own
  fields of the whitelist and the three system fields, with their values unchanged; no other field
  leaves the service, whatever the cache held before.
\<close>

theorem field_whitelist_enforced:
  assumes "applyFieldFilter parse now db (Some a) slug items c = (items', c')" "\<not> au_is_admin a"
    "fst (getFieldRestrictions parse now db (au_role_id a) slug c) = Arr allowed"
  shows "map set items' = map (\<lambda>item. {(k, v) \<in> set item. Str k \<in> set allowed \<or> k \<in> {''id'', ''created_at'', ''updated_at''}}) items"
proof -
  have same: "same_value_zero x (Str k) = (x = Str k)" for x k
    by (cases x) (auto simp: same_value_zero_def)
  have "set (keep_fields allowed item) = {(k, v) \<in> set item. Str k \<in> set allowed \<or> k \<in> {''id'', ''created_at'', ''updated_at''}}" for item
    by (auto simp: keep_fields_def arr_includes_def same)
  moreover have "items' = map (keep_fields allowed) items"
    using assms by (auto simp: applyFieldFilter_def split: prod.splits)
  ultimately show ?thesis by simp
qed

lemma field_whitelist_enforced_witness:
  "map set (fst (applyFieldFilter (\<lambda>t. Inr (Arr [Str ''name''])) 1
      \<lparr>az_permissions = [[(''role_id'', Str ''r1''), (''collection_slug'', Str ''s''), (''field_restrictions'', Str ''x'')]], az_stamps = []\<rparr>
      (Some ex_user) ''s'' [[(''id'', Null), (''name'', Null), (''salary'', Null)]] cache_empty))
   = [{(''id'', Null), (''name'', Null)}]"
proof -
  let ?p = "\<lambda>t. Inr (Arr [Str ''name''])" and ?db = "\<lparr>az_permissions = [[(''role_id'', Str ''r1''), (''collection_slug'', Str ''s''), (''field_restrictions'', Str ''x'')]], az_stamps = []\<rparr>"
  have r: "fst (getFieldRestrictions ?p 1 ?db (au_role_id ex_user) ''s'' cache_empty) = Arr [Str ''name'']" by code_simp
  have n: "\<not> au_is_admin ex_user" by (simp add: ex_user_def)
  show ?thesis
    by (subst field_whitelist_enforced [OF surjective_pairing n r]) auto
qed

end
