(* ===== verification/Html.thy ===== *)
theory Html
  imports JsValue
begin

text \<open>
  \<open>packages/utils/src/html.ts\<close>, the sanitizer of rich text. Each regular expression is a matcher
  that is tried at a position: it gives the replacement and the rest of the text. The classes it
  repeats cannot match what follows them, so greedy and lazy matching have one result and no
  backtracking is needed; the one exception, the lazy \<open>[\s\S]*?\<close>, is a search for the closing tag.
\<close>

section \<open>Searching and replacing\<close>

fun search :: "(string \<Rightarrow> 'a option) \<Rightarrow> string \<Rightarrow> 'a option" where
  "search m [] = m []"
| "search m (c # s) = (case m (c # s) of Some x \<Rightarrow> Some x | None \<Rightarrow> search m s)"

text \<open>\<open>s.replace(re, f)\<close> with the flag \<open>g\<close>, for a match that is not empty.\<close>

function replace_all :: "(string \<Rightarrow> (string \<times> string) option) \<Rightarrow> string \<Rightarrow> string" where
  "replace_all m [] = []"
| "replace_all m (c # s) = (case m (c # s) of
     Some (r, rest) \<Rightarrow> if length rest \<le> length s then r @ replace_all m rest else c # replace_all m s
   | None \<Rightarrow> c # replace_all m s)"
  by pat_completeness auto
termination by (relation "measure (\<lambda>(m, s). length s)") auto

definition strip_prefix :: "string \<Rightarrow> string \<Rightarrow> string option" where
  "strip_prefix p s = (if take (length p) s = p then Some (drop (length p) s) else None)"

text \<open>The same with the flag \<open>i\<close>; \<open>p\<close> is in lower case.\<close>

definition strip_prefix_ci :: "string \<Rightarrow> string \<Rightarrow> string option" where
  "strip_prefix_ci p s = (if to_lower (take (length p) s) = p then Some (drop (length p) s) else None)"

definition skip_spaces :: "string \<Rightarrow> string" where
  "skip_spaces s = dropWhile is_space s"

text \<open>\<open>[^>]*>\<close>: the text before the next \<open>>\<close> and the text after it.\<close>

definition to_gt :: "string \<Rightarrow> (string \<times> string) option" where
  "to_gt s = (case dropWhile (\<lambda>c. c \<noteq> CHR ''>'') s of [] \<Rightarrow> None
     | _ # rest \<Rightarrow> Some (takeWhile (\<lambda>c. c \<noteq> CHR ''>'') s, rest))"

section \<open>The regular expressions\<close>

definition ALLOWED_TAGS :: "string list" where
  "ALLOWED_TAGS = [''p'', ''br'', ''b'', ''strong'', ''i'', ''em'', ''u'', ''s'', ''strike'', ''h1'', ''h2'', ''h3'', ''h4'',
     ''h5'', ''h6'', ''ul'', ''ol'', ''li'', ''a'', ''blockquote'', ''pre'', ''code'', ''span'', ''div'', ''table'',
     ''thead'', ''tbody'', ''tfoot'', ''tr'', ''th'', ''td'', ''hr'', ''figure'', ''figcaption'']"

definition container_tags :: "string list" where
  "container_tags = [''script'', ''style'', ''iframe'', ''object'', ''embed'', ''form'', ''input'', ''button'', ''textarea'',
     ''select'', ''option'', ''optgroup'', ''svg'', ''math'', ''link'', ''meta'', ''base'', ''noscript'', ''template'']"

definition void_tags :: "string list" where
  "void_tags = [''script'', ''style'', ''iframe'', ''object'', ''embed'', ''link'', ''meta'', ''base'', ''input'', ''button'']"

text \<open>\<open><\s*(name)\b[^>]*>\<close>: the name, in lower case, and the text after the tag.\<close>

definition open_tag :: "string list \<Rightarrow> string \<Rightarrow> (string \<times> string) option" where
  "open_tag names s = (case s of
     c # r \<Rightarrow> if c \<noteq> CHR ''<'' then None
       else (let u = skip_spaces r; name = to_lower (takeWhile is_word u)
             in if name \<in> set names
                then map_option (\<lambda>(a, rest). (name, rest)) (to_gt (dropWhile is_word u)) else None)
   | [] \<Rightarrow> None)"

text \<open>\<open><\s*\/\s*\1\s*>\<close>\<close>

definition close_tag :: "string \<Rightarrow> string \<Rightarrow> string option" where
  "close_tag name s = (case s of
     c # r \<Rightarrow> if c \<noteq> CHR ''<'' then None
       else (case skip_spaces r of
           d # u \<Rightarrow> if d \<noteq> CHR ''/'' then None
             else (case strip_prefix_ci name (skip_spaces u) of
                 None \<Rightarrow> None
               | Some v \<Rightarrow> (case skip_spaces v of w # rest \<Rightarrow> if w = CHR ''>'' then Some rest else None | [] \<Rightarrow> None))
         | [] \<Rightarrow> None)
   | [] \<Rightarrow> None)"

definition DANGEROUS_CONTAINERS :: "string \<Rightarrow> (string \<times> string) option" where
  "DANGEROUS_CONTAINERS s = (case open_tag container_tags s of
     None \<Rightarrow> None
   | Some (name, rest) \<Rightarrow> map_option (\<lambda>r. ([], r)) (search (close_tag name) rest))"

definition DANGEROUS_VOID :: "string \<Rightarrow> (string \<times> string) option" where
  "DANGEROUS_VOID s = map_option (\<lambda>(name, rest). ([], rest)) (open_tag void_tags s)"

definition COMMENT_RE :: "string \<Rightarrow> (string \<times> string) option" where
  "COMMENT_RE s = (case strip_prefix ''<!--'' s of
     None \<Rightarrow> None | Some r \<Rightarrow> map_option (\<lambda>u. ([], u)) (search (strip_prefix ''-->'') r))"

definition is_alnum :: "char \<Rightarrow> bool" where
  "is_alnum c \<longleftrightarrow> is_alpha c \<or> is_digit c"

text \<open>\<open><(\/?)\s*([a-zA-Z0-9]+)([^>]*)>\<close>: closing or not, name, attributes, rest.\<close>

definition TAG_RE :: "string \<Rightarrow> (bool \<times> string \<times> string \<times> string) option" where
  "TAG_RE s = (case s of
     c # r \<Rightarrow> if c \<noteq> CHR ''<'' then None
       else (let closing = (r \<noteq> [] \<and> hd r = CHR ''/''); u = skip_spaces (if closing then tl r else r);
                 name = takeWhile is_alnum u
             in if name = [] then None
                else map_option (\<lambda>(attrs, rest). (closing, name, attrs, rest)) (to_gt (dropWhile is_alnum u)))
   | [] \<Rightarrow> None)"

section \<open>Links\<close>

text \<open>
  \<open>String.fromCharCode\<close> takes its argument modulo 65536; units above 127 are their UTF-8 bytes, as
  everywhere in the model.
\<close>

definition code_unit :: "jsnum \<Rightarrow> nat" where
  "code_unit n = (if is_finite_num n then nat (trunc_rat (num_val n) mod 65536) else 0)"

definition fromCharCode :: "jsnum \<Rightarrow> string" where
  "fromCharCode n = (let u = code_unit n in
     if u < 128 then [char_of u]
     else if u < 2048 then [char_of (192 + u div 64), char_of (128 + u mod 64)]
     else [char_of (224 + u div 4096), char_of (128 + u div 64 mod 64), char_of (128 + u mod 64)])"

definition hex_entity :: "string \<Rightarrow> (string \<times> string) option" where
  "hex_entity s = (case strip_prefix ''&#x'' s of
     None \<Rightarrow> None
   | Some r \<Rightarrow> (let d = takeWhile is_hex r in case dropWhile is_hex r of
         c # rest \<Rightarrow> if d \<noteq> [] \<and> c = CHR '';'' then Some (fromCharCode (read_radix 16 d), rest) else None
       | [] \<Rightarrow> None))"

definition dec_entity :: "string \<Rightarrow> (string \<times> string) option" where
  "dec_entity s = (case strip_prefix ''&#'' s of
     None \<Rightarrow> None
   | Some r \<Rightarrow> (let d = takeWhile is_digit r in case dropWhile is_digit r of
         c # rest \<Rightarrow> if d \<noteq> [] \<and> c = CHR '';'' then Some (fromCharCode (parse_int10 d), rest) else None
       | [] \<Rightarrow> None))"

definition literally :: "string \<Rightarrow> string \<Rightarrow> string \<Rightarrow> (string \<times> string) option" where
  "literally p r s = map_option (\<lambda>rest. (r, rest)) (strip_prefix p s)"

definition decodeEntities :: "string \<Rightarrow> string" where
  "decodeEntities s = replace_all (literally ''&quot;'' ''\"'') (replace_all (literally ''&gt;'' ''>'')
     (replace_all (literally ''&lt;'' ''<'') (replace_all (literally ''&amp;'' ''&'')
       (replace_all dec_entity (replace_all hex_entity s)))))"

definition is_control :: "char \<Rightarrow> bool" where
  "is_control c \<longleftrightarrow> char_code c \<le> 31 \<or> char_code c = 127"

text \<open>\<open>^([a-zA-Z][a-zA-Z0-9+.-]*):\<close>\<close>

definition has_scheme :: "string \<Rightarrow> bool" where
  "has_scheme s \<longleftrightarrow> s \<noteq> [] \<and> is_alpha (hd s) \<and>
     (case dropWhile (\<lambda>c. is_alnum c \<or> c \<in> set ''+.-'') s of c # _ \<Rightarrow> c = CHR '':'' | [] \<Rightarrow> False)"

definition SAFE_HREF_RE :: "string \<Rightarrow> bool" where
  "SAFE_HREF_RE s \<longleftrightarrow> strip_prefix_ci ''http://'' s \<noteq> None \<or> strip_prefix_ci ''https://'' s \<noteq> None"

definition SAFE_HREF_NO_SCHEME :: "string \<Rightarrow> bool" where
  "SAFE_HREF_NO_SCHEME s \<longleftrightarrow> strip_prefix_ci ''mailto:'' s \<noteq> None \<or> strip_prefix_ci ''tel:'' s \<noteq> None"

definition quote_entities :: "string \<Rightarrow> string" where
  "quote_entities s = concat (map (\<lambda>c. if c = CHR ''\"'' then ''&quot;'' else [c]) s)"

definition safeHref :: "string \<Rightarrow> string option" where
  "safeHref raw = (let clean = decodeEntities (trim (filter (\<lambda>c. \<not> is_control c) raw)) in
     if clean = [] then None
     else if starts_with clean ''//'' then None
     else if has_scheme clean \<and> \<not> SAFE_HREF_RE clean \<and> \<not> SAFE_HREF_NO_SCHEME clean then None
     else Some (quote_entities clean))"

section \<open>Attributes\<close>

definition is_quote :: "char \<Rightarrow> bool" where
  "is_quote c \<longleftrightarrow> char_code c = 34 \<or> char_code c = 39"

text \<open>\<open>name\s*=\s*\<close> without regard to case: the text after it.\<close>

definition attr_value :: "string \<Rightarrow> string \<Rightarrow> string option" where
  "attr_value name s = (case strip_prefix_ci name s of
     None \<Rightarrow> None
   | Some r \<Rightarrow> (case skip_spaces r of c # u \<Rightarrow> if c = CHR ''='' then Some (skip_spaces u) else None | [] \<Rightarrow> None))"

definition quoted_value :: "string \<Rightarrow> string \<Rightarrow> string option" where
  "quoted_value name s = (case attr_value name s of
     Some (c # r) \<Rightarrow> if is_quote c \<and> dropWhile (\<lambda>c. \<not> is_quote c) r \<noteq> [] then Some (takeWhile (\<lambda>c. \<not> is_quote c) r) else None
   | _ \<Rightarrow> None)"

definition blank_target :: "string \<Rightarrow> unit option" where
  "blank_target s = (case attr_value ''target'' s of
     Some (c # r) \<Rightarrow> if \<not> is_quote c then None
       else (case strip_prefix_ci ''_blank'' (skip_spaces r) of
           None \<Rightarrow> None
         | Some u \<Rightarrow> (case skip_spaces u of d # _ \<Rightarrow> if is_quote d then Some () else None | [] \<Rightarrow> None))
   | _ \<Rightarrow> None)"

definition number_value :: "string \<Rightarrow> string \<Rightarrow> string option" where
  "number_value name s = (case attr_value name s of
     None \<Rightarrow> None
   | Some r \<Rightarrow> (let u = (case r of c # t \<Rightarrow> if is_quote c then t else r | [] \<Rightarrow> []);
                    d = takeWhile is_digit (skip_spaces u)
                in if d = [] then None else Some d))"

definition attr_text :: "string \<Rightarrow> string \<Rightarrow> string" where
  "attr_text name v = name @ ''=\"'' @ v @ ''\"''"

definition safeAttrs :: "string \<Rightarrow> string \<Rightarrow> string" where
  "safeAttrs tag attrs =
     (let link = (if tag = ''a'' then
            (case search (quoted_value ''href'') attrs of
               None \<Rightarrow> []
             | Some h \<Rightarrow> (case safeHref h of None \<Rightarrow> [] | Some clean \<Rightarrow> [attr_text ''href'' clean]))
            @ (if search blank_target attrs = Some () then [attr_text ''target'' ''_blank'', attr_text ''rel'' ''noopener noreferrer''] else [])
          else []);
          span = (if tag = ''td'' \<or> tag = ''th'' then
            (case search (number_value ''colspan'') attrs of None \<Rightarrow> [] | Some n \<Rightarrow> [attr_text ''colspan'' n])
            @ (case search (number_value ''rowspan'') attrs of None \<Rightarrow> [] | Some n \<Rightarrow> [attr_text ''rowspan'' n])
          else []);
          out = link @ span
      in if out = [] then [] else CHR '' '' # join_with '' '' out)"

section \<open>sanitizeHtml\<close>

definition tag_replacement :: "bool \<Rightarrow> string \<Rightarrow> string \<Rightarrow> string" where
  "tag_replacement closing name attrs =
     (let tag = to_lower name in
      if closing then (if tag \<in> set ALLOWED_TAGS then ''</'' @ tag @ ''>'' else [])
      else if tag \<notin> set ALLOWED_TAGS then []
      else if tag = ''br'' then ''<br>''
      else ''<'' @ tag @ safeAttrs tag attrs @ ''>'')"

definition replace_tag :: "string \<Rightarrow> (string \<times> string) option" where
  "replace_tag s = map_option (\<lambda>(closing, name, attrs, rest). (tag_replacement closing name attrs, rest)) (TAG_RE s)"

definition tag_start :: "string \<Rightarrow> unit option" where
  "tag_start s = (case s of c # d # _ \<Rightarrow> if c = CHR ''<'' \<and> (is_alpha d \<or> d \<in> set ''/!'') then Some () else None | _ \<Rightarrow> None)"

definition sanitize_text :: "string \<Rightarrow> string" where
  "sanitize_text raw = (if search tag_start raw = None then raw
     else replace_all replace_tag (replace_all COMMENT_RE (replace_all DANGEROUS_VOID (replace_all DANGEROUS_CONTAINERS raw))))"

definition sanitizeHtml :: "jsval \<Rightarrow> string" where
  "sanitizeHtml v = (if is_nullish v then [] else sanitize_text (to_str v))"

end
