(* ===== verification/HtmlClaims.thy ===== *)
theory HtmlClaims
  imports Html
begin

text \<open>
  What the sanitizer guarantees and what it does not: on markup without nested \<open><\<close> and without
  entities only allowlisted tags with safe attributes are left; a nested \<open><\<close> or an entity gets
  executable markup through.
\<close>

section \<open>Matching and replacing\<close>

lemma replace_all_skip:
  "list_all (\<lambda>c. \<not> P c) a \<Longrightarrow> (\<And>c s x. m (c # s) = Some x \<Longrightarrow> P c) \<Longrightarrow> replace_all m (a @ r) = a @ replace_all m r"
  by (induction a) (auto split: option.splits)

lemma replace_all_id:
  "list_all (\<lambda>c. \<not> P c) s \<Longrightarrow> (\<And>c s x. m (c # s) = Some x \<Longrightarrow> P c) \<Longrightarrow> replace_all m s = s"
  using replace_all_skip [of P s m "[]"] by simp

lemma to_gt_Some: "to_gt s = Some (a, rest) \<longleftrightarrow> s = a @ CHR ''>'' # rest \<and> CHR ''>'' \<notin> set a"
proof
  assume "to_gt s = Some (a, rest)"
  then have a: "a = takeWhile (\<lambda>c. c \<noteq> CHR ''>'') s" and d: "\<exists>x. dropWhile (\<lambda>c. c \<noteq> CHR ''>'') s = x # rest"
    by (auto simp: to_gt_def split: list.splits)
  from d obtain x where x: "dropWhile (\<lambda>c. c \<noteq> CHR ''>'') s = x # rest" by blast
  then have "x = CHR ''>''" using hd_dropWhile [of "\<lambda>c. c \<noteq> CHR ''>''" s] by simp
  with a x show "s = a @ CHR ''>'' # rest \<and> CHR ''>'' \<notin> set a"
    by (metis (mono_tags, lifting) set_takeWhileD takeWhile_dropWhile_id)
next
  assume s: "s = a @ CHR ''>'' # rest \<and> CHR ''>'' \<notin> set a"
  then have "\<And>x. x \<in> set a \<Longrightarrow> x \<noteq> CHR ''>''" by auto
  then show "to_gt s = Some (a, rest)"
    using s by (auto simp: to_gt_def dropWhile_append2 takeWhile_append2)
qed

lemma to_gt_None: "CHR ''>'' \<notin> set s \<Longrightarrow> to_gt s = None"
proof -
  assume "CHR ''>'' \<notin> set s"
  then have "dropWhile (\<lambda>c. c \<noteq> CHR ''>'') s = []" by (auto simp: dropWhile_eq_Nil_conv)
  then show ?thesis unfolding to_gt_def by (simp only: list.case)
qed

text \<open>The rest of a match follows a \<open>>\<close> of the text.\<close>

definition after_gt :: "string \<Rightarrow> string \<Rightarrow> bool" where
  "after_gt s rest \<longleftrightarrow> (\<exists>pre. s = pre @ CHR ''>'' # rest)"

lemma after_gt_Cons: "after_gt s rest \<Longrightarrow> after_gt (c # s) rest"
  unfolding after_gt_def by (metis append_Cons)

lemma after_gt_drop: "after_gt (dropWhile P s) rest \<Longrightarrow> after_gt s rest"
  unfolding after_gt_def by (metis append_assoc takeWhile_dropWhile_id)

lemma after_gt_trans: "after_gt s t \<Longrightarrow> after_gt t u \<Longrightarrow> after_gt s u"
  by (auto simp: after_gt_def)

lemma search_after: "search m s = Some r \<Longrightarrow> (\<And>t. m t = Some r \<Longrightarrow> after_gt t r) \<Longrightarrow> after_gt s r"
  by (induction s) (auto split: option.splits intro: after_gt_Cons)

lemma to_gt_after: "to_gt s = Some (a, rest) \<Longrightarrow> after_gt s rest"
  by (auto simp: to_gt_Some after_gt_def)

lemma open_after:
  assumes "open_tag ns s = Some (n, rest)"
  shows "after_gt s rest \<and> hd s = CHR ''<''"
proof -
  obtain c r where s: "s = c # r" using assms by (cases s) (auto simp: open_tag_def)
  with assms obtain a where c: "c = CHR ''<''" and g: "to_gt (dropWhile is_word (skip_spaces r)) = Some (a, rest)"
    by (auto simp: open_tag_def Let_def split: if_splits)
  have "after_gt r rest"
    using after_gt_drop [OF after_gt_drop [OF to_gt_after [OF g], unfolded skip_spaces_def]] .
  with s c show ?thesis by (simp add: after_gt_Cons)
qed

lemma strip_prefix_ci_tail: "strip_prefix_ci p s = Some v \<Longrightarrow> \<exists>q. s = q @ v"
  unfolding strip_prefix_ci_def by (metis append_take_drop_id option.discI option.inject)

lemma close_after:
  assumes "close_tag n s = Some rest"
  shows "after_gt s rest"
proof -
  obtain c r where s: "s = c # r" using assms by (cases s) (simp_all add: close_tag_def)
  with assms obtain d u where u: "skip_spaces r = d # u"
    unfolding close_tag_def by (cases "skip_spaces r") (simp_all split: if_splits)
  from assms obtain v where v: "strip_prefix_ci n (skip_spaces u) = Some v"
    unfolding close_tag_def s list.case u by (cases "strip_prefix_ci n (skip_spaces u)") (simp_all split: if_splits)
  from assms have "skip_spaces v = CHR ''>'' # rest"
    unfolding close_tag_def s list.case u v option.case by (cases "skip_spaces v") (simp_all split: if_splits)
  then have "after_gt (skip_spaces v) rest" unfolding after_gt_def by (metis append_Nil)
  then have "after_gt v rest" unfolding skip_spaces_def by (rule after_gt_drop)
  moreover obtain q where "skip_spaces u = q @ v" using strip_prefix_ci_tail [OF v] by blast
  ultimately have "after_gt (skip_spaces u) rest" unfolding after_gt_def by (metis append_assoc)
  then have "after_gt u rest" unfolding skip_spaces_def by (rule after_gt_drop)
  then have "after_gt (skip_spaces r) rest" unfolding u by (rule after_gt_Cons)
  then show ?thesis unfolding s skip_spaces_def by (intro after_gt_Cons after_gt_drop [of is_space r])
qed

definition removes :: "(string \<Rightarrow> (string \<times> string) option) \<Rightarrow> bool" where
  "removes m \<longleftrightarrow> (\<forall>s r rest. m s = Some (r, rest) \<longrightarrow> r = [] \<and> hd s = CHR ''<'' \<and> after_gt s rest)"

lemma removes_all: "removes DANGEROUS_CONTAINERS" "removes DANGEROUS_VOID" "removes COMMENT_RE"
proof -
  show "removes DANGEROUS_CONTAINERS"
    by (auto simp: removes_def DANGEROUS_CONTAINERS_def split: option.splits dest: open_after)
       (meson after_gt_trans close_after open_after search_after)
  show "removes DANGEROUS_VOID" by (auto simp: removes_def DANGEROUS_VOID_def dest: open_after)
  have "after_gt t u" if "strip_prefix ''-->'' t = Some u" for t u
  proof -
    have "t = ''-->'' @ u" using that by (auto simp: strip_prefix_def split: if_splits) (metis append_Cons append_Nil append_take_drop_id)
    then show ?thesis by (auto simp: after_gt_def intro: exI [of _ "''--''"])
  qed
  moreover have "\<exists>r. s = ''<!--'' @ r \<and> x = r" if "strip_prefix ''<!--'' s = Some x" for s x
    using that by (auto simp: strip_prefix_def split: if_splits) (metis append_Cons append_Nil append_take_drop_id)
  ultimately show "removes COMMENT_RE"
    by (fastforce simp: removes_def COMMENT_RE_def split: option.splits intro: after_gt_Cons dest: search_after)
qed

section \<open>Markup without nested brackets\<close>

fun bracketed :: "bool \<Rightarrow> string \<Rightarrow> bool" where
  "bracketed inside [] = True"
| "bracketed inside (c # s) = (if c = CHR ''<'' then \<not> inside \<and> bracketed True s
     else if c = CHR ''>'' then bracketed False s else bracketed inside s)"

lemma bracketed_gt: "bracketed b (a @ CHR ''>'' # r) \<Longrightarrow> bracketed False r"
  by (induction a arbitrary: b) (auto split: if_splits)

lemma removal_keeps:
  "removes m \<Longrightarrow> bracketed b s \<Longrightarrow> bracketed b (replace_all m s) \<and> set (replace_all m s) \<subseteq> set s"
proof (induction m s arbitrary: b rule: replace_all.induct)
  case (2 m c s)
  show ?case
  proof (cases "m (c # s)")
    case None
    with 2 show ?thesis by (auto split: if_splits)
  next
    case (Some x)
    obtain r rest where x: "x = (r, rest)" by fastforce
    from 2(4) Some x have m: "r = []" "hd (c # s) = CHR ''<''" "after_gt (c # s) rest" unfolding removes_def by blast+
    then have m: "r = []" "c = CHR ''<''" "after_gt (c # s) rest" by simp_all
    then obtain pre where pre: "c # s = pre @ CHR ''>'' # rest" by (auto simp: after_gt_def)
    with m(2) obtain p where s: "s = p @ CHR ''>'' # rest" by (cases pre) auto
    then have le: "length rest \<le> length s" by simp
    have b: "\<not> b" "bracketed False rest" using 2(5) m(2) bracketed_gt [of True p rest] s by auto
    from 2(2) [OF Some x [symmetric] le 2(4) b(2)] b m le Some x show ?thesis using s by auto
  qed
qed simp

text \<open>The head of a tag between its brackets.\<close>

definition tag_head :: "string \<Rightarrow> (bool \<times> string \<times> string) option" where
  "tag_head a = (let closing = (a \<noteq> [] \<and> hd a = CHR ''/''); u = skip_spaces (if closing then tl a else a); name = takeWhile is_alnum u
     in if name = [] then None else Some (closing, name, dropWhile is_alnum u))"

lemma gt_class [simp]: "\<not> is_space CHR ''>''" "\<not> is_alnum CHR ''>''"
  by code_simp+

lemma dropWhile_gt: "\<not> P CHR ''>'' \<Longrightarrow> dropWhile P (a @ CHR ''>'' # r) = dropWhile P a @ CHR ''>'' # r"
  by (induction a) auto

lemma takeWhile_gt: "\<not> P CHR ''>'' \<Longrightarrow> takeWhile P (a @ CHR ''>'' # r) = takeWhile P a"
  by (induction a) auto

lemma set_dropWhile: "set (dropWhile P s) \<subseteq> set s"
  by (induction s) auto

lemma TAG_RE_head:
  assumes "CHR ''>'' \<notin> set a"
  shows "TAG_RE (CHR ''<'' # a @ CHR ''>'' # r) = map_option (\<lambda>(cl, n, x). (cl, n, x, r)) (tag_head a)"
proof -
  define cl where "cl \<longleftrightarrow> a \<noteq> [] \<and> hd a = CHR ''/''"
  define b where "b = (if cl then tl a else a)"
  have cl: "(a @ CHR ''>'' # r \<noteq> [] \<and> hd (a @ CHR ''>'' # r) = CHR ''/'') = cl" by (cases a) (auto simp: cl_def)
  have body: "(if cl then tl (a @ CHR ''>'' # r) else a @ CHR ''>'' # r) = b @ CHR ''>'' # r"
    by (cases a) (auto simp: b_def cl_def)
  have "CHR ''>'' \<notin> set b" using assms by (cases a) (auto simp: b_def)
  then have "CHR ''>'' \<notin> set (dropWhile is_alnum (skip_spaces b))"
    unfolding skip_spaces_def using set_dropWhile [of is_alnum "dropWhile is_space b"] set_dropWhile [of is_space b] by blast
  then have gt: "to_gt (dropWhile is_alnum (skip_spaces b) @ CHR ''>'' # r) = Some (dropWhile is_alnum (skip_spaces b), r)"
    by (simp add: to_gt_Some)
  have sp: "skip_spaces (b @ CHR ''>'' # r) = skip_spaces b @ CHR ''>'' # r" by (simp add: skip_spaces_def dropWhile_gt)
  have head: "tag_head a = (if takeWhile is_alnum (skip_spaces b) = [] then None
      else Some (cl, takeWhile is_alnum (skip_spaces b), dropWhile is_alnum (skip_spaces b)))"
    unfolding tag_head_def Let_def cl_def [symmetric] b_def [symmetric] ..
  show ?thesis
    unfolding TAG_RE_def list.case Let_def cl body sp head takeWhile_gt [of is_alnum, OF gt_class(2)] dropWhile_gt [of is_alnum, OF gt_class(2)] gt by simp
qed

lemma TAG_RE_unclosed: "CHR ''>'' \<notin> set s \<Longrightarrow> TAG_RE s = None"
proof -
  assume s: "CHR ''>'' \<notin> set s"
  have "CHR ''>'' \<notin> set (dropWhile is_alnum (skip_spaces u))" if "set u \<subseteq> set s" for u
    unfolding skip_spaces_def using that s set_dropWhile [of is_alnum "dropWhile is_space u"] set_dropWhile [of is_space u] by blast
  then have none: "to_gt (dropWhile is_alnum (skip_spaces u)) = None" if "set u \<subseteq> set s" for u
    using that by (simp add: to_gt_None)
  show ?thesis
  proof (cases s)
    case (Cons c r)
    have "set (if r \<noteq> [] \<and> hd r = CHR ''/'' then tl r else r) \<subseteq> set s" using Cons by (cases r) auto
    from none [OF this] show ?thesis unfolding TAG_RE_def Cons list.case Let_def by simp
  qed (simp add: TAG_RE_def)
qed

text \<open>Inside brackets: either the tag ends, or nothing more is bracketed.\<close>

lemma inside_cases:
  assumes "bracketed True s"
  obtains a r where "s = a @ CHR ''>'' # r" "CHR ''>'' \<notin> set a" "CHR ''<'' \<notin> set a" "bracketed False r"
  | "CHR ''>'' \<notin> set s" "CHR ''<'' \<notin> set s"
proof (cases "CHR ''>'' \<in> set s")
  case True
  then obtain a r where s: "s = a @ CHR ''>'' # r" "CHR ''>'' \<notin> set a" by (meson split_list_first)
  have "CHR ''<'' \<notin> set a" using assms s by (induction a arbitrary: s) (auto split: if_splits)
  with s assms bracketed_gt that(1) show thesis by blast
next
  case False
  then have "CHR ''<'' \<notin> set s" using assms by (induction s) (auto split: if_splits)
  with False that(2) show thesis by blast
qed

section \<open>What a browser may see\<close>

text \<open>
  The tags of a text, each by the text between its brackets; what starts with a letter, or with \<open>/\<close>
  and a letter, is a tag. The allowed ones are written out here independently of the sanitizer.
\<close>

fun tags_of :: "string \<Rightarrow> string list" where
  "tags_of [] = []"
| "tags_of (c # s) = (if c = CHR ''<'' then (case to_gt s of Some (b, _) \<Rightarrow> [b] | None \<Rightarrow> []) else []) @ tags_of s"

fun is_tag :: "string \<Rightarrow> bool" where
  "is_tag (c # d # s) \<longleftrightarrow> is_alpha c \<or> c = CHR ''/'' \<and> is_alpha d"
| "is_tag [c] \<longleftrightarrow> is_alpha c"
| "is_tag [] \<longleftrightarrow> False"

definition safe_link :: "string \<Rightarrow> bool" where
  "safe_link u \<longleftrightarrow> list_all (\<lambda>c. \<not> is_control c \<and> \<not> is_quote c) u \<and> \<not> is_space (hd u) \<and> \<not> starts_with u ''//'' \<and>
     (has_scheme u \<longrightarrow> list_ex (\<lambda>p. strip_prefix_ci p u \<noteq> None) [''http:'', ''https:'', ''mailto:'', ''tel:''])"

definition safe_attribute :: "string \<Rightarrow> string \<Rightarrow> bool" where
  "safe_attribute tag x \<longleftrightarrow>
     tag = ''a'' \<and> ((\<exists>u. x = attr_text ''href'' u \<and> safe_link u) \<or> x = attr_text ''target'' ''_blank'' \<or> x = attr_text ''rel'' ''noopener noreferrer'') \<or>
     tag \<in> {''td'', ''th''} \<and> (\<exists>d. list_all is_digit d \<and> (x = attr_text ''colspan'' d \<or> x = attr_text ''rowspan'' d))"

definition safe_attributes :: "string \<Rightarrow> string \<Rightarrow> bool" where
  "safe_attributes tag a \<longleftrightarrow> a = [] \<or> (\<exists>l. l \<noteq> [] \<and> a = CHR '' '' # join_with '' '' l \<and> list_all (safe_attribute tag) l)"

definition safe_tag :: "string \<Rightarrow> bool" where
  "safe_tag b \<longleftrightarrow> (\<exists>n \<in> set ALLOWED_TAGS. b = CHR ''/'' # n \<or> (\<exists>a. b = n @ a \<and> safe_attributes n a))"

definition only_safe_tags :: "string \<Rightarrow> bool" where
  "only_safe_tags s \<longleftrightarrow> list_all (\<lambda>b. is_tag b \<longrightarrow> safe_tag b) (tags_of s)"

lemma tags_of_plain: "CHR ''<'' \<notin> set a \<Longrightarrow> tags_of (a @ s) = tags_of s"
  by (induction a) auto

lemma tags_of_tag:
  "CHR ''<'' \<notin> set b \<Longrightarrow> CHR ''>'' \<notin> set b \<Longrightarrow> tags_of (CHR ''<'' # b @ CHR ''>'' # s) = b # tags_of s"
  using tags_of_plain [of "b @ [CHR ''>'']" s] by (simp add: to_gt_Some [of "b @ CHR ''>'' # s" b s, THEN iffD2])

lemma tags_of_unclosed: "CHR ''>'' \<notin> set s \<Longrightarrow> tags_of s = []"
  by (induction s) (auto simp: to_gt_None)

section \<open>Values taken from a tag\<close>

lemma search_suffix: "search m s = Some x \<Longrightarrow> \<exists>p t. s = p @ t \<and> m t = Some x"
proof (induction s)
  case (Cons c s)
  show ?case
  proof (cases "m (c # s)")
    case None
    with Cons obtain p t where "s = p @ t" "m t = Some x" by auto
    then show ?thesis by (intro exI [of _ "c # p"] exI [of _ t]) simp
  next
    case (Some y)
    with Cons show ?thesis by (intro exI [of _ "[]"] exI [of _ "c # s"]) simp
  qed
qed auto

lemma attr_value_set:
  assumes "attr_value n s = Some v"
  shows "set v \<subseteq> set s"
proof -
  obtain r where r: "strip_prefix_ci n s = Some r" using assms by (auto simp: attr_value_def split: option.splits)
  with assms obtain c u where u: "skip_spaces r = c # u" "v = skip_spaces u"
    by (cases "skip_spaces r") (auto simp: attr_value_def split: if_splits)
  obtain q where "s = q @ r" using strip_prefix_ci_tail [OF r] by blast
  moreover have "set v \<subseteq> set u" unfolding u(2) skip_spaces_def by (rule set_dropWhile)
  moreover have "set (c # u) \<subseteq> set r" unfolding u(1) [symmetric] skip_spaces_def by (rule set_dropWhile)
  ultimately show ?thesis by auto
qed

lemma quoted_value_set:
  assumes "search (quoted_value n) s = Some v"
  shows "set v \<subseteq> set s" "list_all (\<lambda>c. \<not> is_quote c) v"
proof -
  obtain p t where t: "s = p @ t" "quoted_value n t = Some v" using search_suffix [OF assms] by blast
  then obtain w where w: "attr_value n t = Some w" by (cases "attr_value n t") (simp_all add: quoted_value_def)
  with t obtain c r where r: "w = c # r" "v = takeWhile (\<lambda>c. \<not> is_quote c) r"
    by (cases w) (simp_all add: quoted_value_def split: if_splits)
  show "set v \<subseteq> set s" using attr_value_set [OF w] r t(1) by (auto dest: set_takeWhileD)
  show "list_all (\<lambda>c. \<not> is_quote c) v" unfolding r(2) by (auto simp: list_all_iff dest: set_takeWhileD)
qed

lemma number_value_digits:
  assumes "search (number_value n) s = Some d"
  shows "list_all is_digit d"
proof -
  obtain p t where t: "s = p @ t" "number_value n t = Some d" using search_suffix [OF assms] by blast
  then obtain w where "attr_value n t = Some w" by (cases "attr_value n t") (simp_all add: number_value_def)
  with t obtain u where "d = takeWhile is_digit u" by (auto simp: number_value_def Let_def split: if_splits)
  then show ?thesis by (auto simp: list_all_iff dest: set_takeWhileD)
qed

lemma strip_prefix_hd: "strip_prefix (p # ps) (c # s) = Some r \<Longrightarrow> c = p"
  by (auto simp: strip_prefix_def split: if_splits)

lemma decode_id:
  assumes "CHR ''&'' \<notin> set s"
  shows "decodeEntities s = s"
proof -
  have s: "list_all (\<lambda>c. \<not> c = CHR ''&'') s" using assms by (auto simp: list_all_iff)
  have "replace_all hex_entity s = s" "replace_all dec_entity s = s"
    by (rule replace_all_id [OF s]; auto simp: hex_entity_def dec_entity_def split: option.splits dest: strip_prefix_hd)+
  moreover have "replace_all (literally (CHR ''&'' # p) r) s = s" for p r
    by (rule replace_all_id [OF s]) (auto simp: literally_def dest: strip_prefix_hd)
  ultimately show ?thesis by (simp add: decodeEntities_def)
qed

lemma hd_trim: "trim s \<noteq> [] \<Longrightarrow> \<not> is_space (hd (trim s))"
proof -
  assume ne: "trim s \<noteq> []"
  let ?t = "dropWhile is_space s"
  obtain p where p: "?t = trim s @ p"
  proof
    show "?t = trim s @ rev (takeWhile is_space (rev ?t))"
      unfolding trim_def trim_start_def by (metis rev_append rev_rev_ident takeWhile_dropWhile_id)
  qed
  with ne have "?t \<noteq> []" "hd ?t = hd (trim s)" by auto
  then show ?thesis using hd_dropWhile by metis
qed

lemma escape_id: "list_all (\<lambda>c. \<not> is_quote c) s \<Longrightarrow> quote_entities s = s"
  by (induction s) (auto simp: quote_entities_def is_quote_def char_code_def)

lemma safe_scheme: "SAFE_HREF_RE u \<or> SAFE_HREF_NO_SCHEME u \<Longrightarrow>
    list_ex (\<lambda>p. strip_prefix_ci p u \<noteq> None) [''http:'', ''https:'', ''mailto:'', ''tel:'']"
proof -
  have p: "strip_prefix_ci p u \<noteq> None" if "strip_prefix_ci (p @ q) u \<noteq> None" for p q
  proof -
    have "to_lower (take (length p + length q) u) = p @ q" using that by (auto simp: strip_prefix_ci_def split: if_splits)
    then have "take (length p) (to_lower (take (length p + length q) u)) = p" by simp
    then have "to_lower (take (length p) u) = p" by (simp add: to_lower_def take_map)
    then show ?thesis by (simp add: strip_prefix_ci_def)
  qed
  assume "SAFE_HREF_RE u \<or> SAFE_HREF_NO_SCHEME u"
  then show ?thesis
    using p [of "''http:''" "''//''"] p [of "''https:''" "''//''"] by (auto simp: SAFE_HREF_RE_def SAFE_HREF_NO_SCHEME_def)
qed

lemma safeHref_safe:
  assumes "safeHref h = Some u" "CHR ''&'' \<notin> set h" "list_all (\<lambda>c. \<not> is_quote c) h"
  shows "safe_link u" "set u \<subseteq> set h"
proof -
  define t where "t = trim (filter (\<lambda>c. \<not> is_control c) h)"
  have t: "set t \<subseteq> {c \<in> set h. \<not> is_control c}" unfolding t_def using trim_chars by fastforce
  have d: "decodeEntities t = t" using t assms(2) by (intro decode_id) auto
  have q: "list_all (\<lambda>c. \<not> is_quote c) t" using t assms(3) by (auto simp: list_all_iff)
  from assms(1) have u: "u = t" "t \<noteq> []" "\<not> starts_with t ''//''" "has_scheme t \<longrightarrow> SAFE_HREF_RE t \<or> SAFE_HREF_NO_SCHEME t"
    unfolding safeHref_def t_def [symmetric] d Let_def escape_id [OF q] by (auto split: if_splits)
  have "list_all (\<lambda>c. \<not> is_control c \<and> \<not> is_quote c) t" using t q by (auto simp: list_all_iff)
  with u hd_trim [of "filter (\<lambda>c. \<not> is_control c) h"] safe_scheme [of t] show "safe_link u"
    unfolding safe_link_def t_def [symmetric] by blast
  show "set u \<subseteq> set h" using t u(1) by auto
qed

definition plain_text :: "string \<Rightarrow> bool" where
  "plain_text s \<longleftrightarrow> list_all (\<lambda>c. c \<noteq> CHR ''<'' \<and> c \<noteq> CHR ''>'') s"

lemma plain_text_append [simp]: "plain_text (a @ b) \<longleftrightarrow> plain_text a \<and> plain_text b"
  by (simp add: plain_text_def)

lemma plain_text_Cons [simp]: "plain_text (c # b) \<longleftrightarrow> c \<noteq> CHR ''<'' \<and> c \<noteq> CHR ''>'' \<and> plain_text b"
  by (simp add: plain_text_def)

lemma plain_text_Nil [simp]: "plain_text []"
  by (simp add: plain_text_def)

lemma plain_text_subset: "set a \<subseteq> set b \<Longrightarrow> plain_text b \<Longrightarrow> plain_text a"
  by (auto simp: plain_text_def list_all_iff)

lemma plain_digits: "list_all is_digit d \<Longrightarrow> plain_text d"
  by (auto simp: plain_text_def list_all_iff is_digit_def char_code_def)

lemma plain_text_join: "list_all plain_text l \<Longrightarrow> plain_text (join_with '' '' l)"
  by (induction "'' ''" l rule: join_with.induct) auto

definition good_attribute :: "string \<Rightarrow> string \<Rightarrow> bool" where
  "good_attribute tag x \<longleftrightarrow> safe_attribute tag x \<and> plain_text x"

lemma good_href:
  assumes "plain_text a" "CHR ''&'' \<notin> set a" "search (quoted_value ''href'') a = Some h" "safeHref h = Some u"
  shows "good_attribute ''a'' (attr_text ''href'' u)"
proof -
  note v = quoted_value_set [OF assms(3)]
  have amp: "CHR ''&'' \<notin> set h" using v(1) assms(2) by auto
  note u = safeHref_safe [OF assms(4) amp v(2)]
  have "plain_text u" using u(2) v(1) assms(1) plain_text_subset by blast
  with u(1) show ?thesis unfolding good_attribute_def safe_attribute_def by (auto simp: attr_text_def)
qed

lemma good_blank: "list_all (good_attribute ''a'') [attr_text ''target'' ''_blank'', attr_text ''rel'' ''noopener noreferrer'']"
  unfolding good_attribute_def safe_attribute_def by (simp add: attr_text_def)

lemma good_number:
  assumes "tag \<in> {''td'', ''th''}" "list_all is_digit d"
  shows "good_attribute tag (attr_text ''colspan'' d)" "good_attribute tag (attr_text ''rowspan'' d)"
proof -
  have "plain_text d" by (rule plain_digits) (rule assms)
  then have "plain_text (attr_text ''colspan'' d)" "plain_text (attr_text ''rowspan'' d)" by (simp_all add: attr_text_def)
  then show "good_attribute tag (attr_text ''colspan'' d)" "good_attribute tag (attr_text ''rowspan'' d)"
    unfolding good_attribute_def safe_attribute_def using assms by blast+
qed

lemma safeAttrs_parts:
  assumes "plain_text a" "CHR ''&'' \<notin> set a"
  obtains l where "safeAttrs tag a = (if l = [] then [] else CHR '' '' # join_with '' '' l)" "list_all (good_attribute tag) l"
proof -
  define href where "href = (case search (quoted_value ''href'') a of None \<Rightarrow> []
     | Some h \<Rightarrow> (case safeHref h of None \<Rightarrow> [] | Some clean \<Rightarrow> [attr_text ''href'' clean]))"
  define blank where "blank = (if search blank_target a = Some () then [attr_text ''target'' ''_blank'', attr_text ''rel'' ''noopener noreferrer''] else [])"
  define col where "col = (case search (number_value ''colspan'') a of None \<Rightarrow> [] | Some n \<Rightarrow> [attr_text ''colspan'' n])"
  define row where "row = (case search (number_value ''rowspan'') a of None \<Rightarrow> [] | Some n \<Rightarrow> [attr_text ''rowspan'' n])"
  define l where "l = (if tag = ''a'' then href @ blank else []) @ (if tag = ''td'' \<or> tag = ''th'' then col @ row else [])"
  have "list_all (good_attribute ''a'') href"
    unfolding href_def using good_href [OF assms] by (simp split: option.splits)
  moreover have "list_all (good_attribute ''a'') blank" unfolding blank_def using good_blank by simp
  moreover have "list_all (good_attribute tag) (col @ row)" if "tag = ''td'' \<or> tag = ''th''"
    unfolding col_def row_def using that good_number [OF _ number_value_digits] by (simp split: option.splits)
  ultimately have "list_all (good_attribute tag) l" unfolding l_def by simp
  moreover have "safeAttrs tag a = (if l = [] then [] else CHR '' '' # join_with '' '' l)"
    unfolding safeAttrs_def Let_def l_def href_def blank_def col_def row_def ..
  ultimately show thesis using that by blast
qed

lemma plain_ALLOWED_TAGS: "list_all plain_text ALLOWED_TAGS"
  by code_simp

lemma replacement_safe:
  assumes "plain_text a" "CHR ''&'' \<notin> set a"
  obtains "tag_replacement cl n a = []"
  | b where "tag_replacement cl n a = CHR ''<'' # b @ ''>''" "plain_text b" "safe_tag b"
proof (cases "to_lower n \<in> set ALLOWED_TAGS")
  case True
  then have p: "plain_text (to_lower n)" using plain_ALLOWED_TAGS by (simp add: list_all_iff)
  obtain l where l: "safeAttrs (to_lower n) a = (if l = [] then [] else CHR '' '' # join_with '' '' l)"
    "list_all (good_attribute (to_lower n)) l" using safeAttrs_parts [OF assms] by blast
  from l(2) have g: "list_all (safe_attribute (to_lower n)) l" "list_all plain_text l"
    by (auto simp: good_attribute_def list_all_iff)
  have pa: "plain_text (safeAttrs (to_lower n) a)" using plain_text_join [OF g(2)] by (simp add: l(1))
  have sa: "safe_attributes (to_lower n) (safeAttrs (to_lower n) a)"
    unfolding safe_attributes_def l(1) using g(1) by (cases "l = []") auto
  have close: "safe_tag (CHR ''/'' # to_lower n)" unfolding safe_tag_def using True by blast
  have "safe_tag (to_lower n @ [])" unfolding safe_tag_def safe_attributes_def using True by blast
  then have bare: "safe_tag (to_lower n)" by simp
  have opened: "safe_tag (to_lower n @ safeAttrs (to_lower n) a)" unfolding safe_tag_def using True sa by blast
  consider "cl" | "\<not> cl" "to_lower n = ''br''" | "\<not> cl" "to_lower n \<noteq> ''br''" by blast
  then show thesis
  proof cases
    case 1
    with True show thesis by (intro that(2) [OF _ _ close]) (simp_all add: tag_replacement_def Let_def p)
  next
    case 2
    with True show thesis by (intro that(2) [OF _ _ bare]) (simp_all add: tag_replacement_def Let_def p)
  next
    case 3
    with True show thesis by (intro that(2) [OF _ _ opened]) (simp_all add: tag_replacement_def Let_def p pa)
  qed
next
  case False
  then show thesis using that(1) by (simp add: tag_replacement_def Let_def)
qed

section \<open>The sanitizer\<close>

lemma is_alpha_class: "is_alpha c \<Longrightarrow> \<not> is_space c \<and> is_alnum c \<and> c \<noteq> CHR ''/''"
  by (auto simp: is_alpha_def is_lower_def is_upper_def is_space_def is_alnum_def char_code_def)

lemma tag_has_head: "is_tag a \<Longrightarrow> tag_head a \<noteq> None"
proof (cases a rule: is_tag.cases)
  case (1 c d s)
  assume "is_tag a"
  with 1 show ?thesis
    using is_alpha_class [of c] is_alpha_class [of d] by (auto simp: tag_head_def Let_def skip_spaces_def)
next
  case (2 c)
  assume "is_tag a"
  with 2 show ?thesis using is_alpha_class [of c] by (auto simp: tag_head_def Let_def skip_spaces_def)
qed simp

lemma tag_head_attributes:
  assumes "tag_head a = Some (cl, n, x)"
  shows "set x \<subseteq> set a"
proof -
  define b where "b = (if a \<noteq> [] \<and> hd a = CHR ''/'' then tl a else a)"
  have "set b \<subseteq> set a" by (cases a) (auto simp: b_def)
  moreover have "x = dropWhile is_alnum (skip_spaces b)"
    using assms unfolding tag_head_def Let_def b_def [symmetric] by (auto split: if_splits)
  ultimately show ?thesis unfolding skip_spaces_def
    using set_dropWhile [of is_alnum "dropWhile is_space b"] set_dropWhile [of is_space b] by blast
qed

lemma replace_tag_lt: "replace_tag (c # s) = Some x \<Longrightarrow> c = CHR ''<''"
  by (auto simp: replace_tag_def TAG_RE_def split: if_splits)

lemma replace_tag_safe:
  assumes "plain_text a" "CHR ''&'' \<notin> set a" "only_safe_tags (replace_all replace_tag r)"
  shows "only_safe_tags (replace_all replace_tag (CHR ''<'' # a @ CHR ''>'' # r))"
proof -
  let ?s = "CHR ''<'' # a @ CHR ''>'' # r"
  have a: "CHR ''<'' \<notin> set a" "CHR ''>'' \<notin> set a" using assms(1) by (auto simp: plain_text_def list_all_iff)
  show ?thesis
  proof (cases "tag_head a")
    case None
    have "replace_tag ?s = None" unfolding replace_tag_def TAG_RE_head [OF a(2)] None by simp
    moreover have "replace_all replace_tag ((a @ ''>'') @ r) = (a @ ''>'') @ replace_all replace_tag r"
      using a by (intro replace_all_skip [of "\<lambda>c. c = CHR ''<''"]) (auto simp: list_all_iff dest: replace_tag_lt)
    ultimately have "replace_all replace_tag ?s = CHR ''<'' # a @ CHR ''>'' # replace_all replace_tag r" by simp
    moreover have "\<not> is_tag a" using tag_has_head None by blast
    ultimately show ?thesis using assms(3) unfolding only_safe_tags_def by (simp only: tags_of_tag [OF a] list.pred_inject(2) simp_thms)
  next
    case (Some h)
    obtain cl n x where h: "h = (cl, n, x)" by (cases h) auto
    have "set x \<subseteq> set a" using tag_head_attributes Some h by simp
    then have x: "plain_text x" "CHR ''&'' \<notin> set x" using assms(1,2) plain_text_subset by blast+
    have "replace_tag ?s = Some (tag_replacement cl n x, r)" unfolding replace_tag_def TAG_RE_head [OF a(2)] Some h by simp
    then have out: "replace_all replace_tag ?s = tag_replacement cl n x @ replace_all replace_tag r" by simp
    show ?thesis
    proof (cases rule: replacement_safe [OF x, of cl n])
      case 1
      with out assms(3) show ?thesis by simp
    next
      case (2 b)
      then have b: "CHR ''<'' \<notin> set b" "CHR ''>'' \<notin> set b" by (auto simp: plain_text_def list_all_iff)
      have "replace_all replace_tag ?s = CHR ''<'' # b @ CHR ''>'' # replace_all replace_tag r" unfolding out 2(1) by simp
      then show ?thesis using assms(3) 2(3) unfolding only_safe_tags_def by (simp only: tags_of_tag [OF b] list.pred_inject(2) simp_thms)
    qed
  qed
qed

lemma replace_tags_safe:
  "bracketed False s \<Longrightarrow> CHR ''&'' \<notin> set s \<Longrightarrow> only_safe_tags (replace_all replace_tag s)"
proof (induction s rule: length_induct)
  case (1 s)
  show ?case
  proof (cases s)
    case Nil
    then show ?thesis by (simp add: only_safe_tags_def)
  next
    case (Cons c t)
    show ?thesis
    proof (cases "c = CHR ''<''")
      case False
      then have "replace_tag (c # t) = None" using replace_tag_lt by (cases "replace_tag (c # t)") auto
      moreover have "only_safe_tags (replace_all replace_tag t)" using 1 Cons False by (auto split: if_splits)
      ultimately show ?thesis using Cons False by (simp add: only_safe_tags_def)
    next
      case True
      with 1(2) Cons have "bracketed True t" by simp
      then show ?thesis
      proof (cases rule: inside_cases)
        case (1 a r)
        then have plain: "plain_text a" by (auto simp: plain_text_def list_all_iff)
        have r: "only_safe_tags (replace_all replace_tag r)" using "1.IH" "1.prems" Cons 1 by simp
        have "CHR ''&'' \<notin> set a" using "1.prems" Cons 1 by simp
        from replace_tag_safe [OF plain this r] show ?thesis unfolding Cons True 1(1) .
      next
        case 2
        then have "replace_tag s = None" using Cons True by (simp add: replace_tag_def TAG_RE_unclosed)
        moreover have "replace_all replace_tag t = t"
          using 2 by (intro replace_all_id [of "\<lambda>c. c = CHR ''<''"]) (auto simp: list_all_iff dest: replace_tag_lt)
        ultimately have "replace_all replace_tag s = s" using Cons by simp
        moreover have "tags_of s = []" using 2 Cons True by (intro tags_of_unclosed) simp
        ultimately show ?thesis by (simp only: only_safe_tags_def list.pred_inject(1))
      qed
    qed
  qed
qed

lemma removals_keep:
  assumes "bracketed False s"
  defines "t \<equiv> replace_all COMMENT_RE (replace_all DANGEROUS_VOID (replace_all DANGEROUS_CONTAINERS s))"
  shows "bracketed False t \<and> set t \<subseteq> set s"
  using removal_keeps [OF removes_all(1) assms(1)]
    removal_keeps [OF removes_all(2), of False "replace_all DANGEROUS_CONTAINERS s"]
    removal_keeps [OF removes_all(3), of False "replace_all DANGEROUS_VOID (replace_all DANGEROUS_CONTAINERS s)"]
  unfolding t_def by blast

lemma tag_starts: "to_gt s = Some (b, r) \<Longrightarrow> is_tag b \<Longrightarrow> tag_start (CHR ''<'' # s) \<noteq> None"
  by (cases b rule: is_tag.cases) (auto simp: to_gt_Some tag_start_def)

lemma no_tag_start: "search tag_start s = None \<Longrightarrow> list_all (\<lambda>b. \<not> is_tag b) (tags_of s)"
proof (induction s)
  case (Cons c s)
  have n: "tag_start (c # s) = None" "search tag_start s = None" using Cons.prems by (simp_all split: option.splits)
  have "list_all (\<lambda>b. \<not> is_tag b) (if c = CHR ''<'' then (case to_gt s of Some (b, _) \<Rightarrow> [b] | None \<Rightarrow> []) else [])"
    using n(1) tag_starts [of s] by (auto split: option.splits)
  then show ?case using Cons.IH [OF n(2)] by (simp only: tags_of.simps list_all_append simp_thms)
qed simp

lemma safe_tag_start: "safe_tag b \<Longrightarrow> list_ex (\<lambda>n. b = CHR ''/'' # n \<or> b = n \<or> starts_with b (n @ '' '')) ALLOWED_TAGS"
proof -
  assume "safe_tag b"
  then obtain n where n: "n \<in> set ALLOWED_TAGS" "b = CHR ''/'' # n \<or> (\<exists>a. b = n @ a \<and> safe_attributes n a)"
    unfolding safe_tag_def by blast
  moreover have "b = n \<or> starts_with b (n @ '' '')" if "b = n @ a" "safe_attributes n a" for a
    using that by (auto simp: safe_attributes_def starts_with_iff)
  ultimately have "b = CHR ''/'' # n \<or> b = n \<or> starts_with b (n @ '' '')" by blast
  with n(1) show ?thesis unfolding list_ex_iff by blast
qed

lemma only_safe_tags_left:
  assumes "bracketed False raw" "CHR ''&'' \<notin> set raw"
  shows "only_safe_tags (sanitize_text raw)"
proof (cases "search tag_start raw")
  case None
  then have "only_safe_tags raw" using no_tag_start [OF None] by (auto simp: only_safe_tags_def list_all_iff)
  with None show ?thesis by (simp add: sanitize_text_def)
next
  case (Some u)
  then show ?thesis using removals_keep [OF assms(1)] assms(2) replace_tags_safe by (auto simp: sanitize_text_def)
qed

text \<open>
  C40. In sanitized text every tag is an allowed one with safe attributes only: links with a safe
  scheme, without control characters and quotes, \<open>target="_blank"\<close> with its \<open>rel\<close>, numeric spans. This
  holds of every input without entities in which no \<open><\<close> is nested in a tag.
\<close>

theorem sanitized_markup_is_safe:
  assumes "bracketed False raw" "CHR ''&'' \<notin> set raw"
  shows "only_safe_tags (sanitize_text raw)"
  using assms by (rule only_safe_tags_left)

lemma sanitized_markup_is_safe_witness:
  "only_safe_tags (sanitize_text ''<script>x</script><P onclick=x>a<td colspan=2 id=y>b</p>'') \<and>
   sanitize_text ''<script>x</script><P onclick=x>a<td colspan=2 id=y>b</p>'' = ''<p>a<td colspan=\"2\">b</p>''"
proof
  show "only_safe_tags (sanitize_text ''<script>x</script><P onclick=x>a<td colspan=2 id=y>b</p>'')"
    by (rule sanitized_markup_is_safe; code_simp)
  show "sanitize_text ''<script>x</script><P onclick=x>a<td colspan=2 id=y>b</p>'' = ''<p>a<td colspan=\"2\">b</p>''"
    by code_simp
qed

text \<open>
  Outside that domain the sanitizer lets executable markup through: a nested \<open><\<close> makes a tag
  that is never looked at again, a tag without its \<open>>\<close> is left for what follows it in the page, an
  entity that decodes to a tab hides a scheme, and so does an entity that is encoded twice.
\<close>

theorem sanitizer_lets_markup_through:
  "sanitize_text ''<<x>img src=x onerror=alert(1)>'' = ''<img src=x onerror=alert(1)>'' \<and>
   sanitize_text ''<img src=x onerror=alert(1) '' = ''<img src=x onerror=alert(1) '' \<and>
   sanitize_text ''<a href=\"java&#9;script:alert(1)\">x</a>'' = ''<a href=\"java'' @ [char_of (9 :: nat)] @ ''script:alert(1)\">x</a>'' \<and>
   sanitize_text ''<a href=\"&amp;#x6a;avascript:alert(1)\">x</a>'' = ''<a href=\"&#x6a;avascript:alert(1)\">x</a>'' \<and>
   \<not> only_safe_tags (sanitize_text ''<<x>img src=x onerror=alert(1)>'')"
proof (intro conjI)
  let ?x = "''img src=x onerror=alert(1)''"
  show nested: "sanitize_text ''<<x>img src=x onerror=alert(1)>'' = ''<img src=x onerror=alert(1)>''" by code_simp
  have "\<not> list_ex (\<lambda>n. ?x = CHR ''/'' # n \<or> ?x = n \<or> starts_with ?x (n @ '' '')) ALLOWED_TAGS" by code_simp
  then have "\<not> safe_tag ?x" using safe_tag_start by blast
  moreover have "tags_of ''<img src=x onerror=alert(1)>'' = [?x]" "is_tag ?x" by code_simp+
  ultimately show "\<not> only_safe_tags (sanitize_text ''<<x>img src=x onerror=alert(1)>'')"
    unfolding nested only_safe_tags_def by simp
  show "sanitize_text ''<img src=x onerror=alert(1) '' = ''<img src=x onerror=alert(1) ''" by code_simp
  show "sanitize_text ''<a href=\"java&#9;script:alert(1)\">x</a>'' = ''<a href=\"java'' @ [char_of (9 :: nat)] @ ''script:alert(1)\">x</a>''"
    by code_simp
  show "sanitize_text ''<a href=\"&amp;#x6a;avascript:alert(1)\">x</a>'' = ''<a href=\"&#x6a;avascript:alert(1)\">x</a>''"
    by code_simp
qed

end
