(* ===== verification/Entity.thy ===== *)
theory Entity
  imports JsValue
begin

text \<open>
  \<open>packages/types/src/entity.ts\<close>: the definition of a field of a collection, with the members the
  modelled code reads, and the system columns. An absent optional member is \<open>None\<close>; a flag that
  the code only tests for truth is a truth value (\<open>encrypted\<close> is read through a cast).
\<close>

record field_definition =
  fd_name :: string
  fd_type :: string
  fd_required :: "bool option"
  fd_default :: "jsval option"
  fd_source :: "string option"
  fd_related_collection :: "string option"
  fd_foreign_key :: "string option"
  fd_related_collections :: "string list option"
  fd_cascade_delete :: "bool option"
  fd_formula :: "string option"
  fd_store :: bool
  fd_result_type :: "string option"
  fd_precision :: "jsnum option"
  fd_rounding :: "string option"
  fd_inverse_formula :: "string option"
  fd_inverse_target :: "string option"
  fd_unique :: "bool option"
  fd_index :: "bool option"
  fd_min :: "jsnum option"
  fd_max :: "jsnum option"
  fd_max_length :: "jsnum option"
  fd_encrypted :: bool

text \<open>A field of which only the name and the type are given.\<close>

definition plain_field :: "string \<Rightarrow> string \<Rightarrow> field_definition" where
  "plain_field name type = \<lparr>fd_name = name, fd_type = type, fd_required = None, fd_default = None,
     fd_source = None, fd_related_collection = None, fd_foreign_key = None,
     fd_related_collections = None, fd_cascade_delete = None,
     fd_formula = None, fd_store = False, fd_result_type = None, fd_precision = None, fd_rounding = None,
     fd_inverse_formula = None, fd_inverse_target = None, fd_unique = None, fd_index = None, fd_min = None, fd_max = None,
     fd_max_length = None, fd_encrypted = False\<rparr>"

text \<open>\<open>if (f.formula)\<close>: the text of a formula that is given and not empty.\<close>

definition formula_of :: "field_definition \<Rightarrow> string option" where
  "formula_of f = (case fd_formula f of Some s \<Rightarrow> if s = [] then None else Some s | None \<Rightarrow> None)"

definition flag :: "bool option \<Rightarrow> bool" where
  "flag b \<longleftrightarrow> b = Some True"

text \<open>\<open>new Map(fields.map((f) => [f.name, f]))\<close>\<close>

definition fields_by_name :: "field_definition list \<Rightarrow> (string, field_definition) amap" where
  "fields_by_name fs = amap_of (map (\<lambda>f. (fd_name f, f)) fs)"

section \<open>System columns\<close>

text \<open>\<open>SystemFieldOptions\<close> is an object of flags; the defaults are spread under the given ones.\<close>

type_synonym system_field_options = "(string, bool) amap"

definition DEFAULT_SYSTEM_FIELDS :: system_field_options where
  "DEFAULT_SYSTEM_FIELDS = [(''doc_status'', True), (''display_number'', True), (''created_by'', True),
     (''updated_by'', True), (''deleted_at'', True), (''deleted_by'', True), (''_owner'', True)]"

definition system_option :: "system_field_options \<Rightarrow> string \<Rightarrow> bool" where
  "system_option opts k \<longleftrightarrow>
     (case map_of opts k of Some b \<Rightarrow> b | None \<Rightarrow> map_of DEFAULT_SYSTEM_FIELDS k = Some True)"

definition SYSTEM_FIELDS :: "string list" where
  "SYSTEM_FIELDS = [''id'', ''_meta'', ''doc_status'', ''display_number'', ''deleted_at'', ''deleted_by'',
     ''created_at'', ''updated_at'', ''created_by'', ''updated_by'', ''_owner'']"

end
