(* ===== verification/Computed.thy ===== *)
theory Computed
  imports Entity Evaluator
begin

text \<open>
  \<open>packages/core/src/entity/computed.ts\<close>: rounding and coercion of formula results, the scans of a
  formula for the names it mentions, and the two orders in which formulas are computed: the
  rounds of \<open>topoSortStoredFormulas\<close> and the depth-first search of \<open>resolveFormulaDependencies\<close>.
\<close>

section \<open>Results\<close>

definition DEFAULT_FORMULA_RESULT_TYPE :: string where
  "DEFAULT_FORMULA_RESULT_TYPE = ''number''"

definition FORMULA_RESULT_TYPES :: "string list" where
  "FORMULA_RESULT_TYPES = [''number'', ''string'', ''boolean'', ''json'']"

definition FORMULA_ROUNDING_MODES :: "string list" where
  "FORMULA_ROUNDING_MODES = [''half_up'', ''half_even'', ''up'', ''down'']"

definition LOOKUP_RELATION_TYPES :: "string list" where
  "LOOKUP_RELATION_TYPES = [''o2m'', ''m2m'', ''table'', ''m2o'']"

definition formulaResultType :: "field_definition \<Rightarrow> string" where
  "formulaResultType f = (case fd_result_type f of
     Some rt \<Rightarrow> if rt \<in> set FORMULA_RESULT_TYPES then rt else DEFAULT_FORMULA_RESULT_TYPE
   | None \<Rightarrow> DEFAULT_FORMULA_RESULT_TYPE)"

definition formulaRounding :: "field_definition \<Rightarrow> string" where
  "formulaRounding f = (case fd_rounding f of
     Some r \<Rightarrow> if r \<in> set FORMULA_ROUNDING_MODES then r else ''half_up''
   | None \<Rightarrow> ''half_up'')"

text \<open>The precision is an integer from 0 to 10 at every call; \<open>10 ** precision\<close> is exact there.\<close>

definition EPS :: jsnum where
  "EPS = rnd64 (1 / 10 ^ 9)"

definition half :: jsnum where
  "half = Fin (1 / 2)"

definition is_even_num :: "jsnum \<Rightarrow> bool" where
  "is_even_num x \<longleftrightarrow> num_eq (num_rem x (Fin 2)) (Fin 0)"

definition roundTo :: "jsnum \<Rightarrow> int \<Rightarrow> string \<Rightarrow> jsnum" where
  "roundTo value precision mode =
     (let factor = Fin (pow10 precision); scaled = num_mul value factor
      in if mode = ''half_even'' then
           (let floor = num_floor scaled; diff = num_sub scaled floor
            in if num_lt (num_add half EPS) diff then num_div (num_add floor (Fin 1)) factor
               else if num_lt diff (num_sub half EPS) then num_div floor factor
               else num_div (if is_even_num floor then floor else num_add floor (Fin 1)) factor)
         else if mode = ''up'' then num_div (num_ceil scaled) factor
         else if mode = ''down'' then num_div (num_floor scaled) factor
         else (let sign = (if num_lt scaled (Fin 0) then Fin (- 1) else Fin 1)
               in num_div (num_mul (num_floor (num_add (num_add (num_abs scaled) half) EPS)) sign) factor))"

text \<open>\<open>Math.max(0, Math.min(10, Math.trunc(p)))\<close> for a number of the schema.\<close>

definition clamp_precision :: "jsnum \<Rightarrow> int" where
  "clamp_precision p = (case p of
     Fin q \<Rightarrow> max 0 (min 10 (trunc_rat q)) | PosInf \<Rightarrow> 10 | _ \<Rightarrow> 0)"

definition applyFormulaPrecision :: "jsval \<Rightarrow> field_definition \<Rightarrow> jsval" where
  "applyFormulaPrecision value f = (case (value, fd_precision f) of
     (Num x, Some precision) \<Rightarrow>
       (let p = clamp_precision precision
        in if p = 0 then Num (num_trunc x) else Num (roundTo x p (formulaRounding f)))
   | _ \<Rightarrow> value)"

text \<open>\<open>coerceComputedValue\<close>, with the two members of its options.\<close>

definition coerceComputedValue :: "jsval \<Rightarrow> string \<Rightarrow> jsnum option \<Rightarrow> string option \<Rightarrow> jsval" where
  "coerceComputedValue value resultType precision rounding =
     (if is_nullish value then Null
      else if resultType = ''number'' then
        (let n = to_num value
         in if n = NaN then Num (Fin 0)
            else (case precision of
                None \<Rightarrow> Num n
              | Some pr \<Rightarrow> (let p = clamp_precision pr
                  in if p = 0 then Num (num_trunc n)
                     else Num (roundTo n p (case rounding of Some r \<Rightarrow> r | None \<Rightarrow> ''half_up'')))))
      else if resultType = ''boolean'' then
        (case value of
           Bool b \<Rightarrow> Num (if b then Fin 1 else Fin 0)
         | Num x \<Rightarrow> Num (if truthy value then Fin 1 else Fin 0)
         | _ \<Rightarrow> (let s = to_lower (trim (to_str value))
                 in Num (if s = ''false'' \<or> s = ''0'' \<or> s = [] then Fin 0 else Fin 1)))
      else if resultType = ''json'' then (case value of Str s \<Rightarrow> Str s | _ \<Rightarrow> json_stringify value)
      else Str (to_str value))"

section \<open>Names in a formula\<close>

text \<open>
  \<open>/\b[A-Za-z_$][A-Za-z0-9_$]*\b/g\<close>. A boundary lies between a word character and another one or an
  end of the text; \<open>$\<close> is no word character. A match is the longest prefix of the run of name
  characters that ends at a boundary; \<open>prev\<close> says whether the character before is a word character.
\<close>

definition boundary_at :: "string \<Rightarrow> nat \<Rightarrow> bool" where
  "boundary_at s k \<longleftrightarrow> is_word (s ! (k - 1)) \<noteq> (k < length s \<and> is_word (s ! k))"

definition ident_length :: "string \<Rightarrow> nat option" where
  "ident_length s = find (boundary_at s) (rev [1..<Suc (length (takeWhile is_id_char s))])"

lemma find_in: "find P xs = Some x \<Longrightarrow> P x \<and> x \<in> set xs"
  by (induction xs) (auto split: if_splits)

lemma ident_length_pos: "ident_length s = Some k \<Longrightarrow> 0 < k"
  unfolding ident_length_def by (drule find_in) auto

function scan_idents :: "bool \<Rightarrow> string \<Rightarrow> string list" where
  "scan_idents prev [] = []"
| "scan_idents prev (c # s) =
     (if is_id_start c \<and> prev \<noteq> is_word c then
        (case ident_length (c # s) of
           None \<Rightarrow> scan_idents (is_word c) s
         | Some k \<Rightarrow> take k (c # s) # scan_idents (is_word ((c # s) ! (k - 1))) (drop k (c # s)))
      else scan_idents (is_word c) s)"
  by pat_completeness auto
termination
  by (relation "measure (\<lambda>(p, s). length s)") (auto dest: ident_length_pos)

definition identifiers :: "string \<Rightarrow> string list" where
  "identifiers formula = scan_idents False formula"

text \<open>\<open>extractLookupRefs\<close>: the relation fields whose names occur, by name.\<close>

definition lookup_fields :: "field_definition list \<Rightarrow> (string, field_definition) amap" where
  "lookup_fields fs = fields_by_name (filter (\<lambda>f. fd_type f \<in> set LOOKUP_RELATION_TYPES) fs)"

definition extractLookupRefs :: "string \<Rightarrow> field_definition list \<Rightarrow> (string, field_definition) amap" where
  "extractLookupRefs formula fs = fold (\<lambda>n refs. case map_of (lookup_fields fs) n of
       None \<Rightarrow> refs | Some f \<Rightarrow> amap_set (fd_name f) f refs) (identifiers formula) []"

definition buildLookupScope :: "jsobj list \<Rightarrow> jsobj" where
  "buildLookupScope rows = fold (\<lambda>name scope. amap_set name (Arr (map (\<lambda>r.
       if obj_get r name = Undef then Null else obj_get r name) rows)) scope)
     (uniq (concat (map own_keys rows))) [(''__rows'', Arr (map Obj rows))]"

definition column_field :: "field_definition \<Rightarrow> bool" where
  "column_field f \<longleftrightarrow> fd_type f \<notin> {''o2m'', ''m2m'', ''table'', ''m2a'', ''formula''}"

definition extractFieldRefs :: "string \<Rightarrow> field_definition list \<Rightarrow> string list" where
  "extractFieldRefs formula fs = fold (\<lambda>n out. case map_of (fields_by_name fs) n of
       None \<Rightarrow> out | Some f \<Rightarrow> if column_field f then oset_add (fd_name f) out else out) (identifiers formula) []"

section \<open>The order of stored formulas\<close>

definition stored_formulas :: "field_definition list \<Rightarrow> field_definition list" where
  "stored_formulas fs = filter (\<lambda>f. fd_type f = ''formula'' \<and> fd_store f \<and> formula_of f \<noteq> None) fs"

definition formula_text :: "field_definition \<Rightarrow> string" where
  "formula_text f = (case formula_of f of Some s \<Rightarrow> s | None \<Rightarrow> [])"

definition referencedNames :: "(string, field_definition) amap \<Rightarrow> string \<Rightarrow> string list" where
  "referencedNames byName formula = uniq (filter (\<lambda>n. amap_has n byName) (identifiers formula))"

definition the_field :: "(string, field_definition) amap \<Rightarrow> string \<Rightarrow> field_definition" where
  "the_field byName n = (case map_of byName n of Some f \<Rightarrow> f | None \<Rightarrow> plain_field n [])"

text \<open>One round of the \<open>while\<close> loop: the names left over and the fields emitted so far.\<close>

definition topo_step :: "(string, field_definition) amap \<Rightarrow> string \<Rightarrow> string list \<times> field_definition list \<Rightarrow> string list \<times> field_definition list" where
  "topo_step byName name st =
     (let f = the_field byName name;
          unmet = filter (\<lambda>d. d \<in> set (fst st) \<and> d \<noteq> name) (referencedNames byName (formula_text f))
      in if unmet = [] then (removeAll name (fst st), snd st @ [f]) else st)"

definition topo_round :: "(string, field_definition) amap \<Rightarrow> string list \<times> field_definition list \<Rightarrow> string list \<times> field_definition list" where
  "topo_round byName st = fold (topo_step byName) (fst st) st"

lemma topo_steps_shrink: "length (fst (fold (topo_step byName) ns st)) \<le> length (fst st)"
proof (induction ns arbitrary: st)
  case (Cons n ns)
  have "length (fst (topo_step byName n st)) \<le> length (fst st)" by (simp add: topo_step_def Let_def)
  with Cons.IH [of "topo_step byName n st"] show ?case by simp
qed simp

function topo_loop :: "(string, field_definition) amap \<Rightarrow> string list \<Rightarrow> field_definition list \<Rightarrow> field_definition list" where
  "topo_loop byName remaining ordered =
     (if remaining = [] then ordered
      else let st = topo_round byName (remaining, ordered)
           in if length (fst st) < length remaining then topo_loop byName (fst st) (snd st)
              else ordered @ map (the_field byName) remaining)"
  by pat_completeness auto
termination
  by (relation "measure (\<lambda>x. length (fst (snd x)))") simp_all

declare topo_loop.simps [simp del]

definition topoSortStoredFormulas :: "field_definition list \<Rightarrow> field_definition list" where
  "topoSortStoredFormulas fs =
     (let stored = stored_formulas fs; byName = fields_by_name stored
      in if length stored \<le> 1 then stored else topo_loop byName (uniq (map fd_name stored)) [])"

section \<open>The order of virtual formulas\<close>

definition formula_field :: "(string, field_definition) amap \<Rightarrow> string \<Rightarrow> field_definition option" where
  "formula_field byName name = (case map_of byName name of
     Some f \<Rightarrow> if fd_type f = ''formula'' \<and> formula_of f \<noteq> None then Some f else None | None \<Rightarrow> None)"

definition formula_deps :: "(string, field_definition) amap \<Rightarrow> field_definition \<Rightarrow> string list" where
  "formula_deps byName f = filter (\<lambda>n. formula_field byName n \<noteq> None) (identifiers (formula_text f))"

text \<open>\<open>visit\<close> on the names of a list in turn: the visited names and the emitted fields.\<close>

function dfs :: "(string, field_definition) amap \<Rightarrow> string list \<Rightarrow> string list \<times> field_definition list \<Rightarrow> string list \<times> field_definition list" where
  "dfs byName [] st = st"
| "dfs byName (n # ns) st = (case formula_field byName n of
     None \<Rightarrow> dfs byName ns st
   | Some f \<Rightarrow>
       if n \<in> set (fst st) then dfs byName ns st
       else (let st' = dfs byName (formula_deps byName f) (n # fst st, snd st)
             in dfs byName ns (fst st', snd st' @ [f])))"
  by pat_completeness auto

lemma dfs_visits: "dfs_dom (byName, ns, st) \<Longrightarrow> set (fst st) \<subseteq> set (fst (dfs byName ns st))"
proof (induction byName ns st rule: dfs.pinduct)
  case (2 byName n ns st)
  show ?case
  proof (cases "formula_field byName n")
    case None
    with 2 show ?thesis by (simp add: dfs.psimps)
  next
    case (Some f)
    show ?thesis
    proof (cases "n \<in> set (fst st)")
      case True
      with 2 Some show ?thesis by (simp add: dfs.psimps)
    next
      case False
      from 2(4) [OF Some False] 2(5) [OF Some False refl] 2(1) Some False show ?thesis
        by (auto simp: dfs.psimps Let_def)
    qed
  qed
qed (simp add: dfs.psimps)

lemma formula_field_known: "formula_field byName n = Some f \<Longrightarrow> n \<in> fst ` set byName"
  by (auto simp: formula_field_def split: option.splits if_splits dest: map_of_SomeD intro: rev_image_eqI)

termination dfs
proof (relation "(\<lambda>(byName, ns, st). card (fst ` set byName - set (fst st))) <*mlex*> measure (\<lambda>(byName, ns, st). length ns)")
  show "wf ((\<lambda>(byName, ns, st). card (fst ` set byName - set (fst st))) <*mlex*> measure (\<lambda>(byName, ns, st). length ns))"
    by (intro wf_mlex) simp
next
  fix byName :: "(string, field_definition) amap" and n ns st f
  assume "formula_field byName n = Some f" "n \<notin> set (fst st)"
  then have "card (fst ` set byName - set (n # fst st)) < card (fst ` set byName - set (fst st))"
    using formula_field_known by (intro psubset_card_mono) auto
  then show "((byName, formula_deps byName f, n # fst st, snd st), byName, n # ns, st)
      \<in> (\<lambda>(byName, ns, st). card (fst ` set byName - set (fst st))) <*mlex*> measure (\<lambda>(byName, ns, st). length ns)"
    by (intro mlex_less) simp
next
  fix byName :: "(string, field_definition) amap" and n ns st f st'
  assume st': "st' = dfs byName (formula_deps byName f) (n # fst st, snd st)"
    and dom: "dfs_dom (byName, formula_deps byName f, n # fst st, snd st)"
  from dfs_visits [OF dom] have "set (fst st) \<subseteq> set (fst st')" by (auto simp: st')
  then have "card (fst ` set byName - set (fst st')) \<le> card (fst ` set byName - set (fst st))"
    by (intro card_mono) auto
  then show "((byName, ns, fst st', snd st' @ [f]), byName, n # ns, st)
      \<in> (\<lambda>(byName, ns, st). card (fst ` set byName - set (fst st))) <*mlex*> measure (\<lambda>(byName, ns, st). length ns)"
    by (intro mlex_leq) simp_all
qed (auto intro: mlex_leq)

definition resolveFormulaDependencies :: "field_definition list \<Rightarrow> string list \<Rightarrow> field_definition list" where
  "resolveFormulaDependencies fs selected = snd (dfs (fields_by_name fs) selected ([], []))"

section \<open>Checking a formula when it is saved\<close>

text \<open>Quoted texts become blanks; \<open>q\<close> is the quote the scan is inside of.\<close>

definition is_quote_char :: "char \<Rightarrow> bool" where
  "is_quote_char c \<longleftrightarrow> char_code c = 34 \<or> char_code c = 39"

fun mask_literals :: "char option \<Rightarrow> string \<Rightarrow> string" where
  "mask_literals q [] = []"
| "mask_literals None (c # s) = (if is_quote_char c then CHR '' '' # mask_literals (Some c) s else c # mask_literals None s)"
| "mask_literals (Some q) [c] = (CHR '' '' # [])"
| "mask_literals (Some q) (c # d # s) =
     (if c = q then CHR '' '' # mask_literals None (d # s)
      else if char_code c = 92 then CHR '' '' # CHR '' '' # mask_literals (Some q) s
      else CHR '' '' # mask_literals (Some q) (d # s))"

definition maskStringLiterals :: "string \<Rightarrow> string" where
  "maskStringLiterals e = mask_literals None e"

text \<open>A chain of names joined by dots, from its first dot on.\<close>

function chain_tail :: "string \<Rightarrow> string" where
  "chain_tail (c # d # s) = (if c = CHR ''.'' \<and> is_id_start d
     then c # takeWhile is_id_char (d # s) @ chain_tail (dropWhile is_id_char (d # s)) else [])"
| "chain_tail [c] = []"
| "chain_tail [] = []"
  by pat_completeness auto
termination
  by (relation "measure length") (auto simp: is_id_char_def le_imp_less_Suc length_dropWhile_le less_Suc_eq_le intro: le_trans [OF length_dropWhile_le])

definition chain_match :: "string \<Rightarrow> string" where
  "chain_match s = takeWhile is_id_char s @ chain_tail (dropWhile is_id_char s)"

text \<open>The chains of a text, each with whether a parenthesis follows directly.\<close>

function scan_chains :: "string \<Rightarrow> (string \<times> bool) list" where
  "scan_chains [] = []"
| "scan_chains (c # s) =
     (if is_id_start c then
        (let m = chain_match (c # s); r = drop (length m) (c # s)
         in (m, r \<noteq> [] \<and> hd r = CHR ''('') # scan_chains r)
      else scan_chains s)"
  by pat_completeness auto
termination
  by (relation "measure length") (auto simp: chain_match_def is_id_char_def)

definition chain_error :: "registry \<Rightarrow> string list \<Rightarrow> string \<times> bool \<Rightarrow> string option" where
  "chain_error reg allowed ci =
     (let chain = fst ci; base = takeWhile (\<lambda>c. c \<noteq> CHR ''.'') chain
      in if base \<in> {''true'', ''false'', ''null''} \<or> base = ''Math'' then None
         else if snd ci then
           (if isCallableFunction reg chain \<or> isCallableFunction reg base then None
            else Some (''unknown function \"'' @ base @ ''\" in expression''))
         else if base \<in> set allowed then None
         else Some (''unknown field \"'' @ base @ ''\" in expression''))"

fun first_error :: "('a \<Rightarrow> 'b option) \<Rightarrow> 'a list \<Rightarrow> 'b option" where
  "first_error f [] = None"
| "first_error f (x # xs) = (case f x of None \<Rightarrow> first_error f xs | Some e \<Rightarrow> Some e)"

definition validateFormulaReferences :: "registry \<Rightarrow> string \<Rightarrow> field_definition list \<Rightarrow> string list \<Rightarrow> string option" where
  "validateFormulaReferences reg formula fs extraAllowed =
     first_error (chain_error reg (map fd_name fs @ extraAllowed)) (scan_chains (maskStringLiterals formula))"

end
