(* ===== verification/ComputedClaims.thy ===== *)
theory ComputedClaims
  imports Computed "HOL-Library.Multiset"
begin

text \<open>
  The two orders of \<open>computed.ts\<close>: where the formulas have no cycle, stored formulas come after the
  stored formulas they mention, and the search for virtual formulas gives exactly the formulas the
  selection needs, each after those it mentions.
\<close>

section \<open>Dependencies\<close>

definition mentions :: "field_definition \<Rightarrow> string \<Rightarrow> bool" where
  "mentions f n \<longleftrightarrow> n \<in> set (identifiers (formula_text f)) \<and> n \<noteq> fd_name f"

definition formula_graph :: "field_definition list \<Rightarrow> (string \<times> string) set" where
  "formula_graph fs = {(fd_name f, fd_name g) | f g. f \<in> set fs \<and> g \<in> set fs \<and> mentions f (fd_name g)}"

lemma formula_graph_finite: "finite (formula_graph fs)"
proof (rule finite_subset)
  show "formula_graph fs \<subseteq> fd_name ` set fs \<times> fd_name ` set fs" by (auto simp: formula_graph_def)
qed simp

lemma fields_by_name_lookup:
  assumes "distinct (map fd_name fs)"
  shows "map_of (fields_by_name fs) n = Some f \<longleftrightarrow> f \<in> set fs \<and> fd_name f = n"
proof -
  have "map_of (fields_by_name fs) n = map_of (map (\<lambda>f. (fd_name f, f)) fs) n"
    unfolding fields_by_name_def using assms by (subst amap_of_distinct) (simp_all add: comp_def)
  also have "\<dots> = Some f \<longleftrightarrow> (n, f) \<in> set (map (\<lambda>f. (fd_name f, f)) fs)"
    using assms by (intro map_of_eq_Some_iff) (simp add: comp_def)
  also have "\<dots> \<longleftrightarrow> f \<in> set fs \<and> fd_name f = n" by auto
  finally show ?thesis .
qed

section \<open>Stored formulas\<close>

lemma referencedNames_set: "set (referencedNames b s) = {n \<in> set (identifiers s). amap_has n b}"
  by (auto simp: referencedNames_def)

text \<open>The invariant of the rounds over the stored fields \<open>fs\<close>.\<close>

definition topo_ok :: "field_definition list \<Rightarrow> string list \<times> field_definition list \<Rightarrow> bool" where
  "topo_ok fs st \<longleftrightarrow> distinct (fst st) \<and> distinct (map fd_name (snd st)) \<and> set (snd st) \<subseteq> set fs \<and>
     set (fst st) \<union> fd_name ` set (snd st) = fd_name ` set fs \<and> set (fst st) \<inter> fd_name ` set (snd st) = {} \<and>
     sorted_wrt (\<lambda>f g. \<not> mentions f (fd_name g)) (snd st) \<and> (\<forall>f \<in> set (snd st). \<forall>n \<in> set (fst st). \<not> mentions f n)"

lemma the_field_of:
  assumes "distinct (map fd_name fs)" "n \<in> fd_name ` set fs"
  shows "the_field (fields_by_name fs) n \<in> set fs" "fd_name (the_field (fields_by_name fs) n) = n"
proof -
  obtain f where f: "f \<in> set fs" "fd_name f = n" using assms(2) by blast
  then have "the_field (fields_by_name fs) n = f"
    using fields_by_name_lookup [OF assms(1), of n f] by (simp add: the_field_def)
  with f show "the_field (fields_by_name fs) n \<in> set fs" "fd_name (the_field (fields_by_name fs) n) = n" by simp_all
qed

lemma has_field: "distinct (map fd_name fs) \<Longrightarrow> amap_has n (fields_by_name fs) \<longleftrightarrow> n \<in> fd_name ` set fs"
  using fields_by_name_lookup [of fs n] by (auto simp: amap_has_def)

lemma unmet_Nil:
  assumes "distinct (map fd_name fs)" "set r \<subseteq> fd_name ` set fs" "n \<in> fd_name ` set fs"
  shows "filter (\<lambda>d. d \<in> set r \<and> d \<noteq> n)
        (referencedNames (fields_by_name fs) (formula_text (the_field (fields_by_name fs) n))) = []
      \<longleftrightarrow> (\<forall>d \<in> set r. \<not> mentions (the_field (fields_by_name fs) n) d)"
  using assms the_field_of(2) [OF assms(1,3)]
  by (auto simp: filter_empty_conv referencedNames_set has_field mentions_def)

lemma topo_step_ok:
  assumes fs: "distinct (map fd_name fs)" and ok: "topo_ok fs st" and n: "n \<in> set (fst st)"
  shows "topo_ok fs (topo_step (fields_by_name fs) n st)"
proof -
  let ?f = "the_field (fields_by_name fs) n"
  have r: "set (fst st) \<subseteq> fd_name ` set fs" using ok by (auto simp: topo_ok_def)
  note f = the_field_of [OF fs subsetD [OF r n]]
  show ?thesis
  proof (cases "\<forall>d \<in> set (fst st). \<not> mentions ?f d")
    case True
    then have "topo_step (fields_by_name fs) n st = (removeAll n (fst st), snd st @ [?f])"
      using unmet_Nil [OF fs r subsetD [OF r n]] by (simp add: topo_step_def Let_def)
    moreover have "n \<notin> fd_name ` set (snd st)" using ok n by (auto simp: topo_ok_def)
    ultimately show ?thesis
      using ok f n True unfolding topo_ok_def by (auto simp: sorted_wrt_append distinct_removeAll)
  next
    case False
    then have "filter (\<lambda>d. d \<in> set (fst st) \<and> d \<noteq> n) (referencedNames (fields_by_name fs) (formula_text ?f)) \<noteq> []"
      using unmet_Nil [OF fs r subsetD [OF r n]] by blast
    then have "topo_step (fields_by_name fs) n st = st" by (simp only: topo_step_def Let_def if_False)
    with ok show ?thesis by simp
  qed
qed

lemma topo_step_left: "set (fst st) - {n} \<subseteq> set (fst (topo_step b n st))" "set (fst (topo_step b n st)) \<subseteq> set (fst st)"
  by (auto simp: topo_step_def Let_def)

lemma topo_steps_left: "set (fst (fold (topo_step b) ns st)) \<subseteq> set (fst st)"
  by (induction ns arbitrary: st) (use topo_step_left(2) in fastforce)+

lemma topo_steps_ok:
  "distinct (map fd_name fs) \<Longrightarrow> distinct ns \<Longrightarrow> set ns \<subseteq> set (fst st) \<Longrightarrow> topo_ok fs st \<Longrightarrow>
   topo_ok fs (fold (topo_step (fields_by_name fs)) ns st)"
proof (induction ns arbitrary: st)
  case (Cons n ns)
  then have "set ns \<subseteq> set (fst (topo_step (fields_by_name fs) n st))"
    using topo_step_left(1) [of st n "fields_by_name fs"] by auto
  with Cons topo_step_ok [of fs st n] show ?case by auto
qed simp

text \<open>A name without unmet dependencies leaves the round.\<close>

lemma topo_steps_emit:
  assumes fs: "distinct (map fd_name fs)" and "topo_ok fs st" "distinct ns" "set ns \<subseteq> set (fst st)" "n \<in> set ns"
    and free: "\<forall>d \<in> set (fst st). \<not> mentions (the_field (fields_by_name fs) n) d"
  shows "n \<notin> set (fst (fold (topo_step (fields_by_name fs)) ns st))"
  using assms(2-)
proof (induction ns arbitrary: st)
  case (Cons m ns)
  let ?st = "topo_step (fields_by_name fs) m st"
  show ?case
  proof (cases "m = n")
    case True
    have r: "set (fst st) \<subseteq> fd_name ` set fs" using Cons.prems(1) by (auto simp: topo_ok_def)
    have "n \<in> fd_name ` set fs" using r Cons.prems(3,4) by auto
    from unmet_Nil [OF fs r this] Cons.prems(5) have "n \<notin> set (fst ?st)" by (simp add: topo_step_def Let_def True)
    then show ?thesis using topo_steps_left [of "fields_by_name fs" ns ?st] by auto
  next
    case False
    have "set ns \<subseteq> set (fst ?st)" using topo_step_left(1) [of st m "fields_by_name fs"] Cons.prems by auto
    moreover have "topo_ok fs ?st" using topo_step_ok [OF fs Cons.prems(1)] Cons.prems(3) by simp
    moreover have "\<forall>d \<in> set (fst ?st). \<not> mentions (the_field (fields_by_name fs) n) d"
      using topo_step_left(2) [of "fields_by_name fs" m st] Cons.prems(5) by auto
    ultimately show ?thesis using Cons.IH [of ?st] Cons.prems(2,4) False by simp
  qed
qed simp

lemma free_name:
  assumes "acyclic (formula_graph fs)" "distinct (map fd_name fs)" "r \<noteq> []" "set r \<subseteq> fd_name ` set fs"
  shows "\<exists>n \<in> set r. \<forall>d \<in> set r. \<not> mentions (the_field (fields_by_name fs) n) d"
proof -
  have "wf ((formula_graph fs)\<inverse>)" using assms(1) formula_graph_finite finite_acyclic_wf_converse by blast
  then obtain n where n: "n \<in> set r" "\<And>d. (d, n) \<in> (formula_graph fs)\<inverse> \<Longrightarrow> d \<notin> set r"
    using assms(3) by (metis wfE_min last_in_set)
  have "\<not> mentions (the_field (fields_by_name fs) n) d" if "d \<in> set r" for d
  proof
    assume m: "mentions (the_field (fields_by_name fs) n) d"
    note f = the_field_of [OF assms(2) subsetD [OF assms(4) n(1)]]
    note g = the_field_of [OF assms(2) subsetD [OF assms(4) that]]
    from f g m have "(n, d) \<in> formula_graph fs" unfolding formula_graph_def by force
    with n(2) that show False by simp
  qed
  with n(1) show ?thesis by blast
qed

lemma same_fields:
  assumes "distinct (map fd_name fs)" "distinct (map fd_name ps)" "set ps \<subseteq> set fs" "fd_name ` set ps = fd_name ` set fs"
  shows "distinct ps \<and> set ps = set fs"
proof -
  have "inj_on fd_name (set fs)" using assms(1) by (simp add: distinct_map)
  from inj_on_image_eq_iff [OF this assms(3) subset_refl] assms(2,4) show ?thesis by (simp add: distinct_map)
qed

lemma topo_loop_ok:
  assumes fs: "distinct (map fd_name fs)"
  shows "topo_ok fs (r, ps) \<Longrightarrow> distinct (topo_loop (fields_by_name fs) r ps) \<and> set (topo_loop (fields_by_name fs) r ps) = set fs \<and>
     (acyclic (formula_graph fs) \<longrightarrow> sorted_wrt (\<lambda>f g. \<not> mentions f (fd_name g)) (topo_loop (fields_by_name fs) r ps))"
proof (induction "fields_by_name fs" r ps rule: topo_loop.induct)
  case (1 r ps)
  let ?b = "fields_by_name fs"
  show ?case
  proof (cases "r = []")
    case True
    then have "set ps \<subseteq> set fs" "fd_name ` set ps = fd_name ` set fs" "distinct (map fd_name ps)"
      "sorted_wrt (\<lambda>f g. \<not> mentions f (fd_name g)) ps" using 1(2) by (auto simp: topo_ok_def distinct_map)
    with same_fields [OF fs] True show ?thesis by (simp add: topo_loop.simps)
  next
    case False
    let ?st = "topo_round ?b (r, ps)"
    have r: "distinct r" "set r \<subseteq> fd_name ` set fs" using 1(2) by (auto simp: topo_ok_def)
    have st: "topo_ok fs (fst ?st, snd ?st)" using topo_steps_ok [OF fs, of r "(r, ps)"] 1(2) r by (simp add: topo_round_def)
    show ?thesis
    proof (cases "length (fst ?st) < length r")
      case True
      from 1(1) [OF False refl True st] False True show ?thesis by (subst (1 2 3) topo_loop.simps) (simp add: Let_def)
    next
      case stuck: False
      have "\<not> acyclic (formula_graph fs)"
      proof
        assume "acyclic (formula_graph fs)"
        then obtain n where n: "n \<in> set r" "\<forall>d \<in> set r. \<not> mentions (the_field ?b n) d"
          using free_name [OF _ fs False r(2)] by blast
        have "n \<notin> set (fst ?st)" using topo_steps_emit [OF fs 1(2), of r n] n r by (simp add: topo_round_def)
        moreover have "set (fst ?st) \<subseteq> set r" using topo_steps_left [of ?b r "(r, ps)"] by (simp add: topo_round_def)
        ultimately have "card (set (fst ?st)) < card (set r)" using n(1) by (intro psubset_card_mono) auto
        then show False using stuck r(1) st by (simp add: topo_ok_def distinct_card)
      qed
      moreover have "distinct (ps @ map (the_field ?b) r) \<and> set (ps @ map (the_field ?b) r) = set fs"
      proof -
        have nm: "map fd_name (ps @ map (the_field ?b) r) = map fd_name ps @ r"
          using the_field_of(2) [OF fs subsetD [OF r(2)]] by (simp add: map_idI)
        then have "distinct (map fd_name (ps @ map (the_field ?b) r))" using 1(2) unfolding nm topo_ok_def by auto
        moreover have "fd_name ` set (ps @ map (the_field ?b) r) = set (map fd_name ps @ r)"
          unfolding nm [symmetric] by (simp only: set_map)
        then have "fd_name ` set (ps @ map (the_field ?b) r) = fd_name ` set fs" using 1(2) unfolding topo_ok_def by auto
        moreover have "set (ps @ map (the_field ?b) r) \<subseteq> set fs"
          using 1(2) the_field_of(1) [OF fs subsetD [OF r(2)]] by (auto simp: topo_ok_def)
        ultimately show ?thesis by (intro same_fields [OF fs])
      qed
      ultimately show ?thesis using False stuck by (subst (1 2 3) topo_loop.simps) (simp add: Let_def)
    qed
  qed
qed

lemma uniq_acc_id: "distinct xs \<Longrightarrow> set seen \<inter> set xs = {} \<Longrightarrow> uniq_acc seen xs = xs"
  by (induction xs arbitrary: seen) auto

lemma uniq_id: "distinct xs \<Longrightarrow> uniq xs = xs"
  by (simp add: uniq_def uniq_acc_id)

lemma stored_formulas_distinct: "distinct (map fd_name fs) \<Longrightarrow> distinct (map fd_name (stored_formulas fs))"
  by (simp add: stored_formulas_def distinct_map_filter)

text \<open>
  C16. The order in which stored formulas are computed is a permutation of the stored formulas of the
  schema, and where their references have no cycle no formula comes before one it mentions.
\<close>

theorem stored_formulas_in_dependency_order:
  assumes "distinct (map fd_name fs)"
  shows "mset (topoSortStoredFormulas fs) = mset (stored_formulas fs) \<and>
    (acyclic (formula_graph (stored_formulas fs)) \<longrightarrow>
      sorted_wrt (\<lambda>f g. \<not> mentions f (fd_name g)) (topoSortStoredFormulas fs))"
proof (cases "length (stored_formulas fs) \<le> 1")
  case True
  then obtain l where "stored_formulas fs = l" "l = [] \<or> (\<exists>f. l = [f])" by (cases "stored_formulas fs") auto
  then show ?thesis by (auto simp: topoSortStoredFormulas_def Let_def)
next
  case False
  let ?s = "stored_formulas fs" and ?t = "topoSortStoredFormulas fs"
  note d = stored_formulas_distinct [OF assms]
  have t: "?t = topo_loop (fields_by_name ?s) (map fd_name ?s) []"
    using False uniq_id [OF d] by (simp add: topoSortStoredFormulas_def Let_def)
  have "topo_ok ?s (map fd_name ?s, [])" using d by (simp add: topo_ok_def)
  note ok = topo_loop_ok [OF d this, folded t]
  moreover have "distinct ?s" using d by (simp add: distinct_map)
  ultimately show ?thesis using set_eq_iff_mset_eq_distinct by blast
qed

section \<open>Virtual formulas\<close>

definition all_formulas :: "field_definition list \<Rightarrow> field_definition list" where
  "all_formulas fs = filter (\<lambda>f. fd_type f = ''formula'' \<and> formula_of f \<noteq> None) fs"

lemma formula_field_iff:
  assumes "distinct (map fd_name fs)"
  shows "formula_field (fields_by_name fs) n = Some f \<longleftrightarrow> f \<in> set (all_formulas fs) \<and> fd_name f = n"
proof -
  have "formula_field (fields_by_name fs) n = Some f \<longleftrightarrow>
      map_of (fields_by_name fs) n = Some f \<and> fd_type f = ''formula'' \<and> formula_of f \<noteq> None"
    by (auto simp: formula_field_def split: option.splits)
  then show ?thesis unfolding fields_by_name_lookup [OF assms] all_formulas_def by auto
qed

lemma formula_deps_set:
  assumes "distinct (map fd_name fs)" "f \<in> set (all_formulas fs)"
  shows "set (formula_deps (fields_by_name fs) f) - {fd_name f} = {n. (fd_name f, n) \<in> formula_graph (all_formulas fs)}" (is "?l = ?r")
proof -
  have "formula_field (fields_by_name fs) n \<noteq> None \<longleftrightarrow> n \<in> fd_name ` set (all_formulas fs)" for n
    using formula_field_iff [OF assms(1)] by force
  then have "?l = {n \<in> fd_name ` set (all_formulas fs). mentions f n}" by (auto simp: formula_deps_def mentions_def)
  also have "\<dots> = ?r"
  proof -
    have "f = g" if "g \<in> set (all_formulas fs)" "fd_name g = fd_name f" for g
      using formula_field_iff [OF assms(1)] that assms(2) by (metis option.inject)
    then show ?thesis using assms(2) unfolding formula_graph_def by auto
  qed
  finally show ?thesis .
qed

text \<open>
  What the search has emitted: formulas of the schema, each after the formulas it mentions. A name
  that is visited and not emitted is one the search is still inside of.
\<close>

definition dfs_ok :: "field_definition list \<Rightarrow> string list \<times> field_definition list \<Rightarrow> bool" where
  "dfs_ok fs st \<longleftrightarrow> set (snd st) \<subseteq> set (all_formulas fs) \<and> distinct (map fd_name (snd st)) \<and> fd_name ` set (snd st) \<subseteq> set (fst st) \<and>
     (\<forall>i < length (snd st). \<forall>n. (fd_name (snd st ! i), n) \<in> formula_graph (all_formulas fs) \<longrightarrow> n \<in> fd_name ` set (take i (snd st)))"

definition inside :: "string list \<times> field_definition list \<Rightarrow> string set" where
  "inside st = set (fst st) - fd_name ` set (snd st)"

definition below :: "field_definition list \<Rightarrow> string set \<Rightarrow> string list \<Rightarrow> bool" where
  "below fs gs ns \<longleftrightarrow> (\<forall>g \<in> gs. \<forall>n \<in> set ns. g = n \<or> (g, n) \<in> (formula_graph (all_formulas fs))\<^sup>+)"

lemma dfs_push:
  assumes "dfs_ok fs (vis, ps)" "f \<in> set (all_formulas fs)" "fd_name f \<in> set vis" "fd_name f \<notin> fd_name ` set ps"
    "{n. (fd_name f, n) \<in> formula_graph (all_formulas fs)} \<subseteq> fd_name ` set ps"
  shows "dfs_ok fs (vis, ps @ [f])"
  using assms unfolding dfs_ok_def by (auto simp: nth_append less_Suc_eq)

lemma dfs_spec:
  assumes fs: "distinct (map fd_name fs)" and ac: "acyclic (formula_graph (all_formulas fs))"
  shows "dfs_ok fs st \<Longrightarrow> below fs (inside st) ns \<Longrightarrow>
    dfs_ok fs (dfs (fields_by_name fs) ns st) \<and> inside (dfs (fields_by_name fs) ns st) = inside st \<and>
    set (fst st) \<subseteq> set (fst (dfs (fields_by_name fs) ns st)) \<and>
    {n \<in> set ns. formula_field (fields_by_name fs) n \<noteq> None} \<subseteq> set (fst (dfs (fields_by_name fs) ns st)) \<and>
    set (fst (dfs (fields_by_name fs) ns st)) - set (fst st) \<subseteq>
      (formula_graph (all_formulas fs))\<^sup>* `` {n \<in> set ns. formula_field (fields_by_name fs) n \<noteq> None}"
proof (induction "fields_by_name fs" ns st rule: dfs.induct)
  case (2 n ns st)
  let ?G = "formula_graph (all_formulas fs)" and ?b = "fields_by_name fs"
  have tl: "below fs (inside st) ns" using 2(6) by (auto simp: below_def)
  show ?case
  proof (cases "formula_field ?b n")
    case None
    then have "{m \<in> set (n # ns). formula_field ?b m \<noteq> None} = {m \<in> set ns. formula_field ?b m \<noteq> None}" by auto
    with 2(1) [OF None 2(5) tl] None show ?thesis by (simp only: dfs.simps option.case)
  next
    case (Some f)
    show ?thesis
    proof (cases "n \<in> set (fst st)")
      case True
      have sub: "{m \<in> set ns. formula_field ?b m \<noteq> None} \<subseteq> {m \<in> set (n # ns). formula_field ?b m \<noteq> None}" by auto
      have res: "dfs ?b (n # ns) st = dfs ?b ns st" using Some True by simp
      from 2(2) [OF Some True 2(5) tl] Image_mono [OF subset_refl sub, of "?G\<^sup>*"] True show ?thesis
        unfolding res by (intro conjI) (simp_all, blast+)
    next
      case False
      let ?st1 = "(n # fst st, snd st)"
      define st2 where "st2 = dfs ?b (formula_deps ?b f) ?st1"
      have f: "f \<in> set (all_formulas fs)" "fd_name f = n" using Some formula_field_iff [OF fs] by auto
      note deps = formula_deps_set [OF fs f(1), unfolded f(2)]
      have ok1: "dfs_ok fs ?st1" using 2(5) by (auto simp: dfs_ok_def)
      have in1: "inside ?st1 = insert n (inside st)" using False 2(5) by (auto simp: inside_def dfs_ok_def)
      have "below fs (inside ?st1) (formula_deps ?b f)"
        unfolding below_def in1
      proof (intro ballI)
        fix g d assume g: "g \<in> insert n (inside st)" and d: "d \<in> set (formula_deps ?b f)"
        then have "d = n \<or> (n, d) \<in> ?G" using deps by auto
        moreover have "g = n \<or> (g, n) \<in> ?G\<^sup>+" using g 2(6) by (auto simp: below_def)
        ultimately show "g = d \<or> (g, d) \<in> ?G\<^sup>+" by (auto intro: trancl_into_trancl)
      qed
      note ih1 = 2(3) [OF Some False ok1 this, folded st2_def]
      have "{d. (n, d) \<in> ?G} \<subseteq> fd_name ` set (snd st2)"
      proof
        fix d assume "d \<in> {d. (n, d) \<in> ?G}"
        then have d: "(n, d) \<in> ?G" by simp
        have ne: "d \<noteq> n" using d by (auto simp: formula_graph_def mentions_def)
        have "d \<in> set (formula_deps ?b f)" using deps d by auto
        moreover have "formula_field ?b d \<noteq> None" using d formula_field_iff [OF fs] unfolding formula_graph_def by fastforce
        ultimately have v: "d \<in> set (fst st2)" using ih1 by blast
        have "d \<notin> inside st2"
        proof
          assume "d \<in> inside st2"
          then have "d \<in> inside st" using ih1 in1 ne by auto
          then have "(d, n) \<in> ?G\<^sup>+" using 2(6) ne by (auto simp: below_def)
          then have "(n, n) \<in> ?G\<^sup>+" using d by (rule trancl_into_trancl2 [rotated])
          with ac show False by (auto simp: acyclic_def)
        qed
        with v show "d \<in> fd_name ` set (snd st2)" by (auto simp: inside_def)
      qed
      moreover have n2: "n \<in> inside st2" using ih1 in1 by auto
      ultimately have ok3: "dfs_ok fs (fst st2, snd st2 @ [f])"
        using dfs_push [of fs "fst st2" "snd st2" f] ih1 f by (auto simp: inside_def)
      have in3: "inside (fst st2, snd st2 @ [f]) = inside st" using ih1 in1 f(2) False by (auto simp: inside_def)
      have "below fs (inside (fst st2, snd st2 @ [f])) ns" using tl in3 by simp
      note ih2 = 2(4) [OF Some False st2_def ok3 this]
      let ?res = "dfs ?b ns (fst st2, snd st2 @ [f])"
      have res: "dfs ?b (n # ns) st = ?res" using Some False by (simp add: st2_def Let_def)
      have step: "?G\<^sup>* `` {d \<in> set (formula_deps ?b f). formula_field ?b d \<noteq> None} \<subseteq> ?G\<^sup>* `` {n}"
      proof
        fix y assume "y \<in> ?G\<^sup>* `` {d \<in> set (formula_deps ?b f). formula_field ?b d \<noteq> None}"
        then obtain d where d: "d \<in> set (formula_deps ?b f)" "(d, y) \<in> ?G\<^sup>*" by blast
        have "d = n \<or> (n, d) \<in> ?G" using d(1) deps by auto
        with d(2) show "y \<in> ?G\<^sup>* `` {n}" by (auto intro: converse_rtrancl_into_rtrancl)
      qed
      have "set (fst ?res) - set (fst st) \<subseteq> (set (fst ?res) - set (fst st2)) \<union> (set (fst st2) - set (fst ?st1)) \<union> {n}" by auto
      also have "\<dots> \<subseteq> ?G\<^sup>* `` {m \<in> set ns. formula_field ?b m \<noteq> None} \<union> ?G\<^sup>* `` {n}"
      proof (intro Un_least)
        show "set (fst ?res) - set (fst st2) \<subseteq> ?G\<^sup>* `` {m \<in> set ns. formula_field ?b m \<noteq> None} \<union> ?G\<^sup>* `` {n}"
          using ih2 by (metis (no_types, lifting) fst_conv le_supI1)
        show "set (fst st2) - set (fst ?st1) \<subseteq> ?G\<^sup>* `` {m \<in> set ns. formula_field ?b m \<noteq> None} \<union> ?G\<^sup>* `` {n}"
          using ih1 step by (metis (no_types, lifting) le_supI2 order_trans)
      qed auto
      also have "\<dots> \<subseteq> ?G\<^sup>* `` {m \<in> set (n # ns). formula_field ?b m \<noteq> None}" using Some by (intro Un_least Image_mono) auto
      finally have reach: "set (fst ?res) - set (fst st) \<subseteq> \<dots>" .
      have sub: "insert n (set (fst st)) \<subseteq> set (fst ?res)" using ih1 ih2 by auto
      have named: "{m \<in> set (n # ns). formula_field ?b m \<noteq> None} \<subseteq> set (fst ?res)" using ih2 sub by auto
      define R where "R = ?res"
      have "dfs_ok fs R" "inside R = inside st" using ih2 in3 unfolding R_def by blast+
      moreover have "set (fst st) \<subseteq> set (fst R)" using sub unfolding R_def by blast
      ultimately show ?thesis
        unfolding res R_def [symmetric] by (intro conjI) (use reach named in \<open>simp_all only: R_def\<close>)
    qed
  qed
qed (auto simp: Image_def)

text \<open>
  Where the formulas of a schema have no cycle, the virtual formulas that are computed for a
  selection are exactly the formulas selected and those they mention, directly or through others,
  each once and after every formula it mentions.
\<close>

theorem virtual_formulas_complete_and_ordered:
  fixes fs :: "field_definition list" and selected :: "string list"
  assumes "distinct (map fd_name fs)" "acyclic (formula_graph (all_formulas fs))"
  defines "out \<equiv> resolveFormulaDependencies fs selected"
  shows "set out \<subseteq> set (all_formulas fs) \<and> distinct (map fd_name out) \<and>
    fd_name ` set out = (formula_graph (all_formulas fs))\<^sup>* `` (set selected \<inter> fd_name ` set (all_formulas fs)) \<and>
    (\<forall>i < length out. \<forall>n. (fd_name (out ! i), n) \<in> formula_graph (all_formulas fs) \<longrightarrow> n \<in> fd_name ` set (take i out))"
proof -
  let ?G = "formula_graph (all_formulas fs)" and ?b = "fields_by_name fs"
  define st where "st = dfs ?b selected ([], [])"
  have start: "dfs_ok fs ([], [])" "below fs (inside ([], [])) selected" by (auto simp: dfs_ok_def below_def inside_def)
  note spec = dfs_spec [OF assms(1,2) start, folded st_def]
  have out: "out = snd st" by (simp add: out_def resolveFormulaDependencies_def st_def)
  have names: "fd_name ` set out = set (fst st)" using spec unfolding out by (auto simp: inside_def dfs_ok_def)
  have sel: "{n \<in> set selected. formula_field ?b n \<noteq> None} = set selected \<inter> fd_name ` set (all_formulas fs)"
    using formula_field_iff [OF assms(1)] by force
  have closed: "?G `` set (fst st) \<subseteq> set (fst st)"
  proof
    fix n assume "n \<in> ?G `` set (fst st)"
    then obtain f where f: "f \<in> set out" "(fd_name f, n) \<in> ?G" unfolding names [symmetric] by auto
    then obtain i where "i < length out" "out ! i = f" by (auto simp: in_set_conv_nth)
    then have "n \<in> fd_name ` set (take i out)" using f(2) spec unfolding out dfs_ok_def by blast
    then show "n \<in> set (fst st)" unfolding names [symmetric] by (auto dest: in_set_takeD)
  qed
  have "?G\<^sup>* `` set (fst st) = set (fst st)" using closed by (rule Image_closed_trancl)
  then have "?G\<^sup>* `` (set selected \<inter> fd_name ` set (all_formulas fs)) \<subseteq> set (fst st)" using spec unfolding sel by blast
  moreover have "set (fst st) \<subseteq> ?G\<^sup>* `` (set selected \<inter> fd_name ` set (all_formulas fs))" using spec unfolding sel by simp
  ultimately have "fd_name ` set out = ?G\<^sup>* `` (set selected \<inter> fd_name ` set (all_formulas fs))" unfolding names by blast
  with spec show ?thesis unfolding out dfs_ok_def by blast
qed

section \<open>Witnesses\<close>

definition ex_formula :: "string \<Rightarrow> string \<Rightarrow> bool \<Rightarrow> field_definition" where
  "ex_formula name formula store = (plain_field name ''formula'')\<lparr>fd_formula := Some formula, fd_store := store\<rparr>"

definition ex_invoice :: "bool \<Rightarrow> field_definition list" where
  "ex_invoice store = [plain_field ''qty'' ''integer'', ex_formula ''grand'' ''total * 1.1'' store, ex_formula ''total'' ''qty * rate'' store]"

lemma ex_names: "distinct (map fd_name (ex_invoice store))"
  by (cases store) code_simp+

lemma ex_selected: "set [''grand''] \<inter> fd_name ` set (all_formulas (ex_invoice False)) = {''grand''}"
proof -
  have "map fd_name (all_formulas (ex_invoice False)) = [''grand'', ''total'']" by code_simp
  then have "fd_name ` set (all_formulas (ex_invoice False)) = {''grand'', ''total''}" by (metis list.set set_map)
  then show ?thesis by auto
qed

definition graph_edges :: "field_definition list \<Rightarrow> (string \<times> string) list" where
  "graph_edges fs = concat (map (\<lambda>f. map (\<lambda>g. (fd_name f, fd_name g)) (filter (\<lambda>g. mentions f (fd_name g)) fs)) fs)"

lemma graph_code: "formula_graph fs = set (graph_edges fs)"
  by (auto simp: formula_graph_def graph_edges_def)

lemma ex_edges:
  "graph_edges (stored_formulas (ex_invoice True)) = [(''grand'', ''total'')]"
  "graph_edges (all_formulas (ex_invoice False)) = [(''grand'', ''total'')]"
  by code_simp+

lemma ex_graph:
  "formula_graph (stored_formulas (ex_invoice True)) = {(''grand'', ''total'')}"
  "formula_graph (all_formulas (ex_invoice False)) = {(''grand'', ''total'')}"
  by (simp_all only: graph_code ex_edges list.set)

lemma stored_formulas_in_dependency_order_witness:
  "map fd_name (topoSortStoredFormulas (ex_invoice True)) = [''total'', ''grand''] \<and>
   sorted_wrt (\<lambda>f g. \<not> mentions f (fd_name g)) (topoSortStoredFormulas (ex_invoice True))"
proof -
  have "acyclic (formula_graph (stored_formulas (ex_invoice True)))" unfolding ex_graph by (simp add: wf_acyclic)
  with stored_formulas_in_dependency_order [OF ex_names, of True]
  have "sorted_wrt (\<lambda>f g. \<not> mentions f (fd_name g)) (topoSortStoredFormulas (ex_invoice True))" by blast
  moreover have "map fd_name (topoSortStoredFormulas (ex_invoice True)) = [''total'', ''grand'']" by code_simp
  ultimately show ?thesis by blast
qed

lemma virtual_formulas_complete_and_ordered_witness:
  "map fd_name (resolveFormulaDependencies (ex_invoice False) [''grand'']) = [''total'', ''grand''] \<and>
   fd_name ` set (resolveFormulaDependencies (ex_invoice False) [''grand'']) = {(''grand'', ''total'')}\<^sup>* `` {''grand''}"
proof -
  have "acyclic (formula_graph (all_formulas (ex_invoice False)))" unfolding ex_graph by (simp add: wf_acyclic)
  from virtual_formulas_complete_and_ordered [OF ex_names this, of "[''grand'']"]
  have "fd_name ` set (resolveFormulaDependencies (ex_invoice False) [''grand'']) = {(''grand'', ''total'')}\<^sup>* `` {''grand''}"
    unfolding ex_graph ex_selected by blast
  moreover have "map fd_name (resolveFormulaDependencies (ex_invoice False) [''grand'']) = [''total'', ''grand'']" by code_simp
  ultimately show ?thesis by blast
qed

end
