(* ===== verification/FieldUtils.thy ===== *)
theory FieldUtils
  imports Computed SchemaBuilder Html Utils
begin

text \<open>
  \<open>packages/core/src/entity/field-utils.ts\<close>: the columns of a schema, the split of a request body into
  columns and \<open>_meta\<close>, the way back, the coercion of values and the document-status machine. The
  next random UUID for a field and \<open>JSON.parse\<close> are parameters. Field types and statuses are names
  of the schema, never names that \<open>Object.prototype\<close> has.
\<close>

section \<open>Columns\<close>

definition tb_text_nullable :: "string \<Rightarrow> table_builder \<Rightarrow> table_builder res" where
  "tb_text_nullable n b = bindR (tb_text n b) (\<lambda>b. Inr (tb_nullable b))"

definition no_column :: "string \<Rightarrow> table_builder \<Rightarrow> table_builder res" where
  "no_column n b = Inr b"

definition m2a_pair :: "string \<Rightarrow> table_builder \<Rightarrow> table_builder res" where
  "m2a_pair n b = bindR (tb_text_nullable (n @ ''_type'') b) (tb_text_nullable (n @ ''_id''))"

definition FIELD_TYPE_MAP :: "(string \<times> (string \<Rightarrow> table_builder \<Rightarrow> table_builder res)) list" where
  "FIELD_TYPE_MAP = [
     (''text'', tb_text), (''integer'', tb_integer), (''number'', tb_real),
     (''boolean'', tb_boolean), (''timestamp'', tb_timestamp), (''json'', tb_json),
     (''slug'', tb_text), (''m2o'', tb_text_nullable), (''o2m'', no_column),
     (''m2m'', no_column), (''table'', no_column), (''file'', tb_text_nullable),
     (''image'', tb_text_nullable), (''currency'', tb_real), (''percent'', tb_real),
     (''select'', tb_text), (''color'', tb_text), (''password'', tb_text),
     (''location'', tb_json), (''longtext'', tb_text_nullable), (''rating'', tb_real),
     (''bigint'', tb_integer), (''csv'', tb_json), (''uuid'', tb_text),
     (''m2a'', m2a_pair), (''formula'', no_column), (''text_editor'', tb_text_nullable),
     (''code'', tb_text_nullable), (''markdown'', tb_text_nullable), (''signature'', tb_text_nullable),
     (''duration'', tb_integer), (''barcode'', tb_text_nullable), (''time'', tb_text),
     (''date'', tb_date), (''datetime'', tb_timestamp), (''phone'', tb_text_nullable),
     (''email'', tb_text_nullable), (''url'', tb_text_nullable), (''icon'', tb_text_nullable),
     (''tags'', tb_json), (''progress'', tb_integer)]"

definition set_default :: "jsval option \<Rightarrow> table_builder \<Rightarrow> table_builder" where
  "set_default d b = (case d of
     Some (Str s) \<Rightarrow> tb_default (Inr s) b
   | Some (Num x) \<Rightarrow> tb_default (Inl x) b
   | Some (Bool t) \<Rightarrow> tb_default (Inl (if t then Fin 1 else Fin 0)) b
   | _ \<Rightarrow> b)"

definition stored_formula_column :: "field_definition \<Rightarrow> table_builder \<Rightarrow> table_builder res" where
  "stored_formula_column f b =
     (let rt = formulaResultType f
      in bindR (if rt = ''boolean'' then tb_integer (fd_name f) b
                else if rt = ''number'' then tb_real (fd_name f) b
                else tb_text (fd_name f) b) (\<lambda>b. Inr (tb_nullable b)))"

definition plain_column :: "field_definition \<Rightarrow> table_builder \<Rightarrow> table_builder res" where
  "plain_column f b = (case map_of FIELD_TYPE_MAP (fd_type f) of
     None \<Rightarrow> throw (''Unsupported field type: \"'' @ fd_type f @ ''\" for field \"'' @ fd_name f @ ''\"'')
   | Some builder \<Rightarrow> bindR (builder (fd_name f) b) (\<lambda>b.
       Inr (set_default (fd_default f) (if fd_required f = Some False then tb_nullable b else b))))"

definition apply_field :: "field_definition \<Rightarrow> table_builder \<Rightarrow> table_builder res" where
  "apply_field f b = bindR (sanitizeIdentifier (fd_name f) (''field.'' @ fd_name f)) (\<lambda>columnName.
     bindR (if fd_type f = ''formula'' \<and> fd_store f then stored_formula_column f b else plain_column f b) (\<lambda>b.
       let b = (if flag (fd_index f) then tb_index b else b)
       in Inr (if flag (fd_unique f) then tb_unique b else b)))"

definition add_if :: "bool \<Rightarrow> (table_builder \<Rightarrow> table_builder res) \<Rightarrow> table_builder \<Rightarrow> table_builder res" where
  "add_if c f b = (if c then f b else Inr b)"

definition tb_now :: "string \<Rightarrow> table_builder \<Rightarrow> table_builder res" where
  "tb_now n b = bindR (tb_timestamp n b) (\<lambda>b. Inr (tb_defaultRaw ''CURRENT_TIMESTAMP'' b))"

definition applySystemColumns :: "system_field_options \<Rightarrow> table_builder \<Rightarrow> table_builder res" where
  "applySystemColumns opts b =
     bindR (add_if (system_option opts ''doc_status'')
              (\<lambda>b. bindR (tb_text ''doc_status'' b) (\<lambda>b. Inr (tb_default (Inr ''draft'') b))) b) (\<lambda>b.
     bindR (add_if (system_option opts ''display_number'') (tb_text_nullable ''display_number'') b) (\<lambda>b.
     bindR (add_if (system_option opts ''_owner'') (tb_text_nullable ''_owner'') b) (\<lambda>b.
     bindR (add_if (system_option opts ''deleted_at'') (tb_text_nullable ''deleted_at'') b) (\<lambda>b.
     bindR (add_if (system_option opts ''deleted_by'') (tb_text_nullable ''deleted_by'') b) (\<lambda>b.
     bindR (tb_text_nullable ''_meta'' b) (\<lambda>b.
     bindR (add_if (system_option opts ''created_by'') (tb_text_nullable ''created_by'') b) (\<lambda>b.
     bindR (add_if (system_option opts ''updated_by'') (tb_text_nullable ''updated_by'') b) (\<lambda>b.
     bindR (tb_now ''created_at'' b) (\<lambda>b.
     tb_now ''updated_at'' b)))))))))"

text \<open>\<open>withSystemColumns\<close>: \<open>None\<close> is \<open>false\<close>, \<open>true\<close> is no option given.\<close>

definition applyFieldDefinitions :: "field_definition list \<Rightarrow> system_field_options option \<Rightarrow> table_builder \<Rightarrow> table_builder res" where
  "applyFieldDefinitions fs withSystemColumns b = bindR (foldR apply_field fs b) (\<lambda>b.
     case withSystemColumns of None \<Rightarrow> Inr b | Some opts \<Rightarrow> applySystemColumns opts b)"

definition VIRTUAL_FIELD_TYPES :: "string list" where
  "VIRTUAL_FIELD_TYPES = [''o2m'', ''m2m'', ''table'']"

definition isVirtualField :: "field_definition \<Rightarrow> bool" where
  "isVirtualField f \<longleftrightarrow> (if fd_type f = ''formula'' then \<not> fd_store f else fd_type f \<in> set VIRTUAL_FIELD_TYPES)"

definition physical_columns :: "field_definition \<Rightarrow> string list" where
  "physical_columns f = (if isVirtualField f then []
     else if fd_type f = ''m2a'' then [fd_name f @ ''_type'', fd_name f @ ''_id''] else [fd_name f])"

definition physicalColumnNames :: "field_definition list \<Rightarrow> string list" where
  "physicalColumnNames fs = concat (map physical_columns fs)"

definition buildSystemColumnsList :: "system_field_options \<Rightarrow> string list" where
  "buildSystemColumnsList opts = [''id'', ''_meta'', ''created_at'', ''updated_at''] @
     filter (system_option opts) [''doc_status'', ''display_number'', ''_owner'', ''deleted_at'', ''created_by'', ''updated_by'', ''deleted_by'']"

section \<open>Coercion\<close>

definition field_error :: "string \<Rightarrow> 'a res" where
  "field_error msg = Inl (JsError ''ValidationError'' msg)"

definition coerce_boolean :: "jsval \<Rightarrow> jsnum" where
  "coerce_boolean value = (case value of
     Bool b \<Rightarrow> if b then Fin 1 else Fin 0
   | _ \<Rightarrow> if strict_eq value (Num (Fin 1)) then Fin 1
          else if strict_eq value (Num (Fin 0)) then Fin 0
          else if to_lower (trim (to_str value)) \<in> {''true'', ''1''} then Fin 1 else Fin 0)"

definition coerce_uuid :: "string \<Rightarrow> jsval \<Rightarrow> jsval res" where
  "coerce_uuid msg value = (if \<not> UUID_V4_RE (to_str value) then field_error (msg @ ''\"'' @ to_str value @ ''\"'')
     else Inr (Str (to_str value)))"

definition coerceValue :: "jsval \<Rightarrow> string \<Rightarrow> jsval res" where
  "coerceValue value fieldType =
     (if is_nullish value then Inr Null
      else if fieldType = ''integer'' then Inr (Num (if to_num value = NaN then Fin 0 else num_floor (to_num value)))
      else if fieldType = ''number'' then
        (if to_num value = NaN then field_error (''Invalid number value: \"'' @ to_str value @ ''\"'') else Inr (Num (to_num value)))
      else if fieldType = ''boolean'' then Inr (Num (coerce_boolean value))
      else if fieldType = ''json'' then Inr (case value of Str s \<Rightarrow> Str s | _ \<Rightarrow> json_stringify value)
      else if fieldType = ''uuid'' then coerce_uuid ''Invalid UUID value: '' value
      else if fieldType = ''m2o'' then coerce_uuid ''Invalid m2o foreign key UUID: '' value
      else Inr (Str (to_str value)))"

section \<open>Splitting and merging rows\<close>

definition m2a_columns :: "field_definition list \<Rightarrow> string list" where
  "m2a_columns fs = concat (map (\<lambda>f. if fd_type f = ''m2a'' then [fd_name f @ ''_type'', fd_name f @ ''_id''] else []) fs)"

definition schema_types :: "field_definition list \<Rightarrow> (string, string) amap" where
  "schema_types fs = amap_of (map (\<lambda>f. (fd_name f, fd_type f)) fs)"

definition coerce_field :: "jsval \<Rightarrow> string \<Rightarrow> jsval res" where
  "coerce_field value fieldType = bindR (coerceValue value fieldType) (\<lambda>v.
     Inr (if fieldType = ''text_editor'' \<or> fieldType = ''markdown'' then Str (sanitizeHtml v) else v))"

text \<open>One entry of the body: the columns and the rest that is kept in \<open>_meta\<close>.\<close>

definition split_entry :: "field_definition list \<Rightarrow> string \<times> jsval \<Rightarrow> jsobj \<times> jsobj \<Rightarrow> (jsobj \<times> jsobj) res" where
  "split_entry fs kv st =
     (let key = fst kv; value = snd kv
      in if key \<in> set SYSTEM_FIELDS then Inr st
         else (case map_of (schema_types fs) key of
             Some ty \<Rightarrow>
               if ty \<in> {''o2m'', ''m2m'', ''table'', ''formula''} then Inr st
               else bindR (coerce_field value ty) (\<lambda>v. Inr (amap_set key v (fst st), snd st))
           | None \<Rightarrow>
               if key \<in> set (m2a_columns fs) then Inr (amap_set key value (fst st), snd st)
               else Inr (fst st, amap_set key value (snd st))))"

definition slug_of :: "jsval \<Rightarrow> string" where
  "slug_of v = take 200 (slugify CHR ''-'' (to_lower (to_str v)))"

definition fill_slug :: "jsobj \<Rightarrow> field_definition \<Rightarrow> jsobj \<Rightarrow> jsobj" where
  "fill_slug body f columns = (case fd_source f of
     Some src \<Rightarrow> if fd_type f = ''slug'' \<and> \<not> obj_in (fd_name f) body \<and> src \<noteq> [] \<and> truthy (obj_get columns src)
                 then amap_set (fd_name f) (Str (slug_of (obj_get columns src))) columns else columns
   | None \<Rightarrow> columns)"

definition fill_uuid :: "(string \<Rightarrow> string) \<Rightarrow> field_definition \<Rightarrow> jsobj \<Rightarrow> jsobj" where
  "fill_uuid uuid f columns = (if fd_type f = ''uuid'' \<and> \<not> obj_in (fd_name f) columns
     then amap_set (fd_name f) (Str (uuid (fd_name f))) columns else columns)"

definition fill_generated :: "(string \<Rightarrow> string) \<Rightarrow> jsobj \<Rightarrow> field_definition list \<Rightarrow> jsobj \<Rightarrow> jsobj" where
  "fill_generated uuid body fs columns = fold (\<lambda>f c. fill_uuid uuid f (fill_slug body f c)) fs columns"

definition meta_text :: "jsobj \<Rightarrow> jsval" where
  "meta_text meta = (if meta \<noteq> [] then json_stringify (Obj meta) else Str ''{}'')"

definition splitRowData :: "(string \<Rightarrow> string) \<Rightarrow> jsobj \<Rightarrow> field_definition list \<Rightarrow> (jsobj \<times> jsobj) res" where
  "splitRowData uuid body fs = bindR (foldR (split_entry fs) (own_entries body) ([], [])) (\<lambda>(columns, meta).
     let columns = fill_generated uuid body fs columns
     in Inr (amap_set ''_meta'' (meta_text meta) (obj_spread [] columns), meta))"

text \<open>\<open>{ ...v }\<close> for a parsed value.\<close>

definition spread_obj :: "jsval \<Rightarrow> jsobj" where
  "spread_obj v = (case v of
     Obj m \<Rightarrow> m
   | Arr xs \<Rightarrow> zip (map show_nat [0..<length xs]) xs
   | Str s \<Rightarrow> zip (map show_nat [0..<length s]) (map (\<lambda>c. Str [c]) s)
   | _ \<Rightarrow> [])"

definition mergeRowData :: "(string \<Rightarrow> jsval res) \<Rightarrow> jsobj \<Rightarrow> jsobj" where
  "mergeRowData parse dbRow =
     (let rest = amap_del ''_meta'' dbRow
      in case obj_get dbRow ''_meta'' of
           Str s \<Rightarrow> if length s > 2 then (case parse s of
               Inr parsed \<Rightarrow> obj_spread (spread_obj parsed) rest | Inl e \<Rightarrow> rest) else rest
         | _ \<Rightarrow> rest)"

definition decode_json :: "(string \<Rightarrow> jsval res) \<Rightarrow> string \<Rightarrow> jsobj \<Rightarrow> jsobj" where
  "decode_json parse name row = (case obj_get row name of
     Str (c # s) \<Rightarrow> if c = CHR ''{'' \<or> c = CHR ''['' \<or> char_code c = 34
       then (case parse (c # s) of Inr v \<Rightarrow> amap_set name v row | Inl e \<Rightarrow> row) else row
   | _ \<Rightarrow> row)"

definition decode_boolean :: "string \<Rightarrow> jsobj \<Rightarrow> jsobj" where
  "decode_boolean name row =
     (let v = obj_get row name
      in if (case v of Bool b \<Rightarrow> True | _ \<Rightarrow> False) then row
         else if strict_eq v (Num (Fin 1)) \<or> v = Str ''1'' \<or> v = Str ''true'' then amap_set name (Bool True) row
         else if strict_eq v (Num (Fin 0)) \<or> v = Str ''0'' \<or> v = Str ''false'' then amap_set name (Bool False) row
         else row)"

definition json_field_names :: "field_definition list \<Rightarrow> string list" where
  "json_field_names fs = map fd_name (filter (\<lambda>f. fd_type f = ''json'') fs)"

definition boolean_field_names :: "field_definition list \<Rightarrow> string list" where
  "boolean_field_names fs = map fd_name (filter (\<lambda>f. fd_type f = ''boolean'' \<or>
     fd_type f = ''formula'' \<and> fd_result_type f = Some ''boolean'') fs)"

definition decodeJsonFields :: "(string \<Rightarrow> jsval res) \<Rightarrow> jsobj list \<Rightarrow> field_definition list \<Rightarrow> jsobj list" where
  "decodeJsonFields parse rows fs =
     (if json_field_names fs = [] \<and> boolean_field_names fs = [] then rows
      else map (\<lambda>row. fold decode_boolean (boolean_field_names fs) (fold (decode_json parse) (json_field_names fs) row)) rows)"

section \<open>Document status\<close>

definition VALID_DOC_STATUSES :: "string list" where
  "VALID_DOC_STATUSES = [''draft'', ''submitted'', ''approved'', ''cancelled'', ''confirmed'', ''pending_review'', ''rejected'']"

text \<open>\<open>/^approved_l(\d+)$/\<close>: the digits.\<close>

definition approval_level :: "string \<Rightarrow> string option" where
  "approval_level s = (if starts_with s ''approved_l'' \<and> drop 10 s \<noteq> [] \<and> list_all is_digit (drop 10 s)
     then Some (drop 10 s) else None)"

definition isValidDocStatus :: "string \<Rightarrow> bool" where
  "isValidDocStatus status \<longleftrightarrow> status \<in> set VALID_DOC_STATUSES \<or> approval_level status \<noteq> None"

definition VALID_TRANSITIONS :: "(string \<times> string list) list" where
  "VALID_TRANSITIONS = [
     (''draft'', [''submitted'', ''cancelled'', ''pending_review'']),
     (''submitted'', [''approved'', ''cancelled'']),
     (''approved'', [''cancelled'']),
     (''confirmed'', []),
     (''cancelled'', [''draft'']),
     (''pending_review'', [''approved'', ''rejected'', ''cancelled'', ''approved_l1'']),
     (''rejected'', [''draft'', ''cancelled''])]"

definition isValidTransition :: "string \<Rightarrow> string \<Rightarrow> bool \<Rightarrow> bool" where
  "isValidTransition old new allowConfirmed =
     (if allowConfirmed \<and> old = ''draft'' \<and> new = ''confirmed'' then True
      else (case approval_level old of
          Some n \<Rightarrow>
            if new = ''approved'' \<or> new = ''rejected'' \<or> new = ''cancelled'' then True
            else (case approval_level new of
                Some m \<Rightarrow> num_lt (num_of_string n) (num_of_string m) | None \<Rightarrow> False)
        | None \<Rightarrow> (case map_of VALID_TRANSITIONS old of Some ts \<Rightarrow> new \<in> set ts | None \<Rightarrow> False)))"

section \<open>Rows as maps\<close>

lemma distinct_own_entries: "amap_ok m \<Longrightarrow> distinct (map fst (own_entries m))"
  by (auto simp: amap_ok_def own_entries_def distinct_map inj_on_def)

lemma obj_spread_lookup:
  assumes "amap_ok b"
  shows "map_of (obj_spread a b) k = (case map_of b k of Some v \<Rightarrow> Some v | None \<Rightarrow> map_of a k)"
proof -
  have "map_of (rev (own_entries b)) = map_of b"
    using assms distinct_own_entries [OF assms] by (subst map_of_inject_set) (simp_all add: amap_ok_def rev_map [symmetric])
  then show ?thesis by (simp add: obj_spread_def amap_of_lookup_acc map_add_def)
qed

lemma obj_spread_ok: "amap_ok a \<Longrightarrow> amap_ok (obj_spread a b)"
  unfolding obj_spread_def by (rule amap_ok_fold)

text \<open>What the loop over the body does to one key.\<close>

definition to_column :: "field_definition list \<Rightarrow> string \<Rightarrow> bool" where
  "to_column fs k \<longleftrightarrow> k \<notin> set SYSTEM_FIELDS \<and>
     (case map_of (schema_types fs) k of Some ty \<Rightarrow> ty \<notin> {''o2m'', ''m2m'', ''table'', ''formula''} | None \<Rightarrow> k \<in> set (m2a_columns fs))"

definition to_meta :: "field_definition list \<Rightarrow> string \<Rightarrow> bool" where
  "to_meta fs k \<longleftrightarrow> k \<notin> set SYSTEM_FIELDS \<and> map_of (schema_types fs) k = None \<and> k \<notin> set (m2a_columns fs)"

lemma split_entry_lookup:
  assumes "split_entry fs (k, v) (c, m) = Inr (c', m')"
  shows "k' \<noteq> k \<Longrightarrow> map_of c' k' = map_of c k'" "k' \<noteq> k \<Longrightarrow> map_of m' k' = map_of m k'"
    "to_meta fs k \<Longrightarrow> map_of m' k = Some v"
    "map_of (schema_types fs) k = Some ty \<Longrightarrow> to_column fs k \<Longrightarrow> coerce_field v ty = Inr w \<Longrightarrow> map_of c' k = Some w"
    "amap_ok c \<Longrightarrow> amap_ok c'" "amap_ok m \<Longrightarrow> amap_ok m'"
  using assms by (auto simp: split_entry_def Let_def bindR_Inr_iff to_meta_def to_column_def split: if_splits option.splits)

lemma split_entries_ok:
  "foldR (split_entry fs) es (c, m) = Inr (c', m') \<Longrightarrow> amap_ok c \<Longrightarrow> amap_ok m \<Longrightarrow> amap_ok c' \<and> amap_ok m'"
proof (induction es arbitrary: c m)
  case (Cons e es)
  then obtain c1 m1 where "split_entry fs (fst e, snd e) (c, m) = Inr (c1, m1)" "foldR (split_entry fs) es (c1, m1) = Inr (c', m')"
    by (auto simp: bindR_Inr_iff)
  with Cons split_entry_lookup(5,6) [of fs "fst e" "snd e" c m c1 m1] show ?case by blast
qed simp

lemma split_entries_other:
  "foldR (split_entry fs) es (c, m) = Inr (c', m') \<Longrightarrow> k \<notin> fst ` set es \<Longrightarrow> map_of c' k = map_of c k \<and> map_of m' k = map_of m k"
proof (induction es arbitrary: c m)
  case (Cons e es)
  then obtain c1 m1 where "split_entry fs (fst e, snd e) (c, m) = Inr (c1, m1)" "foldR (split_entry fs) es (c1, m1) = Inr (c', m')"
    by (auto simp: bindR_Inr_iff)
  with Cons split_entry_lookup(1,2) [of fs "fst e" "snd e" c m c1 m1 k] show ?case by auto
qed simp

lemma split_entries_at:
  assumes "foldR (split_entry fs) es (c, m) = Inr (c', m')" "distinct (map fst es)" "(k, v) \<in> set es"
  shows "to_meta fs k \<Longrightarrow> map_of m' k = Some v"
    "map_of (schema_types fs) k = Some ty \<Longrightarrow> to_column fs k \<Longrightarrow> coerce_field v ty = Inr w \<Longrightarrow> map_of c' k = Some w"
proof -
  obtain xs ys where es: "es = xs @ (k, v) # ys" using assms(3) by (meson split_list)
  obtain c1 m1 c2 m2 where s: "split_entry fs (k, v) (c1, m1) = Inr (c2, m2)" "foldR (split_entry fs) ys (c2, m2) = Inr (c', m')"
    using assms(1) unfolding es by (auto simp: foldR_append bindR_Inr_iff)
  have k: "k \<notin> fst ` set ys" using assms(2) es by auto
  show "to_meta fs k \<Longrightarrow> map_of m' k = Some v"
    "map_of (schema_types fs) k = Some ty \<Longrightarrow> to_column fs k \<Longrightarrow> coerce_field v ty = Inr w \<Longrightarrow> map_of c' k = Some w"
    using split_entries_other [OF s(2) k] split_entry_lookup(3,4) [OF s(1)] by auto
qed

lemma fill_other:
  "(\<And>f. f \<in> set fs \<Longrightarrow> fd_type f \<in> {''slug'', ''uuid''} \<Longrightarrow> fd_name f \<noteq> k) \<Longrightarrow>
   map_of (fill_generated uuid body fs c) k = map_of c k"
proof (induction fs arbitrary: c)
  case (Cons f fs)
  have "map_of (fill_uuid uuid f (fill_slug body f c)) k = map_of c k"
    using Cons.prems [of f] by (auto simp: fill_uuid_def fill_slug_def split: option.splits)
  with Cons show ?case by (simp add: fill_generated_def)
qed (simp add: fill_generated_def)

lemma fill_ok: "amap_ok c \<Longrightarrow> amap_ok (fill_generated uuid body fs c)"
proof (induction fs arbitrary: c)
  case (Cons f fs)
  have "amap_ok (fill_uuid uuid f (fill_slug body f c))"
    using Cons.prems by (auto simp: fill_uuid_def fill_slug_def split: option.splits)
  with Cons show ?case by (simp add: fill_generated_def)
qed (simp add: fill_generated_def)

lemma splitRowData_parts:
  assumes "splitRowData uuid body fs = Inr (cols, meta)"
  obtains c where "foldR (split_entry fs) (own_entries body) ([], []) = Inr (c, meta)" "amap_ok c" "amap_ok meta"
    "\<And>k. k \<noteq> ''_meta'' \<Longrightarrow> map_of cols k = map_of (fill_generated uuid body fs c) k"
    "map_of cols ''_meta'' = Some (meta_text meta)" "amap_ok cols"
proof -
  obtain c where c: "foldR (split_entry fs) (own_entries body) ([], []) = Inr (c, meta)"
    and cols: "cols = amap_set ''_meta'' (meta_text meta) (obj_spread [] (fill_generated uuid body fs c))"
    using assms by (auto simp: splitRowData_def bindR_Inr_iff Let_def)
  have ok: "amap_ok c" "amap_ok meta" using split_entries_ok [OF c] by auto
  have "map_of cols k = map_of (fill_generated uuid body fs c) k" if "k \<noteq> ''_meta''" for k
    using that obj_spread_lookup [OF fill_ok [OF ok(1)]] by (simp add: cols split: option.splits)
  moreover have "amap_ok cols" unfolding cols by (intro amap_ok_set obj_spread_ok amap_ok_empty)
  moreover have "map_of cols ''_meta'' = Some (meta_text meta)" by (simp add: cols)
  ultimately show thesis using that c ok by blast
qed

end
