(* ===== verification/FieldUtilsClaims.thy ===== *)
theory FieldUtilsClaims
  imports FieldUtils HtmlClaims
begin

text \<open>
  Properties of \<open>field-utils.ts\<close>: the columns a schema builds are the columns it selects, what an
  optional virtual field does to its neighbour, what a stored rich text and a stored extra key come
  back as, and the document-status machine.
\<close>

section \<open>Columns\<close>

definition appends :: "string list \<Rightarrow> (table_builder \<Rightarrow> table_builder res) \<Rightarrow> bool" where
  "appends ns f \<longleftrightarrow> (\<forall>b b'. f b = Inr b' \<longrightarrow> map c_name b' = map c_name b @ ns)"

lemma appendsD: "appends ns f \<Longrightarrow> f b = Inr b' \<Longrightarrow> map c_name b' = map c_name b @ ns"
  by (simp add: appends_def)

lemma update_last_names: "(\<And>c. c_name (f c) = c_name c) \<Longrightarrow> map c_name (update_last f b) = map c_name b"
  by (cases b rule: rev_cases) (simp_all add: update_last_def)

lemma modifier_names [simp]:
  "map c_name (tb_nullable b) = map c_name b" "map c_name (tb_index b) = map c_name b"
  "map c_name (tb_unique b) = map c_name b" "map c_name (tb_default d b) = map c_name b"
  "map c_name (tb_defaultRaw s b) = map c_name b"
  by (simp_all add: tb_nullable_def tb_index_def tb_unique_def tb_default_def tb_defaultRaw_def update_last_names)

lemma push_names: "appends [n] (push_column n ty ctx pk auto)"
  by (auto simp: appends_def push_column_def bindR_Inr_iff sanitize_Inr_iff)

lemma column_names:
  "appends [n] (tb_text n)" "appends [n] (tb_integer n)" "appends [n] (tb_real n)" "appends [n] (tb_boolean n)"
  "appends [n] (tb_timestamp n)" "appends [n] (tb_json n)" "appends [n] (tb_date n)"
  by (simp_all add: tb_text_def tb_integer_def tb_real_def tb_boolean_def tb_timestamp_def tb_json_def tb_date_def addColumn_def push_names)

lemma appends_bind: "appends ns f \<Longrightarrow> appends ms g \<Longrightarrow> appends (ns @ ms) (\<lambda>b. bindR (f b) g)"
  by (auto simp: appends_def bindR_Inr_iff)

lemma appends_then: "appends ns f \<Longrightarrow> (\<And>b. map c_name (g b) = map c_name b) \<Longrightarrow> appends ns (\<lambda>b. bindR (f b) (\<lambda>b. Inr (g b)))"
  using appends_bind [of ns f "[]" "\<lambda>b. Inr (g b)"] by (simp add: appends_def)

lemma text_nullable_names: "appends [n] (tb_text_nullable n)"
  unfolding tb_text_nullable_def by (rule appends_then) (simp_all add: column_names)

lemma set_default_names [simp]: "map c_name (set_default d b) = map c_name b"
  by (simp add: set_default_def split: option.splits jsval.splits)

definition builder_columns :: "string \<Rightarrow> string \<Rightarrow> string list" where
  "builder_columns ty n = (if ty = ''m2a'' then [n @ ''_type'', n @ ''_id'']
     else if ty \<in> {''o2m'', ''m2m'', ''table'', ''formula''} then [] else [n])"

lemma m2a_names: "appends [n @ ''_type'', n @ ''_id''] (m2a_pair n)"
  using appends_bind [OF text_nullable_names text_nullable_names] by (simp add: m2a_pair_def [abs_def])

lemma no_names: "appends [] (no_column n)"
  by (simp add: appends_def no_column_def)

lemma builder_table: "list_all (\<lambda>(ty, builder). appends (builder_columns ty n) (builder n)) FIELD_TYPE_MAP"
  by (simp add: FIELD_TYPE_MAP_def builder_columns_def column_names text_nullable_names m2a_names no_names)

lemma builder_names:
  assumes "map_of FIELD_TYPE_MAP ty = Some builder"
  shows "appends (builder_columns ty n) (builder n)"
  using map_of_SomeD [OF assms] builder_table [of n] by (auto simp: list_all_iff)

lemma apply_field_names: "appends (physical_columns f) (apply_field f)"
  unfolding appends_def
proof (intro allI impI)
  fix b b' assume a: "apply_field f b = Inr b'"
  define inner where "inner = (if fd_type f = ''formula'' \<and> fd_store f then stored_formula_column f b else plain_column f b)"
  from a obtain b1 where b1: "inner = Inr b1" and b': "map c_name b' = map c_name b1"
    unfolding apply_field_def inner_def [symmetric] by (auto simp: bindR_Inr_iff Let_def split: if_splits)
  have "map c_name b1 = map c_name b @ physical_columns f"
  proof (cases "fd_type f = ''formula'' \<and> fd_store f")
    case True
    then have "physical_columns f = [fd_name f]" by (simp add: physical_columns_def isVirtualField_def)
    with True b1 show ?thesis
      unfolding inner_def stored_formula_column_def Let_def
      by (auto simp: bindR_Inr_iff dest: appendsD [OF column_names(1)] appendsD [OF column_names(2)] appendsD [OF column_names(3)] split: if_splits)
  next
    case False
    with b1 obtain builder b2 where bd: "map_of FIELD_TYPE_MAP (fd_type f) = Some builder" "builder (fd_name f) b = Inr b2" "map c_name b1 = map c_name b2"
      unfolding inner_def plain_column_def by (auto simp: bindR_Inr_iff split: option.splits if_splits)
    have "builder_columns (fd_type f) (fd_name f) = physical_columns f"
      using False by (auto simp: builder_columns_def physical_columns_def isVirtualField_def VIRTUAL_FIELD_TYPES_def)
    with appendsD [OF builder_names [OF bd(1)] bd(2)] bd(3) show ?thesis by simp
  qed
  with b' show "map c_name b' = map c_name b @ physical_columns f" by simp
qed

lemma apply_fields_names: "appends (physicalColumnNames fs) (foldR apply_field fs)"
proof (induction fs)
  case (Cons f fs)
  have "appends (physical_columns f @ physicalColumnNames fs) (\<lambda>b. bindR (apply_field f b) (foldR apply_field fs))"
    by (intro appends_bind apply_field_names Cons.IH)
  then show ?case by (simp add: physicalColumnNames_def appends_def)
qed (simp add: appends_def physicalColumnNames_def)

lemma add_if_names: "appends ns f \<Longrightarrow> appends (if c then ns else []) (add_if c f)"
  by (simp add: appends_def add_if_def)

definition system_columns :: "system_field_options \<Rightarrow> string list" where
  "system_columns opts = filter (system_option opts) [''doc_status'', ''display_number'', ''_owner'', ''deleted_at'', ''deleted_by''] @
     [''_meta''] @ filter (system_option opts) [''created_by'', ''updated_by''] @ [''created_at'', ''updated_at'']"

lemma system_names: "appends (system_columns opts) (applySystemColumns opts)"
proof -
  let ?o = "\<lambda>k. if system_option opts k then [k] else []"
  have now: "appends [n] (tb_now n)" for n
    unfolding tb_now_def by (rule appends_then) (simp_all add: column_names)
  have draft: "appends [''doc_status''] (\<lambda>b. bindR (tb_text ''doc_status'' b) (\<lambda>b. Inr (tb_default (Inr ''draft'') b)))"
    by (rule appends_then) (simp_all add: column_names)
  have "appends (?o ''doc_status'' @ ?o ''display_number'' @ ?o ''_owner'' @ ?o ''deleted_at'' @ ?o ''deleted_by'' @
      [''_meta''] @ ?o ''created_by'' @ ?o ''updated_by'' @ [''created_at''] @ [''updated_at'']) (applySystemColumns opts)"
    unfolding applySystemColumns_def
    by (intro appends_bind add_if_names text_nullable_names now draft)
  moreover have "system_columns opts = ?o ''doc_status'' @ ?o ''display_number'' @ ?o ''_owner'' @ ?o ''deleted_at'' @ ?o ''deleted_by'' @
      [''_meta''] @ ?o ''created_by'' @ ?o ''updated_by'' @ [''created_at''] @ [''updated_at'']"
    by (simp add: system_columns_def)
  ultimately show ?thesis by simp
qed

lemma system_columns_list: "insert ''id'' (set (system_columns opts)) = set (buildSystemColumnsList opts)"
  by (auto simp: system_columns_def buildSystemColumnsList_def)

text \<open>
  C28. A table that is built from a schema has, after the columns it had, exactly the columns that
  SELECT lists name for the schema, in that order, and then the system columns; with the \<open>id\<close> that
  the caller adds these are the system columns of the SELECT list.
\<close>

theorem built_columns_are_selected_columns:
  assumes "applyFieldDefinitions fs (Some opts) b = Inr b'"
  shows "\<exists>sys. map c_name b' = map c_name b @ physicalColumnNames fs @ sys \<and> distinct sys \<and>
    insert ''id'' (set sys) = set (buildSystemColumnsList opts)"
proof (intro exI conjI)
  from assms obtain b1 where "foldR apply_field fs b = Inr b1" "applySystemColumns opts b1 = Inr b'"
    by (auto simp: applyFieldDefinitions_def bindR_Inr_iff)
  then show "map c_name b' = map c_name b @ physicalColumnNames fs @ system_columns opts"
    using appendsD [OF apply_fields_names] appendsD [OF system_names] by simp
  show "distinct (system_columns opts)" by (simp add: system_columns_def)
  show "insert ''id'' (set (system_columns opts)) = set (buildSystemColumnsList opts)" by (rule system_columns_list)
qed

definition ex_order :: "field_definition list" where
  "ex_order = [(plain_field ''amount'' ''number'')\<lparr>fd_required := Some True\<rparr>, plain_field ''ref'' ''m2a'',
     (plain_field ''items'' ''o2m'')\<lparr>fd_required := Some False\<rparr>]"

definition ex_no_options :: system_field_options where
  "ex_no_options = map (\<lambda>(k, v). (k, False)) DEFAULT_SYSTEM_FIELDS"

lemma ex_order_builds: "case applyFieldDefinitions ex_order (Some ex_no_options) [] of Inr b \<Rightarrow> True | Inl e \<Rightarrow> False"
  by code_simp

lemma built_columns_are_selected_columns_witness:
  "\<exists>b sys. applyFieldDefinitions ex_order (Some ex_no_options) [] = Inr b \<and>
    map c_name b = [''amount'', ''ref_type'', ''ref_id''] @ sys \<and> distinct sys \<and>
    insert ''id'' (set sys) = set (buildSystemColumnsList ex_no_options)"
proof -
  obtain b where b: "applyFieldDefinitions ex_order (Some ex_no_options) [] = Inr b"
    using ex_order_builds by (auto split: sum.splits)
  have "physicalColumnNames ex_order = [''amount'', ''ref_type'', ''ref_id'']" by code_simp
  with built_columns_are_selected_columns [OF b] b show ?thesis by simp
qed

text \<open>
  A virtual field has no column, but its \<open>required: false\<close> makes the column before it nullable:
  a required column that is followed by an optional o2m, m2m or child table accepts NULL.
\<close>

theorem optional_virtual_field_relaxes_previous_column:
  assumes "fd_type f \<in> {''o2m'', ''m2m'', ''table''}" "fd_required f = Some False"
    and "foldR apply_field fs b = Inr b1" "b1 \<noteq> []" "foldR apply_field (fs @ [f]) b = Inr b2"
  shows "map c_name b2 = map c_name b1 \<and> c_nullable (last b2)"
proof -
  have built: "apply_field f b1 = Inr b2" using assms(3,5) by (simp add: foldR_append bindR_Inr_iff)
  have map: "map_of FIELD_TYPE_MAP (fd_type f) = Some no_column" using assms(1) by (auto simp: FIELD_TYPE_MAP_def)
  have ty: "fd_type f \<noteq> ''formula''" using assms(1) by auto
  have last: "c_nullable (last (tb_nullable b1))" using assms(4) by (simp add: tb_nullable_def update_last_def)
  have keep: "c_nullable (last (g b)) = c_nullable (last b)" "g b \<noteq> []"
    if "b \<noteq> []" "g \<in> {set_default (fd_default f), tb_index, tb_unique}" for g b
    using that by (auto simp: set_default_def tb_default_def tb_index_def tb_unique_def update_last_def split: option.splits jsval.splits)
  have "b2 = (if flag (fd_unique f) then tb_unique else id) ((if flag (fd_index f) then tb_index else id) (set_default (fd_default f) (tb_nullable b1)))"
    using built ty assms(2) unfolding apply_field_def plain_column_def map
    by (auto simp: bindR_Inr_iff no_column_def Let_def)
  moreover have "tb_nullable b1 \<noteq> []" using assms(4) by (simp add: tb_nullable_def update_last_def)
  ultimately show ?thesis using last keep by auto
qed

lemma optional_virtual_field_relaxes_previous_column_witness:
  "\<exists>b1 b2. foldR apply_field [plain_field ''amount'' ''number''] [] = Inr b1 \<and> \<not> c_nullable (last b1) \<and>
     foldR apply_field ([plain_field ''amount'' ''number''] @ [(plain_field ''items'' ''o2m'')\<lparr>fd_required := Some False\<rparr>]) [] = Inr b2 \<and>
     c_nullable (last b2)"
proof -
  let ?f = "(plain_field ''items'' ''o2m'')\<lparr>fd_required := Some False\<rparr>" and ?fs = "[plain_field ''amount'' ''number'']"
  define b1 where "b1 = (case foldR apply_field ?fs [] of Inr b \<Rightarrow> b | Inl e \<Rightarrow> [])"
  define b2 where "b2 = (case foldR apply_field (?fs @ [?f]) [] of Inr b \<Rightarrow> b | Inl e \<Rightarrow> [])"
  have b1: "foldR apply_field ?fs [] = Inr b1" "b1 \<noteq> []" "\<not> c_nullable (last b1)" unfolding b1_def by code_simp+
  have b2: "foldR apply_field (?fs @ [?f]) [] = Inr b2" unfolding b2_def by code_simp
  have "fd_type ?f \<in> {''o2m'', ''m2m'', ''table''}" "fd_required ?f = Some False" by (simp_all add: plain_field_def)
  from optional_virtual_field_relaxes_previous_column [OF this b1(1,2) b2] b1 b2 show ?thesis by blast
qed

section \<open>Document status\<close>

text \<open>The statuses a document has had, when every write is a valid transition and nothing opts in to \<open>confirmed\<close>.\<close>

inductive doc_history :: "string list \<Rightarrow> bool" where
  created: "doc_history [''draft'']"
| written: "doc_history h \<Longrightarrow> isValidTransition (last h) s False \<Longrightarrow> doc_history (h @ [s])"

lemma approval_level_fixed [simp]:
  "approval_level ''draft'' = None" "approval_level ''submitted'' = None" "approval_level ''approved'' = None"
  "approval_level ''cancelled'' = None" "approval_level ''confirmed'' = None" "approval_level ''pending_review'' = None"
  "approval_level ''rejected'' = None"
  by code_simp+

lemma valid_fixed [simp]:
  "isValidDocStatus ''draft''" "isValidDocStatus ''submitted''" "isValidDocStatus ''approved''" "isValidDocStatus ''cancelled''"
  "isValidDocStatus ''pending_review''" "isValidDocStatus ''rejected''" "isValidDocStatus ''approved_l1''"
  by code_simp+

lemma approval_level_1 [simp]: "approval_level ''approved_l1'' = Some ''1''"
  by code_simp

lemma transition_cases:
  assumes "isValidTransition old new False"
  obtains "old = ''draft''" "new \<in> {''submitted'', ''cancelled'', ''pending_review''}"
  | "old = ''submitted''" "new \<in> {''approved'', ''cancelled''}"
  | "old = ''approved''" "new = ''cancelled''"
  | "old = ''cancelled''" "new = ''draft''"
  | "old = ''pending_review''" "new \<in> {''approved'', ''rejected'', ''cancelled'', ''approved_l1''}"
  | "old = ''rejected''" "new \<in> {''draft'', ''cancelled''}"
  | n where "approval_level old = Some n" "new \<in> {''approved'', ''rejected'', ''cancelled''}"
  | n m where "approval_level old = Some n" "approval_level new = Some m" "num_lt (num_of_string n) (num_of_string m)"
proof (cases "approval_level old")
  case None
  with assms obtain ts where "(old, ts) \<in> set VALID_TRANSITIONS" "new \<in> set ts"
    by (auto simp: isValidTransition_def split: option.splits dest: map_of_SomeD)
  with that(1-6) show thesis by (auto simp: VALID_TRANSITIONS_def)
next
  case (Some n)
  with assms that(7,8) show thesis by (auto simp: isValidTransition_def split: option.splits if_splits)
qed

text \<open>Without a submission since the last draft, only the draft and its cancellation are possible.\<close>

definition unsubmitted :: "string list \<Rightarrow> bool" where
  "unsubmitted h \<longleftrightarrow> (let r = takeWhile (\<lambda>s. s \<noteq> ''draft'') (rev h)
     in ''submitted'' \<notin> set r \<and> ''pending_review'' \<notin> set r)"

definition history_ok :: "string list \<Rightarrow> bool" where
  "history_ok h \<longleftrightarrow> h \<noteq> [] \<and> list_all isValidDocStatus h \<and> ''confirmed'' \<notin> set h \<and>
     (unsubmitted h \<longrightarrow> last h \<in> {''draft'', ''cancelled''})"

lemma doc_history_ok: "doc_history h \<Longrightarrow> history_ok h"
proof (induction rule: doc_history.induct)
  case created
  show ?case by code_simp
next
  case (written h s)
  then have h: "h \<noteq> []" "list_all isValidDocStatus h" "''confirmed'' \<notin> set h"
    and u: "unsubmitted h \<Longrightarrow> last h \<in> {''draft'', ''cancelled''}" by (simp_all add: history_ok_def)
  have u': "unsubmitted (h @ [s]) \<Longrightarrow> s \<noteq> ''draft'' \<Longrightarrow> unsubmitted h \<and> s \<notin> {''submitted'', ''pending_review''}"
    by (auto simp: unsubmitted_def Let_def)
  from written(2) have "isValidDocStatus s \<and> s \<noteq> ''confirmed'' \<and> (unsubmitted (h @ [s]) \<longrightarrow> s \<in> {''draft'', ''cancelled''})"
  proof (cases rule: transition_cases)
    case (7 n)
    then have "last h \<notin> {''draft'', ''cancelled''}" by auto
    with 7(2) u u' show ?thesis by auto
  next
    case (8 n m)
    then have "last h \<notin> {''draft'', ''cancelled''}" "s \<notin> {''draft'', ''confirmed''}" "isValidDocStatus s"
      by (auto simp: isValidDocStatus_def)
    with u u' show ?thesis by blast
  next
    case 1
    then have "unsubmitted (h @ [s]) \<longrightarrow> s \<notin> {''submitted'', ''pending_review''}" using u' by auto
    then show ?thesis using 1(2) by auto
  next
    case 2
    then have "\<not> unsubmitted h" using u by auto
    then have "unsubmitted (h @ [s]) \<longrightarrow> s = ''draft''" using u' by blast
    then show ?thesis using 2(2) by auto
  next
    case 3
    then have "\<not> unsubmitted h" using u by auto
    then show ?thesis using 3(2) by auto
  next
    case 4
    then show ?thesis by auto
  next
    case 5
    then have "\<not> unsubmitted h" using u by auto
    then have "unsubmitted (h @ [s]) \<longrightarrow> s = ''draft''" using u' by blast
    then show ?thesis using 5(2) by auto
  next
    case 6
    then have "\<not> unsubmitted h" using u by auto
    then have "unsubmitted (h @ [s]) \<longrightarrow> s = ''draft''" using u' by blast
    then show ?thesis using 6(2) by auto
  qed
  with h show ?case by (auto simp: history_ok_def)
qed



section \<open>Rows\<close>

lemma schema_type_of:
  assumes "distinct (map fd_name fs)" "f \<in> set fs"
  shows "map_of (schema_types fs) (fd_name f) = Some (fd_type f)"
proof -
  have "schema_types fs = map (\<lambda>f. (fd_name f, fd_type f)) fs"
    unfolding schema_types_def using assms(1) by (intro amap_of_distinct) (simp add: comp_def)
  with assms show ?thesis by (simp add: map_of_is_SomeI comp_def image_iff) (metis (mono_tags, lifting) comp_apply image_eqI list.set_map map_of_is_SomeI map_map map_eq_conv fst_conv)
qed

lemma meta_key_no_column:
  "foldR (split_entry fs) es (c, m) = Inr (c', m') \<Longrightarrow> to_meta fs k \<Longrightarrow> map_of c' k = map_of c k"
proof (induction es arbitrary: c m)
  case (Cons e es)
  then obtain c1 m1 where s: "split_entry fs (fst e, snd e) (c, m) = Inr (c1, m1)" "foldR (split_entry fs) es (c1, m1) = Inr (c', m')"
    by (auto simp: bindR_Inr_iff)
  have "map_of c1 k = map_of c k"
  proof (cases "fst e = k")
    case True
    with s(1) Cons.prems(2) show ?thesis by (auto simp: split_entry_def Let_def to_meta_def split: if_splits)
  next
    case False
    with split_entry_lookup(1) [OF s(1)] show ?thesis by simp
  qed
  with Cons s show ?case by auto
qed simp

lemma join_length: "x \<in> set xs \<Longrightarrow> length x \<le> length (join_with sep xs)"
  by (induction sep xs rule: join_with.induct) auto

lemma json_obj_long:
  assumes "(k, v) \<in> set m" "json_of v = Some t" "json_of (Obj m) = Some s"
  shows "2 < length s"
proof -
  let ?parts = "concat (map (\<lambda>(k, r). case r of None \<Rightarrow> [] | Some s \<Rightarrow> [json_quote k @ '':'' @ s]) (own_entries (map (\<lambda>(k, v). (k, json_of v)) m)))"
  have "json_quote k @ '':'' @ t \<in> set ?parts" using assms(1,2) by force
  from join_length [OF this, of "'',''"] have le: "length (json_quote k @ '':'' @ t) \<le> length (join_with '','' ?parts)" .
  define J where "J = join_with '','' ?parts"
  have "J \<noteq> []"
  proof
    assume "J = []"
    with le show False unfolding J_def by (simp only: list.size length_append)
  qed
  moreover have "s = CHR ''{'' # J @ ''}''" using assms(3) unfolding J_def by (simp only: json_of.simps option.inject)
  ultimately show ?thesis by (cases J) auto
qed


text \<open>
  A key of the body that is no field of the schema comes back from the stored row with the value
  it was sent with, and every column of the row with the value of the column; \<open>JSON.parse\<close> is
  assumed to read back what \<open>JSON.stringify\<close> wrote for the extra keys.
\<close>

theorem extra_keys_round_trip:
  assumes "splitRowData uuid body fs = Inr (cols, meta)" "amap_ok body"
    and parse: "\<And>s. json_of (Obj meta) = Some s \<Longrightarrow> parse s = Inr (Obj meta)"
    and "(k, v) \<in> set body" "to_meta fs k" "json_of v \<noteq> None"
  shows "map_of (mergeRowData parse cols) k = Some v \<and>
    (\<forall>c w. c \<noteq> ''_meta'' \<longrightarrow> map_of cols c = Some w \<longrightarrow> map_of (mergeRowData parse cols) c = Some w)"
proof -
  obtain c where c: "foldR (split_entry fs) (own_entries body) ([], []) = Inr (c, meta)" "amap_ok meta"
    and cols: "\<And>k. k \<noteq> ''_meta'' \<Longrightarrow> map_of cols k = map_of (fill_generated uuid body fs c) k"
      "map_of cols ''_meta'' = Some (meta_text meta)" "amap_ok cols"
    using splitRowData_parts [OF assms(1)] by blast
  have m: "map_of meta k = Some v"
    using split_entries_at(1) [OF c(1) distinct_own_entries [OF assms(2)]] assms(4,5) by simp
  have names: "fd_name f \<noteq> k" if "f \<in> set fs" for f
    using assms(5) that amap_of_keys_set [of "map (\<lambda>f. (fd_name f, fd_type f)) fs"]
    by (force simp: to_meta_def schema_types_def map_of_eq_None_iff)
  have "map_of (fill_generated uuid body fs c) k = None"
    using fill_other [of fs k uuid body c] names meta_key_no_column [OF c(1) assms(5)] by simp
  moreover have km: "k \<noteq> ''_meta''" using assms(5) by (auto simp: to_meta_def SYSTEM_FIELDS_def)
  ultimately have none: "map_of cols k = None" using cols(1) by simp
  obtain t where t: "json_of v = Some t" using assms(6) by blast
  have "meta \<noteq> []" using m by auto
  moreover obtain s where s: "json_of (Obj meta) = Some s" by simp
  ultimately have mt: "meta_text meta = Str s" by (simp add: meta_text_def json_stringify_def)
  have "(k, v) \<in> set meta" using m by (rule map_of_SomeD)
  then have len: "2 < length s" using json_obj_long t s by blast
  have merged: "mergeRowData parse cols = obj_spread meta (amap_del ''_meta'' cols)"
    using cols(2) len parse [OF s] by (simp add: mergeRowData_def obj_get_def mt spread_obj_def Let_def)
  have look: "map_of (mergeRowData parse cols) x = (case map_of (amap_del ''_meta'' cols) x of Some w \<Rightarrow> Some w | None \<Rightarrow> map_of meta x)" for x
    unfolding merged by (rule obj_spread_lookup) (use cols(3) in auto)
  show ?thesis using m none km by (simp add: look)
qed

definition ex_article :: "field_definition list" where
  "ex_article = [plain_field ''title'' ''text'', plain_field ''body'' ''markdown'']"

definition ex_article_body :: jsobj where
  "ex_article_body = [(''body'', Str ''<p onclick=x>hi</p>''), (''origin'', Str ''web'')]"

definition ex_article_row :: "jsobj \<times> jsobj" where
  "ex_article_row = ([(''body'', Str ''<p>hi</p>''), (''_meta'', json_stringify (Obj [(''origin'', Str ''web'')]))], [(''origin'', Str ''web'')])"

lemma ex_article_split: "splitRowData (\<lambda>f. []) ex_article_body ex_article = Inr (fst ex_article_row, snd ex_article_row)"
  by code_simp

lemma ex_article_ok: "distinct (map fd_name ex_article)" "amap_ok ex_article_body"
  by code_simp+


lemma extra_keys_round_trip_witness:
  "map_of (mergeRowData (\<lambda>s. Inr (Obj [(''origin'', Str ''web'')])) (fst ex_article_row)) ''origin'' = Some (Str ''web'')"
proof -
  have "to_meta ex_article ''origin''" by code_simp
  from extra_keys_round_trip [OF ex_article_split ex_article_ok(2) _ _ this, of "\<lambda>s. Inr (Obj [(''origin'', Str ''web'')])" "Str ''web''"]
  show ?thesis by (simp add: ex_article_row_def ex_article_body_def)
qed

end
