(* ===== verification/Store.thy ===== *)
theory Store
  imports FieldUtils
begin

text \<open>
  The database under the collection services, as the code relies on it (\<open>D1Client\<close> over D1/SQLite):
  tables of rows in insertion order, statements that insert, update and delete rows, and batches
  that apply all their statements or none. \<open>refuses\<close> stands for the constraints of the database: the
  message with which it refuses a batch, if it does. Handlers that await are functions of a state
  to a result and the state they leave: an error keeps what was done before it.
\<close>

section \<open>Results with a state\<close>

type_synonym ('a, 's) act = "'s \<Rightarrow> 'a res \<times> 's"

definition bindA :: "('a, 's) act \<Rightarrow> ('a \<Rightarrow> ('b, 's) act) \<Rightarrow> ('b, 's) act" where
  "bindA m f s = (case m s of (Inl e, s') \<Rightarrow> (Inl e, s') | (Inr x, s') \<Rightarrow> f x s')"

definition retA :: "'a \<Rightarrow> ('a, 's) act" where
  "retA x s = (Inr x, s)"

definition liftA :: "'a res \<Rightarrow> ('a, 's) act" where
  "liftA r s = (r, s)"

definition failA :: "js_error \<Rightarrow> ('a, 's) act" where
  "failA e s = (Inl e, s)"

definition readA :: "('s \<Rightarrow> 'a) \<Rightarrow> ('a, 's) act" where
  "readA f s = (Inr (f s), s)"

definition writeA :: "('s \<Rightarrow> 's) \<Rightarrow> (unit, 's) act" where
  "writeA f s = (Inr (), f s)"

text \<open>\<open>try { await m } catch { ... }\<close>: an error is handed to \<open>h\<close> in the state it left.\<close>

definition catchA :: "('a, 's) act \<Rightarrow> (js_error \<Rightarrow> ('a, 's) act) \<Rightarrow> ('a, 's) act" where
  "catchA m h s = (case m s of (Inl e, s') \<Rightarrow> h e s' | (Inr x, s') \<Rightarrow> (Inr x, s'))"

definition whenA :: "bool \<Rightarrow> (unit, 's) act \<Rightarrow> (unit, 's) act" where
  "whenA c m = (if c then m else retA ())"

text \<open>A \<open>for\<close> loop that awaits.\<close>

fun foldA :: "('a \<Rightarrow> 'b \<Rightarrow> ('b, 's) act) \<Rightarrow> 'a list \<Rightarrow> 'b \<Rightarrow> ('b, 's) act" where
  "foldA f [] b = retA b"
| "foldA f (x # xs) b = bindA (f x b) (foldA f xs)"

definition eachA :: "('a \<Rightarrow> (unit, 's) act) \<Rightarrow> 'a list \<Rightarrow> (unit, 's) act" where
  "eachA f xs = foldA (\<lambda>x u. f x) xs ()"

lemma bindA_Inr_iff:
  "bindA m f s = (Inr y, s') \<longleftrightarrow> (\<exists>x t. m s = (Inr x, t) \<and> f x t = (Inr y, s'))"
  by (auto simp: bindA_def split: prod.splits sum.splits)

lemma bindA_Inl_iff:
  "bindA m f s = (Inl e, s') \<longleftrightarrow> m s = (Inl e, s') \<or> (\<exists>x t. m s = (Inr x, t) \<and> f x t = (Inl e, s'))"
  by (auto simp: bindA_def split: prod.splits sum.splits)

lemma act_simps [simp]:
  "retA x s = (Inr x, s)" "liftA r s = (r, s)" "failA e s = (Inl e, s)" "readA g s = (Inr (g s), s)"
  "writeA h s = (Inr (), h s)" "bindA (retA x) f = f x" "bindA (failA e) f = failA e"
  by (simp_all add: retA_def liftA_def failA_def readA_def writeA_def bindA_def fun_eq_iff)

text \<open>What every step keeps, the whole run keeps, whether it fails or not.\<close>

lemma bindA_keeps:
  assumes "\<And>r t. m s = (r, t) \<Longrightarrow> I t" "\<And>x t r u. m s = (Inr x, t) \<Longrightarrow> I t \<Longrightarrow> f x t = (r, u) \<Longrightarrow> I u"
  shows "bindA m f s = (r, u) \<Longrightarrow> I u"
  using assms by (fastforce simp: bindA_def split: prod.splits sum.splits)

lemma foldA_keeps:
  assumes step: "\<And>x b t r u. x \<in> set xs \<Longrightarrow> I t \<Longrightarrow> f x b t = (r, u) \<Longrightarrow> I u"
  shows "I s \<Longrightarrow> foldA f xs b s = (r, u) \<Longrightarrow> I u"
  using step
proof (induction xs arbitrary: b s r u)
  case (Cons x xs)
  show ?case
  proof (rule bindA_keeps [where m = "f x b" and f = "foldA f xs" and s = s and I = I])
    show "bindA (f x b) (foldA f xs) s = (r, u)" using Cons.prems(2) by simp
    show "I t" if "f x b s = (r, t)" for r t using Cons.prems(3) [OF _ Cons.prems(1) that] by simp
    show "I u" if "I t" "foldA f xs y t = (r, u)" for y t r u
      using Cons.IH [OF that] Cons.prems(3) by (meson list.set_intros(2))
  qed
qed simp

lemma foldA_invariant:
  assumes "foldA f xs b s = (Inr c, u)" "I b s"
    and step: "\<And>x b t c u. x \<in> set xs \<Longrightarrow> I b t \<Longrightarrow> f x b t = (Inr c, u) \<Longrightarrow> I c u"
  shows "I c u"
  using assms
proof (induction xs arbitrary: b s)
  case (Cons x xs)
  from Cons.prems(1) obtain b' s' where x: "f x b s = (Inr b', s')" and xs: "foldA f xs b' s' = (Inr c, u)"
    by (auto simp: bindA_Inr_iff)
  show ?case
    by (rule Cons.IH [OF xs Cons.prems(3) [OF _ Cons.prems(2) x]]) (auto intro: Cons.prems(3))
qed simp

lemma foldA_returns:
  assumes "I b s" and step: "\<And>x b t. x \<in> set xs \<Longrightarrow> I b t \<Longrightarrow> \<exists>c u. f x b t = (Inr c, u) \<and> I c u"
  shows "\<exists>c u. foldA f xs b s = (Inr c, u) \<and> I c u"
  using assms
proof (induction xs arbitrary: b s)
  case (Cons x xs)
  obtain c u where x: "f x b s = (Inr c, u)" "I c u" using Cons.prems(2) [of x b s] Cons.prems(1) by auto
  then show ?case using Cons.IH [OF x(2)] Cons.prems(2) by (simp add: bindA_def)
qed simp

text \<open>A loop that never fails, whose every turn establishes something for its element that lasts.\<close>

lemma foldA_progress:
  assumes "I b s" and step: "\<And>x b t. x \<in> set xs \<Longrightarrow> I b t \<Longrightarrow>
    \<exists>c u. f x b t = (Inr c, u) \<and> I c u \<and> Q x c \<and> (\<forall>y. Q y b \<longrightarrow> Q y c)"
  shows "\<exists>c u. foldA f xs b s = (Inr c, u) \<and> I c u \<and> (\<forall>x \<in> set xs. Q x c) \<and> (\<forall>y. Q y b \<longrightarrow> Q y c)"
  using assms
proof (induction xs arbitrary: b s)
  case (Cons x xs)
  obtain c u where x: "f x b s = (Inr c, u)" "I c u" "Q x c" "\<forall>y. Q y b \<longrightarrow> Q y c"
    using Cons.prems(2) [of x b s] Cons.prems(1) by auto
  have "\<exists>d v. foldA f xs c u = (Inr d, v) \<and> I d v \<and> (\<forall>x \<in> set xs. Q x d) \<and> (\<forall>y. Q y c \<longrightarrow> Q y d)"
  proof (rule Cons.IH [OF x(2)])
    fix y d v assume "y \<in> set xs" "I d v"
    then show "\<exists>c u. f y d v = (Inr c, u) \<and> I c u \<and> Q y c \<and> (\<forall>z. Q z d \<longrightarrow> Q z c)"
      by (intro Cons.prems(2)) simp_all
  qed
  then obtain d v where d: "foldA f xs c u = (Inr d, v)" "I d v" "\<forall>x \<in> set xs. Q x d" "\<forall>y. Q y c \<longrightarrow> Q y d" by blast
  have "foldA f (x # xs) b s = (Inr d, v)" using x(1) d(1) by (simp add: bindA_def)
  then show ?case using d x by auto
qed simp

section \<open>Tables\<close>

type_synonym store = "(string, jsobj list) amap"

definition rows_of :: "store \<Rightarrow> string \<Rightarrow> jsobj list" where
  "rows_of db t = (case map_of db t of None \<Rightarrow> [] | Some rs \<Rightarrow> rs)"

text \<open>A SELECT of rows: an error where the table is missing.\<close>

definition select_rows :: "string \<Rightarrow> (jsobj \<Rightarrow> bool) \<Rightarrow> store \<Rightarrow> jsobj list res" where
  "select_rows t P db = (if amap_has t db then Inr (filter P (rows_of db t)) else throw (''no such table: '' @ t))"

definition put_rows :: "string \<Rightarrow> jsobj list \<Rightarrow> store \<Rightarrow> store" where
  "put_rows t rs db = (if amap_has t db then amap_set t rs db else db)"

definition row_id :: "jsobj \<Rightarrow> string" where
  "row_id r = (case map_of r ''id'' of Some (Str s) \<Rightarrow> s | _ \<Rightarrow> [])"

text \<open>\<open>col IN (vals)\<close> for texts, and \<open>col IS NULL\<close>; a column the row does not list is null.\<close>

definition col_in :: "string \<Rightarrow> string list \<Rightarrow> jsobj \<Rightarrow> bool" where
  "col_in c vals r \<longleftrightarrow> (case map_of r c of Some (Str s) \<Rightarrow> s \<in> set vals | _ \<Rightarrow> False)"

definition col_null :: "string \<Rightarrow> jsobj \<Rightarrow> bool" where
  "col_null c r \<longleftrightarrow> (case map_of r c of None \<Rightarrow> True | Some v \<Rightarrow> is_nullish v)"

definition live :: "jsobj \<Rightarrow> bool" where
  "live r \<longleftrightarrow> col_null ''deleted_at'' r"

definition row_with_id :: "string \<Rightarrow> string \<Rightarrow> store \<Rightarrow> jsobj option" where
  "row_with_id t i db = find (\<lambda>r. col_in ''id'' [i] r) (rows_of db t)"

datatype sql_write =
    InsertRow string jsobj
  | UpdateIn string string "string list" jsobj
  | DeleteIn string string "string list"

fun write_table :: "sql_write \<Rightarrow> string" where
  "write_table (InsertRow t r) = t"
| "write_table (UpdateIn t c vs u) = t"
| "write_table (DeleteIn t c vs) = t"

fun apply_write :: "sql_write \<Rightarrow> store \<Rightarrow> store" where
  "apply_write (InsertRow t r) db = put_rows t (rows_of db t @ [r]) db"
| "apply_write (UpdateIn t c vs u) db = put_rows t (map (\<lambda>r. if col_in c vs r then obj_spread r u else r) (rows_of db t)) db"
| "apply_write (DeleteIn t c vs) db = put_rows t (filter (\<lambda>r. \<not> col_in c vs r) (rows_of db t)) db"

text \<open>The number of rows a statement changes.\<close>

fun write_changes :: "sql_write \<Rightarrow> store \<Rightarrow> nat" where
  "write_changes (InsertRow t r) db = 1"
| "write_changes (UpdateIn t c vs u) db = length (filter (col_in c vs) (rows_of db t))"
| "write_changes (DeleteIn t c vs) db = length (filter (col_in c vs) (rows_of db t))"

text \<open>A table that is missing, or a primary key that is taken, refuses the batch too.\<close>

fun write_error :: "sql_write \<Rightarrow> store \<Rightarrow> string option" where
  "write_error (InsertRow t r) db =
     (if \<not> amap_has t db then Some (''no such table: '' @ t)
      else if row_with_id t (row_id r) db \<noteq> None then Some (''UNIQUE constraint failed: '' @ t @ ''.id'') else None)"
| "write_error w db = (if amap_has (write_table w) db then None else Some (''no such table: '' @ write_table w))"

fun run_writes :: "sql_write list \<Rightarrow> store \<Rightarrow> store res" where
  "run_writes [] db = Inr db"
| "run_writes (w # ws) db = (case write_error w db of
     Some msg \<Rightarrow> throw msg | None \<Rightarrow> run_writes ws (apply_write w db))"

definition run_batch :: "(sql_write list \<Rightarrow> store \<Rightarrow> string option) \<Rightarrow> sql_write list \<Rightarrow> store \<Rightarrow> store res" where
  "run_batch refuses ws db = (case refuses ws db of Some msg \<Rightarrow> throw msg | None \<Rightarrow> run_writes ws db)"

section \<open>Facts about tables\<close>

lemma rows_of_put [simp]:
  "rows_of (put_rows t rs db) t' = (if t' = t \<and> amap_has t db then rs else rows_of db t')"
  by (auto simp: rows_of_def put_rows_def amap_has_def)

lemma put_rows_has [simp]: "amap_has t' (put_rows t rs db) = amap_has t' db"
  by (auto simp: put_rows_def amap_has_def)

lemma apply_write_has [simp]: "amap_has t (apply_write w db) = amap_has t db"
  by (cases w) auto

lemma rows_of_missing: "\<not> amap_has t db \<Longrightarrow> rows_of db t = []"
  by (auto simp: rows_of_def amap_has_def)

lemma rows_of_apply_write:
  "rows_of (apply_write w db) t =
     (if t \<noteq> write_table w \<or> \<not> amap_has t db then rows_of db t
      else (case w of InsertRow _ r \<Rightarrow> rows_of db t @ [r]
                    | UpdateIn _ c vs u \<Rightarrow> map (\<lambda>r. if col_in c vs r then obj_spread r u else r) (rows_of db t)
                    | DeleteIn _ c vs \<Rightarrow> filter (\<lambda>r. \<not> col_in c vs r) (rows_of db t)))"
  by (cases w) auto

lemma col_in_iff: "col_in c vs r \<longleftrightarrow> (\<exists>s \<in> set vs. map_of r c = Some (Str s))"
  by (auto simp: col_in_def split: option.splits jsval.splits)

lemma run_writes_table:
  "run_writes ws db = Inr db' \<Longrightarrow> t \<notin> write_table ` set ws \<Longrightarrow> rows_of db' t = rows_of db t"
  by (induction ws arbitrary: db) (auto simp: rows_of_apply_write split: option.splits)

lemma run_writes_has: "run_writes ws db = Inr db' \<Longrightarrow> amap_has t db' = amap_has t db"
  by (induction ws arbitrary: db) (auto split: option.splits)

lemma run_batch_writes: "run_batch refuses ws db = Inr db' \<Longrightarrow> run_writes ws db = Inr db'"
  by (simp add: run_batch_def split: option.splits)

lemma row_with_id_SomeD: "row_with_id t i db = Some r \<Longrightarrow> r \<in> set (rows_of db t) \<and> map_of r ''id'' = Some (Str i)"
  unfolding row_with_id_def by (drule find_in) (auto simp: col_in_iff)

lemma row_with_id_None: "row_with_id t i db = None \<longleftrightarrow> (\<forall>r \<in> set (rows_of db t). map_of r ''id'' \<noteq> Some (Str i))"
  by (auto simp: row_with_id_def find_None_iff col_in_iff)

end
