(* ===== verification/Collections.thy ===== *)
theory Collections
  imports Store Authz
begin

text \<open>
  \<open>apps/api/src/lib/services/collection.shared.ts\<close>: what the collection services know of a collection,
  its write policies, the columns a reader does not see by default, and the row-level check; with
  the state those services share (the database, the permission rows, the cache, the claimed numbers) and the calls that
  leave it (hooks started in the background, webhooks, audit rows, media references).
\<close>

section \<open>Collections\<close>

definition SYSTEM_FIELD_NAMES :: "string list" where
  "SYSTEM_FIELD_NAMES = [''id'', ''created_at'', ''updated_at'', ''doc_status'', ''display_number'',
     ''created_by'', ''updated_by'', ''_owner'', ''deleted_at'', ''deleted_by'']"

definition systemFieldsLast :: "field_definition list \<Rightarrow> field_definition list" where
  "systemFieldsLast fs =
     (let idField = find (\<lambda>f. fd_name f = ''id'') fs;
          rest = filter (\<lambda>f. fd_name f \<noteq> ''id'') fs;
          userFields = filter (\<lambda>f. fd_name f \<notin> set SYSTEM_FIELD_NAMES) rest;
          systemFields = filter (\<lambda>f. fd_name f \<in> set SYSTEM_FIELD_NAMES) rest
      in (case idField of None \<Rightarrow> [] | Some f \<Rightarrow> [f]) @ userFields @ systemFields)"

definition SYSTEM_REFERENCE_COLUMNS :: "string list" where
  "SYSTEM_REFERENCE_COLUMNS = [''_owner'', ''created_by'', ''updated_by'', ''deleted_by'']"

text \<open>One level of a parsed \<open>?fields=\<close>: the tree below a relation is behind its name.\<close>

datatype field_selection = FieldSelection
  (fs_all: bool) (fs_columns: "string list") (fs_excludes: "string list")
  (fs_relations: "(string \<times> field_selection) list") (fs_expandDepth: nat)

definition expandingRelation :: "field_selection option \<Rightarrow> string \<Rightarrow> bool" where
  "expandingRelation sel name = (case sel of None \<Rightarrow> False
   | Some s \<Rightarrow> amap_has name (fs_relations s) \<or> 0 < fs_expandDepth s \<or> name \<in> set (fs_columns s))"

definition hidden_relation :: "field_selection option \<Rightarrow> field_definition \<Rightarrow> string list" where
  "hidden_relation sel f =
     (if expandingRelation sel (fd_name f) then []
      else if fd_type f = ''m2o'' then [fd_name f]
      else if fd_type f = ''m2a'' then [fd_name f @ ''_type'', fd_name f @ ''_id''] else [])"

definition defaultLeanHiddenColumns :: "field_definition list \<Rightarrow> system_field_options \<Rightarrow> field_selection option \<Rightarrow> string list" where
  "defaultLeanHiddenColumns schemaFields opts sel =
     uniq (concat (map (hidden_relation sel) schemaFields) @
       filter (\<lambda>c. c \<in> set SYSTEM_REFERENCE_COLUMNS \<and> (case sel of None \<Rightarrow> True | Some s \<Rightarrow> c \<notin> set (fs_columns s)))
         (buildSystemColumnsList opts))"

text \<open>A list of names that is absent or empty restricts nothing: both are the empty list here.\<close>

record freeze_rule =
  fz_field :: "string option"
  fz_values :: "string list"

record write_policy =
  wp_mode :: "string option"
  wp_append_only :: bool
  wp_frozen_fields :: "string list"
  wp_freeze_when :: "freeze_rule option"
  wp_confirmable :: bool

record status_machine =
  sm_field :: string
  sm_transitions :: "(string, string list) amap"

record collection_info =
  co_table :: string
  co_fields :: "field_definition list"
  co_naming_series :: "string option"
  co_singleton :: bool
  co_system :: system_field_options
  co_audit :: bool
  co_status_machine :: "status_machine option"
  co_writes :: "write_policy option"
  co_actor_fields :: "string list"

text \<open>A row of \<open>_entity_schemas\<close>; its \<open>system_field_options\<close> are parsed (none where they are absent or malformed).\<close>

record entity_schema =
  es_slug :: string
  es_name :: string
  es_table :: string
  es_schema_json :: string
  es_system :: system_field_options

section \<open>The state of the services\<close>

datatype effect =
    HookStarted string string jsobj
  | ChainStarted string string jsobj
  | WebhookFired string string jsobj
  | Audited string string string jsobj
  | MediaSynced string string jsobj
  | RuleAudited string "string option" string string
  | ReadsDropped string "string option"

text \<open>The claims are the rows of \<open>_naming_series\<close>, \<open>None\<close> before that table exists.\<close>

record api_world =
  w_store :: store
  w_authz :: authz_db
  w_cache :: cache_layer
  w_claims :: "(string \<times> string \<times> string) list option"
  w_log :: "effect list"

text \<open>
  What a request finds outside the services: the time (in milliseconds and as the text of a
  column), \<open>crypto.randomUUID\<close> (one UUID per purpose), \<open>JSON.parse\<close>, the database's answer to a
  SELECT (the first row) and its constraints, the caller, and the registered plugins. \<open>en_fields\<close>
  reads \<open>fields\<close> of a \<open>schema_json\<close>; \<open>en_collection\<close> and \<open>en_collections\<close> are the schema service.
\<close>

record api_env =
  en_now :: int
  en_stamp :: string
  en_uuid :: "string \<Rightarrow> string"
  en_parse :: "string \<Rightarrow> jsval res"
  en_first :: "sql_stmt \<Rightarrow> store \<Rightarrow> jsobj option res"
  en_refuses :: "sql_write list \<Rightarrow> store \<Rightarrow> string option"
  en_auth :: "auth_context option"
  en_collection :: "string \<Rightarrow> collection_info res"
  en_collections :: "entity_schema list"
  en_fields :: "string \<Rightarrow> field_definition list option"
  en_prefix :: string
  en_eval :: eval_env

type_synonym 'a api = "('a, api_world) act"

definition logA :: "effect \<Rightarrow> unit api" where
  "logA e = writeA (\<lambda>w. w\<lparr>w_log := w_log w @ [e]\<rparr>)"

definition batchA :: "api_env \<Rightarrow> sql_write list \<Rightarrow> unit api" where
  "batchA env ws w = (case run_batch (en_refuses env) ws (w_store w) of
     Inl e \<Rightarrow> (Inl e, w) | Inr db \<Rightarrow> (Inr (), w\<lparr>w_store := db\<rparr>))"

definition dropReads :: "string \<Rightarrow> string option \<Rightarrow> unit api" where
  "dropReads slug i = writeA (\<lambda>w. w\<lparr>w_cache := fst (invalidateCollectionReads slug i (w_cache w)),
     w_log := w_log w @ [ReadsDropped slug i]\<rparr>)"

text \<open>A read through the permission cache.\<close>

definition cachedA :: "(authz_db \<Rightarrow> cache_layer \<Rightarrow> 'a \<times> cache_layer) \<Rightarrow> 'a api" where
  "cachedA f w = (let (v, c) = f (w_authz w) (w_cache w) in (Inr v, w\<lparr>w_cache := c\<rparr>))"

definition checkRowFilterAccess :: "api_env \<Rightarrow> string \<Rightarrow> string \<Rightarrow> string \<Rightarrow> unit api" where
  "checkRowFilterAccess env slug table i = (case en_auth env of
     None \<Rightarrow> retA ()
   | Some a \<Rightarrow> if au_is_admin a then retA () else
       bindA (liftA (bindR (qb_from table) (\<lambda>q. bindR (qb_select [''id''] q) (qb_where ''id'' (Str i) Undef)))) (\<lambda>q.
       bindA (cachedA (\<lambda>db c. applyRowFilter (en_parse env) (en_now env) db (Some a) slug q c)) (\<lambda>r.
       bindA (liftA (bindR r toSelect)) (\<lambda>stmt.
       bindA (\<lambda>w. (en_first env stmt (w_store w), w)) (\<lambda>row.
       case row of Some _ \<Rightarrow> retA ()
       | None \<Rightarrow> failA (JsError ''ForbiddenError'' ''You do not have access to this record''))))))"

definition authFingerprint :: "auth_context option \<Rightarrow> string" where
  "authFingerprint a = (case a of None \<Rightarrow> ''anon''
   | Some x \<Rightarrow> if au_user_id x \<noteq> [] then au_user_id x else if au_email x \<noteq> [] then au_email x else ''anon'')"

text \<open>
  \<open>evaluateExpression\<close> of a stored text: it always returns (\<open>evaluator_always_returns\<close>), so the last case
  does not arise.
\<close>

definition eval_text :: "eval_env \<Rightarrow> string \<Rightarrow> jsobj \<Rightarrow> jsval res" where
  "eval_text ev e scope = (case evaluateExpression ev (Str e) scope of Some r \<Rightarrow> r | None \<Rightarrow> throw [])"

section \<open>What the small steps keep\<close>

lemma logA_store [simp]: "logA e w = (Inr (), w\<lparr>w_log := w_log w @ [e]\<rparr>)"
  by (simp add: logA_def)

lemma dropReads_store [simp]:
  "dropReads slug i w = (Inr (), w\<lparr>w_cache := fst (invalidateCollectionReads slug i (w_cache w)),
     w_log := w_log w @ [ReadsDropped slug i]\<rparr>)"
  by (simp add: dropReads_def)

lemma checkRowFilterAccess_store: "checkRowFilterAccess env slug t i w = (r, w') \<Longrightarrow> w_store w' = w_store w"
  by (auto simp: checkRowFilterAccess_def bindA_def cachedA_def Let_def split: option.splits prod.splits sum.splits if_splits)

lemma batchA_cases:
  "batchA env ws w = (Inr u, w') \<Longrightarrow> \<exists>db. run_batch (en_refuses env) ws (w_store w) = Inr db \<and> w' = w\<lparr>w_store := db\<rparr>"
  "batchA env ws w = (Inl e, w') \<Longrightarrow> w' = w"
  by (auto simp: batchA_def split: sum.splits)

section \<open>A small system for the witnesses\<close>

definition plain_info :: "string \<Rightarrow> field_definition list \<Rightarrow> collection_info" where
  "plain_info table fs = \<lparr>co_table = table, co_fields = fs, co_naming_series = None, co_singleton = False, co_system = [],
     co_audit = False, co_status_machine = None, co_writes = None, co_actor_fields = []\<rparr>"

definition demo_env :: "(string \<times> collection_info) list \<Rightarrow> api_env" where
  "demo_env cs = \<lparr>en_now = 0, en_stamp = ''2026-01-01T00:00:00.000Z'', en_uuid = (\<lambda>p. p), en_parse = (\<lambda>s. throw s),
     en_first = (\<lambda>stmt db. Inr None), en_refuses = (\<lambda>ws db. None), en_auth = None,
     en_collection = (\<lambda>s. case map_of cs s of None \<Rightarrow> throw s | Some c \<Rightarrow> Inr c),
     en_collections = map (\<lambda>(s, c). \<lparr>es_slug = s, es_name = s, es_table = co_table c, es_schema_json = s, es_system = co_system c\<rparr>) cs,
     en_fields = (\<lambda>j. map_option co_fields (map_of cs j)), en_prefix = ''cms_'',
     en_eval = \<lparr>ev_registry = [], ev_math = (\<lambda>f xs. NaN)\<rparr>\<rparr>"

definition demo_world :: "store \<Rightarrow> api_world" where
  "demo_world db = \<lparr>w_store = db, w_authz = \<lparr>az_permissions = [], az_stamps = []\<rparr>,
     w_cache = \<lparr>c_store = [], c_tags = []\<rparr>, w_claims = None, w_log = []\<rparr>"

end
