(* ===== verification/Cascade.thy ===== *)
theory Cascade
  imports Collections
begin

text \<open>
  \<open>apps/api/src/lib/services/collection-cascade.service.ts\<close>: the statements that maintain the junction
  rows of many-to-many fields, and the cascading delete, a breadth-first walk over the relations
  that declare \<open>cascade_delete\<close>. The keys \<open>slug:id\<close> of the code are pairs (a slug has no colon).
\<close>

section \<open>Junction rows\<close>

definition table_by_slug :: "entity_schema list \<Rightarrow> (string, string) amap" where
  "table_by_slug cs = amap_of (map (\<lambda>c. (es_slug c, es_table c)) cs)"

definition target_table :: "api_env \<Rightarrow> string \<Rightarrow> string" where
  "target_table env slug = (case map_of (table_by_slug (en_collections env)) slug of
     Some t \<Rightarrow> t | None \<Rightarrow> collectionTable slug (en_prefix env))"

definition related_slug :: "field_definition \<Rightarrow> string option" where
  "related_slug f = (case fd_related_collection f of Some s \<Rightarrow> if s = [] then None else Some s | None \<Rightarrow> None)"

definition junction_row :: "api_env \<Rightarrow> string \<Rightarrow> string \<Rightarrow> jsval \<Rightarrow> jsobj" where
  "junction_row env jt sourceId targetId =
     [(''id'', Str (en_uuid env (jt @ '':'' @ to_str targetId))), (''source_id'', Str sourceId),
      (''target_id'', Str (to_str targetId)), (''created_at'', Str (en_stamp env))]"

definition m2m_writes :: "api_env \<Rightarrow> string \<Rightarrow> jsobj \<Rightarrow> string \<Rightarrow> bool \<Rightarrow> field_definition \<Rightarrow> sql_write list \<Rightarrow> sql_write list res" where
  "m2m_writes env table data sourceId update f out =
     (let val = obj_get data (fd_name f) in
      if update \<and> val = Undef then Inr out
      else (case related_slug f of None \<Rightarrow> Inr out | Some rel \<Rightarrow>
        bindR (createJunctionTable table (target_table env rel)) (\<lambda>(jt, _).
          Inr (out @ (if update then [DeleteIn jt ''source_id'' [sourceId]] else []) @
            (case val of Arr vs \<Rightarrow> map (\<lambda>v. InsertRow jt (junction_row env jt sourceId v)) vs | _ \<Rightarrow> [])))))"

definition buildM2MStatements :: "api_env \<Rightarrow> string \<Rightarrow> jsobj \<Rightarrow> field_definition list \<Rightarrow> string \<Rightarrow> bool \<Rightarrow> sql_write list res" where
  "buildM2MStatements env table data sf sourceId update =
     foldR (m2m_writes env table data sourceId update)
       (filter (\<lambda>f. fd_type f = ''m2m'' \<and> related_slug f \<noteq> None) sf) []"

text \<open>A failing clean-up of one junction table is logged; the rows where the item is the target stay.\<close>

definition clean_junction :: "api_env \<Rightarrow> collection_info \<Rightarrow> string list \<Rightarrow> field_definition \<Rightarrow> unit api" where
  "clean_junction env info ids f =
     (case (fd_type f = ''m2m'', related_slug f) of
        (True, Some rel) \<Rightarrow> (case map_of (table_by_slug (en_collections env)) rel of
            None \<Rightarrow> retA ()
          | Some target \<Rightarrow> bindA (liftA (createJunctionTable (co_table info) target)) (\<lambda>(jt, _).
              catchA (batchA env [DeleteIn jt ''source_id'' ids]) (\<lambda>e. retA ())))
      | _ \<Rightarrow> retA ())"

definition deleteM2MJunctions :: "api_env \<Rightarrow> string \<Rightarrow> string list \<Rightarrow> unit api" where
  "deleteM2MJunctions env slug ids =
     (if ids = [] then retA ()
      else bindA (liftA (en_collection env slug)) (\<lambda>info. eachA (clean_junction env info ids) (co_fields info)))"

section \<open>The cascading delete\<close>

text \<open>The relations into a collection that cascade: from the parent's slug to (child, field).\<close>

definition cascade_fields :: "api_env \<Rightarrow> entity_schema \<Rightarrow> (string \<times> string \<times> string) list" where
  "cascade_fields env c = (case en_fields env (es_schema_json c) of
     None \<Rightarrow> []
   | Some fs \<Rightarrow> concat (map (\<lambda>f. case related_slug f of
       Some rel \<Rightarrow> if fd_type f = ''m2o'' \<and> flag (fd_cascade_delete f) \<and> rel \<noteq> es_slug c
                    then [(rel, es_slug c, fd_name f)] else []
     | None \<Rightarrow> []) fs))"

definition add_link :: "string \<times> 'a \<Rightarrow> (string, 'a list) amap \<Rightarrow> (string, 'a list) amap" where
  "add_link kl m = amap_set (fst kl) ((case map_of m (fst kl) of None \<Rightarrow> [] | Some ls \<Rightarrow> ls) @ [snd kl]) m"

definition links_of :: "(string, 'a list) amap \<Rightarrow> string \<Rightarrow> 'a list" where
  "links_of m k = (case map_of m k of None \<Rightarrow> [] | Some ls \<Rightarrow> ls)"

definition buildCascadeMap :: "api_env \<Rightarrow> (string, (string \<times> string) list) amap" where
  "buildCascadeMap env = fold add_link (concat (map (cascade_fields env) (en_collections env))) []"

datatype delete_mode = Soft | Hard

text \<open>The children that were not visited before: the visited keys and the fresh ids.\<close>

definition mark_fresh :: "string \<Rightarrow> string \<Rightarrow> (string \<times> string) list \<times> string list \<Rightarrow> (string \<times> string) list \<times> string list" where
  "mark_fresh slug c st = (if (slug, c) \<in> set (fst st) then st else (fst st @ [(slug, c)], snd st @ [c]))"

fun bucket_add :: "string \<Rightarrow> string list \<Rightarrow> (string \<times> string list) list \<Rightarrow> (string \<times> string list) list" where
  "bucket_add s cs [] = [(s, cs)]"
| "bucket_add s cs ((s', ids) # m) = (if s = s' then (s', ids @ cs) # m else (s', ids) # bucket_add s cs m)"

definition trash_stamp :: "api_env \<Rightarrow> jsobj" where
  "trash_stamp env = [(''deleted_at'', Str (en_stamp env)), (''updated_at'', Str (en_stamp env))]"

type_synonym cascade_acc = "(string \<times> string) list \<times> (string \<times> string) list \<times> (string \<times> string list) list"

text \<open>One query of a level: the children of \<open>ids\<close> through one field of one collection.\<close>

definition remove_children :: "api_env \<Rightarrow> delete_mode \<Rightarrow> string \<Rightarrow> string \<Rightarrow> string list \<Rightarrow> unit api" where
  "remove_children env mode slug table fresh =
     (case mode of
        Soft \<Rightarrow> batchA env [UpdateIn table ''id'' fresh (trash_stamp env)]
      | Hard \<Rightarrow> bindA (batchA env [DeleteIn table ''id'' fresh]) (\<lambda>_. deleteM2MJunctions env slug fresh))"

definition cascade_probe :: "api_env \<Rightarrow> delete_mode \<Rightarrow> string list \<Rightarrow> string \<times> string \<Rightarrow> cascade_acc \<Rightarrow> cascade_acc api" where
  "cascade_probe env mode ids link acc =
     (let (visited, deleted, nxt) = acc; (childSlug, field) = link in
      bindA (liftA (en_collection env childSlug)) (\<lambda>info.
      bindA (\<lambda>w. (select_rows (co_table info) (\<lambda>r. col_in field ids r \<and> live r) (w_store w), w)) (\<lambda>rows.
      let (visited', fresh) = fold (mark_fresh childSlug) (map row_id rows) (visited, []) in
      if fresh = [] then retA (visited', deleted, nxt)
      else bindA (remove_children env mode childSlug (co_table info) fresh) (\<lambda>_.
        retA (visited', deleted @ map (Pair childSlug) fresh, bucket_add childSlug fresh nxt)))))"

definition cascade_level :: "api_env \<Rightarrow> delete_mode \<Rightarrow> (string \<times> string list) list \<Rightarrow> cascade_acc \<Rightarrow> cascade_acc api" where
  "cascade_level env mode level acc =
     foldA (\<lambda>(slug, ids). foldA (cascade_probe env mode ids) (links_of (buildCascadeMap env) slug)) level acc"

text \<open>The ids of the whole database only shrink, so the walk ends.\<close>

definition ids_of :: "store \<Rightarrow> string set" where
  "ids_of db = (\<Union>trs \<in> set db. row_id ` set (snd trs))"

lemma finite_ids_of: "finite (ids_of db)"
  by (simp add: ids_of_def)

lemma ids_of_rows: "r \<in> set (rows_of db t) \<Longrightarrow> row_id r \<in> ids_of db"
proof -
  assume r: "r \<in> set (rows_of db t)"
  then obtain rs where "map_of db t = Some rs" "r \<in> set rs" by (cases "map_of db t") (auto simp: rows_of_def)
  then show ?thesis using map_of_SomeD [of db t rs] unfolding ids_of_def by force
qed

lemma amap_set_subset: "set (amap_set k v m) \<subseteq> insert (k, v) (set m)"
  by (induction k v m rule: amap_set.induct) (auto split: if_splits)

lemma ids_of_put: "ids_of (put_rows t rs db) \<subseteq> ids_of db \<union> row_id ` set rs"
proof (cases "amap_has t db")
  case True
  have "ids_of (amap_set t rs db) \<subseteq> (\<Union>trs \<in> insert (t, rs) (set db). row_id ` set (snd trs))"
    unfolding ids_of_def by (rule UN_mono [OF amap_set_subset]) simp
  then show ?thesis using True by (auto simp: put_rows_def ids_of_def)
qed (simp add: put_rows_def)

fun shrinking :: "sql_write \<Rightarrow> bool" where
  "shrinking (InsertRow t r) = False"
| "shrinking (UpdateIn t c vs u) = (\<not> amap_has ''id'' u)"
| "shrinking (DeleteIn t c vs) = True"

lemma fold_set_lookup: "k \<notin> fst ` set es \<Longrightarrow> map_of (fold (\<lambda>(k, v). amap_set k v) es r) k = map_of r k"
  by (induction es arbitrary: r) auto

lemma spread_keeps_id: "\<not> amap_has ''id'' u \<Longrightarrow> row_id (obj_spread r u) = row_id r"
  unfolding row_id_def obj_spread_def by (subst fold_set_lookup) (auto simp: amap_has_iff)

lemma ids_of_put_sub: "row_id ` set rs \<subseteq> ids_of db \<Longrightarrow> ids_of (put_rows t rs db) \<subseteq> ids_of db"
  using ids_of_put [of t rs db] by blast

lemma ids_of_shrinking: "shrinking w \<Longrightarrow> ids_of (apply_write w db) \<subseteq> ids_of db"
  by (cases w) (auto intro!: ids_of_put_sub simp del: fst_conv simp: spread_keeps_id ids_of_rows)

lemma run_writes_ids: "run_writes ws db = Inr db' \<Longrightarrow> list_all shrinking ws \<Longrightarrow> ids_of db' \<subseteq> ids_of db"
proof (induction ws arbitrary: db)
  case (Cons w ws)
  then have "ids_of db' \<subseteq> ids_of (apply_write w db)" "shrinking w" by (auto split: option.splits)
  then show ?case using ids_of_shrinking by blast
qed simp

lemma batchA_ids:
  assumes "batchA env ws w = (r, w')" "list_all shrinking ws" shows "ids_of (w_store w') \<subseteq> ids_of (w_store w)"
proof (cases "run_batch (en_refuses env) ws (w_store w)")
  case (Inr db)
  then show ?thesis using assms run_writes_ids [OF run_batch_writes [OF Inr]] by (auto simp: batchA_def)
qed (use assms in \<open>auto simp: batchA_def\<close>)

lemma clean_junction_ids:
  assumes "clean_junction env info ids f w = (r, w')" shows "ids_of (w_store w') \<subseteq> ids_of (w_store w)"
proof -
  have b: "ids_of (w_store v) \<subseteq> ids_of (w_store w)" if "batchA env [DeleteIn jt c ids] w = (q, v)" for jt c q v
    using batchA_ids [OF that] by simp
  show ?thesis
    using assms by (auto simp: clean_junction_def bindA_def catchA_def split: prod.splits sum.splits option.splits bool.splits dest!: b)
qed

lemma deleteM2MJunctions_ids:
  assumes "deleteM2MJunctions env slug ids w = (r, w')" shows "ids_of (w_store w') \<subseteq> ids_of (w_store w)"
proof (cases "ids = []")
  case False
  show ?thesis
  proof (cases "en_collection env slug")
    case (Inr info)
    have "foldA (\<lambda>x u. clean_junction env info ids x) (co_fields info) () w = (r, w')"
      using assms False Inr by (simp add: deleteM2MJunctions_def bindA_def eachA_def)
    then show ?thesis
      by (rule foldA_keeps [rotated 2, where I = "\<lambda>w'. ids_of (w_store w') \<subseteq> ids_of (w_store w)"])
        (use clean_junction_ids in blast)+
  qed (use assms False in \<open>simp add: deleteM2MJunctions_def bindA_def\<close>)
qed (use assms in \<open>simp add: deleteM2MJunctions_def\<close>)

lemma remove_children_ids:
  assumes "remove_children env mode slug t fresh w = (r, w')" shows "ids_of (w_store w') \<subseteq> ids_of (w_store w)"
proof (cases mode)
  case Soft
  then show ?thesis using assms batchA_ids [where ws = "[UpdateIn t ''id'' fresh (trash_stamp env)]"]
    by (simp add: remove_children_def trash_stamp_def amap_has_def)
next
  case Hard
  obtain q v where q: "batchA env [DeleteIn t ''id'' fresh] w = (q, v)" by fastforce
  have "ids_of (w_store v) \<subseteq> ids_of (w_store w)" using batchA_ids [OF q] by simp
  moreover have "ids_of (w_store w') \<subseteq> ids_of (w_store v)"
    using assms Hard q deleteM2MJunctions_ids by (cases q) (fastforce simp: remove_children_def bindA_def)+
  ultimately show ?thesis by blast
qed

lemma links_of_fold: "links_of (fold add_link kls m) k = links_of m k @ map snd (filter (\<lambda>kl. fst kl = k) kls)"
  by (induction kls arbitrary: m) (auto simp: add_link_def links_of_def)

lemma links_of_buildCascadeMap:
  "link \<in> set (links_of (buildCascadeMap env) slug) \<longleftrightarrow> (\<exists>c \<in> set (en_collections env). (slug, link) \<in> set (cascade_fields env c))"
  unfolding buildCascadeMap_def links_of_fold by (force simp: links_of_def)

lemma link_slug: "(s', f) \<in> set (links_of (buildCascadeMap env) slug) \<Longrightarrow> s' \<in> es_slug ` set (en_collections env)"
  by (auto simp: links_of_buildCascadeMap cascade_fields_def split: option.splits if_splits)

lemma mark_fresh_all:
  "fold (mark_fresh s) cs (vis, fr) = (vis', fr') \<Longrightarrow>
     set vis' = set vis \<union> Pair s ` set cs \<and> set fr' = set fr \<union> {c \<in> set cs. (s, c) \<notin> set vis}"
  by (induction cs arbitrary: vis fr) (auto simp: mark_fresh_def split: if_splits)

lemma bucket_add_nonempty [simp]: "bucket_add s cs m \<noteq> []"
  by (induction s cs m rule: bucket_add.induct) auto

text \<open>What a successful probe does, and what it says about a run that began at \<open>vis0\<close> and \<open>w0\<close>.\<close>

lemma cascade_probeE:
  assumes "cascade_probe env mode ids (s', f) (vis, del, nxt) w = (Inr (vis', del', nxt'), w')"
  obtains info rows fresh where "en_collection env s' = Inr info"
    "select_rows (co_table info) (\<lambda>r. col_in f ids r \<and> live r) (w_store w) = Inr rows"
    "fold (mark_fresh s') (map row_id rows) (vis, []) = (vis', fresh)"
    "fresh = [] \<and> del' = del \<and> nxt' = nxt \<and> w' = w \<or>
     fresh \<noteq> [] \<and> remove_children env mode s' (co_table info) fresh w = (Inr (), w') \<and>
       del' = del @ map (Pair s') fresh \<and> nxt' = bucket_add s' fresh nxt"
proof -
  obtain info where info: "en_collection env s' = Inr info"
    using assms by (auto simp: cascade_probe_def bindA_Inr_iff)
  obtain rows where rows: "select_rows (co_table info) (\<lambda>r. col_in f ids r \<and> live r) (w_store w) = Inr rows"
    using assms info by (auto simp: cascade_probe_def bindA_Inr_iff)
  obtain v fresh where fresh: "fold (mark_fresh s') (map row_id rows) (vis, []) = (v, fresh)" by fastforce
  note r = assms [unfolded cascade_probe_def, simplified info bindA_def rows Let_def act_simps prod.case sum.case fresh]
  show thesis
  proof (cases "fresh = []")
    case True
    then show thesis using r fresh by (intro that [OF info rows]) auto
  next
    case False
    then show thesis using r fresh by (intro that [OF info rows]) (auto simp: bindA_Inr_iff)
  qed
qed

definition walk_ok :: "api_env \<Rightarrow> (string \<times> string) list \<Rightarrow> api_world \<Rightarrow> cascade_acc \<Rightarrow> api_world \<Rightarrow> bool" where
  "walk_ok env vis0 w0 acc w \<longleftrightarrow> (let (vis, del, nxt) = acc in
     set vis0 \<subseteq> set vis \<and> set vis - set vis0 \<subseteq> es_slug ` set (en_collections env) \<times> ids_of (w_store w0) \<and>
     ids_of (w_store w) \<subseteq> ids_of (w_store w0) \<and> (nxt \<noteq> [] \<longrightarrow> \<not> set vis \<subseteq> set vis0))"

lemma walk_probe:
  assumes ok: "walk_ok env vis0 w0 (vis, del, nxt) w" and s': "s' \<in> es_slug ` set (en_collections env)"
    and probe: "cascade_probe env mode ids (s', f) (vis, del, nxt) w = (Inr (vis', del', nxt'), w')"
  shows "walk_ok env vis0 w0 (vis', del', nxt') w'"
  using probe
proof (rule cascade_probeE)
  fix info rows fresh
  assume rows: "select_rows (co_table info) (\<lambda>r. col_in f ids r \<and> live r) (w_store w) = Inr rows"
    and fresh: "fold (mark_fresh s') (map row_id rows) (vis, []) = (vis', fresh)"
    and out: "fresh = [] \<and> del' = del \<and> nxt' = nxt \<and> w' = w \<or>
      fresh \<noteq> [] \<and> remove_children env mode s' (co_table info) fresh w = (Inr (), w') \<and>
        del' = del @ map (Pair s') fresh \<and> nxt' = bucket_add s' fresh nxt"
  have r: "row_id ` set rows \<subseteq> ids_of (w_store w)"
    using rows ids_of_rows by (auto simp: select_rows_def split: if_splits)
  have v: "set vis' = set vis \<union> Pair s' ` row_id ` set rows" "set fresh = {c \<in> row_id ` set rows. (s', c) \<notin> set vis}"
    using mark_fresh_all [OF fresh] by auto
  have w': "ids_of (w_store w') \<subseteq> ids_of (w_store w)" using out remove_children_ids by blast
  have new: "\<not> set vis' \<subseteq> set vis0" if "fresh \<noteq> []"
  proof -
    have "hd fresh \<in> set fresh" using that by simp
    then have "(s', hd fresh) \<in> set vis'" "(s', hd fresh) \<notin> set vis" using v by auto
    then show ?thesis using ok by (auto simp: walk_ok_def)
  qed
  show ?thesis
    unfolding walk_ok_def prod.case Let_def
  proof (intro conjI)
    show "set vis0 \<subseteq> set vis'" using ok v by (auto simp: walk_ok_def)
    show "set vis' - set vis0 \<subseteq> es_slug ` set (en_collections env) \<times> ids_of (w_store w0)"
    proof -
      have "row_id ` set rows \<subseteq> ids_of (w_store w0)" using r ok unfolding walk_ok_def prod.case Let_def by blast
      then have "Pair s' ` row_id ` set rows \<subseteq> es_slug ` set (en_collections env) \<times> ids_of (w_store w0)" using s' by blast
      then show ?thesis using ok unfolding v walk_ok_def prod.case Let_def by blast
    qed
    show "ids_of (w_store w') \<subseteq> ids_of (w_store w0)" using ok w' by (auto simp: walk_ok_def)
    show "nxt' \<noteq> [] \<longrightarrow> \<not> set vis' \<subseteq> set vis0"
    proof (cases "fresh = []")
      case True
      then show ?thesis using out ok v by (auto simp: walk_ok_def)
    qed (use new in blast)
  qed
qed

lemma walk_level:
  assumes "cascade_level env mode level (vis, del, []) w = (Inr (vis', del', nxt'), w')"
  shows "walk_ok env vis w (vis', del', nxt') w'"
proof -
  let ?I = "\<lambda>acc v. walk_ok env vis w acc v"
  have probes: "?I c u" if "?I b t" "foldA (cascade_probe env mode ids) (links_of (buildCascadeMap env) slug) b t = (Inr c, u)"
    for slug ids b t c u
  proof (rule foldA_invariant [where I = ?I, OF that(2,1)])
    fix x acc v acc' v'
    assume x: "x \<in> set (links_of (buildCascadeMap env) slug)" and ok: "?I acc v"
      and p: "cascade_probe env mode ids x acc v = (Inr acc', v')"
    obtain s' f where xe: "x = (s', f)" by fastforce
    obtain a1 a2 a3 where ae: "acc = (a1, a2, a3)" by (metis prod_cases3)
    obtain b1 b2 b3 where be: "acc' = (b1, b2, b3)" by (metis prod_cases3)
    show "?I acc' v'" unfolding be
      by (rule walk_probe [OF ok [unfolded ae] link_slug p [unfolded xe ae be]]) (use x xe in blast)
  qed
  show ?thesis
  proof (rule foldA_invariant [where I = ?I, OF assms [unfolded cascade_level_def]])
    show "?I (vis, del, []) w" by (simp add: walk_ok_def)
    show "?I c u" if "?I b t" "(case x of (slug, ids) \<Rightarrow> foldA (cascade_probe env mode ids) (links_of (buildCascadeMap env) slug)) b t = (Inr c, u)"
      for x b t c u using that probes by (cases x) auto
  qed
qed

text \<open>The levels, until one finds nothing.\<close>

function cascade_loop :: "api_env \<Rightarrow> delete_mode \<Rightarrow> (string \<times> string list) list \<Rightarrow> (string \<times> string) list \<Rightarrow> (string \<times> string) list
    \<Rightarrow> (string \<times> string) list api" where
  "cascade_loop env mode level visited deleted w =
     (if level = [] then (Inr deleted, w)
      else case cascade_level env mode level (visited, deleted, []) w of
        (Inl e, w') \<Rightarrow> (Inl e, w')
      | (Inr (visited', deleted', nxt), w') \<Rightarrow> cascade_loop env mode nxt visited' deleted' w')"
  by pat_completeness auto
termination
proof (relation "(\<lambda>(env, mode, level, vis, del, w). card (es_slug ` set (en_collections env) \<times> ids_of (w_store w) - set vis))
    <*mlex*> measure (\<lambda>(env, mode, level, vis, del, w). length level)", goal_cases)
  case 1
  then show ?case by (intro wf_mlex) simp
next
  case (2 env mode level vis del w r w' acc vis' rest del' nxt)
  let ?U = "\<lambda>w. es_slug ` set (en_collections env) \<times> ids_of (w_store w)"
  have ok: "walk_ok env vis w (vis', del', nxt) w'" using 2 walk_level by metis
  have sub: "?U w' - set vis' \<subseteq> ?U w - set vis" using ok by (auto simp: walk_ok_def)
  have fin: "finite (?U w - set vis)" using finite_ids_of by blast
  show ?case
  proof (cases "nxt = []")
    case True
    have "card (?U w' - set vis') \<le> card (?U w - set vis)" by (rule card_mono [OF fin sub])
    then show ?thesis using True 2(1) by (intro mlex_leq) simp_all
  next
    case False
    then have "?U w' - set vis' \<subset> ?U w - set vis" using ok sub by (fastforce simp: walk_ok_def)
    then have "card (?U w' - set vis') < card (?U w - set vis)" by (rule psubset_card_mono [OF fin])
    then show ?thesis by (intro mlex_less) simp
  qed
qed

declare cascade_loop.simps [simp del]

text \<open>The result of the code is the list of \<open>slug:id\<close>.\<close>

definition cascadeDelete :: "api_env \<Rightarrow> string \<Rightarrow> string \<Rightarrow> delete_mode \<Rightarrow> (string \<times> string) list api" where
  "cascadeDelete env slug i mode = cascade_loop env mode [(slug, [i])] [(slug, i)] []"

end
