(* ===== verification/CascadeClaims.thy ===== *)
theory CascadeClaims
  imports Cascade
begin

text \<open>The property of the cascading delete: what it trashes is what the relations reach.\<close>

section \<open>Specification\<close>

text \<open>One step of the cascade: a live row whose field holds the id of the parent.\<close>

definition cascade_edges :: "api_env \<Rightarrow> store \<Rightarrow> ((string \<times> string) \<times> (string \<times> string)) set" where
  "cascade_edges env db = {((s, i), (s', row_id r)) | s i s' f info r.
     (s', f) \<in> set (links_of (buildCascadeMap env) s) \<and> en_collection env s' = Inr info \<and>
     r \<in> set (rows_of db (co_table info)) \<and> col_in f [i] r \<and> live r}"

definition trashed_key :: "api_env \<Rightarrow> (string \<times> string) set \<Rightarrow> string \<Rightarrow> jsobj \<Rightarrow> bool" where
  "trashed_key env D t r \<longleftrightarrow> (\<exists>s info. (s, row_id r) \<in> D \<and> en_collection env s = Inr info \<and> co_table info = t)"

definition trash_row :: "api_env \<Rightarrow> (string \<times> string) set \<Rightarrow> string \<Rightarrow> jsobj \<Rightarrow> jsobj" where
  "trash_row env D t r = (if trashed_key env D t r then obj_spread r (trash_stamp env) else r)"

text \<open>What the walk needs: known collections with a table of their own, rows with ids.\<close>

definition cascade_ready :: "api_env \<Rightarrow> store \<Rightarrow> bool" where
  "cascade_ready env db \<longleftrightarrow>
     (\<forall>c \<in> set (en_collections env). \<exists>info. en_collection env (es_slug c) = Inr info \<and> amap_has (co_table info) db) \<and>
     (\<forall>c \<in> set (en_collections env). \<forall>c' \<in> set (en_collections env). \<forall>info info'.
        en_collection env (es_slug c) = Inr info \<and> en_collection env (es_slug c') = Inr info' \<and> co_table info = co_table info'
          \<longrightarrow> es_slug c = es_slug c') \<and>
     (\<forall>ws db'. en_refuses env ws db' = None) \<and>
     (\<forall>t. \<forall>r \<in> set (rows_of db t). map_of r ''id'' = Some (Str (row_id r)))"

section \<open>One query\<close>

lemma trash_row_id [simp]: "row_id (trash_row env D t r) = row_id r"
  by (simp add: trash_row_def trash_stamp_def spread_keeps_id amap_has_def)

lemma stamped_not_live: "\<not> live (obj_spread r (trash_stamp env))"
proof -
  have "map_of (obj_spread r (trash_stamp env)) ''deleted_at'' = Some (Str (en_stamp env))"
    by (subst obj_spread_lookup) (simp_all add: trash_stamp_def amap_ok_def)
  then show ?thesis by (simp add: live_def col_null_def is_nullish_def)
qed

lemma trash_row_live: "col_in f ids (trash_row env D t r) \<and> live (trash_row env D t r) \<longleftrightarrow>
    \<not> trashed_key env D t r \<and> col_in f ids r \<and> live r"
  by (simp add: trash_row_def stamped_not_live)

lemma mark_fresh_distinct:
  "fold (mark_fresh s) cs (vis, fr) = (vis', fr') \<Longrightarrow> distinct fr \<Longrightarrow> Pair s ` set fr \<subseteq> set vis \<Longrightarrow> distinct fr'"
proof (induction cs arbitrary: vis fr)
  case (Cons c cs)
  show ?case
  proof (cases "(s, c) \<in> set vis")
    case False
    then have "mark_fresh s c (vis, fr) = (vis @ [(s, c)], fr @ [c])" by (simp add: mark_fresh_def)
    then have "fold (mark_fresh s) cs (vis @ [(s, c)], fr @ [c]) = (vis', fr')" using Cons.prems(1) by simp
    moreover have "distinct (fr @ [c])" "Pair s ` set (fr @ [c]) \<subseteq> set (vis @ [(s, c)])"
      using Cons.prems(2,3) False by auto
    ultimately show ?thesis by (rule Cons.IH)
  qed (use Cons in \<open>auto simp: mark_fresh_def\<close>)
qed simp

definition keysL :: "(string \<times> string list) list \<Rightarrow> (string \<times> string) set" where
  "keysL m = {(s, i). \<exists>ids. (s, ids) \<in> set m \<and> i \<in> set ids}"

lemma keysL_Nil [simp]: "keysL [] = {}"
  by (simp add: keysL_def)

lemma keysL_bucket_add [simp]: "keysL (bucket_add s cs m) = keysL m \<union> Pair s ` set cs"
  by (induction s cs m rule: bucket_add.induct) (auto simp: keysL_def)

text \<open>The state of the walk: what is trashed, relative to the database before it.\<close>

definition walk_state :: "api_env \<Rightarrow> store \<Rightarrow> string \<times> string \<Rightarrow> (string \<times> string) list \<Rightarrow> cascade_acc \<Rightarrow> api_world \<Rightarrow> bool" where
  "walk_state env db0 start vis0 acc w \<longleftrightarrow> (case acc of (vis, del, nxt) \<Rightarrow>
     set vis = insert start (set del) \<and> start \<notin> set del \<and> distinct del \<and>
     set del \<subseteq> es_slug ` set (en_collections env) \<times> UNIV \<and>
     set vis \<subseteq> (cascade_edges env db0)\<^sup>* `` {start} \<and>
     set vis0 \<subseteq> set vis \<and> set vis \<subseteq> set vis0 \<union> keysL nxt \<and> keysL nxt \<subseteq> set vis \<and>
     (\<forall>t. amap_has t (w_store w) = amap_has t db0) \<and>
     (\<forall>t. rows_of (w_store w) t = map (trash_row env (set del) t) (rows_of db0 t)))"

lemma trashed_key_own:
  assumes ready: "cascade_ready env db0" and D: "D \<subseteq> es_slug ` set (en_collections env) \<times> UNIV"
    and s': "s' \<in> es_slug ` set (en_collections env)" "en_collection env s' = Inr info"
  shows "trashed_key env D (co_table info) r \<longleftrightarrow> (s', row_id r) \<in> D"
proof
  assume "trashed_key env D (co_table info) r"
  then obtain s i' where s: "(s, row_id r) \<in> D" "en_collection env s = Inr i'" "co_table i' = co_table info"
    by (auto simp: trashed_key_def)
  then have "s \<in> es_slug ` set (en_collections env)" using D by auto
  then have "s = s'" using ready s s' unfolding cascade_ready_def by (metis (no_types, lifting) imageE)
  then show "(s', row_id r) \<in> D" using s by simp
qed (use s' in \<open>auto simp: trashed_key_def\<close>)

lemma trash_more:
  assumes ready: "cascade_ready env db0" and D: "D \<subseteq> es_slug ` set (en_collections env) \<times> UNIV"
    and s': "s' \<in> es_slug ` set (en_collections env)" "en_collection env s' = Inr info"
    and fresh: "\<forall>c \<in> set fresh. (s', c) \<notin> D" and r: "r \<in> set (rows_of db0 t)"
  shows "trash_row env (D \<union> Pair s' ` set fresh) t r =
    (if t = co_table info \<and> col_in ''id'' fresh (trash_row env D t r)
     then obj_spread (trash_row env D t r) (trash_stamp env) else trash_row env D t r)"
proof -
  have D': "D \<union> Pair s' ` set fresh \<subseteq> es_slug ` set (en_collections env) \<times> UNIV" using D s' by auto
  have key: "map_of r ''id'' = Some (Str (row_id r))" using ready r by (auto simp: cascade_ready_def)
  show ?thesis
  proof (cases "t = co_table info")
    case True
    note own = trashed_key_own [OF ready _ s']
    have "map_of (trash_row env D t r) ''id'' = Some (Str (row_id r))"
      using key by (auto simp: trash_row_def trash_stamp_def obj_spread_lookup amap_ok_def)
    then have "col_in ''id'' fresh (trash_row env D t r) \<longleftrightarrow> row_id r \<in> set fresh" by (auto simp: col_in_iff)
    then show ?thesis using True own [OF D] own [OF D'] fresh by (auto simp: trash_row_def)
  next
    case False
    then show ?thesis using s'(2) by (auto simp: trash_row_def trashed_key_def)
  qed
qed

text \<open>The rows a query of the walk finds.\<close>

lemma probe_rows:
  assumes ready: "cascade_ready env db0" and st: "walk_state env db0 start vis0 (vis, del, nxt) w"
    and s': "s' \<in> es_slug ` set (en_collections env)" "en_collection env s' = Inr info"
  shows "select_rows (co_table info) (\<lambda>r. col_in f ids r \<and> live r) (w_store w) =
    Inr (filter (\<lambda>r. col_in f ids r \<and> live r) (rows_of (w_store w) (co_table info)))"
    and "row_id ` set (filter (\<lambda>r. col_in f ids r \<and> live r) (rows_of (w_store w) (co_table info))) =
    {row_id r | r. r \<in> set (rows_of db0 (co_table info)) \<and> col_in f ids r \<and> live r \<and> (s', row_id r) \<notin> set del}"
proof -
  have "amap_has (co_table info) db0" using ready s' by (fastforce simp: cascade_ready_def)
  then show "select_rows (co_table info) (\<lambda>r. col_in f ids r \<and> live r) (w_store w) =
    Inr (filter (\<lambda>r. col_in f ids r \<and> live r) (rows_of (w_store w) (co_table info)))"
    using st by (simp add: select_rows_def walk_state_def)
  have D: "set del \<subseteq> es_slug ` set (en_collections env) \<times> UNIV" using st by (simp add: walk_state_def)
  have rows: "rows_of (w_store w) (co_table info) = map (trash_row env (set del) (co_table info)) (rows_of db0 (co_table info))"
    using st by (simp add: walk_state_def)
  show "row_id ` set (filter (\<lambda>r. col_in f ids r \<and> live r) (rows_of (w_store w) (co_table info))) =
    {row_id r | r. r \<in> set (rows_of db0 (co_table info)) \<and> col_in f ids r \<and> live r \<and> (s', row_id r) \<notin> set del}"
    unfolding rows set_filter set_map using trash_row_live trashed_key_own [OF ready D s'] by (auto simp: image_iff) (metis trash_row_id)+
qed

text \<open>One query keeps the state and brings every edge it is about into the visited keys.\<close>

definition link_done :: "api_env \<Rightarrow> store \<Rightarrow> string list \<Rightarrow> string \<times> string \<Rightarrow> cascade_acc \<Rightarrow> bool" where
  "link_done env db0 ids link acc \<longleftrightarrow> (\<forall>info r. en_collection env (fst link) = Inr info \<and> r \<in> set (rows_of db0 (co_table info)) \<and>
     col_in (snd link) ids r \<and> live r \<longrightarrow> (fst link, row_id r) \<in> set (fst acc))"

lemma probe_step:
  assumes ready: "cascade_ready env db0" and st: "walk_state env db0 start vis0 acc w"
    and link: "link \<in> set (links_of (buildCascadeMap env) s)" and ids: "Pair s ` set ids \<subseteq> set vis0"
  shows "\<exists>acc' w'. cascade_probe env Soft ids link acc w = (Inr acc', w') \<and> walk_state env db0 start vis0 acc' w' \<and>
    link_done env db0 ids link acc' \<and> set (fst acc) \<subseteq> set (fst acc')"
proof -
  obtain s' f where l: "link = (s', f)" by fastforce
  obtain vis del nxt where a: "acc = (vis, del, nxt)" by (metis prod_cases3)
  note st = st [unfolded a]
  have s': "s' \<in> es_slug ` set (en_collections env)" using link l link_slug by blast
  then obtain info where info: "en_collection env s' = Inr info" using ready by (auto simp: cascade_ready_def)
  define rows where "rows = filter (\<lambda>r. col_in f ids r \<and> live r) (rows_of (w_store w) (co_table info))"
  note sel = probe_rows [OF ready st s' info, where f = f and ids = ids, folded rows_def]
  obtain vis' fresh where m: "fold (mark_fresh s') (map row_id rows) (vis, []) = (vis', fresh)" by fastforce
  have vis': "set vis' = set vis \<union> Pair s' ` row_id ` set rows" and fresh: "set fresh = {c \<in> row_id ` set rows. (s', c) \<notin> set vis}"
    using mark_fresh_all [OF m] by auto
  have dist: "distinct fresh" using mark_fresh_distinct [OF m] by simp
  have new: "set vis' = set vis \<union> Pair s' ` set fresh" using vis' fresh by auto
  have found: "(s', row_id r) \<in> set vis'" if "r \<in> set (rows_of db0 (co_table info))" "col_in f ids r" "live r" for r
  proof (cases "(s', row_id r) \<in> set del")
    case True
    then show ?thesis using st vis' by (auto simp: walk_state_def)
  next
    case False
    then have "row_id r \<in> row_id ` set rows" using that unfolding sel(2) by blast
    then show ?thesis using vis' by blast
  qed
  have edge: "(s', c) \<in> (cascade_edges env db0)\<^sup>* `` {start}" if c: "c \<in> set fresh" for c
  proof -
    have "c \<in> row_id ` set rows" using c fresh by blast
    then obtain r where r: "c = row_id r" "r \<in> set (rows_of db0 (co_table info))" "col_in f ids r" "live r"
      unfolding sel(2) by blast
    obtain i where i: "i \<in> set ids" "col_in f [i] r" using r(3) by (auto simp: col_in_iff)
    then have "((s, i), (s', c)) \<in> cascade_edges env db0" using r link l info unfolding cascade_edges_def by blast
    moreover have "(s, i) \<in> (cascade_edges env db0)\<^sup>* `` {start}"
    proof -
      have "(s, i) \<in> set vis0" using ids i(1) by blast
      then show ?thesis using st unfolding walk_state_def prod.case by blast
    qed
    ultimately show ?thesis by (auto intro: rtrancl_into_rtrancl)
  qed
  show ?thesis
  proof (cases "fresh = []")
    case True
    then have v: "set vis' = set vis" using new by simp
    have "cascade_probe env Soft ids link acc w = (Inr (vis', del, nxt), w)"
      using info sel(1) m True by (simp add: cascade_probe_def l a bindA_def)
    moreover have "walk_state env db0 start vis0 (vis', del, nxt) w" using st unfolding walk_state_def prod.case v .
    ultimately show ?thesis using found v a l info by (auto simp: link_done_def)
  next
    case False
    define D where "D = set del"
    have D: "D \<subseteq> es_slug ` set (en_collections env) \<times> UNIV" "\<forall>c \<in> set fresh. (s', c) \<notin> D"
      using st fresh by (auto simp: walk_state_def D_def)
    define db where "db = apply_write (UpdateIn (co_table info) ''id'' fresh (trash_stamp env)) (w_store w)"
    have has: "amap_has (co_table info) (w_store w)" using ready s' info st by (fastforce simp: cascade_ready_def walk_state_def)
    have run: "remove_children env Soft s' (co_table info) fresh w = (Inr (), w\<lparr>w_store := db\<rparr>)"
      using ready has by (simp add: remove_children_def batchA_def run_batch_def cascade_ready_def db_def)
    have probe: "cascade_probe env Soft ids link acc w = (Inr (vis', del @ map (Pair s') fresh, bucket_add s' fresh nxt), w\<lparr>w_store := db\<rparr>)"
      using info sel(1) m False run by (simp add: cascade_probe_def l a bindA_def)
    have D': "set (del @ map (Pair s') fresh) = D \<union> Pair s' ` set fresh" by (simp add: D_def)
    have rows': "rows_of db t = map (trash_row env (D \<union> Pair s' ` set fresh) t) (rows_of db0 t)" for t
    proof -
      have old: "rows_of (w_store w) t = map (trash_row env D t) (rows_of db0 t)" for t using st by (simp add: walk_state_def D_def)
      show ?thesis
        using trash_more [OF ready D(1) s' info D(2)] has by (auto simp: db_def rows_of_apply_write old)
    qed
    have "walk_state env db0 start vis0 (vis', del @ map (Pair s') fresh, bucket_add s' fresh nxt) (w\<lparr>w_store := db\<rparr>)"
      unfolding walk_state_def prod.case D'
    proof (intro conjI allI)
      have "start \<notin> Pair s' ` set fresh" using fresh st by (auto simp: walk_state_def)
      then show "start \<notin> D \<union> Pair s' ` set fresh" using st by (auto simp: walk_state_def D_def)
      show "distinct (del @ map (Pair s') fresh)"
        using st dist D(2) by (auto simp: walk_state_def distinct_map inj_on_def D_def)
      show "set vis' \<subseteq> (cascade_edges env db0)\<^sup>* `` {start}" using st edge new by (auto simp: walk_state_def)
    qed (use st new D(1) s' rows' in \<open>auto simp: walk_state_def D_def db_def\<close>)
    then show ?thesis using probe found new a l info by (auto simp: link_done_def)
  qed
qed

lemma level_step:
  assumes ready: "cascade_ready env db0" and st: "walk_state env db0 start vis (vis, del, []) w" and sub: "keysL level \<subseteq> set vis"
  shows "\<exists>acc' w'. cascade_level env Soft level (vis, del, []) w = (Inr acc', w') \<and> walk_state env db0 start vis acc' w' \<and>
    cascade_edges env db0 `` keysL level \<subseteq> set (fst acc')"
proof -
  let ?Q = "\<lambda>(s, ids) acc. \<forall>link \<in> set (links_of (buildCascadeMap env) s). link_done env db0 ids link acc"
  have step: "\<exists>c u. foldA (cascade_probe env Soft (snd x)) (links_of (buildCascadeMap env) (fst x)) b t = (Inr c, u) \<and>
      walk_state env db0 start vis c u \<and> (\<forall>link \<in> set (links_of (buildCascadeMap env) (fst x)). link_done env db0 (snd x) link c) \<and>
      set (fst b) \<subseteq> set (fst c)"
    if x: "x \<in> set level" and b: "walk_state env db0 start vis b t" for x b t
  proof -
    have ids: "Pair (fst x) ` set (snd x) \<subseteq> set vis" using sub x by (cases x) (auto simp: keysL_def)
    have "\<exists>c u. foldA (cascade_probe env Soft (snd x)) (links_of (buildCascadeMap env) (fst x)) b t = (Inr c, u) \<and>
        (walk_state env db0 start vis c u \<and> set (fst b) \<subseteq> set (fst c)) \<and>
        (\<forall>link \<in> set (links_of (buildCascadeMap env) (fst x)). link_done env db0 (snd x) link c) \<and>
        (\<forall>y. link_done env db0 (snd x) y b \<longrightarrow> link_done env db0 (snd x) y c)"
    proof (rule foldA_progress)
      fix link b' t' assume link: "link \<in> set (links_of (buildCascadeMap env) (fst x))"
        and b': "walk_state env db0 start vis b' t' \<and> set (fst b) \<subseteq> set (fst b')"
      obtain c u where "cascade_probe env Soft (snd x) link b' t' = (Inr c, u)" "walk_state env db0 start vis c u"
        "link_done env db0 (snd x) link c" "set (fst b') \<subseteq> set (fst c)"
        using probe_step [OF ready _ link ids] b' by blast
      then show "\<exists>c u. cascade_probe env Soft (snd x) link b' t' = (Inr c, u) \<and>
          (walk_state env db0 start vis c u \<and> set (fst b) \<subseteq> set (fst c)) \<and> link_done env db0 (snd x) link c \<and>
          (\<forall>y. link_done env db0 (snd x) y b' \<longrightarrow> link_done env db0 (snd x) y c)"
        using b' by (intro exI [of _ c] exI [of _ u]) (auto simp: link_done_def)
    qed (use b in simp)
    then show ?thesis by blast
  qed
  have "\<exists>c u. foldA (\<lambda>(slug, ids). foldA (cascade_probe env Soft ids) (links_of (buildCascadeMap env) slug)) level (vis, del, []) w = (Inr c, u) \<and>
      walk_state env db0 start vis c u \<and> (\<forall>x \<in> set level. ?Q x c) \<and> (\<forall>y. ?Q y (vis, del, []) \<longrightarrow> ?Q y c)"
  proof (rule foldA_progress)
    fix x b t assume x: "x \<in> set level" and b: "walk_state env db0 start vis b t"
    obtain c u where c: "foldA (cascade_probe env Soft (snd x)) (links_of (buildCascadeMap env) (fst x)) b t = (Inr c, u)"
      "walk_state env db0 start vis c u" "\<forall>link \<in> set (links_of (buildCascadeMap env) (fst x)). link_done env db0 (snd x) link c"
      "set (fst b) \<subseteq> set (fst c)" using step [OF x b] by blast
    have "\<forall>y. ?Q y b \<longrightarrow> ?Q y c" using c(4) by (force simp: link_done_def)
    then show "\<exists>c u. (case x of (slug, ids) \<Rightarrow> foldA (cascade_probe env Soft ids) (links_of (buildCascadeMap env) slug)) b t = (Inr c, u) \<and>
        walk_state env db0 start vis c u \<and> ?Q x c \<and> (\<forall>y. ?Q y b \<longrightarrow> ?Q y c)"
      using c by (intro exI [of _ c] exI [of _ u]) (simp add: case_prod_beta)
  qed (rule st)
  then obtain c u where c: "cascade_level env Soft level (vis, del, []) w = (Inr c, u)" "walk_state env db0 start vis c u"
    "\<forall>x \<in> set level. ?Q x c" unfolding cascade_level_def by blast
  have "cascade_edges env db0 `` keysL level \<subseteq> set (fst c)"
    using c(3) by (force simp: cascade_edges_def keysL_def link_done_def col_in_iff)
  then show ?thesis using c by blast
qed

lemma loop_walk:
  assumes ready: "cascade_ready env db0"
  shows "walk_state env db0 start vis (vis, del, []) w \<Longrightarrow> keysL level \<subseteq> set vis \<Longrightarrow>
    cascade_edges env db0 `` (set vis - keysL level) \<subseteq> set vis \<Longrightarrow>
    \<exists>del' vis' w'. cascade_loop env Soft level vis del w = (Inr del', w') \<and> walk_state env db0 start vis' (vis', del', []) w' \<and>
      cascade_edges env db0 `` set vis' \<subseteq> set vis'"
  using ready
proof (induction env "Soft" level vis del w rule: cascade_loop.induct)
  case (1 env level vis del w)
  show ?case
  proof (cases "level = []")
    case True
    have "cascade_edges env db0 `` set vis \<subseteq> set vis" using 1(4) True by (simp add: keysL_def)
    then show ?thesis using 1(2) True by (subst cascade_loop.simps) auto
  next
    case False
    obtain acc' w' where l: "cascade_level env Soft level (vis, del, []) w = (Inr acc', w')"
      "walk_state env db0 start vis acc' w'" "cascade_edges env db0 `` keysL level \<subseteq> set (fst acc')"
      using level_step [OF 1(5,2,3)] by blast
    obtain vis' del' nxt where a: "acc' = (vis', del', nxt)" by (metis prod_cases3)
    have sub: "set vis \<subseteq> set vis'" "set vis' \<subseteq> set vis \<union> keysL nxt" "keysL nxt \<subseteq> set vis'"
      using l(2) by (auto simp: walk_state_def a)
    have st: "walk_state env db0 start vis' (vis', del', []) w'"
      using l(2) unfolding walk_state_def a prod.case keysL_Nil by blast
    have closed: "cascade_edges env db0 `` (set vis' - keysL nxt) \<subseteq> set vis'"
      using 1(4) l(3) sub unfolding a fst_conv by blast
    have "\<exists>del'' vis'' w''. cascade_loop env Soft nxt vis' del' w' = (Inr del'', w'') \<and>
        walk_state env db0 start vis'' (vis'', del'', []) w'' \<and> cascade_edges env db0 `` set vis'' \<subseteq> set vis''"
      by (rule 1(1) [OF False l(1) [symmetric, unfolded a] refl refl refl st sub(3) closed 1(5)])
    then show ?thesis using False l(1) a by (subst cascade_loop.simps) simp
  qed
qed

section \<open>The property\<close>

text \<open>
  C17. A soft cascading delete trashes exactly what the relations reach: with every collection known
  and stored in a table of its own, it returns, without duplicates, the keys of the rows that a
  chain of live rows whose fields declare \<open>cascade_delete\<close> connects to the deleted one (cycles
  included, the row itself excepted); those rows get the stamp and no other row of any table
  changes.
\<close>

theorem cascade_trashes_reachable_rows:
  assumes "cascade_ready env (w_store w)"
  shows "\<exists>del w'. cascadeDelete env slug i Soft w = (Inr del, w') \<and> distinct del \<and>
    set del = (cascade_edges env (w_store w))\<^sup>* `` {(slug, i)} - {(slug, i)} \<and>
    (\<forall>t. rows_of (w_store w') t = map (trash_row env (set del) t) (rows_of (w_store w) t))"
proof -
  let ?E = "cascade_edges env (w_store w)" and ?s = "(slug, i)"
  have "walk_state env (w_store w) ?s [?s] ([?s], [], []) w"
  proof -
    have "map (trash_row env {} t) rs = rs" for t rs by (rule map_idI) (simp add: trash_row_def trashed_key_def)
    then show ?thesis unfolding walk_state_def prod.case by simp
  qed
  moreover have k: "keysL [(slug, [i])] \<subseteq> set [?s]" "?E `` (set [?s] - keysL [(slug, [i])]) \<subseteq> set [?s]"
    by (auto simp: keysL_def)
  ultimately obtain del vis w' where d: "cascade_loop env Soft [(slug, [i])] [?s] [] w = (Inr del, w')"
    "walk_state env (w_store w) ?s vis (vis, del, []) w'" "?E `` set vis \<subseteq> set vis"
    using loop_walk [OF assms _ k] by blast
  have vis: "set vis = insert ?s (set del)" "?s \<notin> set del" "set vis \<subseteq> ?E\<^sup>* `` {?s}" "distinct del"
    "\<forall>t. rows_of (w_store w') t = map (trash_row env (set del) t) (rows_of (w_store w) t)"
    using d(2) unfolding walk_state_def prod.case by blast+
  have "?E\<^sup>* `` {?s} \<subseteq> ?E\<^sup>* `` set vis" using vis(1) by (intro Image_mono) auto
  then have "set vis = ?E\<^sup>* `` {?s}" using vis(3) Image_closed_trancl [OF d(3)] by blast
  then have "set del = ?E\<^sup>* `` {?s} - {?s}" using vis(1,2) by blast
  then show ?thesis using d(1) vis(4,5) unfolding cascadeDelete_def by blast
qed

definition demo_cascade :: api_env where
  "demo_cascade = demo_env [
     (''orders'', plain_info ''cms_orders'' [plain_field ''customer'' ''m2o''\<lparr>fd_related_collection := Some ''customers'', fd_cascade_delete := Some True\<rparr>]),
     (''lines'', plain_info ''cms_lines'' [plain_field ''order'' ''m2o''\<lparr>fd_related_collection := Some ''orders'', fd_cascade_delete := Some True\<rparr>]),
     (''customers'', plain_info ''cms_customers'' [plain_field ''main_line'' ''m2o''\<lparr>fd_related_collection := Some ''lines'', fd_cascade_delete := Some True\<rparr>])]"

definition demo_rows :: store where
  "demo_rows = [
     (''cms_customers'', [[(''id'', Str ''c1''), (''main_line'', Str ''l1'')], [(''id'', Str ''c2'')]]),
     (''cms_orders'', [[(''id'', Str ''o1''), (''customer'', Str ''c1'')], [(''id'', Str ''o2''), (''customer'', Str ''c2'')],
       [(''id'', Str ''o3''), (''customer'', Str ''c1''), (''deleted_at'', Str ''t'')]]),
     (''cms_lines'', [[(''id'', Str ''l1''), (''order'', Str ''o1'')], [(''id'', Str ''l2''), (''order'', Str ''o3'')]])]"

theorem cascade_trashes_reachable_rows_witness:
  "cascade_ready demo_cascade demo_rows \<and>
   (cascade_edges demo_cascade demo_rows)\<^sup>* `` {(''customers'', ''c1'')} - {(''customers'', ''c1'')} = {(''orders'', ''o1''), (''lines'', ''l1'')}"
proof -
  have ready: "cascade_ready demo_cascade demo_rows"
    by (auto simp: cascade_ready_def demo_cascade_def demo_rows_def demo_env_def plain_info_def amap_has_def rows_of_def row_id_def
        split: if_splits option.splits)
  have run: "fst (cascadeDelete demo_cascade ''customers'' ''c1'' Soft (demo_world demo_rows)) = Inr [(''orders'', ''o1''), (''lines'', ''l1'')]"
    by code_simp
  have s: "w_store (demo_world demo_rows) = demo_rows" by (simp add: demo_world_def)
  obtain del w' where d: "cascadeDelete demo_cascade ''customers'' ''c1'' Soft (demo_world demo_rows) = (Inr del, w')"
    "set del = (cascade_edges demo_cascade demo_rows)\<^sup>* `` {(''customers'', ''c1'')} - {(''customers'', ''c1'')}"
    using cascade_trashes_reachable_rows [of demo_cascade "demo_world demo_rows" "''customers''" "''c1''", unfolded s, OF ready] by blast
  have "del = [(''orders'', ''o1''), (''lines'', ''l1'')]" using run d(1) by simp
  then show ?thesis using ready d(2) by simp
qed

end
