(* ===== verification/Naming.thy ===== *)
theory Naming
  imports Collections
begin

text \<open>
  \<open>apps/api/src/lib/services/naming.service.ts\<close>: the patterns of naming series and the next document
  number, which is the largest number of the table by text order plus one, claimed in
  \<open>_naming_series\<close>. \<open>creates\<close> says whether that table can be created when it is missing.
\<close>

section \<open>Patterns\<close>

definition DEFAULT_NAMING_WIDTH :: nat where "DEFAULT_NAMING_WIDTH = 5"
definition MAX_NAMING_WIDTH :: nat where "MAX_NAMING_WIDTH = 10"

definition series_char :: "char \<Rightarrow> bool" where
  "series_char c \<longleftrightarrow> is_word c \<or> c = CHR ''-''"

text \<open>\<open>/^([A-Za-z0-9_-]+-)(#{0,10})$/\<close>: the prefix and the run of placeholders.\<close>

definition NAMING_SERIES_RE :: "string \<Rightarrow> (string \<times> string) option" where
  "NAMING_SERIES_RE s =
     (let hashes = takeWhile (\<lambda>c. c = CHR ''#'') (rev s); p = take (length s - length hashes) s
      in if 2 \<le> length p \<and> list_all series_char p \<and> last p = CHR ''-'' \<and> length hashes \<le> MAX_NAMING_WIDTH
         then Some (p, hashes) else None)"

record parsed_series =
  ps_prefix :: string
  ps_width :: nat
  ps_raw :: string

definition parseSeries :: "jsval \<Rightarrow> parsed_series option" where
  "parseSeries series = (case series of
     Str s \<Rightarrow> (case NAMING_SERIES_RE s of None \<Rightarrow> None
       | Some (p, hashes) \<Rightarrow> Some \<lparr>ps_prefix = p,
           ps_width = (if hashes \<noteq> [] then length hashes else DEFAULT_NAMING_WIDTH), ps_raw = s\<rparr>)
   | _ \<Rightarrow> None)"

text \<open>The error message of an invalid pattern, if it is one.\<close>

definition validateSeries :: "jsval \<Rightarrow> string option" where
  "validateSeries series = (case series of
     Str s \<Rightarrow> if trim s = [] then Some ''Naming series must be a non-empty string''
       else if NAMING_SERIES_RE s = None then Some (''Naming series must end with a dash (-) optionally followed by up to 10 '' @
         ''digit placeholders (#). Examples: \"INV-\", \"INV-####\"'')
       else None
   | _ \<Rightarrow> Some ''Naming series must be a non-empty string'')"

section \<open>The next number\<close>

text \<open>\<open>LIKE prefix%\<close>: case-insensitive for ASCII, and an underscore matches any character.\<close>

fun like_prefix :: "string \<Rightarrow> string \<Rightarrow> bool" where
  "like_prefix [] s = True"
| "like_prefix (p # ps) [] = False"
| "like_prefix (p # ps) (c # s) = ((p = CHR ''_'' \<or> lower_char p = lower_char c) \<and> like_prefix ps s)"

definition display_numbers :: "store \<Rightarrow> string \<Rightarrow> string list" where
  "display_numbers db t = concat (map (\<lambda>r. case map_of r ''display_number'' of Some (Str s) \<Rightarrow> [s] | _ \<Rightarrow> []) (rows_of db t))"

definition last_number :: "string \<Rightarrow> string list \<Rightarrow> string option" where
  "last_number prefix numbers = max_str (filter (like_prefix prefix) numbers)"

definition next_counter :: "string \<Rightarrow> string option \<Rightarrow> jsnum" where
  "next_counter prefix latest = (case latest of
     None \<Rightarrow> Fin 1
   | Some d \<Rightarrow>
       (let parsed = parse_int10 (slice_from (length prefix) d);
            n = (if truthy (Num parsed) then parsed else Fin 0)
        in num_add (if num_lt n (Fin 1) then Fin 1 else n) (Fin 1)))"

definition candidate :: "parsed_series \<Rightarrow> string list \<Rightarrow> string" where
  "candidate p numbers = ps_prefix p @ pad0 (ps_width p)
     (num_to_string (next_counter (ps_prefix p) (last_number (ps_prefix p) numbers)))"

text \<open>\<open>INSERT OR IGNORE\<close>: whether the row was inserted, and the claims after it.\<close>

definition insert_claim :: "string \<times> string \<times> string \<Rightarrow> (string \<times> string \<times> string) list \<Rightarrow> bool \<times> (string \<times> string \<times> string) list" where
  "insert_claim k claims = (if k \<in> set claims then (False, claims) else (True, claims @ [k]))"

definition insertClaim :: "bool \<Rightarrow> string \<Rightarrow> string \<Rightarrow> string \<Rightarrow> bool api" where
  "insertClaim creates table series number w =
     (let k = (table, series, number)
      in case w_claims w of
           Some claims \<Rightarrow> (let r = insert_claim k claims in (Inr (fst r), w\<lparr>w_claims := Some (snd r)\<rparr>))
         | None \<Rightarrow> if creates then (let r = insert_claim k [] in (Inr (fst r), w\<lparr>w_claims := Some (snd r)\<rparr>))
                   else (Inr True, w))"

text \<open>One turn of the retry loop: the number, if the claim went through.\<close>

definition naming_attempt :: "bool \<Rightarrow> string \<Rightarrow> parsed_series \<Rightarrow> string option api" where
  "naming_attempt creates table p =
     bindA (readA (\<lambda>w. candidate p (display_numbers (w_store w) table))) (\<lambda>number.
     bindA (insertClaim creates table (ps_raw p) number) (\<lambda>claimed.
     retA (if claimed then Some number else None)))"

definition MAX_RETRIES :: nat where "MAX_RETRIES = 3"

fun naming_loop :: "bool \<Rightarrow> string \<Rightarrow> parsed_series \<Rightarrow> nat \<Rightarrow> string api" where
  "naming_loop creates table p 0 = failA (JsError ''Error'' (''Failed to generate unique display_number for series \"'' @ ps_raw p @
     ''\" after '' @ show_nat MAX_RETRIES @ '' attempts''))"
| "naming_loop creates table p (Suc n) = bindA (naming_attempt creates table p) (\<lambda>r.
     case r of Some number \<Rightarrow> retA number | None \<Rightarrow> naming_loop creates table p n)"

definition getNextNumber :: "bool \<Rightarrow> string \<Rightarrow> string \<Rightarrow> string api" where
  "getNextNumber creates tableName series = (case parseSeries (Str series) of
     None \<Rightarrow> failA (JsError ''Error'' (''Invalid naming series \"'' @ series @ ''\"''))
   | Some p \<Rightarrow> bindA (liftA (sanitizeIdentifier tableName ''NamingService.table'')) (\<lambda>safe.
       naming_loop creates safe p MAX_RETRIES))"

section \<open>Claims\<close>

definition claims_of :: "api_world \<Rightarrow> (string \<times> string \<times> string) list" where
  "claims_of w = (case w_claims w of None \<Rightarrow> [] | Some cs \<Rightarrow> cs)"

lemma attempt_outcome:
  assumes "naming_attempt True t p w = (r, w')"
  defines "n \<equiv> candidate p (display_numbers (w_store w) t)"
  shows "w_store w' = w_store w \<and>
    (if (t, ps_raw p, n) \<in> set (claims_of w) then r = Inr None \<and> w' = w
     else r = Inr (Some n) \<and> claims_of w' = claims_of w @ [(t, ps_raw p, n)])"
  using assms by (auto simp: naming_attempt_def insertClaim_def insert_claim_def claims_of_def bindA_def Let_def
      split: option.splits if_splits)

lemma loop_blocked:
  assumes "(t, ps_raw p, candidate p (display_numbers (w_store w) t)) \<in> set (claims_of w)"
  shows "\<exists>e. naming_loop True t p n w = (Inl e, w)"
proof (induction n)
  case (Suc n)
  have "naming_attempt True t p w = (Inr None, w)"
    using attempt_outcome [of t p w] assms by (metis surj_pair)
  then show ?case using Suc by (simp add: bindA_def)
qed simp

lemma loop_success:
  "naming_loop True t p n w = (Inr d, w') \<Longrightarrow>
     d = candidate p (display_numbers (w_store w) t) \<and> (t, ps_raw p, d) \<in> set (claims_of w') \<and> w_store w' = w_store w"
proof (cases n)
  case (Suc m)
  assume run: "naming_loop True t p n w = (Inr d, w')"
  show ?thesis
  proof (cases "(t, ps_raw p, candidate p (display_numbers (w_store w) t)) \<in> set (claims_of w)")
    case True
    then show ?thesis using run loop_blocked [OF True, of n] by auto
  next
    case False
    then obtain w1 where "naming_attempt True t p w = (Inr (Some (candidate p (display_numbers (w_store w) t))), w1)"
      "claims_of w1 = claims_of w @ [(t, ps_raw p, candidate p (display_numbers (w_store w) t))]" "w_store w1 = w_store w"
      using attempt_outcome [of t p w] by (metis surj_pair)
    then show ?thesis using run Suc by (simp add: bindA_def)
  qed
qed simp

section \<open>Properties\<close>

text \<open>
  The attempts of any requests, one after the other: each finds the table as it is then. What is
  issued are the claims that went through.
\<close>

fun naming_attempts :: "(store \<times> string \<times> parsed_series) list \<Rightarrow> api_world \<Rightarrow> (string \<times> string \<times> string) list \<times> api_world" where
  "naming_attempts [] w = ([], w)"
| "naming_attempts ((db, t, p) # es) w =
     (let (r, w') = naming_attempt True t p (w\<lparr>w_store := db\<rparr>); (issued, w'') = naming_attempts es w'
      in (case r of Inr (Some n) \<Rightarrow> ((t, ps_raw p, n) # issued, w'') | _ \<Rightarrow> (issued, w'')))"


text \<open>
  A number that is claimed but whose row is not stored blocks its series: after a number was
  issued, as long as the numbers in the table stay the same (the insert failed, or the newest row
  was deleted for good), every later request for that series fails, however many there are.
\<close>

theorem lost_claim_blocks_series:
  assumes "getNextNumber True t series w = (Inr d, w1)"
    and "display_numbers (w_store w2) t = display_numbers (w_store w) t" "set (claims_of w1) \<subseteq> set (claims_of w2)"
  shows "\<exists>e. getNextNumber True t series w2 = (Inl e, w2)"
proof -
  obtain p where p: "parseSeries (Str series) = Some p" using assms(1) by (auto simp: getNextNumber_def split: option.splits)
  obtain s where s: "sanitizeIdentifier t ''NamingService.table'' = Inr s"
    using assms(1) p by (auto simp: getNextNumber_def bindA_Inr_iff)
  then have st: "s = t" by (simp add: sanitizeIdentifier_def split: if_splits)
  have run: "naming_loop True t p MAX_RETRIES w = (Inr d, w1)" using assms(1) p s st by (simp add: getNextNumber_def bindA_def)
  have "(t, ps_raw p, candidate p (display_numbers (w_store w2) t)) \<in> set (claims_of w2)"
    using loop_success [OF run] assms(2,3) by auto
  then show ?thesis using loop_blocked p s st by (simp add: getNextNumber_def bindA_def)
qed

text \<open>The largest number by text order is not the largest: after 99999 the series stops.\<close>

lemma series_stops_after_nines:
  assumes "display_numbers (w_store w) ''cms_inv'' = [''INV-99999'', ''INV-100000'']"
    and "(''cms_inv'', ''INV-'', ''INV-100000'') \<in> set (claims_of w)"
  shows "\<exists>e. getNextNumber True ''cms_inv'' ''INV-'' w = (Inl e, w)"
proof -
  have p: "parseSeries (Str ''INV-'') = Some \<lparr>ps_prefix = ''INV-'', ps_width = 5, ps_raw = ''INV-''\<rparr>" by code_simp
  have c: "candidate \<lparr>ps_prefix = ''INV-'', ps_width = 5, ps_raw = ''INV-''\<rparr> [''INV-99999'', ''INV-100000''] = ''INV-100000''"
    by code_simp
  have s: "sanitizeIdentifier ''cms_inv'' ''NamingService.table'' = Inr ''cms_inv''" by code_simp
  have "\<exists>e. naming_loop True ''cms_inv'' \<lparr>ps_prefix = ''INV-'', ps_width = 5, ps_raw = ''INV-''\<rparr> MAX_RETRIES w = (Inl e, w)"
    by (rule loop_blocked) (simp add: assms c)
  then show ?thesis by (simp add: getNextNumber_def p s bindA_def)
qed

definition demo_invoices :: api_world where
  "demo_invoices = demo_world [(''cms_inv'', [[(''id'', Str ''a''), (''display_number'', Str ''INV-0041'')]])]"

theorem lost_claim_blocks_series_witness:
  "\<exists>e. getNextNumber True ''cms_inv'' ''INV-####'' (snd (getNextNumber True ''cms_inv'' ''INV-####'' demo_invoices)) =
     (Inl e, snd (getNextNumber True ''cms_inv'' ''INV-####'' demo_invoices))"
proof -
  have "fst (getNextNumber True ''cms_inv'' ''INV-####'' demo_invoices) = Inr ''INV-0042''" by code_simp
  then have run: "getNextNumber True ''cms_inv'' ''INV-####'' demo_invoices =
      (Inr ''INV-0042'', snd (getNextNumber True ''cms_inv'' ''INV-####'' demo_invoices))" by (simp add: prod_eq_iff)
  have "display_numbers (w_store (snd (getNextNumber True ''cms_inv'' ''INV-####'' demo_invoices))) ''cms_inv'' =
      display_numbers (w_store demo_invoices) ''cms_inv''" by code_simp
  then show ?thesis using lost_claim_blocks_series [OF run] by blast
qed


end
