(* ===== verification/DecisionTable.thy ===== *)
theory DecisionTable
  imports Collections "HOL-Library.Multiset"
begin

text \<open>
  \<open>apps/api/src/plugins/decision-table\<close>: tables of rules (\<open>types.ts\<close>), their storage and evaluation
  (\<open>service.ts\<close>). A missing text or list of the JSON is the empty one, as the code treats the two alike.
  \<open>rx\<close> compiles a regular expression to its test (\<open>None\<close> where \<open>new RegExp\<close> throws).
\<close>

section \<open>types.ts\<close>

record decision_condition =
  dc_field :: string
  dc_op :: string
  dc_value :: jsval

record compute_action =
  ca_field :: string
  ca_expression :: string

record decision_actions =
  da_set :: jsobj
  da_compute :: "compute_action list"
  da_abort :: string

record decision_rule =
  dr_id :: string
  dr_name :: string
  dr_priority :: "rat option"
  dr_conditions :: "decision_condition list"
  dr_actions :: decision_actions

record decision_definition =
  dd_name :: string
  dd_collection :: string
  dd_enabled :: "bool option"
  dd_mode :: "string option"
  dd_rules :: "decision_rule list"

record decision_row =
  dw_id :: string
  dw_name :: string
  dw_collection :: string
  dw_definition_json :: string
  dw_enabled :: bool
  dw_version :: int
  dw_created_at :: int
  dw_updated_at :: int

section \<open>Rule semantics\<close>

definition VALID_OPS :: "string list" where
  "VALID_OPS = [''eq'', ''neq'', ''gt'', ''gte'', ''lt'', ''lte'', ''in'', ''not_in'', ''contains'', ''matches'', ''empty'', ''not_empty'']"

definition fieldOf :: "string \<Rightarrow> string" where
  "fieldOf field = (if starts_with field ''doc.'' then slice_from 4 field else field)"

definition rule_eq :: "jsval \<Rightarrow> jsval \<Rightarrow> bool" where
  "rule_eq a b =
     (if strict_eq a b then True
      else if is_nullish a then is_nullish b
      else if is_nullish b then False
      else if to_num a \<noteq> NaN \<and> to_num b \<noteq> NaN \<and> num_eq (to_num a) (to_num b) then True
      else to_str a = to_str b)"

definition is_empty_value :: "jsval \<Rightarrow> bool" where
  "is_empty_value v \<longleftrightarrow> is_nullish v \<or> v = Str []"

definition list_value :: "jsval \<Rightarrow> jsval list" where
  "list_value v = (case v of Arr xs \<Rightarrow> xs | _ \<Rightarrow> [])"

definition matchCondition :: "(string \<Rightarrow> (string \<Rightarrow> bool) option) \<Rightarrow> jsobj \<Rightarrow> decision_condition \<Rightarrow> bool" where
  "matchCondition rx doc c =
     (let actual = obj_get doc (fieldOf (dc_field c)); v = dc_value c; op = dc_op c
      in if op = ''eq'' then rule_eq actual v
         else if op = ''neq'' then \<not> rule_eq actual v
         else if op = ''gt'' then num_lt (to_num v) (to_num actual)
         else if op = ''gte'' then num_le (to_num v) (to_num actual)
         else if op = ''lt'' then num_lt (to_num actual) (to_num v)
         else if op = ''lte'' then num_le (to_num actual) (to_num v)
         else if op = ''in'' then list_ex (rule_eq actual) (list_value v)
         else if op = ''not_in'' then \<not> list_ex (rule_eq actual) (list_value v)
         else if op = ''contains'' then \<not> is_nullish actual \<and> str_includes (to_str actual) (to_str (nullish_or v (Str [])))
         else if op = ''matches'' then \<not> is_nullish actual \<and>
           (case rx (to_str v) of None \<Rightarrow> False | Some test \<Rightarrow> test (to_str actual))
         else if op = ''empty'' then is_empty_value actual
         else if op = ''not_empty'' then \<not> is_empty_value actual
         else False)"

definition rule_matches :: "(string \<Rightarrow> (string \<Rightarrow> bool) option) \<Rightarrow> jsobj \<Rightarrow> decision_rule \<Rightarrow> bool" where
  "rule_matches rx doc r \<longleftrightarrow> list_all (matchCondition rx doc) (dr_conditions r)"

definition priority_of :: "decision_rule \<Rightarrow> rat" where
  "priority_of r = (case dr_priority r of None \<Rightarrow> 100 | Some p \<Rightarrow> p)"

definition table_mode :: "decision_definition \<Rightarrow> string" where
  "table_mode d = (case dd_mode d of None \<Rightarrow> ''first_match'' | Some m \<Rightarrow> m)"

fun fire_rules :: "bool \<Rightarrow> (decision_rule \<Rightarrow> bool) \<Rightarrow> decision_rule list \<Rightarrow> decision_rule list" where
  "fire_rules first P [] = []"
| "fire_rules first P (r # rs) = (if P r then r # (if first then [] else fire_rules first P rs) else fire_rules first P rs)"

definition evaluateTable :: "(string \<Rightarrow> (string \<Rightarrow> bool) option) \<Rightarrow> decision_definition \<Rightarrow> jsobj \<Rightarrow> decision_rule list" where
  "evaluateTable rx d doc = fire_rules (table_mode d = ''first_match'') (rule_matches rx doc) (sort_key priority_of (dd_rules d))"

definition set_fields :: "jsobj \<Rightarrow> jsobj \<Rightarrow> jsobj" where
  "set_fields vs doc = fold (\<lambda>(field, value). amap_set (fieldOf field) value) (own_entries vs) doc"

definition compute_field :: "eval_env \<Rightarrow> compute_action \<Rightarrow> jsobj \<Rightarrow> jsobj res" where
  "compute_field ev c doc = (case eval_text ev (ca_expression c) [(''doc'', Obj doc)] of
     Inl e \<Rightarrow> validation_error (''compute \"'' @ ca_field c @ ''\" failed: '' @ err_msg e)
   | Inr v \<Rightarrow> Inr (amap_set (fieldOf (ca_field c)) v doc))"

definition applyActions :: "eval_env \<Rightarrow> decision_actions \<Rightarrow> jsobj \<Rightarrow> jsobj res" where
  "applyActions ev a doc =
     (if da_abort a \<noteq> [] then validation_error (da_abort a)
      else foldR (compute_field ev) (da_compute a) (set_fields (da_set a) doc))"

section \<open>Storage\<close>

definition decision_decorate :: "(string \<Rightarrow> decision_definition option) \<Rightarrow> decision_row \<Rightarrow> decision_row \<times> decision_definition" where
  "decision_decorate of_json r = (r, case of_json (dw_definition_json r) of Some d \<Rightarrow> d
     | None \<Rightarrow> \<lparr>dd_name = dw_name r, dd_collection = dw_collection r, dd_enabled = None, dd_mode = None, dd_rules = []\<rparr>)"

definition decision_list :: "(string \<Rightarrow> decision_definition option) \<Rightarrow> string \<Rightarrow> decision_row list \<Rightarrow> (decision_row \<times> decision_definition) list" where
  "decision_list of_json coll rows = map (decision_decorate of_json)
     (rev (sort_key dw_created_at (filter (\<lambda>r. coll = [] \<or> dw_collection r = coll) rows)))"

definition decision_get :: "(string \<Rightarrow> decision_definition option) \<Rightarrow> string \<Rightarrow> decision_row list \<Rightarrow> (decision_row \<times> decision_definition) option" where
  "decision_get of_json i rows = map_option (decision_decorate of_json) (find (\<lambda>r. dw_id r = i) rows)"

definition check_condition :: "(string \<Rightarrow> (string \<Rightarrow> bool) option) \<Rightarrow> decision_rule \<Rightarrow> decision_condition \<Rightarrow> unit \<Rightarrow> unit res" where
  "check_condition rx r c u =
     (if trim (dc_field c) = [] then validation_error (''rule \"'' @ dr_id r @ ''\" has a condition without a field'')
      else if dc_op c \<notin> set VALID_OPS
      then validation_error (''rule \"'' @ dr_id r @ ''\" op \"'' @ dc_op c @ ''\" is invalid ('' @ join_with '', '' VALID_OPS @ '')'')
      else if dc_op c = ''matches'' \<and> rx (to_str (dc_value c)) = None
      then validation_error (''rule \"'' @ dr_id r @ ''\" has an invalid regex: '' @ to_str (dc_value c))
      else Inr ())"

definition check_compute :: "eval_env \<Rightarrow> decision_rule \<Rightarrow> compute_action \<Rightarrow> unit \<Rightarrow> unit res" where
  "check_compute ev r c u =
     (if trim (ca_field c) = [] then validation_error (''rule \"'' @ dr_id r @ ''\" compute action needs a field'')
      else (case validateExpressionComplexity (Str (ca_expression c)) of
          Some m \<Rightarrow> validation_error (''rule \"'' @ dr_id r @ ''\" compute expression '' @ m)
        | None \<Rightarrow> (case eval_text ev (ca_expression c) [(''doc'', Obj [])] of
            Inl e \<Rightarrow> validation_error (''rule \"'' @ dr_id r @ ''\" compute expression invalid: '' @ err_msg e)
          | Inr v \<Rightarrow> Inr ())))"

definition check_rule :: "(string \<Rightarrow> (string \<Rightarrow> bool) option) \<Rightarrow> eval_env \<Rightarrow> decision_rule \<Rightarrow> string list \<Rightarrow> string list res" where
  "check_rule rx ev r seen =
     (if dr_id r = [] then validation_error ''every rule needs an id''
      else if dr_id r \<in> set seen then validation_error (''duplicate rule id \"'' @ dr_id r @ ''\"'')
      else if trim (dr_name r) = [] then validation_error (''rule \"'' @ dr_id r @ ''\" needs a name'')
      else if dr_conditions r = [] then validation_error (''rule \"'' @ dr_id r @ ''\" needs at least one condition'')
      else bindR (foldR (check_condition rx r) (dr_conditions r) ()) (\<lambda>_.
           bindR (foldR (check_compute ev r) (da_compute (dr_actions r)) ()) (\<lambda>_. Inr (seen @ [dr_id r]))))"

definition decision_validate :: "(string \<Rightarrow> (string \<Rightarrow> bool) option) \<Rightarrow> eval_env \<Rightarrow> decision_definition \<Rightarrow> unit res" where
  "decision_validate rx ev d =
     (if trim (dd_name d) = [] then validation_error ''name is required''
      else if trim (dd_collection d) = [] then validation_error ''collection is required''
      else if dd_rules d = [] then validation_error ''rules must be a non-empty array''
      else if dd_mode d \<notin> {None, Some ''first_match'', Some ''all''} then validation_error ''mode must be first_match | all''
      else bindR (foldR (check_rule rx ev) (dd_rules d) []) (\<lambda>_. Inr ()))"

definition decision_upsert :: "(string \<Rightarrow> (string \<Rightarrow> bool) option) \<Rightarrow> eval_env \<Rightarrow> (decision_definition \<Rightarrow> string) \<Rightarrow> int \<Rightarrow> string \<Rightarrow> decision_definition
    \<Rightarrow> decision_row list \<Rightarrow> ((string \<times> int) \<times> decision_row list) res" where
  "decision_upsert rx ev to_json now rowId d rows =
     bindR (decision_validate rx ev d) (\<lambda>_.
       let fill = (\<lambda>r. r\<lparr>dw_name := dd_name d, dw_collection := dd_collection d, dw_definition_json := to_json d,
             dw_enabled := dd_enabled d \<noteq> Some False, dw_updated_at := now\<rparr>)
       in (case find (\<lambda>r. dw_id r = rowId) rows of
             Some r \<Rightarrow> Inr ((rowId, dw_version r + 1),
               map (\<lambda>q. if dw_id q = rowId then (fill q)\<lparr>dw_version := dw_version q + 1\<rparr> else q) rows)
           | None \<Rightarrow> Inr ((rowId, 1), rows @ [fill \<lparr>dw_id = rowId, dw_name = [], dw_collection = [], dw_definition_json = [],
               dw_enabled = True, dw_version = 1, dw_created_at = now, dw_updated_at = now\<rparr>])))"

definition decision_remove :: "string \<Rightarrow> decision_row list \<Rightarrow> decision_row list" where
  "decision_remove i rows = filter (\<lambda>r. dw_id r \<noteq> i) rows"

section \<open>Evaluation\<close>

record applied_rule =
  ap_table :: string
  ap_rule :: string
  ap_actions :: decision_actions

definition active_tables :: "(string \<Rightarrow> decision_definition option) \<Rightarrow> string \<Rightarrow> decision_row list \<Rightarrow> (decision_row \<times> decision_definition) list" where
  "active_tables of_json coll rows = map (decision_decorate of_json)
     (sort_key dw_created_at (filter (\<lambda>r. dw_collection r = coll \<and> dw_enabled r) rows))"

text \<open>The fired rules of one table in turn; \<open>mode = 'first_match'\<close> ends after the first.\<close>

fun apply_fired :: "eval_env \<Rightarrow> string \<Rightarrow> string option \<Rightarrow> decision_row \<times> decision_definition \<Rightarrow> decision_rule list
    \<Rightarrow> applied_rule list \<times> jsobj \<Rightarrow> (applied_rule list \<times> jsobj) api" where
  "apply_fired ev coll docId t [] st = retA st"
| "apply_fired ev coll docId t (r # rs) st =
     bindA (liftA (applyActions ev (dr_actions r) (snd st))) (\<lambda>doc.
     bindA (logA (RuleAudited coll docId (dw_id (fst t)) (dr_id r))) (\<lambda>_.
     let st' = (fst st @ [\<lparr>ap_table = dd_name (snd t), ap_rule = dr_name r, ap_actions = dr_actions r\<rparr>], doc)
     in if dd_mode (snd t) = Some ''first_match'' then retA st' else apply_fired ev coll docId t rs st'))"

definition evaluateFor :: "(string \<Rightarrow> (string \<Rightarrow> bool) option) \<Rightarrow> (string \<Rightarrow> decision_definition option) \<Rightarrow> eval_env \<Rightarrow> decision_row list
    \<Rightarrow> string \<Rightarrow> jsobj \<Rightarrow> string option \<Rightarrow> (applied_rule list \<times> jsobj) api" where
  "evaluateFor rx of_json ev rows coll doc docId =
     foldA (\<lambda>t st. apply_fired ev coll docId t (evaluateTable rx (snd t) (snd st)) st) (active_tables of_json coll rows) ([], obj_spread [] doc)"

section \<open>Properties\<close>

lemma fire_all: "fire_rules False P rs = filter P rs"
  by (induction rs) auto

lemma fire_first: "fire_rules True P rs = (case find P rs of None \<Rightarrow> [] | Some r \<Rightarrow> [r])"
  by (induction rs) auto

lemma find_sorted_least:
  assumes "find P xs = Some r" "sorted (map f xs)"
  shows "r \<in> set xs \<and> P r \<and> (\<forall>q \<in> set xs. P q \<longrightarrow> f r \<le> f q)"
  using assms by (induction xs) (auto split: if_splits)

text \<open>
  C31. The rules of a table fire by priority. In mode \<open>all\<close> exactly the rules whose conditions all hold
  fire, by ascending priority and in the order of the table where priorities are equal; in mode
  \<open>first_match\<close> (the default) at most one rule fires, none only if none matches, and no matching rule
  has a lower priority number.
\<close>

theorem rules_fire_by_priority:
  fixes d :: decision_definition and rx and doc :: jsobj
  defines "matching \<equiv> filter (rule_matches rx doc) (dd_rules d)" and "fired \<equiv> evaluateTable rx d doc"
  shows "(if table_mode d = ''first_match''
     then (fired = [] \<longleftrightarrow> matching = []) \<and> length fired \<le> 1 \<and> set fired \<subseteq> set matching \<and>
       (\<forall>r \<in> set fired. \<forall>q \<in> set matching. priority_of r \<le> priority_of q)
     else mset fired = mset matching \<and> sorted (map priority_of fired) \<and>
       (\<forall>p. filter (\<lambda>r. priority_of r = p) fired = filter (\<lambda>r. priority_of r = p) matching))"
proof (cases "table_mode d = ''first_match''")
  case True
  let ?s = "sort_key priority_of (dd_rules d)" and ?P = "rule_matches rx doc"
  have f: "fired = (case find ?P ?s of None \<Rightarrow> [] | Some r \<Rightarrow> [r])"
    using True by (simp add: fired_def evaluateTable_def fire_first)
  show ?thesis
  proof (cases "find ?P ?s")
    case None
    have "fired = []" using f by (simp add: None)
    moreover have "matching = []" using None by (auto simp: find_None_iff matching_def filter_empty_conv)
    ultimately show ?thesis using True by simp
  next
    case (Some r)
    then have "r \<in> set (dd_rules d) \<and> ?P r \<and> (\<forall>q \<in> set (dd_rules d). ?P q \<longrightarrow> priority_of r \<le> priority_of q)"
      using find_sorted_least [of ?P ?s r priority_of] by simp
    then show ?thesis using True f Some by (auto simp: matching_def filter_empty_conv)
  qed
next
  case False
  have f: "fired = sort_key priority_of matching"
    using False by (simp add: fired_def evaluateTable_def fire_all matching_def filter_sort)
  have "filter (\<lambda>r. priority_of r = p) fired = filter (\<lambda>r. priority_of r = p) matching" for p
    unfolding f by (simp add: sort_key_stable)
  then show ?thesis using False f by simp
qed

definition rule_targets :: "decision_rule \<Rightarrow> string set" where
  "rule_targets r = fieldOf ` (fst ` set (da_set (dr_actions r)) \<union> ca_field ` set (da_compute (dr_actions r)))"

lemma set_fields_other: "k \<notin> fieldOf ` fst ` set vs \<Longrightarrow> map_of (set_fields vs doc) k = map_of doc k"
proof -
  have "map_of (fold (\<lambda>(field, value). amap_set (fieldOf field) value) es m) k = map_of m k"
    if "k \<notin> fieldOf ` fst ` set es" for es :: jsobj and m
    using that by (induction es arbitrary: m) auto
  then show "k \<notin> fieldOf ` fst ` set vs \<Longrightarrow> ?thesis" by (simp add: set_fields_def)
qed

lemma compute_fields_other:
  "foldR (compute_field ev) cs doc = Inr doc' \<Longrightarrow> k \<notin> fieldOf ` ca_field ` set cs \<Longrightarrow> map_of doc' k = map_of doc k"
  by (induction cs arbitrary: doc) (auto simp: bindR_Inr_iff compute_field_def validation_error_def split: sum.splits)

lemma applyActions_effect:
  assumes "applyActions ev (dr_actions r) doc = Inr doc'"
  shows "da_abort (dr_actions r) = [] \<and> (\<forall>k. k \<notin> rule_targets r \<longrightarrow> map_of doc' k = map_of doc k)"
proof -
  have no: "da_abort (dr_actions r) = []" and run: "foldR (compute_field ev) (da_compute (dr_actions r)) (set_fields (da_set (dr_actions r)) doc) = Inr doc'"
    using assms by (auto simp: applyActions_def validation_error_def split: if_splits)
  have "map_of doc' k = map_of doc k" if "k \<notin> rule_targets r" for k
    using compute_fields_other [OF run, of k] set_fields_other [of k "da_set (dr_actions r)" doc] that
    by (auto simp: rule_targets_def image_Un)
  then show ?thesis using no by blast
qed

text \<open>What a run of tables keeps: the rows, and the fields that no rule of a table is about.\<close>

definition decision_ok :: "decision_rule set \<Rightarrow> jsobj \<Rightarrow> store \<Rightarrow> applied_rule list \<times> jsobj \<Rightarrow> api_world \<Rightarrow> bool" where
  "decision_ok R doc0 db st w \<longleftrightarrow> w_store w = db \<and> (\<forall>a \<in> set (fst st). da_abort (ap_actions a) = []) \<and>
     (\<forall>k. (\<forall>r \<in> R. k \<notin> rule_targets r) \<longrightarrow> map_of (snd st) k = map_of doc0 k)"

lemma apply_fired_keeps:
  "apply_fired ev coll docId t rs st w = (Inr st', w') \<Longrightarrow> set rs \<subseteq> R \<Longrightarrow> decision_ok R doc0 db st w \<Longrightarrow> decision_ok R doc0 db st' w'"
proof (induction ev coll docId t rs st arbitrary: w rule: apply_fired.induct)
  case (2 ev coll docId t r rs st)
  from 2(2) obtain doc where doc: "applyActions ev (dr_actions r) (snd st) = Inr doc"
    by (auto simp: bindA_Inr_iff)
  let ?w = "w\<lparr>w_log := w_log w @ [RuleAudited coll docId (dw_id (fst t)) (dr_id r)]\<rparr>"
    and ?st = "(fst st @ [\<lparr>ap_table = dd_name (snd t), ap_rule = dr_name r, ap_actions = dr_actions r\<rparr>], doc)"
  have ok: "decision_ok R doc0 db ?st ?w"
    using applyActions_effect [OF doc] 2(3,4) by (auto simp: decision_ok_def)
  show ?case
  proof (cases "dd_mode (snd t) = Some ''first_match''")
    case True
    then show ?thesis using 2(2) doc ok by (simp add: bindA_def Let_def)
  next
    case False
    then have "apply_fired ev coll docId t rs ?st ?w = (Inr st', w')" using 2(2) doc by (simp add: bindA_def Let_def)
    from 2(1) [OF _ False this _ ok] 2(3) show ?thesis by auto
  qed
qed simp

lemma fire_rules_subset: "set (fire_rules first P rs) \<subseteq> set rs"
  by (induction rs) auto

text \<open>
  Decision tables touch only what their rules name. When the enabled tables of a collection run
  to their end, no rule that was applied rejects the document, every field that no rule of those
  tables sets or computes has the value it had, and no row is written.
\<close>

theorem decision_tables_touch_only_their_fields:
  assumes "evaluateFor rx of_json ev rows coll doc docId w = (Inr (applied, doc'), w')" "amap_ok doc"
  shows "(\<forall>a \<in> set applied. da_abort (ap_actions a) = []) \<and> w_store w' = w_store w \<and>
    (\<forall>k. (\<forall>t \<in> set (active_tables of_json coll rows). \<forall>r \<in> set (dd_rules (snd t)). k \<notin> rule_targets r) \<longrightarrow>
      map_of doc' k = map_of doc k)"
proof -
  let ?R = "\<Union>t \<in> set (active_tables of_json coll rows). set (dd_rules (snd t))"
  have "decision_ok ?R (obj_spread [] doc) (w_store w) (applied, doc') w'"
  proof (rule foldA_invariant [where I = "decision_ok ?R (obj_spread [] doc) (w_store w)", OF assms(1) [unfolded evaluateFor_def]])
    fix t st v st' v' assume t: "t \<in> set (active_tables of_json coll rows)" and st: "decision_ok ?R (obj_spread [] doc) (w_store w) st v"
      and run: "apply_fired ev coll docId t (evaluateTable rx (snd t) (snd st)) st v = (Inr st', v')"
    have "set (evaluateTable rx (snd t) (snd st)) \<subseteq> ?R"
      using t fire_rules_subset [of _ _ "sort_key priority_of (dd_rules (snd t))"] by (fastforce simp: evaluateTable_def)
    then show "decision_ok ?R (obj_spread [] doc) (w_store w) st' v'" using apply_fired_keeps [OF run _ st] by blast
  qed (simp add: decision_ok_def)
  then show ?thesis using obj_spread_lookup [OF assms(2), of "[]"] by (auto simp: decision_ok_def split: option.splits)
qed

definition demo_decision :: decision_definition where
  "demo_decision = \<lparr>dd_name = ''approval'', dd_collection = ''po'', dd_enabled = None, dd_mode = Some ''all'',
     dd_rules = [
       \<lparr>dr_id = ''r2'', dr_name = ''total'', dr_priority = None,
        dr_conditions = [\<lparr>dc_field = ''doc.qty'', dc_op = ''gt'', dc_value = Num (Fin 0)\<rparr>],
        dr_actions = \<lparr>da_set = [], da_compute = [\<lparr>ca_field = ''total'', ca_expression = ''doc.qty * 3''\<rparr>], da_abort = []\<rparr>\<rparr>,
       \<lparr>dr_id = ''r1'', dr_name = ''level'', dr_priority = Some 10,
        dr_conditions = [\<lparr>dc_field = ''status'', dc_op = ''in'', dc_value = Arr [Str ''new'', Str ''open'']\<rparr>],
        dr_actions = \<lparr>da_set = [(''doc.level'', Str ''manager'')], da_compute = [], da_abort = []\<rparr>\<rparr>]\<rparr>"

definition demo_decision_row :: decision_row where
  "demo_decision_row = \<lparr>dw_id = ''t'', dw_name = ''approval'', dw_collection = ''po'', dw_definition_json = ''D'', dw_enabled = True,
     dw_version = 1, dw_created_at = 0, dw_updated_at = 0\<rparr>"

theorem rules_fire_by_priority_witness:
  "map dr_id (evaluateTable (\<lambda>s. None) demo_decision [(''status'', Str ''open''), (''qty'', Num (Fin 2))]) = [''r1'', ''r2''] \<and>
   sorted (map priority_of (evaluateTable (\<lambda>s. None) demo_decision [(''status'', Str ''open''), (''qty'', Num (Fin 2))]))"
proof
  show "map dr_id (evaluateTable (\<lambda>s. None) demo_decision [(''status'', Str ''open''), (''qty'', Num (Fin 2))]) = [''r1'', ''r2'']"
    by code_simp
  have "table_mode demo_decision \<noteq> ''first_match''" by (simp add: demo_decision_def table_mode_def)
  then show "sorted (map priority_of (evaluateTable (\<lambda>s. None) demo_decision [(''status'', Str ''open''), (''qty'', Num (Fin 2))]))"
    using rules_fire_by_priority [of demo_decision "\<lambda>s. None" "[(''status'', Str ''open''), (''qty'', Num (Fin 2))]"] by simp
qed

theorem decision_tables_touch_only_their_fields_witness:
  "\<exists>applied doc'. map_of doc' ''status'' = Some (Str ''open'') \<and> map_of doc' ''level'' = Some (Str ''manager'') \<and>
     map_of doc' ''total'' = Some (Num (Fin 6)) \<and>
     fst (evaluateFor (\<lambda>s. None) (\<lambda>j. Some demo_decision) \<lparr>ev_registry = [], ev_math = (\<lambda>f xs. NaN)\<rparr> [demo_decision_row] ''po''
       [(''status'', Str ''open''), (''qty'', Num (Fin 2))] None (demo_world [])) = Inr (applied, doc')"
proof -
  let ?run = "evaluateFor (\<lambda>s. None) (\<lambda>j. Some demo_decision) \<lparr>ev_registry = [], ev_math = (\<lambda>f xs. NaN)\<rparr> [demo_decision_row] ''po''
       [(''status'', Str ''open''), (''qty'', Num (Fin 2))] None (demo_world [])"
  have r: "case fst ?run of Inl e \<Rightarrow> False | Inr (a, d) \<Rightarrow> map_of d ''level'' = Some (Str ''manager'') \<and> map_of d ''total'' = Some (Num (Fin 6))"
    by code_simp
  then obtain applied doc' where a: "fst ?run = Inr (applied, doc')"
    and d: "map_of doc' ''level'' = Some (Str ''manager'')" "map_of doc' ''total'' = Some (Num (Fin 6))"
    by (auto split: sum.splits)
  have run: "?run = (Inr (applied, doc'), snd ?run)" using a by (simp add: prod_eq_iff)
  have t: "\<forall>t \<in> set (active_tables (\<lambda>j. Some demo_decision) ''po'' [demo_decision_row]). \<forall>r \<in> set (dd_rules (snd t)). ''status'' \<notin> rule_targets r"
    by (simp add: active_tables_def decision_decorate_def demo_decision_row_def demo_decision_def rule_targets_def fieldOf_def slice_from_def)
  have "map_of doc' ''status'' = Some (Str ''open'')"
    using decision_tables_touch_only_their_fields [OF run] t by (simp add: amap_ok_def)
  then show ?thesis using a d by blast
qed

end
