(* ===== verification/ServerRules.thy ===== *)
theory ServerRules
  imports Collections Marketplace
begin

text \<open>
  \<open>packages/core/src/entity/linkage-engine.ts\<close>: conditions, values and field linkages, and
  \<open>apps/api/src/plugins/server-functions/service.ts\<close>: the rules stored in \<open>_server_functions\<close> and their
  execution at the lifecycle events of a collection. Rules change the document in place: it is the
  state of \<open>executeRules\<close>. The table is created when the isolate first uses it; here it exists.
\<close>

section \<open>ORDER BY a text column\<close>

fun insert_by :: "('a \<Rightarrow> string) \<Rightarrow> 'a \<Rightarrow> 'a list \<Rightarrow> 'a list" where
  "insert_by k x [] = [x]"
| "insert_by k x (y # ys) = (if str_less (k y) (k x) then y # insert_by k x ys else x # y # ys)"

definition order_by :: "('a \<Rightarrow> string) \<Rightarrow> 'a list \<Rightarrow> 'a list" where
  "order_by k xs = foldr (insert_by k) xs []"

lemma order_by_set [simp]: "set (order_by k xs) = set xs"
proof -
  have ins: "set (insert_by k x ys) = insert x (set ys)" for x ys by (induction ys) auto
  show ?thesis unfolding order_by_def by (induction xs) (simp_all add: ins)
qed

section \<open>Conditions\<close>

record linkage_condition =
  lc_field :: string
  lc_op :: string
  lc_value :: jsval

text \<open>The closure \<open>coerce\<close>: a value the type rejects is compared as it is.\<close>

definition coerce_for :: "string \<Rightarrow> jsval \<Rightarrow> jsval" where
  "coerce_for fieldType v = (if fieldType = [] then v else case coerceValue v fieldType of Inr x \<Rightarrow> x | Inl e \<Rightarrow> v)"

definition str_or_empty :: "jsval \<Rightarrow> string" where
  "str_or_empty v = to_str (nullish_or v (Str []))"

definition no_value :: "jsval \<Rightarrow> bool" where
  "no_value v \<longleftrightarrow> is_nullish v \<or> v = Str []"

definition checkCondition :: "string \<Rightarrow> linkage_condition \<Rightarrow> jsobj \<Rightarrow> bool" where
  "checkCondition fieldType c doc =
     (let v = obj_get doc (lc_field c); x = lc_value c; op = lc_op c;
          same = (\<lambda>y. strict_eq (coerce_for fieldType v) (coerce_for fieldType y))
      in if op = ''eq'' then same x
         else if op = ''neq'' then \<not> same x
         else if op = ''in'' then (case x of Arr ys \<Rightarrow> list_ex same ys | _ \<Rightarrow> False)
         else if op = ''nin'' then (case x of Arr ys \<Rightarrow> \<not> list_ex same ys | _ \<Rightarrow> False)
         else if op = ''gt'' then num_lt (to_num x) (to_num v)
         else if op = ''gte'' then num_le (to_num x) (to_num v)
         else if op = ''lt'' then num_lt (to_num v) (to_num x)
         else if op = ''lte'' then num_le (to_num v) (to_num x)
         else if op = ''contains'' then str_includes (str_or_empty v) (str_or_empty x)
         else if op = ''starts_with'' then starts_with (str_or_empty v) (str_or_empty x)
         else if op = ''is_empty'' then no_value v
         else if op = ''is_not_empty'' then \<not> no_value v
         else False)"

section \<open>Values\<close>

text \<open>The functions of the scope are values: a call goes to the registry of the evaluator.\<close>

definition linkage_scope :: "jsobj \<Rightarrow> jsobj" where
  "linkage_scope doc = fold (\<lambda>(k, v). amap_set k v)
     [(''NOW'', Func ''NOW'' ''() => new Date().toISOString()''),
      (''TODAY'', Func ''TODAY'' (''() => new Date().toISOString().split('' @ [CHR 39] @ ''T'' @ [CHR 39] @ '')[0]'')),
      (''UUID'', Func ''UUID'' ''() => crypto.randomUUID()''),
      (''Math'', Host ''Math''), (''parseInt'', native_func ''parseInt''), (''parseFloat'', native_func ''parseFloat'')]
     (obj_spread [] doc)"

definition evaluateLinkage :: "eval_env \<Rightarrow> string \<Rightarrow> jsobj \<Rightarrow> jsval res" where
  "evaluateLinkage ev e doc = (case eval_text ev e (linkage_scope doc) of
     Inr v \<Rightarrow> Inr v
   | Inl err \<Rightarrow> throw (''Linkage expression error: '' @ [CHR 34] @ e @ [CHR 34] @ '' - '' @ err_msg err))"

definition resolveValue :: "api_env \<Rightarrow> jsval \<Rightarrow> jsobj \<Rightarrow> jsval" where
  "resolveValue env value doc = (case value of
     Str s \<Rightarrow>
       if s = ''$NOW'' then Str (en_stamp env)
       else if s = ''$TODAY'' then Str (hd (split_on CHR ''T'' (en_stamp env)))
       else if s = ''$UUID'' then Str (en_uuid env ''$UUID'')
       else if s = ''$TIMESTAMP'' then Num (num_of_int (en_now env))
       else if starts_with s ''='' then
         (case evaluateLinkage (en_eval env) (slice_from 1 s) doc of Inr v \<Rightarrow> v | Inl e \<Rightarrow> value)
       else value
   | _ \<Rightarrow> value)"

section \<open>Linkages between fields\<close>

record field_linkage =
  fl_target :: string
  fl_action :: string
  fl_value :: jsval
  fl_expression :: string
  fl_condition :: "linkage_condition option"

record linkage_field =
  lf_name :: string
  lf_type :: string
  lf_linkages :: "field_linkage list"
  lf_visible_when :: "linkage_condition option"
  lf_readonly_when :: "linkage_condition option"
  lf_required_when :: "linkage_condition option"

datatype field_hint =
    HintVisible string bool
  | HintReadonly string bool
  | HintRequired string bool
  | HintOptions string "jsval list"

definition apply_linkage :: "api_env \<Rightarrow> string \<Rightarrow> field_linkage \<Rightarrow> jsobj \<times> field_hint list \<Rightarrow> jsobj \<times> field_hint list" where
  "apply_linkage env ty l st =
     (let (doc, hints) = st
      in if (case fl_condition l of Some c \<Rightarrow> \<not> checkCondition ty c doc | None \<Rightarrow> False) then st
         else if fl_action l = ''set_value'' then (amap_set (fl_target l) (resolveValue env (fl_value l) doc) doc, hints)
         else if fl_action l = ''clear'' then (amap_del (fl_target l) doc, hints)
         else if fl_action l = ''calculate'' \<and> fl_expression l \<noteq> [] then
           (case evaluateLinkage (en_eval env) (fl_expression l) doc of
              Inr v \<Rightarrow> (amap_set (fl_target l) v doc, hints) | Inl e \<Rightarrow> st)
         else if fl_action l = ''set_options'' then
           (case fl_value l of Arr xs \<Rightarrow> (doc, hints @ [HintOptions (fl_target l) xs]) | _ \<Rightarrow> st)
         else st)"

definition field_hints :: "linkage_field \<Rightarrow> jsobj \<Rightarrow> field_hint list" where
  "field_hints f doc =
     (let hint = (\<lambda>mk c. case c of Some c \<Rightarrow> [mk (lf_name f) (checkCondition (lf_type f) c doc)] | None \<Rightarrow> [])
      in hint HintVisible (lf_visible_when f) @ hint HintReadonly (lf_readonly_when f) @ hint HintRequired (lf_required_when f))"

definition evaluateLinkages :: "api_env \<Rightarrow> linkage_field list \<Rightarrow> jsobj \<Rightarrow> jsobj \<times> field_hint list" where
  "evaluateLinkages env fs input = fold (\<lambda>f (doc, hints).
     fold (apply_linkage env (lf_type f)) (lf_linkages f) (doc, hints @ field_hints f doc)) fs (obj_spread [] input, [])"

section \<open>Rules\<close>

text \<open>A rule is an object of the stored JSON; reading a member of \<open>null\<close> is a \<open>TypeError\<close>.\<close>

record rule_result =
  rr_title :: jsval
  rr_message :: jsval
  rr_error :: jsval
  rr_field :: jsval

definition js_or :: "jsval \<Rightarrow> jsval \<Rightarrow> jsval" where
  "js_or a b = (if truthy a then a else b)"

definition member :: "jsval \<Rightarrow> string \<Rightarrow> jsval" where
  "member v k = (case prop_get v k of Inr x \<Rightarrow> x | Inl e \<Rightarrow> Undef)"

definition rule_condition :: "jsval \<Rightarrow> linkage_condition" where
  "rule_condition c = \<lparr>lc_field = to_str (member c ''field''),
     lc_op = (case member c ''op'' of Str s \<Rightarrow> s | _ \<Rightarrow> []), lc_value = member c ''value''\<rparr>"

definition rule_applies :: "jsval \<Rightarrow> jsobj \<Rightarrow> bool" where
  "rule_applies rule doc \<longleftrightarrow> (truthy (member rule ''when'') \<longrightarrow> checkCondition [] (rule_condition (member rule ''when'')) doc)"

text \<open>What a rule does to the document, and the results it adds.\<close>

definition rule_effect :: "api_env \<Rightarrow> jsval \<Rightarrow> jsobj \<Rightarrow> rule_result list \<times> jsobj" where
  "rule_effect env rule doc =
     (let target = member rule ''target''; act = member rule ''action'' in
      if act = Str ''abort'' then
        ([\<lparr>rr_title = member rule ''title'', rr_message = js_or (member rule ''message'') (Str ''Operation aborted by server hook''),
           rr_error = member rule ''message'', rr_field = member rule ''field''\<rparr>], doc)
      else if act = Str ''set'' \<and> truthy target then
        ([], amap_set (to_str target) (resolveValue env (member rule ''value'') doc) doc)
      else if act = Str ''clear'' \<and> truthy target then ([], amap_del (to_str target) doc)
      else if act = Str ''calculate'' \<and> truthy target \<and> truthy (member rule ''expression'') then
        (case eval_text (en_eval env) (to_str (member rule ''expression'')) doc of
           Inr v \<Rightarrow> ([], amap_set (to_str target) v doc)
         | Inl e \<Rightarrow> ([\<lparr>rr_title = Undef,
             rr_message = Str (''Hook '' @ [CHR 34] @ to_str (js_or (member rule ''id'') act) @ [CHR 34] @ '' expression error: '' @ err_msg e),
             rr_error = Str ''HOOK_EXPRESSION_ERROR'', rr_field = Undef\<rparr>], doc))
      else ([], doc))"

definition execute_rule :: "api_env \<Rightarrow> jsval \<Rightarrow> rule_result list \<Rightarrow> (rule_result list, jsobj) act" where
  "execute_rule env rule out = bindA (liftA (prop_get rule ''when'')) (\<lambda>_ doc.
     if rule_applies rule doc then (let r = rule_effect env rule doc in (Inr (out @ fst r), snd r)) else (Inr out, doc))"

definition executeRules :: "api_env \<Rightarrow> jsval list \<Rightarrow> (rule_result list, jsobj) act" where
  "executeRules env rules = foldA (execute_rule env) rules []"

section \<open>Stored functions\<close>

record server_function =
  sv_id :: string
  sv_name :: string
  sv_collection :: string
  sv_trigger :: string
  sv_function_code :: string
  sv_rules_text :: "string option"
  sv_enabled :: bool
  sv_created_at :: string
  sv_updated_at :: string

definition parseRules :: "(string \<Rightarrow> jsval res) \<Rightarrow> string option \<Rightarrow> jsval list" where
  "parseRules parse t = (case t of
     None \<Rightarrow> []
   | Some s \<Rightarrow> if s = [] then [] else (case parse s of Inr (Arr rs) \<Rightarrow> rs | _ \<Rightarrow> []))"

definition functions_for :: "server_function list \<Rightarrow> string \<Rightarrow> string \<Rightarrow> server_function list" where
  "functions_for rows coll trigger =
     order_by sv_name (filter (\<lambda>f. sv_collection f = coll \<and> sv_trigger f = trigger \<and> sv_enabled f) rows)"

definition executeFunctions :: "api_env \<Rightarrow> server_function list \<Rightarrow> string \<Rightarrow> string \<Rightarrow> (rule_result list, jsobj) act" where
  "executeFunctions env rows trigger coll = foldA (\<lambda>f out. bindA (executeRules env (parseRules (en_parse env) (sv_rules_text f)))
       (\<lambda>rs. retA (out @ rs))) (functions_for rows coll trigger) []"

text \<open>The first result aborts: the message the caller reports, if any.\<close>

definition executeHooks :: "api_env \<Rightarrow> server_function list \<Rightarrow> string \<Rightarrow> string \<Rightarrow> (string option, jsobj) act" where
  "executeHooks env rows trigger coll = bindA (executeFunctions env rows trigger coll) (\<lambda>rs. retA (case rs of
     [] \<Rightarrow> None
   | r # _ \<Rightarrow> Some (to_str (js_or (js_or (rr_message r) (rr_error r)) (Str ''Operation aborted by server hook'')))))"

definition function_list :: "string \<Rightarrow> server_function list \<Rightarrow> server_function list" where
  "function_list coll rows = order_by sv_name (if coll \<noteq> [] then filter (\<lambda>f. sv_collection f = coll) rows else rows)"

definition function_get :: "string \<Rightarrow> server_function list \<Rightarrow> server_function option" where
  "function_get i rows = find (\<lambda>f. sv_id f = i) rows"

text \<open>The members of the input that are given.\<close>

record function_input =
  fi_name :: "string option"
  fi_collection :: "string option"
  fi_trigger :: "string option"
  fi_rules :: "jsval list option"
  fi_function_code :: string
  fi_enabled :: "bool option"

definition no_legacy_code :: "function_input \<Rightarrow> unit res" where
  "no_legacy_code i = (if fi_function_code i = [] then Inr ()
     else validation_error (''Legacy function_code (JavaScript) is not supported - the Workers runtime disallows eval/new Function. ''
       @ ''Use declarative '' @ [CHR 34] @ ''rules'' @ [CHR 34] @ '' instead.''))"

definition rules_json :: "jsval list \<Rightarrow> string option" where
  "rules_json rs = (case json_stringify (Arr rs) of Str s \<Rightarrow> Some s | _ \<Rightarrow> None)"

text \<open>\<open>validation_error\<close> of an input that lacks one of the columns is the database's (NOT NULL).\<close>

definition function_create :: "api_env \<Rightarrow> function_input \<Rightarrow> server_function list \<Rightarrow> (server_function \<times> server_function list) res" where
  "function_create env i rows = bindR (no_legacy_code i) (\<lambda>_.
     case (fi_name i, fi_collection i, fi_trigger i) of
       (Some n, Some c, Some t) \<Rightarrow>
         (let f = \<lparr>sv_id = en_uuid env ''server_function'', sv_name = n, sv_collection = c, sv_trigger = t, sv_function_code = [],
                sv_rules_text = (case fi_rules i of Some rs \<Rightarrow> rules_json rs | None \<Rightarrow> None),
                sv_enabled = (fi_enabled i \<noteq> Some False), sv_created_at = en_stamp env, sv_updated_at = en_stamp env\<rparr>
          in Inr (f, rows @ [f]))
     | _ \<Rightarrow> throw ''NOT NULL constraint failed'')"

definition given_or :: "'a option \<Rightarrow> 'a \<Rightarrow> 'a" where
  "given_or x d = (case x of Some v \<Rightarrow> v | None \<Rightarrow> d)"

definition updated_rules_text :: "api_env \<Rightarrow> function_input \<Rightarrow> server_function \<Rightarrow> string option res" where
  "updated_rules_text env i f = (case fi_rules i of
     Some rs \<Rightarrow> Inr (rules_json rs)
   | None \<Rightarrow> (case sv_rules_text f of
       Some (c # s) \<Rightarrow> bindR (en_parse env (c # s)) (\<lambda>v.
         Inr (case json_stringify v of Str t \<Rightarrow> Some t | _ \<Rightarrow> None))
     | t \<Rightarrow> Inr t))"

definition function_update :: "api_env \<Rightarrow> string \<Rightarrow> function_input \<Rightarrow> server_function list \<Rightarrow> (server_function option \<times> server_function list) res" where
  "function_update env fid i rows = bindR (no_legacy_code i) (\<lambda>_.
     case function_get fid rows of
       None \<Rightarrow> Inr (None, rows)
     | Some f \<Rightarrow> bindR (updated_rules_text env i f) (\<lambda>t.
         let g = f\<lparr>sv_name := given_or (fi_name i) (sv_name f), sv_collection := given_or (fi_collection i) (sv_collection f),
               sv_trigger := given_or (fi_trigger i) (sv_trigger f), sv_rules_text := t,
               sv_enabled := given_or (fi_enabled i) (sv_enabled f), sv_updated_at := en_stamp env\<rparr>
         in Inr (Some g, map (\<lambda>r. if sv_id r = fid then g else r) rows)))"

definition function_delete :: "string \<Rightarrow> server_function list \<Rightarrow> bool \<times> server_function list" where
  "function_delete fid rows = (\<exists>f \<in> set rows. sv_id f = fid, filter (\<lambda>f. sv_id f \<noteq> fid) rows)"

end
