(* ===== verification/Relations.thy ===== *)
theory Relations
  imports Cascade ServerRules
begin

text \<open>
  Relations between collections: \<open>packages/core/src/entity/relation-resolver.ts\<close> (the expansion of a page of
  rows), \<open>apps/api/src/plugins/m2a/service.ts\<close> (relations to any collection) and
  \<open>apps/api/src/plugins/child-tables/service.ts\<close> (rows embedded in a parent). Rows are fetched with one query
  per target; a row without a column the query names has NULL there.
\<close>

section \<open>Queries\<close>

definition project :: "string list option \<Rightarrow> jsobj \<Rightarrow> jsobj" where
  "project cols r = (case cols of
     Some (c # cs) \<Rightarrow> map (\<lambda>c. (c, case map_of r c of Some v \<Rightarrow> v | None \<Rightarrow> Null)) (c # cs)
   | _ \<Rightarrow> r)"

definition text_column :: "jsobj \<Rightarrow> string \<Rightarrow> string" where
  "text_column r c = str_or_empty (obj_get r c)"

definition str_id :: "jsval \<Rightarrow> string option" where
  "str_id v = (case v of Str s \<Rightarrow> if s = [] then None else Some s | _ \<Rightarrow> None)"

text \<open>\<open>new Map(rows.map((r) => [key(r), r]))\<close>, and \<open>map.get(k) ?? []\<close> of groups.\<close>

definition group_add :: "string \<times> 'a \<Rightarrow> (string, 'a list) amap \<Rightarrow> (string, 'a list) amap" where
  "group_add kv m = amap_set (fst kv) ((case map_of m (fst kv) of Some xs \<Rightarrow> xs | None \<Rightarrow> []) @ [snd kv]) m"

definition grouped :: "(string, 'a list) amap \<Rightarrow> string \<Rightarrow> 'a list" where
  "grouped m k = (case map_of m k of Some xs \<Rightarrow> xs | None \<Rightarrow> [])"

section \<open>Relation info\<close>

definition collection_tables :: "entity_schema list \<Rightarrow> field_definition \<Rightarrow> string option" where
  "collection_tables cs f = (case related_slug f of None \<Rightarrow> None | Some s \<Rightarrow> map_of (table_by_slug cs) s)"

definition getM2ORelations :: "field_definition list \<Rightarrow> entity_schema list \<Rightarrow> (string \<times> string) list" where
  "getM2ORelations fs cs = concat (map (\<lambda>f. case collection_tables cs f of
     Some t \<Rightarrow> [(fd_name f, t)] | None \<Rightarrow> []) (filter (\<lambda>f. fd_type f = ''m2o'') fs))"

definition getO2MRelations :: "field_definition list \<Rightarrow> entity_schema list \<Rightarrow> (string \<times> string \<times> string) list" where
  "getO2MRelations fs cs = concat (map (\<lambda>f. case (collection_tables cs f, fd_foreign_key f) of
     (Some t, Some k) \<Rightarrow> if k = [] then [] else [(fd_name f, t, k)] | _ \<Rightarrow> []) (filter (\<lambda>f. fd_type f = ''o2m'') fs))"

definition getM2MRelations :: "field_definition list \<Rightarrow> entity_schema list \<Rightarrow> string \<Rightarrow> (string \<times> string \<times> string) list" where
  "getM2MRelations fs cs source = concat (map (\<lambda>f. case collection_tables cs f of
     Some t \<Rightarrow> [(fd_name f, t, ''_jt_'' @ source @ ''_'' @ t)] | None \<Rightarrow> []) (filter (\<lambda>f. fd_type f = ''m2m'') fs))"

section \<open>Many to one\<close>

definition table_columns :: "(string, string list) amap \<Rightarrow> string \<Rightarrow> string list option" where
  "table_columns byTable t = map_of byTable t"

text \<open>The rows with these ids that are not in the trash, by id.\<close>

definition fetch_targets :: "(string \<Rightarrow> jsval res) \<Rightarrow> string \<Rightarrow> string list \<Rightarrow> string list option \<Rightarrow> store \<Rightarrow> (string, jsobj) amap res" where
  "fetch_targets parse t ids cols db =
     (if ids = [] then Inr []
      else bindR (select_rows t (\<lambda>r. col_in ''id'' ids r \<and> live r) db) (\<lambda>rows.
        Inr (amap_of (map (\<lambda>r. let p = project cols r in (to_str (obj_get p ''id''), mergeRowData parse p)) rows))))"

definition m2o_ids :: "jsobj list \<Rightarrow> (string \<times> string) list \<Rightarrow> string \<Rightarrow> string list" where
  "m2o_ids items rels t = uniq (concat (map (\<lambda>(f, t'). if t' = t
     then concat (map (\<lambda>i. case str_id (obj_get i f) of Some k \<Rightarrow> [k] | None \<Rightarrow> []) items) else []) rels))"

definition put_m2o :: "(string, jsobj) amap \<Rightarrow> string \<Rightarrow> jsobj \<Rightarrow> jsobj" where
  "put_m2o lookup f item = (case obj_get item f of
     Str k \<Rightarrow> amap_set f (case map_of lookup k of Some r \<Rightarrow> Obj r | None \<Rightarrow> Null) item
   | _ \<Rightarrow> item)"

definition resolveM2O :: "(string \<Rightarrow> jsval res) \<Rightarrow> jsobj list \<Rightarrow> (string \<times> string) list \<Rightarrow> (string, string list) amap \<Rightarrow> store
    \<Rightarrow> jsobj list res" where
  "resolveM2O parse items rels byTable db =
     (if items = [] \<or> rels = [] then Inr items
      else bindR (mapR (\<lambda>t. bindR (fetch_targets parse t (m2o_ids items rels t) (table_columns byTable t) db) (\<lambda>m. Inr (t, m)))
                   (uniq (map snd rels))) (\<lambda>lookups.
        Inr (fold (\<lambda>(f, t). map (put_m2o (case map_of lookups t of Some m \<Rightarrow> m | None \<Rightarrow> []) f)) rels items)))"

section \<open>One to many\<close>

definition item_ids :: "jsobj list \<Rightarrow> string list" where
  "item_ids items = concat (map (\<lambda>i. case str_id (obj_get i ''id'') of Some k \<Rightarrow> [k] | None \<Rightarrow> []) items)"

text \<open>\<open>ROW_NUMBER() OVER (PARTITION BY fk ORDER BY id DESC)\<close>, kept up to the limit.\<close>

definition o2m_rows :: "string \<Rightarrow> string \<Rightarrow> string \<Rightarrow> nat \<Rightarrow> store \<Rightarrow> jsobj list res" where
  "o2m_rows t fk pid limit db = bindR (select_rows t (\<lambda>r. col_in fk [pid] r \<and> live r) db) (\<lambda>rows.
     Inr (take limit (rev (order_by row_id rows))))"

definition put_o2m :: "(string \<Rightarrow> jsval res) \<Rightarrow> string \<times> string \<times> string \<Rightarrow> nat \<Rightarrow> store \<Rightarrow> jsobj \<Rightarrow> jsobj res" where
  "put_o2m parse rel limit db item = (let (f, t, fk) = rel in
     bindR (case str_id (obj_get item ''id'') of Some pid \<Rightarrow> o2m_rows t fk pid limit db | None \<Rightarrow> Inr []) (\<lambda>rows.
       Inr (amap_set f (Arr (map (\<lambda>r. Obj (mergeRowData parse r)) rows)) item)))"

definition resolveO2M :: "(string \<Rightarrow> jsval res) \<Rightarrow> jsobj list \<Rightarrow> (string \<times> string \<times> string) list \<Rightarrow> nat \<Rightarrow> store \<Rightarrow> jsobj list res" where
  "resolveO2M parse items rels limit db =
     (if items = [] \<or> rels = [] \<or> item_ids items = [] then Inr items
      else foldR (\<lambda>rel items. mapR (put_o2m parse rel limit db) items) rels items)"

section \<open>Many to many\<close>

text \<open>The junction rows in the order the array is joined in.\<close>

definition junction_order :: "jsobj list \<Rightarrow> jsobj list" where
  "junction_order js = order_by (\<lambda>j. text_column j ''created_at'') (order_by (\<lambda>j. text_column j ''target_id'') js)"

definition m2m_targets :: "string \<Rightarrow> string \<Rightarrow> nat option \<Rightarrow> store \<Rightarrow> string list res" where
  "m2m_targets jt source limit db = bindR (select_rows jt (col_in ''source_id'' [source]) db) (\<lambda>js.
     let kept = (case limit of Some n \<Rightarrow> take n (junction_order js) | None \<Rightarrow> junction_order js)
     in Inr (filter (\<lambda>t. t \<noteq> []) (map (\<lambda>j. text_column j ''target_id'') kept)))"

definition pick :: "('a, 'b) amap \<Rightarrow> 'a list \<Rightarrow> 'b list" where
  "pick m ks = concat (map (\<lambda>k. case map_of m k of Some v \<Rightarrow> [v] | None \<Rightarrow> []) ks)"

definition m2m_rows :: "(string \<Rightarrow> jsval res) \<Rightarrow> string \<Rightarrow> string \<Rightarrow> string list option \<Rightarrow> nat option \<Rightarrow> string \<Rightarrow> store \<Rightarrow> jsobj list res" where
  "m2m_rows parse t jt cols limit source db = bindR (m2m_targets jt source limit db) (\<lambda>ts.
     bindR (fetch_targets parse t (uniq ts) cols db) (\<lambda>m. Inr (pick m ts)))"

definition put_m2m :: "(string \<Rightarrow> jsval res) \<Rightarrow> (string, string list) amap \<Rightarrow> nat \<Rightarrow> store \<Rightarrow> string \<times> string \<times> string \<Rightarrow> jsobj \<Rightarrow> jsobj res" where
  "put_m2m parse byTable limit db rel item = (let (f, t, jt) = rel in
     bindR (case str_id (obj_get item ''id'') of
         Some i \<Rightarrow> m2m_rows parse t jt (table_columns byTable t) (Some limit) i db | None \<Rightarrow> Inr []) (\<lambda>rows.
       Inr (amap_set f (Arr (map Obj rows)) item)))"

definition resolveM2M :: "(string \<Rightarrow> jsval res) \<Rightarrow> jsobj list \<Rightarrow> (string \<times> string \<times> string) list \<Rightarrow> (string, string list) amap \<Rightarrow> nat
    \<Rightarrow> store \<Rightarrow> jsobj list res" where
  "resolveM2M parse items rels byTable limit db =
     (if items = [] \<or> rels = [] \<or> item_ids items = [] then Inr items
      else foldR (\<lambda>rel items. mapR (put_m2m parse byTable limit db rel) items) rels items)"

end
