(* ===== verification/ChildTables.thy ===== *)
theory ChildTables
  imports Relations
begin

text \<open>
  \<open>apps/api/src/plugins/child-tables/service.ts\<close>: the rows of \<open>table\<close> fields, kept in their own collection
  with a \<open>parent_id\<close>; and \<open>apps/api/src/plugins/m2a/service.ts\<close>: fields that refer to a row of any of several
  collections by a type and an id.
\<close>

section \<open>Child rows\<close>

definition collection_row :: "api_env \<Rightarrow> string \<Rightarrow> entity_schema option" where
  "collection_row env slug = find (\<lambda>c. es_slug c = slug) (en_collections env)"

definition table_fields :: "field_definition list \<Rightarrow> (field_definition \<times> string) list" where
  "table_fields sf = concat (map (\<lambda>f. case related_slug f of Some rel \<Rightarrow> [(f, rel)] | None \<Rightarrow> []) (filter (\<lambda>f. fd_type f = ''table'') sf))"

definition getChildMap :: "api_env \<Rightarrow> field_definition list \<Rightarrow> (string, string) amap" where
  "getChildMap env sf = amap_of (concat (map (\<lambda>(f, rel). case collection_row env rel of
     Some c \<Rightarrow> [(fd_name f, rel)] | None \<Rightarrow> []) (table_fields sf)))"

definition extractChildData :: "jsobj \<Rightarrow> field_definition list \<Rightarrow> jsobj \<times> (string, jsval list) amap" where
  "extractChildData body sf = fold (\<lambda>f (clean, children). case obj_get clean (fd_name f) of
       Arr xs \<Rightarrow> (amap_del (fd_name f) clean, amap_set (fd_name f) xs children)
     | _ \<Rightarrow> (clean, children)) (filter (\<lambda>f. fd_type f = ''table'') sf) (obj_spread [] body, [])"

definition child_fields :: "api_env \<Rightarrow> string \<Rightarrow> field_definition list" where
  "child_fields env slug = (case collection_row env slug of
     None \<Rightarrow> []
   | Some c \<Rightarrow> (case en_fields env (es_schema_json c) of
       None \<Rightarrow> [] | Some fs \<Rightarrow> filter (\<lambda>f. fd_name f \<noteq> [] \<and> fd_name f \<notin> set SYSTEM_FIELD_NAMES) fs))"

text \<open>Unlike the parent's row, a child's texts are stored as they come: nothing is sanitized.\<close>

definition coerce_child_entry :: "field_definition list \<Rightarrow> string \<times> jsval \<Rightarrow> jsobj \<times> jsobj \<Rightarrow> (jsobj \<times> jsobj) res" where
  "coerce_child_entry fs kv st =
     (let key = fst kv; value = snd kv
      in if key \<in> set SYSTEM_FIELD_NAMES then Inr st
         else (case map_of (schema_types fs) key of
             Some ty \<Rightarrow> if ty \<in> {''o2m'', ''m2m'', ''table'', ''formula''} then Inr st
                        else bindR (coerceValue value ty) (\<lambda>v. Inr (amap_set key v (fst st), snd st))
           | None \<Rightarrow> if key \<in> set (m2a_columns fs) then Inr (amap_set key value (fst st), snd st)
                     else Inr (fst st, amap_set key value (snd st))))"

definition coerceChildRow :: "field_definition list \<Rightarrow> jsobj \<Rightarrow> jsobj res" where
  "coerceChildRow fs item = bindR (foldR (coerce_child_entry fs) (own_entries item) ([], [])) (\<lambda>(columns, meta).
     Inr (if meta = [] then obj_spread [] columns else amap_set ''_meta'' (json_stringify (Obj meta)) (obj_spread [] columns)))"

definition child_row :: "api_env \<Rightarrow> string \<Rightarrow> string \<Rightarrow> field_definition list \<Rightarrow> jsobj \<Rightarrow> jsobj res" where
  "child_row env uuid parentId fs item = bindR (coerceChildRow fs item) (\<lambda>c.
     Inr (obj_spread (obj_spread [(''id'', Str uuid), (''parent_id'', Str parentId)] c)
            [(''doc_status'', Str ''draft''), (''created_at'', Str (en_stamp env)), (''updated_at'', Str (en_stamp env))]))"

text \<open>The items that are objects, each with the UUID drawn for it.\<close>

definition object_items :: "api_env \<Rightarrow> string \<Rightarrow> jsval list \<Rightarrow> (string \<times> jsobj) list" where
  "object_items env field items = concat (map (\<lambda>(i, v). case v of
       Obj m \<Rightarrow> [(en_uuid env (field @ '':'' @ show_nat i), m)]
     | Arr xs \<Rightarrow> [(en_uuid env (field @ '':'' @ show_nat i), spread_obj (Arr xs))]
     | _ \<Rightarrow> []) (zip [0..<length items] items))"

definition missing_child_field :: "string \<Rightarrow> js_error" where
  "missing_child_field msg = JsError ''ValidationError'' (''Child table field missing: '' @ last (split_on CHR '':'' msg))"

text \<open>The rows are inserted one by one: those before a failing one stay.\<close>

definition create_child :: "api_env \<Rightarrow> string \<Rightarrow> string \<Rightarrow> field_definition list \<Rightarrow> string \<times> jsobj \<Rightarrow> unit api" where
  "create_child env table parentId fs item = bindA (liftA (child_row env (fst item) parentId fs (snd item))) (\<lambda>row.
     catchA (batchA env [InsertRow table row]) (\<lambda>e.
       if str_includes (err_msg e) ''NOT NULL'' then failA (missing_child_field (err_msg e))
       else failA (JsError ''InternalError'' (''Failed to create child record: '' @ err_msg e))))"

definition createChildren :: "api_env \<Rightarrow> string \<Rightarrow> (string, jsval list) amap \<Rightarrow> (string, string) amap \<Rightarrow> unit api" where
  "createChildren env parentId childData childMap = eachA (\<lambda>(field, items). case map_of childMap field of
       None \<Rightarrow> retA ()
     | Some slug \<Rightarrow> (let objs = object_items env field items in
         bindA (eachA (create_child env (target_table env slug) parentId (child_fields env slug)) objs) (\<lambda>_.
         whenA (objs \<noteq> []) (dropReads slug None)))) (own_entries childData)"

text \<open>One batch per field: the children are deleted and the new set inserted, or nothing happens.\<close>

definition replace_children :: "api_env \<Rightarrow> string \<Rightarrow> string \<Rightarrow> string \<Rightarrow> jsval list \<Rightarrow> unit api" where
  "replace_children env parentId slug field items =
     (let table = target_table env slug in
      catchA (bindA (liftA (mapR (\<lambda>(uuid, m). child_row env uuid parentId (child_fields env slug) m) (object_items env field items))) (\<lambda>rows.
          bindA (batchA env (DeleteIn table ''parent_id'' [parentId] # map (InsertRow table) rows)) (\<lambda>_. dropReads slug None)))
        (\<lambda>e. if str_includes (err_msg e) ''UNIQUE'' then failA (JsError ''InternalError'' (''Duplicate child record in '' @ table))
             else if str_includes (err_msg e) ''NOT NULL'' then failA (missing_child_field (err_msg e)) else failA e))"

definition replaceChildren :: "api_env \<Rightarrow> string \<Rightarrow> (string, jsval list) amap \<Rightarrow> (string, string) amap \<Rightarrow> unit api" where
  "replaceChildren env parentId childData childMap = eachA (\<lambda>(field, items). case map_of childMap field of
       None \<Rightarrow> retA () | Some slug \<Rightarrow> replace_children env parentId slug field items) (own_entries childData)"

text \<open>The children of each parent, by id, up to the limit; a missing table is passed over.\<close>

definition child_payload :: "jsobj \<Rightarrow> jsobj" where
  "child_payload r = filter (\<lambda>kv. fst kv \<notin> {''parent_id'', ''deleted_at'', ''_meta'', ''_ct_rn''}) (own_entries r)"

definition children_of :: "string \<Rightarrow> nat option \<Rightarrow> store \<Rightarrow> string \<Rightarrow> jsobj list" where
  "children_of table limit db pid =
     (let rows = order_by row_id (filter (\<lambda>r. col_in ''parent_id'' [pid] r \<and> live r) (rows_of db table))
      in map child_payload (case limit of Some n \<Rightarrow> if 0 < n then take n rows else rows | None \<Rightarrow> rows))"

definition resolveChildren :: "api_env \<Rightarrow> string list \<Rightarrow> field_definition list \<Rightarrow> nat option \<Rightarrow> store \<Rightarrow> (string \<times> string \<times> jsobj list) list" where
  "resolveChildren env parentIds sf limit db = concat (map (\<lambda>(f, rel).
     let table = target_table env rel
     in if amap_has table db then map (\<lambda>pid. (pid, fd_name f, children_of table limit db pid)) parentIds else []) (table_fields sf))"

section \<open>Many to any\<close>

record m2a_info =
  ma_field :: string
  ma_allowed :: "string list"

definition ma_type :: "m2a_info \<Rightarrow> string" where "ma_type m = ma_field m @ ''_type''"
definition ma_id :: "m2a_info \<Rightarrow> string" where "ma_id m = ma_field m @ ''_id''"

definition m2a_fields :: "field_definition list \<Rightarrow> m2a_info list" where
  "m2a_fields fs = concat (map (\<lambda>f. case fd_related_collections f of
     Some allowed \<Rightarrow> if fd_type f = ''m2a'' then [\<lparr>ma_field = fd_name f, ma_allowed = allowed\<rparr>] else [] | None \<Rightarrow> []) fs)"

definition m2a_check :: "jsobj \<Rightarrow> m2a_info \<Rightarrow> unit \<Rightarrow> unit res" where
  "m2a_check data m u =
     (let t = obj_get data (ma_type m); i = obj_get data (ma_id m); q = [CHR 34]
      in if (truthy t \<or> truthy i) \<and> \<not> (truthy t \<and> truthy i)
         then validation_error (q @ ma_field m @ q @ '': both _type and _id required'')
         else if truthy t \<and> to_str t \<notin> set (ma_allowed m)
         then validation_error (q @ ma_field m @ q @ '': type '' @ q @ to_str t @ q @ '' not allowed'')
         else Inr ())"

definition m2a_validate :: "m2a_info list \<Rightarrow> jsobj \<Rightarrow> unit res" where
  "m2a_validate ms data = foldR (m2a_check data) ms ()"

definition m2a_pairs :: "m2a_info \<Rightarrow> jsobj list \<Rightarrow> (string \<times> string) list" where
  "m2a_pairs m items = concat (map (\<lambda>i. case (obj_get i (ma_type m), obj_get i (ma_id m)) of
     (Str t, Str k) \<Rightarrow> [(t, k)] | _ \<Rightarrow> []) items)"

text \<open>The targets of every type in turn; a type whose table is missing has none.\<close>

definition m2a_lookup :: "api_env \<Rightarrow> (string \<times> string) list \<Rightarrow> store \<Rightarrow> (string, jsobj) amap" where
  "m2a_lookup env pairs db = fold (\<lambda>t m. case fetch_targets (en_parse env) (target_table env t)
         (uniq (map snd (filter (\<lambda>p. fst p = t) pairs))) None db of
       Inl e \<Rightarrow> m
     | Inr rows \<Rightarrow> fold (\<lambda>(k, r). amap_set k (amap_set ''_type'' (Str t) r)) rows m) (uniq (map fst pairs)) []"

definition m2a_put :: "m2a_info \<Rightarrow> (string, jsobj) amap \<Rightarrow> jsobj \<Rightarrow> jsobj" where
  "m2a_put m lookup item = (case obj_get item (ma_id m) of
     Str k \<Rightarrow> amap_del (ma_type m) (amap_del (ma_id m)
       (amap_set (ma_field m) (case map_of lookup k of Some r \<Rightarrow> Obj r | None \<Rightarrow> Null) item))
   | _ \<Rightarrow> item)"

definition m2a_resolve :: "api_env \<Rightarrow> jsobj list \<Rightarrow> m2a_info list \<Rightarrow> store \<Rightarrow> jsobj list" where
  "m2a_resolve env items ms db = fold (\<lambda>m items. let pairs = m2a_pairs m items in
     if pairs = [] then items else map (m2a_put m (m2a_lookup env pairs db)) items) ms items"

end
