(* ===== verification/Lookups.thy ===== *)
theory Lookups
  imports ChildTables Computed
begin

text \<open>
  \<open>apps/api/src/lib/services/computed-field.service.ts\<close>: the rows a formula looks at through a relation,
  for one row that is written (\<open>attachLookupScope\<close>) and for a page that is read (\<open>fetchLookupScopes\<close>).
  The name of a relation is an identifier, so the regular expressions that find it are scans.
\<close>

section \<open>What a formula reads of a relation\<close>

text \<open>\<open>REL\s*\.\s*member\<close> at the head of a text: the member and what follows it.\<close>

definition member_here :: "string \<Rightarrow> string \<Rightarrow> (string \<times> string) option" where
  "member_here rel s =
     (if \<not> starts_with s rel then None
      else (case dropWhile is_space (drop (length rel) s) of
          [] \<Rightarrow> None
        | d # r \<Rightarrow> if d \<noteq> CHR ''.'' then None
            else (let m = dropWhile is_space r
                  in if m = [] \<or> \<not> is_id_start (hd m) then None
                     else Some (takeWhile is_id_char m, dropWhile is_id_char m))))"

lemma member_here_shorter: "member_here rel (c # s) = Some (m, r) \<Longrightarrow> length r < length (c # s)"
proof -
  assume "member_here rel (c # s) = Some (m, r)"
  then obtain d q where q: "dropWhile is_space (drop (length rel) (c # s)) = d # q" and r: "r = dropWhile is_id_char (dropWhile is_space q)"
    by (auto simp: member_here_def Let_def split: if_splits list.splits)
  have "length r \<le> length q" unfolding r by (meson le_trans length_dropWhile_le)
  moreover have "Suc (length q) \<le> length (c # s)"
    using length_dropWhile_le [of is_space "drop (length rel) (c # s)"] q by (metis length_Cons length_drop diff_le_self le_trans)
  ultimately show ?thesis by simp
qed

text \<open>The scan: \<open>ok\<close> where the character before, not consumed by a match, ends no identifier.\<close>

function scan_members :: "string \<Rightarrow> bool \<Rightarrow> string \<Rightarrow> string list" where
  "scan_members rel ok [] = []"
| "scan_members rel ok (c # s) =
     (case (if ok then member_here rel (c # s) else None) of
        Some (m, r) \<Rightarrow> m # scan_members rel False r
      | None \<Rightarrow> scan_members rel (\<not> is_id_char c) s)"
  by pat_completeness auto
termination
  by (relation "measure (\<lambda>(rel, ok, s). length s)") (auto dest!: member_here_shorter split: if_splits)

definition lookupMemberColumns :: "string list \<Rightarrow> string \<Rightarrow> string list" where
  "lookupMemberColumns formulas rel = uniq (concat (map (scan_members rel True) formulas))"

fun scan_bare :: "string \<Rightarrow> bool \<Rightarrow> string \<Rightarrow> bool" where
  "scan_bare rel ok [] = False"
| "scan_bare rel ok (c # s) =
     (ok \<and> starts_with (c # s) rel \<and> \<not> starts_with (dropWhile is_space (drop (length rel) (c # s))) ''.''
      \<or> scan_bare rel (\<not> is_id_char c) s)"

definition usesRelationBare :: "string list \<Rightarrow> string \<Rightarrow> bool" where
  "usesRelationBare formulas rel \<longleftrightarrow> list_ex (scan_bare rel True) formulas"

text \<open>The narrowest SELECT list; \<open>None\<close> keeps every column.\<close>

definition projection_columns :: "api_env \<Rightarrow> string list \<Rightarrow> entity_schema \<Rightarrow> string list option" where
  "projection_columns env members c = (case en_fields env (es_schema_json c) of
     None \<Rightarrow> None
   | Some fs \<Rightarrow> (let allowed = physicalColumnNames (filter (\<lambda>f. fd_name f \<noteq> [] \<and> fd_name f \<notin> set SYSTEM_FIELD_NAMES) fs)
                      @ buildSystemColumnsList (es_system c)
                 in Some (uniq (''id'' # filter (\<lambda>m. m \<in> set allowed) members))))"

definition lookupProjection :: "api_env \<Rightarrow> string \<Rightarrow> string list \<Rightarrow> string \<Rightarrow> bool \<Rightarrow> string list option" where
  "lookupProjection env rel formulas targetTable m2o =
     (if formulas = [] \<or> m2o \<and> usesRelationBare formulas rel then None
      else (case find (\<lambda>c. es_table c = targetTable) (en_collections env) of
          None \<Rightarrow> None | Some c \<Rightarrow> projection_columns env (lookupMemberColumns formulas rel) c))"

section \<open>Fetching\<close>

text \<open>The rows of each parent, grouped by the foreign key they were fetched with.\<close>

definition group_children :: "(string \<Rightarrow> jsval res) \<Rightarrow> string \<Rightarrow> jsobj list \<Rightarrow> (string, jsobj list) amap" where
  "group_children parse fk rows = fold (\<lambda>r m. let k = text_column r fk in
     if k = [] then m else group_add (k, mergeRowData parse r) m) rows []"

definition fetchArrayChildren :: "api_env \<Rightarrow> string list \<Rightarrow> string \<Rightarrow> string \<Rightarrow> string list option \<Rightarrow> store
    \<Rightarrow> (string, jsobj list) amap res" where
  "fetchArrayChildren env ids table fk cols db =
     (if ids = [] then Inr []
      else bindR (select_rows table (\<lambda>r. col_in fk ids r \<and> live r) db) (\<lambda>rows.
        Inr (group_children (en_parse env) fk (map (project cols) rows))))"

definition fetchM2O :: "api_env \<Rightarrow> jsobj list \<Rightarrow> string \<Rightarrow> string \<Rightarrow> string list option \<Rightarrow> store \<Rightarrow> (string, jsobj) amap res" where
  "fetchM2O env items field table cols db =
     bindR (fetch_targets (en_parse env) table (m2o_ids items [(field, table)] table) cols db) (\<lambda>byId.
       Inr (amap_of (concat (map (\<lambda>i. case str_id (obj_get i field) of
           None \<Rightarrow> []
         | Some k \<Rightarrow> (case map_of byId k of Some r \<Rightarrow> [(text_column i ''id'', r)] | None \<Rightarrow> [])) items))))"

section \<open>One row that is written\<close>

definition attach_m2o :: "api_env \<Rightarrow> store \<Rightarrow> (string, field_definition) amap \<Rightarrow> string \<times> string \<Rightarrow> jsobj \<Rightarrow> jsobj res" where
  "attach_m2o env db refs rel scope = (let (f, table) = rel in
     if \<not> amap_has f refs then Inr scope
     else (case obj_get scope f of
         Arr xs \<Rightarrow> Inr scope | Obj m \<Rightarrow> Inr scope | Host h \<Rightarrow> Inr scope
       | Str k \<Rightarrow> if k = [] then Inr (amap_set f Null scope)
           else bindR (select_rows table (col_in ''id'' [k]) db) (\<lambda>rows.
             Inr (amap_set f (case rows of r # _ \<Rightarrow> Obj (mergeRowData (en_parse env) r) | [] \<Rightarrow> Null) scope))
       | _ \<Rightarrow> Inr (amap_set f Null scope)))"

definition attach_o2m :: "api_env \<Rightarrow> store \<Rightarrow> (string, field_definition) amap \<Rightarrow> string \<Rightarrow> string
    \<Rightarrow> string \<times> string \<times> string \<Rightarrow> jsobj \<Rightarrow> jsobj res" where
  "attach_o2m env db refs formula i rel scope = (let (f, table, fk) = rel in
     if \<not> amap_has f refs then Inr scope
     else bindR (fetchArrayChildren env [i] table fk (lookupProjection env f [formula] table False) db) (\<lambda>rows.
       Inr (amap_set f (Obj (buildLookupScope (grouped rows i))) scope)))"

definition attach_m2m :: "api_env \<Rightarrow> store \<Rightarrow> (string, field_definition) amap \<Rightarrow> string \<Rightarrow> string
    \<Rightarrow> string \<times> string \<times> string \<Rightarrow> jsobj \<Rightarrow> jsobj res" where
  "attach_m2m env db refs formula i rel scope = (let (f, table, jt) = rel in
     if \<not> amap_has f refs then Inr scope
     else bindR (m2m_rows (en_parse env) table jt (lookupProjection env f [formula] table False) None i db) (\<lambda>rows.
       Inr (amap_set f (Obj (buildLookupScope rows)) scope)))"

definition attach_tables :: "api_env \<Rightarrow> store \<Rightarrow> (string, field_definition) amap \<Rightarrow> field_definition list \<Rightarrow> string \<Rightarrow> jsobj \<Rightarrow> jsobj" where
  "attach_tables env db refs sf i scope =
     (let children = resolveChildren env [i] sf None db
      in fold (\<lambda>f. amap_set (fd_name f) (Obj (buildLookupScope
             (concat (map (\<lambda>(pid, g, rows). rows) (filter (\<lambda>(pid, g, rows). g = fd_name f) children))))))
           (filter (\<lambda>f. fd_type f = ''table'' \<and> amap_has (fd_name f) refs) sf) scope)"

text \<open>\<open>i\<close> is empty on the pass before the row is inserted: the children need a parent.\<close>

definition attachLookupScope :: "api_env \<Rightarrow> store \<Rightarrow> jsobj \<Rightarrow> string \<Rightarrow> field_definition list \<Rightarrow> string \<Rightarrow> string \<Rightarrow> jsobj res" where
  "attachLookupScope env db scope formula sf sourceTable i =
     (let refs = extractLookupRefs formula sf; cs = en_collections env in
      if refs = [] then Inr scope
      else bindR (foldR (attach_m2o env db refs) (getM2ORelations sf cs) scope) (\<lambda>scope.
        if i = [] then Inr scope
        else bindR (foldR (attach_o2m env db refs formula i) (getO2MRelations sf cs) scope) (\<lambda>scope.
          bindR (foldR (attach_m2m env db refs formula i) (getM2MRelations sf cs sourceTable) scope) (\<lambda>scope.
            Inr (attach_tables env db refs sf i scope)))))"

section \<open>A page that is read\<close>

type_synonym page_scopes = "(string, jsobj) amap"

definition set_scope :: "string \<Rightarrow> string \<times> jsval \<Rightarrow> page_scopes \<Rightarrow> page_scopes" where
  "set_scope field iv out = amap_set (fst iv) (amap_set field (snd iv) (case map_of out (fst iv) of Some m \<Rightarrow> m | None \<Rightarrow> [])) out"

definition formula_texts :: "field_definition list \<Rightarrow> string list" where
  "formula_texts fs = map (\<lambda>f. case fd_formula f of Some t \<Rightarrow> t | None \<Rightarrow> []) fs"

definition page_m2o :: "api_env \<Rightarrow> store \<Rightarrow> (string, field_definition) amap \<Rightarrow> string list \<Rightarrow> jsobj list
    \<Rightarrow> string \<times> string \<Rightarrow> page_scopes \<Rightarrow> page_scopes res" where
  "page_m2o env db refs formulas items rel out = (let (f, table) = rel in
     if \<not> amap_has f refs then Inr out
     else bindR (fetchM2O env items f table (lookupProjection env f formulas table True) db) (\<lambda>rows.
       Inr (fold (\<lambda>i. set_scope f (text_column i ''id'', case map_of rows (text_column i ''id'') of Some r \<Rightarrow> Obj r | None \<Rightarrow> Null)) items out)))"

definition page_o2m :: "api_env \<Rightarrow> store \<Rightarrow> (string, field_definition) amap \<Rightarrow> string list \<Rightarrow> string list
    \<Rightarrow> string \<times> string \<times> string \<Rightarrow> page_scopes \<Rightarrow> page_scopes res" where
  "page_o2m env db refs formulas ids rel out = (let (f, table, fk) = rel in
     if \<not> amap_has f refs then Inr out
     else bindR (fetchArrayChildren env ids table fk (lookupProjection env f formulas table False) db) (\<lambda>rows.
       Inr (fold (\<lambda>i. set_scope f (i, Obj (buildLookupScope (grouped rows i)))) ids out)))"

definition page_m2m :: "api_env \<Rightarrow> store \<Rightarrow> (string, field_definition) amap \<Rightarrow> string list \<Rightarrow> string list
    \<Rightarrow> string \<times> string \<times> string \<Rightarrow> page_scopes \<Rightarrow> page_scopes res" where
  "page_m2m env db refs formulas ids rel out = (let (f, table, jt) = rel in
     if \<not> amap_has f refs then Inr out
     else bindR (mapR (\<lambda>i. bindR (m2m_rows (en_parse env) table jt (lookupProjection env f formulas table False) None i db) (\<lambda>rows.
         Inr (i, Obj (buildLookupScope rows)))) ids) (\<lambda>ivs. Inr (fold (set_scope f) ivs out)))"

definition page_tables :: "api_env \<Rightarrow> store \<Rightarrow> (string, field_definition) amap \<Rightarrow> field_definition list \<Rightarrow> string list \<Rightarrow> page_scopes \<Rightarrow> page_scopes" where
  "page_tables env db refs sf ids out =
     (let children = filter (\<lambda>(pid, g, rows). amap_has g refs) (resolveChildren env ids sf None db);
          fs = filter (\<lambda>f. fd_type f = ''table'' \<and> amap_has (fd_name f) refs) sf
      in fold (\<lambda>i. fold (\<lambda>f. set_scope (fd_name f) (i, Obj (buildLookupScope
           (concat (map (\<lambda>(pid, g, rows). rows) (filter (\<lambda>(pid, g, rows). g = fd_name f \<and> pid = i) children)))))) fs) ids out)"

definition fetchLookupScopes :: "api_env \<Rightarrow> store \<Rightarrow> jsobj list \<Rightarrow> field_definition list \<Rightarrow> field_definition list \<Rightarrow> string \<Rightarrow> page_scopes res" where
  "fetchLookupScopes env db items sf formulaFields sourceTable =
     (let ids = filter (\<lambda>i. i \<noteq> []) (map (\<lambda>i. text_column i ''id'') items);
          formulas = formula_texts formulaFields; cs = en_collections env;
          refs = fold (\<lambda>t m. fold (\<lambda>(n, d). amap_set n d) (extractLookupRefs t sf) m) formulas []
      in if formulaFields = [] \<or> ids = [] \<or> refs = [] then Inr []
         else bindR (foldR (page_m2o env db refs formulas items) (getM2ORelations sf cs) []) (\<lambda>out.
           bindR (foldR (page_o2m env db refs formulas ids) (getO2MRelations sf cs) out) (\<lambda>out.
           bindR (foldR (page_m2m env db refs formulas ids) (getM2MRelations sf cs sourceTable) out) (\<lambda>out.
             Inr (page_tables env db refs sf ids out)))))"

end
