(* ===== verification/FieldCrypt.thy ===== *)
theory FieldCrypt
  imports Entity
begin

text \<open>
  \<open>apps/api/src/lib/services/field-encryption.service.ts\<close>: the fields marked \<open>encrypted\<close>, encrypted when they
  are written and decrypted when they are read. AES-GCM under the key of the environment is a
  parameter: \<open>cy_encrypt\<close> gives the base64 texts of nonce and ciphertext, or the error when no key is set;
  \<open>cy_decrypt\<close> reads them back.
\<close>

record cipher =
  cy_encrypt :: "string \<Rightarrow> (string \<times> string) res"
  cy_decrypt :: "string \<Rightarrow> string \<Rightarrow> string res"

definition ENCRYPTION_VERSION :: string where
  "ENCRYPTION_VERSION = ''v1''"

definition encrypt :: "cipher \<Rightarrow> string \<Rightarrow> string res" where
  "encrypt cy plaintext = (if plaintext = [] then Inr plaintext
     else bindR (cy_encrypt cy plaintext) (\<lambda>(iv, ct). Inr (ENCRYPTION_VERSION @ '':'' @ iv @ '':'' @ ct)))"

definition isEncrypted :: "string \<Rightarrow> bool" where
  "isEncrypted s \<longleftrightarrow> starts_with s (ENCRYPTION_VERSION @ '':'')"

text \<open>A text that cannot be decrypted is returned as it is.\<close>

definition decrypt :: "cipher \<Rightarrow> string \<Rightarrow> string" where
  "decrypt cy s = (if s = [] \<or> \<not> isEncrypted s then s
     else (case split_on CHR '':'' s of
             v # iv # ct # rest \<Rightarrow> (case cy_decrypt cy iv ct of Inr p \<Rightarrow> p | Inl e \<Rightarrow> s)
           | _ \<Rightarrow> s))"

definition encrypt_field :: "cipher \<Rightarrow> field_definition \<Rightarrow> jsobj \<Rightarrow> jsobj res" where
  "encrypt_field cy f row = (if \<not> fd_encrypted f then Inr row
     else (case obj_get row (fd_name f) of
             Str s \<Rightarrow> if s = [] then Inr row else bindR (encrypt cy s) (\<lambda>c. Inr (amap_set (fd_name f) (Str c) row))
           | _ \<Rightarrow> Inr row))"

definition encryptFields :: "cipher \<Rightarrow> jsobj \<Rightarrow> field_definition list \<Rightarrow> jsobj res" where
  "encryptFields cy row fs = foldR (encrypt_field cy) fs (obj_spread [] row)"

definition decrypt_field :: "cipher \<Rightarrow> field_definition \<Rightarrow> jsobj \<Rightarrow> jsobj" where
  "decrypt_field cy f row = (if \<not> fd_encrypted f then row
     else (case obj_get row (fd_name f) of
             Str s \<Rightarrow> if isEncrypted s then amap_set (fd_name f) (Str (decrypt cy s)) row else row
           | _ \<Rightarrow> row))"

definition decryptFields :: "cipher \<Rightarrow> jsobj \<Rightarrow> field_definition list \<Rightarrow> jsobj" where
  "decryptFields cy row fs = fold (decrypt_field cy) fs (obj_spread [] row)"

definition decryptBulk :: "cipher \<Rightarrow> jsobj list \<Rightarrow> field_definition list \<Rightarrow> jsobj list" where
  "decryptBulk cy items fs =
     (let encs = filter fd_encrypted fs in if encs = [] then items else map (\<lambda>i. decryptFields cy i fs) items)"

end
