(* ===== verification/WriteGuards.thy ===== *)
theory WriteGuards
  imports Lookups FieldCrypt PluginHooks Naming DecisionTable
begin

text \<open>
  \<open>apps/api/src/lib/services/collection-mutation.service.ts\<close>: what an entity write is checked for and what is
  derived from it before any row changes: the write policy of the collection, the fields a caller may
  set, required fields and constraints, the document status, the status machine, references that
  forbid a delete, and computed fields.
\<close>

section \<open>Write policies\<close>

definition quoted :: "string \<Rightarrow> string" where
  "quoted s = ''\"'' @ s @ ''\"''"

definition forbidden :: "string \<Rightarrow> 'a res" where
  "forbidden msg = Inl (JsError ''ForbiddenError'' msg)"

definition conflict :: "string \<Rightarrow> 'a res" where
  "conflict msg = Inl (JsError ''ConflictError'' msg)"

definition not_found :: "string \<Rightarrow> string \<Rightarrow> 'a res" where
  "not_found resource i = Inl (JsError ''NotFoundError'' (resource @ '' '' @ quoted i @ '' not found''))"

datatype write_action = Creating | Updating | Deleting

definition assertGenericWrite :: "string \<Rightarrow> collection_info \<Rightarrow> write_action \<Rightarrow> unit res" where
  "assertGenericWrite slug info act = (case co_writes info of
     None \<Rightarrow> Inr ()
   | Some w \<Rightarrow>
       if wp_mode w = Some ''service''
       then forbidden (quoted slug @ '' is maintained by its domain service and cannot be written through the generic entity API'')
       else if wp_append_only w \<and> act \<noteq> Creating
       then forbidden (quoted slug @ '' is an append-only ledger - its rows are immutable'')
       else Inr ())"

definition applied_actor_fields :: "collection_info \<Rightarrow> string list" where
  "applied_actor_fields info = filter (\<lambda>f. f \<in> fd_name ` set (co_fields info)) (co_actor_fields info)"

definition delete_keys :: "string list \<Rightarrow> jsobj \<Rightarrow> jsobj" where
  "delete_keys ks m = fold amap_del ks m"

definition bindActorFields :: "auth_context option \<Rightarrow> string \<Rightarrow> collection_info \<Rightarrow> bool \<Rightarrow> jsobj \<Rightarrow> jsobj res" where
  "bindActorFields auth slug info update data =
     (let fs = applied_actor_fields info in
      if fs = [] \<or> (case auth of Some a \<Rightarrow> au_is_admin a | None \<Rightarrow> False) then Inr data
      else if update then Inr (delete_keys fs data)
      else (case Option.bind auth au_employee_id of
          Some (c # e) \<Rightarrow> Inr (fold (\<lambda>f. amap_set f (Str (c # e))) fs data)
        | _ \<Rightarrow> forbidden (quoted slug @ '' records who filed it - this identity has no employee directory row, so it cannot file one'')))"

definition frozen_fields :: "collection_info \<Rightarrow> string list" where
  "frozen_fields info = (case co_writes info of Some w \<Rightarrow> wp_frozen_fields w | None \<Rightarrow> [])"

definition stripFrozenFields :: "collection_info \<Rightarrow> jsobj \<Rightarrow> jsobj" where
  "stripFrozenFields info data = delete_keys (frozen_fields info) data"

definition blocked_fields :: "collection_info \<Rightarrow> jsval list \<Rightarrow> jsobj \<Rightarrow> string list" where
  "blocked_fields info allowed data =
     (let all = allowed @ map Str ([''id'', ''created_at'', ''updated_at''] @ co_actor_fields info @ frozen_fields info)
      in filter (\<lambda>k. k \<in> fd_name ` set (co_fields info) \<and> \<not> arr_includes all (Str k)) (own_keys data))"

definition assertWritableFields :: "api_env \<Rightarrow> string \<Rightarrow> collection_info \<Rightarrow> jsobj \<Rightarrow> unit api" where
  "assertWritableFields env slug info data = (case en_auth env of
     None \<Rightarrow> retA ()
   | Some a \<Rightarrow> if au_is_admin a then retA () else
       bindA (cachedA (\<lambda>db c. getFieldRestrictions (en_parse env) (en_now env) db (au_role_id a) slug c)) (\<lambda>r.
       liftA (case r of
         Arr allowed \<Rightarrow> (let b = blocked_fields info allowed data in
           if b = [] then Inr ()
           else forbidden (''Your role cannot write field(s) on '' @ quoted slug @ '': '' @ join_with '', '' b))
       | _ \<Rightarrow> Inr ())))"

definition frozen_state :: "collection_info \<Rightarrow> jsobj \<Rightarrow> string option" where
  "frozen_state info row = (case Option.bind (co_writes info) wp_freeze_when of
     Some z \<Rightarrow> (case fz_field z of
         Some f \<Rightarrow> (let state = obj_get row f in
           if \<not> is_nullish state \<and> to_str state \<in> set (fz_values z) then Some (to_str state) else None)
       | None \<Rightarrow> None)
   | None \<Rightarrow> None)"

definition assertNotFrozen :: "string \<Rightarrow> collection_info \<Rightarrow> jsobj \<Rightarrow> unit res" where
  "assertNotFrozen slug info row = (case frozen_state info row of
     Some s \<Rightarrow> forbidden (quoted slug @ '' rows in state '' @ quoted s @
       '' are frozen - reverse or amend them through their domain service, not a generic write'')
   | None \<Rightarrow> Inr ())"

section \<open>References that forbid a delete\<close>

definition restrict_fields :: "api_env \<Rightarrow> entity_schema \<Rightarrow> (string \<times> string \<times> string \<times> string) list" where
  "restrict_fields env c = (case en_fields env (es_schema_json c) of
     None \<Rightarrow> []
   | Some fs \<Rightarrow> concat (map (\<lambda>f. case related_slug f of
       Some rel \<Rightarrow> if fd_type f = ''m2o'' \<and> fd_cascade_delete f = Some False \<and> rel \<noteq> es_slug c
                    then [(rel, es_name c, es_table c, fd_name f)] else []
     | None \<Rightarrow> []) fs))"

definition buildRestrictMap :: "api_env \<Rightarrow> (string, (string \<times> string \<times> string) list) amap" where
  "buildRestrictMap env = fold add_link (concat (map (restrict_fields env) (en_collections env))) []"

definition count_references :: "string \<Rightarrow> string \<times> string \<times> string \<Rightarrow> string list \<Rightarrow> string list api" where
  "count_references i ref blockers = (let (childName, table, field) = ref in
     bindA (\<lambda>w. (select_rows table (\<lambda>r. col_in field [i] r \<and> live r) (w_store w), w)) (\<lambda>rows.
     retA (if rows = [] then blockers
           else blockers @ [show_nat (length rows) @ '' record(s) in '' @ quoted childName])))"

definition assertNoRestrictiveReferences :: "api_env \<Rightarrow> string \<Rightarrow> string \<Rightarrow> unit api" where
  "assertNoRestrictiveReferences env slug i =
     bindA (foldA (count_references i) (links_of (buildRestrictMap env) slug) []) (\<lambda>blockers.
     liftA (if blockers = [] then Inr ()
       else conflict (''Cannot delete this record - it is still referenced by '' @ join_with '', '' blockers @
              ''. Remove or reassign those records first.'')))"

section \<open>Required fields and constraints\<close>

definition autoGeneratedTypes :: "string list" where
  "autoGeneratedTypes = [''uuid'', ''slug'', ''o2m'', ''m2m'', ''table'', ''formula'']"

definition absent :: "jsval \<Rightarrow> bool" where
  "absent v \<longleftrightarrow> is_nullish v \<or> (case v of Str s \<Rightarrow> trim s = [] | _ \<Rightarrow> False)"

definition missing_required :: "field_definition list \<Rightarrow> jsobj \<Rightarrow> string list" where
  "missing_required fs data = map fd_name (filter (\<lambda>f. fd_required f \<noteq> Some False \<and> fd_default f = None \<and>
     fd_type f \<notin> set autoGeneratedTypes \<and>
     (if fd_type f = ''m2a'' then is_nullish (obj_get data (fd_name f @ ''_type'')) \<or> is_nullish (obj_get data (fd_name f @ ''_id''))
      else absent (obj_get data (fd_name f)))) fs)"

definition checkRequired :: "field_definition list \<Rightarrow> jsobj \<Rightarrow> unit res" where
  "checkRequired fs data = (let missing = missing_required fs data in
     if missing = [] then Inr () else validation_error (''Missing required field(s): '' @ join_with '', '' missing))"

definition check_bounds :: "jsobj \<Rightarrow> field_definition \<Rightarrow> unit \<Rightarrow> unit res" where
  "check_bounds data f u = (case obj_get data (fd_name f) of
     Num x \<Rightarrow> bindR
       (case fd_min f of
          Some m \<Rightarrow> if num_lt x m then validation_error (quoted (fd_name f) @ '' must be >= '' @ num_to_string m) else Inr ()
        | None \<Rightarrow> Inr ())
       (\<lambda>_. case fd_max f of
          Some m \<Rightarrow> if num_lt m x then validation_error (quoted (fd_name f) @ '' must be <= '' @ num_to_string m) else Inr ()
        | None \<Rightarrow> Inr ())
   | Str s \<Rightarrow>
       (case fd_max_length f of
          Some m \<Rightarrow> if num_lt m (num_of_int (int (length s)))
                    then validation_error (quoted (fd_name f) @ '' exceeds maximum length of '' @ num_to_string m) else Inr ()
        | None \<Rightarrow> Inr ())
   | _ \<Rightarrow> Inr ())"

definition unique_stmt :: "string \<Rightarrow> jsobj \<Rightarrow> string option \<Rightarrow> field_definition \<Rightarrow> (field_definition \<times> sql_stmt) res" where
  "unique_stmt table data excludeId f =
     bindR (qb_from table) (\<lambda>q. bindR (qb_select [''id''] q) (\<lambda>q. bindR (qb_where (fd_name f) (obj_get data (fd_name f)) Undef q) (\<lambda>q.
     bindR (whereNull ''deleted_at'' q) (\<lambda>q.
     bindR (case excludeId of Some i \<Rightarrow> qb_where ''id'' (Str ''!='') (Str i) q | None \<Rightarrow> Inr q) (\<lambda>q.
     bindR (toSelect q) (\<lambda>s. Inr (f, s)))))))"

fun chunks :: "nat \<Rightarrow> nat \<Rightarrow> 'a list \<Rightarrow> 'a list list" where
  "chunks 0 n xs = []"
| "chunks (Suc k) n xs = (if xs = [] then [] else take n xs # chunks k n (drop n xs))"

text \<open>The statements of a chunk are answered together, then looked at in order.\<close>

definition check_unique_chunk :: "api_env \<Rightarrow> jsobj \<Rightarrow> (field_definition \<times> sql_stmt) list \<Rightarrow> unit api" where
  "check_unique_chunk env data chunk =
     bindA (\<lambda>w. (mapR (\<lambda>(f, s). bindR (en_first env s (w_store w)) (\<lambda>row. Inr (f, row))) chunk, w)) (\<lambda>answers.
     liftA (case find (\<lambda>(f, row). row \<noteq> None) answers of
       None \<Rightarrow> Inr ()
     | Some (f, row) \<Rightarrow> validation_error (quoted (fd_name f) @ '' must be unique. A record with value '' @
         quoted (to_str (obj_get data (fd_name f))) @ '' already exists.'')))"

definition validateFieldConstraints :: "api_env \<Rightarrow> field_definition list \<Rightarrow> jsobj \<Rightarrow> string \<Rightarrow> string option \<Rightarrow> unit api" where
  "validateFieldConstraints env fs data table excludeId =
     bindA (liftA (foldR (check_bounds data) fs ())) (\<lambda>_.
     bindA (liftA (mapR (unique_stmt table data excludeId)
       (filter (\<lambda>f. flag (fd_unique f) \<and> \<not> is_nullish (obj_get data (fd_name f))) fs))) (\<lambda>stmts.
     eachA (check_unique_chunk env data) (chunks (length stmts) 50 stmts)))"

section \<open>Document status\<close>

text \<open>
  \<open>doc_status\<close> of the body is checked when it is a text; then it must be a status the row can move to,
  and submitting and approving need their permission.
\<close>

definition may_business :: "api_env \<Rightarrow> string \<Rightarrow> string \<Rightarrow> unit api" where
  "may_business env slug action = (case en_auth env of
     None \<Rightarrow> retA ()
   | Some a \<Rightarrow> if au_is_admin a then retA () else
       bindA (cachedA (\<lambda>db c. checkBusiness (en_now env) db a slug action c)) (\<lambda>ok.
       liftA (if ok then Inr () else forbidden (''You do not have permission to '' @ action @ '' documents in '' @ quoted slug))))"

definition current_status :: "jsobj \<Rightarrow> string" where
  "current_status row = to_str (js_or (obj_get row ''doc_status'') (Str ''draft''))"

definition allow_confirmed :: "collection_info \<Rightarrow> bool" where
  "allow_confirmed info \<longleftrightarrow> (case co_writes info of Some w \<Rightarrow> wp_confirmable w | None \<Rightarrow> False)"

definition check_doc_status :: "api_env \<Rightarrow> string \<Rightarrow> collection_info \<Rightarrow> jsobj \<Rightarrow> jsval \<Rightarrow> unit api" where
  "check_doc_status env slug info row newStatus = (case newStatus of
     Str s \<Rightarrow>
       if s = [] then retA ()
       else if \<not> isValidDocStatus s
       then liftA (validation_error (''Invalid doc_status: '' @ quoted s @ ''. Valid: '' @
              join_with '', '' [''draft'', ''submitted'', ''approved'', ''cancelled'', ''confirmed'', ''pending_review'', ''rejected'']))
       else if \<not> isValidTransition (current_status row) s (allow_confirmed info)
       then liftA (validation_error (''Cannot transition from '' @ quoted (current_status row) @ '' to '' @ quoted s))
       else bindA (if s = ''submitted'' then may_business env slug ''submit'' else retA ()) (\<lambda>_.
            if s = ''approved'' then may_business env slug ''approve'' else retA ())
   | _ \<Rightarrow> retA ())"

text \<open>The message of the code is in Burmese.\<close>

definition check_status_machine :: "collection_info \<Rightarrow> jsobj \<Rightarrow> jsobj \<Rightarrow> unit res" where
  "check_status_machine info row data = (case co_status_machine info of
     None \<Rightarrow> Inr ()
   | Some sm \<Rightarrow>
       (let new = obj_get data (sm_field sm); old = str_or_empty (obj_get row (sm_field sm)) in
        if new = Undef \<or> str_or_empty new = old
           \<or> str_or_empty new \<in> set (case map_of (sm_transitions sm) old of Some ts \<Rightarrow> ts | None \<Rightarrow> [])
        then Inr ()
        else validation_error (''illegal transition from '' @ old @ '' to '' @ str_or_empty new @ '' - '' @
               join_with '' / '' (own_keys (sm_transitions sm)))))"

section \<open>Computed fields\<close>

definition nonempty :: "string option \<Rightarrow> string option" where
  "nonempty s = (case s of Some (c # r) \<Rightarrow> Some (c # r) | _ \<Rightarrow> None)"

text \<open>A payload that carries a computed field sets the source field it is the inverse of.\<close>

definition apply_inverse :: "api_env \<Rightarrow> field_definition list \<Rightarrow> jsobj \<Rightarrow> field_definition \<Rightarrow> jsobj \<Rightarrow> jsobj" where
  "apply_inverse env sf existing f data = (case (nonempty (fd_inverse_formula f), nonempty (fd_inverse_target f)) of
     (Some e, Some t) \<Rightarrow>
       if fd_type f \<noteq> ''formula'' \<or> is_nullish (obj_get data (fd_name f)) then data
       else (case find (\<lambda>x. fd_name x = t) sf of
           None \<Rightarrow> data
         | Some target \<Rightarrow>
             (case bindR (eval_text (en_eval env) e (obj_spread existing data)) (\<lambda>v. coerceValue v (fd_type target)) of
                Inr v \<Rightarrow> amap_set t v data | Inl err \<Rightarrow> data))
   | _ \<Rightarrow> data)"

definition applyInverseFormulas :: "api_env \<Rightarrow> field_definition list \<Rightarrow> jsobj \<Rightarrow> jsobj \<Rightarrow> jsobj" where
  "applyInverseFormulas env sf existing data = fold (apply_inverse env sf existing) sf data"

definition stored_value :: "eval_env \<Rightarrow> field_definition \<Rightarrow> jsobj \<Rightarrow> jsval" where
  "stored_value ev f scope = (case eval_text ev (formula_text f) scope of
     Inr v \<Rightarrow> coerceComputedValue v (formulaResultType f) (fd_precision f) (fd_rounding f)
   | Inl e \<Rightarrow> Null)"

definition compute_stored :: "api_env \<Rightarrow> store \<Rightarrow> field_definition list \<Rightarrow> string \<Rightarrow> string \<Rightarrow> field_definition
    \<Rightarrow> jsobj \<times> jsobj \<Rightarrow> (jsobj \<times> jsobj) res" where
  "compute_stored env db sf table i f st =
     bindR (attachLookupScope env db (obj_spread (fst st) (snd st)) (formula_text f) sf table i) (\<lambda>scope.
       Inr (scope, amap_set (fd_name f) (stored_value (en_eval env) f scope) (snd st)))"

definition computeStoredFormulas :: "api_env \<Rightarrow> store \<Rightarrow> field_definition list \<Rightarrow> jsobj \<Rightarrow> string \<Rightarrow> string \<Rightarrow> jsobj res" where
  "computeStoredFormulas env db sf rowScope table i =
     bindR (foldR (compute_stored env db sf table i) (topoSortStoredFormulas (stored_formulas sf)) (obj_spread [] rowScope, [])) (\<lambda>st.
       Inr (snd st))"

end
