(* ===== verification/Mutation.thy ===== *)
theory Mutation
  imports WriteGuards
begin

text \<open>
  \<open>apps/api/src/lib/services/collection-mutation.service.ts\<close>: create, update, soft delete, restore and hard
  delete of a row, from the checks to the last effect. Every handler is the sequence of the code: what
  it did before an error stays. A plugin hook is what it does to the document; what it writes through
  the database it is given is not part of the model. A row is kept with the columns its INSERT lists.
\<close>

text \<open>
  What the handlers find outside the schema, the database and the caller: the hooks and plugins, the
  stored rules and decision tables, the cipher, the execution context (\<open>we_ctx\<close>) and the query service
  that the facade wires in as \<open>getItem\<close>.
\<close>

record write_env =
  we_api :: api_env
  we_hooks :: "hook list"
  we_depth :: nat
  we_chain :: chain_env
  we_plugins :: chain_state
  we_functions :: "server_function list"
  we_decisions :: "decision_row list"
  we_regex :: "string \<Rightarrow> (string \<Rightarrow> bool) option"
  we_decision_json :: "string \<Rightarrow> decision_definition option"
  we_claims :: bool
  we_cipher :: cipher
  we_ctx :: bool
  we_get_item :: "string \<Rightarrow> string \<Rightarrow> jsobj api"

section \<open>Rules, hooks and plugins\<close>

definition rulesA :: "write_env \<Rightarrow> string \<Rightarrow> string \<Rightarrow> jsobj \<Rightarrow> (string option \<times> jsobj) api" where
  "rulesA we trigger slug doc w = (case executeHooks (we_api we) (we_functions we) trigger slug doc of
     (Inl e, d) \<Rightarrow> (Inl e, w) | (Inr abort, d) \<Rightarrow> (Inr (abort, d), w))"

definition rules_or_fail :: "write_env \<Rightarrow> string \<Rightarrow> string \<Rightarrow> jsobj \<Rightarrow> jsobj api" where
  "rules_or_fail we trigger slug doc = bindA (rulesA we trigger slug doc) (\<lambda>(abort, d).
     case abort of Some msg \<Rightarrow> liftA (validation_error msg) | None \<Rightarrow> retA d)"

text \<open>After the write, an error of the rules is logged; the document keeps what they did to it.\<close>

definition after_rules :: "write_env \<Rightarrow> string \<Rightarrow> string \<Rightarrow> jsobj \<Rightarrow> jsobj" where
  "after_rules we trigger slug doc = snd (executeHooks (we_api we) (we_functions we) trigger slug doc)"

definition abort_message :: "jsobj \<Rightarrow> string" where
  "abort_message a = to_str (obj_get a ''error'')"

text \<open>The caller's document after the hooks: a document a hook returns is a new object.\<close>

fun touched_doc :: "nat \<Rightarrow> hook list \<Rightarrow> jsobj \<Rightarrow> jsobj" where
  "touched_doc depth [] doc = doc"
| "touched_doc depth (h # hs) doc = (case runHook depth h doc of
     (HookNothing, d) \<Rightarrow> touched_doc depth hs d | (_, d) \<Rightarrow> d)"

definition hooksA :: "write_env \<Rightarrow> string \<Rightarrow> string \<Rightarrow> jsobj \<Rightarrow> jsobj api" where
  "hooksA we slug ev doc = bindA (liftA (dispatchTransform (we_hooks we) (we_depth we) slug ev doc None)) (\<lambda>((d, abort), scope).
     case abort of Some a \<Rightarrow> liftA (validation_error (abort_message a)) | None \<Rightarrow> retA d)"

definition caller_doc :: "write_env \<Rightarrow> string \<Rightarrow> string \<Rightarrow> jsobj \<Rightarrow> jsobj" where
  "caller_doc we slug ev doc = touched_doc (we_depth we + 1) (getSorted (we_hooks we) slug ev) doc"

definition object_of :: "jsval \<Rightarrow> jsobj" where
  "object_of v = (case v of Obj m \<Rightarrow> m | _ \<Rightarrow> spread_obj v)"

text \<open>The plugins of one request see one state of the plugin table.\<close>

definition runMarketplaceChain :: "write_env \<Rightarrow> string \<Rightarrow> string \<Rightarrow> jsobj \<Rightarrow> jsobj res" where
  "runMarketplaceChain we slug ev doc =
     (case runForEvent (we_chain we) (en_now (we_api we)) slug ev (Obj doc) (we_plugins we) of
        Inr (d, s) \<Rightarrow> Inr (object_of d)
      | Inl e \<Rightarrow> if err_class e = ''ValidationError'' then Inl e else Inr doc)"

definition decision_delta :: "jsobj \<Rightarrow> jsobj \<Rightarrow> jsobj" where
  "decision_delta existing doc = fold (\<lambda>(k, v) delta.
     if starts_with k ''_'' \<or> json_stringify (obj_get existing k) = json_stringify v then delta else amap_set k v delta)
     (own_entries doc) []"

definition runDecisionTables :: "write_env \<Rightarrow> string \<Rightarrow> jsobj \<Rightarrow> string option \<Rightarrow> jsobj option \<Rightarrow> jsobj api" where
  "runDecisionTables we slug doc docId existing =
     catchA (bindA (evaluateFor (we_regex we) (we_decision_json we) (en_eval (we_api we)) (we_decisions we) slug
               (case existing of None \<Rightarrow> doc | Some e \<Rightarrow> obj_spread (obj_spread [] e) doc) docId) (\<lambda>(applied, d).
             retA (case existing of None \<Rightarrow> d | Some e \<Rightarrow> decision_delta e d)))
       (\<lambda>e. if err_class e = ''ValidationError'' then failA e else retA doc)"

definition encryptColumns :: "write_env \<Rightarrow> jsobj \<Rightarrow> field_definition list \<Rightarrow> jsobj" where
  "encryptColumns we columns sf =
     (let encs = filter fd_encrypted sf in
      if encs = [] then columns
      else (case encryptFields (we_cipher we) columns encs of Inr c \<Rightarrow> c | Inl e \<Rightarrow> columns))"

definition redactToVisibleFields :: "api_env \<Rightarrow> jsobj \<Rightarrow> string \<Rightarrow> jsobj api" where
  "redactToVisibleFields env item slug = (case en_auth env of
     None \<Rightarrow> retA item
   | Some a \<Rightarrow> if au_is_admin a then retA item else
       cachedA (\<lambda>db c. applyFieldFilterToItem (en_parse env) (en_now env) db (Some a) slug item c))"

section \<open>Media references\<close>

definition media_char :: "char \<Rightarrow> bool" where
  "media_char c \<longleftrightarrow> is_word c \<or> c = CHR ''.'' \<or> c = CHR ''-''"

text \<open>The matches of \<open>/api/media/([\w.-]+)\<close> in a text.\<close>

function media_scan :: "string \<Rightarrow> string list" where
  "media_scan [] = []"
| "media_scan (c # s) =
     (let r = drop 11 (c # s); key = takeWhile media_char r in
      if starts_with (c # s) ''/api/media/'' \<and> key \<noteq> [] then key # media_scan (dropWhile media_char r) else media_scan s)"
  by pat_completeness auto
termination
proof (relation "measure length")
  fix c s x xa assume "(x :: string) = drop 11 (c # s)"
  then have "length (dropWhile media_char x) \<le> length (drop 11 (c # s))" by (simp only: length_dropWhile_le)
  then show "(dropWhile media_char x, c # s) \<in> measure length" by simp
qed auto

fun media_keys :: "jsval \<Rightarrow> string list" where
  "media_keys (Str s) = media_scan s"
| "media_keys (Arr xs) = concat (map media_keys xs)"
| "media_keys (Obj m) = concat (map (\<lambda>kv. media_keys (snd kv)) m)"
| "media_keys v = []"

definition extractMediaKeys :: "jsobj \<Rightarrow> string list" where
  "extractMediaKeys row = uniq (media_keys (Obj row))"

definition schemaHasMediaFields :: "field_definition list \<Rightarrow> bool" where
  "schemaHasMediaFields fs \<longleftrightarrow> list_ex (\<lambda>f. fd_type f = ''image'' \<or> fd_type f = ''file'') fs"

section \<open>Parents that aggregate over the row\<close>

definition row_by_id :: "string \<Rightarrow> string \<Rightarrow> jsobj option api" where
  "row_by_id table i w = (bindR (select_rows table (col_in ''id'' [i]) (w_store w)) (\<lambda>rows.
     Inr (case rows of [] \<Rightarrow> None | r # _ \<Rightarrow> Some r)), w)"

definition linked_refs :: "string \<Rightarrow> field_definition list \<Rightarrow> field_definition list" where
  "linked_refs slug parentFields =
     (let refs = fold (\<lambda>f m. fold (\<lambda>(n, d). amap_set n d) (extractLookupRefs (formula_text f) parentFields) m)
                   (stored_formulas parentFields) []
      in filter (\<lambda>d. fd_related_collection d = Some slug) (map snd refs))"

definition column_of_child :: "jsobj option \<Rightarrow> string \<Rightarrow> string \<Rightarrow> string \<Rightarrow> string list api" where
  "column_of_child childRow table childId col = (case Option.bind childRow (\<lambda>r. str_id (obj_get r col)) of
     Some p \<Rightarrow> retA [p]
   | None \<Rightarrow> bindA (row_by_id table childId) (\<lambda>row. retA (case Option.bind row (\<lambda>r. str_id (obj_get r col)) of Some p \<Rightarrow> [p] | None \<Rightarrow> [])))"

definition parent_ids_of :: "entity_schema \<Rightarrow> string \<Rightarrow> string \<Rightarrow> jsobj option \<Rightarrow> field_definition \<Rightarrow> string list \<Rightarrow> string list api" where
  "parent_ids_of parent childId childTable childRow d ids =
     (if fd_type d = ''o2m'' \<and> nonempty (fd_foreign_key d) \<noteq> None then
        bindA (column_of_child childRow childTable childId (the (fd_foreign_key d))) (\<lambda>ps. retA (fold oset_add ps ids))
      else if fd_type d = ''m2m'' then
        bindA (\<lambda>w. (select_rows (''_jt_'' @ es_table parent @ ''_'' @ childTable) (col_in ''target_id'' [childId]) (w_store w), w)) (\<lambda>js.
          retA (fold oset_add (filter (\<lambda>s. s \<noteq> []) (map (\<lambda>j. text_column j ''source_id'') js)) ids))
      else if fd_type d = ''table'' then
        bindA (column_of_child childRow childTable childId ''parent_id'') (\<lambda>ps. retA (fold oset_add ps ids))
      else if fd_type d = ''m2o'' then
        bindA (\<lambda>w. (select_rows (es_table parent) (col_in (fd_name d) [childId]) (w_store w), w)) (\<lambda>rows.
          retA (fold oset_add (map row_id rows) ids))
      else retA ids)"

definition recalc_parent_row :: "api_env \<Rightarrow> entity_schema \<Rightarrow> field_definition list \<Rightarrow> string \<Rightarrow> unit api" where
  "recalc_parent_row env parent fs pid = bindA (row_by_id (es_table parent) pid) (\<lambda>row. case row of
     None \<Rightarrow> retA ()
   | Some r \<Rightarrow> bindA (\<lambda>w. (computeStoredFormulas env (w_store w) fs r (es_table parent) pid, w)) (\<lambda>computed.
       whenA (computed \<noteq> []) (bindA (batchA env [UpdateIn (es_table parent) ''id'' [pid] computed]) (\<lambda>_.
         dropReads (es_slug parent) (Some pid)))))"

definition recalc_parent :: "api_env \<Rightarrow> string \<Rightarrow> string \<Rightarrow> string \<Rightarrow> jsobj option \<Rightarrow> entity_schema \<Rightarrow> unit api" where
  "recalc_parent env slug childId childTable childRow parent = (case en_collection env (es_slug parent) of
     Inl e \<Rightarrow> retA ()
   | Inr info \<Rightarrow> bindA (foldA (parent_ids_of parent childId childTable childRow) (linked_refs slug (co_fields info)) []) (\<lambda>ids.
       eachA (recalc_parent_row env parent (co_fields info)) ids))"

definition recalcAffectedParents :: "api_env \<Rightarrow> string \<Rightarrow> string \<Rightarrow> string \<Rightarrow> jsobj option \<Rightarrow> unit api" where
  "recalcAffectedParents env slug childId childTable childRow =
     eachA (recalc_parent env slug childId childTable childRow) (en_collections env)"

section \<open>Steps the handlers share\<close>

text \<open>The caller's payload: actor fields bound, frozen fields stripped, the rest checked; then the inverse formulas.\<close>

definition accepted_payload :: "api_env \<Rightarrow> string \<Rightarrow> collection_info \<Rightarrow> bool \<Rightarrow> jsobj \<Rightarrow> jsobj \<Rightarrow> jsobj api" where
  "accepted_payload env slug info update existing data =
     bindA (liftA (bindActorFields (en_auth env) slug info update data)) (\<lambda>bound.
     bindA (assertWritableFields env slug info (stripFrozenFields info bound)) (\<lambda>_.
     retA (applyInverseFormulas env (co_fields info) existing (stripFrozenFields info bound))))"

text \<open>The row the handler is about, once the caller may write it.\<close>

definition open_row :: "api_env \<Rightarrow> string \<Rightarrow> collection_info \<Rightarrow> string \<Rightarrow> jsobj api" where
  "open_row env slug info i = bindA (row_by_id (co_table info) i) (\<lambda>row. case row of
     None \<Rightarrow> liftA (not_found ''Item'' i) | Some r \<Rightarrow> retA r)"

definition may_write_row :: "api_env \<Rightarrow> string \<Rightarrow> collection_info \<Rightarrow> string \<Rightarrow> jsobj \<Rightarrow> unit api" where
  "may_write_row env slug info i row = bindA (liftA (assertNotFrozen slug info row)) (\<lambda>_.
     checkRowFilterAccess env slug (co_table info) i)"

definition valid_id :: "string \<Rightarrow> unit api" where
  "valid_id i = bindA (liftA (assertValid (validators_uuid (Str i) ''id''))) (\<lambda>_. retA ())"

definition auditA :: "collection_info \<Rightarrow> string \<Rightarrow> string \<Rightarrow> string \<Rightarrow> jsobj \<Rightarrow> unit api" where
  "auditA info slug i act doc = whenA (co_audit info) (logA (Audited slug i act doc))"

definition webhookA :: "write_env \<Rightarrow> string \<Rightarrow> string \<Rightarrow> jsobj \<Rightarrow> unit api" where
  "webhookA we slug ev doc = whenA (we_ctx we) (logA (WebhookFired slug ev doc))"

definition webhooksA :: "write_env \<Rightarrow> string \<Rightarrow> string list \<Rightarrow> jsobj \<Rightarrow> unit api" where
  "webhooksA we slug evs item = whenA (we_ctx we) (bindA (redactToVisibleFields (we_api we) item slug) (\<lambda>payload.
     eachA (\<lambda>ev. logA (WebhookFired slug ev payload)) evs))"

definition startedA :: "string \<Rightarrow> string list \<Rightarrow> jsobj \<Rightarrow> unit api" where
  "startedA slug evs doc = eachA (\<lambda>ev. logA (HookStarted slug ev doc)) evs"

definition chainsA :: "string \<Rightarrow> string list \<Rightarrow> jsobj \<Rightarrow> unit api" where
  "chainsA slug evs doc = eachA (\<lambda>ev. logA (ChainStarted slug ev doc)) evs"

definition mediaA :: "collection_info \<Rightarrow> string \<Rightarrow> string \<Rightarrow> jsobj \<Rightarrow> unit api" where
  "mediaA info slug i item = whenA (schemaHasMediaFields (co_fields info) \<or> extractMediaKeys item \<noteq> []) (logA (MediaSynced slug i item))"

definition user_of :: "api_env \<Rightarrow> string option" where
  "user_of env = (case en_auth env of Some a \<Rightarrow> if au_user_id a = [] then None else Some (au_user_id a) | None \<Rightarrow> None)"

text \<open>\<open>computeStoredFormulas\<close> against the database as it is now.\<close>

definition computedA :: "api_env \<Rightarrow> collection_info \<Rightarrow> jsobj \<Rightarrow> string \<Rightarrow> jsobj api" where
  "computedA env info scope i w = (computeStoredFormulas env (w_store w) (co_fields info) scope (co_table info) i, w)"

text \<open>The child rows of the payload, and the stored formulas over them.\<close>

definition childrenA :: "api_env \<Rightarrow> collection_info \<Rightarrow> bool \<Rightarrow> string \<Rightarrow> jsobj \<Rightarrow> (string, jsval list) amap \<Rightarrow> jsobj \<Rightarrow> jsobj api" where
  "childrenA env info replace i scope childData item =
     (if childData = [] then retA item
      else bindA ((if replace then replaceChildren else createChildren) env i childData (getChildMap env (co_fields info))) (\<lambda>_.
        bindA (computedA env info scope i) (\<lambda>computed.
        bindA (whenA (computed \<noteq> []) (batchA env [UpdateIn (co_table info) ''id'' [i] computed])) (\<lambda>_.
        retA (obj_spread item computed)))))"

section \<open>createItem\<close>

datatype client_id = NoId | FreshId string | Replayed string

text \<open>A text that is a UUID between blanks passes the validator and is used with its blanks.\<close>

definition clientIdA :: "collection_info \<Rightarrow> jsval \<Rightarrow> client_id api" where
  "clientIdA info bodyId =
     (if is_nullish bodyId then retA NoId
      else case bodyId of
        Str i \<Rightarrow> bindA (valid_id i) (\<lambda>_. bindA (row_by_id (co_table info) i) (\<lambda>row. case row of
            None \<Rightarrow> retA (FreshId i)
          | Some r \<Rightarrow> if truthy (obj_get r ''deleted_at'')
              then liftA (validation_error (''Item with id '' @ quoted i @ '' exists in trash - restore it or use a new id''))
              else retA (Replayed i)))
      | _ \<Rightarrow> liftA (validation_error ''id must be a string when provided''))"

text \<open>Everything that may still refuse or change the payload before the row is built.\<close>

definition vetted_create :: "write_env \<Rightarrow> string \<Rightarrow> collection_info \<Rightarrow> string option \<Rightarrow> jsobj \<Rightarrow> jsobj api" where
  "vetted_create we slug info clientId data =
     bindA (liftA (checkRequired (co_fields info) data)) (\<lambda>_.
     bindA (validateFieldConstraints (we_api we) (co_fields info) data (co_table info) None) (\<lambda>_.
     bindA (liftA (m2a_validate (m2a_fields (co_fields info)) data)) (\<lambda>_.
     bindA (rules_or_fail we ''validate'' slug data) (\<lambda>data.
     bindA (hooksA we slug ''validate'' data) (\<lambda>_.
     bindA (rules_or_fail we ''before_insert'' slug (caller_doc we slug ''validate'' data)) (\<lambda>data.
     bindA (hooksA we slug ''before_insert'' data) (\<lambda>data.
     bindA (liftA (runMarketplaceChain we slug ''before_insert'' data)) (\<lambda>data.
     runDecisionTables we slug data clientId None))))))))"

definition new_row :: "api_env \<Rightarrow> collection_info \<Rightarrow> string \<Rightarrow> jsobj \<Rightarrow> jsobj \<Rightarrow> string option \<Rightarrow> jsobj" where
  "new_row env info i columns meta number =
     (let row = obj_spread (obj_spread [(''id'', Str i)] columns)
            [(''_meta'', json_stringify (Obj meta)), (''created_at'', Str (en_stamp env)), (''updated_at'', Str (en_stamp env))];
          row = (if system_option (co_system info) ''doc_status'' then amap_set ''doc_status'' (Str ''draft'') row else row);
          row = (case number of Some n \<Rightarrow> if n = [] then row else amap_set ''display_number'' (Str n) row | None \<Rightarrow> row)
      in case user_of env of
           None \<Rightarrow> row
         | Some u \<Rightarrow> fold (\<lambda>c r. if system_option (co_system info) c then amap_set c (Str u) r else r) [''_owner'', ''created_by''] row)"

definition missing_column :: "js_error \<Rightarrow> bool" where
  "missing_column e \<longleftrightarrow> str_includes (to_lower (err_msg e)) ''no such column''"

text \<open>One batch: the row and its junction rows. A table without the owner columns gets the row without them.\<close>

definition insertA :: "api_env \<Rightarrow> string \<Rightarrow> jsobj \<Rightarrow> sql_write list \<Rightarrow> jsobj api" where
  "insertA env table row m2m =
     catchA (bindA (batchA env (InsertRow table row # m2m)) (\<lambda>_. retA row)) (\<lambda>e.
       if (truthy (obj_get row ''_owner'') \<or> truthy (obj_get row ''created_by'')) \<and> missing_column e
       then (let row' = delete_keys [''_owner'', ''created_by''] row
             in bindA (batchA env (InsertRow table row' # m2m)) (\<lambda>_. retA row'))
       else failA e)"

definition displayNumberA :: "write_env \<Rightarrow> collection_info \<Rightarrow> string option api" where
  "displayNumberA we info = (case nonempty (co_naming_series info) of
     None \<Rightarrow> retA None
   | Some series \<Rightarrow> bindA (getNextNumber (we_claims we) (co_table info) series) (\<lambda>n. retA (Some n)))"

definition singletonA :: "string \<Rightarrow> collection_info \<Rightarrow> unit api" where
  "singletonA slug info = whenA (co_singleton info)
     (bindA (\<lambda>w. (select_rows (co_table info) live (w_store w), w)) (\<lambda>rows.
       liftA (if rows = [] then Inr ()
         else validation_error (quoted slug @ '' is a singleton collection. Only one record is allowed.''))))"

text \<open>The row, built and inserted with its junction rows.\<close>

definition insert_rowA :: "write_env \<Rightarrow> string \<Rightarrow> collection_info \<Rightarrow> string \<Rightarrow> jsobj \<Rightarrow> jsobj \<Rightarrow> jsobj api" where
  "insert_rowA we slug info i data clean = (let env = we_api we; sf = co_fields info in
     bindA (liftA (splitRowData (en_uuid env) clean sf)) (\<lambda>(columns, meta).
     bindA (computedA env info data []) (\<lambda>computed.
     bindA (displayNumberA we info) (\<lambda>number.
     bindA (singletonA slug info) (\<lambda>_.
     bindA (liftA (buildM2MStatements env (co_table info) data sf i False)) (\<lambda>m2m.
     insertA env (co_table info) (new_row env info i (encryptColumns we (obj_spread columns computed) sf) meta number) m2m))))))"

definition created :: "write_env \<Rightarrow> string \<Rightarrow> collection_info \<Rightarrow> string \<Rightarrow> jsobj \<Rightarrow> jsobj api" where
  "created we slug info i item = (let env = we_api we; item' = after_rules we ''after_insert'' slug item in
     bindA (startedA slug [''after_insert''] item) (\<lambda>_.
     bindA (chainsA slug [''after_insert''] item) (\<lambda>_.
     bindA (auditA info slug i ''create'' item') (\<lambda>_.
     bindA (webhooksA we slug [''create''] item') (\<lambda>_.
     bindA (recalcAffectedParents env slug i (co_table info) None) (\<lambda>_.
     bindA (dropReads slug (Some i)) (\<lambda>_.
     bindA (mediaA info slug i item') (\<lambda>_.
     redactToVisibleFields env item' slug))))))))"

definition insert_item :: "write_env \<Rightarrow> string \<Rightarrow> collection_info \<Rightarrow> string \<Rightarrow> jsobj \<Rightarrow> jsobj api" where
  "insert_item we slug info i data =
     (let (clean, childData) = extractChildData data (co_fields info) in
      bindA (insert_rowA we slug info i data clean) (\<lambda>row.
      bindA (childrenA (we_api we) info False i data childData (mergeRowData (en_parse (we_api we)) row)) (\<lambda>item.
      created we slug info i item)))"

definition createItem :: "write_env \<Rightarrow> string \<Rightarrow> jsval \<Rightarrow> jsobj api" where
  "createItem we slug body = (let env = we_api we in
     bindA (liftA (en_collection env slug)) (\<lambda>info.
     bindA (liftA (assertGenericWrite slug info Creating)) (\<lambda>_.
     case body of
       Obj m \<Rightarrow>
         bindA (accepted_payload env slug info False [] (amap_del ''id'' m)) (\<lambda>data.
         bindA (clientIdA info (obj_get m ''id'')) (\<lambda>cid. case cid of
           Replayed i \<Rightarrow> we_get_item we slug i
         | FreshId i \<Rightarrow> bindA (vetted_create we slug info (Some i) data) (insert_item we slug info i)
         | NoId \<Rightarrow> bindA (vetted_create we slug info None data) (insert_item we slug info (en_uuid env ''id''))))
     | _ \<Rightarrow> liftA (validation_error ''Request body must be a JSON object''))))"

section \<open>updateItem\<close>

definition stale :: "jsobj \<Rightarrow> string \<Rightarrow> bool" where
  "stale row expected \<longleftrightarrow> expected \<noteq> [] \<and> truthy (obj_get row ''updated_at'') \<and> to_str (obj_get row ''updated_at'') \<noteq> expected"

definition check_if_match :: "jsobj \<Rightarrow> string \<Rightarrow> unit res" where
  "check_if_match row expected = (if stale row expected
     then conflict (''Record was modified by someone else at '' @ to_str (obj_get row ''updated_at'') @
            '' - reload it and re-apply your changes'') else Inr ())"

definition with_existing :: "jsobj \<Rightarrow> jsobj \<Rightarrow> jsobj" where
  "with_existing row data = amap_set ''_existing'' (Obj row) (obj_spread [] data)"

text \<open>The hooks, plugins and decision tables of an update, up to the payload that is stored.\<close>

definition transformed_update :: "write_env \<Rightarrow> string \<Rightarrow> string \<Rightarrow> jsobj \<Rightarrow> jsobj \<Rightarrow> jsobj api" where
  "transformed_update we slug i row data =
     bindA (hooksA we slug ''before_update'' (with_existing row data)) (\<lambda>data.
     bindA (liftA (runMarketplaceChain we slug ''before_update'' (amap_del ''_existing'' data))) (\<lambda>data.
     runDecisionTables we slug data (Some i) (Some row)))"

text \<open>
  The rules of an update run when the columns are already built: they change the payload that the
  status machine and the junction rows look at, not the columns.
\<close>

definition vetted_update :: "write_env \<Rightarrow> string \<Rightarrow> collection_info \<Rightarrow> jsobj \<Rightarrow> jsobj \<Rightarrow> jsobj api" where
  "vetted_update we slug info row data =
     bindA (rules_or_fail we ''validate'' slug data) (\<lambda>data.
     bindA (hooksA we slug ''validate'' (with_existing row data)) (\<lambda>_.
     bindA (rules_or_fail we ''before_update'' slug data) (\<lambda>data.
     bindA (liftA (check_status_machine info row data)) (\<lambda>_. retA data))))"

definition merged_meta :: "(string \<Rightarrow> jsval res) \<Rightarrow> jsobj \<Rightarrow> jsobj \<Rightarrow> jsobj" where
  "merged_meta parse row meta = (case obj_get row ''_meta'' of
     Str (c # s) \<Rightarrow> (case parse (c # s) of Inr v \<Rightarrow> obj_spread (object_of v) meta | Inl e \<Rightarrow> obj_spread [] meta)
   | _ \<Rightarrow> obj_spread [] meta)"

definition update_data :: "write_env \<Rightarrow> collection_info \<Rightarrow> jsobj \<Rightarrow> jsobj \<Rightarrow> jsobj \<Rightarrow> jsval \<Rightarrow> jsobj" where
  "update_data we info row columns meta newStatus =
     (let env = we_api we;
          u = obj_spread (obj_spread [] (encryptColumns we columns (co_fields info)))
            [(''_meta'', json_stringify (Obj (merged_meta (en_parse env) row meta))), (''updated_at'', Str (en_stamp env))];
          u = (if truthy newStatus then amap_set ''doc_status'' newStatus u else u)
      in case user_of env of
           Some a \<Rightarrow> if system_option (co_system info) ''updated_by'' then amap_set ''updated_by'' (Str a) u else u
         | None \<Rightarrow> u)"

text \<open>What an update writes: the columns of its UPDATE, the junction rows, the children and the payload.\<close>

record update_plan =
  up_data :: jsobj
  up_junctions :: "sql_write list"
  up_children :: "(string, jsval list) amap"
  up_payload :: jsobj

definition plan_update :: "write_env \<Rightarrow> string \<Rightarrow> collection_info \<Rightarrow> string \<Rightarrow> jsobj \<Rightarrow> jsval \<Rightarrow> jsobj \<Rightarrow> update_plan api" where
  "plan_update we slug info i row newStatus data = (let env = we_api we; sf = co_fields info in
     bindA (transformed_update we slug i row data) (\<lambda>data.
     bindA (validateFieldConstraints env sf data (co_table info) (Some i)) (\<lambda>_.
     bindA (liftA (splitRowData (en_uuid env) (fst (extractChildData data sf)) sf)) (\<lambda>(columns, meta).
     bindA (computedA env info (obj_spread (obj_spread [] row) data) i) (\<lambda>computed.
     bindA (vetted_update we slug info row data) (\<lambda>data'.
     bindA (liftA (buildM2MStatements env (co_table info) data' sf i True)) (\<lambda>junctions.
     retA \<lparr>up_data = update_data we info row (obj_spread columns computed) meta newStatus, up_junctions = junctions,
           up_children = snd (extractChildData data sf), up_payload = data'\<rparr>)))))))"

definition updated :: "write_env \<Rightarrow> string \<Rightarrow> collection_info \<Rightarrow> string \<Rightarrow> jsobj \<Rightarrow> jsval \<Rightarrow> jsobj \<Rightarrow> jsobj api" where
  "updated we slug info i row newStatus item =
     (let env = we_api we; hookDoc = amap_set ''_existing'' (Obj row) (obj_spread [] item);
          item' = after_rules we ''after_update'' slug (after_rules we ''on_change'' slug item);
          act = (if newStatus = Str ''submitted'' then ''submit'' else if newStatus = Str ''approved'' then ''approve'' else ''update'') in
     bindA (startedA slug [''on_change'', ''after_update''] hookDoc) (\<lambda>_.
     bindA (chainsA slug [''on_change'', ''after_update''] item) (\<lambda>_.
     bindA (auditA info slug i act item') (\<lambda>_.
     bindA (webhooksA we slug ((if act = ''update'' then [] else [act]) @ [''update'']) item') (\<lambda>_.
     bindA (dropReads slug (Some i)) (\<lambda>_.
     bindA (recalcAffectedParents env slug i (co_table info) None) (\<lambda>_.
     bindA (mediaA info slug i item') (\<lambda>_.
     redactToVisibleFields env item' slug))))))))"

text \<open>The UPDATE and the junction rows in one batch; no row changed means that the row is gone.\<close>

definition apply_update :: "write_env \<Rightarrow> string \<Rightarrow> collection_info \<Rightarrow> string \<Rightarrow> jsobj \<Rightarrow> jsval \<Rightarrow> update_plan \<Rightarrow> jsobj api" where
  "apply_update we slug info i row newStatus p =
     (let env = we_api we; stmt = UpdateIn (co_table info) ''id'' [i] (up_data p) in
      bindA (readA (\<lambda>w. write_changes stmt (w_store w))) (\<lambda>n.
      bindA (batchA env (stmt # up_junctions p)) (\<lambda>_.
      if n = 0 then liftA (not_found ''Item'' i)
      else bindA (childrenA env info True i (obj_spread (obj_spread [] row) (up_payload p)) (up_children p)
               (mergeRowData (en_parse env) (obj_spread (obj_spread [] row) (up_data p)))) (\<lambda>item.
           updated we slug info i row newStatus item))))"

definition updateItem :: "write_env \<Rightarrow> string \<Rightarrow> string \<Rightarrow> jsval \<Rightarrow> string \<Rightarrow> jsobj api" where
  "updateItem we slug i body expected = (let env = we_api we in
     bindA (liftA (en_collection env slug)) (\<lambda>info.
     bindA (liftA (assertGenericWrite slug info Updating)) (\<lambda>_.
     bindA (valid_id i) (\<lambda>_.
     case body of
       Obj m \<Rightarrow>
         bindA (open_row env slug info i) (\<lambda>row.
         bindA (may_write_row env slug info i row) (\<lambda>_.
         bindA (liftA (check_if_match row expected)) (\<lambda>_.
         bindA (accepted_payload env slug info True row (amap_del ''doc_status'' m)) (\<lambda>data.
         bindA (check_doc_status env slug info row (obj_get m ''doc_status'')) (\<lambda>_.
         if data = [] \<and> \<not> truthy (obj_get m ''doc_status'') then liftA (validation_error ''No valid fields to update'')
         else bindA (plan_update we slug info i row (obj_get m ''doc_status'') data)
                (apply_update we slug info i row (obj_get m ''doc_status'')))))))
     | _ \<Rightarrow> liftA (validation_error ''Request body must be a JSON object'')))))"

section \<open>Deleting and restoring\<close>

definition afterA :: "string \<Rightarrow> string \<Rightarrow> jsobj \<Rightarrow> unit api" where
  "afterA slug ev row = logA (HookStarted slug ev row)"

text \<open>A failing cascade is logged.\<close>

definition cascadeA :: "api_env \<Rightarrow> string \<Rightarrow> string \<Rightarrow> delete_mode \<Rightarrow> unit api" where
  "cascadeA env slug i mode = catchA (bindA (cascadeDelete env slug i mode) (\<lambda>_. retA ())) (\<lambda>e. retA ())"

text \<open>The rules, hooks and plugins that may refuse a soft delete.\<close>

definition before_delete :: "write_env \<Rightarrow> string \<Rightarrow> jsobj \<Rightarrow> jsobj api" where
  "before_delete we slug row =
     bindA (rules_or_fail we ''before_delete'' slug row) (\<lambda>row.
     bindA (hooksA we slug ''before_delete'' row) (\<lambda>_.
     bindA (liftA (runMarketplaceChain we slug ''before_delete'' (caller_doc we slug ''before_delete'' row))) (\<lambda>_.
     retA (caller_doc we slug ''before_delete'' row))))"

text \<open>A legacy table without \<open>deleted_by\<close> is stamped without it.\<close>

definition trash_rowA :: "api_env \<Rightarrow> collection_info \<Rightarrow> string \<Rightarrow> unit api" where
  "trash_rowA env info i =
     (case user_of env of
        Some u \<Rightarrow> if system_option (co_system info) ''deleted_by''
          then catchA (batchA env [UpdateIn (co_table info) ''id'' [i] (trash_stamp env @ [(''deleted_by'', Str u)])])
                 (\<lambda>e. batchA env [UpdateIn (co_table info) ''id'' [i] (trash_stamp env)])
          else batchA env [UpdateIn (co_table info) ''id'' [i] (trash_stamp env)]
      | None \<Rightarrow> batchA env [UpdateIn (co_table info) ''id'' [i] (trash_stamp env)])"

definition softDeleteItem :: "write_env \<Rightarrow> string \<Rightarrow> string \<Rightarrow> jsobj api" where
  "softDeleteItem we slug i = (let env = we_api we in
     bindA (liftA (en_collection env slug)) (\<lambda>info.
     bindA (liftA (assertGenericWrite slug info Deleting)) (\<lambda>_.
     bindA (valid_id i) (\<lambda>_.
     bindA (open_row env slug info i) (\<lambda>row.
     bindA (may_write_row env slug info i row) (\<lambda>_.
     bindA (assertNoRestrictiveReferences env slug i) (\<lambda>_.
     bindA (before_delete we slug row) (\<lambda>row.
     bindA (trash_rowA env info i) (\<lambda>_.
     bindA (auditA info slug i ''delete'' row) (\<lambda>_.
     bindA (webhookA we slug ''delete'' [(''id'', Str i)]) (\<lambda>_.
     bindA (cascadeA env slug i Soft) (\<lambda>_.
     bindA (recalcAffectedParents env slug i (co_table info) None) (\<lambda>_.
     bindA (afterA slug ''after_delete'' row) (\<lambda>_.
     bindA (dropReads slug (Some i)) (\<lambda>_.
     retA [(''id'', Str i), (''deleted_at'', Str (en_stamp env)),
           (''deleted_by'', case en_auth env of Some a \<Rightarrow> Str (au_user_id a) | None \<Rightarrow> Null)])))))))))))))))"

definition restoreItem :: "write_env \<Rightarrow> string \<Rightarrow> string \<Rightarrow> jsobj api" where
  "restoreItem we slug i = (let env = we_api we in
     bindA (liftA (en_collection env slug)) (\<lambda>info.
     bindA (liftA (assertGenericWrite slug info Updating)) (\<lambda>_.
     bindA (valid_id i) (\<lambda>_.
     bindA (open_row env slug info i) (\<lambda>row.
     bindA (liftA (if truthy (obj_get row ''deleted_at'') then Inr () else validation_error ''Item is not trashed'')) (\<lambda>_.
     bindA (may_write_row env slug info i row) (\<lambda>_.
     bindA (batchA env [UpdateIn (co_table info) ''id'' [i] [(''deleted_at'', Null), (''updated_at'', Str (en_stamp env))]]) (\<lambda>_.
     bindA (auditA info slug i ''restore'' row) (\<lambda>_.
     bindA (webhookA we slug ''update'' [(''id'', Str i), (''restored'', Bool True)]) (\<lambda>_.
     bindA (recalcAffectedParents env slug i (co_table info) None) (\<lambda>_.
     bindA (afterA slug ''after_restore'' row) (\<lambda>_.
     bindA (dropReads slug (Some i)) (\<lambda>_.
     retA [(''id'', Str i), (''restored'', Bool True)])))))))))))))"

definition hardDeleteItem :: "write_env \<Rightarrow> string \<Rightarrow> string \<Rightarrow> jsobj api" where
  "hardDeleteItem we slug i = (let env = we_api we in
     bindA (liftA (en_collection env slug)) (\<lambda>info.
     bindA (liftA (assertGenericWrite slug info Deleting)) (\<lambda>_.
     bindA (valid_id i) (\<lambda>_.
     bindA (open_row env slug info i) (\<lambda>row.
     bindA (may_write_row env slug info i row) (\<lambda>_.
     bindA (batchA env [DeleteIn (co_table info) ''id'' [i]]) (\<lambda>_.
     bindA (deleteM2MJunctions env slug [i]) (\<lambda>_.
     bindA (cascadeA env slug i Hard) (\<lambda>_.
     bindA (auditA info slug i ''delete'' row) (\<lambda>_.
     bindA (webhookA we slug ''delete'' [(''id'', Str i)]) (\<lambda>_.
     bindA (recalcAffectedParents env slug i (co_table info) (Some row)) (\<lambda>_.
     bindA (afterA slug ''after_delete'' row) (\<lambda>_.
     bindA (dropReads slug (Some i)) (\<lambda>_.
     bindA (whenA (extractMediaKeys row \<noteq> []) (logA (MediaSynced slug i []))) (\<lambda>_.
     retA [(''id'', Str i), (''deleted'', Bool True)])))))))))))))))"

end
