(* ===== verification/MutationClaims.thy ===== *)
theory MutationClaims
  imports Mutation
begin

text \<open>
  The properties of the write guards: rows under a policy, rows that are referenced, what of a payload comes
  from the caller, and creates that are repeated.
\<close>

section \<open>A small installation\<close>

text \<open>Collections, parsed texts and stored rules, without hooks, plugins or decision tables.\<close>

definition demo_writes :: "(string \<times> collection_info) list \<Rightarrow> (string \<times> jsval) list \<Rightarrow> server_function list \<Rightarrow> write_env" where
  "demo_writes cs texts fns = \<lparr>we_api = (demo_env cs)\<lparr>en_parse := (\<lambda>s. case map_of texts s of Some v \<Rightarrow> Inr v | None \<Rightarrow> throw s)\<rparr>,
     we_hooks = [], we_depth = 0, we_chain = \<lparr>ch_native = [], ch_binding = (\<lambda>b. None), ch_parse = (\<lambda>s. throw s)\<rparr>,
     we_plugins = \<lparr>cs_table = [], cs_cache = []\<rparr>, we_functions = fns, we_decisions = [], we_regex = (\<lambda>s. None),
     we_decision_json = (\<lambda>s. None), we_claims = True, we_cipher = \<lparr>cy_encrypt = (\<lambda>p. throw p), cy_decrypt = (\<lambda>n c. throw c)\<rparr>,
     we_ctx = False, we_get_item = (\<lambda>s i. failA (JsError ''Error'' i))\<rparr>"

definition demo_id :: string where
  "demo_id = ''11111111-1111-4111-8111-111111111111''"


section \<open>Guarded rows\<close>

lemma bindA_liftA [simp]: "bindA (liftA (Inr x)) f = f x" "bindA (liftA (Inl e)) f = failA e"
  by (simp_all add: bindA_def liftA_def failA_def fun_eq_iff)

lemma bindA_at:
  "m w = (Inr x, v) \<Longrightarrow> bindA m f w = f x v" "m w = (Inl e, v) \<Longrightarrow> bindA m f w = (Inl e, v)"
  by (simp_all add: bindA_def)

definition generic_blocked :: "collection_info \<Rightarrow> bool" where
  "generic_blocked info \<longleftrightarrow> (case co_writes info of Some p \<Rightarrow> wp_mode p = Some ''service'' \<or> wp_append_only p | None \<Rightarrow> False)"

lemma blocked_by_policy:
  "generic_blocked info \<Longrightarrow> act \<noteq> Creating \<Longrightarrow> \<exists>e. assertGenericWrite slug info act = Inl e"
  by (auto simp: generic_blocked_def assertGenericWrite_def forbidden_def split: option.splits)

definition refused :: "'a api \<Rightarrow> api_world \<Rightarrow> bool" where
  "refused m w \<longleftrightarrow> (\<exists>e. m w = (Inl e, w))"

lemma refused_later: "refused m w \<or> m w = (Inr x, w) \<Longrightarrow> refused (f x) w \<Longrightarrow> refused (bindA m f) w"
  by (auto simp: refused_def bindA_def)

lemma refused_known: "m w = (Inr x, w) \<Longrightarrow> refused (f x) w \<Longrightarrow> refused (bindA m f) w"
  by (simp add: refused_def bindA_def)

lemma refused_now: "refused m w \<Longrightarrow> refused (bindA m f) w"
  by (auto simp: refused_def bindA_def)

lemma refused_failA [simp]: "refused (failA e) w" "refused (liftA (Inl e)) w" "refused (Pair (Inl e)) w"
  by (simp_all add: refused_def)

lemma liftA_cases: "refused (liftA (r :: unit res)) w \<or> liftA r w = (Inr (), w)"
  by (cases r) (auto simp: refused_def)

lemma refused_body:
  "(\<And>m. refused (f m) w) \<Longrightarrow> refused (case body of Obj m \<Rightarrow> f m | _ \<Rightarrow> liftA (validation_error msg)) w"
  by (cases body) (simp_all add: validation_error_def)

lemma valid_id_cases: "refused (valid_id i) w \<or> valid_id i w = (Inr (), w)"
  by (auto simp: valid_id_def bindA_def refused_def split: sum.splits)

text \<open>A handler whose row is frozen ends at the check, before anything has changed.\<close>

lemma open_frozen:
  assumes "row_by_id (co_table info) i w = (Inr (Some row), w)" "frozen_state info row \<noteq> None"
  shows "open_row env slug info i w = (Inr row, w)" "refused (may_write_row env slug info i row) w"
  using assms by (auto simp: open_row_def bindA_at may_write_row_def assertNotFrozen_def forbidden_def refused_def split: option.splits)

text \<open>
  C5. Rows under a write policy are immutable for the generic API. Where the collection is owned by its
  service or is an append-only ledger, or the row is in one of the states that freeze it, then updating,
  trashing, restoring and deleting the row all fail and change nothing, whatever the request, the caller
  (administrators included), the hooks and the rules.
\<close>

theorem guarded_rows_are_immutable:
  assumes info: "en_collection (we_api we) slug = Inr info"
    and guard: "generic_blocked info \<or> (\<exists>row. row_by_id (co_table info) i w = (Inr (Some row), w) \<and> frozen_state info row \<noteq> None)"
  shows "refused (updateItem we slug i body expected) w \<and> refused (softDeleteItem we slug i) w \<and>
    refused (restoreItem we slug i) w \<and> refused (hardDeleteItem we slug i) w"
proof (cases "generic_blocked info")
  case True
  then obtain e e' where "assertGenericWrite slug info Updating = Inl e" "assertGenericWrite slug info Deleting = Inl e'"
    using blocked_by_policy by blast
  then show ?thesis
    by (simp add: updateItem_def softDeleteItem_def restoreItem_def hardDeleteItem_def Let_def info)
next
  case False
  with guard obtain row where row: "row_by_id (co_table info) i w = (Inr (Some row), w)" "frozen_state info row \<noteq> None"
    by blast
  note opened = open_frozen(1) [OF row] and stop = refused_now [where m = "may_write_row (we_api we) slug info i row", OF open_frozen(2) [OF row]]
  note guards = refused_later [OF liftA_cases] refused_later [OF valid_id_cases] refused_known [where m = "open_row (we_api we) slug info i", OF opened]
  have "refused (updateItem we slug i body expected) w"
    unfolding updateItem_def Let_def info bindA_liftA
    by (intro refused_later [OF liftA_cases] refused_later [OF valid_id_cases] refused_body guards(3) stop)
  moreover have "refused (softDeleteItem we slug i) w"
    unfolding softDeleteItem_def Let_def info bindA_liftA by (intro guards stop)
  moreover have "refused (restoreItem we slug i) w"
    unfolding restoreItem_def Let_def info bindA_liftA by (intro guards stop)
  moreover have "refused (hardDeleteItem we slug i) w"
    unfolding hardDeleteItem_def Let_def info bindA_liftA by (intro guards stop)
  ultimately show ?thesis by blast
qed

definition demo_ledger :: collection_info where
  "demo_ledger = (plain_info ''t'' [])\<lparr>co_writes := Some \<lparr>wp_mode = None, wp_append_only = True, wp_frozen_fields = [],
     wp_freeze_when = None, wp_confirmable = False\<rparr>\<rparr>"

theorem guarded_rows_are_immutable_witness:
  "refused (updateItem (demo_writes [(''l'', demo_ledger)] [] []) ''l'' demo_id (Obj [(''a'', Null)]) []) (demo_world [(''t'', [])]) \<and>
   refused (softDeleteItem (demo_writes [(''l'', demo_ledger)] [] []) ''l'' demo_id) (demo_world [(''t'', [])])"
proof -
  have info: "en_collection (we_api (demo_writes [(''l'', demo_ledger)] [] [])) ''l'' = Inr demo_ledger"
    by (simp add: demo_writes_def demo_env_def)
  have "generic_blocked demo_ledger" by (simp add: generic_blocked_def demo_ledger_def)
  then show ?thesis using guarded_rows_are_immutable [OF info] by blast
qed

section \<open>Steps that leave the rows alone\<close>

text \<open>
  What a step may do to the world, as a relation between the world before and after. A relation that is
  reflexive and transitive holds of a handler as soon as it holds of every step of it, whether the
  handler ends with a result or with an error.
\<close>

definition steps_in :: "(api_world \<Rightarrow> api_world \<Rightarrow> bool) \<Rightarrow> 'a api \<Rightarrow> bool" where
  "steps_in K m \<longleftrightarrow> (\<forall>w. K w (snd (m w)))"

lemma steps_inD: "steps_in K m \<Longrightarrow> m w = (r, v) \<Longrightarrow> K w v"
  by (metis steps_in_def snd_conv)

locale world_order =
  fixes K :: "api_world \<Rightarrow> api_world \<Rightarrow> bool"
  assumes refl: "K w w" and trans: "K u v \<Longrightarrow> K v w \<Longrightarrow> K u w"
begin

lemma still: "steps_in K (retA x)" "steps_in K (liftA r)" "steps_in K (failA e)" "steps_in K (readA g)" "steps_in K (\<lambda>w. (h w, w))"
  by (simp_all add: steps_in_def refl)

lemma bind: "steps_in K m \<Longrightarrow> (\<And>x. steps_in K (f x)) \<Longrightarrow> steps_in K (bindA m f)"
  by (auto simp: steps_in_def bindA_def split: prod.splits sum.splits) (metis trans snd_conv)+

lemma catch: "steps_in K m \<Longrightarrow> (\<And>e. steps_in K (h e)) \<Longrightarrow> steps_in K (catchA m h)"
  by (auto simp: steps_in_def catchA_def split: prod.splits sum.splits) (metis trans snd_conv)+

lemma guarded: "steps_in K m \<Longrightarrow> steps_in K (whenA c m)"
  by (simp add: whenA_def still)

lemma fold: "(\<And>x b. x \<in> set xs \<Longrightarrow> steps_in K (f x b)) \<Longrightarrow> steps_in K (foldA f xs b)"
  by (induction xs arbitrary: b) (simp_all add: still bind)

lemma each: "(\<And>x. x \<in> set xs \<Longrightarrow> steps_in K (f x)) \<Longrightarrow> steps_in K (eachA f xs)"
  by (simp add: eachA_def fold)

end

named_theorems quiet_intros \<open>steps that leave the rows alone\<close>

definition same_rows :: "api_world \<Rightarrow> api_world \<Rightarrow> bool" where
  "same_rows w v \<longleftrightarrow> w_store v = w_store w \<and> w_authz v = w_authz w"

interpretation rows_stay: world_order same_rows
  by unfold_locales (simp_all add: same_rows_def)

abbreviation quiet :: "'a api \<Rightarrow> bool" where
  "quiet \<equiv> steps_in same_rows"

lemma quiet_def: "quiet m \<longleftrightarrow> (\<forall>w. w_store (snd (m w)) = w_store w \<and> w_authz (snd (m w)) = w_authz w)"
  by (simp add: steps_in_def same_rows_def)

lemmas quiet_basic [quiet_intros] = rows_stay.still
lemmas quiet_seq [quiet_intros] = rows_stay.bind rows_stay.catch rows_stay.guarded rows_stay.fold rows_stay.each

lemma quietD: "quiet m \<Longrightarrow> m w = (r, v) \<Longrightarrow> w_store v = w_store w \<and> w_authz v = w_authz w"
  using steps_inD same_rows_def by blast

lemma quiet_log [quiet_intros]: "quiet (logA ev)" "quiet (dropReads slug k)"
  by (simp_all add: quiet_def)

lemma quiet_cachedA [quiet_intros]: "quiet (cachedA f)"
  by (simp add: quiet_def cachedA_def split: prod.splits)

lemma quiet_reads [quiet_intros]:
  "quiet (row_by_id t i)" "quiet (computedA env info scope i)" "quiet (rulesA we trigger slug doc)"
  by (auto simp: quiet_def row_by_id_def computedA_def rulesA_def split: prod.splits sum.splits)

lemma quiet_checkRowFilterAccess [quiet_intros]: "quiet (checkRowFilterAccess env slug t i)"
  by (auto simp: quiet_def checkRowFilterAccess_def bindA_def cachedA_def Let_def split: option.splits prod.splits sum.splits if_splits)

lemma quiet_guards [quiet_intros]:
  "quiet (valid_id i)" "quiet (open_row env slug info i)" "quiet (may_write_row env slug info i row)"
  "quiet (assertNoRestrictiveReferences env slug i)" "quiet (assertWritableFields env slug info data)"
  "quiet (accepted_payload env slug info upd row data)" "quiet (check_doc_status env slug info row st)"
  unfolding valid_id_def open_row_def may_write_row_def assertNoRestrictiveReferences_def assertWritableFields_def
    accepted_payload_def check_doc_status_def may_business_def count_references_def Let_def
  by (auto intro!: quiet_intros split: option.splits jsval.splits prod.splits)

lemma quiet_vetting [quiet_intros]:
  "quiet (rules_or_fail we trigger slug doc)" "quiet (hooksA we slug ev doc)" "quiet (validateFieldConstraints env fs data t x)"
  "quiet (before_delete we slug row)" "quiet (redactToVisibleFields env item slug)"
  unfolding rules_or_fail_def hooksA_def validateFieldConstraints_def check_unique_chunk_def before_delete_def redactToVisibleFields_def
  by (auto intro!: quiet_intros split: option.splits prod.splits)

lemma quiet_decisions [quiet_intros]: "quiet (runDecisionTables we slug doc docId existing)"
proof -
  have fired: "quiet (apply_fired ev coll docId t rs st)" for ev coll docId t rs st
    by (induction ev coll docId t rs st rule: apply_fired.induct) (auto simp: Let_def intro!: quiet_intros)
  show ?thesis unfolding runDecisionTables_def evaluateFor_def by (auto intro!: quiet_intros fired split: option.splits)
qed

lemma quiet_plan [quiet_intros]: "quiet (plan_update we slug info i row st data)"
  unfolding plan_update_def transformed_update_def vetted_update_def Let_def
  by (auto intro!: quiet_intros split: prod.splits)

lemma quiet_now: "quiet m \<Longrightarrow> m w = (r, v) \<Longrightarrow> w_store v = w_store w" "quiet m \<Longrightarrow> m w = (r, v) \<Longrightarrow> w_authz v = w_authz w"
  using quietD by blast+

text \<open>A handler that is refused may have read through the permission cache, but no row has changed.\<close>

definition stopped :: "'a api \<Rightarrow> api_world \<Rightarrow> bool" where
  "stopped m w \<longleftrightarrow> (\<exists>e v. m w = (Inl e, v) \<and> w_store v = w_store w)"

lemma stopped_later: "quiet m \<Longrightarrow> (\<And>x v. m w = (Inr x, v) \<Longrightarrow> w_store v = w_store w \<Longrightarrow> stopped (f x) v) \<Longrightarrow> stopped (bindA m f) w"
proof -
  assume m: "quiet m" and f: "\<And>x v. m w = (Inr x, v) \<Longrightarrow> w_store v = w_store w \<Longrightarrow> stopped (f x) v"
  obtain r v where v: "m w = (r, v)" by fastforce
  then have "w_store v = w_store w" using m quiet_now by blast
  then show ?thesis using f v by (cases r) (auto simp: stopped_def bindA_def)
qed

lemma stopped_now: "stopped m w \<Longrightarrow> stopped (bindA m f) w"
  by (auto simp: stopped_def bindA_def)

section \<open>References that forbid a delete\<close>

lemma count_references_step:
  "count_references i ref b w = (r, v) \<Longrightarrow> v = w \<and> (case r of Inl e \<Rightarrow> True | Inr b' \<Rightarrow> b \<noteq> [] \<longrightarrow> b' \<noteq> [])"
  by (auto simp: count_references_def bindA_def split: prod.splits sum.splits if_splits)

lemma counted_reference:
  assumes "count_references i (n, t, f) b w = (Inr b', v)" "r \<in> set (rows_of (w_store w) t)" "map_of r f = Some (Str i)" "live r"
  shows "b' \<noteq> []"
  using assms by (auto simp: count_references_def bindA_def select_rows_def col_in_iff filter_empty_conv split: prod.splits sum.splits if_splits)

lemma count_all_step:
  "foldA (count_references i) refs b w = (r, v) \<Longrightarrow> v = w \<and> (case r of Inl e \<Rightarrow> True | Inr b' \<Rightarrow> b \<noteq> [] \<longrightarrow> b' \<noteq> [])"
proof (induction refs arbitrary: b)
  case (Cons ref refs)
  obtain r1 v1 where 1: "count_references i ref b w = (r1, v1)" by fastforce
  show ?case
  proof (cases r1)
    case (Inl e) then show ?thesis using Cons.prems 1 count_references_step [OF 1] by (simp add: bindA_at)
  next
    case (Inr b1)
    have v1: "v1 = w" and b1: "b \<noteq> [] \<longrightarrow> b1 \<noteq> []" using count_references_step [OF 1] Inr by auto
    have "foldA (count_references i) refs b1 w = (r, v)" using Cons.prems 1 Inr v1 by (simp add: bindA_at)
    from Cons.IH [OF this] b1 show ?thesis by (cases r) auto
  qed
qed auto

lemma references_block:
  assumes "(n, t, f) \<in> set refs" "r \<in> set (rows_of (w_store w) t)" "map_of r f = Some (Str i)" "live r"
  shows "\<exists>q. foldA (count_references i) refs b w = (q, w) \<and> q \<noteq> Inr []"
  using assms(1)
proof (induction refs arbitrary: b)
  case (Cons ref refs)
  obtain r1 v1 where 1: "count_references i ref b w = (r1, v1)" by fastforce
  show ?case
  proof (cases r1)
    case (Inl e) then show ?thesis using 1 count_references_step [OF 1] by (simp add: bindA_at)
  next
    case (Inr b1)
    have v1: "v1 = w" using count_references_step [OF 1] by simp
    have step: "foldA (count_references i) (ref # refs) b w = foldA (count_references i) refs b1 w" using 1 Inr v1 by (simp add: bindA_at)
    show ?thesis
    proof (cases "ref = (n, t, f)")
      case True
      then have "b1 \<noteq> []" using counted_reference [of i n t f b w b1 v1 r] 1 Inr assms by simp
      obtain q v where q: "foldA (count_references i) refs b1 w = (q, v)" by fastforce
      then show ?thesis using step count_all_step [OF q] \<open>b1 \<noteq> []\<close> by (cases q) auto
    next
      case False
      then show ?thesis using Cons step by auto
    qed
  qed
qed simp

lemma assert_references_block:
  assumes "(n, t, f) \<in> set (links_of (buildRestrictMap env) slug)"
    "r \<in> set (rows_of (w_store w) t)" "map_of r f = Some (Str i)" "live r"
  shows "stopped (assertNoRestrictiveReferences env slug i) w"
proof -
  obtain q where q: "foldA (count_references i) (links_of (buildRestrictMap env) slug) [] w = (q, w)" "q \<noteq> Inr []"
    using references_block [OF assms] by blast
  then show ?thesis by (cases q) (auto simp: assertNoRestrictiveReferences_def stopped_def bindA_at conflict_def)
qed

lemma restrict_link:
  "(n, t, f) \<in> set (links_of (buildRestrictMap env) slug) \<longleftrightarrow> (\<exists>c \<in> set (en_collections env). (slug, n, t, f) \<in> set (restrict_fields env c))"
  unfolding buildRestrictMap_def links_of_fold by (force simp: links_of_def)

text \<open>
  C18. A referenced row is not trashed. While some live row holds the id in a many-to-one field that declares
  \<open>cascade_delete: false\<close>, the soft delete of the row it refers to fails, and no row changes: neither the
  row itself nor anything a cascade or a recalculation would reach.
\<close>

theorem referenced_row_is_not_trashed:
  assumes "c \<in> set (en_collections (we_api we))" "(slug, n, t, f) \<in> set (restrict_fields (we_api we) c)"
    "r \<in> set (rows_of (w_store w) t)" "map_of r f = Some (Str i)" "live r"
  shows "\<exists>e v. softDeleteItem we slug i w = (Inl e, v) \<and> w_store v = w_store w"
proof -
  have link: "(n, t, f) \<in> set (links_of (buildRestrictMap (we_api we)) slug)" using assms(1,2) restrict_link by blast
  have stop: "stopped (bindA (assertNoRestrictiveReferences (we_api we) slug i) k) v" if "r \<in> set (rows_of (w_store v) t)"
    for k :: "unit \<Rightarrow> jsobj api" and v
    by (rule stopped_now, rule assert_references_block [OF link that assms(4,5)])
  have "stopped (softDeleteItem we slug i) w"
    unfolding softDeleteItem_def Let_def by (intro stop stopped_later quiet_intros) (simp add: assms(3))
  then show ?thesis by (simp add: stopped_def)
qed

definition demo_child :: collection_info where
  "demo_child = plain_info ''c'' [(plain_field ''p'' ''m2o'')\<lparr>fd_related_collection := Some ''a'', fd_cascade_delete := Some False\<rparr>]"

theorem referenced_row_is_not_trashed_witness:
  "\<exists>e v. softDeleteItem (demo_writes [(''a'', plain_info ''a'' []), (''c'', demo_child)] [] []) ''a'' demo_id
      (demo_world [(''a'', [[(''id'', Str demo_id)]]), (''c'', [[(''id'', Str ''k''), (''p'', Str demo_id)]])]) = (Inl e, v) \<and>
    rows_of (w_store v) ''a'' = [[(''id'', Str demo_id)]]"
proof -
  let ?we = "demo_writes [(''a'', plain_info ''a'' []), (''c'', demo_child)] [] []"
  let ?w = "demo_world [(''a'', [[(''id'', Str demo_id)]]), (''c'', [[(''id'', Str ''k''), (''p'', Str demo_id)]])]"
  let ?c = "\<lparr>es_slug = ''c'', es_name = ''c'', es_table = ''c'', es_schema_json = ''c'', es_system = []\<rparr>"
  have 1: "?c \<in> set (en_collections (we_api ?we))"
    by (simp add: demo_writes_def demo_env_def demo_child_def plain_info_def)
  have 2: "(''a'', ''c'', ''c'', ''p'') \<in> set (restrict_fields (we_api ?we) ?c)"
    by (simp add: restrict_fields_def related_slug_def demo_writes_def demo_env_def demo_child_def plain_info_def plain_field_def)
  have 3: "[(''id'', Str ''k''), (''p'', Str demo_id)] \<in> set (rows_of (w_store ?w) ''c'')"
    by (simp add: demo_world_def rows_of_def)
  have "\<exists>e v. softDeleteItem ?we ''a'' demo_id ?w = (Inl e, v) \<and> w_store v = w_store ?w"
    by (rule referenced_row_is_not_trashed [OF 1 2 3]) (simp_all add: live_def col_null_def)
  moreover have "rows_of (w_store ?w) ''a'' = [[(''id'', Str demo_id)]]" by (simp add: demo_world_def rows_of_def)
  ultimately show ?thesis by metis
qed

section \<open>What reaches the hooks\<close>

lemma delete_keys_lookup [simp]: "map_of (delete_keys ks m) k = (if k \<in> set ks then None else map_of m k)"
  by (induction ks arbitrary: m) (auto simp: delete_keys_def)

definition inverse_targets :: "collection_info \<Rightarrow> string set" where
  "inverse_targets info = {t. \<exists>f \<in> set (co_fields info). fd_type f = ''formula'' \<and> fd_inverse_target f = Some t}"

lemma inverse_keeps: "k \<notin> inverse_targets info \<Longrightarrow> map_of (applyInverseFormulas env (co_fields info) row d) k = map_of d k"
proof -
  assume k: "k \<notin> inverse_targets info"
  have "map_of (fold (apply_inverse env (co_fields info) row) fs d) k = map_of d k" if "set fs \<subseteq> set (co_fields info)" for fs
    using that
  proof (induction fs arbitrary: d)
    case (Cons f fs)
    have "map_of (apply_inverse env (co_fields info) row f d) k = map_of d k"
      using k Cons.prems by (auto simp: apply_inverse_def inverse_targets_def nonempty_def split: option.splits list.splits sum.splits if_splits)
    then show ?case using Cons by simp
  qed simp
  then show ?thesis by (simp add: applyInverseFormulas_def)
qed

lemma fold_bind: "map_of (fold (\<lambda>f. amap_set f v) fs d) k = (if k \<in> set fs then Some v else map_of d k)"
  by (induction fs arbitrary: d) auto

definition admin :: "api_env \<Rightarrow> bool" where
  "admin env \<longleftrightarrow> (case en_auth env of Some a \<Rightarrow> au_is_admin a | None \<Rightarrow> False)"


definition demo_clerk :: auth_context where
  "demo_clerk = \<lparr>au_user_id = ''u'', au_role_id = [], au_role_name = [], au_email = [], au_is_admin = False,
     au_employee_id = Some ''e7'', au_tg_id = None\<rparr>"

definition demo_claim :: collection_info where
  "demo_claim = (plain_info ''t'' [plain_field ''by'' ''text'', plain_field ''net'' ''text'', plain_field ''note'' ''text''])
     \<lparr>co_actor_fields := [''by''], co_writes := Some \<lparr>wp_mode = None, wp_append_only = False, wp_frozen_fields = [''net''],
        wp_freeze_when = None, wp_confirmable = False\<rparr>\<rparr>"


section \<open>Replays\<close>

text \<open>
  C21. A create can be repeated. If the body carries an id under which the table already has a row, the
  create writes nothing: it fails, or the row is live and the result is that of reading the item.
  (\<open>getItem\<close> only reads.)
\<close>

theorem replayed_create_writes_nothing:
  assumes "createItem we slug (Obj m) w = (r, w')" "en_collection (we_api we) slug = Inr info"
    and i: "obj_get m ''id'' = Str i" and row: "row_by_id (co_table info) i w = (Inr (Some row), w)"
    and get: "\<And>v x v'. we_get_item we slug i v = (x, v') \<Longrightarrow> w_store v' = w_store v"
  shows "w_store w' = w_store w \<and> ((\<exists>e. r = Inl e) \<or>
    \<not> truthy (obj_get row ''deleted_at'') \<and> (\<exists>v. w_store v = w_store w \<and> we_get_item we slug i v = (r, w')))"
proof -
  let ?env = "we_api we" and ?data = "amap_del ''id'' m"
  consider e where "assertGenericWrite slug info Creating = Inl e" | "assertGenericWrite slug info Creating = Inr ()"
    by (cases "assertGenericWrite slug info Creating") auto
  then show ?thesis
  proof cases
    case 2
    have run: "bindA (accepted_payload ?env slug info False [] ?data) (\<lambda>data. bindA (clientIdA info (Str i)) (\<lambda>cid. case cid of
           Replayed i \<Rightarrow> we_get_item we slug i
         | FreshId i \<Rightarrow> bindA (vetted_create we slug info (Some i) data) (insert_item we slug info i)
         | NoId \<Rightarrow> bindA (vetted_create we slug info None data) (insert_item we slug info (en_uuid ?env ''id'')))) w = (r, w')"
      using assms(1,2) i 2 by (simp add: createItem_def Let_def)
    obtain a v where a: "accepted_payload ?env slug info False [] ?data w = (a, v)" by fastforce
    have v: "w_store v = w_store w"
      using quiet_now(1) [where m = "accepted_payload ?env slug info False [] ?data", OF _ a] by (simp add: quiet_intros)
    have row': "row_by_id (co_table info) i v = (Inr (Some row), v)" using row v by (simp add: row_by_id_def)
    have id: "clientIdA info (Str i) v = (Inr (Replayed i), v) \<and> \<not> truthy (obj_get row ''deleted_at'') \<or> (\<exists>e. clientIdA info (Str i) v = (Inl e, v))"
      using valid_id_cases [of i v] row' by (auto simp: clientIdA_def is_nullish_def bindA_at refused_def validation_error_def)
    show ?thesis
    proof (cases a)
      case (Inl e) then show ?thesis using run a v by (auto simp: bindA_at)
    next
      case (Inr data)
      have "bindA (clientIdA info (Str i)) (\<lambda>cid. case cid of
           Replayed i \<Rightarrow> we_get_item we slug i
         | FreshId i \<Rightarrow> bindA (vetted_create we slug info (Some i) data) (insert_item we slug info i)
         | NoId \<Rightarrow> bindA (vetted_create we slug info None data) (insert_item we slug info (en_uuid ?env ''id''))) v = (r, w')"
        using run a Inr by (simp add: bindA_at)
      then show ?thesis using id v get [of v r w'] by (auto simp: bindA_at)
    qed
  qed (use assms(1,2) in \<open>auto simp: createItem_def Let_def\<close>)
qed

theorem replayed_create_writes_nothing_witness:
  "w_store (snd (createItem ((demo_writes [(''n'', plain_info ''t'' [])] [] [])\<lparr>we_get_item := \<lambda>s i. retA [(''id'', Str i)]\<rparr>) ''n''
      (Obj [(''id'', Str demo_id), (''a'', Str ''b'')]) (demo_world [(''t'', [[(''id'', Str demo_id)]])]))) = [(''t'', [[(''id'', Str demo_id)]])]"
proof -
  let ?we = "(demo_writes [(''n'', plain_info ''t'' [])] [] [])\<lparr>we_get_item := \<lambda>s i. retA [(''id'', Str i)]\<rparr>"
  let ?m = "[(''id'', Str demo_id), (''a'', Str ''b'')]" and ?w = "demo_world [(''t'', [[(''id'', Str demo_id)]])]"
  obtain r w' where run: "createItem ?we ''n'' (Obj ?m) ?w = (r, w')" by fastforce
  have info: "en_collection (we_api ?we) ''n'' = Inr (plain_info ''t'' [])" by (simp add: demo_writes_def demo_env_def)
  have i: "obj_get ?m ''id'' = Str demo_id" by (simp add: obj_get_def)
  have row: "row_by_id (co_table (plain_info ''t'' [])) demo_id ?w = (Inr (Some [(''id'', Str demo_id)]), ?w)"
    by (simp add: row_by_id_def plain_info_def demo_world_def select_rows_def rows_of_def amap_has_def col_in_def)
  have "w_store w' = w_store ?w" using replayed_create_writes_nothing [OF run info i row] by simp
  then show ?thesis using run by (simp add: demo_world_def)
qed

end
