(* ===== verification/UpdateClaims.thy ===== *)
theory UpdateClaims
  imports MutationClaims ComputedClaims
begin

text \<open>
  What an update writes: the columns of its UPDATE, the document status among them, and the status machine
  of the collection.
\<close>


section \<open>What an update writes\<close>

lemma open_row_steps:
  assumes "open_row env slug info i w = (Inr row, v)"
  shows "v = w" "row_by_id (co_table info) i w = (Inr (Some row), w)"
proof -
  obtain x where x: "row_by_id (co_table info) i w = (x, w)" by (simp add: row_by_id_def)
  show "v = w" "row_by_id (co_table info) i w = (Inr (Some row), w)"
    using assms x by (cases x; auto simp: open_row_def bindA_at not_found_def split: option.splits)+
qed

lemma update_steps:
  assumes "updateItem we slug i body expected w = (Inr item, w')"
  obtains info m row data p v1 v2 v3 v4 db where
    "en_collection (we_api we) slug = Inr info" "body = Obj m" "row_by_id (co_table info) i w = (Inr (Some row), w)"
    "assertNotFrozen slug info row = Inr ()" "check_if_match row expected = Inr ()"
    "accepted_payload (we_api we) slug info True row (amap_del ''doc_status'' m) v1 = (Inr data, v2)" "w_store v1 = w_store w"
    "check_doc_status (we_api we) slug info row (obj_get m ''doc_status'') v2 = (Inr (), v3)" "w_store v2 = w_store w" "w_authz v2 = w_authz w"
    "plan_update we slug info i row (obj_get m ''doc_status'') data v3 = (Inr p, v4)" "w_store v3 = w_store w" "w_store v4 = w_store w"
    "run_batch (en_refuses (we_api we)) (UpdateIn (co_table info) ''id'' [i] (up_data p) # up_junctions p) (w_store w) = Inr db"
proof -
  obtain info where info: "en_collection (we_api we) slug = Inr info"
    using assms by (cases "en_collection (we_api we) slug") (auto simp: updateItem_def Let_def)
  obtain m where m: "body = Obj m"
    using assms by (cases body) (auto simp: updateItem_def Let_def bindA_Inr_iff validation_error_def)
  from assms [unfolded updateItem_def Let_def info m bindA_liftA jsval.case]
  have "bindA (valid_id i) (\<lambda>_. bindA (open_row (we_api we) slug info i) (\<lambda>row.
      bindA (may_write_row (we_api we) slug info i row) (\<lambda>_.
      bindA (liftA (check_if_match row expected)) (\<lambda>_.
      bindA (accepted_payload (we_api we) slug info True row (amap_del ''doc_status'' m)) (\<lambda>data.
      bindA (check_doc_status (we_api we) slug info row (obj_get m ''doc_status'')) (\<lambda>_.
      if data = [] \<and> \<not> truthy (obj_get m ''doc_status'') then liftA (validation_error ''No valid fields to update'')
      else bindA (plan_update we slug info i row (obj_get m ''doc_status'') data)
             (apply_update we slug info i row (obj_get m ''doc_status''))))))) ) w = (Inr item, w')"
    by (auto simp: bindA_Inr_iff)
  then obtain row u where row: "open_row (we_api we) slug info i w = (Inr row, u)"
    and later: "bindA (may_write_row (we_api we) slug info i row) (\<lambda>_.
      bindA (liftA (check_if_match row expected)) (\<lambda>_.
      bindA (accepted_payload (we_api we) slug info True row (amap_del ''doc_status'' m)) (\<lambda>data.
      bindA (check_doc_status (we_api we) slug info row (obj_get m ''doc_status'')) (\<lambda>_.
      if data = [] \<and> \<not> truthy (obj_get m ''doc_status'') then liftA (validation_error ''No valid fields to update'')
      else bindA (plan_update we slug info i row (obj_get m ''doc_status'') data)
             (apply_update we slug info i row (obj_get m ''doc_status'')))))) u = (Inr item, w')"
    using valid_id_cases [of i w] by (auto simp: refused_def bindA_at) (auto simp: bindA_Inr_iff)
  note u = open_row_steps(1) [OF row]
  from later obtain v1 v2 v3 data where
        nf: "may_write_row (we_api we) slug info i row w = (Inr (), v1)" and cm: "check_if_match row expected = Inr ()"
    and ap: "accepted_payload (we_api we) slug info True row (amap_del ''doc_status'' m) v1 = (Inr data, v2)"
    and cd: "check_doc_status (we_api we) slug info row (obj_get m ''doc_status'') v2 = (Inr (), v3)"
    and rest: "(if data = [] \<and> \<not> truthy (obj_get m ''doc_status'') then liftA (validation_error ''No valid fields to update'')
      else bindA (plan_update we slug info i row (obj_get m ''doc_status'') data)
             (apply_update we slug info i row (obj_get m ''doc_status''))) v3 = (Inr item, w')"
    unfolding u by (auto simp: bindA_Inr_iff)
  have s1: "w_store v1 = w_store w \<and> w_authz v1 = w_authz w" using quietD [where m = "may_write_row (we_api we) slug info i row", OF _ nf] by (simp add: quiet_intros)
  have s2: "w_store v2 = w_store w \<and> w_authz v2 = w_authz w" using quietD [where m = "accepted_payload (we_api we) slug info True row (amap_del ''doc_status'' m)", OF _ ap] s1 by (simp add: quiet_intros)
  have s3: "w_store v3 = w_store w \<and> w_authz v3 = w_authz w" using quietD [where m = "check_doc_status (we_api we) slug info row (obj_get m ''doc_status'')", OF _ cd] s2 by (simp add: quiet_intros)
  from rest obtain p v4 where p: "plan_update we slug info i row (obj_get m ''doc_status'') data v3 = (Inr p, v4)"
    and a: "apply_update we slug info i row (obj_get m ''doc_status'') p v4 = (Inr item, w')"
    by (auto simp: bindA_Inr_iff validation_error_def split: if_splits)
  have s4: "w_store v4 = w_store w \<and> w_authz v4 = w_authz w" using quietD [where m = "plan_update we slug info i row (obj_get m ''doc_status'') data", OF _ p] s3 by (simp add: quiet_intros)
  obtain db where db: "run_batch (en_refuses (we_api we)) (UpdateIn (co_table info) ''id'' [i] (up_data p) # up_junctions p) (w_store w) = Inr db"
    using a by (auto simp: apply_update_def Let_def bindA_Inr_iff batchA_def s4 split: sum.splits)
  have r: "row_by_id (co_table info) i w = (Inr (Some row), w)"
    by (rule open_row_steps(2) [OF row])
  have f: "assertNotFrozen slug info row = Inr ()" using nf by (auto simp: may_write_row_def bindA_Inr_iff)
  show thesis by (rule that [OF info m r f cm ap _ cd _ _ p _ _ db]) (use s1 s2 s3 s4 in simp_all)
qed

section \<open>The columns of an update\<close>

lemma split_system:
  "foldR (split_entry fs) es (c, m) = Inr (c', m') \<Longrightarrow> k \<in> set SYSTEM_FIELDS \<Longrightarrow> map_of c' k = map_of c k"
proof (induction es arbitrary: c m)
  case (Cons e es)
  then obtain c1 m1 where 1: "split_entry fs (fst e, snd e) (c, m) = Inr (c1, m1)" "foldR (split_entry fs) es (c1, m1) = Inr (c', m')"
    by (auto simp: bindR_Inr_iff)
  have "map_of c1 k = map_of c k"
  proof (cases "fst e = k")
    case True
    then show ?thesis using 1(1) Cons.prems(2) by (simp add: split_entry_def)
  qed (use split_entry_lookup(1) [OF 1(1)] in auto)
  then show ?case using Cons.IH [OF 1(2) Cons.prems(2)] by simp
qed simp

lemma split_system_column:
  assumes "splitRowData uuid body fs = Inr (cols, meta)" "k \<in> set SYSTEM_FIELDS" "k \<noteq> ''_meta''" "k \<notin> fd_name ` set fs"
  shows "map_of cols k = None"
  using assms(1)
proof (rule splitRowData_parts)
  fix c assume c: "foldR (split_entry fs) (own_entries body) ([], []) = Inr (c, meta)"
    and cols: "\<And>k. k \<noteq> ''_meta'' \<Longrightarrow> map_of cols k = map_of (fill_generated uuid body fs c) k"
  show ?thesis using split_system [OF c assms(2)] cols [OF assms(3)] fill_other [of fs k uuid body c] assms(4) by auto
qed

lemma topo_set: "distinct (map fd_name fs) \<Longrightarrow> set (topoSortStoredFormulas (stored_formulas fs)) \<subseteq> set (stored_formulas fs)"
proof -
  let ?s = "stored_formulas (stored_formulas fs)"
  have s: "?s = stored_formulas fs" by (simp add: stored_formulas_def)
  assume "distinct (map fd_name fs)"
  then have d: "distinct (map fd_name ?s)" by (simp add: stored_formulas_def distinct_map_filter)
  have "topo_ok ?s (uniq (map fd_name ?s), [])" using d by (auto simp: topo_ok_def)
  then have "set (topo_loop (fields_by_name ?s) (uniq (map fd_name ?s)) []) = set ?s" using topo_loop_ok [OF d] by blast
  then show ?thesis using s by (simp add: topoSortStoredFormulas_def Let_def)
qed

lemma compute_names:
  assumes "foldR (compute_stored env db sf t i) fs (a, b) = Inr (a', b')"
  shows "fst ` set b' = fst ` set b \<union> fd_name ` set fs" "amap_ok b \<Longrightarrow> amap_ok b'"
proof -
  have "fst ` set b' = fst ` set b \<union> fd_name ` set fs \<and> (amap_ok b \<longrightarrow> amap_ok b')" using assms
  proof (induction fs arbitrary: a b)
    case (Cons f fs)
    then obtain a1 b1 where 1: "compute_stored env db sf t i f (a, b) = Inr (a1, b1)" "foldR (compute_stored env db sf t i) fs (a1, b1) = Inr (a', b')"
      by (auto simp: bindR_Inr_iff)
    then have "b1 = amap_set (fd_name f) (stored_value (en_eval env) f a1) b" by (auto simp: compute_stored_def bindR_Inr_iff)
    then have "fst ` set b1 = insert (fd_name f) (fst ` set b)" "amap_ok b \<longrightarrow> amap_ok b1"
      by (simp_all only: amap_set_keys_set) (rule impI, erule amap_ok_set)
    then show ?case using Cons.IH [OF 1(2)] by auto
  qed simp
  then show "fst ` set b' = fst ` set b \<union> fd_name ` set fs" "amap_ok b \<Longrightarrow> amap_ok b'" by auto
qed

lemma computed_columns:
  assumes "computeStoredFormulas env db sf scope t i = Inr computed" "distinct (map fd_name sf)"
  shows "amap_ok computed" "map_of computed k \<noteq> None \<Longrightarrow> \<exists>f \<in> set sf. fd_name f = k \<and> fd_type f = ''formula''"
proof -
  obtain a where a: "foldR (compute_stored env db sf t i) (topoSortStoredFormulas (stored_formulas sf)) (obj_spread [] scope, []) = Inr (a, computed)"
    using assms(1) by (auto simp: computeStoredFormulas_def bindR_Inr_iff)
  show "amap_ok computed" using compute_names(2) [OF a] by simp
  assume "map_of computed k \<noteq> None"
  then have "k \<in> fst ` set computed" by (simp add: map_of_eq_None_iff)
  then have "k \<in> fd_name ` set (stored_formulas sf)" using compute_names(1) [OF a] topo_set [OF assms(2)] by auto
  then show "\<exists>f \<in> set sf. fd_name f = k \<and> fd_type f = ''formula''" by (auto simp: stored_formulas_def)
qed

lemma encrypt_fields_keep:
  "foldR (encrypt_field cy) fs row = Inr row' \<Longrightarrow>
     (\<forall>k. (k \<notin> fd_name ` set fs \<longrightarrow> map_of row' k = map_of row k) \<and> (map_of row' k = None \<longleftrightarrow> map_of row k = None)) \<and> (amap_ok row \<longrightarrow> amap_ok row')"
proof (induction fs arbitrary: row)
  case (Cons f fs)
  then obtain r where r: "encrypt_field cy f row = Inr r" "foldR (encrypt_field cy) fs r = Inr row'" by (auto simp: bindR_Inr_iff)
  have "map_of row (fd_name f) \<noteq> None" if "obj_get row (fd_name f) = Str s" for s
    using that by (auto simp: obj_get_def object_proto_get_def native_func_def split: option.splits if_splits)
  then have "(\<forall>k. (k \<noteq> fd_name f \<longrightarrow> map_of r k = map_of row k) \<and> (map_of r k = None \<longleftrightarrow> map_of row k = None)) \<and> (amap_ok row \<longrightarrow> amap_ok r)"
    using r(1) by (auto simp: encrypt_field_def bindR_Inr_iff split: if_splits jsval.splits)
  then show ?case using Cons.IH [OF r(2)] by auto
qed simp

lemma encryptColumns_keep:
  assumes "amap_ok cols"
  shows "k \<notin> fd_name ` {f \<in> set sf. fd_encrypted f} \<Longrightarrow> map_of (encryptColumns we cols sf) k = map_of cols k"
    "map_of (encryptColumns we cols sf) k = None \<longleftrightarrow> map_of cols k = None" "amap_ok (encryptColumns we cols sf)"
proof -
  have sp: "map_of (obj_spread [] cols) k = map_of cols k" for k
    using obj_spread_lookup [OF assms, of "[]" k] by (simp split: option.splits)
  have ok: "amap_ok (obj_spread [] cols)" by (intro obj_spread_ok) simp
  have "(k \<notin> fd_name ` {f \<in> set sf. fd_encrypted f} \<longrightarrow> map_of (encryptColumns we cols sf) k = map_of cols k) \<and>
      (map_of (encryptColumns we cols sf) k = None \<longleftrightarrow> map_of cols k = None) \<and> amap_ok (encryptColumns we cols sf)"
  proof (cases "encryptFields (we_cipher we) cols (filter fd_encrypted sf)")
    case (Inr c)
    then show ?thesis using encrypt_fields_keep [OF Inr [unfolded encryptFields_def]] sp ok assms
      by (auto simp: encryptColumns_def Let_def)
  qed (use assms in \<open>auto simp: encryptColumns_def Let_def\<close>)
  then show "k \<notin> fd_name ` {f \<in> set sf. fd_encrypted f} \<Longrightarrow> map_of (encryptColumns we cols sf) k = map_of cols k"
    "map_of (encryptColumns we cols sf) k = None \<longleftrightarrow> map_of cols k = None" "amap_ok (encryptColumns we cols sf)" by auto
qed

lemma update_data_lookup:
  assumes "amap_ok cols"
  shows "k \<notin> {''_meta'', ''updated_at'', ''doc_status'', ''updated_by''} \<Longrightarrow>
      map_of (update_data we info row cols meta st) k = map_of (encryptColumns we cols (co_fields info)) k"
    "map_of (update_data we info row cols meta st) ''doc_status'' =
      (if truthy st then Some st else map_of (encryptColumns we cols (co_fields info)) ''doc_status'')"
  using obj_spread_lookup [OF encryptColumns_keep(3) [OF assms], of "[]"]
  by (auto simp: update_data_def Let_def obj_spread_lookup amap_ok_def split: option.splits)

lemma plan_steps:
  assumes "plan_update we slug info i row st data v = (Inr p, v')"
  obtains data1 columns meta computed data2 u u' db where
    "splitRowData (en_uuid (we_api we)) (fst (extractChildData data1 (co_fields info))) (co_fields info) = Inr (columns, meta)"
    "computeStoredFormulas (we_api we) db (co_fields info) (obj_spread (obj_spread [] row) data1) (co_table info) i = Inr computed"
    "vetted_update we slug info row data1 u = (Inr data2, u')" "up_payload p = data2"
    "up_data p = update_data we info row (obj_spread columns computed) meta st"
  using assms by (auto simp: plan_update_def Let_def bindA_Inr_iff computedA_def)

lemma status_checked:
  assumes "check_doc_status env slug info row (Str s) w = (Inr (), v)" "s \<noteq> []"
  shows "isValidDocStatus s \<and> isValidTransition (current_status row) s (allow_confirmed info) \<and>
    (\<forall>a act. en_auth env = Some a \<and> \<not> au_is_admin a \<and> (s, act) \<in> {(''submitted'', ''submit''), (''approved'', ''approve'')} \<longrightarrow>
       (\<exists>c. fst (checkBusiness (en_now env) (w_authz w) a slug act c)))"
proof -
  have may: "\<exists>c. fst (checkBusiness (en_now env) (w_authz w) a slug act c)"
    if "may_business env slug act w = (Inr (), u)" "en_auth env = Some a" "\<not> au_is_admin a" for act a u
    using that by (auto simp: may_business_def bindA_Inr_iff cachedA_def Let_def forbidden_def split: prod.splits if_splits) (metis fst_conv)
  show ?thesis
    using assms by (auto simp: check_doc_status_def validation_error_def bindA_Inr_iff dest: may split: if_splits)
qed


section \<open>The status machine of a collection\<close>

lemma evaluate_errors:
  assumes "evaluateFor rx of_json ev rows coll doc docId w = (Inl e, v)"
  shows "err_class e = ''ValidationError''"
proof -
  have compute: "err_class e = ''ValidationError''" if "foldR (compute_field ev) cs d = Inl e" for ev cs d e
    using that by (induction cs arbitrary: d) (auto simp: bindR_Inl_iff compute_field_def validation_error_def split: sum.splits)
  have act: "err_class e = ''ValidationError''" if "applyActions ev a d = Inl e" for ev a d e
    using that compute by (auto simp: applyActions_def validation_error_def split: if_splits)
  have fired: "err_class e = ''ValidationError''" if "apply_fired ev coll docId t rs st w = (Inl e, v)" for ev coll docId t rs st w e v
    using that
    by (induction ev coll docId t rs st arbitrary: w rule: apply_fired.induct)
      (auto simp: bindA_Inl_iff Let_def dest: act split: if_splits)
  have fold: "err_class e = ''ValidationError''" if "foldA (\<lambda>t st. apply_fired ev coll docId t (g t st) st) ts st w = (Inl e, v)" for g ts st w
    using that by (induction ts arbitrary: st w) (auto simp: bindA_Inl_iff dest: fired)
  show ?thesis using assms fold by (simp add: evaluateFor_def)
qed

lemma decision_delta_ok: "amap_ok (decision_delta row doc)"
proof -
  have "amap_ok (fold (\<lambda>(k, v) delta. if P k v then delta else amap_set k v delta) es m)" if "amap_ok m" for P es and m :: jsobj
    using that by (induction es arbitrary: m) auto
  then show ?thesis by (simp add: decision_delta_def)
qed

lemma decided_ok: "runDecisionTables we slug doc i (Some row) w = (Inr d, v) \<Longrightarrow> amap_ok d"
  by (auto simp: runDecisionTables_def catchA_def bindA_def decision_delta_ok dest: evaluate_errors split: prod.splits sum.splits if_splits)

lemma transformed_ok: "transformed_update we slug i row data w = (Inr d, v) \<Longrightarrow> amap_ok d"
  by (auto simp: transformed_update_def bindA_Inr_iff dest: decided_ok)

lemma extract_keeps:
  assumes "amap_ok data" "\<And>f. f \<in> set sf \<Longrightarrow> fd_name f = k \<Longrightarrow> fd_type f \<noteq> ''table''"
  shows "amap_ok (fst (extractChildData data sf))" "map_of (fst (extractChildData data sf)) k = map_of data k"
proof -
  let ?step = "\<lambda>f (clean, children). case obj_get clean (fd_name f) of
       Arr xs \<Rightarrow> (amap_del (fd_name f) clean, amap_set (fd_name f) xs children) | _ \<Rightarrow> (clean, children)"
  have "amap_ok (fst (fold ?step fs (c, m))) \<and> map_of (fst (fold ?step fs (c, m))) k = map_of c k"
    if "amap_ok c" "\<And>f. f \<in> set fs \<Longrightarrow> fd_name f \<noteq> k" for fs and c :: jsobj and m :: "(string, jsval list) amap"
    using that
  proof (induction fs arbitrary: c m)
    case (Cons f fs)
    obtain c1 m1 where 1: "?step f (c, m) = (c1, m1)" by fastforce
    have "fd_name f \<noteq> k" using Cons.prems(2) [of f] by simp
    then have "amap_ok c1 \<and> map_of c1 k = map_of c k" using 1 Cons.prems(1) by (auto split: jsval.splits)
    then show ?case using Cons.IH [of c1 m1] Cons.prems(2) 1 by simp
  qed simp
  note main = this [of "obj_spread [] data" "filter (\<lambda>f. fd_type f = ''table'') sf" "[]"]
  have ok: "amap_ok (obj_spread [] data)" by (intro obj_spread_ok) simp
  have here: "map_of (obj_spread [] data) k = map_of data k"
    using obj_spread_lookup [OF assms(1), of "[]" k] by (simp split: option.splits)
  have "fd_name f \<noteq> k" if "f \<in> set (filter (\<lambda>f. fd_type f = ''table'') sf)" for f using that assms(2) by auto
  from main [OF ok this] here show "amap_ok (fst (extractChildData data sf))" "map_of (fst (extractChildData data sf)) k = map_of data k"
    unfolding extractChildData_def by simp_all
qed

text \<open>The column of a select field is the text of the payload, or null, or not there.\<close>

lemma select_column:
  assumes sp: "splitRowData uuid body fs = Inr (cols, meta)" and ok: "amap_ok body" and names: "distinct (map fd_name fs)"
    and f: "f \<in> set fs" "fd_type f = ''select''" "fd_name f \<notin> set SYSTEM_FIELDS"
  shows "map_of cols (fd_name f) = map_option (\<lambda>v. if is_nullish v then Null else Str (to_str v)) (map_of body (fd_name f))"
  using sp
proof (rule splitRowData_parts)
  fix c assume c: "foldR (split_entry fs) (own_entries body) ([], []) = Inr (c, meta)"
    and cols: "\<And>k. k \<noteq> ''_meta'' \<Longrightarrow> map_of cols k = map_of (fill_generated uuid body fs c) k"
  let ?k = "fd_name f"
  have same: "g = f" if "g \<in> set fs" "fd_name g = ?k" for g
    using that f(1) names by (auto simp: distinct_map inj_on_def)
  have k: "?k \<noteq> ''_meta''" using f(3) by (auto simp: SYSTEM_FIELDS_def)
  have cols': "map_of cols ?k = map_of c ?k"
    unfolding cols [OF k]
  proof (rule fill_other)
    fix g assume "g \<in> set fs" "fd_type g \<in> {''slug'', ''uuid''}"
    then show "fd_name g \<noteq> ?k" using same [of g] f(2) by (cases "g = f") auto
  qed
  have ty: "map_of (schema_types fs) ?k = Some ''select''"
  proof -
    have "map_of (schema_types fs) ?k = map_of (map (\<lambda>f. (fd_name f, fd_type f)) fs) ?k"
      unfolding schema_types_def using names by (subst amap_of_distinct) (simp_all add: comp_def)
    also have "\<dots> = Some ''select''" using names f by (intro map_of_is_SomeI) (auto simp: comp_def)
    finally show ?thesis .
  qed
  have col: "to_column fs ?k" using f(3) ty by (simp add: to_column_def)
  show ?thesis
  proof (cases "map_of body ?k")
    case None
    then have "?k \<notin> fst ` set (own_entries body)" by (simp add: map_of_eq_None_iff)
    then show ?thesis using split_entries_other [OF c] None cols' by auto
  next
    case (Some v)
    have d: "distinct (map fst (own_entries body))" by (rule distinct_own_entries [OF ok])
    have "(?k, v) \<in> set (own_entries body)" using Some by (simp add: map_of_SomeD)
    moreover have "coerce_field v ''select'' = Inr (if is_nullish v then Null else Str (to_str v))"
      by (simp add: coerce_field_def coerceValue_def)
    ultimately have "map_of c ?k = Some (if is_nullish v then Null else Str (to_str v))"
      using split_entries_at(2) [OF c d _ ty col] by blast
    then show ?thesis using Some cols' by simp
  qed
qed

lemma no_rules: "functions_for (we_functions we) slug trigger = [] \<Longrightarrow> rules_or_fail we trigger slug doc w = (Inr doc, w)"
  by (simp add: rules_or_fail_def rulesA_def executeHooks_def executeFunctions_def bindA_def)

lemma vetted_without_rules:
  assumes "vetted_update we slug info row data w = (Inr d, v)"
    "functions_for (we_functions we) slug ''validate'' = []" "functions_for (we_functions we) slug ''before_update'' = []"
  shows "d = data \<and> check_status_machine info row data = Inr ()"
  using assms by (auto simp: vetted_update_def bindA_Inr_iff no_rules)

lemma machine_allows:
  assumes "check_status_machine info row data = Inr ()" "co_status_machine info = Some sm" "map_of data (sm_field sm) = Some v" "\<not> is_nullish v"
  shows "(let old = str_or_empty (obj_get row (sm_field sm)) in
    to_str v = old \<or> to_str v \<in> set (case map_of (sm_transitions sm) old of Some ts \<Rightarrow> ts | None \<Rightarrow> []))"
proof -
  have "obj_get data (sm_field sm) = v" "v \<noteq> Undef" "str_or_empty v = to_str v"
    using assms(3,4) by (auto simp: obj_get_def is_nullish_def str_or_empty_def nullish_or_def)
  then show ?thesis using assms(1,2) by (auto simp: check_status_machine_def Let_def validation_error_def split: if_splits)
qed


section \<open>An update\<close>

definition demo_orders :: collection_info where
  "demo_orders = (plain_info ''t'' [plain_field ''s'' ''select''])
     \<lparr>co_status_machine := Some \<lparr>sm_field = ''s'', sm_transitions = [(''draft'', [''sent'']), (''sent'', [''paid''])]\<rparr>\<rparr>"

abbreviation demo_order_writes :: write_env where
  "demo_order_writes \<equiv> demo_writes [(''o'', demo_orders)] [] []"

definition demo_order_world :: api_world where
  "demo_order_world = demo_world [(''t'', [[(''id'', Str demo_id), (''s'', Str ''draft'')]])]"

lemma demo_update: "fst (updateItem demo_order_writes ''o'' demo_id (Obj [(''s'', Str ''sent''), (''doc_status'', Str ''submitted'')]) [] demo_order_world) =
  Inr [(''id'', Str demo_id), (''s'', Str ''sent''), (''updated_at'', Str ''2026-01-01T00:00:00.000Z''), (''doc_status'', Str ''submitted'')]"
  by code_simp

lemma demo_orders_facts:
  "en_collection (we_api demo_order_writes) ''o'' = Inr demo_orders"
  "\<forall>f \<in> set (co_fields demo_orders). fd_name f \<notin> set SYSTEM_FIELDS" "distinct (map fd_name (co_fields demo_orders))"
  "row_by_id (co_table demo_orders) demo_id demo_order_world = (Inr (Some [(''id'', Str demo_id), (''s'', Str ''draft'')]), demo_order_world)"
  by (simp_all add: demo_writes_def demo_env_def demo_orders_def plain_info_def plain_field_def SYSTEM_FIELDS_def row_by_id_def
      demo_order_world_def demo_world_def select_rows_def rows_of_def amap_has_def col_in_def)



end
