(* ===== verification/TrashClaims.thy ===== *)
theory TrashClaims
  imports UpdateClaims
begin

text \<open>What trashing and restoring a row leave of the rows of the database.\<close>

section \<open>Steps that only set given columns\<close>

definition agree_except :: "string set \<Rightarrow> jsobj \<Rightarrow> jsobj \<Rightarrow> bool" where
  "agree_except S r r' \<longleftrightarrow> (\<forall>k. k \<notin> S \<longrightarrow> map_of r' k = map_of r k)"

text \<open>The same rows in the same places, different at most in the columns \<open>S\<close>.\<close>

definition only_columns :: "string set \<Rightarrow> api_world \<Rightarrow> api_world \<Rightarrow> bool" where
  "only_columns S w v \<longleftrightarrow> (\<forall>t. list_all2 (agree_except S) (rows_of (w_store w) t) (rows_of (w_store v) t))"

interpretation columns: world_order "only_columns S" for S
proof
  show "only_columns S w w" for w by (simp add: only_columns_def agree_except_def list.rel_refl)
  show "only_columns S u w" if "only_columns S u v" "only_columns S v w" for u v w
    unfolding only_columns_def
  proof
    fix t
    show "list_all2 (agree_except S) (rows_of (w_store u) t) (rows_of (w_store w) t)"
      by (rule list_all2_trans [of "agree_except S" "agree_except S", where bs = "rows_of (w_store v) t"])
        (use that in \<open>auto simp: only_columns_def agree_except_def\<close>)
  qed
qed

lemma quiet_columns: "quiet m \<Longrightarrow> steps_in (only_columns S) m"
  using columns.refl by (fastforce simp: steps_in_def same_rows_def only_columns_def)

lemma update_columns:
  assumes "fst ` set u \<subseteq> S"
  shows "steps_in (only_columns S) (batchA env [UpdateIn t c vs u])"
proof -
  have set: "agree_except S r (obj_spread r u)" for r
    unfolding agree_except_def obj_spread_def
  proof (intro allI impI)
    fix k assume "k \<notin> S"
    then have "k \<notin> fst ` set (own_entries u)" using assms by auto
    then show "map_of (fold (\<lambda>(k, v). amap_set k v) (own_entries u) r) k = map_of r k" by (rule fold_set_lookup)
  qed
  have same: "agree_except S r r" for r by (simp add: agree_except_def)
  have "only_columns S w (w\<lparr>w_store := db\<rparr>)" if "run_batch (en_refuses env) [UpdateIn t c vs u] (w_store w) = Inr db" for w db
    using run_batch_writes [OF that] set same
    by (auto simp: only_columns_def list.rel_map list.rel_refl split: option.splits)
  then show ?thesis using columns.refl by (auto simp: steps_in_def batchA_def split: sum.splits)
qed

context world_order
begin

lemma cascade_levels:
  assumes "\<And>ids link acc. steps_in K (cascade_probe env mode ids link acc)"
  shows "K w (snd (cascade_loop env mode level vis del w))"
  using assms
proof (induction env mode level vis del w rule: cascade_loop.induct)
  case (1 env mode level vis del w)
  have level: "steps_in K (cascade_level env mode level acc)" for acc
    unfolding cascade_level_def using 1(2) by (auto intro!: fold)
    show ?case
    proof (cases "level = []")
      case True
      then show ?thesis by (simp add: cascade_loop.simps refl)
    next
      case False
      obtain r w' where r: "cascade_level env mode level (vis, del, []) w = (r, w')" by fastforce
      then have w': "K w w'" using steps_inD [OF level] by blast
      show ?thesis
      proof (cases r)
        case (Inr acc)
        obtain vis' del' nxt where acc: "acc = (vis', del', nxt)" by (metis prod_cases3)
        have "K w' (snd (cascade_loop env mode nxt vis' del' w'))" using 1(1) [OF False r [symmetric] Inr] acc 1(2) by blast
        then show ?thesis using False r Inr acc trans [OF w'] by (subst cascade_loop.simps) simp
      qed (use False r w' in \<open>simp add: cascade_loop.simps\<close>)
    qed
qed

end

section \<open>The steps of a soft delete\<close>

text \<open>The columns that trashing and restoring set: the stamps, and the computed fields of every collection.\<close>

definition stored_columns :: "api_env \<Rightarrow> string set" where
  "stored_columns env = {fd_name f | f slug info. en_collection env slug = Inr info \<and> f \<in> set (co_fields info) \<and> fd_type f = ''formula''}"

abbreviation stamps :: "string set" where
  "stamps \<equiv> {''deleted_at'', ''deleted_by'', ''updated_at''}"

definition field_names_distinct :: "api_env \<Rightarrow> bool" where
  "field_names_distinct env \<longleftrightarrow> (\<forall>slug info. en_collection env slug = Inr info \<longrightarrow> distinct (map fd_name (co_fields info)))"

lemma trash_row_columns: "steps_in (only_columns (stamps \<union> F)) (trash_rowA env info i)"
  unfolding trash_rowA_def
  by (auto simp: trash_stamp_def intro!: columns.catch update_columns split: option.splits)

lemma soft_probe_columns: "steps_in (only_columns (stamps \<union> F)) (cascade_probe env Soft ids link acc)"
  unfolding cascade_probe_def Let_def remove_children_def
  by (auto simp: trash_stamp_def intro!: columns.bind columns.still update_columns split: prod.splits)

lemma soft_cascade_columns: "steps_in (only_columns (stamps \<union> F)) (cascadeA env slug i Soft)"
proof -
  have "steps_in (only_columns (stamps \<union> F)) (cascadeDelete env slug i Soft)"
    unfolding steps_in_def cascadeDelete_def using columns.cascade_levels [OF soft_probe_columns] by blast
  then show ?thesis unfolding cascadeA_def by (intro columns.catch columns.bind columns.still)
qed

lemma parent_ids_quiet [quiet_intros]: "quiet (parent_ids_of parent c t row d ids)"
  unfolding parent_ids_of_def column_of_child_def by (auto intro!: quiet_intros split: option.splits)

lemma recalc_columns:
  assumes "field_names_distinct env"
  shows "steps_in (only_columns (stamps \<union> stored_columns env)) (recalcAffectedParents env slug i t row)"
proof -
  let ?K = "only_columns (stamps \<union> stored_columns env)"
  have row: "steps_in ?K (recalc_parent_row env parent (co_fields info) pid)" if "en_collection env (es_slug parent) = Inr info" for parent info pid
  proof -
    have "?K w (snd (recalc_parent_row env parent (co_fields info) pid w))" for w
    proof (cases "row_by_id (es_table parent) pid w")
      case (Pair x v)
      have v: "v = w" using Pair by (simp add: row_by_id_def)
      show ?thesis
      proof (cases "\<exists>r computed. x = Inr (Some r) \<and> computeStoredFormulas env (w_store w) (co_fields info) r (es_table parent) pid = Inr computed")
        case True
        then obtain r computed where r: "x = Inr (Some r)"
          and c: "computeStoredFormulas env (w_store w) (co_fields info) r (es_table parent) pid = Inr computed" by blast
        have d: "distinct (map fd_name (co_fields info))" using assms that by (auto simp: field_names_distinct_def)
        have "fst ` set computed \<subseteq> stamps \<union> stored_columns env"
        proof
          fix k assume "k \<in> fst ` set computed"
          then have "map_of computed k \<noteq> None" by (simp add: map_of_eq_None_iff)
          from computed_columns(2) [OF c d this] show "k \<in> stamps \<union> stored_columns env" using that by (auto simp: stored_columns_def)
        qed
        then have "steps_in ?K (whenA (computed \<noteq> []) (bindA (batchA env [UpdateIn (es_table parent) ''id'' [pid] computed]) (\<lambda>_.
            dropReads (es_slug parent) (Some pid))))"
          by (intro columns.guarded columns.bind update_columns quiet_columns quiet_intros)
        then show ?thesis using Pair r c v by (simp add: recalc_parent_row_def bindA_def steps_in_def)
      qed (use Pair v columns.refl in \<open>auto simp: recalc_parent_row_def bindA_def split: sum.splits option.splits\<close>)
    qed
    then show ?thesis by (simp add: steps_in_def)
  qed
  show ?thesis
    unfolding recalcAffectedParents_def
  proof (rule columns.each)
    fix parent
    show "steps_in ?K (recalc_parent env slug i t row parent)"
    proof (cases "en_collection env (es_slug parent)")
      case (Inr info)
      have "quiet (foldA (parent_ids_of parent i t row) (linked_refs slug (co_fields info)) [])" by (intro quiet_intros)
      then have "steps_in ?K (bindA (foldA (parent_ids_of parent i t row) (linked_refs slug (co_fields info)) [])
          (\<lambda>ids. eachA (recalc_parent_row env parent (co_fields info)) ids))"
        by (intro columns.bind columns.each row [OF Inr] quiet_columns) auto
      then show ?thesis by (simp add: recalc_parent_def Inr)
    qed (simp add: recalc_parent_def columns.still)
  qed
qed

text \<open>
  C20. Trashing and restoring lose nothing. Whatever the two handlers do, with a result or with an error, with
  the cascade, the recalculation of parents and all: every row of every table is still there, in its place,
  and differs at most in its stamps (\<open>deleted_at\<close>, \<open>deleted_by\<close>, \<open>updated_at\<close>) and in columns that hold
  computed fields.
\<close>

theorem trash_and_restore_lose_nothing:
  assumes names: "field_names_distinct (we_api we)"
  shows "only_columns (stamps \<union> stored_columns (we_api we)) w (snd (softDeleteItem we slug i w)) \<and>
    only_columns (stamps \<union> stored_columns (we_api we)) w (snd (restoreItem we slug i w))"
proof -
  let ?K = "only_columns (stamps \<union> stored_columns (we_api we))"
  have quiet: "quiet (auditA info slug i act row)" "quiet (webhookA we slug act row)" "quiet (afterA slug act row)" for info act row
    by (simp_all add: auditA_def webhookA_def afterA_def quiet_intros)
  note steps = columns.bind trash_row_columns soft_cascade_columns recalc_columns [OF names] quiet_columns quiet quiet_intros columns.still
  have "steps_in ?K (softDeleteItem we slug i)"
    unfolding softDeleteItem_def Let_def by (intro steps)
  moreover have "steps_in ?K (restoreItem we slug i)"
    unfolding restoreItem_def Let_def by (intro steps update_columns) auto
  ultimately show ?thesis by (simp add: steps_in_def)
qed

theorem trash_and_restore_lose_nothing_witness:
  "only_columns stamps demo_order_world (snd (softDeleteItem demo_order_writes ''o'' demo_id demo_order_world))"
proof -
  have "field_names_distinct (we_api demo_order_writes)"
    by (simp add: field_names_distinct_def demo_writes_def demo_env_def demo_orders_def plain_info_def split: if_splits)
  moreover have "stored_columns (we_api demo_order_writes) = {}"
    by (auto simp: stored_columns_def demo_writes_def demo_env_def demo_orders_def plain_info_def plain_field_def split: if_splits)
  ultimately show ?thesis using trash_and_restore_lose_nothing [of demo_order_writes demo_order_world "''o''" demo_id] by simp
qed

end
