(* ===== verification/LookupClaims.thy ===== *)
theory LookupClaims
  imports Lookups FieldCrypt
begin

text \<open>
  The properties of the fetches of computed fields and of field encryption.
\<close>

section \<open>One-to-many lookups\<close>

lemma group_children_without_key:
  "(\<And>r. r \<in> set rows \<Longrightarrow> text_column r fk = []) \<Longrightarrow> group_children parse fk rows = []"
proof -
  assume none: "\<And>r. r \<in> set rows \<Longrightarrow> text_column r fk = []"
  have "fold (\<lambda>r m. let k = text_column r fk in if k = [] then m else group_add (k, mergeRowData parse r) m) rows m = m" for m
    using none by (induction rows arbitrary: m) auto
  then show ?thesis by (simp add: group_children_def)
qed

lemma projected_away:
  "fk \<notin> set (c # cs) \<Longrightarrow> object_proto_get fk = Undef \<Longrightarrow> text_column (project (Some (c # cs)) r) fk = []"
proof -
  assume fk: "fk \<notin> set (c # cs)" "object_proto_get fk = Undef"
  then have "map_of (project (Some (c # cs)) r) fk = None" by (auto simp: project_def map_of_eq_None_iff)
  then show ?thesis using fk(2) by (simp add: text_column_def obj_get_def str_or_empty_def is_nullish_def nullish_or_def)
qed

text \<open>
  C33. A formula over a one-to-many relation sees no children. Unless the formula itself names the foreign key
  as a member of the relation, the key is not among the columns the fetch selects, so no row can be
  grouped under its parent: the relation's scope is the one of no rows, whatever rows there are.
\<close>

theorem one_to_many_lookup_is_empty:
  assumes "find (\<lambda>c. es_table c = table) (en_collections env) = Some c" "en_fields env (es_schema_json c) = Some fs"
    and "fk \<notin> set (lookupMemberColumns [formula] f)" "fk \<noteq> ''id''" "object_proto_get fk = Undef"
    and "amap_has f refs" "amap_has table db" "i \<noteq> []"
  shows "attach_o2m env db refs formula i (f, table, fk) scope = Inr (amap_set f (Obj (buildLookupScope [])) scope)"
proof -
  obtain col cols where cols: "lookupProjection env f [formula] table False = Some (col # cols)" and fk: "fk \<notin> set (col # cols)"
  proof -
    let ?allowed = "physicalColumnNames (filter (\<lambda>f. fd_name f \<noteq> [] \<and> fd_name f \<notin> set SYSTEM_FIELD_NAMES) fs) @ buildSystemColumnsList (es_system c)"
    let ?cs = "uniq (''id'' # filter (\<lambda>m. m \<in> set ?allowed) (lookupMemberColumns [formula] f))"
    have "lookupProjection env f [formula] table False = Some ?cs"
      using assms(1,2) by (simp add: lookupProjection_def projection_columns_def)
    moreover have "fk \<notin> set ?cs" using assms(3,4) by auto
    moreover obtain col cols where "?cs = col # cols"
      by (cases ?cs) (simp_all add: uniq_def)
    ultimately show thesis using that by metis
  qed
  have "group_children (en_parse env) fk (map (project (Some (col # cols))) rows) = []" for rows
    by (rule group_children_without_key) (use projected_away [OF fk assms(5)] in auto)
  then have "fetchArrayChildren env [i] table fk (Some (col # cols)) db = Inr []"
    using assms(7) by (simp add: fetchArrayChildren_def select_rows_def)
  then show ?thesis using assms(6) cols by (simp add: attach_o2m_def grouped_def)
qed

text \<open>An order with one line: the sum over the lines is the sum of no numbers.\<close>

definition demo_lines :: collection_info where
  "demo_lines = plain_info ''l'' [plain_field ''amount'' ''number'', plain_field ''o'' ''m2o'']"

theorem one_to_many_lookup_is_empty_witness:
  "attach_o2m (demo_env [(''l'', demo_lines)]) [(''l'', [[(''id'', Str ''1''), (''amount'', Num (num_of_int 5)), (''o'', Str ''p'')]])]
     [(''lines'', plain_field ''lines'' ''o2m'')] ''SUM(lines.amount)'' ''p'' (''lines'', ''l'', ''o'') [] =
   Inr [(''lines'', Obj [(''__rows'', Arr [])])]"
proof -
  let ?env = "demo_env [(''l'', demo_lines)]"
  let ?c = "\<lparr>es_slug = ''l'', es_name = ''l'', es_table = ''l'', es_schema_json = ''l'', es_system = []\<rparr>"
  have 1: "find (\<lambda>c. es_table c = ''l'') (en_collections ?env) = Some ?c" "en_fields ?env (es_schema_json ?c) = Some (co_fields demo_lines)"
    by (simp_all add: demo_env_def demo_lines_def plain_info_def)
  have 2: "''o'' \<notin> set (lookupMemberColumns [''SUM(lines.amount)''] ''lines'')" by code_simp
  have 3: "object_proto_get ''o'' = Undef" by code_simp
  show ?thesis
    by (subst one_to_many_lookup_is_empty [OF 1 2 _ 3]) (simp_all add: amap_has_def buildLookupScope_def uniq_def)
qed

section \<open>Encryption\<close>

text \<open>What the two directions of the cipher promise each other; base64 has no colon.\<close>

definition sound_cipher :: "cipher \<Rightarrow> bool" where
  "sound_cipher cy \<longleftrightarrow> (\<forall>p iv ct. cy_encrypt cy p = Inr (iv, ct) \<longrightarrow>
     cy_decrypt cy iv ct = Inr p \<and> CHR '':'' \<notin> set iv \<and> CHR '':'' \<notin> set ct)"

lemma split_acc_skip:
  "d \<notin> set a \<Longrightarrow> split_acc d acc (a @ d # r) = (rev acc @ a) # split_acc d [] r" "d \<notin> set a \<Longrightarrow> split_acc d acc a = [rev acc @ a]"
  by (induction a arbitrary: acc) auto

lemma decrypt_encrypt: "sound_cipher cy \<Longrightarrow> p \<noteq> [] \<Longrightarrow> encrypt cy p = Inr c \<Longrightarrow> isEncrypted c \<and> decrypt cy c = p"
proof -
  assume cy: "sound_cipher cy" and p: "p \<noteq> []" and "encrypt cy p = Inr c"
  then obtain iv ct where e: "cy_encrypt cy p = Inr (iv, ct)" and c: "c = ENCRYPTION_VERSION @ '':'' @ iv @ '':'' @ ct"
    by (auto simp: encrypt_def bindR_Inr_iff)
  have s: "cy_decrypt cy iv ct = Inr p" "CHR '':'' \<notin> set iv" "CHR '':'' \<notin> set ct" using cy e by (auto simp: sound_cipher_def)
  have "split_on CHR '':'' c = [ENCRYPTION_VERSION, iv, ct]"
    using s by (simp add: c ENCRYPTION_VERSION_def split_on_def split_acc_skip)
  then show ?thesis using s(1) c by (simp add: decrypt_def isEncrypted_def ENCRYPTION_VERSION_def)
qed

text \<open>What is read back of a column.\<close>

definition opened :: "cipher \<Rightarrow> jsval option \<Rightarrow> jsval option" where
  "opened cy v = (case v of Some (Str s) \<Rightarrow> Some (Str (if isEncrypted s then decrypt cy s else s)) | _ \<Rightarrow> v)"

lemma obj_get_text: "obj_get m k = Str s \<Longrightarrow> map_of m k = Some (Str s)"
  by (auto simp: obj_get_def object_proto_get_def native_func_def split: option.splits if_splits)

lemma decrypt_field_lookup:
  "map_of (decrypt_field cy f row) k = (if fd_encrypted f \<and> k = fd_name f then opened cy (map_of row k) else map_of row k)"
proof (cases "fd_encrypted f \<and> k = fd_name f")
  case True
  show ?thesis
  proof (cases "map_of row k")
    case (Some v) then show ?thesis using True by (cases v) (auto simp: decrypt_field_def opened_def obj_get_def)
  next
    case None
    then have "\<nexists>s. obj_get row k = Str s" using obj_get_text by fastforce
    then show ?thesis using True None by (auto simp: decrypt_field_def opened_def split: jsval.splits)
  qed
qed (auto simp: decrypt_field_def split: jsval.splits)

lemma encrypt_field_lookup:
  assumes "sound_cipher cy" "encrypt_field cy f row = Inr row'"
  shows "(k \<noteq> fd_name f \<or> \<not> fd_encrypted f \<longrightarrow> map_of row' k = map_of row k) \<and>
    (fd_encrypted f \<longrightarrow> opened cy (map_of row' (fd_name f)) = map_of row (fd_name f))"
proof (cases "fd_encrypted f")
  case True
  show ?thesis
  proof (cases "\<exists>s. obj_get row (fd_name f) = Str s \<and> s \<noteq> []")
    case enc: True
    then obtain s c where s: "obj_get row (fd_name f) = Str s" "s \<noteq> []" and c: "encrypt cy s = Inr c" and r: "row' = amap_set (fd_name f) (Str c) row"
      using assms(2) True by (auto simp: encrypt_field_def bindR_Inr_iff)
    then show ?thesis using decrypt_encrypt [OF assms(1) s(2) c] obj_get_text [OF s(1)] True by (simp add: opened_def)
  next
    case False
    then have r: "row' = row" using assms(2) by (auto simp: encrypt_field_def split: jsval.splits if_splits)
    have "opened cy (map_of row (fd_name f)) = map_of row (fd_name f)"
    proof (cases "map_of row (fd_name f)")
      case (Some v)
      then have "v = Str s \<Longrightarrow> s = []" for s using False by (simp add: obj_get_def)
      then show ?thesis using Some by (cases v) (simp_all add: opened_def isEncrypted_def ENCRYPTION_VERSION_def)
    qed (simp add: opened_def)
    then show ?thesis using r by simp
  qed
qed (use assms(2) in \<open>simp add: encrypt_field_def\<close>)

lemma encrypt_fields_lookup:
  assumes "sound_cipher cy" "foldR (encrypt_field cy) fs row = Inr row'" "distinct (map fd_name fs)"
  shows "(if k \<in> fd_name ` {f \<in> set fs. fd_encrypted f} then opened cy (map_of row' k) else map_of row' k) = map_of row k"
  using assms(2,3)
proof (induction fs arbitrary: row)
  case (Cons f fs)
  then obtain r where r: "encrypt_field cy f row = Inr r" "foldR (encrypt_field cy) fs r = Inr row'" by (auto simp: bindR_Inr_iff)
  note here = encrypt_field_lookup [OF assms(1) r(1), of k] and later = Cons.IH [OF r(2)]
  show ?case
  proof (cases "fd_encrypted f \<and> k = fd_name f")
    case True
    then have "k \<notin> fd_name ` {f \<in> set fs. fd_encrypted f}" using Cons.prems(2) by auto
    then show ?thesis using True here later Cons.prems(2) by auto
  next
    case False
    then have "map_of r k = map_of row k" using here by auto
    moreover have "k \<in> fd_name ` {g \<in> set (f # fs). fd_encrypted g} \<longleftrightarrow> k \<in> fd_name ` {g \<in> set fs. fd_encrypted g}" using False by auto
    ultimately show ?thesis using later Cons.prems(2) by simp
  qed
qed simp

lemma decrypt_fields_lookup:
  "distinct (map fd_name fs) \<Longrightarrow> map_of (fold (decrypt_field cy) fs row) k =
     (if k \<in> fd_name ` {f \<in> set fs. fd_encrypted f} then opened cy (map_of row k) else map_of row k)"
proof (induction fs arbitrary: row)
  case (Cons f fs)
  show ?case
  proof (cases "fd_encrypted f \<and> k = fd_name f")
    case True
    then have "k \<notin> fd_name ` {g \<in> set fs. fd_encrypted g}" using Cons.prems by auto
    then show ?thesis using True Cons by (auto simp: decrypt_field_lookup)
  next
    case False
    then have "k \<in> fd_name ` {g \<in> set (f # fs). fd_encrypted g} \<longleftrightarrow> k \<in> fd_name ` {g \<in> set fs. fd_encrypted g}" by auto
    then show ?thesis using False Cons by (auto simp: decrypt_field_lookup)
  qed
qed simp

text \<open>
  C32. Encrypted fields read back. What \<open>encryptFields\<close> makes of a row, \<open>decryptFields\<close> turns into the row again,
  column by column: texts that look encrypted, empty texts and values that are no texts included.
\<close>

theorem decrypt_encrypt_round_trip:
  assumes "sound_cipher cy" "encryptFields cy row fs = Inr row'" "distinct (map fd_name fs)" "amap_ok row"
  shows "map_of (decryptFields cy row' fs) k = map_of row k"
proof -
  have spread: "map_of (obj_spread [] m) k = map_of m k" if "amap_ok m" for m
    using obj_spread_lookup [OF that, of "[]" k] by (simp split: option.splits)
  have e: "foldR (encrypt_field cy) fs (obj_spread [] row) = Inr row'" using assms(2) by (simp add: encryptFields_def)
  have ok: "amap_ok row'"
  proof -
    have "amap_ok r'" if "foldR (encrypt_field cy) gs r = Inr r'" "amap_ok r" for gs r r'
      using that by (induction gs arbitrary: r) (auto simp: bindR_Inr_iff encrypt_field_def split: if_splits jsval.splits)
    then show ?thesis using e obj_spread_ok by (metis amap_ok_empty)
  qed
  show ?thesis
    using encrypt_fields_lookup [OF assms(1) e assms(3), of k]
    unfolding decryptFields_def decrypt_fields_lookup [OF assms(3)] spread [OF ok] spread [OF assms(4)] .
qed

text \<open>A cipher that reverses the text, under a fixed nonce.\<close>

theorem decrypt_encrypt_round_trip_witness:
  "\<exists>row'. encryptFields \<lparr>cy_encrypt = (\<lambda>p. if CHR '':'' \<in> set p then throw p else Inr (''n'', rev p)), cy_decrypt = (\<lambda>n c. Inr (rev c))\<rparr>
      [(''iban'', Str ''MM12''), (''n'', Null)] [(plain_field ''iban'' ''text'')\<lparr>fd_encrypted := True\<rparr>] = Inr row' \<and>
    map_of row' ''iban'' = Some (Str ''v1:n:21MM'') \<and>
    map_of (decryptFields \<lparr>cy_encrypt = (\<lambda>p. if CHR '':'' \<in> set p then throw p else Inr (''n'', rev p)), cy_decrypt = (\<lambda>n c. Inr (rev c))\<rparr>
      row' [(plain_field ''iban'' ''text'')\<lparr>fd_encrypted := True\<rparr>]) ''iban'' = Some (Str ''MM12'')"
proof -
  let ?cy = "\<lparr>cy_encrypt = (\<lambda>p. if CHR '':'' \<in> set p then throw p else Inr (''n'', rev p)), cy_decrypt = (\<lambda>n c. Inr (rev c))\<rparr>"
  let ?fs = "[(plain_field ''iban'' ''text'')\<lparr>fd_encrypted := True\<rparr>]" and ?row = "[(''iban'', Str ''MM12''), (''n'', Null)]"
  have cy: "sound_cipher ?cy" by (auto simp: sound_cipher_def split: if_splits)
  have run: "encryptFields ?cy ?row ?fs = Inr [(''iban'', Str ''v1:n:21MM''), (''n'', Null)]" by code_simp
  have "map_of (decryptFields ?cy [(''iban'', Str ''v1:n:21MM''), (''n'', Null)] ?fs) ''iban'' = Some (Str ''MM12'')"
    using decrypt_encrypt_round_trip [OF cy run, of "''iban''"] by (simp add: amap_ok_def)
  then show ?thesis using run by auto
qed

end
