(* ===== verification/RelationClaims.thy ===== *)
theory RelationClaims
  imports ChildTables
begin

text \<open>
  The properties of the relation resolver and of child tables: what is fetched in batches is what single
  lookups would find, and a saved child table is what the payload lists.
\<close>

section \<open>Many-to-one references\<close>

text \<open>The specification: one lookup for one reference.\<close>

definition reference_of :: "(string \<Rightarrow> jsval res) \<Rightarrow> string list option \<Rightarrow> string \<Rightarrow> store \<Rightarrow> string \<Rightarrow> jsobj option" where
  "reference_of parse cols t db k = (if k = [] then None
     else map_option (\<lambda>r. mergeRowData parse (project cols r)) (find (\<lambda>r. col_in ''id'' [k] r \<and> live r) (rows_of db t)))"

definition put_reference :: "(string \<Rightarrow> jsobj option) \<Rightarrow> string \<Rightarrow> jsobj \<Rightarrow> jsobj" where
  "put_reference ref f item = (case obj_get item f of
     Str k \<Rightarrow> amap_set f (case ref k of Some r \<Rightarrow> Obj r | None \<Rightarrow> Null) item
   | _ \<Rightarrow> item)"

text \<open>What the batches rely on: the live rows of a table have distinct ids, and a projection keeps the id.\<close>

definition ids_distinct :: "store \<Rightarrow> string \<Rightarrow> bool" where
  "ids_distinct db t \<longleftrightarrow> distinct (map row_id (filter live (rows_of db t)))"

definition keeps_id :: "string list option \<Rightarrow> bool" where
  "keeps_id cols \<longleftrightarrow> (case cols of Some (c # cs) \<Rightarrow> ''id'' \<in> set (c # cs) | _ \<Rightarrow> True)"

lemma project_id: "keeps_id cols \<Longrightarrow> map_of r ''id'' = Some v \<Longrightarrow> map_of (project cols r) ''id'' = Some v"
proof -
  assume cols: "keeps_id cols" and v: "map_of r ''id'' = Some v"
  show ?thesis
  proof (cases "\<exists>c cs. cols = Some (c # cs)")
    case True
    then obtain c cs where c: "cols = Some (c # cs)" by blast
    have "map_of (map (\<lambda>c. (c, g c)) xs) k = (if k \<in> set xs then Some (g k) else None)" for g :: "string \<Rightarrow> jsval" and xs k
      by (induction xs) auto
    note at = this [of "\<lambda>c. case map_of r c of Some v \<Rightarrow> v | None \<Rightarrow> Null" "c # cs" "''id''"]
    have "project cols r = map (\<lambda>c. (c, case map_of r c of Some v \<Rightarrow> v | None \<Rightarrow> Null)) (c # cs)" by (simp add: c project_def)
    moreover have "''id'' \<in> set (c # cs)" using cols c by (simp add: keeps_id_def)
    ultimately show ?thesis using at v by (simp only: if_True option.case)
  qed (use v in \<open>auto simp: project_def split: option.splits list.splits\<close>)
qed

lemma find_filter: "find P (filter Q xs) = find (\<lambda>x. Q x \<and> P x) xs"
  by (induction xs) auto

lemma map_of_keyed: "map_of (map (\<lambda>r. (key r, g r)) rows) k = map_option g (find (\<lambda>r. key r = k) rows)"
  by (induction rows) auto

lemma fetched_reference:
  assumes m: "fetch_targets parse t ids cols db = Inr m" and k: "k \<in> set ids \<or> k = []" and ids: "[] \<notin> set ids"
    and d: "ids_distinct db t" and cols: "keeps_id cols"
  shows "map_of m k = reference_of parse cols t db k"
proof (cases "ids = []")
  case True
  then show ?thesis using m k by (simp add: fetch_targets_def reference_of_def)
next
  case False
  let ?rows = "filter (\<lambda>r. col_in ''id'' ids r \<and> live r) (rows_of db t)" and ?g = "\<lambda>r. mergeRowData parse (project cols r)"
  have key: "map_of r ''id'' = Some (Str (row_id r)) \<and> row_id r \<in> set ids" if "r \<in> set ?rows" for r
    using that by (auto simp: col_in_iff row_id_def)
  have "to_str (obj_get (project cols r) ''id'') = row_id r" if "r \<in> set ?rows" for r
    using project_id [OF cols] key [OF that] by (simp add: obj_get_def)
  then have eq: "map (\<lambda>r. let p = project cols r in (to_str (obj_get p ''id''), mergeRowData parse p)) ?rows = map (\<lambda>r. (row_id r, ?g r)) ?rows"
    by (simp add: Let_def)
  have "m = amap_of (map (\<lambda>r. let p = project cols r in (to_str (obj_get p ''id''), mergeRowData parse p)) ?rows)"
    using m False by (simp add: fetch_targets_def select_rows_def bindR_Inr_iff split: if_splits)
  then have m': "m = amap_of (map (\<lambda>r. (row_id r, ?g r)) ?rows)" unfolding eq .
  have "?rows = filter (\<lambda>r. col_in ''id'' ids r) (filter live (rows_of db t))" by (simp add: conj_commute)
  then have "distinct (map row_id ?rows)" using d by (metis distinct_map_filter ids_distinct_def)
  then have "map_of m k = map_option ?g (find (\<lambda>r. row_id r = k) ?rows)"
    unfolding m' by (subst amap_of_distinct) (simp_all add: map_of_keyed comp_def)
  also have "find (\<lambda>r. row_id r = k) ?rows = (if k = [] then None else find (\<lambda>r. col_in ''id'' [k] r \<and> live r) (rows_of db t))"
  proof (cases "k = []")
    case True
    have "row_id r \<noteq> []" if "r \<in> set ?rows" for r using key [OF that] ids by metis
    then show ?thesis using True by (auto simp: find_None_iff)
  next
    case False
    have "find (\<lambda>r. row_id r = k) ?rows = find (\<lambda>r. (col_in ''id'' ids r \<and> live r) \<and> row_id r = k) (rows_of db t)"
      by (rule find_filter)
    also have "\<dots> = find (\<lambda>r. col_in ''id'' [k] r \<and> live r) (rows_of db t)"
      using k False by (intro find_cong) (auto simp: col_in_iff row_id_def split: option.splits jsval.splits)
    finally show ?thesis using False by simp
  qed
  finally show ?thesis by (simp add: reference_of_def)
qed

lemma obj_get_other: "g \<noteq> f \<Longrightarrow> obj_get (amap_set f v m) g = obj_get m g"
  by (simp add: obj_get_def)

lemma m2o_ids_set: "(f, t) \<in> set rels \<Longrightarrow> item \<in> set items \<Longrightarrow> obj_get item f = Str k \<Longrightarrow> k \<noteq> [] \<Longrightarrow> k \<in> set (m2o_ids items rels t)"
  unfolding m2o_ids_def uniq_set by (force simp: str_id_def)

lemma m2o_ids_nonempty: "[] \<notin> set (m2o_ids items rels t)"
  by (auto simp: m2o_ids_def str_id_def split: jsval.splits if_splits)

text \<open>
  C29. Expanding a page of rows with one query per table gives what one lookup per reference gives. Every
  reference becomes the live row it names, read through the projection of its table, or null; two fields
  into the same table share a query; values that are no texts stay.
\<close>

theorem batched_references_are_single_lookups:
  assumes run: "resolveM2O parse items rels byTable db = Inr items'"
    and names: "distinct (map fst rels)" and ids: "\<forall>(f, t) \<in> set rels. ids_distinct db t \<and> keeps_id (table_columns byTable t)"
  shows "items' = map (fold (\<lambda>(f, t). put_reference (reference_of parse (table_columns byTable t) t db) f) rels) items"
proof (cases "items = [] \<or> rels = []")
  case True
  then show ?thesis using run by (auto simp: resolveM2O_def)
next
  case False
  let ?fetch = "\<lambda>t. fetch_targets parse t (m2o_ids items rels t) (table_columns byTable t) db"
  obtain lookups where l: "mapR (\<lambda>t. bindR (?fetch t) (\<lambda>m. Inr (t, m))) (uniq (map snd rels)) = Inr lookups"
    and items': "items' = fold (\<lambda>(f, t). map (put_m2o (case map_of lookups t of Some m \<Rightarrow> m | None \<Rightarrow> []) f)) rels items"
    using run False by (auto simp: resolveM2O_def bindR_Inr_iff)
  let ?L = "\<lambda>t. case map_of lookups t of Some m \<Rightarrow> m | None \<Rightarrow> []" and ?R = "\<lambda>t. reference_of parse (table_columns byTable t) t db"
  have "\<exists>m. map_of ls t = Some m \<and> ?fetch t = Inr m"
    if "mapR (\<lambda>t. bindR (?fetch t) (\<lambda>m. Inr (t, m))) ts = Inr ls" "t \<in> set ts" for ts ls t
    using that by (induction ts arbitrary: ls) (auto simp: bindR_Inr_iff)
  then have here: "?fetch t = Inr (?L t)" if "(f, t) \<in> set rels" for f t using l that by (force simp: image_iff)
  have one: "put_m2o (?L t) f it = put_reference (?R t) f it"
    if "(f, t) \<in> set rels" "item \<in> set items" "obj_get it f = obj_get item f" for f t item it
  proof (cases "obj_get it f")
    case (Str k)
    have "k \<in> set (m2o_ids items rels t) \<or> k = []" using m2o_ids_set [OF that(1,2)] that(3) Str by metis
    from fetched_reference [OF here [OF that(1)] this m2o_ids_nonempty] ids that(1) have "map_of (?L t) k = ?R t k" by fast
    then show ?thesis using Str by (simp add: put_m2o_def put_reference_def)
  qed (simp_all add: put_m2o_def put_reference_def)
  have all: "fold (\<lambda>(f, t). put_m2o (?L t) f) rs it = fold (\<lambda>(f, t). put_reference (?R t) f) rs it"
    if "set rs \<subseteq> set rels" "distinct (map fst rs)" "item \<in> set items" "\<forall>f \<in> fst ` set rs. obj_get it f = obj_get item f" for rs it item
    using that
  proof (induction rs arbitrary: it)
    case (Cons r rs)
    obtain f t where r: "r = (f, t)" by fastforce
    have step: "put_m2o (?L t) f it = put_reference (?R t) f it" using Cons.prems r by (intro one) auto
    have "obj_get (put_reference (?R t) f it) g = obj_get item g" if "g \<in> fst ` set rs" for g
    proof -
      have "g \<noteq> f" "obj_get it g = obj_get item g" using Cons.prems(2,4) r that by auto
      then show ?thesis by (cases "obj_get it f") (simp_all add: put_reference_def obj_get_other)
    qed
    then have "fold (\<lambda>(f, t). put_m2o (?L t) f) rs (put_reference (?R t) f it) = fold (\<lambda>(f, t). put_reference (?R t) f) rs (put_reference (?R t) f it)"
      using Cons.prems r by (intro Cons.IH) auto
    then show ?case using r step by simp
  qed simp
  have swap: "fold (\<lambda>(f, t). map (h t f)) rs xs = map (fold (\<lambda>(f, t). h t f) rs) xs" for h :: "string \<Rightarrow> string \<Rightarrow> jsobj \<Rightarrow> jsobj" and rs xs
    by (induction rs arbitrary: xs) (auto simp: comp_def)
  show ?thesis
    unfolding items' swap
  proof (rule map_cong [OF refl])
    fix x assume "x \<in> set items"
    then show "fold (\<lambda>(f, t). put_m2o (?L t) f) rels x = fold (\<lambda>(f, t). put_reference (?R t) f) rels x"
      by (intro all [where item = x]) (simp_all add: names)
  qed
qed

text \<open>Two references into one table: a live row and a trashed one.\<close>

theorem batched_references_are_single_lookups_witness:
  "resolveM2O (\<lambda>s. throw s) [[(''id'', Str ''o''), (''a'', Str ''1''), (''b'', Str ''2'')]] [(''a'', ''t''), (''b'', ''t'')] []
     [(''t'', [[(''id'', Str ''1'')], [(''id'', Str ''2''), (''deleted_at'', Str ''d'')]])] =
   Inr [[(''id'', Str ''o''), (''a'', Obj [(''id'', Str ''1'')]), (''b'', Null)]]"
proof -
  let ?items = "[[(''id'', Str ''o''), (''a'', Str ''1''), (''b'', Str ''2'')]]" and ?rels = "[(''a'', ''t''), (''b'', ''t'')]"
  let ?db = "[(''t'', [[(''id'', Str ''1'')], [(''id'', Str ''2''), (''deleted_at'', Str ''d'')]])]"
  have "\<exists>items'. resolveM2O (\<lambda>s. throw s) ?items ?rels [] ?db = Inr items'"
    by (simp add: resolveM2O_def fetch_targets_def select_rows_def amap_has_def uniq_def)
  then obtain items' where run: "resolveM2O (\<lambda>s. throw s) ?items ?rels [] ?db = Inr items'" by blast
  have "items' = map (fold (\<lambda>(f, t). put_reference (reference_of (\<lambda>s. throw s) (table_columns [] t) t ?db) f) ?rels) ?items"
    by (rule batched_references_are_single_lookups [OF run])
      (simp_all add: ids_distinct_def keeps_id_def table_columns_def rows_of_def live_def col_null_def is_nullish_def)
  also have "\<dots> = [[(''id'', Str ''o''), (''a'', Obj [(''id'', Str ''1'')]), (''b'', Null)]]" by code_simp
  finally show ?thesis using run by simp
qed

section \<open>Child tables\<close>

lemma coerced_keys:
  "foldR (coerce_child_entry fs) es (c, m) = Inr (c', m') \<Longrightarrow>
     fst ` set c' \<subseteq> fst ` set c \<union> (fd_name ` set fs \<union> set (m2a_columns fs) - set SYSTEM_FIELD_NAMES)"
proof (induction es arbitrary: c m)
  case (Cons e es)
  obtain c1 m1 where 1: "coerce_child_entry fs e (c, m) = Inr (c1, m1)" "foldR (coerce_child_entry fs) es (c1, m1) = Inr (c', m')"
    using Cons.prems by (auto simp: bindR_Inr_iff)
  have "map_of (schema_types fs) k \<noteq> None \<Longrightarrow> k \<in> fd_name ` set fs" for k
    by (auto simp: schema_types_def amap_of_lookup map_of_eq_None_iff)
  then have "c1 = c \<or> (\<exists>v. c1 = amap_set (fst e) v c) \<and> fst e \<in> fd_name ` set fs \<union> set (m2a_columns fs) - set SYSTEM_FIELD_NAMES"
    using 1(1) by (auto simp: coerce_child_entry_def Let_def bindR_Inr_iff split: if_splits option.splits)
  then have "fst ` set c1 \<subseteq> fst ` set c \<union> (fd_name ` set fs \<union> set (m2a_columns fs) - set SYSTEM_FIELD_NAMES)"
    by (elim disjE conjE exE; simp only: amap_set_keys_set) auto
  then show ?case using Cons.IH [OF 1(2)] by blast
qed simp

lemma child_row_columns:
  assumes "child_row env uuid pid fs item = Inr r"
    "''parent_id'' \<notin> fd_name ` set fs" "''parent_id'' \<notin> set (m2a_columns fs)"
  shows "row_id r = uuid \<and> col_in ''parent_id'' [pid] r \<and> live r"
proof -
  obtain c cols meta where c: "foldR (coerce_child_entry fs) (own_entries item) ([], []) = Inr (cols, meta)"
    and cr: "c = (if meta = [] then obj_spread [] cols else amap_set ''_meta'' (json_stringify (Obj meta)) (obj_spread [] cols))"
    and r: "r = obj_spread (obj_spread [(''id'', Str uuid), (''parent_id'', Str pid)] c)
      [(''doc_status'', Str ''draft''), (''created_at'', Str (en_stamp env)), (''updated_at'', Str (en_stamp env))]"
    using assms(1) by (auto simp: child_row_def coerceChildRow_def bindR_Inr_iff)
  have ok: "amap_ok c" unfolding cr by (simp add: obj_spread_ok)
  have none: "map_of c k = None" if "k \<noteq> ''_meta''" "k \<in> set SYSTEM_FIELD_NAMES \<or> k \<notin> fd_name ` set fs \<union> set (m2a_columns fs)" for k
  proof -
    have "k \<notin> fst ` set cols" using coerced_keys [OF c] that by auto
    then have "map_of (obj_spread [] cols) k = None"
      unfolding obj_spread_def by (subst fold_set_lookup) auto
    then show ?thesis using that(1) by (simp add: cr)
  qed
  have r_at: "map_of r k = (case map_of c k of Some v \<Rightarrow> Some v | None \<Rightarrow> map_of [(''id'', Str uuid), (''parent_id'', Str pid)] k)"
    if "k \<notin> {''doc_status'', ''created_at'', ''updated_at''}" for k
    unfolding r using that by (subst obj_spread_lookup, simp add: amap_ok_def) (simp add: obj_spread_lookup [OF ok])
  have "map_of c ''id'' = None" "map_of c ''deleted_at'' = None" by (rule none; simp add: SYSTEM_FIELD_NAMES_def)+
  moreover have "map_of c ''parent_id'' = None" by (rule none) (use assms(2,3) in auto)
  ultimately show ?thesis
    using r_at [of "''id''"] r_at [of "''parent_id''"] r_at [of "''deleted_at''"]
    by (simp add: row_id_def col_in_def live_def col_null_def)
qed

lemma inserted_rows:
  "run_writes (map (InsertRow t) rows) db = Inr db' \<Longrightarrow>
     rows_of db' t' = (if t' = t then rows_of db t @ rows else rows_of db t')"
proof (induction rows arbitrary: db)
  case (Cons r rows)
  then show ?case by (auto split: option.splits if_splits)
qed simp

text \<open>
  C30. Saving a parent makes its child table the one of the payload. When the replacement returns, the table
  holds the rows of the other parents as they were, then one live row for each object of the payload in
  its order, under the parent's id; when it fails nothing has changed; other tables never change. (The
  child collection must not declare a field \<open>parent_id\<close> of its own: the payload would set it.)
\<close>

theorem child_table_mirrors_payload:
  assumes run: "replace_children env pid slug field items w = (r, w')"
    and names: "''parent_id'' \<notin> fd_name ` set (child_fields env slug)" "''parent_id'' \<notin> set (m2a_columns (child_fields env slug))"
  shows "case r of
     Inl e \<Rightarrow> w_store w' = w_store w
   | Inr u \<Rightarrow> (\<forall>t. t \<noteq> target_table env slug \<longrightarrow> rows_of (w_store w') t = rows_of (w_store w) t) \<and>
       (\<exists>rows. rows_of (w_store w') (target_table env slug) =
            filter (\<lambda>x. \<not> col_in ''parent_id'' [pid] x) (rows_of (w_store w) (target_table env slug)) @ rows \<and>
          map row_id rows = map fst (object_items env field items) \<and> (\<forall>x \<in> set rows. col_in ''parent_id'' [pid] x \<and> live x))"
proof -
  let ?t = "target_table env slug" and ?fs = "child_fields env slug" and ?objs = "object_items env field items"
  let ?m = "bindA (liftA (mapR (\<lambda>(uuid, m). child_row env uuid pid ?fs m) ?objs)) (\<lambda>rows.
      bindA (batchA env (DeleteIn ?t ''parent_id'' [pid] # map (InsertRow ?t) rows)) (\<lambda>_. dropReads slug None))"
  obtain q v where q: "?m w = (q, v)" by fastforce
  show ?thesis
  proof (cases q)
    case (Inl e)
    have "w_store v = w_store w"
    proof (cases "mapR (\<lambda>(uuid, m). child_row env uuid pid ?fs m) ?objs")
      case (Inr rows)
      then show ?thesis using q \<open>q = Inl e\<close>
        by (cases "run_batch (en_refuses env) (DeleteIn ?t ''parent_id'' [pid] # map (InsertRow ?t) rows) (w_store w)")
          (auto simp: bindA_def batchA_def dropReads_def)
    qed (use q in \<open>simp add: bindA_def\<close>)
    then show ?thesis using run q Inl by (auto simp: replace_children_def Let_def catchA_def split: if_splits)
  next
    case (Inr u)
    then have rw: "r = Inr u" "w' = v" using run q by (auto simp: replace_children_def Let_def catchA_def)
    obtain rows where rows: "mapR (\<lambda>(uuid, m). child_row env uuid pid ?fs m) ?objs = Inr rows"
      using q Inr by (auto simp: bindA_Inr_iff)
    obtain db where db: "run_batch (en_refuses env) (DeleteIn ?t ''parent_id'' [pid] # map (InsertRow ?t) rows) (w_store w) = Inr db"
      and v: "w_store v = db"
      using q Inr rows
      by (cases "run_batch (en_refuses env) (DeleteIn ?t ''parent_id'' [pid] # map (InsertRow ?t) rows) (w_store w)")
        (auto simp: bindA_def batchA_def dropReads_def)
    have each: "map row_id xs = map fst os \<and> (\<forall>x \<in> set xs. col_in ''parent_id'' [pid] x \<and> live x)"
      if "mapR (\<lambda>(uuid, m). child_row env uuid pid ?fs m) os = Inr xs" for os xs
      using that by (induction os arbitrary: xs) (auto simp: bindR_Inr_iff dest: child_row_columns [OF _ names])
    have "rows_of db t = (if t = ?t then filter (\<lambda>x. \<not> col_in ''parent_id'' [pid] x) (rows_of (w_store w) t) @ rows else rows_of (w_store w) t)" for t
      using run_batch_writes [OF db] inserted_rows [of ?t rows _ db t] by (auto split: option.splits if_splits)
    then show ?thesis using rw v each [OF rows] by auto
  qed
qed

definition demo_child_env :: api_env where
  "demo_child_env = demo_env [(''l'', plain_info ''l'' [plain_field ''q'' ''text''])]"

theorem child_table_mirrors_payload_witness:
  "\<exists>w' r. replace_children demo_child_env ''p'' ''l'' ''lines'' [Obj [(''q'', Str ''2'')]]
       (demo_world [(''l'', [[(''id'', Str ''1''), (''parent_id'', Str ''p'')], [(''id'', Str ''2''), (''parent_id'', Str ''z'')]])]) = (Inr (), w') \<and>
     rows_of (w_store w') ''l'' = [[(''id'', Str ''2''), (''parent_id'', Str ''z'')], r] \<and> col_in ''parent_id'' [''p''] r"
proof -
  let ?w = "demo_world [(''l'', [[(''id'', Str ''1''), (''parent_id'', Str ''p'')], [(''id'', Str ''2''), (''parent_id'', Str ''z'')]])]"
  let ?items = "[Obj [(''q'', Str ''2'')]]"
  have "fst (replace_children demo_child_env ''p'' ''l'' ''lines'' ?items ?w) = Inr ()" by code_simp
  then obtain w' where run: "replace_children demo_child_env ''p'' ''l'' ''lines'' ?items ?w = (Inr (), w')" by (metis prod.collapse)
  have names: "''parent_id'' \<notin> fd_name ` set (child_fields demo_child_env ''l'')" "''parent_id'' \<notin> set (m2a_columns (child_fields demo_child_env ''l''))"
    by code_simp+
  have t: "target_table demo_child_env ''l'' = ''l''" by code_simp
  have old: "rows_of (w_store ?w) ''l'' = [[(''id'', Str ''1''), (''parent_id'', Str ''p'')], [(''id'', Str ''2''), (''parent_id'', Str ''z'')]]"
    by (simp add: demo_world_def rows_of_def)
  have objs: "length (object_items demo_child_env ''lines'' ?items) = 1" by (simp add: object_items_def)
  obtain rows where rows: "rows_of (w_store w') ''l'' = filter (\<lambda>x. \<not> col_in ''parent_id'' [''p''] x) (rows_of (w_store ?w) ''l'') @ rows"
    and ids: "map row_id rows = map fst (object_items demo_child_env ''lines'' ?items)" and own: "\<forall>x \<in> set rows. col_in ''parent_id'' [''p''] x \<and> live x"
    using child_table_mirrors_payload [OF run names] unfolding t by auto
  have "length rows = 1" using arg_cong [OF ids, of length] objs by simp
  then obtain r where "rows = [r]" by (auto simp: length_Suc_conv)
  then show ?thesis using run rows own unfolding old by (simp add: col_in_def)
qed

end
