(* ===== verification/ApprovalFlow.thy ===== *)
theory ApprovalFlow
  imports WriteGuards
begin

text \<open>
  \<open>apps/api/src/lib/services/workflow.service.ts\<close>: multi-level approvals. Submitting a draft opens one slot per
  level that applies; each approval decides the lowest open slot, the last one approves the document; a
  rejection closes the open slots. The slots are the rows of \<open>_approvals\<close>.
\<close>

section \<open>Workflows and slots\<close>

record flow_level =
  lv_label :: string
  lv_role :: string
  lv_amount_field :: "string option"
  lv_threshold :: "jsnum option"

record approval_workflow =
  wk_enabled :: bool
  wk_name :: string
  wk_levels :: "flow_level list"

record approval_slot =
  as_id :: string
  as_collection :: string
  as_document :: string
  as_level :: nat
  as_label :: string
  as_role :: string
  as_amount :: "jsnum option"
  as_status :: string
  as_by :: string
  as_comment :: "string option"
  as_at :: "string option"
  as_created :: string
  as_updated :: string

record approval_world =
  aw_api :: api_world
  aw_slots :: "approval_slot list"

text \<open>\<open>ae_workflow\<close> is the member \<open>workflow\<close> of a parsed \<open>schema_json\<close>, none where the text does not parse.\<close>

record approval_env =
  ae_api :: api_env
  ae_workflow :: "string \<Rightarrow> approval_workflow option"

definition apiA :: "'a api \<Rightarrow> ('a, approval_world) act" where
  "apiA m w = (let (r, a) = m (aw_api w) in (r, w\<lparr>aw_api := a\<rparr>))"

definition slotsA :: "(approval_slot list \<Rightarrow> approval_slot list) \<Rightarrow> (unit, approval_world) act" where
  "slotsA f = writeA (\<lambda>w. w\<lparr>aw_slots := f (aw_slots w)\<rparr>)"

definition level_value :: "string \<Rightarrow> jsobj \<Rightarrow> jsnum" where
  "level_value f row = to_num (obj_get row f)"

definition amountValue :: "jsobj \<Rightarrow> flow_level \<Rightarrow> jsnum option" where
  "amountValue row lv = (case lv_amount_field lv of
     Some (c # f) \<Rightarrow> (let v = level_value (c # f) row in if is_finite_num v then Some v else None)
   | _ \<Rightarrow> None)"

definition effectiveLevels :: "approval_workflow \<Rightarrow> jsobj \<Rightarrow> flow_level list" where
  "effectiveLevels flow row = filter (\<lambda>lv. case lv_threshold lv of
     None \<Rightarrow> True
   | Some threshold \<Rightarrow> (case lv_amount_field lv of
       Some (c # f) \<Rightarrow> (let v = level_value (c # f) row in is_finite_num v \<and> num_lt threshold v)
     | _ \<Rightarrow> True)) (wk_levels flow)"

section \<open>Shared steps\<close>

definition get_info :: "approval_env \<Rightarrow> string \<Rightarrow> (string \<times> approval_workflow option) res" where
  "get_info env slug = (case find (\<lambda>s. es_slug s = slug) (en_collections (ae_api env)) of
     None \<Rightarrow> not_found ''Collection'' slug
   | Some s \<Rightarrow> Inr (es_table s, case ae_workflow env (es_schema_json s) of
       Some flow \<Rightarrow> if wk_enabled flow then Some flow else None | None \<Rightarrow> None))"

definition getWorkflow :: "approval_env \<Rightarrow> string \<Rightarrow> approval_workflow option res" where
  "getWorkflow env slug = map_sum id snd (get_info env slug)"

definition fetch_document :: "string \<Rightarrow> string \<Rightarrow> (jsobj, approval_world) act" where
  "fetch_document table i w = (case select_rows table (col_in ''id'' [i]) (w_store (aw_api w)) of
     Inl e \<Rightarrow> (Inl e, w) | Inr [] \<Rightarrow> (not_found ''Item'' i, w) | Inr (r # rs) \<Rightarrow> (Inr r, w))"

definition is_open :: "string \<Rightarrow> string \<Rightarrow> approval_slot \<Rightarrow> bool" where
  "is_open slug i s \<longleftrightarrow> as_collection s = slug \<and> as_document s = i \<and> as_status s = ''pending''"

definition set_doc_status :: "approval_env \<Rightarrow> string \<Rightarrow> string \<Rightarrow> string \<Rightarrow> string \<Rightarrow> (unit, approval_world) act" where
  "set_doc_status env slug table i status = apiA (bindA
     (batchA (ae_api env) [UpdateIn table ''id'' [i] [(''doc_status'', Str status), (''updated_at'', Str (en_stamp (ae_api env)))]])
     (\<lambda>_. dropReads slug (Some i)))"

definition decided :: "string \<Rightarrow> string \<Rightarrow> jsobj \<Rightarrow> string \<Rightarrow> (jsobj, approval_world) act" where
  "decided slug i before status =
     (let action = (if status = ''rejected'' then ''reject'' else if status = ''approved'' then ''approve'' else ''submit'');
          doc = obj_spread before [(''doc_status'', Str status)]
      in bindA (apiA (logA (Audited slug i action doc))) (\<lambda>_. retA doc))"

section \<open>Submit\<close>

definition new_slot :: "approval_env \<Rightarrow> string \<Rightarrow> string \<Rightarrow> jsobj \<Rightarrow> nat \<Rightarrow> flow_level \<Rightarrow> approval_slot" where
  "new_slot env slug i row n lv =
     \<lparr>as_id = en_uuid (ae_api env) (''approval:'' @ show_nat n), as_collection = slug, as_document = i, as_level = n,
      as_label = lv_label lv, as_role = lv_role lv, as_amount = amountValue row lv, as_status = ''pending'', as_by = [],
      as_comment = None, as_at = None, as_created = en_stamp (ae_api env), as_updated = en_stamp (ae_api env)\<rparr>"

definition open_round :: "approval_env \<Rightarrow> string \<Rightarrow> string \<Rightarrow> jsobj \<Rightarrow> flow_level list \<Rightarrow> (unit, approval_world) act" where
  "open_round env slug i row levels =
     bindA (slotsA (filter (\<lambda>s. \<not> is_open slug i s))) (\<lambda>_.
     eachA (\<lambda>(n, lv). slotsA (\<lambda>ss. ss @ [new_slot env slug i row n lv])) (enumerate 1 levels))"

definition submit :: "approval_env \<Rightarrow> string \<Rightarrow> string \<Rightarrow> (jsobj, approval_world) act" where
  "submit env slug i =
     bindA (liftA (get_info env slug)) (\<lambda>(table, flow).
     bindA (fetch_document table i) (\<lambda>row.
     if current_status row \<noteq> ''draft''
     then liftA (validation_error (''Only draft documents can be submitted (current: '' @ quoted (current_status row) @ '')''))
     else bindA (apiA (may_business (ae_api env) slug ''submit'')) (\<lambda>_.
       let levels = (case flow of Some flow \<Rightarrow> effectiveLevels flow row | None \<Rightarrow> []) in
       if levels = [] then bindA (set_doc_status env slug table i ''submitted'') (\<lambda>_. decided slug i row ''submitted'')
       else bindA (open_round env slug i row levels) (\<lambda>_.
         bindA (set_doc_status env slug table i ''pending_review'') (\<lambda>_. decided slug i row ''pending_review'')))))"

section \<open>Decisions\<close>

text \<open>\<open>ORDER BY level ASC LIMIT 1\<close>.\<close>

fun lowest_slot :: "approval_slot list \<Rightarrow> approval_slot option" where
  "lowest_slot [] = None"
| "lowest_slot (s # ss) = (case lowest_slot ss of
     Some t \<Rightarrow> if as_level t < as_level s then Some t else Some s | None \<Rightarrow> Some s)"

definition trimmed_comment :: "string option \<Rightarrow> string option" where
  "trimmed_comment c = (case c of Some t \<Rightarrow> if trim t = [] then None else Some (trim t) | None \<Rightarrow> None)"

text \<open>What an approval checks before it writes, and what it writes then; \<open>approved_by\<close> refuses a null.\<close>

definition approve_check :: "approval_env \<Rightarrow> string \<Rightarrow> string \<Rightarrow> (string \<times> jsobj \<times> approval_slot, approval_world) act" where
  "approve_check env slug i =
     bindA (liftA (get_info env slug)) (\<lambda>(table, _).
     bindA (fetch_document table i) (\<lambda>row.
     if obj_get row ''doc_status'' \<noteq> Str ''pending_review''
     then liftA (validation_error (''Only documents pending review can be approved (current: '' @ quoted (to_str (obj_get row ''doc_status'')) @ '')''))
     else bindA (readA (\<lambda>w. lowest_slot (filter (is_open slug i) (aw_slots w)))) (\<lambda>slot. case slot of
         None \<Rightarrow> liftA (validation_error ''This document has no pending approval level'')
       | Some s \<Rightarrow> (case en_auth (ae_api env) of
           Some a \<Rightarrow> if \<not> au_is_admin a \<and> au_role_name a \<noteq> as_role s
             then liftA (forbidden (''Only users with the '' @ quoted (as_role s) @ '' role can approve this level''))
             else retA (table, row, s)
         | None \<Rightarrow> retA (table, row, s)))))"

definition approved_by_user :: "approval_env \<Rightarrow> string option \<Rightarrow> auth_context \<Rightarrow> approval_slot \<Rightarrow> approval_slot" where
  "approved_by_user env comment a t = t\<lparr>as_status := ''approved'', as_by := au_user_id a, as_comment := trimmed_comment comment,
     as_at := Some (en_stamp (ae_api env)), as_updated := en_stamp (ae_api env)\<rparr>"

definition approve_slot :: "approval_env \<Rightarrow> string option \<Rightarrow> approval_slot \<Rightarrow> (unit, approval_world) act" where
  "approve_slot env comment s = (case en_auth (ae_api env) of
     None \<Rightarrow> liftA (throw ''NOT NULL constraint failed: _approvals.approved_by'')
   | Some a \<Rightarrow> slotsA (map (\<lambda>t. if as_id t = as_id s then approved_by_user env comment a t else t)))"

definition approve_commit :: "approval_env \<Rightarrow> string \<Rightarrow> string \<Rightarrow> string option \<Rightarrow> string \<times> jsobj \<times> approval_slot
    \<Rightarrow> (jsobj, approval_world) act" where
  "approve_commit env slug i comment = (\<lambda>(table, row, s).
     bindA (approve_slot env comment s) (\<lambda>_.
     bindA (readA (\<lambda>w. filter (is_open slug i) (aw_slots w))) (\<lambda>rest.
     let status = (if rest = [] then ''approved'' else ''pending_review'') in
     bindA (set_doc_status env slug table i status) (\<lambda>_. decided slug i row status))))"

definition approve :: "approval_env \<Rightarrow> string \<Rightarrow> string \<Rightarrow> string option \<Rightarrow> (jsobj, approval_world) act" where
  "approve env slug i comment = bindA (approve_check env slug i) (approve_commit env slug i comment)"

definition closed_slot :: "approval_env \<Rightarrow> string \<Rightarrow> string \<Rightarrow> string option \<Rightarrow> approval_slot \<Rightarrow> approval_slot" where
  "closed_slot env slug i comment s = (if is_open slug i s
     then s\<lparr>as_status := ''rejected'', as_comment := trimmed_comment comment, as_updated := en_stamp (ae_api env)\<rparr> else s)"

definition reject :: "approval_env \<Rightarrow> string \<Rightarrow> string \<Rightarrow> string option \<Rightarrow> (jsobj, approval_world) act" where
  "reject env slug i comment =
     bindA (liftA (get_info env slug)) (\<lambda>(table, _).
     bindA (fetch_document table i) (\<lambda>row.
     if obj_get row ''doc_status'' \<noteq> Str ''pending_review''
     then liftA (validation_error (''Only documents pending review can be rejected (current: '' @ quoted (to_str (obj_get row ''doc_status'')) @ '')''))
     else bindA (slotsA (map (closed_slot env slug i comment))) (\<lambda>_.
       bindA (set_doc_status env slug table i ''rejected'') (\<lambda>_. decided slug i row ''rejected''))))"

definition getApprovals :: "approval_env \<Rightarrow> string \<Rightarrow> string \<Rightarrow> (approval_slot list, approval_world) act" where
  "getApprovals env slug i = bindA (liftA (get_info env slug)) (\<lambda>_.
     readA (\<lambda>w. sort_key as_level (filter (\<lambda>s. as_collection s = slug \<and> as_document s = i) (aw_slots w))))"

lemma slotsA_run [simp]: "slotsA f w = (Inr (), w\<lparr>aw_slots := f (aw_slots w)\<rparr>)"
  by (simp add: slotsA_def)

end
