(* ===== verification/ApprovalClaims.thy ===== *)
theory ApprovalClaims
  imports ApprovalFlow
begin

text \<open>
  What the approvals of a document mean: the steps of the service in any order, by any users, with any other
  changes in between.
\<close>

section \<open>What the steps do to one document\<close>

definition status_of :: "string \<Rightarrow> string \<Rightarrow> approval_world \<Rightarrow> jsval option" where
  "status_of table i w = map_option (\<lambda>r. obj_get r ''doc_status'') (row_with_id table i (w_store (aw_api w)))"

abbreviation slots_of :: "string \<Rightarrow> string \<Rightarrow> approval_world \<Rightarrow> approval_slot list" where
  "slots_of slug i w \<equiv> filter (\<lambda>s. as_collection s = slug \<and> as_document s = i) (aw_slots w)"

lemma apiA_Inr_iff: "apiA m w = (Inr x, w') \<longleftrightarrow> (\<exists>a. m (aw_api w) = (Inr x, a) \<and> w' = w\<lparr>aw_api := a\<rparr>)"
  by (auto simp: apiA_def split: prod.splits)

lemma fetch_document_state: "fetch_document table i w = (r, w') \<Longrightarrow> w' = w"
  by (auto simp: fetch_document_def split: sum.splits list.splits)

lemma fetch_document_row: "fetch_document table i w = (Inr row, w') \<Longrightarrow> row_with_id table i (w_store (aw_api w)) = Some row"
proof -
  have "filter P xs = y # ys \<Longrightarrow> find P xs = Some y" for P :: "jsobj \<Rightarrow> bool" and xs y ys
    by (induction xs) (auto split: if_splits)
  then show "fetch_document table i w = (Inr row, w') \<Longrightarrow> ?thesis"
    by (auto simp: fetch_document_def select_rows_def row_with_id_def not_found_def split: sum.splits list.splits if_splits)
qed

lemma fetch_document_status:
  "fetch_document table i w = (Inr row, w') \<Longrightarrow> status_of table i w = Some (obj_get row ''doc_status'')"
  by (simp add: status_of_def fetch_document_row)

text \<open>An UPDATE of columns other than the id finds the row again.\<close>

lemma status_after_update:
  assumes "row_with_id table i db = Some r" "amap_has table db"
  shows "map_option (\<lambda>r. obj_get r ''doc_status'')
    (row_with_id table i (apply_write (UpdateIn table ''id'' [i] [(''doc_status'', Str st), (''updated_at'', t)]) db)) = Some (Str st)"
proof -
  let ?u = "[(''doc_status'', Str st), (''updated_at'', t)]"
  have look: "map_of (obj_spread r ?u) k = (case map_of ?u k of Some v \<Rightarrow> Some v | None \<Rightarrow> map_of r k)" for r k
    by (rule obj_spread_lookup) (simp add: amap_ok_def)
  have same: "col_in ''id'' [i] (obj_spread r ?u) = col_in ''id'' [i] r" for r by (simp add: col_in_def look)
  have "find (col_in ''id'' [i]) xs = Some r \<Longrightarrow>
      find (col_in ''id'' [i]) (map (\<lambda>r. if col_in ''id'' [i] r then obj_spread r ?u else r) xs) = Some (obj_spread r ?u)" for xs
    by (induction xs) (auto simp: same split: if_splits)
  moreover have "obj_get (obj_spread r ?u) ''doc_status'' = Str st" by (simp add: obj_get_def look)
  ultimately show ?thesis using assms by (simp add: row_with_id_def rows_of_apply_write put_rows_def rows_of_def)
qed

lemma set_doc_status_slots: "set_doc_status env slug table i st w = (r, w') \<Longrightarrow> aw_slots w' = aw_slots w"
  by (auto simp: set_doc_status_def apiA_def Let_def split: prod.splits)

lemma set_doc_status_cases:
  assumes "set_doc_status env slug table i st w = (r, w')" "row_with_id table i (w_store (aw_api w)) = Some row"
  shows "status_of table i w' = (case r of Inl e \<Rightarrow> status_of table i w | Inr u \<Rightarrow> Some (Str st))"
proof (cases "batchA (ae_api env) [UpdateIn table ''id'' [i] [(''doc_status'', Str st), (''updated_at'', Str (en_stamp (ae_api env)))]] (aw_api w)")
  case (Pair b a)
  show ?thesis
  proof (cases b)
    case (Inl e)
    then have "a = aw_api w" using batchA_cases(2) Pair by blast
    then show ?thesis using assms(1) Pair Inl by (auto simp: set_doc_status_def apiA_def bindA_def status_of_def)
  next
    case (Inr u)
    obtain db where db: "run_batch (en_refuses (ae_api env)) [UpdateIn table ''id'' [i] [(''doc_status'', Str st), (''updated_at'', Str (en_stamp (ae_api env)))]] (w_store (aw_api w)) = Inr db"
        "a = (aw_api w)\<lparr>w_store := db\<rparr>"
      using batchA_cases(1) Pair Inr by blast
    then have "amap_has table (w_store (aw_api w))"
      "db = apply_write (UpdateIn table ''id'' [i] [(''doc_status'', Str st), (''updated_at'', Str (en_stamp (ae_api env)))]) (w_store (aw_api w))"
      by (auto dest!: run_batch_writes split: if_splits)
    then show ?thesis using assms Pair Inr db(2) status_after_update [OF assms(2)]
      by (auto simp: set_doc_status_def apiA_def bindA_def status_of_def)
  qed
qed

lemma decided_state: "decided slug i row st w = (r, w') \<Longrightarrow> aw_slots w' = aw_slots w \<and> status_of table i w' = status_of table i w"
  by (auto simp: decided_def apiA_def bindA_def status_of_def Let_def)

text \<open>The last two steps of every handler.\<close>

lemma ending_cases:
  assumes "bindA (set_doc_status env slug table i st) (\<lambda>_. decided slug i row st) w = (r, w')"
    and "row_with_id table i (w_store (aw_api w)) = Some row'"
  shows "aw_slots w' = aw_slots w"
    "status_of table i w' = (case r of Inl e \<Rightarrow> status_of table i w | Inr u \<Rightarrow> Some (Str st))"
proof -
  obtain r1 w1 where s: "set_doc_status env slug table i st w = (r1, w1)" by fastforce
  note set_doc_status_cases [OF s assms(2)] set_doc_status_slots [OF s]
  moreover have "\<exists>d. decided slug i row st w1 = (Inr d, w')" if "r1 = Inr u" for u
    using assms(1) s that by (auto simp: bindA_def decided_def apiA_def Let_def)
  ultimately show "aw_slots w' = aw_slots w"
    "status_of table i w' = (case r of Inl e \<Rightarrow> status_of table i w | Inr u \<Rightarrow> Some (Str st))"
    using assms(1) s decided_state by (cases r1; fastforce simp: bindA_def)+
qed

lemma may_business_state: "apiA (may_business e slug act) w = (r, w') \<Longrightarrow> aw_slots w' = aw_slots w \<and> w_store (aw_api w') = w_store (aw_api w)"
  by (auto simp: apiA_def may_business_def bindA_def cachedA_def forbidden_def Let_def
      split: option.splits prod.splits sum.splits if_splits)

lemma submit_once:
  assumes "status_of table i w = Some (Str st)" "st \<noteq> []" "st \<noteq> ''draft''" "get_info env slug = Inr (table, flow)"
  shows "submit env slug i w = (r, w') \<Longrightarrow> w' = w"
proof -
  have "current_status row = st \<and> u = w" if f: "fetch_document table i w = (Inr row, u)" for row u
  proof -
    have "obj_get row ''doc_status'' = Str st" using fetch_document_status [OF f] assms(1) by simp
    then show ?thesis using fetch_document_state [OF f] assms(2) by (simp add: current_status_def js_or_def)
  qed
  then show "submit env slug i w = (r, w') \<Longrightarrow> w' = w"
    using assms(3,4) fetch_document_state [of table i w]
    by (fastforce simp: submit_def bindA_def split: prod.splits sum.splits)
qed

lemma approve_check_cases:
  assumes "approve_check env slug i w = (r, w')" "get_info env slug = Inr (table, flow)"
  shows "w' = w" "r = Inr (t, row, s) \<Longrightarrow> t = table \<and> row_with_id table i (w_store (aw_api w)) = Some row \<and>
     status_of table i w = Some (Str ''pending_review'') \<and> lowest_slot (filter (is_open slug i) (aw_slots w)) = Some s \<and>
     (\<forall>a. en_auth (ae_api env) = Some a \<longrightarrow> au_is_admin a \<or> au_role_name a = as_role s)"
proof -
  obtain r1 w1 where f: "fetch_document table i w = (r1, w1)" by fastforce
  note fetch_document_state [OF f]
  then show "w' = w" "r = Inr (t, row, s) \<Longrightarrow> t = table \<and> row_with_id table i (w_store (aw_api w)) = Some row \<and>
     status_of table i w = Some (Str ''pending_review'') \<and> lowest_slot (filter (is_open slug i) (aw_slots w)) = Some s \<and>
     (\<forall>a. en_auth (ae_api env) = Some a \<longrightarrow> au_is_admin a \<or> au_role_name a = as_role s)"
    using assms f fetch_document_row [of table i w row w1] fetch_document_status [of table i w row w1]
    by (cases r1; auto simp: approve_check_def bindA_def validation_error_def forbidden_def split: option.splits if_splits)+
qed

lemma approve_cases:
  assumes "approve env slug i comment w = (r, w')" "get_info env slug = Inr (table, flow)"
  obtains "w' = w"
  | a s where "en_auth (ae_api env) = Some a" "au_is_admin a \<or> au_role_name a = as_role s"
      "status_of table i w = Some (Str ''pending_review'')" "lowest_slot (filter (is_open slug i) (aw_slots w)) = Some s"
      "aw_slots w' = map (\<lambda>t. if as_id t = as_id s then approved_by_user env comment a t else t) (aw_slots w)"
      "status_of table i w' = Some (Str ''pending_review'') \<or>
       status_of table i w' = Some (Str ''approved'') \<and> filter (is_open slug i) (aw_slots w') = []"
proof -
  obtain r1 w1 where c: "approve_check env slug i w = (r1, w1)" by fastforce
  have w1: "w1 = w" using approve_check_cases(1) [OF c assms(2)] .
  show thesis
  proof (cases r1)
    case (Inl e)
    then show thesis using that(1) assms(1) c w1 by (simp add: approve_def bindA_def)
  next
    case (Inr x)
    obtain t row s where x: "x = (t, row, s)" by (cases x)
    note ch = approve_check_cases(2) [OF c assms(2) Inr [unfolded x]]
    show thesis
    proof (cases "en_auth (ae_api env)")
      case None
      then have "w' = w" using assms(1) c Inr x w1 by (simp add: approve_def approve_commit_def approve_slot_def bindA_def)
      then show thesis by (rule that(1))
    next
      case (Some a)
      let ?ss = "map (\<lambda>t. if as_id t = as_id s then approved_by_user env comment a t else t) (aw_slots w)"
      let ?st = "if filter (is_open slug i) ?ss = [] then ''approved'' else ''pending_review''"
      have run: "bindA (set_doc_status env slug table i ?st) (\<lambda>_. decided slug i row ?st) (w\<lparr>aw_slots := ?ss\<rparr>) = (r, w')"
        using assms(1) c Inr x w1 ch Some
        by (simp add: approve_def approve_commit_def approve_slot_def bindA_def Let_def split: if_splits)
      have row: "row_with_id table i (w_store (aw_api (w\<lparr>aw_slots := ?ss\<rparr>))) = Some row" using ch by simp
      note e = ending_cases [OF run row]
      have st: "status_of table i (w\<lparr>aw_slots := ?ss\<rparr>) = status_of table i w" by (simp add: status_of_def)
      show thesis using that(2) [of a s] Some ch e st by (cases r) auto
    qed
  qed
qed

lemma closed_slot_open [simp]: "\<not> is_open slug i (closed_slot env slug i comment s)"
  by (simp add: closed_slot_def is_open_def)

lemma reject_cases:
  assumes "reject env slug i comment w = (r, w')" "get_info env slug = Inr (table, flow)"
  obtains "w' = w"
  | "status_of table i w = Some (Str ''pending_review'')" "aw_slots w' = map (closed_slot env slug i comment) (aw_slots w)"
      "status_of table i w' = Some (Str ''pending_review'') \<or> status_of table i w' = Some (Str ''rejected'')"
proof -
  obtain r1 w1 where f: "fetch_document table i w = (r1, w1)" by fastforce
  have w1: "w1 = w" using fetch_document_state [OF f] .
  show thesis
  proof (cases "\<exists>row. r1 = Inr row \<and> obj_get row ''doc_status'' = Str ''pending_review''")
    case False
    then have "w' = w" using assms f w1 by (cases r1) (auto simp: reject_def bindA_def)
    then show thesis by (rule that(1))
  next
    case True
    then obtain row where r1: "r1 = Inr row" "obj_get row ''doc_status'' = Str ''pending_review''" by blast
    let ?w = "w\<lparr>aw_slots := map (closed_slot env slug i comment) (aw_slots w)\<rparr>"
    have run: "bindA (set_doc_status env slug table i ''rejected'') (\<lambda>_. decided slug i row ''rejected'') ?w = (r, w')"
      using assms f w1 r1 by (simp add: reject_def bindA_def)
    have row: "row_with_id table i (w_store (aw_api ?w)) = Some row" using fetch_document_row f r1 by simp
    have st: "status_of table i ?w = status_of table i w" by (simp add: status_of_def)
    have "status_of table i w = Some (Str ''pending_review'')" using fetch_document_status f r1 by fastforce
    then show thesis using that(2) ending_cases [OF run row] st by (cases r) auto
  qed
qed

section \<open>Every level decides\<close>

text \<open>
  What can happen to the document \<open>i\<close> of \<open>slug\<close>: a handler run by a user, under any time and with any
  outcome, or anything else that leaves its status and its slots alone.
\<close>

definition runs_as :: "approval_env \<Rightarrow> auth_context set \<Rightarrow> approval_env \<Rightarrow> bool" where
  "runs_as env users e \<longleftrightarrow> en_collections (ae_api e) = en_collections (ae_api env) \<and> ae_workflow e = ae_workflow env \<and>
     (\<exists>a \<in> users. en_auth (ae_api e) = Some a)"

inductive approval_step :: "approval_env \<Rightarrow> auth_context set \<Rightarrow> string \<Rightarrow> string \<Rightarrow> string \<Rightarrow> approval_world \<Rightarrow> approval_world \<Rightarrow> bool"
  for env users slug table i where
  Submitting: "runs_as env users e \<Longrightarrow> submit e slug i w = (r, w') \<Longrightarrow> approval_step env users slug table i w w'"
| Approving: "runs_as env users e \<Longrightarrow> approve e slug i comment w = (r, w') \<Longrightarrow> approval_step env users slug table i w w'"
| Rejecting: "runs_as env users e \<Longrightarrow> reject e slug i comment w = (r, w') \<Longrightarrow> approval_step env users slug table i w w'"
| Other: "status_of table i w' = status_of table i w \<Longrightarrow> slots_of slug i w' = slots_of slug i w \<Longrightarrow>
    approval_step env users slug table i w w'"

definition decided_by :: "auth_context set \<Rightarrow> approval_slot \<Rightarrow> bool" where
  "decided_by users s \<longleftrightarrow> as_status s = ''approved'' \<and>
     (\<exists>a \<in> users. au_user_id a = as_by s \<and> (au_is_admin a \<or> au_role_name a = as_role s))"

definition every_level :: "(approval_slot \<Rightarrow> bool) \<Rightarrow> flow_level list \<Rightarrow> approval_slot list \<Rightarrow> bool" where
  "every_level P ls ss \<longleftrightarrow> (\<forall>k < length ls. \<exists>s \<in> set ss. as_level s = Suc k \<and> as_role s = lv_role (ls ! k) \<and> P s)"

definition round_state :: "auth_context set \<Rightarrow> string \<Rightarrow> string \<Rightarrow> string \<Rightarrow> flow_level list \<Rightarrow> approval_world \<Rightarrow> bool" where
  "round_state users slug table i ls w \<longleftrightarrow> (let ss = slots_of slug i w; open = filter (is_open slug i) (aw_slots w);
       going = every_level (\<lambda>s. is_open slug i s \<or> decided_by users s) ls ss in
     distinct (map as_id ss) \<and>
     (status_of table i w = Some (Str ''rejected'') \<or>
      status_of table i w = Some (Str ''pending_review'') \<and> (open = [] \<or> going) \<or>
      status_of table i w = Some (Str ''approved'') \<and> open = [] \<and> going))"

lemma open_slots: "filter (is_open slug i) (aw_slots w) = filter (\<lambda>s. as_status s = ''pending'') (slots_of slug i w)"
  by (simp add: is_open_def [abs_def] conj_assoc)

lemma lowest_slot_in: "lowest_slot ss = Some s \<Longrightarrow> s \<in> set ss"
  by (induction ss arbitrary: s) (auto split: option.splits if_splits)

lemma map_slots_of:
  assumes "\<And>s. as_collection (f s) = as_collection s" "\<And>s. as_document (f s) = as_document s"
  shows "filter (\<lambda>s. as_collection s = slug \<and> as_document s = i) (map f ss) = map f (filter (\<lambda>s. as_collection s = slug \<and> as_document s = i) ss)"
  using assms by (simp add: filter_map o_def)

lemma approved_by_user_fields [simp]:
  "as_collection (approved_by_user e c a s) = as_collection s" "as_document (approved_by_user e c a s) = as_document s"
  "as_id (approved_by_user e c a s) = as_id s" "as_level (approved_by_user e c a s) = as_level s"
  "as_role (approved_by_user e c a s) = as_role s" "as_status (approved_by_user e c a s) = ''approved''"
  "as_by (approved_by_user e c a s) = au_user_id a"
  by (simp_all add: approved_by_user_def)

lemma approved_slot_not_open [simp]: "\<not> is_open slug i (approved_by_user e c a s)"
  by (simp add: is_open_def)

lemma closed_slot_fields [simp]:
  "as_collection (closed_slot e slug i c s) = as_collection s" "as_document (closed_slot e slug i c s) = as_document s"
  "as_id (closed_slot e slug i c s) = as_id s"
  by (simp_all add: closed_slot_def)

text \<open>Approving the slot \<open>s\<close> keeps the round going.\<close>

lemma approve_keeps_round:
  assumes going: "every_level (\<lambda>s. is_open slug i s \<or> decided_by users s) ls ss"
    and s: "s \<in> set ss" "distinct (map as_id ss)"
    and a: "a \<in> users" "au_is_admin a \<or> au_role_name a = as_role s"
  shows "every_level (\<lambda>s. is_open slug i s \<or> decided_by users s) ls
    (map (\<lambda>t. if as_id t = as_id s then approved_by_user e c a t else t) ss)"
  (is "every_level _ _ (map ?f ss)")
  unfolding every_level_def
proof (intro allI impI)
  fix k assume "k < length ls"
  then obtain t where t: "t \<in> set ss" "as_level t = Suc k" "as_role t = lv_role (ls ! k)" "is_open slug i t \<or> decided_by users t"
    using going unfolding every_level_def by blast
  have "decided_by users (approved_by_user e c a s)" using a by (auto simp: decided_by_def)
  moreover have "as_id t = as_id s \<Longrightarrow> t = s" using s t(1) by (auto simp: distinct_map dest: inj_onD)
  ultimately have u: "is_open slug i (?f t) \<or> decided_by users (?f t)" using t(4) by auto
  have "?f t \<in> set (map ?f ss)" unfolding set_map using t(1) by (rule imageI)
  then show "\<exists>u \<in> set (map ?f ss). as_level u = Suc k \<and> as_role u = lv_role (ls ! k) \<and> (is_open slug i u \<or> decided_by users u)"
    using t(2,3) u by (intro bexI [of _ "?f t"]) (simp_all split del: if_split, simp_all)
qed

lemma runs_as_info: "runs_as env users e \<Longrightarrow> get_info e slug = get_info env slug"
  unfolding runs_as_def get_info_def by (elim conjE) (simp only:)

lemma round_step:
  assumes "approval_step env users slug table i w w'" "get_info env slug = Inr (table, flow)"
  shows "round_state users slug table i ls w \<Longrightarrow> round_state users slug table i ls w'"
  using assms
proof (induction rule: approval_step.induct)
  case (Submitting e w r w')
  obtain st where "status_of table i w = Some (Str st)" "st \<noteq> []" "st \<noteq> ''draft''"
    using Submitting.prems(1) by (auto simp: round_state_def Let_def)
  moreover have "get_info e slug = Inr (table, flow)" using runs_as_info [OF Submitting.hyps(1)] Submitting.prems(2) by simp
  ultimately have "w' = w" by (rule submit_once) (rule Submitting.hyps(2))
  then show ?case using Submitting.prems(1) by simp
next
  case (Approving e comment w r w')
  have "get_info e slug = Inr (table, flow)" using runs_as_info [OF Approving.hyps(1)] Approving.prems(2) by simp
  from Approving.hyps(2) this show ?case
  proof (cases rule: approve_cases)
    case 1
    then show ?thesis using Approving.prems(1) by simp
  next
    case (2 a s)
    have users: "a \<in> users" using Approving.hyps(1) 2(1) by (auto simp: runs_as_def)
    have s: "s \<in> set (filter (is_open slug i) (aw_slots w))" using lowest_slot_in [OF 2(4)] .
    then have mem: "s \<in> set (slots_of slug i w)" by (auto simp: is_open_def)
    have "filter (is_open slug i) (aw_slots w) \<noteq> []" using s by fastforce
    then have d: "distinct (map as_id (slots_of slug i w))"
      and going: "every_level (\<lambda>s. is_open slug i s \<or> decided_by users s) ls (slots_of slug i w)"
      using Approving.prems(1) 2(3) by (auto simp: round_state_def Let_def)
    have ss: "slots_of slug i w' = map (\<lambda>t. if as_id t = as_id s then approved_by_user e comment a t else t) (slots_of slug i w)"
      unfolding 2(5) by (rule map_slots_of) auto
    have "map as_id (slots_of slug i w') = map as_id (slots_of slug i w)" unfolding ss by auto
    then have d': "distinct (map as_id (slots_of slug i w'))" using d by (simp only:)
    have "every_level (\<lambda>s. is_open slug i s \<or> decided_by users s) ls (slots_of slug i w')"
      unfolding ss by (rule approve_keeps_round [OF going mem d users 2(2)])
    then show ?thesis using d' 2(6) unfolding round_state_def Let_def by blast
  qed
next
  case (Rejecting e comment w r w')
  have "get_info e slug = Inr (table, flow)" using runs_as_info [OF Rejecting.hyps(1)] Rejecting.prems(2) by simp
  from Rejecting.hyps(2) this show ?case
  proof (cases rule: reject_cases)
    case 1
    then show ?thesis using Rejecting.prems(1) by simp
  next
    case 2
    have ss: "slots_of slug i w' = map (closed_slot e slug i comment) (slots_of slug i w)"
      unfolding 2(2) by (rule map_slots_of) auto
    have "map as_id (slots_of slug i w') = map as_id (slots_of slug i w)" unfolding ss by (simp add: o_def)
    then have "distinct (map as_id (slots_of slug i w'))" using Rejecting.prems(1) by (simp add: round_state_def Let_def)
    moreover have "filter (is_open slug i) (aw_slots w') = []" unfolding 2(2) by (simp add: filter_empty_conv)
    ultimately show ?thesis using 2(3) unfolding round_state_def Let_def by blast
  qed
next
  case (Other w' w)
  then show ?case by (simp add: round_state_def Let_def open_slots)
qed

lemma each_slot: "eachA (\<lambda>(n, lv). slotsA (\<lambda>ss. ss @ [f n lv])) xs w = (Inr (), w\<lparr>aw_slots := aw_slots w @ map (\<lambda>(n, lv). f n lv) xs\<rparr>)"
  unfolding eachA_def by (induction xs arbitrary: w) (simp_all add: bindA_def split: prod.splits)

lemma fetch_document_found:
  "row_with_id table i (w_store (aw_api w)) = Some row \<Longrightarrow> fetch_document table i w = (Inr row', w') \<Longrightarrow> row' = row"
  using fetch_document_row by fastforce

lemma submit_opens:
  assumes run: "submit env slug i w = (Inr doc, w')" and info: "get_info env slug = Inr (table, Some flow)"
    and row: "row_with_id table i (w_store (aw_api w)) = Some row" and ls: "effectiveLevels flow row \<noteq> []"
  shows "status_of table i w' = Some (Str ''pending_review'')"
    "aw_slots w' = filter (\<lambda>s. \<not> is_open slug i s) (aw_slots w) @
       map (\<lambda>(n, lv). new_slot env slug i row n lv) (enumerate 1 (effectiveLevels flow row))"
proof -
  obtain r1 w1 where f: "fetch_document table i w = (Inr r1, w1)"
    using run info by (cases "fetch_document table i w") (auto simp: submit_def bindA_Inr_iff)
  have r1: "r1 = row" "w1 = w" using fetch_document_found [OF row f] fetch_document_state [OF f] by simp_all
  obtain r2 w2 where m: "apiA (may_business (ae_api env) slug ''submit'') w = (r2, w2)" by fastforce
  note w2 = may_business_state [OF m]
  let ?ss = "filter (\<lambda>s. \<not> is_open slug i s) (aw_slots w) @
       map (\<lambda>(n, lv). new_slot env slug i row n lv) (enumerate 1 (effectiveLevels flow row))"
  have ending: "bindA (set_doc_status env slug table i ''pending_review'') (\<lambda>_. decided slug i row ''pending_review'') (w2\<lparr>aw_slots := ?ss\<rparr>) = (Inr doc, w')"
    using run info f r1 m ls w2
    by (auto simp: submit_def open_round_def each_slot bindA_Inr_iff Let_def validation_error_def split: if_splits)
  have row2: "row_with_id table i (w_store (aw_api (w2\<lparr>aw_slots := ?ss\<rparr>))) = Some row" using row w2 by simp
  show "status_of table i w' = Some (Str ''pending_review'')" "aw_slots w' = ?ss"
    using ending_cases [OF ending row2] by simp_all
qed

lemma submit_starts_round:
  assumes "submit env slug i w = (Inr doc, w')" "get_info env slug = Inr (table, Some flow)"
    "row_with_id table i (w_store (aw_api w)) = Some row" "effectiveLevels flow row = ls" "ls \<noteq> []"
    "distinct (map as_id (slots_of slug i w'))"
  shows "round_state users slug table i ls w'"
proof -
  note o = submit_opens [OF assms(1-3) assms(5) [folded assms(4)], unfolded assms(4)]
  have "every_level (is_open slug i) ls (slots_of slug i w')"
    unfolding every_level_def
  proof (intro allI impI)
    fix k assume k: "k < length ls"
    then have "(Suc k, ls ! k) \<in> set (enumerate 1 ls)"
      by (auto simp: in_set_enumerate_eq)
    then have "new_slot env slug i row (Suc k) (ls ! k) \<in> set (aw_slots w')" unfolding o(2) by force
    then show "\<exists>s \<in> set (slots_of slug i w'). as_level s = Suc k \<and> as_role s = lv_role (ls ! k) \<and> is_open slug i s"
      by (intro bexI [of _ "new_slot env slug i row (Suc k) (ls ! k)"]) (simp_all add: new_slot_def is_open_def)
  qed
  then have "every_level (\<lambda>s. is_open slug i s \<or> decided_by users s) ls (slots_of slug i w')"
    unfolding every_level_def by blast
  then show ?thesis using o(1) assms(6) unfolding round_state_def Let_def by blast
qed


section \<open>A decision between check and write\<close>

lemma row_in_table: "row_with_id table i db = Some r \<Longrightarrow> amap_has table db"
  by (cases "map_of db table") (force simp: row_with_id_def rows_of_def amap_has_iff dest: map_of_SomeD)+

lemma reject_closes:
  assumes run: "reject env slug i comment w = (Inr doc, w')" and info: "get_info env slug = Inr (table, flow)"
  shows "status_of table i w' = Some (Str ''rejected'')" "aw_slots w' = map (closed_slot env slug i comment) (aw_slots w)"
proof -
  obtain row where f: "fetch_document table i w = (Inr row, w)"
    using run info fetch_document_state [of table i w]
    by (cases "fetch_document table i w") (auto simp: reject_def bindA_Inr_iff)
  let ?w = "w\<lparr>aw_slots := map (closed_slot env slug i comment) (aw_slots w)\<rparr>"
  have ending: "bindA (set_doc_status env slug table i ''rejected'') (\<lambda>_. decided slug i row ''rejected'') ?w = (Inr doc, w')"
    using run info f by (auto simp: reject_def bindA_Inr_iff validation_error_def split: if_splits)
  have row: "row_with_id table i (w_store (aw_api ?w)) = Some row" using fetch_document_row [OF f] by simp
  show "status_of table i w' = Some (Str ''rejected'')" "aw_slots w' = map (closed_slot env slug i comment) (aw_slots w)"
    using ending_cases [OF ending row] by simp_all
qed

text \<open>A database that refuses nothing takes the last steps of a handler.\<close>

lemma ending_succeeds:
  assumes "en_refuses (ae_api env) = (\<lambda>ws db. None)" "row_with_id table i (w_store (aw_api w)) = Some row'"
  shows "\<exists>doc w'. bindA (set_doc_status env slug table i st) (\<lambda>_. decided slug i row st) w = (Inr doc, w')"
  using assms row_in_table [OF assms(2)]
  by (simp add: set_doc_status_def decided_def bindA_def apiA_def batchA_def run_batch_def Let_def)

text \<open>
  C35. The checks of an approval are not repeated when it writes. An approval that has read the document and its
  slot before a rejection closes the round still approves that slot, finds no open slot, and marks the
  document approved: no other level of the round was approved.
\<close>

theorem rejected_document_becomes_approved:
  assumes check: "approve_check env slug i w = (Inr (t, row, s), w)" and info: "get_info env slug = Inr (table, flow)"
    and reject: "reject env' slug i comment' w = (Inr doc, w1)" and info': "get_info env' slug = Inr (table, flow)"
    and auth: "en_auth (ae_api env) = Some a" and db: "en_refuses (ae_api env) = (\<lambda>ws db. None)"
  shows "\<exists>doc' w2. approve_commit env slug i comment (t, row, s) w1 = (Inr doc', w2) \<and>
    status_of table i w1 = Some (Str ''rejected'') \<and> status_of table i w2 = Some (Str ''approved'') \<and>
    (\<forall>u \<in> set (aw_slots w). is_open slug i u \<and> as_id u \<noteq> as_id s \<longrightarrow> closed_slot env' slug i comment' u \<in> set (aw_slots w2))"
proof -
  note closed = reject_closes [OF reject info']
  obtain row' where row': "row_with_id table i (w_store (aw_api w1)) = Some row'"
    using closed(1) by (auto simp: status_of_def)
  have t: "t = table" using approve_check_cases(2) [OF check info refl] by simp
  let ?ss = "map (\<lambda>u. if as_id u = as_id s then approved_by_user env comment a u else u) (aw_slots w1)"
  have none: "filter (is_open slug i) ?ss = []"
    by (auto simp: filter_empty_conv closed(2))
  have row1: "row_with_id table i (w_store (aw_api (w1\<lparr>aw_slots := ?ss\<rparr>))) = Some row'" using row' by simp
  obtain doc' w2 where ending: "bindA (set_doc_status env slug table i ''approved'') (\<lambda>_. decided slug i row ''approved'') (w1\<lparr>aw_slots := ?ss\<rparr>) = (Inr doc', w2)"
    using ending_succeeds [OF db row1] by blast
  then have run: "approve_commit env slug i comment (t, row, s) w1 = (Inr doc', w2)"
    using t auth none by (simp add: approve_commit_def approve_slot_def bindA_def Let_def)
  note e = ending_cases [OF ending row1]
  have "closed_slot env' slug i comment' u \<in> set (aw_slots w2)" if "u \<in> set (aw_slots w)" "as_id u \<noteq> as_id s" for u
  proof -
    let ?u = "closed_slot env' slug i comment' u"
    have "?u \<in> set (aw_slots w1)" using that(1) by (simp add: closed(2))
    then have "(if as_id ?u = as_id s then approved_by_user env comment a ?u else ?u) \<in> set ?ss" unfolding set_map by (rule imageI)
    then show ?thesis using that(2) e(1) by simp
  qed
  then show ?thesis using run e(2) closed(1) by auto
qed

section \<open>Witnesses\<close>

definition demo_user :: "string \<Rightarrow> string \<Rightarrow> auth_context" where
  "demo_user u role = \<lparr>au_user_id = u, au_role_id = role, au_role_name = role, au_email = u, au_is_admin = (role = ''Administrator''),
     au_employee_id = None, au_tg_id = None\<rparr>"

definition demo_approvals :: "auth_context \<Rightarrow> approval_env" where
  "demo_approvals a = \<lparr>ae_api = (demo_env [(''po'', plain_info ''t_po'' [])])\<lparr>en_auth := Some a\<rparr>,
     ae_workflow = (\<lambda>j. Some \<lparr>wk_enabled = True, wk_name = ''Purchases'', wk_levels =
       [\<lparr>lv_label = ''Manager'', lv_role = ''Manager'', lv_amount_field = None, lv_threshold = None\<rparr>,
        \<lparr>lv_label = ''Director'', lv_role = ''Director'', lv_amount_field = Some ''total'', lv_threshold = Some (Fin 100)\<rparr>]\<rparr>)\<rparr>"

definition demo_order :: "jsnum \<Rightarrow> approval_world" where
  "demo_order amount = \<lparr>aw_api = demo_world [(''t_po'', [[(''id'', Str ''d''), (''total'', Num amount), (''doc_status'', Str ''draft'')]])],
     aw_slots = []\<rparr>"

definition demo_submitted :: "jsnum \<Rightarrow> approval_world" where
  "demo_submitted amount = snd (submit (demo_approvals (demo_user ''u1'' ''Administrator'')) ''po'' ''d'' (demo_order amount))"


lemma rejected_document_becomes_approved_witness:
  "\<exists>s w1 doc' w2. approve_commit (demo_approvals (demo_user ''u2'' ''Manager'')) ''po'' ''d'' None s w1 = (Inr doc', w2) \<and>
    status_of ''t_po'' ''d'' w1 = Some (Str ''rejected'') \<and> status_of ''t_po'' ''d'' w2 = Some (Str ''approved'')"
proof -
  let ?boss = "demo_approvals (demo_user ''u2'' ''Manager'')" and ?chief = "demo_approvals (demo_user ''u3'' ''Director'')"
  let ?w = "demo_submitted (Fin 500)"
  have info: "get_info ?boss ''po'' = Inr (''t_po'', Some (the (ae_workflow ?boss [])))" "get_info ?chief ''po'' = Inr (''t_po'', Some (the (ae_workflow ?boss [])))"
    by (simp_all add: get_info_def demo_approvals_def demo_env_def plain_info_def)
  have "case fst (approve_check ?boss ''po'' ''d'' ?w) of Inr d \<Rightarrow> True | Inl e \<Rightarrow> False" by code_simp
  then obtain t row s where c: "fst (approve_check ?boss ''po'' ''d'' ?w) = Inr (t, row, s)" by (auto split: sum.splits)
  have check: "approve_check ?boss ''po'' ''d'' ?w = (Inr (t, row, s), ?w)"
    using approve_check_cases(1) [OF surjective_pairing info(1)] c by (metis prod.collapse)
  have "case fst (reject ?chief ''po'' ''d'' None ?w) of Inr d \<Rightarrow> True | Inl e \<Rightarrow> False" by code_simp
  then obtain doc where r: "fst (reject ?chief ''po'' ''d'' None ?w) = Inr doc" by (auto split: sum.splits)
  then have reject: "reject ?chief ''po'' ''d'' None ?w = (Inr doc, snd (reject ?chief ''po'' ''d'' None ?w))" by (simp add: prod_eq_iff)
  have auth: "en_auth (ae_api ?boss) = Some (demo_user ''u2'' ''Manager'')" and db: "en_refuses (ae_api ?boss) = (\<lambda>ws db. None)"
    by (simp_all add: demo_approvals_def demo_env_def)
  show ?thesis using rejected_document_becomes_approved [OF check info(1) reject info(2) auth db, of None] by blast
qed

end
