(* ===== verification/Repository.thy ===== *)
theory Repository
  imports WriteGuards
begin

text \<open>
  \<open>packages/core/src/db/repository.ts\<close>: the generic repository, typed reads and writes of one table over the
  query builder, with keyset pagination. What a SELECT gives is read off its builder (the operators the
  repository uses); rows with equal sort keys stay in the order of the table.
\<close>

section \<open>What a SELECT gives\<close>

text \<open>A cell of a row; a column the row does not list is null, booleans are stored as numbers.\<close>

definition as_cell :: "jsval \<Rightarrow> jsval" where
  "as_cell v = (case v of Undef \<Rightarrow> Null | Bool b \<Rightarrow> Num (Fin (if b then 1 else 0)) | _ \<Rightarrow> v)"

definition row_cell :: "jsobj \<Rightarrow> string \<Rightarrow> jsval" where
  "row_cell r c = (case map_of r c of Some v \<Rightarrow> as_cell v | None \<Rightarrow> Null)"

text \<open>The order of cells: nulls, numbers, texts.\<close>

fun cell_less :: "jsval \<Rightarrow> jsval \<Rightarrow> bool" where
  "cell_less Null (Num y) = True"
| "cell_less Null (Str t) = True"
| "cell_less (Num x) (Num y) = num_lt x y"
| "cell_less (Num x) (Str t) = True"
| "cell_less (Str s) (Str t) = str_less s t"
| "cell_less _ _ = False"

text \<open>A binding takes the type of the cell it is compared with (the affinity of the column).\<close>

definition bound_for :: "jsval \<Rightarrow> jsval \<Rightarrow> jsval" where
  "bound_for v b = (case (v, as_cell b) of
     (Num x, Str s) \<Rightarrow> if num_of_string s = NaN then Str s else Num (num_of_string s)
   | (Str s, Num x) \<Rightarrow> Str (num_to_string x)
   | (_, b) \<Rightarrow> b)"

definition cell_equals :: "jsval \<Rightarrow> jsval \<Rightarrow> bool" where
  "cell_equals v b \<longleftrightarrow> v \<noteq> Null \<and> as_cell b \<noteq> Null \<and>
     (case (v, bound_for v b) of (Num x, Num y) \<Rightarrow> num_eq x y | (v, b) \<Rightarrow> v = b)"

definition clause_holds :: "(sql_stmt \<Rightarrow> jsobj \<Rightarrow> bool) \<Rightarrow> wclause \<Rightarrow> jsobj \<Rightarrow> bool" where
  "clause_holds raw cl r = (let v = row_cell r (w_column cl); b = w_value cl in
     if w_op cl = ''RAW'' then (case stmt_of b of Inr st \<Rightarrow> raw st r | Inl e \<Rightarrow> False)
     else if w_op cl = ''IS NULL'' then v = Null
     else if w_op cl = ''IN'' then (case b of Arr xs \<Rightarrow> list_ex (cell_equals v) xs | _ \<Rightarrow> False)
     else if w_op cl = ''='' then cell_equals v b
     else if w_op cl = ''<'' then v \<noteq> Null \<and> as_cell b \<noteq> Null \<and> cell_less v (bound_for v b)
     else if w_op cl = ''>'' then v \<noteq> Null \<and> as_cell b \<noteq> Null \<and> cell_less (bound_for v b) v
     else False)"

fun row_less :: "(string \<times> string) list \<Rightarrow> jsobj \<Rightarrow> jsobj \<Rightarrow> bool" where
  "row_less [] r s = False"
| "row_less ((c, d) # os) r s =
     (if cell_less (row_cell r c) (row_cell s c) then d = ''ASC''
      else if cell_less (row_cell s c) (row_cell r c) then d \<noteq> ''ASC''
      else row_less os r s)"

fun insert_row :: "('a \<Rightarrow> 'a \<Rightarrow> bool) \<Rightarrow> 'a \<Rightarrow> 'a list \<Rightarrow> 'a list" where
  "insert_row lt x [] = [x]"
| "insert_row lt x (y # ys) = (if lt y x then y # insert_row lt x ys else x # y # ys)"

definition sort_rows :: "('a \<Rightarrow> 'a \<Rightarrow> bool) \<Rightarrow> 'a list \<Rightarrow> 'a list" where
  "sort_rows lt xs = foldr (insert_row lt) xs []"

definition num_count :: "jsnum \<Rightarrow> nat" where
  "num_count x = nat \<lfloor>num_val x\<rfloor>"

definition limited :: "jsnum option \<Rightarrow> 'a list \<Rightarrow> 'a list" where
  "limited n xs = (case n of None \<Rightarrow> xs | Some x \<Rightarrow> take (num_count x) xs)"

definition projected :: "string list \<Rightarrow> jsobj \<Rightarrow> jsobj" where
  "projected cs r = (if ''*'' \<in> set cs then r else map (\<lambda>c. (c, row_cell r c)) cs)"

definition select_query :: "(sql_stmt \<Rightarrow> jsobj \<Rightarrow> bool) \<Rightarrow> qb \<Rightarrow> store \<Rightarrow> jsobj list res" where
  "select_query raw q db = bindR (toSelect q) (\<lambda>_.
     bindR (select_rows (q_table q) (\<lambda>r. list_all (\<lambda>cl. clause_holds raw cl r) (q_wheres q)) db) (\<lambda>rs.
     Inr (map (projected (q_columns q)) (limited (q_limit q)
       (drop (case q_offset q of None \<Rightarrow> 0 | Some x \<Rightarrow> num_count x) (sort_rows (row_less (q_orderBy q)) rs))))))"

section \<open>Reads\<close>

record find_options =
  fo_fields :: "string list"
  fo_where :: jsobj
  fo_order :: "(string, string) amap"
  fo_limit :: "jsnum option"
  fo_offset :: "jsnum option"
  fo_cursor :: string
  fo_before :: bool
  fo_maxLimit :: "jsnum option"

record repo_page =
  pg_data :: "jsobj list"
  pg_limit :: jsnum
  pg_more :: bool
  pg_next :: "string option"
  pg_prev :: "string option"

definition page_limit :: "find_options \<Rightarrow> jsnum" where
  "page_limit opts = (case fo_limit opts of Some n \<Rightarrow> n | None \<Rightarrow> Fin 25)"

definition find_entry :: "string \<times> jsval \<Rightarrow> qb \<Rightarrow> qb res" where
  "find_entry kv q = (case snd kv of
     Null \<Rightarrow> whereNull (fst kv) q
   | Arr xs \<Rightarrow> whereIn (fst kv) xs q
   | v \<Rightarrow> qb_where (fst kv) v Undef q)"

definition sort_entry :: "find_options \<Rightarrow> string \<times> string" where
  "sort_entry opts = (case own_entries (fo_order opts) of [] \<Rightarrow> (''id'', ''desc'') | e # es \<Rightarrow> e)"

definition order_entries :: "find_options \<Rightarrow> (string \<times> string) list" where
  "order_entries opts = (case own_entries (fo_order opts) of [] \<Rightarrow> [(''id'', ''desc'')] | es \<Rightarrow> es)"

definition after_cursor :: "find_options \<Rightarrow> qb \<Rightarrow> qb res" where
  "after_cursor opts q = (let (col, dir) = sort_entry opts; k = fo_cursor opts in
     if k = [] then Inr q
     else if fo_before opts then bindR (qb_where col (Str ''<'') (Str k) (clearOrderBy q)) (orderBy col ''desc'')
     else qb_where col (Str (if dir = ''asc'' then ''>'' else ''<'')) (Str k) q)"

definition page_offset :: "find_options \<Rightarrow> qb \<Rightarrow> qb res" where
  "page_offset opts q = (case fo_offset opts of
     Some n \<Rightarrow> if truthy (Num n) \<and> fo_cursor opts = [] then qb_offset n q else Inr q
   | None \<Rightarrow> Inr q)"

definition findMany_query :: "string \<Rightarrow> find_options \<Rightarrow> qb res" where
  "findMany_query table opts =
     bindR (qb_from table) (\<lambda>q.
     bindR (if fo_fields opts \<noteq> [] then qb_select (fo_fields opts) q else Inr q) (\<lambda>q.
     bindR (foldR find_entry (own_entries (fo_where opts)) q) (\<lambda>q.
     bindR (foldR (\<lambda>(c, d). orderBy c d) (order_entries opts) q) (\<lambda>q.
     bindR (after_cursor opts q) (\<lambda>q.
     bindR (qb_limit (num_add (page_limit opts) (Fin 1)) q) (page_offset opts))))))"

definition cursorOf :: "string \<Rightarrow> jsobj \<Rightarrow> string option" where
  "cursorOf col row = (case obj_get row col of Undef \<Rightarrow> None | Null \<Rightarrow> None | v \<Rightarrow> Some (to_str v))"

definition page_of :: "find_options \<Rightarrow> jsobj list \<Rightarrow> repo_page" where
  "page_of opts items =
     (let limit = page_limit opts; more = num_lt limit (Fin (of_nat (length items)));
          kept = (if more then butlast items else items); page = (if fo_before opts then rev kept else kept);
          col = fst (sort_entry opts)
      in \<lparr>pg_data = page, pg_limit = limit, pg_more = more,
          pg_next = (if more \<and> page \<noteq> [] then cursorOf col (last page) else None),
          pg_prev = (if fo_cursor opts \<noteq> [] \<and> page \<noteq> [] then cursorOf col (hd page) else None)\<rparr>)"

definition findMany :: "(sql_stmt \<Rightarrow> jsobj \<Rightarrow> bool) \<Rightarrow> string \<Rightarrow> find_options \<Rightarrow> store \<Rightarrow> repo_page res" where
  "findMany raw table opts db = bindR (findMany_query table opts) (\<lambda>q.
     bindR (select_query raw q db) (\<lambda>items. Inr (page_of opts items)))"

definition findAll :: "(sql_stmt \<Rightarrow> jsobj \<Rightarrow> bool) \<Rightarrow> string \<Rightarrow> find_options \<Rightarrow> store \<Rightarrow> jsobj list res" where
  "findAll raw table opts db =
     (let limit = (case fo_limit opts of Some n \<Rightarrow> n | None \<Rightarrow> (case fo_maxLimit opts of Some n \<Rightarrow> n | None \<Rightarrow> Fin 1000))
      in map_sum id pg_data (findMany raw table (opts\<lparr>fo_limit := Some limit, fo_cursor := [], fo_before := False\<rparr>) db))"

definition first_row :: "jsobj list \<Rightarrow> jsobj option" where
  "first_row rs = (case rs of [] \<Rightarrow> None | r # _ \<Rightarrow> Some r)"

definition findById :: "(sql_stmt \<Rightarrow> jsobj \<Rightarrow> bool) \<Rightarrow> string \<Rightarrow> string \<Rightarrow> string list \<Rightarrow> store \<Rightarrow> jsobj res" where
  "findById raw table i columns db =
     bindR (qb_from table) (\<lambda>q. bindR (if columns \<noteq> [] then qb_select columns q else Inr q) (\<lambda>q.
     bindR (qb_where ''id'' (Str i) Undef q) (\<lambda>q. bindR (select_query raw q db) (\<lambda>rs.
     case first_row rs of None \<Rightarrow> not_found ''Item'' i | Some r \<Rightarrow> Inr r))))"

definition equal_entry :: "string \<times> jsval \<Rightarrow> qb \<Rightarrow> qb res" where
  "equal_entry kv q = (if snd kv = Null then whereNull (fst kv) q else qb_where (fst kv) (snd kv) Undef q)"

definition findOne :: "(sql_stmt \<Rightarrow> jsobj \<Rightarrow> bool) \<Rightarrow> string \<Rightarrow> jsobj \<Rightarrow> string list \<Rightarrow> store \<Rightarrow> jsobj option res" where
  "findOne raw table wheres columns db =
     bindR (qb_from table) (\<lambda>q. bindR (if columns \<noteq> [] then qb_select columns q else Inr q) (\<lambda>q.
     bindR (foldR equal_entry (own_entries wheres) q) (\<lambda>q. bindR (select_query raw q db) (\<lambda>rs. Inr (first_row rs)))))"

definition repo_count :: "(sql_stmt \<Rightarrow> jsobj \<Rightarrow> bool) \<Rightarrow> string \<Rightarrow> jsobj \<Rightarrow> store \<Rightarrow> nat res" where
  "repo_count raw table wheres db =
     bindR (qb_from table) (\<lambda>q. bindR (foldR equal_entry (own_entries wheres) q) (\<lambda>q.
     bindR (toCount q) (\<lambda>_. bindR (select_query raw q db) (\<lambda>rs. Inr (length rs)))))"

section \<open>Constraint errors\<close>

fun find_match :: "(string \<Rightarrow> 'a option) \<Rightarrow> string \<Rightarrow> 'a option" where
  "find_match f [] = f []"
| "find_match f (c # s) = (case f (c # s) of Some x \<Rightarrow> Some x | None \<Rightarrow> find_match f s)"

definition word_after :: "string \<Rightarrow> string \<Rightarrow> (string \<times> string) option" where
  "word_after p s = (let t = drop (length p) s; u = takeWhile is_word t in
     if take (length p) s = p \<and> u \<noteq> [] then Some (u, dropWhile is_word t) else None)"

text \<open>\<open>p\w+\.(\w+)\<close>\<close>

definition column_after :: "string \<Rightarrow> string \<Rightarrow> string option" where
  "column_after p s = (case word_after p s of
     Some (t, CHR ''.'' # r) \<Rightarrow> (let u = takeWhile is_word r in if u \<noteq> [] then Some u else None)
   | _ \<Rightarrow> None)"

definition constraintViolation :: "string \<Rightarrow> js_error option" where
  "constraintViolation msg = (case find_match (column_after ''UNIQUE constraint failed: '') msg of
     Some c \<Rightarrow> Some (JsError ''ValidationError'' (quoted c @ '' already exists''))
   | None \<Rightarrow> (case find_match (column_after ''NOT NULL constraint failed: '') msg of
       Some c \<Rightarrow> Some (JsError ''ValidationError'' (quoted c @ '' is required''))
     | None \<Rightarrow> (case find_match (word_after ''CHECK constraint failed: '') msg of
         Some (c, _) \<Rightarrow> Some (JsError ''ValidationError'' (''Constraint violated: '' @ c))
       | None \<Rightarrow> None)))"

definition mapConstraintError :: "string \<Rightarrow> js_error" where
  "mapConstraintError msg = (case constraintViolation msg of Some e \<Rightarrow> e | None \<Rightarrow> JsError ''ValidationError'' msg)"

definition write_failure :: "string \<Rightarrow> js_error \<Rightarrow> js_error" where
  "write_failure what e = (let msg = err_msg e in
     if str_includes msg ''UNIQUE constraint'' \<or> str_includes msg ''NOT NULL'' \<or> str_includes msg ''CHECK constraint''
     then mapConstraintError msg else JsError ''InternalError'' (what @ msg))"

section \<open>Writes\<close>

definition writesA :: "api_env \<Rightarrow> string \<Rightarrow> sql_write list \<Rightarrow> (unit, store) act" where
  "writesA env what ws db = (case run_batch (en_refuses env) ws db of
     Inl e \<Rightarrow> (Inl (write_failure what e), db) | Inr db' \<Rightarrow> (Inr (), db'))"

definition stamped :: "api_env \<Rightarrow> string \<Rightarrow> jsobj \<Rightarrow> jsobj" where
  "stamped env purpose data = obj_spread (obj_spread [(''id'', Str (en_uuid env purpose))] data)
     [(''created_at'', Str (en_stamp env)), (''updated_at'', Str (en_stamp env))]"

definition repo_create :: "api_env \<Rightarrow> string \<Rightarrow> jsobj \<Rightarrow> (jsobj, store) act" where
  "repo_create env table data = (let row = stamped env ''id'' data in
     bindA (liftA (bindR (qb_from table) (\<lambda>q. toInsert row (returning True q)))) (\<lambda>_.
     bindA (writesA env ''Create failed: '' [InsertRow table row]) (\<lambda>_. retA row)))"

definition repo_createMany :: "api_env \<Rightarrow> string \<Rightarrow> jsobj list \<Rightarrow> (jsobj list, store) act" where
  "repo_createMany env table dataArr = (if dataArr = [] then retA []
     else (let rows = map (\<lambda>(n, data). stamped env (''id:'' @ show_nat n) data) (enumerate 0 dataArr) in
       bindA (liftA (bindR (qb_from table) (\<lambda>q. toInsertMany rows (returning True q)))) (\<lambda>_.
       bindA (writesA env ''Batch create failed: '' (map (InsertRow table) rows)) (\<lambda>_. retA rows))))"

text \<open>The columns of a table are asked for once per table: the names that have \<open>updated_at\<close>, and those that do not.\<close>

definition tableHasUpdatedAt :: "(string \<Rightarrow> string list) \<Rightarrow> string \<Rightarrow> string list \<times> string list \<Rightarrow> bool \<times> string list \<times> string list" where
  "tableHasUpdatedAt columns_of table known = (let (yes, no) = known in
     if table \<in> set yes then (True, known) else if table \<in> set no then (False, known)
     else if ''updated_at'' \<in> set (columns_of table) then (True, table # yes, no) else (False, yes, table # no))"

definition updatedA :: "string \<Rightarrow> string \<Rightarrow> (jsobj, store) act" where
  "updatedA table i db = (case row_with_id table i db of None \<Rightarrow> (not_found ''Item'' i, db) | Some r \<Rightarrow> (Inr r, db))"

definition repo_update :: "api_env \<Rightarrow> bool \<Rightarrow> string \<Rightarrow> string \<Rightarrow> jsobj \<Rightarrow> (jsobj, store) act" where
  "repo_update env hasUpdatedAt table i data =
     (let u = (if hasUpdatedAt then obj_spread (obj_spread [] data) [(''updated_at'', Str (en_stamp env))] else obj_spread [] data);
          i' = (case map_of u ''id'' of Some (Str j) \<Rightarrow> j | _ \<Rightarrow> i)
      in bindA (liftA (bindR (qb_from table) (\<lambda>q. bindR (qb_where ''id'' (Str i) Undef (returning True q)) (toUpdate u)))) (\<lambda>_.
         bindA (readA (row_with_id table i)) (\<lambda>found.
         bindA (writesA env ''Update failed: '' [UpdateIn table ''id'' [i] u]) (\<lambda>_.
         if found = None then liftA (not_found ''Item'' i) else updatedA table i'))))"

definition repo_delete :: "api_env \<Rightarrow> string \<Rightarrow> string \<Rightarrow> (unit, store) act" where
  "repo_delete env table i =
     bindA (liftA (bindR (qb_from table) (\<lambda>q. bindR (qb_where ''id'' (Str i) Undef (returning True q)) toDelete))) (\<lambda>_.
     bindA (readA (row_with_id table i)) (\<lambda>found.
     bindA (\<lambda>db. case run_batch (en_refuses env) [DeleteIn table ''id'' [i]] db of Inl e \<Rightarrow> (Inl e, db) | Inr db' \<Rightarrow> (Inr (), db')) (\<lambda>_.
     if found = None then liftA (not_found ''Item'' i) else retA ())))"

end
