(* ===== verification/RepositoryClaims.thy ===== *)
theory RepositoryClaims
  imports Repository
begin

text \<open>Keyset pagination: what following the cursors of \<open>findMany\<close> from page to page gives.\<close>

section \<open>Sorting by a key\<close>

locale strict_key_order =
  fixes R :: "'k \<Rightarrow> 'k \<Rightarrow> bool" and key :: "'a \<Rightarrow> 'k"
  assumes irrefl: "\<not> R x x"
    and trans: "R x y \<Longrightarrow> R y z \<Longrightarrow> R x z"
    and total: "R x y \<or> x = y \<or> R y x"
begin

abbreviation before :: "'a \<Rightarrow> 'a \<Rightarrow> bool" where
  "before x y \<equiv> R (key x) (key y)"

lemma insert_row_set [simp]: "set (insert_row before x ys) = insert x (set ys)"
  by (induction ys) auto

lemma sort_rows_set [simp]: "set (sort_rows before xs) = set xs"
  unfolding sort_rows_def by (induction xs) auto

lemma insert_row_sorted:
  "sorted_wrt before ys \<Longrightarrow> key x \<notin> key ` set ys \<Longrightarrow> sorted_wrt before (insert_row before x ys)"
proof (induction ys)
  case (Cons y ys)
  have "R (key x) (key y)" if "\<not> R (key y) (key x)" using total [of "key x" "key y"] Cons.prems(2) that by auto
  then show ?case using Cons by (auto intro: trans)
qed simp

lemma sort_rows_sorted: "distinct (map key xs) \<Longrightarrow> sorted_wrt before (sort_rows before xs)"
proof (induction xs)
  case (Cons x xs)
  have "sort_rows before (x # xs) = insert_row before x (sort_rows before xs)" by (simp add: sort_rows_def)
  then show ?case using Cons by (simp add: insert_row_sorted)
qed (simp add: sort_rows_def)

lemma filter_insert_row:
  "sorted_wrt before ys \<Longrightarrow> filter P (insert_row before x ys) = (if P x then insert_row before x (filter P ys) else filter P ys)"
proof (induction ys)
  case (Cons y ys)
  have "insert_row before x (filter P ys) = x # filter P ys" if "\<not> R (key y) (key x)"
  proof -
    have "\<not> R (key z) (key x)" if "z \<in> set ys" for z
      using Cons.prems that \<open>\<not> R (key y) (key x)\<close> by (auto intro: trans)
    then show ?thesis by (cases "filter P ys") (auto dest: filter_eq_ConsD)
  qed
  then show ?case using Cons by auto
qed simp

lemma filter_sort_rows: "distinct (map key xs) \<Longrightarrow> filter P (sort_rows before xs) = sort_rows before (filter P xs)"
proof (induction xs)
  case (Cons x xs)
  then show ?case using filter_insert_row [OF sort_rows_sorted, of xs P x] by (simp add: sort_rows_def)
qed (simp add: sort_rows_def)

lemma sorted_distinct: "sorted_wrt before xs \<Longrightarrow> distinct xs"
  by (induction xs) (auto simp: irrefl)

text \<open>The rows after the one at a place are the rest of the list.\<close>

lemma filter_after: "sorted_wrt before xs \<Longrightarrow> j < length xs \<Longrightarrow> filter (before (xs ! j)) xs = drop (Suc j) xs"
proof (induction xs arbitrary: j)
  case (Cons x xs)
  show ?case
  proof (cases j)
    case 0
    then show ?thesis using Cons.prems(1) irrefl by (simp add: filter_id_conv)
  next
    case (Suc i)
    then have i: "i < length xs" using Cons.prems(2) by simp
    then have "\<not> before (xs ! i) x" using Cons.prems(1) irrefl trans by (meson nth_mem sorted_wrt.simps(2))
    then show ?thesis using Cons Suc i by simp
  qed
qed simp

end

interpretation ascending: strict_key_order str_less "key :: 'a \<Rightarrow> string" for key
  by unfold_locales (use str_less_linear in \<open>auto intro: str_less_trans\<close>)

interpretation descending: strict_key_order "\<lambda>x y. str_less y x" "key :: 'a \<Rightarrow> string" for key
  by unfold_locales (use str_less_linear in \<open>auto intro: str_less_trans\<close>)

section \<open>The query of a page\<close>

definition keyed_column :: "string \<Rightarrow> bool" where
  "keyed_column c \<longleftrightarrow> IDENTIFIER_RE c \<and> c \<noteq> ''__GROUP__''"

text \<open>A request for pages of \<open>n\<close> rows with the texts \<open>ws\<close> in their columns, sorted by the column \<open>c\<close>.\<close>

definition page_request :: "(string \<times> string) list \<Rightarrow> string \<Rightarrow> bool \<Rightarrow> nat \<Rightarrow> string \<Rightarrow> find_options" where
  "page_request ws c up n k = \<lparr>fo_fields = [], fo_where = map (\<lambda>(c, s). (c, Str s)) ws,
     fo_order = [(c, if up then ''asc'' else ''desc'')], fo_limit = Some (Fin (of_nat n)), fo_offset = None, fo_cursor = k,
     fo_before = False, fo_maxLimit = None\<rparr>"

definition page_clauses :: "(string \<times> string) list \<Rightarrow> string \<Rightarrow> bool \<Rightarrow> string \<Rightarrow> wclause list" where
  "page_clauses ws c up k = map (\<lambda>(c, v). clause c ''='' v ''and'') (own_entries (map (\<lambda>(c, s). (c, Str s)) ws)) @
     (if k = [] then [] else [clause c (if up then ''>'' else ''<'') (Str k) ''and''])"

lemma split_ident: "IDENTIFIER_RE c \<Longrightarrow> split_on CHR ''.'' c = [c]"
proof -
  have dot: "\<not> is_word CHR ''.''" by code_simp
  have "CHR ''.'' \<notin> set s \<Longrightarrow> split_acc CHR ''.'' acc s = [rev acc @ s]" for s acc by (induction s arbitrary: acc) auto
  moreover assume "IDENTIFIER_RE c"
  then have "CHR ''.'' \<notin> set c" using ident_word [of c "CHR ''.''"] dot by blast
  ultimately show ?thesis by (simp add: split_on_def)
qed

lemma sanitizeColumn_ident [simp]: "IDENTIFIER_RE c \<Longrightarrow> sanitizeColumn c ctx False = Inr c"
  by (simp add: sanitizeColumn_def split_ident)

lemma find_entries:
  "(\<And>c v. (c, v) \<in> set es \<Longrightarrow> IDENTIFIER_RE c \<and> (\<exists>s. v = Str s)) \<Longrightarrow>
   foldR find_entry es q = Inr (q\<lparr>q_wheres := q_wheres q @ map (\<lambda>(c, v). clause c ''='' v ''and'') es\<rparr>)"
proof (induction es arbitrary: q)
  case (Cons e es)
  obtain c s where e: "e = (c, Str s)" "IDENTIFIER_RE c" using Cons.prems [of "fst e" "snd e"] by (cases e) auto
  have "find_entry e q = Inr (q\<lparr>q_wheres := q_wheres q @ [clause c ''='' (Str s) ''and'']\<rparr>)"
    by (simp add: e find_entry_def qb_where_def where_typed_def validateOp_def valid_where_ops_def push_where_def)
  moreover have "foldR find_entry es q' = Inr (q'\<lparr>q_wheres := q_wheres q' @ map (\<lambda>(c, v). clause c ''='' v ''and'') es\<rparr>)" for q'
    by (rule Cons.IH) (rule Cons.prems, simp)
  ultimately show ?case by (simp add: e)
qed simp

lemma findMany_query_page:
  assumes "IDENTIFIER_RE table" "\<forall>(c, s) \<in> set ws. keyed_column c" "keyed_column c" "n < 2 ^ 52"
  shows "\<exists>q. findMany_query table (page_request ws c up n k) = Inr q \<and> q_table q = table \<and> q_columns q = [''*''] \<and>
    q_wheres q = page_clauses ws c up k \<and> q_orderBy q = [(c, if up then ''ASC'' else ''DESC'')] \<and>
    q_limit q = Some (Fin (of_nat (Suc n))) \<and> q_offset q = None \<and> q_ctes q = [] \<and> q_joins q = [] \<and> q_havings q = [] \<and>
    q_rawBindings q = [] \<and> q_rawSelects q = []"
proof -
  obtain q where q: "qb_from table = Inr q" "q_table q = table" "q_columns q = [''*'']" "q_wheres q = []" "q_orderBy q = []"
      "q_limit q = None" "q_offset q = None" "q_ctes q = []" "q_joins q = []" "q_havings q = []" "q_rawBindings q = []" "q_rawSelects q = []"
    using assms(1) by (simp add: qb_from_def)
  let ?es = "own_entries (map (\<lambda>(c, s). (c, Str s)) ws)"
  have es: "foldR find_entry ?es q = Inr (q\<lparr>q_wheres := map (\<lambda>(c, v). clause c ''='' v ''and'') ?es\<rparr>)"
    using find_entries [of ?es q] assms(2) q(4) by (force simp: keyed_column_def)
  have c: "IDENTIFIER_RE c" using assms(3) by (simp add: keyed_column_def)
  have dir: "order_direction ''asc'' = Inr ''ASC''" "order_direction ''desc'' = Inr ''DESC''" by code_simp+
  have "num_add (Fin (of_nat n)) (Fin 1) = Fin (of_nat (Suc n))"
    using num_add_int [of "int n" 1] assms(4) by (simp add: algebra_simps)
  moreover have "num_is_integer (Fin (of_nat (Suc n)))" "\<not> num_lt (Fin (of_nat (Suc n))) (Fin 0)"
    by (simp_all add: num_is_integer_def is_finite_num_def num_val_def num_lt_def)
  ultimately have lim: "qb_limit (num_add (Fin (of_nat n)) (Fin 1)) q' = Inr (q'\<lparr>q_limit := Some (Fin (of_nat (Suc n)))\<rparr>)" for q'
    by (simp only: qb_limit_def) simp
  have own: "own_entries [(c, d)] = [(c, d)]" for c :: string and d :: string by (simp add: own_entries_def)
  show ?thesis
    using q es c dir lim
    by (cases up) (simp_all add: findMany_query_def page_request_def page_clauses_def order_entries_def sort_entry_def after_cursor_def own
      page_offset_def page_limit_def orderBy_def qb_where_def where_typed_def validateOp_def valid_where_ops_def push_where_def Let_def)
qed

definition plain_clause :: "wclause \<Rightarrow> bool" where
  "plain_clause cl \<longleftrightarrow> keyed_column (w_column cl) \<and> w_op cl \<in> {''='', ''<'', ''>''}"

lemma toSelect_plain:
  assumes "list_all plain_clause (q_wheres q)" "q_ctes q = []" "q_joins q = []" "q_havings q = []" "q_rawBindings q = []"
  shows "\<exists>st. toSelect q = Inr st"
proof -
  have re: "IDENTIFIER_RE c \<Longrightarrow> COLUMN_RE c" for c
    by (auto simp: IDENTIFIER_RE_def COLUMN_RE_def list_all_iff split: list.splits)
  have one: "renderWhereClause q cl i = Inr (w_column cl @ '' '' @ w_op cl @ '' '' @ qm i, [w_value cl], i + 1)"
    if "plain_clause cl" for cl i
    using that re [of "w_column cl"]
    by (auto simp: plain_clause_def keyed_column_def renderWhereClause_def buildSingleClause_def validateOp_def valid_where_ops_def)
  have "list_all plain_clause cls \<Longrightarrow> \<exists>x. render_seq (renderWhereClause q) cls i = Inr x" for cls i
  proof (induction cls arbitrary: i)
    case (Cons cl cls)
    then obtain ts bs k where "render_seq (renderWhereClause q) cls (i + 1) = Inr (ts, bs, k)" by (fastforce)
    then show ?case using Cons.prems one by simp
  qed simp
  then have "\<exists>x. buildWhere q i = Inr x" for i
    using assms(1) by (auto simp: buildWhere_def bindR_def split: sum.splits) (metis Inl_Inr_False)
  then obtain wh b where "buildWhere q (start_index 0) = Inr (wh, b)" by (metis surj_pair)
  then show ?thesis using assms by (simp add: toSelect_def renderCTE_def buildJoins_def Let_def split: prod.splits)
qed

section \<open>Following the cursors\<close>

text \<open>Page after page until there is no cursor to follow.\<close>

fun all_pages :: "(sql_stmt \<Rightarrow> jsobj \<Rightarrow> bool) \<Rightarrow> string \<Rightarrow> store \<Rightarrow> nat \<Rightarrow> find_options \<Rightarrow> jsobj list res option" where
  "all_pages raw table db 0 opts = None"
| "all_pages raw table db (Suc fuel) opts = (case findMany raw table opts db of
     Inl e \<Rightarrow> Some (Inl e)
   | Inr p \<Rightarrow> (case pg_next p of
       None \<Rightarrow> Some (Inr (pg_data p))
     | Some k \<Rightarrow> map_option (map_sum id (append (pg_data p))) (all_pages raw table db fuel (opts\<lparr>fo_cursor := k\<rparr>))))"

definition row_key :: "string \<Rightarrow> jsobj \<Rightarrow> string" where
  "row_key c r = (case row_cell r c of Str s \<Rightarrow> s | _ \<Rightarrow> [])"

definition matching :: "(string \<times> string) list \<Rightarrow> jsobj \<Rightarrow> bool" where
  "matching ws r \<longleftrightarrow> (\<forall>(c, s) \<in> set ws. cell_equals (row_cell r c) (Str s))"

definition key_before :: "bool \<Rightarrow> string \<Rightarrow> string \<Rightarrow> bool" where
  "key_before up x y = (if up then str_less x y else str_less y x)"

interpretation keys: strict_key_order "key_before up" "row_key c" for up c
  by unfold_locales (use str_less_linear in \<open>auto simp: key_before_def intro: str_less_trans\<close>)

lemma row_less_keys:
  assumes "row_cell r c = Str s" "row_cell r' c = Str s'"
  shows "row_less [(c, if up then ''ASC'' else ''DESC'')] r r' = key_before up (row_key c r) (row_key c r')"
  using assms str_less_linear [of s s'] str_less_trans [of s s' s] by (auto simp: row_key_def key_before_def)

lemma sort_rows_cong: "(\<And>x y. x \<in> set xs \<Longrightarrow> y \<in> set xs \<Longrightarrow> f x y = g x y) \<Longrightarrow> sort_rows f xs = sort_rows g xs"
proof -
  have ins: "(\<And>y. y \<in> set ys \<Longrightarrow> f y x = g y x) \<Longrightarrow> insert_row f x ys = insert_row g x ys" for x ys
    by (induction ys) auto
  have sub: "set (insert_row g x ys) = insert x (set ys)" for x ys by (induction ys) auto
  have set: "set (foldr (insert_row g) zs []) = set zs" for zs by (induction zs) (auto simp: sub)
  have "set zs \<subseteq> set xs \<Longrightarrow> foldr (insert_row f) zs [] = foldr (insert_row g) zs []"
    if eq: "\<And>x y. x \<in> set xs \<Longrightarrow> y \<in> set xs \<Longrightarrow> f x y = g x y" for zs
  proof (induction zs)
    case (Cons z zs)
    then have "insert_row f z (foldr (insert_row g) zs []) = insert_row g z (foldr (insert_row g) zs [])"
      by (intro ins) (auto simp: set intro!: eq)
    then show ?case using Cons by simp
  qed simp
  then show "(\<And>x y. x \<in> set xs \<Longrightarrow> y \<in> set xs \<Longrightarrow> f x y = g x y) \<Longrightarrow> ?thesis"
    by (simp add: sort_rows_def)
qed

lemma page_clauses_hold:
  assumes "row_cell r c = Str s"
  shows "list_all (\<lambda>cl. clause_holds raw cl r) (page_clauses ws c up k) \<longleftrightarrow> matching ws r \<and> (k = [] \<or> key_before up k (row_key c r))"
proof -
  have eq: "clause_holds raw (clause d ''='' v t) r = cell_equals (row_cell r d) v" for d v t
    by (simp add: clause_holds_def clause_def Let_def)
  have "clause_holds raw (clause c (if up then ''>'' else ''<'') (Str k) t) r = key_before up k (row_key c r)" for t
    using assms by (simp add: clause_holds_def clause_def as_cell_def bound_for_def key_before_def row_key_def Let_def)
  then show ?thesis by (auto simp: page_clauses_def list_all_iff matching_def eq)
qed

definition matched_rows :: "string \<Rightarrow> store \<Rightarrow> (string \<times> string) list \<Rightarrow> jsobj list" where
  "matched_rows table db ws = filter (matching ws) (rows_of db table)"

definition sorted_matches :: "string \<Rightarrow> store \<Rightarrow> (string \<times> string) list \<Rightarrow> string \<Rightarrow> bool \<Rightarrow> jsobj list" where
  "sorted_matches table db ws c up = sort_rows (row_less [(c, if up then ''ASC'' else ''DESC'')]) (matched_rows table db ws)"

text \<open>The sort column holds a text that is not empty in every row, and tells the matching rows apart.\<close>

definition keyed_table :: "string \<Rightarrow> store \<Rightarrow> (string \<times> string) list \<Rightarrow> string \<Rightarrow> bool" where
  "keyed_table table db ws c \<longleftrightarrow> IDENTIFIER_RE table \<and> (\<forall>(c, s) \<in> set ws. keyed_column c) \<and> keyed_column c \<and>
     amap_has table db \<and> (\<forall>r \<in> set (rows_of db table). \<exists>s. map_of r c = Some (Str s) \<and> s \<noteq> []) \<and>
     distinct (map (row_key c) (matched_rows table db ws))"

lemma keyed_cell:
  assumes "keyed_table table db ws c" "r \<in> set (rows_of db table)"
  shows "row_cell r c = Str (row_key c r)" "map_of r c = Some (Str (row_key c r))" "row_key c r \<noteq> []"
  using assms by (fastforce simp: keyed_table_def row_key_def row_cell_def as_cell_def)+

lemma keyed_less:
  "keyed_table table db ws c \<Longrightarrow> x \<in> set (rows_of db table) \<Longrightarrow> y \<in> set (rows_of db table) \<Longrightarrow>
     row_less [(c, if up then ''ASC'' else ''DESC'')] x y = key_before up (row_key c x) (row_key c y)"
  by (rule row_less_keys) (rule keyed_cell(1), assumption+)+

lemma sorted_matches_keys:
  assumes "keyed_table table db ws c"
  shows "sorted_matches table db ws c up = sort_rows (\<lambda>x y. key_before up (row_key c x) (row_key c y)) (matched_rows table db ws)"
  unfolding sorted_matches_def
  by (rule sort_rows_cong) (rule keyed_less [OF assms], auto simp: matched_rows_def)

lemma findMany_page:
  assumes keyed: "keyed_table table db ws c" and n: "n < 2 ^ 52"
  shows "findMany raw table (page_request ws c up n k) db = Inr (page_of (page_request ws c up n k)
    (take (Suc n) (filter (\<lambda>r. k = [] \<or> key_before up k (row_key c r)) (sorted_matches table db ws c up))))"
proof -
  have names: "IDENTIFIER_RE table" "\<forall>(c, s) \<in> set ws. keyed_column c" "keyed_column c" "amap_has table db"
    and dist: "distinct (map (row_key c) (matched_rows table db ws))"
    using keyed by (simp_all add: keyed_table_def)
  obtain q where q: "findMany_query table (page_request ws c up n k) = Inr q" "q_table q = table" "q_columns q = [''*'']"
      "q_wheres q = page_clauses ws c up k" "q_orderBy q = [(c, if up then ''ASC'' else ''DESC'')]"
      "q_limit q = Some (Fin (of_nat (Suc n)))" "q_offset q = None" "q_ctes q = []" "q_joins q = []" "q_havings q = []"
      "q_rawBindings q = []"
    using findMany_query_page [OF names(1-3) n, of up k] by blast
  have "list_all plain_clause (q_wheres q)"
    using names(2,3) by (auto simp: q(4) page_clauses_def list_all_iff plain_clause_def clause_def)
  then obtain st where st: "toSelect q = Inr st" using toSelect_plain q(8-11) by blast
  let ?later = "\<lambda>r. k = [] \<or> key_before up k (row_key c r)"
  have "filter (\<lambda>r. list_all (\<lambda>cl. clause_holds raw cl r) (page_clauses ws c up k)) (rows_of db table) = filter ?later (matched_rows table db ws)"
    using page_clauses_hold [OF keyed_cell(1) [OF keyed]] by (auto simp: matched_rows_def intro!: filter_cong)
  moreover have "sort_rows (row_less [(c, if up then ''ASC'' else ''DESC'')]) (filter ?later (matched_rows table db ws)) =
      filter ?later (sorted_matches table db ws c up)"
    unfolding sorted_matches_keys [OF keyed] keys.filter_sort_rows [OF dist]
    by (rule sort_rows_cong) (rule keyed_less [OF keyed], auto simp: matched_rows_def)
  moreover have "num_count (Fin (of_nat (Suc n))) = Suc n" unfolding num_count_def num_val_def by (simp only: jsnum.case floor_of_nat nat_int)
  moreover have "projected [''*''] = (\<lambda>r. r)" by (simp add: projected_def fun_eq_iff)
  ultimately show ?thesis
    using names(4) q(1-7) st by (simp add: findMany_def select_query_def select_rows_def limited_def)
qed

lemma sorted_matches_facts:
  assumes "keyed_table table db ws c"
  shows "sorted_wrt (\<lambda>x y. key_before up (row_key c x) (row_key c y)) (sorted_matches table db ws c up)"
    "set (sorted_matches table db ws c up) = set (matched_rows table db ws)"
  using assms by (simp_all add: sorted_matches_keys keys.sort_rows_sorted keyed_table_def)

lemma page_of_rest:
  assumes "0 < n"
  shows "page_of (page_request ws c up n k) (take (Suc n) D) =
    \<lparr>pg_data = take n D, pg_limit = Fin (of_nat n), pg_more = (n < length D),
     pg_next = (if n < length D then cursorOf c (D ! (n - 1)) else None),
     pg_prev = (if k \<noteq> [] \<and> D \<noteq> [] then cursorOf c (hd D) else None)\<rparr>"
proof -
  have own: "own_entries [(c, d)] = [(c, d)]" for c :: string and d :: string by (simp add: own_entries_def)
  have lt: "num_lt (Fin (of_nat a)) (Fin (of_nat b)) = (a < b)" for a b by (simp add: num_lt_def is_finite_num_def num_val_def)
  have "butlast (take (Suc n) D) = take n D" if "n < length D" using that by (simp add: butlast_take)
  moreover have "last (take n D) = D ! (n - 1)" if "n < length D" using that assms by (subst last_conv_nth) auto
  moreover have "hd (take n D) = hd D" using assms by (cases D; cases n) auto
  ultimately show ?thesis using assms
    by (auto simp: page_of_def page_request_def page_limit_def sort_entry_def own lt Let_def simp del: of_nat_Suc)
qed

lemma all_pages_rest:
  assumes keyed: "keyed_table table db ws c" and n: "0 < n" "n < 2 ^ 52"
  shows "m \<le> length S \<Longrightarrow> S = sorted_matches table db ws c up \<Longrightarrow> k = (if m = 0 then [] else row_key c (S ! (m - 1))) \<Longrightarrow>
    length S - m < fuel \<Longrightarrow> all_pages raw table db fuel (page_request ws c up n k) = Some (Inr (drop m S))"
proof (induction fuel arbitrary: m k)
  case (Suc fuel)
  note S = Suc.prems(2)
  have cell: "map_of r c = Some (Str (row_key c r))" "row_key c r \<noteq> []" if "r \<in> set S" for r
    using that keyed_cell(2,3) [OF keyed] sorted_matches_facts(2) [OF keyed] by (auto simp: S matched_rows_def)
  have "filter (\<lambda>r. k = [] \<or> key_before up k (row_key c r)) S = drop m S"
  proof (cases m)
    case 0
    then show ?thesis using Suc.prems(3) by simp
  next
    case (Suc j)
    then have "j < length S" and k: "k = row_key c (S ! j)" "k \<noteq> []" using Suc.prems cell by auto
    then show ?thesis using keys.filter_after [OF sorted_matches_facts(1) [OF keyed, of up, folded S]] Suc by simp
  qed
  then have page: "findMany raw table (page_request ws c up n k) db = Inr (page_of (page_request ws c up n k) (take (Suc n) (drop m S)))"
    using findMany_page [OF keyed n(2), of raw up k] by (simp only: S)
  note page' = page [unfolded page_of_rest [OF n(1)]]
  show ?case
  proof (cases "n < length (drop m S)")
    case False
    then show ?thesis using page' by simp
  next
    case True
    let ?r = "S ! (m + n - 1)"
    have r: "?r \<in> set S" "drop m S ! (n - 1) = ?r" using True n(1) by (auto simp: nth_drop)
    have next_key: "cursorOf c ?r = Some (row_key c ?r)" using cell(1) [OF r(1)] by (simp add: cursorOf_def obj_get_def)
    have "all_pages raw table db fuel (page_request ws c up n (row_key c ?r)) = Some (Inr (drop (m + n) S))"
      by (rule Suc.IH) (use True Suc.prems n(1) in auto)
    moreover have "page_request ws c up n k\<lparr>fo_cursor := x\<rparr> = page_request ws c up n x" for x by (simp add: page_request_def)
    moreover have "take n (drop m S) @ drop (m + n) S = drop m S" by (metis add.commute append_take_drop_id drop_drop)
    ultimately show ?thesis using page' True r next_key by simp
  qed
qed simp


definition demo_items :: "string list \<Rightarrow> store" where
  "demo_items names = [(''t'', map (\<lambda>(i, s). [(''id'', Num (Fin (of_nat i))), (''name'', Str s)]) (enumerate 1 names))]"


text \<open>Where two rows share their text, the second of them is on no page if the first one ends a page.\<close>

lemma equal_keys_are_skipped:
  "all_pages (\<lambda>st r. True) ''t'' (demo_items [''a'', ''b'', ''b'', ''c'']) 9 (page_request [] ''name'' True 2 []) =
     Some (Inr [[(''id'', Num (Fin 1)), (''name'', Str ''a'')], [(''id'', Num (Fin 2)), (''name'', Str ''b'')],
       [(''id'', Num (Fin 4)), (''name'', Str ''c'')]])"
  by code_simp

end
