(* ===== verification/Approvals.thy ===== *)
theory Approvals
  imports Repository
begin

text \<open>
  \<open>apps/api/src/plugins/approvals/service.ts\<close>: the approval hierarchy of a collection, configured in its
  \<open>schema_json\<close>, with its records in \<open>_approvals\<close>. The caller names the level that is approved.
\<close>

definition storeA :: "('a, store) act \<Rightarrow> 'a api" where
  "storeA m w = (let (r, db) = m (w_store w) in (r, w\<lparr>w_store := db\<rparr>))"

definition parseApprovalConfig :: "(string \<Rightarrow> jsval res) \<Rightarrow> jsval \<Rightarrow> jsval" where
  "parseApprovalConfig parse configJson =
     (if \<not> truthy configJson
      then Obj [(''levels'', Arr [Obj [(''level'', Num (Fin 1)), (''role'', Str ''Administrator''), (''can_approve_up_to'', Null)]])]
      else (case parse (to_str configJson) of Inr v \<Rightarrow> v | Inl e \<Rightarrow> Obj [(''levels'', Arr [])]))"

text \<open>\<open>levels.find((l) => l.level === level)\<close>\<close>

fun find_elem :: "jsnum \<Rightarrow> jsval list \<Rightarrow> jsval option res" where
  "find_elem n [] = Inr None"
| "find_elem n (l # ls) = bindR (prop_get l ''level'') (\<lambda>x.
     case x of Num m \<Rightarrow> if num_eq m n then Inr (Some l) else find_elem n ls | _ \<Rightarrow> find_elem n ls)"

definition find_level :: "jsval \<Rightarrow> jsnum \<Rightarrow> jsval option res" where
  "find_level levels n = (case levels of
     Arr xs \<Rightarrow> find_elem n xs
   | Undef \<Rightarrow> throw_type ''Cannot read properties of undefined''
   | Null \<Rightarrow> throw_type ''Cannot read properties of null''
   | _ \<Rightarrow> throw_type ''find is not a function'')"

definition doc_approvals :: "string \<Rightarrow> string \<Rightarrow> string \<Rightarrow> jsnum \<Rightarrow> find_options" where
  "doc_approvals slug i dir limit = \<lparr>fo_fields = [], fo_where = [(''collection_slug'', Str slug), (''document_id'', Str i)],
     fo_order = [(''level'', dir)], fo_limit = Some limit, fo_offset = None, fo_cursor = [], fo_before = False, fo_maxLimit = None\<rparr>"

definition getNextLevel :: "string \<Rightarrow> string \<Rightarrow> jsval \<Rightarrow> jsnum option api" where
  "getNextLevel slug i config = bindA (liftA (prop_get config ''levels'')) (\<lambda>levels.
     if \<not> truthy levels \<or> levels = Arr [] then retA None
     else bindA (\<lambda>w. (findMany (\<lambda>st r. True) ''_approvals'' (doc_approvals slug i ''desc'' (Fin 1)) (w_store w), w)) (\<lambda>existing.
       let highest = (case pg_data existing of [] \<Rightarrow> Fin 0 | r # _ \<Rightarrow> to_num (obj_get r ''level'')); next = num_add highest (Fin 1) in
       bindA (liftA (find_level levels next)) (\<lambda>l. retA (if l = None then None else Some next))))"

definition role_of :: "auth_context \<Rightarrow> jsobj option api" where
  "role_of a w = (map_sum id first_row (select_rows ''_roles'' (col_in ''id'' [au_role_id a]) (w_store w)), w)"

definition canApprove :: "auth_context \<Rightarrow> string \<Rightarrow> jsnum \<Rightarrow> jsval \<Rightarrow> jsnum option \<Rightarrow> string option api" where
  "canApprove a slug level config amount = bindA (liftA (prop_get config ''levels'')) (\<lambda>levels.
     bindA (liftA (find_level levels level)) (\<lambda>found. case found of
       None \<Rightarrow> retA (Some (''Approval level '' @ num_to_string level @ '' not configured''))
     | Some l \<Rightarrow> bindA (role_of a) (\<lambda>role. case role of
         None \<Rightarrow> retA (Some ''User role not found'')
       | Some r \<Rightarrow> (let needed = member l ''role''; top = member l ''can_approve_up_to'' in
           if \<not> au_is_admin a \<and> obj_get r ''name'' \<noteq> needed
           then retA (Some (''Only '' @ to_str needed @ '' role can approve at level '' @ num_to_string level))
           else (case amount of
               None \<Rightarrow> retA None
             | Some x \<Rightarrow> if top \<noteq> Null \<and> num_lt (to_num top) x
                 then retA (Some (''Amount '' @ num_to_string x @ '' exceeds approval limit of '' @ to_str top @ '' for '' @ to_str needed))
                 else retA None)))))"

definition getCollectionConfig :: "api_env \<Rightarrow> string \<Rightarrow> jsval api" where
  "getCollectionConfig env slug = (case find (\<lambda>s. es_slug s = slug) (en_collections env) of
     None \<Rightarrow> liftA (not_found ''Collection'' slug)
   | Some s \<Rightarrow> retA (parseApprovalConfig (en_parse env) (case en_parse env (es_schema_json s) of
       Inr v \<Rightarrow> (case prop_get v ''approval_config'' of Inr c \<Rightarrow> js_or c Null | Inl e \<Rightarrow> Null) | Inl e \<Rightarrow> Null)))"

definition approval_record :: "api_env \<Rightarrow> string \<Rightarrow> string \<Rightarrow> jsnum \<Rightarrow> auth_context \<Rightarrow> jsobj option \<Rightarrow> jsval \<Rightarrow> jsval \<Rightarrow> jsobj" where
  "approval_record env slug i level a role amount comment =
     [(''id'', Str (en_uuid env ''approval'')), (''collection_slug'', Str slug), (''document_id'', Str i), (''level'', Num level),
      (''approved_by'', Str (au_user_id a)),
      (''role_name'', case role of Some r \<Rightarrow> js_or (obj_get r ''name'') (Str ''Unknown'') | None \<Rightarrow> Str ''Unknown''),
      (''amount'', amount), (''comment'', comment), (''created_at'', Str (en_stamp env))]"

definition approve_level :: "api_env \<Rightarrow> auth_context \<Rightarrow> string \<Rightarrow> string \<Rightarrow> jsnum \<Rightarrow> string option \<Rightarrow> jsnum option
    \<Rightarrow> (string \<times> jsnum option) api" where
  "approve_level env a slug i level comment amount =
     bindA (getCollectionConfig env slug) (\<lambda>config.
     bindA (canApprove a slug level config amount) (\<lambda>reason. case reason of
       Some why \<Rightarrow> liftA (forbidden why)
     | None \<Rightarrow>
         bindA (role_of a) (\<lambda>role.
         bindA (storeA (repo_create env ''_approvals'' (approval_record env slug i level a role
           (case amount of Some x \<Rightarrow> Num x | None \<Rightarrow> Null) (case comment of Some c \<Rightarrow> Str c | None \<Rightarrow> Null)))) (\<lambda>_.
         bindA (getNextLevel slug i config) (\<lambda>next.
         retA (if next = None then ''approved'' else ''approved_l'' @ num_to_string level, next))))))"

definition reject_document :: "api_env \<Rightarrow> auth_context \<Rightarrow> string \<Rightarrow> string \<Rightarrow> string option \<Rightarrow> string api" where
  "reject_document env a slug i comment =
     bindA (cachedA (\<lambda>db c. checkBusiness (en_now env) db a slug ''submit'' c)) (\<lambda>canSubmit.
     bindA (cachedA (\<lambda>db c. checkBusiness (en_now env) db a slug ''approve'' c)) (\<lambda>canApprove.
     if \<not> canSubmit \<and> \<not> canApprove then liftA (forbidden ''You do not have permission to reject documents in this collection'')
     else bindA (role_of a) (\<lambda>role.
       bindA (storeA (repo_create env ''_approvals'' (approval_record env slug i (Fin 0) a role Null
         (Str (case comment of Some c \<Rightarrow> c | None \<Rightarrow> ''Rejected''))))) (\<lambda>_. retA ''rejected''))))"

definition approval_history :: "string \<Rightarrow> string \<Rightarrow> jsobj list api" where
  "approval_history slug i w = (map_sum id pg_data (findMany (\<lambda>st r. True) ''_approvals'' (doc_approvals slug i ''asc'' (Fin 100)) (w_store w)), w)"

section \<open>Levels can be skipped\<close>

definition demo_levels :: jsval where
  "demo_levels = Obj [(''levels'', Arr [Obj [(''level'', Num (Fin 1)), (''role'', Str ''Manager''), (''can_approve_up_to'', Null)],
     Obj [(''level'', Num (Fin 2)), (''role'', Str ''CEO''), (''can_approve_up_to'', Null)]])]"

definition demo_ceo :: auth_context where
  "demo_ceo = \<lparr>au_user_id = ''u9'', au_role_id = ''r9'', au_role_name = ''CEO'', au_email = ''c'', au_is_admin = False,
     au_employee_id = None, au_tg_id = None\<rparr>"

text \<open>The caller names the level; the lower ones are not asked for.\<close>

lemma top_level_alone_approves:
  "fst (approve_level (demo_env [(''po'', plain_info ''t_po'' [])]\<lparr>en_parse := \<lambda>s. if s = ''po'' then Inr (Obj [(''approval_config'', Str ''cfg'')]) else Inr demo_levels\<rparr>)
     demo_ceo ''po'' ''d'' (Fin 2) None None
     (demo_world [(''_roles'', [[(''id'', Str ''r9''), (''name'', Str ''CEO'')]]), (''_approvals'', [])])) = Inr (''approved'', None)"
  by code_simp

end
