(* ===== verification/Idempotency.thy ===== *)
theory Idempotency
  imports JsValue
begin

text \<open>
  \<open>packages/idempotency/src/service.ts\<close>: an operation runs once per key. The table is what the statements
  leave of it; times are milliseconds (the ISO texts the code compares have the order of their times).
  \<open>JSON.parse\<close> is a parameter. Between the statements of one call other calls may run: they are steps.
\<close>

section \<open>Statements\<close>

datatype idem_status = Processing | Done | Failed

record idem_row =
  im_status :: idem_status
  im_response :: "string option"
  im_error :: "string option"
  im_created :: int
  im_updated :: int

type_synonym idem_table = "(string, idem_row) amap"

definition DEFAULT_TTL_MS :: int where
  "DEFAULT_TTL_MS = 86400000"

definition PRUNE_EVERY :: nat where
  "PRUNE_EVERY = 100"

text \<open>The INSERT with its ON CONFLICT clause: whether a row changed, and the table.\<close>

definition claim_key :: "int \<Rightarrow> int \<Rightarrow> string \<Rightarrow> idem_table \<Rightarrow> bool \<times> idem_table" where
  "claim_key now ttl key t = (case map_of t key of
     None \<Rightarrow> (True, amap_set key \<lparr>im_status = Processing, im_response = None, im_error = None, im_created = now, im_updated = now\<rparr> t)
   | Some r \<Rightarrow> if im_status r = Processing \<and> im_created r \<le> now - ttl
       then (True, amap_set key (r\<lparr>im_updated := now\<rparr>) t) else (False, t))"

datatype idem_answer = Replay string | MayRetry | Busy

definition look_up :: "string \<Rightarrow> idem_table \<Rightarrow> idem_answer" where
  "look_up key t = (case map_of t key of
     None \<Rightarrow> Busy
   | Some r \<Rightarrow> (case im_status r of
       Done \<Rightarrow> (case im_response r of Some s \<Rightarrow> Replay s | None \<Rightarrow> Busy)
     | Failed \<Rightarrow> MayRetry
     | Processing \<Rightarrow> Busy))"

definition retake :: "int \<Rightarrow> string \<Rightarrow> idem_table \<Rightarrow> bool \<times> idem_table" where
  "retake now key t = (case map_of t key of
     Some r \<Rightarrow> if im_status r = Failed then (True, amap_set key (r\<lparr>im_status := Processing, im_updated := now\<rparr>) t) else (False, t)
   | None \<Rightarrow> (False, t))"

definition serialized :: "jsval \<Rightarrow> string option" where
  "serialized v = (case json_stringify v of Str s \<Rightarrow> Some s | _ \<Rightarrow> None)"

definition finish_ok :: "int \<Rightarrow> string \<Rightarrow> jsval \<Rightarrow> idem_table \<Rightarrow> idem_table" where
  "finish_ok now key v t = (case map_of t key of
     Some r \<Rightarrow> amap_set key (r\<lparr>im_status := Done, im_response := serialized v, im_error := None, im_updated := now\<rparr>) t
   | None \<Rightarrow> t)"

definition finish_error :: "bool \<Rightarrow> int \<Rightarrow> string \<Rightarrow> string \<Rightarrow> idem_table \<Rightarrow> idem_table" where
  "finish_error recordFailures now key msg t =
     (if recordFailures
      then (case map_of t key of
          Some r \<Rightarrow> amap_set key (r\<lparr>im_status := Failed, im_error := Some msg, im_updated := now\<rparr>) t
        | None \<Rightarrow> t)
      else amap_del key t)"

section \<open>The service\<close>

definition conflict_of :: "string \<Rightarrow> 'a res" where
  "conflict_of key = Inl (JsError ''IdempotencyConflictError''
     (''a request with idempotency key '' @ [CHR 34] @ key @ [CHR 34] @ '' is already in progress''))"

definition pruneExpired :: "int \<Rightarrow> int \<Rightarrow> idem_table \<Rightarrow> nat \<times> idem_table" where
  "pruneExpired now ttlDays t = (let cutoff = now - ttlDays * 86400000; kept = filter (\<lambda>kr. \<not> im_updated (snd kr) < cutoff) t
     in (length t - length kept, kept))"

text \<open>Every hundredth success of an isolate prunes; \<open>Math.ceil\<close> of the days.\<close>

definition maybePrune :: "int \<Rightarrow> int \<Rightarrow> nat \<times> idem_table \<Rightarrow> nat \<times> idem_table" where
  "maybePrune now ttl st = (let n = fst st + 1 in
     if n mod PRUNE_EVERY = 0 then (n, snd (pruneExpired now (max 1 (- (- ttl div 86400000))) (snd st))) else (n, snd st))"

text \<open>One call without others in between, given what the operation would return.\<close>

definition run_key :: "(string \<Rightarrow> jsval res) \<Rightarrow> int \<Rightarrow> int \<Rightarrow> bool \<Rightarrow> string \<Rightarrow> jsval res \<Rightarrow> nat \<times> idem_table
    \<Rightarrow> (bool \<times> jsval) res \<times> nat \<times> idem_table" where
  "run_key parse now ttl recordFailures key outcome st =
     (let execute = (\<lambda>t. case outcome of
          Inr v \<Rightarrow> (Inr (False, v), maybePrune now ttl (fst st, finish_ok now key v t))
        | Inl e \<Rightarrow> (Inl e, fst st, finish_error recordFailures now key (err_msg e) t));
          (owned, t) = claim_key now ttl key (snd st)
      in if owned then execute t
         else (case look_up key t of
             Replay s \<Rightarrow> (map_sum id (Pair True) (parse s), fst st, t)
           | MayRetry \<Rightarrow> (let (took, t') = retake now key t in if took then execute t' else (conflict_of key, fst st, t'))
           | Busy \<Rightarrow> (conflict_of key, fst st, t)))"

definition idem_get :: "(string \<Rightarrow> jsval res) \<Rightarrow> string \<Rightarrow> idem_table \<Rightarrow> (idem_status \<times> jsval \<times> string option) option res" where
  "idem_get parse key t = (case map_of t key of
     None \<Rightarrow> Inr None
   | Some r \<Rightarrow> (case im_response r of
       Some (c # s) \<Rightarrow> bindR (parse (c # s)) (\<lambda>v. Inr (Some (im_status r, v, im_error r)))
     | _ \<Rightarrow> Inr (Some (im_status r, Undef, im_error r))))"

section \<open>The middleware of the entity routes\<close>

text \<open>
  \<open>plugins/idempotency/plugin.ts\<close>: a write with a key runs once per method, path, key and caller. The rest
  of the chain is the response it would give; SHA-256 is a parameter. Header names are in lower case.
\<close>

record http_request =
  hq_method :: string
  hq_path :: string
  hq_key :: "string option"
  hq_authorization :: "string option"

record http_response =
  hr_status :: int
  hr_headers :: "(string, string) amap"
  hr_body :: string

datatype mw_answer = Passed http_response | Refusal nat string | Cached jsval jsval jsval

definition SAFE_HEADERS :: "string list" where
  "SAFE_HEADERS = [''content-type'', ''etag'', ''location'']"

definition pickResponseHeaders :: "(string, string) amap \<Rightarrow> jsobj" where
  "pickResponseHeaders hs = concat (map (\<lambda>name. case map_of hs name of
     Some (c # v) \<Rightarrow> [(name, Str (c # v))] | _ \<Rightarrow> []) SAFE_HEADERS)"

definition idempotency_scope :: "(string \<Rightarrow> string) \<Rightarrow> http_request \<Rightarrow> string \<Rightarrow> string" where
  "idempotency_scope sha256Hex rq key =
     (let scope = hq_method rq @ ''|'' @ hq_path rq @ ''|'' @ key; authHeader = (case hq_authorization rq of Some h \<Rightarrow> h | None \<Rightarrow> []) in
      if take 7 authHeader = ''Bearer '' \<and> 7 < length authHeader then scope @ ''|auth:'' @ sha256Hex authHeader else scope)"

text \<open>What the operation returns: the response to store, or the signal that it must not be stored.\<close>

definition cacheable :: "http_response res \<Rightarrow> jsval res" where
  "cacheable next = bindR next (\<lambda>res. if 200 \<le> hr_status res \<and> hr_status res < 300
     then Inr (Obj [(''status'', Num (Fin (of_int (hr_status res)))), (''headers'', Obj (pickResponseHeaders (hr_headers res))),
       (''body'', Str (hr_body res))])
     else Inl (JsError ''NoCacheSignal'' []))"

definition cached_member :: "jsval \<Rightarrow> string \<Rightarrow> jsval" where
  "cached_member v k = (case v of Obj members \<Rightarrow> obj_get members k | _ \<Rightarrow> Undef)"

definition idempotencyMiddleware :: "(string \<Rightarrow> jsval res) \<Rightarrow> (string \<Rightarrow> string) \<Rightarrow> int \<Rightarrow> http_request \<Rightarrow> http_response res
    \<Rightarrow> nat \<times> idem_table \<Rightarrow> mw_answer res \<times> nat \<times> idem_table" where
  "idempotencyMiddleware parse sha256Hex now rq next st =
     (let key = (case hq_key rq of Some k \<Rightarrow> k | None \<Rightarrow> []) in
      if key = [] \<or> hq_method rq \<in> {''GET'', ''HEAD'', ''OPTIONS'', ''TRACE''} then (map_sum id Passed next, st)
      else if length key < 8 \<or> 255 < length key then (Inr (Refusal 400 ''Idempotency-Key must be 8-255 characters''), st)
      else (let (result, st') = run_key parse now DEFAULT_TTL_MS False (idempotency_scope sha256Hex rq key) (cacheable next) st
        in (case result of
            Inr (True, v) \<Rightarrow> Inr (Cached (cached_member v ''status'') (cached_member v ''headers'') (cached_member v ''body''))
          | Inr (False, v) \<Rightarrow> map_sum id Passed next
          | Inl e \<Rightarrow> if err_class e = ''NoCacheSignal'' then map_sum id Passed next
              else if err_class e = ''IdempotencyConflictError'' then Inr (Refusal 409 (err_msg e))
              else Inl e, st')))"

text \<open>A response that is not a success, or an error, leaves no row of its key behind: a retry runs again.\<close>

lemma failure_is_not_cached:
  assumes "key = the (hq_key rq)" "hq_key rq \<noteq> None" "8 \<le> length key" "length key \<le> 255" "hq_method rq = ''POST''"
    and "map_of t (idempotency_scope sha rq key) = None"
    and "case next of Inr res \<Rightarrow> \<not> (200 \<le> hr_status res \<and> hr_status res < 300) | Inl e \<Rightarrow> True"
  shows "map_of (snd (snd (idempotencyMiddleware parse sha now rq next (n, t)))) (idempotency_scope sha rq key) = None"
proof -
  have key: "key \<noteq> []" using assms(3) by auto
  have "\<exists>e. cacheable next = Inl e" using assms(7) by (auto simp: cacheable_def split: sum.splits)
  then obtain e where e: "cacheable next = Inl e" ..
  show ?thesis using assms(1-6) key
    by (auto simp: idempotencyMiddleware_def run_key_def e claim_key_def finish_error_def Let_def split: prod.splits)
qed

section \<open>Concurrent calls with one key\<close>

datatype idem_phase =
    Waiting | Missed | MayTake | Running | Succeeded jsval | Errored | Replied "jsval res" | Refused

type_synonym idem_state = "idem_table \<times> (nat \<Rightarrow> idem_phase)"

text \<open>\<open>fresh\<close>: every claim that meets a claim in progress comes before that one is \<open>ttl\<close> old.\<close>

inductive idem_step :: "(string \<Rightarrow> jsval res) \<Rightarrow> bool \<Rightarrow> int \<Rightarrow> bool \<Rightarrow> string \<Rightarrow> idem_state \<Rightarrow> idem_state \<Rightarrow> bool"
  for parse fresh ttl recordFailures key where
  Claim: "p c = Waiting \<Longrightarrow> claim_key now ttl key t = (owned, t') \<Longrightarrow>
    (fresh \<Longrightarrow> \<forall>r. map_of t key = Some r \<and> im_status r = Processing \<longrightarrow> now < im_created r + ttl) \<Longrightarrow>
    idem_step parse fresh ttl recordFailures key (t, p) (t', p(c := if owned then Running else Missed))"
| Look: "p c = Missed \<Longrightarrow> idem_step parse fresh ttl recordFailures key (t, p)
    (t, p(c := case look_up key t of Replay s \<Rightarrow> Replied (parse s) | MayRetry \<Rightarrow> MayTake | Busy \<Rightarrow> Refused))"
| Take: "p c = MayTake \<Longrightarrow> retake now key t = (took, t') \<Longrightarrow>
    idem_step parse fresh ttl recordFailures key (t, p) (t', p(c := if took then Running else Refused))"
| Succeed: "p c = Running \<Longrightarrow> idem_step parse fresh ttl recordFailures key (t, p) (finish_ok now key v t, p(c := Succeeded v))"
| Fail: "p c = Running \<Longrightarrow> idem_step parse fresh ttl recordFailures key (t, p) (finish_error recordFailures now key msg t, p(c := Errored))"

abbreviation idem_init :: idem_state where
  "idem_init \<equiv> ([], \<lambda>c. Waiting)"

text \<open>One caller has the key, and the row says who: nobody, a runner, or the one that succeeded.\<close>

definition owns :: "idem_phase \<Rightarrow> bool" where
  "owns ph \<longleftrightarrow> ph = Running \<or> (\<exists>v. ph = Succeeded v)"

definition one_owner :: "(string \<Rightarrow> jsval res) \<Rightarrow> string \<Rightarrow> idem_state \<Rightarrow> bool" where
  "one_owner parse key s \<longleftrightarrow> (let (t, p) = s in
     (\<forall>c d. owns (p c) \<and> owns (p d) \<longrightarrow> c = d) \<and>
     ((\<exists>c. p c = Running) \<longleftrightarrow> (\<exists>r. map_of t key = Some r \<and> im_status r = Processing)) \<and>
     (\<forall>c v. p c = Succeeded v \<longrightarrow> (\<exists>r. map_of t key = Some r \<and> im_status r = Done \<and> im_response r = serialized v)) \<and>
     (\<forall>r. map_of t key = Some r \<and> im_status r = Done \<longrightarrow> (\<exists>c v. p c = Succeeded v \<and> im_response r = serialized v)) \<and>
     (\<forall>c x. p c = Replied x \<longrightarrow> (\<exists>d v s. p d = Succeeded v \<and> serialized v = Some s \<and> x = parse s)))"

lemma one_owner_init: "one_owner parse key idem_init"
  by (simp add: one_owner_def owns_def)

lemma one_ownerD:
  assumes "one_owner parse key (t, p)"
  shows "owns (p c) \<Longrightarrow> owns (p d) \<Longrightarrow> c = d"
    "p c = Running \<Longrightarrow> \<exists>r. map_of t key = Some r \<and> im_status r = Processing"
    "map_of t key = Some r \<Longrightarrow> im_status r = Processing \<Longrightarrow> \<exists>c. p c = Running"
    "p c = Succeeded v \<Longrightarrow> \<exists>r. map_of t key = Some r \<and> im_status r = Done \<and> im_response r = serialized v"
    "map_of t key = Some r \<Longrightarrow> im_status r = Done \<Longrightarrow> \<exists>c v. p c = Succeeded v \<and> im_response r = serialized v"
    "p c = Replied x \<Longrightarrow> \<exists>d v s. p d = Succeeded v \<and> serialized v = Some s \<and> x = parse s"
  using assms unfolding one_owner_def by auto

text \<open>A caller that neither owns nor answers changes its phase to another such one.\<close>

lemma one_owner_idle:
  assumes I: "one_owner parse key (t, p)" and p: "\<not> owns (p c)" and ph: "\<not> owns ph"
    and x: "\<And>x. ph = Replied x \<Longrightarrow> \<exists>d v s. p d = Succeeded v \<and> serialized v = Some s \<and> x = parse s"
  shows "one_owner parse key (t, p(c := ph))"
proof -
  have run: "(p(c := ph)) d = Running \<longleftrightarrow> p d = Running" "(p(c := ph)) d = Succeeded v \<longleftrightarrow> p d = Succeeded v" for d v
    using p ph by (auto simp: owns_def)
  then have own: "owns ((p(c := ph)) d) \<longleftrightarrow> owns (p d)" for d by (simp add: owns_def)
  have rep: "(p(c := ph)) d = Replied y \<Longrightarrow> \<exists>d v s. p d = Succeeded v \<and> serialized v = Some s \<and> y = parse s" for d y
    using one_ownerD(6) [OF I] x by (cases "d = c") auto
  show ?thesis using I rep unfolding one_owner_def prod.case Let_def run own by blast
qed

text \<open>A caller takes the key: nobody owned it, and the row is in progress now.\<close>

lemma one_owner_taken:
  assumes I: "one_owner parse key (t, p)" and none: "\<And>d. \<not> owns (p d)"
    and r: "map_of t' key = Some r" "im_status r = Processing"
  shows "one_owner parse key (t', p(c := Running))"
  using one_ownerD(6) [OF I] none r unfolding one_owner_def by (auto simp: owns_def)

text \<open>The owner ends: the row is gone, failed, or done with its value.\<close>

lemma one_owner_ended:
  assumes I: "one_owner parse key (t, p)" and p: "p c = Running" and ph: "ph = Errored \<or> ph = Succeeded v"
    and r: "case map_of t' key of None \<Rightarrow> ph = Errored
      | Some r \<Rightarrow> if ph = Errored then im_status r = Failed else im_status r = Done \<and> im_response r = serialized v"
  shows "one_owner parse key (t', p(c := ph))"
proof -
  have other: "\<not> owns (p d)" if "d \<noteq> c" for d using one_ownerD(1) [OF I, of d c] p that by (auto simp: owns_def)
  have none: "p d \<noteq> Succeeded u" "p d \<noteq> Replied y" for d u y
  proof -
    show "p d \<noteq> Succeeded u" for d u using other [of d] p by (cases "d = c") (auto simp: owns_def)
    then show "p d \<noteq> Replied y" using one_ownerD(6) [OF I, of d y] by auto
  qed
  show ?thesis using ph
  proof
    assume "ph = Errored"
    then show ?thesis using other none r unfolding one_owner_def by (auto simp: owns_def split: option.splits)
  next
    assume "ph = Succeeded v"
    then show ?thesis using other none r unfolding one_owner_def by (auto simp: owns_def split: option.splits)
  qed
qed

lemma one_owner_step:
  "idem_step parse True ttl rf key s s' \<Longrightarrow> one_owner parse key s \<Longrightarrow> one_owner parse key s'"
proof (induction rule: idem_step.induct)
  case (Claim p c now t owned t')
  note I = Claim.prems
  show ?case
  proof (cases owned)
    case True
    have "map_of t key = None"
      using Claim.hyps(2,3) True by (auto simp: claim_key_def split: option.splits if_splits)
    then have none: "\<not> owns (p d)" for d using one_ownerD(2,4) [OF I, of d] by (auto simp: owns_def)
    have "\<exists>r. map_of t' key = Some r \<and> im_status r = Processing"
      using Claim.hyps(2) True by (auto simp: claim_key_def split: option.splits if_splits)
    then show ?thesis using one_owner_taken [OF I none] True by auto
  next
    case False
    then have "t' = t" using Claim.hyps(2) by (auto simp: claim_key_def split: option.splits if_splits)
    then show ?thesis using False one_owner_idle [OF I, of c Missed] Claim.hyps(1) by (simp add: owns_def)
  qed
next
  case (Look p c t)
  let ?ph = "case look_up key t of Replay s \<Rightarrow> Replied (parse s) | MayRetry \<Rightarrow> MayTake | Busy \<Rightarrow> Refused"
  show ?case
  proof (rule one_owner_idle [OF Look.prems])
    show "\<not> owns (p c)" "\<not> owns ?ph" using Look.hyps by (auto simp: owns_def split: idem_answer.splits)
    show "\<exists>d v s. p d = Succeeded v \<and> serialized v = Some s \<and> x = parse s" if ph: "?ph = Replied x" for x
    proof -
      obtain s where s: "look_up key t = Replay s" "x = parse s" using ph by (cases "look_up key t") auto
      then obtain r where "map_of t key = Some r" "im_status r = Done" "im_response r = Some s"
        by (auto simp: look_up_def split: option.splits idem_status.splits)
      moreover from this obtain d v where "p d = Succeeded v" "im_response r = serialized v" using one_ownerD(5) [OF Look.prems] by blast
      ultimately show ?thesis using s(2) by (intro exI [of _ d] exI [of _ v] exI [of _ s]) simp
    qed
  qed
next
  case (Take p c now t took t')
  note I = Take.prems
  show ?case
  proof (cases took)
    case True
    then obtain r where r: "map_of t key = Some r" "im_status r = Failed" "t' = amap_set key (r\<lparr>im_status := Processing, im_updated := now\<rparr>) t"
      using Take.hyps(2) by (auto simp: retake_def split: option.splits if_splits)
    then have none: "\<not> owns (p d)" for d using one_ownerD(2,4) [OF I, of d] by (auto simp: owns_def)
    show ?thesis using one_owner_taken [OF I none, of t'] r True by simp
  next
    case False
    then have "t' = t" using Take.hyps(2) by (auto simp: retake_def split: option.splits if_splits)
    then show ?thesis using False one_owner_idle [OF I, of c Refused] Take.hyps(1) by (simp add: owns_def)
  qed
next
  case (Succeed p c t now v)
  obtain r where "map_of t key = Some r" using one_ownerD(2) [OF Succeed.prems Succeed.hyps(1)] by blast
  then show ?case by (intro one_owner_ended [OF Succeed.prems Succeed.hyps(1)]) (auto simp: finish_ok_def)
next
  case (Fail p c t now msg)
  obtain r where "map_of t key = Some r" using one_ownerD(2) [OF Fail.prems Fail.hyps(1)] by blast
  then show ?case by (intro one_owner_ended [OF Fail.prems Fail.hyps(1)]) (auto simp: finish_error_def)
qed



section \<open>Stale claims\<close>

text \<open>
  A stale claim is taken over by every call, not by one. The takeover renews \<open>updated_at\<close>, but the test
  looks at \<open>created_at\<close>: once a claim is \<open>ttl\<close> old, a call that takes it over does not keep the next one
  from taking it over at the same moment, and both run the operation.
\<close>

theorem stale_claim_taken_twice:
  assumes "map_of t key = Some r" "im_status r = Processing" "im_created r + ttl \<le> now" "now \<le> later"
    "p c = Waiting" "p d = Waiting" "c \<noteq> d"
  shows "\<exists>t' p'. (idem_step parse False ttl recordFailures key)\<^sup>*\<^sup>* (t, p) (t', p') \<and> p' c = Running \<and> p' d = Running"
proof -
  let ?t1 = "amap_set key (r\<lparr>im_updated := now\<rparr>) t" and ?t2 = "amap_set key (r\<lparr>im_updated := later\<rparr>) (amap_set key (r\<lparr>im_updated := now\<rparr>) t)"
  have 1: "claim_key now ttl key t = (True, ?t1)" and 2: "claim_key later ttl key ?t1 = (True, ?t2)"
    using assms(1-4) by (simp_all add: claim_key_def)
  have "idem_step parse False ttl recordFailures key (t, p) (?t1, p(c := Running))"
    using idem_step.Claim [OF _ 1, where fresh = False and p = p and c = c] assms(5) by simp
  moreover have "idem_step parse False ttl recordFailures key (?t1, p(c := Running)) (?t2, p(c := Running, d := Running))"
    using idem_step.Claim [OF _ 2, where fresh = False and p = "p(c := Running)" and c = d] assms(6,7) by simp
  ultimately show ?thesis using assms(7) by (intro exI [of _ ?t2] exI [of _ "p(c := Running, d := Running)"]) (auto intro: rtranclp.intros)
qed

theorem stale_claim_taken_twice_witness:
  "\<exists>t' p'. (idem_step parse False 1000 True ''k'')\<^sup>*\<^sup>* ([(''k'', \<lparr>im_status = Processing, im_response = None, im_error = None, im_created = 0, im_updated = 0\<rparr>)],
     \<lambda>c. if c = 0 then Running else Waiting) (t', p') \<and> p' 1 = Running \<and> p' 2 = Running"
  by (rule stale_claim_taken_twice [where r = "\<lparr>im_status = Processing, im_response = None, im_error = None, im_created = 0, im_updated = 0\<rparr>"
      and now = 1000 and later = 1001]) simp_all

text \<open>An operation without a result leaves a row that is done and has nothing to replay: the key stays busy.\<close>

lemma void_result_blocks_key:
  "map_of t key = Some r \<Longrightarrow> im_status r = Done \<Longrightarrow> im_response r = None \<Longrightarrow>
     run_key parse now ttl rf key outcome (n, t) = (conflict_of key, n, t)"
  by (simp add: run_key_def claim_key_def look_up_def)

end
