(* ===== verification/Flags.thy ===== *)
theory Flags
  imports ServerRules
begin

unbundle bit_operations_syntax

text \<open>
  \<open>packages/flags/src/service.ts\<close> and \<open>packages/quota/src/service.ts\<close>: feature flags with percentage rollouts,
  and usage quotas over fixed windows. A table is the list of its rows; the tables exist.
\<close>

section \<open>Flags\<close>

text \<open>\<open>fnv1a\<close> over the characters; \<open>Math.imul\<close> is the product of 32-bit words.\<close>

definition rollout_hash :: "string \<Rightarrow> 32 word" where
  "rollout_hash s = fold (\<lambda>c h. (h XOR of_nat (of_char c)) * 0x01000193) s 0x811c9dc5"

record flag_entry =
  fg_key :: string
  fg_tenant :: string
  fg_enabled :: bool
  fg_rollout :: jsnum
  fg_config :: "string option"
  fg_updated :: string

record flag_input =
  fs_key :: string
  fs_tenant :: "string option"
  fs_enabled :: "bool option"
  fs_rollout :: "jsnum option"
  fs_config :: jsval

definition flag_get :: "string \<Rightarrow> string \<Rightarrow> flag_entry list \<Rightarrow> flag_entry option" where
  "flag_get key tenant rows = find (\<lambda>r. fg_key r = trim key \<and> fg_tenant r = trim tenant) rows"

definition clamp_rollout :: "jsnum \<Rightarrow> jsnum" where
  "clamp_rollout p = num_min [num_max [Fin 0, p], Fin 100]"

text \<open>NaN is bound as NULL, which the column refuses.\<close>

definition flag_set :: "string \<Rightarrow> flag_input \<Rightarrow> flag_entry list \<Rightarrow> (flag_entry \<times> flag_entry list) res" where
  "flag_set stamp i rows =
     (let key = trim (fs_key i); tenant = trim (given_or (fs_tenant i) []); pct = clamp_rollout (given_or (fs_rollout i) (Fin 100));
          r = \<lparr>fg_key = key, fg_tenant = tenant, fg_enabled = (fs_enabled i \<noteq> Some False), fg_rollout = pct,
               fg_config = (if fs_config i = Undef then None else case json_stringify (fs_config i) of Str s \<Rightarrow> Some s | _ \<Rightarrow> None),
               fg_updated = stamp\<rparr>
      in if key = [] then throw ''flag key is required''
         else if pct = NaN then throw ''NOT NULL constraint failed: _feature_flags.rollout_pct''
         else Inr (r, if flag_get key tenant rows = None then rows @ [r]
           else map (\<lambda>x. if fg_key x = key \<and> fg_tenant x = tenant then r else x) rows))"

definition in_rollout :: "jsnum \<Rightarrow> string \<Rightarrow> string \<Rightarrow> bool" where
  "in_rollout pct seed key \<longleftrightarrow> num_le (Fin 100) pct \<or> num_lt (Fin (of_nat (unat (rollout_hash (seed @ '':'' @ key)) mod 100))) pct"

definition flag_row :: "string \<Rightarrow> string \<Rightarrow> flag_entry list \<Rightarrow> flag_entry option" where
  "flag_row key tenant rows = (case flag_get key tenant rows of Some r \<Rightarrow> Some r | None \<Rightarrow> flag_get key [] rows)"

definition flag_evaluate :: "(string \<Rightarrow> jsval res) \<Rightarrow> string \<Rightarrow> string option \<Rightarrow> string option \<Rightarrow> bool \<Rightarrow> jsval \<Rightarrow> flag_entry list \<Rightarrow> (bool \<times> jsval) res" where
  "flag_evaluate parse key tenant seed defaultOn defaultConfig rows =
     (let t = trim (given_or tenant []) in
      case flag_row key t rows of
        None \<Rightarrow> Inr (defaultOn, nullish_or defaultConfig Null)
      | Some r \<Rightarrow>
          (let on = fg_enabled r \<and> in_rollout (fg_rollout r) (given_or seed t) key in
           case fg_config r of
             Some (c # s) \<Rightarrow> map_sum id (Pair on) (parse (c # s))
           | _ \<Rightarrow> Inr (on, Null)))"

definition flag_list :: "string \<Rightarrow> flag_entry list \<Rightarrow> flag_entry list" where
  "flag_list tenant rows = (if trim tenant \<noteq> [] then order_by fg_key (filter (\<lambda>r. fg_tenant r = trim tenant) rows)
     else order_by fg_tenant (order_by fg_key rows))"

definition flag_remove :: "string \<Rightarrow> string \<Rightarrow> flag_entry list \<Rightarrow> bool \<times> flag_entry list" where
  "flag_remove key tenant rows = (flag_get key tenant rows \<noteq> None, filter (\<lambda>r. \<not> (fg_key r = trim key \<and> fg_tenant r = trim tenant)) rows)"

section \<open>Quotas\<close>

record quota_row =
  qr_key :: string
  qr_window :: int
  qr_used :: jsnum
  qr_max :: jsnum
  qr_updated :: string

record quota_result =
  qt_allowed :: bool
  qt_used :: jsnum
  qt_limit :: jsnum
  qt_reset :: int

text \<open>The window of a time, and its length in seconds.\<close>

definition window_seconds :: "int \<Rightarrow> int" where
  "window_seconds windowMs = max 1 (windowMs div 1000)"

definition window_of :: "int \<Rightarrow> int \<Rightarrow> int" where
  "window_of now windowMs = now div 1000 div window_seconds windowMs"

definition reset_at :: "int \<Rightarrow> int \<Rightarrow> int" where
  "reset_at now windowMs = (window_of now windowMs + 1) * window_seconds windowMs * 1000"

definition quota_row_of :: "string \<Rightarrow> quota_row list \<Rightarrow> quota_row option" where
  "quota_row_of k rows = find (\<lambda>r. qr_key r = k) rows"

text \<open>One UPSERT: a new window starts from the amount, the same one adds to it.\<close>

definition quota_upsert :: "quota_row \<Rightarrow> quota_row list \<Rightarrow> quota_row \<times> quota_row list" where
  "quota_upsert e rows = (case quota_row_of (qr_key e) rows of
     None \<Rightarrow> (e, rows @ [e])
   | Some r \<Rightarrow> (let r' = (if qr_window r = qr_window e then e\<lparr>qr_used := num_add (qr_used r) (qr_used e)\<rparr> else e)
       in (r', map (\<lambda>x. if qr_key x = qr_key e then r' else x) rows)))"

definition quota_consume :: "int \<Rightarrow> string \<Rightarrow> string \<Rightarrow> jsnum \<Rightarrow> jsnum \<Rightarrow> int \<Rightarrow> quota_row list \<Rightarrow> (quota_result \<times> quota_row list) res" where
  "quota_consume now stamp key amount limit windowMs rows =
     (if \<not> is_finite_num amount \<or> num_lt amount (Fin 0) then throw ''quota amount must be a finite non-negative number''
      else if trim key = [] then throw ''quota key is required''
      else (let (r, rows') = quota_upsert \<lparr>qr_key = trim key, qr_window = window_of now windowMs, qr_used = amount, qr_max = limit, qr_updated = stamp\<rparr> rows
        in Inr (\<lparr>qt_allowed = num_le (qr_used r) (qr_max r), qt_used = qr_used r, qt_limit = qr_max r, qt_reset = reset_at now windowMs\<rparr>, rows')))"

definition quota_peek :: "int \<Rightarrow> string \<Rightarrow> int \<Rightarrow> quota_row list \<Rightarrow> quota_result" where
  "quota_peek now key windowMs rows =
     (let row = find (\<lambda>r. qr_key r = trim key \<and> qr_window r = window_of now windowMs) rows;
          used = (case row of Some r \<Rightarrow> qr_used r | None \<Rightarrow> Fin 0); top = (case row of Some r \<Rightarrow> qr_max r | None \<Rightarrow> Fin 0)
      in \<lparr>qt_allowed = num_le used top, qt_used = used, qt_limit = top, qt_reset = reset_at now windowMs\<rparr>)"

definition quota_reset :: "string \<Rightarrow> quota_row list \<Rightarrow> bool \<times> quota_row list" where
  "quota_reset key rows = (quota_row_of (trim key) rows \<noteq> None, filter (\<lambda>r. qr_key r \<noteq> trim key) rows)"

text \<open>\<open>ORDER BY updated_at DESC LIMIT\<close>, between 1 and 500 rows.\<close>

definition quota_list :: "int \<Rightarrow> quota_row list \<Rightarrow> quota_row list" where
  "quota_list limit rows = take (nat (min (max 1 limit) 500)) (rev (order_by qr_updated rows))"

section \<open>Properties\<close>

lemma num_lt_le_trans: "num_lt (Fin a) p \<Longrightarrow> num_le p q \<Longrightarrow> num_lt (Fin a) q"
  by (cases p; cases q) (auto simp: num_lt_def num_le_def num_eq_def is_finite_num_def split: if_splits)

lemma num_le_le_trans: "num_le (Fin a) p \<Longrightarrow> num_le p q \<Longrightarrow> num_le (Fin a) q"
  by (cases p; cases q) (auto simp: num_lt_def num_le_def num_eq_def is_finite_num_def split: if_splits)

text \<open>
  A rollout only grows. The decision for a seed depends on the seed and the key alone: nobody is in a
  rollout of 0 percent, everybody in one of 100, and whoever is in one is in every larger one.
\<close>

lemma rollout_only_grows:
  "\<not> in_rollout (Fin 0) seed key" "in_rollout (Fin 100) seed key"
  "in_rollout p seed key \<Longrightarrow> num_le p q \<Longrightarrow> in_rollout q seed key"
proof -
  show "\<not> in_rollout (Fin 0) seed key" "in_rollout (Fin 100) seed key"
    by (simp_all add: in_rollout_def num_lt_def num_le_def num_eq_def is_finite_num_def num_val_def)
  show "in_rollout p seed key \<Longrightarrow> num_le p q \<Longrightarrow> in_rollout q seed key"
    unfolding in_rollout_def using num_le_le_trans num_lt_le_trans by blast
qed

text \<open>What is used of a quota is charged also when it is not allowed: a denied call can use up the window.\<close>

lemma denied_amount_is_charged:
  assumes "quota_row_of (trim key) rows = Some r" "qr_window r = window_of now windowMs"
    "is_finite_num amount" "\<not> num_lt amount (Fin 0)" "trim key \<noteq> []"
  shows "\<exists>a rows'. quota_consume now stamp key amount limit windowMs rows =
      Inr (\<lparr>qt_allowed = a, qt_used = num_add (qr_used r) amount, qt_limit = limit, qt_reset = reset_at now windowMs\<rparr>, rows')"
  using assms by (simp add: quota_consume_def quota_upsert_def Let_def)

end
