(* ===== verification/Spec2Isabelle.thy ===== *)
theory Spec2Isabelle
  imports UtilsClaims QueryBuilderClaims SchemaBuilder CacheLayer Locks EvaluatorSpec CronTz SchedulerClaims
    OutboxClaims WorkflowClaims AuthzClaims HtmlClaims ComputedClaims FieldUtilsClaims
    CascadeClaims Naming DecisionTable TrashClaims LookupClaims RelationClaims
    ApprovalClaims RepositoryClaims Approvals Idempotency Flags
begin

text \<open>
  A verification library for the headless ERP: a TypeScript backend for Cloudflare Workers (an API
  with a pipeline of plugins, a D1/SQLite database, Durable Objects for locks and alarms) and the
  packages it is built from.

  \<^bold>\<open>Parts and theories.\<close> Paths are below \<open>src/\<close>.

  \<^item> \<open>Prelude\<close>, \<open>JsString\<close>, \<open>JsNum\<close>, \<open>JsValue\<close>, \<open>JsDate\<close>: the JavaScript the code is written in.
    A function that may throw is a function into \<open>js_error + 'a\<close>; a \<open>Map\<close>, a \<open>Set\<close> or an object is an
    association list in insertion order; a number is an IEEE-754 double (a rational that is rounded
    after every operation, with infinities, NaN and the negative zero); a string is a list of 8-bit
    characters, so ASCII text is exact and other text stands for its UTF-8 bytes.
  \<^item> \<open>Utils\<close>, \<open>UtilsClaims\<close>, \<open>Html\<close>, \<open>HtmlClaims\<close>: \<open>packages/utils\<close> (identifier sanitizer, table names,
    validators, the Myanmar-time windows, the sanitizer of rich text).
  \<^item> \<open>SqlParams\<close>, \<open>QueryBuilder\<close>, \<open>QueryBuilderParams\<close>, \<open>QueryBuilderClaims\<close>, \<open>SchemaBuilder\<close>:
    \<open>packages/core/src/db/query-builder.ts\<close> and \<open>schema-builder.ts\<close>. A builder is a record of the
    fields of its class, every method a function on it, every generator gives the text and the
    bindings it would return.
  \<^item> \<open>CacheLayer\<close>: \<open>packages/core/src/cache\<close>, the tag-indexed cache and the response cache over it.
  \<^item> \<open>Tokenizer\<close>, \<open>Evaluator\<close>, \<open>EvaluatorTotal\<close>, \<open>EvaluatorSpec\<close>: the formula language of
    \<open>packages/core/src/entity/expression\<close>, its parser that evaluates as it reads, and a reference
    semantics of an abstract syntax with a printer.
  \<^item> \<open>Locks\<close>: \<open>packages/locks\<close>, the Durable Object, the service and the handle that renews a lease.
  \<^item> \<open>Cron\<close>, \<open>CronClaims\<close>, \<open>CronTz\<close>, \<open>Scheduler\<close>, \<open>SchedulerClaims\<close>: \<open>packages/scheduler\<close>, the cron
    dialect in UTC and in time zones, the task table with its alarms, retries and watchdog.
  \<^item> \<open>PluginHooks\<close>, \<open>Marketplace\<close>, \<open>Outbox\<close>, \<open>OutboxClaims\<close>, \<open>Workflow\<close>, \<open>WorkflowClaims\<close>: the plugin
    hooks, the interceptor chain, the durable queue of side effects and the workflow engine of
    \<open>apps/api/src\<close>.
  \<^item> \<open>Authz\<close>, \<open>AuthzClaims\<close>: the file policies, the cached permission checks, the row and field
    filters of \<open>apps/api/src/lib/services\<close>, over the cache of \<open>CacheLayer\<close>.

  \<^item> \<open>Entity\<close>, \<open>Computed\<close>, \<open>ComputedClaims\<close>, \<open>FieldUtils\<close>, \<open>FieldUtilsClaims\<close>: field definitions and
    system columns (\<open>packages/types/src/entity.ts\<close>), formula fields and their evaluation orders
    (\<open>packages/core/src/entity/computed.ts\<close>), and the way between request bodies and table rows with
    the document-status machine (\<open>field-utils.ts\<close>).

  \<^item> \<open>Store\<close>, \<open>Collections\<close>: the database under the collection services (tables of rows, atomic
    batches, handlers that await as functions of the state), and what those services share
    (\<open>collection.shared.ts\<close>: what is known of a collection, write policies, row access).
  \<^item> \<open>Cascade\<close>, \<open>CascadeClaims\<close>, \<open>Naming\<close>, \<open>DecisionTable\<close>: cascading deletes and junction rows
    (\<open>collection-cascade.service.ts\<close>), document numbers (\<open>naming.service.ts\<close>), and the rule tables of
    \<open>plugins/decision-table\<close>.
  \<^item> \<open>ServerRules\<close>, \<open>Relations\<close>, \<open>ChildTables\<close>, \<open>Lookups\<close>, \<open>FieldCrypt\<close>, \<open>LookupClaims\<close>, \<open>RelationClaims\<close>: the linkage
    engine and the stored rules (\<open>linkage-engine.ts\<close>, \<open>plugins/server-functions\<close>), the expansion of
    relations (\<open>relation-resolver.ts\<close>, \<open>plugins/m2a\<close>), rows embedded in a parent
    (\<open>plugins/child-tables\<close>), the rows a formula looks at (\<open>computed-field.service.ts\<close>) and the encryption
    of fields (\<open>field-encryption.service.ts\<close>).
  \<^item> \<open>WriteGuards\<close>, \<open>Mutation\<close>, \<open>MutationClaims\<close>, \<open>UpdateClaims\<close>, \<open>TrashClaims\<close>:
    \<open>collection-mutation.service.ts\<close>, which creates, updates, trashes, restores and deletes the rows of
    every collection: its checks, and the handlers from the first check to the last effect.
  \<^item> \<open>ApprovalFlow\<close>, \<open>ApprovalClaims\<close>, \<open>Approvals\<close>: the approval workflow of documents
    (\<open>workflow.service.ts\<close>, one slot per level and round) and the older approval hierarchy
    (\<open>plugins/approvals\<close>).
  \<^item> \<open>Repository\<close>, \<open>RepositoryClaims\<close>: the generic repository \<open>packages/core/src/db/repository.ts\<close> over the
    query builder, with its cursors.
  \<^item> \<open>Idempotency\<close>, \<open>Flags\<close>: \<open>packages/idempotency\<close> with the middleware that uses it, \<open>packages/flags\<close> and
    \<open>packages/quota\<close>.

  \<^bold>\<open>How the parts meet.\<close> The permission evaluator runs on the tag-indexed cache and its
  properties rest on the lemmas of the cache; the workflow engine runs guards through the formula
  evaluator, enqueues side effects on the outbox and dispatches hooks; the outbox executes the
  interceptor chain; the scheduler asks the cron walker for the next run. The handlers of
  \<open>Mutation\<close> bring most of this together: they ask the permission evaluator, run rules, hooks,
  plugins and decision tables over the payload, turn it into columns, evaluate the stored formulas
  over the rows of related collections, write one batch, and then cascade, recompute the parents and
  drop the cached reads.

  \<^bold>\<open>What the lemmas show.\<close> The parameter discipline of the SQL statements is proved once in the
  locale \<open>param_renderer\<close>, interpreted on every routine that renders text and bindings; invariants
  of step relations are proved over the locale \<open>step_invariant\<close> or by rule induction. What a handler
  of \<open>Mutation\<close> may change is a reflexive and transitive relation between the worlds before and
  after (locale \<open>world_order\<close>): it holds of the handler, errors included, once it holds of its steps. State
  machines (locks, scheduler, outbox, workflow) are step relations whose steps interleave where the
  code awaits.

  \<^bold>\<open>Fuel and bounds.\<close> The formula parser is recursive through its methods; \<open>fuel_for\<close> gives it
  fuel from the number of tokens, and \<open>EvaluatorTotal\<close> shows that this is enough and that more
  changes nothing. The cron walk has the bound of the code (ten years of days). The other functions
  are structurally recursive or have a measure.

  \<^bold>\<open>Parameters.\<close> What is not in the repository is an argument: the clock, random UUIDs,
  \<open>JSON.parse\<close> of stored texts, \<open>Intl\<close>, the workers behind service bindings, the \<open>Math\<close> functions of
  formulas, AES-GCM under the key of the deployment.

  \<^bold>\<open>Not modelled.\<close> The user interfaces (\<open>apps/studio\<close>, \<open>packages/design-system\<close>,
  \<open>packages/ui-views\<close>, \<open>packages/sdk-react\<close>) are React components; the command line
  (\<open>packages/cli\<close>) is file and process I/O; the HTTP routes are glue over the services; Web Crypto, the mail and
  Telegram providers, R2 and the D1 driver are outside the repository; migrations are data. Of the API the
  list and read pipelines (\<open>collection-query.service.ts\<close>), schema changes and the plugins with tables of
  their own (jobs, views, templates, reports and the like) remain: they compose the statements, filters,
  resolvers and formulas that are modelled here. In \<open>Mutation\<close> an audit row, a webhook, a media
  reference and a hook that is not awaited are entries of a log, and what a hook writes through the
  database it is given is left out. Typographic dashes in messages are written as hyphens.
\<close>

end
